(* ===== verification/Prelude.thy ===== *)
theory Prelude
  imports Main "HOL-Library.Word"
begin

text \<open>
  Shared vocabulary of the development.

  \<^item> The result type of every fallible operation: a value, an error status, a memory fault
    (a read or write outside the object it addresses, a division by zero or a null
    dereference, all undefined in C), or running out of the fuel given to a loop whose
    termination depends on the data on disk.
  \<^item> Fixed-width arithmetic on naturals with the wrap-around written out.
  \<^item> Memory as lists of bytes: bounds-checked loads and stores, the little-endian loads
    of the target and the byte-swapping macros that turn them into big-endian values.
  \<^item> The linear search that a C \<open>for\<close> loop with a \<open>break\<close> performs.
\<close>

unbundle bit_operations_syntax

named_theorems arith32 \<open>unfolding rules of the fixed-width arithmetic\<close>
named_theorems load_simps \<open>rules that evaluate bounds-checked loads\<close>

type_synonym byte = "8 word"
type_synonym u16 = "16 word"
type_synonym u32 = "32 word"
type_synonym u64 = "64 word"

section \<open>Outcomes\<close>

datatype ('e, 'a) outcome = Ok 'a | Err 'e | Fault | Diverge

fun obind :: "('e, 'a) outcome \<Rightarrow> ('a \<Rightarrow> ('e, 'b) outcome) \<Rightarrow> ('e, 'b) outcome" where
  "obind (Ok x) f = f x"
| "obind (Err e) f = Err e"
| "obind Fault f = Fault"
| "obind Diverge f = Diverge"

lemma obind_Ok_iff: "obind m f = Ok y \<longleftrightarrow> (\<exists>x. m = Ok x \<and> f x = Ok y)"
  by (cases m) auto

lemma obind_Ok_right [simp]: "obind m Ok = m"
  by (cases m) auto

lemma obind_assoc: "obind (obind m f) g = obind m (\<lambda>x. obind (f x) g)"
  by (cases m) auto

text \<open>A load outside its object is a fault.\<close>

fun of_load :: "'a option \<Rightarrow> ('e, 'a) outcome" where
  "of_load (Some x) = Ok x"
| "of_load None = Fault"

lemma of_load_Ok_iff [simp]: "of_load m = Ok x \<longleftrightarrow> m = Some x"
  by (cases m) auto

lemma of_load_Fault_iff [simp]: "of_load m = Fault \<longleftrightarrow> m = None"
  by (cases m) auto

lemma of_load_not_Err [simp]: "of_load m \<noteq> Err e"
  by (cases m) auto

section \<open>Stateful operations\<close>

text \<open>
  An operation on a state: its outcome and the state it leaves. Sequencing stops at the first
  outcome that is not a value; \<open>on_err\<close> is the clean-up a C function performs on the way
  out after an error status.
\<close>

type_synonym ('e, 's, 'a) sop = "'s \<Rightarrow> ('e, 'a) outcome \<times> 's"

definition sret :: "'a \<Rightarrow> ('e, 's, 'a) sop" where
  "sret x = (\<lambda>s. (Ok x, s))"

definition sfail :: "'e \<Rightarrow> ('e, 's, 'a) sop" where
  "sfail e = (\<lambda>s. (Err e, s))"

definition sload :: "'a option \<Rightarrow> ('e, 's, 'a) sop" where
  "sload m = (\<lambda>s. (of_load m, s))"

definition sget :: "('s \<Rightarrow> 'a) \<Rightarrow> ('e, 's, 'a) sop" where
  "sget f = (\<lambda>s. (Ok (f s), s))"

definition smod :: "('s \<Rightarrow> 's) \<Rightarrow> ('e, 's, unit) sop" where
  "smod f = (\<lambda>s. (Ok (), f s))"

definition sbind :: "('e, 's, 'a) sop \<Rightarrow> ('a \<Rightarrow> ('e, 's, 'b) sop) \<Rightarrow> ('e, 's, 'b) sop" where
  "sbind m f = (\<lambda>s. case m s of
     (Ok x, s') \<Rightarrow> f x s' | (Err e, s') \<Rightarrow> (Err e, s') | (Fault, s') \<Rightarrow> (Fault, s') | (Diverge, s') \<Rightarrow> (Diverge, s'))"

definition sthen :: "('e, 's, 'a) sop \<Rightarrow> ('e, 's, 'b) sop \<Rightarrow> ('e, 's, 'b) sop" where
  "sthen m k = sbind m (\<lambda>_. k)"

definition on_err :: "('e, 's, 'a) sop \<Rightarrow> ('e, 's, 'b) sop \<Rightarrow> ('e, 's, 'a) sop" where
  "on_err m clean = (\<lambda>s. case m s of
     (Err e, s') \<Rightarrow> (case clean s' of
         (Fault, s'') \<Rightarrow> (Fault, s'') | (Diverge, s'') \<Rightarrow> (Diverge, s'') | (_, s'') \<Rightarrow> (Err e, s''))
   | r \<Rightarrow> r)"

named_theorems sop_simps \<open>evaluation of stateful operations\<close>

lemma sop_basic [sop_simps]:
  "sret x s = (Ok x, s)" "sfail e s = (Err e, s)" "sload m s = (of_load m, s)"
  "sget f s = (Ok (f s), s)" "smod g s = (Ok (), g s)" "sthen p k s = sbind p (\<lambda>_. k) s"
  by (simp_all add: sret_def sfail_def sload_def sget_def smod_def sthen_def)

lemma sbind_eqs [sop_simps]:
  "m s = (Ok x, s') \<Longrightarrow> sbind m f s = f x s'"
  "m s = (Err e, s') \<Longrightarrow> sbind m f s = (Err e, s')"
  "m s = (Fault, s') \<Longrightarrow> sbind m f s = (Fault, s')"
  "m s = (Diverge, s') \<Longrightarrow> sbind m f s = (Diverge, s')"
  by (simp_all add: sbind_def)

lemma sbind_Ok_iff:
  "sbind m f s = (Ok y, s'') \<longleftrightarrow> (\<exists>x s'. m s = (Ok x, s') \<and> f x s' = (Ok y, s''))"
  by (auto simp: sbind_def split: prod.splits outcome.splits)

section \<open>Fixed-width arithmetic on naturals\<close>

definition add32 :: "nat \<Rightarrow> nat \<Rightarrow> nat" where
  "add32 a b = (a + b) mod 2 ^ 32"

definition mul32 :: "nat \<Rightarrow> nat \<Rightarrow> nat" where
  "mul32 a b = (a * b) mod 2 ^ 32"

definition sub32 :: "nat \<Rightarrow> nat \<Rightarrow> nat" where
  "sub32 a b = (a + (2 ^ 32 - b mod 2 ^ 32)) mod 2 ^ 32"

definition sub16 :: "nat \<Rightarrow> nat \<Rightarrow> nat" where
  "sub16 a b = (a + (2 ^ 16 - b mod 2 ^ 16)) mod 2 ^ 16"

lemma add32_small [arith32]: "a + b < 2 ^ 32 \<Longrightarrow> add32 a b = a + b"
  by (simp add: add32_def)

lemma mul32_small [arith32]: "a * b < 2 ^ 32 \<Longrightarrow> mul32 a b = a * b"
  by (simp add: mul32_def)

lemma wrap_sub:
  fixes a b n :: nat
  assumes "b \<le> a" and "a < n"
  shows "(a + (n - b mod n)) mod n = a - b"
proof -
  from assms have "a + (n - b mod n) = (a - b) + n" by simp
  moreover from assms have "((a - b) + n) mod n = a - b" by (simp only: mod_add_self2 mod_less)
  ultimately show ?thesis by simp
qed

lemma sub32_small [arith32]: "b \<le> a \<Longrightarrow> a < 2 ^ 32 \<Longrightarrow> sub32 a b = a - b"
  unfolding sub32_def by (rule wrap_sub)

lemma sub16_small [arith32]: "b \<le> a \<Longrightarrow> a < 2 ^ 16 \<Longrightarrow> sub16 a b = a - b"
  unfolding sub16_def by (rule wrap_sub)

lemma sub16_0_1: "sub16 0 1 = 65535"
  by (simp add: sub16_def)

lemma add32_bound [simp]: "add32 a b < 2 ^ 32"
  by (simp add: add32_def)

text \<open>Masking with \<open>n - 1\<close> is reduction modulo a power of two.\<close>

lemma and_pow2_minus1: "(x :: nat) AND (2 ^ k - 1) = x mod 2 ^ k"
proof -
  have "(2 :: nat) ^ k - 1 = mask k" by (simp add: mask_eq_exp_minus_1)
  then show ?thesis by (simp add: take_bit_eq_mask flip: take_bit_eq_mod)
qed

text \<open>Putting \<open>k\<close> low bits below a shifted value is addition.\<close>

lemma push_bit_or_low:
  assumes "b < 2 ^ k"
  shows "push_bit k a OR b = 2 ^ k * a + (b :: nat)"
proof -
  have "b = take_bit k b" using assms by (simp add: take_bit_nat_eq_self)
  then have "bit b n \<Longrightarrow> \<not> k \<le> n" for n by (metis bit_take_bit_iff leD)
  then have "push_bit k a AND b = 0" by (intro bit_eqI) (auto simp: bit_simps)
  then have "push_bit k a OR b = push_bit k a + b" by (simp add: disjunctive_add_eq_or)
  then show ?thesis by (simp add: push_bit_eq_mult mult.commute)
qed

lemma unat_byte_bound: "unat (x :: byte) < 2 ^ 8"
  using unsigned_less [of x] by simp

section \<open>Linear search\<close>

text \<open>
  The value of \<open>i\<close> after \<open>for (i = 0; i < n; i++) if (P (xs[i])) break;\<close>.
\<close>

definition first_idx :: "('a \<Rightarrow> bool) \<Rightarrow> 'a list \<Rightarrow> nat" where
  "first_idx P xs = length (takeWhile (\<lambda>x. \<not> P x) xs)"

lemma first_idx_Nil [simp]: "first_idx P [] = 0"
  by (simp add: first_idx_def)

lemma first_idx_Cons: "first_idx P (x # xs) = (if P x then 0 else Suc (first_idx P xs))"
  by (simp add: first_idx_def)

lemma first_idx_le: "first_idx P xs \<le> length xs"
  by (simp add: first_idx_def length_takeWhile_le)

lemma first_idx_hit: "first_idx P xs < length xs \<Longrightarrow> P (xs ! first_idx P xs)"
  unfolding first_idx_def using nth_length_takeWhile by fastforce

lemma first_idx_before: "j < first_idx P xs \<Longrightarrow> \<not> P (xs ! j)"
  unfolding first_idx_def
  by (metis nth_mem set_takeWhileD takeWhile_nth)

lemma first_idx_miss: "\<not> first_idx P xs < length xs \<Longrightarrow> x \<in> set xs \<Longrightarrow> \<not> P x"
  by (induction xs) (auto simp: first_idx_Cons split: if_splits)

lemma first_idx_less_iff: "first_idx P xs < length xs \<longleftrightarrow> (\<exists>x \<in> set xs. P x)"
  by (induction xs) (auto simp: first_idx_Cons)

lemma first_idx_unique:
  assumes "i < length xs" and "P (xs ! i)" and "\<And>j. j < i \<Longrightarrow> \<not> P (xs ! j)"
  shows "first_idx P xs = i"
proof (rule ccontr)
  assume "first_idx P xs \<noteq> i"
  then consider "first_idx P xs < i" | "i < first_idx P xs" by linarith
  then show False
  proof cases
    case 1
    with assms have "P (xs ! first_idx P xs)" by (simp add: first_idx_hit)
    with 1 assms(3) show False by blast
  next
    case 2
    with assms(2) show False using first_idx_before by blast
  qed
qed

section \<open>Bytes\<close>

text \<open>
  Loads of 2, 4 and 8 bytes at an offset of a memory object, as the little-endian target
  performs them, and the byte-swap macros of the source applied to what they return.
\<close>

definition load8 :: "byte list \<Rightarrow> nat \<Rightarrow> byte option" where
  "load8 m i = (if i < length m then Some (m ! i) else None)"

definition le16 :: "byte list \<Rightarrow> nat \<Rightarrow> u16 option" where
  "le16 m i = (if i + 2 \<le> length m
     then Some (ucast (m ! i) OR push_bit 8 (ucast (m ! (i + 1)))) else None)"

definition le32 :: "byte list \<Rightarrow> nat \<Rightarrow> u32 option" where
  "le32 m i = (if i + 4 \<le> length m
     then Some (ucast (m ! i) OR push_bit 8 (ucast (m ! (i + 1))) OR
       push_bit 16 (ucast (m ! (i + 2))) OR push_bit 24 (ucast (m ! (i + 3)))) else None)"

definition le64 :: "byte list \<Rightarrow> nat \<Rightarrow> u64 option" where
  "le64 m i = (case (le32 m i, le32 m (i + 4)) of
     (Some lo, Some hi) \<Rightarrow> Some (ucast lo OR push_bit 32 (ucast hi)) | _ \<Rightarrow> None)"

text \<open>A copy of \<open>n\<close> bytes out of an object, and a store of bytes into one.\<close>

definition load_bytes :: "'a list \<Rightarrow> nat \<Rightarrow> nat \<Rightarrow> 'a list option" where
  "load_bytes m i n = (if i + n \<le> length m then Some (take n (drop i m)) else None)"

definition store_bytes :: "'a list \<Rightarrow> nat \<Rightarrow> 'a list \<Rightarrow> 'a list option" where
  "store_bytes m i bs = (if i + length bs \<le> length m
     then Some (take i m @ bs @ drop (i + length bs) m) else None)"

lemma load8_Some [load_simps]: "i < length m \<Longrightarrow> load8 m i = Some (m ! i)"
  by (simp add: load8_def)

lemma load_bytes_Some [load_simps]: "i + n \<le> length m \<Longrightarrow> load_bytes m i n = Some (take n (drop i m))"
  by (simp add: load_bytes_def)

lemma load_bytes_length: "load_bytes m i n = Some bs \<Longrightarrow> length bs = n"
  by (auto simp: load_bytes_def split: if_splits)

lemma store_bytes_length: "store_bytes m i bs = Some m' \<Longrightarrow> length m' = length m"
  by (auto simp: store_bytes_def split: if_splits)

lemma load_store_same:
  "store_bytes m i bs = Some m' \<Longrightarrow> load_bytes m' i (length bs) = Some bs"
  by (auto simp: store_bytes_def load_bytes_def split: if_splits)

lemma store_bytes_nth:
  assumes "store_bytes m i bs = Some m'" and "j < length m"
  shows "m' ! j = (if i \<le> j \<and> j < i + length bs then bs ! (j - i) else m ! j)"
  using assms by (auto simp: store_bytes_def nth_append min_def split: if_splits)

lemma load_store_other:
  assumes st: "store_bytes m i bs = Some m'" and dj: "j + n \<le> i \<or> i + length bs \<le> j"
  shows "load_bytes m' j n = load_bytes m j n"
proof (cases "j + n \<le> length m")
  case True
  have len: "length m' = length m" using st by (rule store_bytes_length)
  have "take n (drop j m') = take n (drop j m)"
  proof (rule nth_equalityI)
    show "length (take n (drop j m')) = length (take n (drop j m))" using len by simp
  next
    fix k assume "k < length (take n (drop j m'))"
    with True len have k: "k < n" "j + k < length m" by auto
    have "m' ! (j + k) = m ! (j + k)"
      using store_bytes_nth [OF st k(2)] dj k(1) by auto
    with True len k show "take n (drop j m') ! k = take n (drop j m) ! k" by simp
  qed
  with True len show ?thesis by (simp add: load_bytes_def)
next
  case False
  with store_bytes_length [OF st] show ?thesis by (simp add: load_bytes_def)
qed

end
