(* ===== verification/FswTypes.thy ===== *)
theory FswTypes
  imports Prelude
begin

text \<open>
  The data model of the HFS+ driver: the types of \<^verbatim>\<open>OpenHfsPlus/fsw_core.h\<close> and
  \<^verbatim>\<open>OpenHfsPlus/fsw_hfsplus.h\<close>. A structure is a record with the source's field names (a
  prefix where a name is taken in HOL); \<open>fsw_u16\<close>, \<open>fsw_u32\<close> and \<open>fsw_u64\<close>
  fields are naturals, and the operations that can leave the width wrap explicitly. A
  pointer to a dnode is an address into the store kept in the volume; a null pointer is
  \<open>None\<close>. The host environment (device access, pool allocator) is a record of functions
  that every operation which reaches the host takes as an argument.
\<close>

section \<open>Status codes, kinds and constants\<close>

datatype fsw_status =
  FSW_OUT_OF_MEMORY | FSW_IO_ERROR | FSW_UNSUPPORTED | FSW_NOT_FOUND |
  FSW_VOLUME_CORRUPTED | FSW_UNKNOWN_ERROR

type_synonym 'a fsw_res = "(fsw_status, 'a) outcome"

datatype fsw_string_type =
  STR_EMPTY | STR_ISO88591 | STR_UTF8 | STR_UTF16 | STR_UTF16_SWAPPED

datatype fsw_dnode_type =
  TYPE_UNKNOWN | TYPE_FILE | TYPE_DIR | TYPE_SYMLINK | TYPE_SPECIAL

datatype fsw_extent_type =
  EXT_INVALID | EXT_SPARSE | EXT_PHYSBLOCK | EXT_BUFFER

definition FSW_INVALID_BNO :: nat where
  "FSW_INVALID_BNO = 2 ^ 32 - 1"

definition MAX_CACHE_LEVEL :: nat where
  "MAX_CACHE_LEVEL = 5"

definition FSW_PATH_MAX :: nat where
  "FSW_PATH_MAX = 4096"

section \<open>Structures\<close>

text \<open>
  A string carries its encoding, its length in characters, its size in bytes and its data:
  the code units that start at its data pointer (bytes for ISO 8859-1 and UTF-8, 16-bit
  units in memory order for the two UTF-16 encodings).
\<close>

record fsw_string =
  str_type :: fsw_string_type
  str_len :: nat
  str_size :: nat
  str_data :: "nat list"

record fsw_blockcache =
  bc_refcount :: nat
  bc_level :: nat
  bc_bno :: nat
  bc_data :: "byte list option"

record fsw_extent =
  ext_type :: fsw_extent_type
  log_start :: nat
  log_count :: nat
  phys_start :: nat
  ext_buffer :: "byte list"

type_synonym addr = nat

text \<open>The HFS+ extent descriptor: start block and block count, host byte order.\<close>

record HFSPlusExtentDescriptor =
  startBlock :: nat
  blockCount :: nat

record fsw_dnode =
  refcount :: nat
  complete :: bool
  parent :: "addr option"
  dn_name :: fsw_string
  dnode_id :: nat
  dn_type :: fsw_dnode_type
  dn_size :: nat
  dn_next :: "addr option"
  dn_prev :: "addr option"

record fsw_hfsplus_dnode = fsw_dnode +
  ct :: nat
  mt :: nat
  at :: nat
  extents :: "HFSPlusExtentDescriptor list"
  bt_root :: nat
  bt_ndsz :: nat
  fd_creator :: nat
  fd_type :: nat
  inode_num :: nat
  parent_id :: nat

record fsw_shandle =
  sh_dnode :: addr
  sh_pos :: nat
  sh_extent :: fsw_extent

text \<open>
  The volume. The store \<open>dnodes\<close> holds the allocated dnodes by address, \<open>next_addr\<close>
  is the address the next allocation returns and \<open>allocs\<close> counts the allocations made,
  so that the host can let any of them fail.
\<close>

record fsw_volume =
  phys_blocksize :: nat
  log_blocksize :: nat
  root :: "addr option"
  label :: fsw_string
  dnode_head :: "addr option"
  bcache :: "fsw_blockcache list"
  dnodes :: "addr \<Rightarrow> fsw_hfsplus_dnode option"
  next_addr :: addr
  allocs :: nat

text \<open>
  The host: \<open>read_block h bs bno\<close> is the host table's \<open>read_block\<close> at block size
  \<open>bs\<close>: an error status if any, and the bytes left in the caller's buffer.
  \<open>alloc_ok h n size\<close> tells whether the \<open>n\<close>-th pool allocation, of \<open>size\<close>
  bytes, succeeds.
\<close>

record fsw_host =
  native_string_type :: fsw_string_type
  read_block :: "nat \<Rightarrow> nat \<Rightarrow> fsw_status option \<times> byte list"
  alloc_ok :: "nat \<Rightarrow> nat \<Rightarrow> bool"

definition fsw_alloc :: "fsw_host \<Rightarrow> nat \<Rightarrow> 'v fsw_volume_scheme \<Rightarrow> bool \<times> 'v fsw_volume_scheme" where
  "fsw_alloc h n v = (alloc_ok h (allocs v) n, v\<lparr>allocs := Suc (allocs v)\<rparr>)"

lemma fst_fsw_alloc [simp]: "fst (fsw_alloc h n v) = alloc_ok h (allocs v) n"
  by (simp add: fsw_alloc_def)

lemma snd_fsw_alloc [simp]: "snd (fsw_alloc h n v) = v\<lparr>allocs := Suc (allocs v)\<rparr>"
  by (simp add: fsw_alloc_def)

end
