(* ===== verification/FswBlockCache.thy ===== *)
theory FswBlockCache
  imports FswTypes
begin

text \<open>
  The block cache of \<^verbatim>\<open>OpenHfsPlus/fsw_core.c\<close>: \<open>fsw_block_get\<close>,
  \<open>fsw_block_release\<close>, \<open>fsw_blockcache_free\<close> and \<open>fsw_set_blocksize\<close>.
  The invariant says that a valid entry holds what the device holds, that a block is cached
  at most once and that a free entry is not referenced. The lemmas show that the cache is
  transparent, never evicts a block that is in use and grows only when it must, and the
  locale \<open>block_source\<close> is what readers of blocks rely on.
\<close>

section \<open>Operations\<close>

definition fsw_blockcache_free :: "'v fsw_volume_scheme \<Rightarrow> 'v fsw_volume_scheme" where
  "fsw_blockcache_free v = v\<lparr>bcache := []\<rparr>"

definition fsw_set_blocksize :: "nat \<Rightarrow> nat \<Rightarrow> 'v fsw_volume_scheme \<Rightarrow> 'v fsw_volume_scheme" where
  "fsw_set_blocksize pbs lbs v =
     (fsw_blockcache_free v)\<lparr>phys_blocksize := pbs, log_blocksize := lbs\<rparr>"

text \<open>The search for an entry to discard, from the least important level upwards.\<close>

function discard_idx :: "fsw_blockcache list \<Rightarrow> nat \<Rightarrow> nat" where
  "discard_idx bc d =
     (let i = first_idx (\<lambda>e. bc_refcount e = 0 \<and> bc_level e \<le> d) bc
      in if i < length bc \<or> MAX_CACHE_LEVEL \<le> d then i else discard_idx bc (Suc d))"
  by pat_completeness auto
termination
  by (relation "measure (\<lambda>(bc, d). MAX_CACHE_LEVEL - d)") auto

declare discard_idx.simps [simp del]

definition free_entry :: fsw_blockcache where
  "free_entry = \<lparr>bc_refcount = 0, bc_level = 0, bc_bno = FSW_INVALID_BNO, bc_data = None\<rparr>"

text \<open>
  The slot a block that is not cached goes to: a free entry, else the entry to discard, else
  the first entry of the enlarged table. Doubling a table of \<open>2 ^ 31\<close> entries wraps the
  size, and the copy of the old table then runs past the new one.
\<close>

definition new_bcache_size :: "nat \<Rightarrow> nat" where
  "new_bcache_size n = (if n < 16 then 16 else mul32 n 2)"

definition fsw_block_slot ::
  "fsw_host \<Rightarrow> 'v fsw_volume_scheme \<Rightarrow> nat fsw_res \<times> 'v fsw_volume_scheme" where
  "fsw_block_slot h v =
     (let bc = bcache v; n = length bc;
          i0 = first_idx (\<lambda>e. bc_bno e = FSW_INVALID_BNO) bc;
          i = (if n \<le> i0 then discard_idx bc 0 else i0)
      in if n \<le> i then
           let m = new_bcache_size n; (ok, v1) = fsw_alloc h (m * 24) v
           in if \<not> ok then (Err FSW_OUT_OF_MEMORY, v1)
              else if m < n then (Fault, v1)
              else (Ok n, v1\<lparr>bcache := bc @ replicate (m - n) free_entry\<rparr>)
         else (Ok i, v))"

definition fsw_block_fill ::
  "fsw_host \<Rightarrow> 'v fsw_volume_scheme \<Rightarrow> nat \<Rightarrow> nat \<Rightarrow> nat \<Rightarrow>
    byte list option fsw_res \<times> 'v fsw_volume_scheme" where
  "fsw_block_fill h v i bno lvl =
     (let e = (bcache v ! i)\<lparr>bc_bno := FSW_INVALID_BNO\<rparr>;
          v1 = v\<lparr>bcache := (bcache v)[i := e]\<rparr>;
          (ok, v2) = (if bc_data e = None then fsw_alloc h (phys_blocksize v) v1 else (True, v1))
      in if \<not> ok then (Err FSW_OUT_OF_MEMORY, v2)
         else case read_block h (phys_blocksize v) bno of
           (Some st, d) \<Rightarrow> (Err st, v2\<lparr>bcache := (bcache v2)[i := e\<lparr>bc_data := Some d\<rparr>]\<rparr>)
         | (None, d) \<Rightarrow>
             (Ok (Some d),
              v2\<lparr>bcache := (bcache v2)[i :=
                \<lparr>bc_refcount = 1, bc_level = lvl, bc_bno = bno, bc_data = Some d\<rparr>]\<rparr>))"

definition fsw_block_get ::
  "fsw_host \<Rightarrow> 'v fsw_volume_scheme \<Rightarrow> nat \<Rightarrow> nat \<Rightarrow>
    byte list option fsw_res \<times> 'v fsw_volume_scheme" where
  "fsw_block_get h v bno level =
     (let lvl = (if MAX_CACHE_LEVEL < level then MAX_CACHE_LEVEL else level);
          bc = bcache v; i = first_idx (\<lambda>e. bc_bno e = bno) bc
      in if i < length bc then
           let e = bc ! i;
               e' = e\<lparr>bc_level := (if bc_level e < lvl then lvl else bc_level e),
                      bc_refcount := add32 (bc_refcount e) 1\<rparr>
           in (Ok (bc_data e), v\<lparr>bcache := bc[i := e']\<rparr>)
         else case fsw_block_slot h v of
           (Ok j, v1) \<Rightarrow> fsw_block_fill h v1 j bno lvl
         | (Err st, v1) \<Rightarrow> (Err st, v1)
         | (Fault, v1) \<Rightarrow> (Fault, v1)
         | (Diverge, v1) \<Rightarrow> (Diverge, v1))"

definition release_entry :: "nat \<Rightarrow> fsw_blockcache \<Rightarrow> fsw_blockcache" where
  "release_entry bno e =
     (if bc_bno e = bno \<and> 0 < bc_refcount e then e\<lparr>bc_refcount := bc_refcount e - 1\<rparr> else e)"

definition fsw_block_release :: "'v fsw_volume_scheme \<Rightarrow> nat \<Rightarrow> 'v fsw_volume_scheme" where
  "fsw_block_release v bno = v\<lparr>bcache := map (release_entry bno) (bcache v)\<rparr>"

section \<open>The invariant\<close>

definition entry_ok :: "fsw_host \<Rightarrow> nat \<Rightarrow> fsw_blockcache \<Rightarrow> bool" where
  "entry_ok h bs e \<longleftrightarrow> bc_level e \<le> MAX_CACHE_LEVEL \<and>
     (if bc_bno e = FSW_INVALID_BNO then bc_refcount e = 0
      else \<exists>d. bc_data e = Some d \<and> read_block h bs (bc_bno e) = (None, d))"

definition bno_unique :: "fsw_blockcache list \<Rightarrow> bool" where
  "bno_unique bc \<longleftrightarrow> (\<forall>i < length bc. \<forall>j < length bc.
     i \<noteq> j \<longrightarrow> bc_bno (bc ! i) = bc_bno (bc ! j) \<longrightarrow> bc_bno (bc ! i) = FSW_INVALID_BNO)"

definition cache_ok :: "fsw_host \<Rightarrow> 'v fsw_volume_scheme \<Rightarrow> bool" where
  "cache_ok h v \<longleftrightarrow>
     (\<forall>e \<in> set (bcache v). entry_ok h (phys_blocksize v) e) \<and> bno_unique (bcache v)"

text \<open>Cache operations touch the cache and the allocation count only.\<close>

definition cache_frame :: "'v fsw_volume_scheme \<Rightarrow> 'v fsw_volume_scheme \<Rightarrow> bool" where
  "cache_frame v v' \<longleftrightarrow> v'\<lparr>bcache := [], allocs := 0\<rparr> = v\<lparr>bcache := [], allocs := 0\<rparr>"

lemma cache_frame_refl [simp]: "cache_frame v v"
  by (simp add: cache_frame_def)

lemma cache_frame_trans [trans]: "cache_frame u v \<Longrightarrow> cache_frame v w \<Longrightarrow> cache_frame u w"
  by (simp add: cache_frame_def)

lemma cache_frame_upd [simp]:
  "cache_frame v (v\<lparr>bcache := b\<rparr>)" "cache_frame v (v\<lparr>allocs := n\<rparr>)"
  "cache_frame v (w\<lparr>bcache := b\<rparr>) = cache_frame v w"
  "cache_frame v (w\<lparr>allocs := n\<rparr>) = cache_frame v w"
  by (simp_all add: cache_frame_def)

lemma cache_frame_sel:
  assumes "cache_frame v v'"
  shows "phys_blocksize v' = phys_blocksize v" "log_blocksize v' = log_blocksize v"
    "dnodes v' = dnodes v" "dnode_head v' = dnode_head v" "root v' = root v"
    "next_addr v' = next_addr v" "label v' = label v"
    "fsw_volume.more v' = fsw_volume.more v"
  using assms [unfolded cache_frame_def, THEN arg_cong, of phys_blocksize]
    assms [unfolded cache_frame_def, THEN arg_cong, of log_blocksize]
    assms [unfolded cache_frame_def, THEN arg_cong, of dnodes]
    assms [unfolded cache_frame_def, THEN arg_cong, of dnode_head]
    assms [unfolded cache_frame_def, THEN arg_cong, of root]
    assms [unfolded cache_frame_def, THEN arg_cong, of next_addr]
    assms [unfolded cache_frame_def, THEN arg_cong, of label]
    assms [unfolded cache_frame_def, THEN arg_cong, of fsw_volume.more]
  by simp_all

lemma cache_ok_free: "cache_ok h (fsw_blockcache_free v)"
  by (simp add: cache_ok_def bno_unique_def fsw_blockcache_free_def)

lemma cache_ok_set_blocksize: "cache_ok h (fsw_set_blocksize pbs lbs v)"
  by (simp add: cache_ok_def bno_unique_def fsw_set_blocksize_def fsw_blockcache_free_def)

lemma entry_ok_free_entry [simp]: "entry_ok h bs free_entry"
  by (simp add: entry_ok_def free_entry_def)

lemma bno_unique_update:
  assumes "bno_unique bc"
    and "\<forall>j < length bc. j \<noteq> i \<longrightarrow> bc_bno (bc ! j) = bc_bno e \<longrightarrow> bc_bno e = FSW_INVALID_BNO"
  shows "bno_unique (bc[i := e])"
  unfolding bno_unique_def
proof (intro allI impI)
  fix k j
  assume "k < length (bc[i := e])" "j < length (bc[i := e])" "k \<noteq> j"
    and "bc_bno (bc[i := e] ! k) = bc_bno (bc[i := e] ! j)"
  with assms show "bc_bno (bc[i := e] ! k) = FSW_INVALID_BNO"
    unfolding bno_unique_def by (cases "k = i"; cases "j = i") (auto simp: nth_list_update)
qed

lemma bno_unique_append_free:
  assumes "bno_unique bc"
  shows "bno_unique (bc @ replicate k free_entry)"
  unfolding bno_unique_def
proof (intro allI impI)
  fix i j
  assume "i < length (bc @ replicate k free_entry)" "j < length (bc @ replicate k free_entry)"
    "i \<noteq> j" "bc_bno ((bc @ replicate k free_entry) ! i) = bc_bno ((bc @ replicate k free_entry) ! j)"
  with assms show "bc_bno ((bc @ replicate k free_entry) ! i) = FSW_INVALID_BNO"
    unfolding bno_unique_def
    by (cases "i < length bc"; cases "j < length bc") (auto simp: nth_append free_entry_def)
qed

lemma cache_ok_update:
  assumes ok: "cache_ok h v" and e: "entry_ok h (phys_blocksize v) e"
    and new: "\<forall>j < length (bcache v). j \<noteq> i \<longrightarrow> bc_bno (bcache v ! j) = bc_bno e \<longrightarrow>
      bc_bno e = FSW_INVALID_BNO"
    and v': "bcache v' = (bcache v)[i := e]" "cache_frame v v'"
  shows "cache_ok h v'"
proof -
  from ok have all: "\<forall>e \<in> set (bcache v). entry_ok h (phys_blocksize v) e"
    and uq: "bno_unique (bcache v)" by (auto simp: cache_ok_def)
  have "\<forall>x \<in> set ((bcache v)[i := e]). entry_ok h (phys_blocksize v) x"
    using all e set_update_subset_insert [of "bcache v" i e] by blast
  with bno_unique_update [OF uq new] v' show ?thesis by (simp add: cache_ok_def cache_frame_sel)
qed

section \<open>Choosing a slot\<close>

text \<open>
  The discard search settles on an unreferenced entry whenever there is one: at the last
  level every unreferenced entry qualifies.
\<close>

lemma discard_idx_hit:
  "discard_idx bc d < length bc \<Longrightarrow> bc_refcount (bc ! discard_idx bc d) = 0"
proof (induction bc d rule: discard_idx.induct)
  case (1 bc d)
  let ?P = "\<lambda>e. bc_refcount e = 0 \<and> bc_level e \<le> d"
  show ?case
  proof (cases "first_idx ?P bc < length bc")
    case True
    then have "discard_idx bc d = first_idx ?P bc"
      by (simp add: discard_idx.simps [of bc d] Let_def)
    with first_idx_hit [OF True] show ?thesis by simp
  next
    case False
    show ?thesis
    proof (cases "MAX_CACHE_LEVEL \<le> d")
      case True
      with False "1.prems" show ?thesis by (simp add: discard_idx.simps [of bc d] Let_def)
    next
      case lt: False
      with False have eq: "discard_idx bc d = discard_idx bc (Suc d)"
        by (simp add: discard_idx.simps [of bc d] Let_def)
      from "1.IH" [OF refl] False lt "1.prems" eq show ?thesis by simp
    qed
  qed
qed

lemma discard_idx_complete:
  assumes lv: "\<forall>e \<in> set bc. bc_level e \<le> MAX_CACHE_LEVEL"
    and ex: "\<exists>e \<in> set bc. bc_refcount e = 0"
  shows "discard_idx bc d < length bc"
proof (induction "MAX_CACHE_LEVEL - d" arbitrary: d rule: less_induct)
  case less
  let ?i = "first_idx (\<lambda>e. bc_refcount e = 0 \<and> bc_level e \<le> d) bc"
  show ?case
  proof (cases "?i < length bc \<or> MAX_CACHE_LEVEL \<le> d")
    case True
    moreover have "?i < length bc" if "MAX_CACHE_LEVEL \<le> d"
      using ex lv that unfolding first_idx_less_iff by (meson order_trans)
    ultimately show ?thesis by (auto simp: discard_idx.simps [of bc d] Let_def)
  next
    case False
    then have "discard_idx bc (Suc d) < length bc" by (intro less) arith
    with False show ?thesis by (simp add: discard_idx.simps [of bc d] Let_def)
  qed
qed

lemma new_bcache_size_grows: "n < 2 ^ 31 \<Longrightarrow> n < new_bcache_size n"
  by (auto simp: new_bcache_size_def mul32_def)

text \<open>The table is kept or extended with free entries.\<close>

lemma fsw_block_slot_frame:
  assumes "fsw_block_slot h v = (r, v')"
  shows "cache_frame v v' \<and> (\<exists>k. bcache v' = bcache v @ replicate k free_entry)"
proof -
  have "bcache v = bcache v @ replicate 0 free_entry" by simp
  with assms show ?thesis
    unfolding fsw_block_slot_def Let_def fsw_alloc_def by (auto split: if_splits)
qed

lemma cache_ok_extend:
  assumes "cache_ok h v" "cache_frame v v'" "bcache v' = bcache v @ replicate k free_entry"
  shows "cache_ok h v'"
  using assms bno_unique_append_free [of "bcache v" k]
  by (auto simp: cache_ok_def cache_frame_sel)

text \<open>The slot chosen is unreferenced.\<close>

lemma fsw_block_slot_Ok:
  assumes ok: "cache_ok h v" and eq: "fsw_block_slot h v = (Ok i, v')"
    and sz: "length (bcache v) < 2 ^ 31"
  shows "i < length (bcache v') \<and> bc_refcount (bcache v' ! i) = 0"
proof -
  let ?bc = "bcache v"
  let ?fr = "first_idx (\<lambda>e. bc_bno e = FSW_INVALID_BNO) ?bc"
  let ?slot = "if length ?bc \<le> ?fr then discard_idx ?bc 0 else ?fr"
  have grow: "length ?bc < new_bcache_size (length ?bc)"
    using sz by (rule new_bcache_size_grows)
  show ?thesis
  proof (cases "length ?bc \<le> ?slot")
    case True
    with eq have "i = length ?bc"
      "bcache v' = ?bc @ replicate (new_bcache_size (length ?bc) - length ?bc) free_entry"
      by (auto simp: fsw_block_slot_def Let_def fsw_alloc_def split: if_splits)
    with grow show ?thesis by (simp add: nth_append free_entry_def)
  next
    case False
    with eq have i: "i = ?slot" and v': "v' = v"
      by (auto simp: fsw_block_slot_def Let_def split: if_splits)
    have "bc_refcount (?bc ! i) = 0"
    proof (cases "length ?bc \<le> ?fr")
      case True
      with False i show ?thesis using discard_idx_hit [of ?bc 0] by auto
    next
      case lt: False
      then have "bc_bno (?bc ! ?fr) = FSW_INVALID_BNO" and "?bc ! ?fr \<in> set ?bc"
        using first_idx_hit [of "\<lambda>e. bc_bno e = FSW_INVALID_BNO" ?bc] by auto
      with ok lt i show ?thesis by (auto simp: cache_ok_def entry_ok_def)
    qed
    with False i v' show ?thesis by simp
  qed
qed

section \<open>Filling a slot\<close>

text \<open>
  Whatever the host answers, the slot ends as a free entry or as an entry that holds what
  the device returned for the block, and no other entry changes.
\<close>

lemma fsw_block_fill_cases:
  assumes "fsw_block_fill h v i bno lvl = (r, v')"
  obtains (fail) st e where "r = Err st"
      "bcache v' = (bcache v)[i := e]" "cache_frame v v'" "bc_bno e = FSW_INVALID_BNO"
      "bc_refcount e = bc_refcount (bcache v ! i)" "bc_level e = bc_level (bcache v ! i)"
    | (hit) d where "r = Ok (Some d)" "read_block h (phys_blocksize v) bno = (None, d)"
      "bcache v' = (bcache v)[i :=
         \<lparr>bc_refcount = 1, bc_level = lvl, bc_bno = bno, bc_data = Some d\<rparr>]" "cache_frame v v'"
proof (cases "read_block h (phys_blocksize v) bno")
  case (Pair so d)
  let ?e = "(bcache v ! i)\<lparr>bc_bno := FSW_INVALID_BNO\<rparr>"
  note unf = fsw_block_fill_def Let_def fsw_alloc_def Pair
  show ?thesis
  proof (cases "bc_data (bcache v ! i) = None \<and> \<not> alloc_ok h (allocs v) (phys_blocksize v)")
    case True
    with assms show ?thesis
      by (intro fail [where st = FSW_OUT_OF_MEMORY and e = ?e]) (auto simp: unf)
  next
    case ok: False
    show ?thesis
    proof (cases so)
      case None
      with assms ok show ?thesis
        by (intro hit [where d = d]) (auto simp: unf split: if_splits)
    next
      case (Some st)
      with assms ok show ?thesis
        by (intro fail [where st = st and e = "?e\<lparr>bc_data := Some d\<rparr>"])
          (auto simp: unf split: if_splits)
    qed
  qed
qed

section \<open>Getting and releasing blocks\<close>

text \<open>
  One call of \<open>fsw_block_get\<close> either finds the block, or fills a slot with it, or fails to
  find a slot.
\<close>

lemma fsw_block_get_cases:
  assumes "fsw_block_get h v bno level = (r, v')"
  obtains (hit) i e where "i < length (bcache v)" "bc_bno (bcache v ! i) = bno"
      "r = Ok (bc_data (bcache v ! i))"
      "bcache v' = (bcache v)[i := e]" "cache_frame v v'"
      "bc_bno e = bno" "bc_data e = bc_data (bcache v ! i)"
      "bc_refcount e = add32 (bc_refcount (bcache v ! i)) 1"
      "bc_level e \<le> max MAX_CACHE_LEVEL (bc_level (bcache v ! i))"
    | (fill) i lvl v1 where "\<forall>e \<in> set (bcache v). bc_bno e \<noteq> bno" "lvl \<le> MAX_CACHE_LEVEL"
      "fsw_block_slot h v = (Ok i, v1)" "fsw_block_fill h v1 i bno lvl = (r, v')"
    | (noslot) s where "fsw_block_slot h v = (s, v')" "s = Err FSW_OUT_OF_MEMORY \<and> r = Err FSW_OUT_OF_MEMORY \<or>
        s = Fault \<and> r = Fault"
proof -
  let ?i = "first_idx (\<lambda>e. bc_bno e = bno) (bcache v)"
  let ?lvl = "if MAX_CACHE_LEVEL < level then MAX_CACHE_LEVEL else level"
  show ?thesis
  proof (cases "?i < length (bcache v)")
    case True
    then have b: "bc_bno (bcache v ! ?i) = bno" by (rule first_idx_hit)
    define e where "e = (bcache v ! ?i)\<lparr>bc_level :=
      (if bc_level (bcache v ! ?i) < ?lvl then ?lvl else bc_level (bcache v ! ?i)),
      bc_refcount := add32 (bc_refcount (bcache v ! ?i)) 1\<rparr>"
    from True assms have r: "r = Ok (bc_data (bcache v ! ?i))"
      and v': "v' = v\<lparr>bcache := (bcache v)[?i := e]\<rparr>"
      by (simp_all add: fsw_block_get_def Let_def e_def)
    show ?thesis
      by (rule hit [of ?i e, OF True b r]) (simp_all add: v' b, simp_all add: e_def b)
  next
    case False
    then have no: "\<forall>e \<in> set (bcache v). bc_bno e \<noteq> bno"
      using first_idx_less_iff [of "\<lambda>e. bc_bno e = bno" "bcache v"] by auto
    show ?thesis
    proof (cases "fsw_block_slot h v")
      case (Pair s v1)
      then have s: "s \<in> {Err FSW_OUT_OF_MEMORY, Fault} \<union> range Ok"
        by (auto simp: fsw_block_slot_def Let_def fsw_alloc_def split: if_splits)
      show ?thesis
      proof (cases s)
        case (Ok j)
        with no Pair False assms show ?thesis
          by (intro fill [where i = j and lvl = ?lvl and ?v1.0 = v1])
            (auto simp: fsw_block_get_def Let_def)
      qed (use Pair False assms s in
        \<open>auto intro!: noslot [where s = s] simp: fsw_block_get_def Let_def\<close>)
    qed
  qed
qed

text \<open>The invariant is kept, and a block handed out is what the device holds.\<close>

lemma fsw_block_get_inv:
  assumes ok: "cache_ok h v" and bno: "bno \<noteq> FSW_INVALID_BNO"
    and eq: "fsw_block_get h v bno level = (r, v')" and sz: "length (bcache v) < 2 ^ 31"
  shows "cache_ok h v' \<and> cache_frame v v' \<and> r \<noteq> Fault \<and>
    (\<forall>p. r = Ok p \<longrightarrow> p \<noteq> None \<and> read_block h (phys_blocksize v) bno = (None, the p))"
  using eq
proof (cases rule: fsw_block_get_cases)
  case (hit i e)
  have ei: "entry_ok h (phys_blocksize v) (bcache v ! i)"
    using ok hit(1) by (auto simp: cache_ok_def)
  with hit bno obtain d where d: "bc_data (bcache v ! i) = Some d"
    "read_block h (phys_blocksize v) bno = (None, d)" by (auto simp: entry_ok_def)
  have "entry_ok h (phys_blocksize v) e"
    using ei d hit bno by (auto simp: entry_ok_def)
  moreover have "\<forall>j < length (bcache v). j \<noteq> i \<longrightarrow> bc_bno (bcache v ! j) = bc_bno e \<longrightarrow>
      bc_bno e = FSW_INVALID_BNO"
    using ok hit(1,2,6) bno unfolding cache_ok_def bno_unique_def by metis
  ultimately have "cache_ok h v'" using ok hit by (blast intro: cache_ok_update)
  with d hit show ?thesis by auto
next
  case (fill i lvl v1)
  obtain k where fr: "cache_frame v v1" and k: "bcache v1 = bcache v @ replicate k free_entry"
    using fsw_block_slot_frame [OF fill(3)] by auto
  then have ok1: "cache_ok h v1" using ok by (blast intro: cache_ok_extend)
  have i: "i < length (bcache v1)" "bc_refcount (bcache v1 ! i) = 0"
    using fsw_block_slot_Ok [OF ok fill(3) sz] by auto
  then have ei: "entry_ok h (phys_blocksize v1) (bcache v1 ! i)"
    using ok1 by (auto simp: cache_ok_def)
  have no1: "\<forall>j < length (bcache v1). bc_bno (bcache v1 ! j) \<noteq> bno"
    using fill(1) bno by (auto simp: k nth_append free_entry_def)
  from fill(4) show ?thesis
  proof (cases rule: fsw_block_fill_cases)
    case (fail st e)
    then have "entry_ok h (phys_blocksize v1) e" using ei i by (auto simp: entry_ok_def)
    with fail ok1 have "cache_ok h v'" by (intro cache_ok_update [OF ok1, of e i]) auto
    with fail fr show ?thesis by (auto intro: cache_frame_trans)
  next
    case (hit d)
    have "cache_ok h v'"
      by (rule cache_ok_update [OF ok1 _ _ hit(3,4)])
        (use hit bno fill(2) no1 in \<open>auto simp: entry_ok_def\<close>)
    with hit fr show ?thesis by (auto intro: cache_frame_trans simp: cache_frame_sel)
  qed
next
  case (noslot s)
  obtain k where fr: "cache_frame v v'" "bcache v' = bcache v @ replicate k free_entry"
    using fsw_block_slot_frame [OF noslot(1)] by auto
  have "s \<noteq> Fault" using noslot(1) new_bcache_size_grows [OF sz]
    by (auto simp: fsw_block_slot_def Let_def fsw_alloc_def split: if_splits)
  with noslot fr cache_ok_extend [OF ok fr] show ?thesis by auto
qed

text \<open>A referenced entry survives any call, successful or not.\<close>

lemma fsw_block_get_pinned:
  assumes ok: "cache_ok h v" and eq: "fsw_block_get h v bno level = (r, v')"
    and sz: "length (bcache v) < 2 ^ 31"
    and j: "j < length (bcache v)" "0 < bc_refcount (bcache v ! j)"
  shows "j < length (bcache v') \<and> bc_bno (bcache v' ! j) = bc_bno (bcache v ! j) \<and>
    bc_data (bcache v' ! j) = bc_data (bcache v ! j)"
  using eq
proof (cases rule: fsw_block_get_cases)
  case (hit i e)
  with j show ?thesis by (cases "i = j") auto
next
  case (fill i lvl v1)
  obtain k where k: "bcache v1 = bcache v @ replicate k free_entry"
    using fsw_block_slot_frame [OF fill(3)] by auto
  then have "i \<noteq> j" using fsw_block_slot_Ok [OF ok fill(3) sz] j by (auto simp: nth_append)
  from fill(4) show ?thesis
    by (cases rule: fsw_block_fill_cases) (use k j \<open>i \<noteq> j\<close> in \<open>auto simp: nth_append\<close>)
next
  case (noslot s)
  then obtain k where "bcache v' = bcache v @ replicate k free_entry"
    using fsw_block_slot_frame by blast
  with j show ?thesis by (simp add: nth_append)
qed

lemma release_entry_ok: "entry_ok h bs e \<Longrightarrow> entry_ok h bs (release_entry bno e)"
  by (auto simp: entry_ok_def release_entry_def)

lemma bc_bno_release_entry [simp]: "bc_bno (release_entry b e) = bc_bno e"
  by (simp add: release_entry_def)

lemma fsw_block_release_frame [simp]: "cache_frame v (fsw_block_release v bno)"
  by (simp add: fsw_block_release_def)

lemma fsw_block_release_inv: "cache_ok h v \<Longrightarrow> cache_ok h (fsw_block_release v bno)"
  by (auto simp: cache_ok_def fsw_block_release_def bno_unique_def release_entry_ok)

section \<open>The cache between operations\<close>

text \<open>
  The driver releases every block before it asks for the next one. Between operations no
  entry is referenced, so the table never has to grow beyond its first allocation.
\<close>

definition idle_ok :: "fsw_host \<Rightarrow> 'v fsw_volume_scheme \<Rightarrow> bool" where
  "idle_ok h v \<longleftrightarrow> cache_ok h v \<and> (\<forall>e \<in> set (bcache v). bc_refcount e = 0) \<and>
     (bcache v = [] \<or> length (bcache v) = 16)"

lemma idle_ok_set_blocksize: "idle_ok h (fsw_set_blocksize pbs lbs v)"
  using cache_ok_set_blocksize [of h pbs lbs v]
  by (simp add: idle_ok_def fsw_set_blocksize_def fsw_blockcache_free_def)

lemma fsw_block_slot_idle:
  assumes idle: "idle_ok h v" and eq: "fsw_block_slot h v = (r, v')"
  shows "(bcache v' = bcache v \<or> bcache v = [] \<and> bcache v' = replicate 16 free_entry) \<and>
    (\<forall>i. r = Ok i \<longrightarrow> i < 16 \<and> length (bcache v') = 16) \<and>
    (r = Err FSW_OUT_OF_MEMORY \<or> (\<exists>i. r = Ok i)) \<and>
    (r = Err FSW_OUT_OF_MEMORY \<longrightarrow> \<not> (\<forall>n s. alloc_ok h n s))"
proof (cases "bcache v = []")
  case True
  then have "discard_idx (bcache v) 0 = 0"
    using discard_idx.simps [of "bcache v" 0]
    by (simp add: discard_idx.simps first_idx_def MAX_CACHE_LEVEL_def numeral_eq_Suc)
  with True eq show ?thesis
    by (auto simp: fsw_block_slot_def Let_def fsw_alloc_def new_bcache_size_def split: if_splits)
next
  case False
  with idle have len: "length (bcache v) = 16" and ex: "\<exists>e \<in> set (bcache v). bc_refcount e = 0"
    and lv: "\<forall>e \<in> set (bcache v). bc_level e \<le> MAX_CACHE_LEVEL"
    by (auto simp: idle_ok_def cache_ok_def entry_ok_def neq_Nil_conv)
  have "discard_idx (bcache v) 0 < 16" using discard_idx_complete [OF lv ex] len by simp
  with eq len show ?thesis by (auto simp: fsw_block_slot_def Let_def split: if_splits)
qed

lemma idle_release_update:
  assumes idle: "\<forall>e \<in> set bc. bc_refcount e = 0" and i: "bc_refcount e = 1"
  shows "\<forall>x \<in> set (map (release_entry (bc_bno e)) (bc[i := e])). bc_refcount x = 0"
proof
  fix x assume "x \<in> set (map (release_entry (bc_bno e)) (bc[i := e]))"
  then obtain y where "x = release_entry (bc_bno e) y" and "y \<in> set (bc[i := e])" by auto
  moreover from this(2) have "y = e \<or> y \<in> set bc"
    using set_update_subset_insert [of bc i e] by blast
  ultimately show "bc_refcount x = 0" using assms by (auto simp: release_entry_def)
qed

lemma idle_get_release:
  assumes idle: "idle_ok h v" and bno: "bno \<noteq> FSW_INVALID_BNO"
    and eq: "fsw_block_get h v bno level = (r, v')"
  shows "(\<exists>d. r = Ok (Some d) \<and> read_block h (phys_blocksize v) bno = (None, d) \<and>
            idle_ok h (fsw_block_release v' bno)) \<or>
         (\<exists>st. r = Err st \<and> idle_ok h v' \<and>
            \<not> ((\<forall>n s. alloc_ok h n s) \<and> fst (read_block h (phys_blocksize v) bno) = None))"
proof -
  have sz: "length (bcache v) < 2 ^ 31" and ok: "cache_ok h v"
    and ref: "\<forall>e \<in> set (bcache v). bc_refcount e = 0"
    and len: "bcache v = [] \<or> length (bcache v) = 16"
    using idle by (auto simp: idle_ok_def)
  note inv = fsw_block_get_inv [OF ok bno eq sz]
  have rel: "cache_ok h (fsw_block_release v' bno)" using inv fsw_block_release_inv by blast
  from eq show ?thesis
  proof (cases rule: fsw_block_get_cases)
    case (hit i e)
    then have "bc_refcount e = 1" using ref by (simp add: add32_def)
    from idle_release_update [OF ref this, of i] hit len rel
    have "idle_ok h (fsw_block_release v' bno)"
      by (auto simp: idle_ok_def fsw_block_release_def)
    with hit inv show ?thesis by auto
  next
    case (fill i lvl v1)
    note sl = fsw_block_slot_idle [OF idle fill(3)]
    have ref1: "\<forall>e \<in> set (bcache v1). bc_refcount e = 0" and len1: "length (bcache v1) = 16"
      and i: "i < length (bcache v1)"
      using sl ref by (auto simp: free_entry_def)
    have pb: "phys_blocksize v1 = phys_blocksize v"
      using fsw_block_slot_frame [OF fill(3)] cache_frame_sel(1) by blast
    from fill(4) show ?thesis
    proof (cases rule: fsw_block_fill_cases)
      case (fail st e)
      then have "\<forall>x \<in> set (bcache v'). bc_refcount x = 0"
        using ref1 i set_update_subset_insert [of "bcache v1" i e] by (metis insertE nth_mem subsetD)
      then have "idle_ok h v'" using inv fail len1 by (simp add: idle_ok_def)
      moreover have "\<not> ((\<forall>n s. alloc_ok h n s) \<and> fst (read_block h (phys_blocksize v) bno) = None)"
        using fill(4) fail(1) pb
        by (auto simp: fsw_block_fill_def Let_def fsw_alloc_def
            split: if_splits prod.splits option.splits)
      ultimately show ?thesis using fail by auto
    next
      case (hit d)
      from idle_release_update [OF ref1, of "\<lparr>bc_refcount = 1, bc_level = lvl, bc_bno = bno,
          bc_data = Some d\<rparr>" i] hit len1 rel
      have "idle_ok h (fsw_block_release v' bno)"
        by (auto simp: idle_ok_def fsw_block_release_def)
      with hit pb show ?thesis by auto
    qed
  next
    case (noslot s)
    from fsw_block_slot_idle [OF idle noslot(1)] noslot(2) idle inv
    show ?thesis by (auto simp: idle_ok_def free_entry_def)
  qed
qed

section \<open>The interface to readers of blocks\<close>

text \<open>
  A source of blocks of size \<open>bs\<close>: getting a valid block yields its contents or an error
  status, and the state after releasing it satisfies the invariant again. The total variant
  never fails.
\<close>

locale block_source =
  fixes get :: "'s \<Rightarrow> nat \<Rightarrow> nat \<Rightarrow> byte list option fsw_res \<times> 's"
    and rel :: "'s \<Rightarrow> nat \<Rightarrow> 's"
    and inv :: "'s \<Rightarrow> bool"
    and valid :: "nat \<Rightarrow> bool"
    and blk :: "nat \<Rightarrow> byte list"
    and bs :: nat
  assumes get_blk: "inv s \<Longrightarrow> valid b \<Longrightarrow> get s b l = (r, s') \<Longrightarrow>
      r = Ok (Some (blk b)) \<and> inv (rel s' b) \<or> (\<exists>st. r = Err st \<and> inv s')"
    and blk_len: "valid b \<Longrightarrow> length (blk b) = bs"

locale block_source_total = block_source +
  assumes get_total: "inv s \<Longrightarrow> valid b \<Longrightarrow> \<exists>s'. get s b l = (Ok (Some (blk b)), s')"

text \<open>
  The cache over a host is a block source for every block the device returns at full size,
  and a total one if the host never fails. The state is any volume that differs from
  \<open>v0\<close> in its cache only.
\<close>

definition vol_inv :: "fsw_host \<Rightarrow> 'v fsw_volume_scheme \<Rightarrow> 'v fsw_volume_scheme \<Rightarrow> bool" where
  "vol_inv h v0 v \<longleftrightarrow> idle_ok h v \<and> cache_frame v0 v"

definition dev_block :: "fsw_host \<Rightarrow> nat \<Rightarrow> nat \<Rightarrow> byte list" where
  "dev_block h bs b = snd (read_block h bs b)"

definition dev_valid :: "fsw_host \<Rightarrow> nat \<Rightarrow> nat \<Rightarrow> bool" where
  "dev_valid h bs b \<longleftrightarrow> b \<noteq> FSW_INVALID_BNO \<and> length (dev_block h bs b) = bs"

definition host_total :: "fsw_host \<Rightarrow> nat \<Rightarrow> bool" where
  "host_total h bs \<longleftrightarrow> (\<forall>n s. alloc_ok h n s) \<and> (\<forall>b. fst (read_block h bs b) = None)"

interpretation bc: block_source "fsw_block_get h" fsw_block_release "vol_inv h v0"
  "dev_valid h (phys_blocksize v0)" "dev_block h (phys_blocksize v0)" "phys_blocksize v0"
  for h :: fsw_host and v0 :: "'v fsw_volume_scheme"
proof
  fix s :: "'v fsw_volume_scheme" and b l r s'
  assume inv: "vol_inv h v0 s" and val: "dev_valid h (phys_blocksize v0) b"
    and eq: "fsw_block_get h s b l = (r, s')"
  have pb: "phys_blocksize s = phys_blocksize v0" and idle: "idle_ok h s"
    using inv by (auto simp: vol_inv_def cache_frame_sel)
  have bno: "b \<noteq> FSW_INVALID_BNO" using val by (simp add: dev_valid_def)
  have "length (bcache s) < 2 ^ 31" "cache_ok h s" using idle by (auto simp: idle_ok_def)
  then have "cache_frame s s'" using fsw_block_get_inv [OF _ bno eq] by blast
  then have fr: "cache_frame v0 s'" using inv by (auto simp: vol_inv_def intro: cache_frame_trans)
  then have "cache_frame v0 (fsw_block_release s' b)"
    using fsw_block_release_frame by (rule cache_frame_trans)
  with idle_get_release [OF idle bno eq] fr
  show "r = Ok (Some (dev_block h (phys_blocksize v0) b)) \<and> vol_inv h v0 (fsw_block_release s' b) \<or>
      (\<exists>st. r = Err st \<and> vol_inv h v0 s')"
    by (auto simp: vol_inv_def dev_block_def pb)
qed (simp add: dev_valid_def)

interpretation bct: block_source_total "fsw_block_get h" fsw_block_release
  "\<lambda>v. vol_inv h v0 v \<and> host_total h (phys_blocksize v0)"
  "dev_valid h (phys_blocksize v0)" "dev_block h (phys_blocksize v0)" "phys_blocksize v0"
  for h :: fsw_host and v0 :: "'v fsw_volume_scheme"
proof
  fix s :: "'v fsw_volume_scheme" and b l r s'
  assume "vol_inv h v0 s \<and> host_total h (phys_blocksize v0)"
    "dev_valid h (phys_blocksize v0) b" "fsw_block_get h s b l = (r, s')"
  then show "r = Ok (Some (dev_block h (phys_blocksize v0) b)) \<and>
      (vol_inv h v0 (fsw_block_release s' b) \<and> host_total h (phys_blocksize v0)) \<or>
      (\<exists>st. r = Err st \<and> vol_inv h v0 s' \<and> host_total h (phys_blocksize v0))"
    using bc.get_blk by blast
next
  fix s :: "'v fsw_volume_scheme" and b l
  assume a: "vol_inv h v0 s \<and> host_total h (phys_blocksize v0)"
    and val: "dev_valid h (phys_blocksize v0) b"
  obtain r s' where eq: "fsw_block_get h s b l = (r, s')" by fastforce
  have "phys_blocksize s = phys_blocksize v0" "idle_ok h s"
    using a by (auto simp: vol_inv_def cache_frame_sel)
  with idle_get_release [OF _ _ eq] val a eq
  show "\<exists>s'. fsw_block_get h s b l = (Ok (Some (dev_block h (phys_blocksize v0) b)), s')"
    by (fastforce simp: dev_valid_def dev_block_def host_total_def)
qed (simp add: dev_valid_def)

end
