(* ===== verification/FswShandle.thy ===== *)
theory FswShandle
  imports FswBlockCache
begin

text \<open>
  Reading file data: \<open>fsw_shandle_read\<close> of \<^verbatim>\<open>OpenHfsPlus/fsw_core.c\<close>. The loop asks the
  file system for the extent of the current logical block when the cached one does not cover
  it, then copies from one physical block (through the block cache), from a buffer extent or
  zeros for a sparse one. Its two collaborators are arguments: the block source (locale
  \<open>block_source\<close>) and the file system's \<open>get_extent\<close> (locale \<open>file_layout\<close>).
  The main lemma says that the bytes delivered are those of the file.
\<close>

section \<open>One round of the loop\<close>

text \<open>
  The extent for the logical block at \<open>pos\<close>. A failing \<open>get_extent\<close> leaves the handle
  with an invalid extent.
\<close>

definition shandle_extent ::
  "(fsw_extent \<Rightarrow> fsw_extent fsw_res) \<Rightarrow> nat \<Rightarrow> fsw_extent \<Rightarrow> nat \<Rightarrow> unit fsw_res \<times> fsw_extent" where
  "shandle_extent get_ext lbs e pos =
     (if lbs = 0 then (Fault, e)
      else let log_bno = pos div lbs
      in if ext_type e = EXT_INVALID \<or> log_bno < log_start e \<or>
            add32 (log_start e) (log_count e) \<le> log_bno
         then (case get_ext (e\<lparr>log_start := log_bno\<rparr>) of
                 Ok e' \<Rightarrow> (Ok (), e')
               | Err st \<Rightarrow> (Err st, e\<lparr>log_start := log_bno, ext_type := EXT_INVALID\<rparr>)
               | Fault \<Rightarrow> (Fault, e)
               | Diverge \<Rightarrow> (Diverge, e))
         else (Ok (), e))"

text \<open>The bytes one round delivers, dispatched on the type of the extent.\<close>

definition shandle_copy ::
  "('s \<Rightarrow> nat \<Rightarrow> nat \<Rightarrow> byte list option fsw_res \<times> 's) \<Rightarrow> ('s \<Rightarrow> nat \<Rightarrow> 's) \<Rightarrow>
    nat \<Rightarrow> nat \<Rightarrow> nat \<Rightarrow> 's \<Rightarrow> fsw_extent \<Rightarrow> nat \<Rightarrow> nat \<Rightarrow> byte list fsw_res \<times> 's" where
  "shandle_copy get rel lbs pbs lvl s e pos buflen =
     (let pos_in_extent = sub32 pos (mul32 (log_start e) lbs)
      in case ext_type e of
        EXT_PHYSBLOCK \<Rightarrow>
          if pbs = 0 then (Fault, s)
          else let phys_bno = add32 (phys_start e) (pos_in_extent div pbs);
                   pos_in_physblock = pos_in_extent AND (pbs - 1);
                   copylen = min (sub32 pbs pos_in_physblock) buflen
          in (case get s phys_bno lvl of
                (Ok p, s1) \<Rightarrow>
                  (of_load (case p of None \<Rightarrow> None | Some d \<Rightarrow> load_bytes d pos_in_physblock copylen),
                   rel s1 phys_bno)
              | (Err st, s1) \<Rightarrow> (Err st, s1)
              | (Fault, s1) \<Rightarrow> (Fault, s1)
              | (Diverge, s1) \<Rightarrow> (Diverge, s1))
      | EXT_BUFFER \<Rightarrow>
          let copylen = min (sub32 (mul32 (log_count e) lbs) pos_in_extent) buflen
          in (of_load (load_bytes (ext_buffer e) pos_in_extent copylen), s)
      | _ \<Rightarrow>
          let copylen = min (sub32 (mul32 (log_count e) lbs) pos_in_extent) buflen
          in (Ok (replicate copylen 0), s))"

section \<open>The loop and the operation\<close>

text \<open>
  \<open>acc\<close> is what the caller's buffer holds so far. A round that copies nothing changes
  nothing, so the loop of the source never ends then; with the fuel of
  \<open>fsw_shandle_read\<close>, one round per byte asked for, this is the only way to run out.
\<close>

fun shandle_loop ::
  "nat \<Rightarrow> ('s \<Rightarrow> nat \<Rightarrow> nat \<Rightarrow> byte list option fsw_res \<times> 's) \<Rightarrow> ('s \<Rightarrow> nat \<Rightarrow> 's) \<Rightarrow>
    (fsw_extent \<Rightarrow> fsw_extent fsw_res) \<Rightarrow> nat \<Rightarrow> nat \<Rightarrow> nat \<Rightarrow>
    's \<Rightarrow> fsw_extent \<Rightarrow> nat \<Rightarrow> nat \<Rightarrow> byte list \<Rightarrow> (nat \<times> byte list) fsw_res \<times> fsw_extent \<times> 's" where
  "shandle_loop fuel get rel get_ext lbs pbs lvl s e pos 0 acc = (Ok (pos, acc), e, s)"
| "shandle_loop 0 get rel get_ext lbs pbs lvl s e pos (Suc n) acc = (Diverge, e, s)"
| "shandle_loop (Suc fuel) get rel get_ext lbs pbs lvl s e pos (Suc n) acc =
     (case shandle_extent get_ext lbs e pos of
        (Ok _, e1) \<Rightarrow>
          (case shandle_copy get rel lbs pbs lvl s e1 pos (Suc n) of
             (Ok chunk, s1) \<Rightarrow>
               shandle_loop fuel get rel get_ext lbs pbs lvl s1 e1
                 (add32 pos (length chunk)) (Suc n - length chunk) (acc @ chunk)
           | (Err st, s1) \<Rightarrow> (Err st, e1, s1)
           | (Fault, s1) \<Rightarrow> (Fault, e1, s1)
           | (Diverge, s1) \<Rightarrow> (Diverge, e1, s1))
      | (Err st, e1) \<Rightarrow> (Err st, e1, s)
      | (Fault, e1) \<Rightarrow> (Fault, e1, s)
      | (Diverge, e1) \<Rightarrow> (Diverge, e1, s))"

text \<open>
  \<open>fsw_shandle_read\<close> returns the count it stores in \<open>*buffer_size_inout\<close> and the bytes
  written to the buffer. The position is truncated to 32 bits on entry, as in the source.
\<close>

definition fsw_shandle_read ::
  "fsw_host \<Rightarrow> (fsw_hfsplus_dnode \<Rightarrow> fsw_extent \<Rightarrow> fsw_extent fsw_res) \<Rightarrow> 'v fsw_volume_scheme \<Rightarrow>
    fsw_shandle \<Rightarrow> nat \<Rightarrow> (nat \<times> byte list) fsw_res \<times> fsw_shandle \<times> 'v fsw_volume_scheme" where
  "fsw_shandle_read h get_extent v sh buffer_size =
     (case dnodes v (sh_dnode sh) of
        None \<Rightarrow> (Fault, sh, v)
      | Some dno \<Rightarrow>
          if dn_size dno \<le> sh_pos sh then (Ok (0, []), sh, v)
          else let pos = sh_pos sh mod 2 ^ 32;
                   lvl = (if dn_type dno \<noteq> TYPE_FILE then 1 else 0);
                   buflen = (if dn_size dno - pos < buffer_size
                             then (dn_size dno - pos) mod 2 ^ 32 else buffer_size)
          in case shandle_loop (Suc buflen) (fsw_block_get h) fsw_block_release (get_extent dno)
                 (log_blocksize v) (phys_blocksize v) lvl v (sh_extent sh) pos buflen [] of
               (Ok (pos', bytes), e, v') \<Rightarrow>
                 (Ok (sub32 pos' (sh_pos sh), bytes), sh\<lparr>sh_pos := pos', sh_extent := e\<rparr>, v')
             | (Err st, e, v') \<Rightarrow> (Err st, sh\<lparr>sh_extent := e\<rparr>, v')
             | (Fault, e, v') \<Rightarrow> (Fault, sh\<lparr>sh_extent := e\<rparr>, v')
             | (Diverge, e, v') \<Rightarrow> (Diverge, sh\<lparr>sh_extent := e\<rparr>, v'))"

section \<open>The contents of a file\<close>

text \<open>
  The bytes \<open>pos .. pos + n - 1\<close> of a file whose logical block \<open>i\<close> is stored in
  physical block \<open>pmap i\<close> of a device with contents \<open>blk\<close>.
\<close>

definition file_bytes :: "(nat \<Rightarrow> byte list) \<Rightarrow> (nat \<Rightarrow> nat) \<Rightarrow> nat \<Rightarrow> nat \<Rightarrow> nat \<Rightarrow> byte list" where
  "file_bytes blk pmap bs pos n = map (\<lambda>i. blk (pmap (i div bs)) ! (i mod bs)) [pos..<pos + n]"

lemma length_file_bytes [simp]: "length (file_bytes blk pmap bs pos n) = n"
  by (simp add: file_bytes_def)

lemma file_bytes_0 [simp]: "file_bytes blk pmap bs pos 0 = []"
  by (simp add: file_bytes_def)

lemma file_bytes_append:
  "file_bytes blk pmap bs pos m @ file_bytes blk pmap bs (pos + m) n =
    file_bytes blk pmap bs pos (m + n)"
  using upt_add_eq_append [of pos "pos + m" n] by (simp add: file_bytes_def add.assoc flip: map_append)

text \<open>Within one block the bytes of the file are consecutive bytes of the block.\<close>

lemma file_bytes_in_block:
  assumes bs: "0 < bs" and n: "pos mod bs + n \<le> bs" and len: "length (blk (pmap (pos div bs))) = bs"
  shows "take n (drop (pos mod bs) (blk (pmap (pos div bs)))) = file_bytes blk pmap bs pos n"
proof (rule nth_equalityI)
  show "length (take n (drop (pos mod bs) (blk (pmap (pos div bs))))) =
      length (file_bytes blk pmap bs pos n)" using n len by simp
next
  fix k assume "k < length (take n (drop (pos mod bs) (blk (pmap (pos div bs)))))"
  then have k: "k < n" "pos mod bs + k < bs" using n len by auto
  have "(pos + k) div bs = pos div bs" "(pos + k) mod bs = pos mod bs + k"
  proof -
    have "pos + k = (pos mod bs + k) + bs * (pos div bs)" by simp
    then show "(pos + k) div bs = pos div bs" "(pos + k) mod bs = pos mod bs + k"
      using k(2) by (metis add.commute div_mult_self2 div_less bs add_0 less_not_refl2,
        metis mod_mult_self2 mod_less)
  qed
  with k len n show "take n (drop (pos mod bs) (blk (pmap (pos div bs)))) ! k =
      file_bytes blk pmap bs pos n ! k"
    by (simp add: file_bytes_def)
qed

section \<open>Correctness of the loop\<close>

text \<open>
  What the reader needs from \<open>get_extent\<close>: for a logical block of the file it returns a
  physical extent that starts there, is not empty and agrees with the block map.
\<close>

definition ext_maps :: "(nat \<Rightarrow> nat) \<Rightarrow> nat \<Rightarrow> fsw_extent \<Rightarrow> bool" where
  "ext_maps pmap nblocks e \<longleftrightarrow> ext_type e = EXT_PHYSBLOCK \<and> log_start e + log_count e < 2 ^ 32 \<and>
     (\<forall>k < log_count e. log_start e + k < nblocks \<longrightarrow> add32 (phys_start e) k = pmap (log_start e + k))"

definition ext_ok :: "(nat \<Rightarrow> nat) \<Rightarrow> nat \<Rightarrow> fsw_extent \<Rightarrow> bool" where
  "ext_ok pmap nblocks e \<longleftrightarrow> ext_type e = EXT_INVALID \<or> ext_maps pmap nblocks e"

locale file_layout =
  fixes get_ext :: "fsw_extent \<Rightarrow> fsw_extent fsw_res"
    and pmap :: "nat \<Rightarrow> nat"
    and nblocks :: nat
  assumes get_ext_maps: "log_start e < nblocks \<Longrightarrow>
      \<exists>e'. get_ext e = Ok e' \<and> ext_maps pmap nblocks e' \<and> log_start e' = log_start e \<and>
        0 < log_count e'"

text \<open>A file on a block source with equal logical and physical block sizes.\<close>

locale stored_file = block_source + file_layout +
  assumes bs_pow2: "inv s \<Longrightarrow> \<exists>k < 32. bs = 2 ^ k"
    and mapped: "inv s \<Longrightarrow> i < nblocks \<Longrightarrow> valid (pmap i)"
begin

lemma bs_pos: "inv s \<Longrightarrow> 0 < bs"
  using bs_pow2 by fastforce

lemma bs_bound: "inv s \<Longrightarrow> bs < 2 ^ 32"
proof -
  assume "inv s"
  then obtain k where "k < 32" "bs = 2 ^ k" using bs_pow2 by blast
  then show ?thesis using power_strict_increasing [of k 32 "2 :: nat"] by simp
qed

lemma bs_mask: "inv s \<Longrightarrow> x AND (bs - 1) = x mod bs"
  using bs_pow2 and_pow2_minus1 by blast

lemma extent_covers:
  assumes "ext_ok pmap nblocks e" and b: "pos div bs < nblocks" and inv: "inv s"
  shows "\<exists>e1. shandle_extent get_ext bs e pos = (Ok (), e1) \<and> ext_maps pmap nblocks e1 \<and>
    log_start e1 \<le> pos div bs \<and> pos div bs < log_start e1 + log_count e1"
proof (cases "ext_type e = EXT_INVALID \<or> pos div bs < log_start e \<or>
    add32 (log_start e) (log_count e) \<le> pos div bs")
  case True
  from get_ext_maps [of "e\<lparr>log_start := pos div bs\<rparr>"] b obtain e1 where
    "get_ext (e\<lparr>log_start := pos div bs\<rparr>) = Ok e1" "ext_maps pmap nblocks e1"
    "log_start e1 = pos div bs" "0 < log_count e1" by auto
  with True bs_pos [OF inv] show ?thesis by (auto simp: shandle_extent_def Let_def)
next
  case False
  with assms(1) have "ext_maps pmap nblocks e" by (auto simp: ext_ok_def)
  with False bs_pos [OF inv] show ?thesis by (auto simp: shandle_extent_def Let_def ext_maps_def arith32)
qed

text \<open>In terms of the block map, a round reads one block of the file.\<close>

lemma copy_eq:
  assumes inv: "inv s" and e: "ext_maps pmap nblocks e"
    and cov: "log_start e \<le> pos div bs" "pos div bs < log_start e + log_count e"
    and b: "pos div bs < nblocks" and pos: "pos < 2 ^ 32"
  shows "shandle_copy get rel bs bs lvl s e pos n =
    (case get s (pmap (pos div bs)) lvl of
       (Ok p, s1) \<Rightarrow>
         (of_load (case p of None \<Rightarrow> None
            | Some d \<Rightarrow> load_bytes d (pos mod bs) (min (bs - pos mod bs) n)), rel s1 (pmap (pos div bs)))
     | (Err st, s1) \<Rightarrow> (Err st, s1)
     | (Fault, s1) \<Rightarrow> (Fault, s1)
     | (Diverge, s1) \<Rightarrow> (Diverge, s1))"
proof -
  have le: "log_start e * bs \<le> pos"
    using cov(1) by (metis div_times_less_eq_dividend le_trans mult_le_mono1)
  then obtain d where d: "pos = log_start e * bs + d" using le_Suc_ex by blast
  have pie: "sub32 pos (mul32 (log_start e) bs) = d"
    using le pos d by (simp add: arith32)
  have dv: "pos div bs = log_start e + d div bs" using d bs_pos [OF inv] by simp
  have md: "d AND (bs - 1) = pos mod bs" using d by (simp add: bs_mask [OF inv] del: One_nat_def)
  have cl: "sub32 bs (pos mod bs) = bs - pos mod bs"
    using bs_pos [OF inv] bs_bound [OF inv] by (simp add: arith32 less_imp_le)
  have ph: "add32 (phys_start e) (d div bs) = pmap (pos div bs)"
    using e cov b dv by (auto simp: ext_maps_def)
  have "ext_type e = EXT_PHYSBLOCK" using e by (simp add: ext_maps_def)
  then show ?thesis
    using bs_pos [OF inv] by (simp only: shandle_copy_def Let_def pie md cl ph
        fsw_extent_type.case less_imp_neq [THEN not_sym] if_False neq0_conv [symmetric])
qed

lemma copy_block:
  assumes inv: "inv s" and e: "ext_maps pmap nblocks e"
    and cov: "log_start e \<le> pos div bs" "pos div bs < log_start e + log_count e"
    and b: "pos div bs < nblocks" and pos: "pos < 2 ^ 32"
    and eq: "shandle_copy get rel bs bs lvl s e pos n = (r, s')"
  shows "inv s' \<and> ((\<exists>st. r = Err st) \<or>
    r = Ok (file_bytes blk pmap bs pos (min (bs - pos mod bs) n)))"
proof -
  let ?c = "min (bs - pos mod bs) n"
  have val: "valid (pmap (pos div bs))" using inv b by (rule mapped)
  have fit: "pos mod bs + ?c \<le> bs" using bs_pos [OF inv] by (simp add: less_imp_le min_def)
  with blk_len [OF val] file_bytes_in_block [OF bs_pos [OF inv] fit, of blk pmap]
  have ld: "load_bytes (blk (pmap (pos div bs))) (pos mod bs) ?c =
      Some (file_bytes blk pmap bs pos ?c)" by (simp add: load_bytes_def)
  obtain r1 s1 where g: "get s (pmap (pos div bs)) lvl = (r1, s1)" by fastforce
  from get_blk [OF inv val g] eq g show ?thesis
    by (auto simp: copy_eq [OF inv e cov b pos] ld)
qed

text \<open>
  With fuel for one round per byte, the loop ends with the bytes of the file or with an
  error status, never with a fault, and leaves a usable handle and source behind.
\<close>

lemma loop_reads_file:
  assumes "inv s" "ext_ok pmap nblocks e" "pos + n \<le> nblocks * bs" "pos + n < 2 ^ 32" "n < fuel"
    "shandle_loop fuel get rel get_ext bs bs lvl s e pos n acc = (r, e', s')"
  shows "inv s' \<and> ext_ok pmap nblocks e' \<and>
    ((\<exists>st. r = Err st) \<or> r = Ok (pos + n, acc @ file_bytes blk pmap bs pos n))"
  using assms
proof (induction fuel arbitrary: s e pos n acc)
  case 0
  then show ?case by simp
next
  case (Suc fuel)
  show ?case
  proof (cases n)
    case 0
    with Suc.prems show ?thesis by auto
  next
    case n: (Suc m)
    then have b: "pos div bs < nblocks"
      using Suc.prems(3) bs_pos [OF Suc.prems(1)] by (simp add: less_mult_imp_div_less)
    obtain e1 where e1: "shandle_extent get_ext bs e pos = (Ok (), e1)" "ext_maps pmap nblocks e1"
      "log_start e1 \<le> pos div bs" "pos div bs < log_start e1 + log_count e1"
      using extent_covers [OF Suc.prems(2) b Suc.prems(1)] by blast
    obtain rc s1 where c: "shandle_copy get rel bs bs lvl s e1 pos n = (rc, s1)" by fastforce
    have pos: "pos < 2 ^ 32" using Suc.prems(4) by simp
    note cb = copy_block [OF Suc.prems(1) e1(2,3,4) b pos c]
    have ok1: "ext_ok pmap nblocks e1" using e1(2) by (simp add: ext_ok_def)
    show ?thesis
    proof (cases rc)
      case (Ok chunk)
      let ?c = "min (bs - pos mod bs) n"
      have chunk: "chunk = file_bytes blk pmap bs pos ?c" using cb Ok by auto
      have c_pos: "0 < ?c" using bs_pos [OF Suc.prems(1)] n by simp
      have add: "add32 pos ?c = pos + ?c" using Suc.prems(4) by (simp add: arith32)
      have "shandle_loop fuel get rel get_ext bs bs lvl s1 e1 (pos + ?c) (n - ?c) (acc @ chunk)
          = (r, e', s')"
        using Suc.prems(6) e1(1) c Ok n chunk add by simp
      then have "inv s' \<and> ext_ok pmap nblocks e' \<and> ((\<exists>st. r = Err st) \<or>
          r = Ok (pos + ?c + (n - ?c), (acc @ chunk) @ file_bytes blk pmap bs (pos + ?c) (n - ?c)))"
        using Suc.prems(3-5) c_pos cb ok1 by (intro Suc.IH) auto
      moreover have "pos + ?c + (n - ?c) = pos + n" "?c + (n - ?c) = n" by auto
      ultimately show ?thesis unfolding chunk append_assoc file_bytes_append by simp
    qed (use cb Suc.prems(6) e1(1) c n ok1 in auto)
  qed
qed

end

text \<open>Over a source that never fails the loop always delivers the bytes.\<close>

locale stored_file_total = stored_file + block_source_total
begin

lemma copy_total:
  assumes "inv s" and e: "ext_maps pmap nblocks e" "log_start e \<le> pos div bs"
    "pos div bs < log_start e + log_count e" "pos div bs < nblocks" "pos < 2 ^ 32"
  shows "\<exists>c s'. shandle_copy get rel bs bs lvl s e pos n = (Ok c, s')"
proof -
  obtain r s' where eq: "shandle_copy get rel bs bs lvl s e pos n = (r, s')" by fastforce
  then have "r \<noteq> Err st" for st
    using get_total [OF assms(1) mapped [OF assms(1,5)], of lvl] by (auto simp: copy_eq [OF assms(1) e])
  with copy_block [OF assms eq] eq show ?thesis by blast
qed

lemma loop_total:
  assumes "inv s" "ext_ok pmap nblocks e" "pos + n \<le> nblocks * bs" "pos + n < 2 ^ 32" "n < fuel"
  shows "\<exists>x e' s'. shandle_loop fuel get rel get_ext bs bs lvl s e pos n acc = (Ok x, e', s')"
  using assms
proof (induction fuel arbitrary: s e pos n acc)
  case 0
  then show ?case by simp
next
  case (Suc fuel)
  show ?case
  proof (cases n)
    case 0
    then show ?thesis by simp
  next
    case n: (Suc m)
    then have b: "pos div bs < nblocks"
      using Suc.prems(3) bs_pos [OF Suc.prems(1)] by (simp add: less_mult_imp_div_less)
    obtain e1 where e1: "shandle_extent get_ext bs e pos = (Ok (), e1)" "ext_maps pmap nblocks e1"
      "log_start e1 \<le> pos div bs" "pos div bs < log_start e1 + log_count e1"
      using extent_covers [OF Suc.prems(2) b Suc.prems(1)] by blast
    have pos: "pos < 2 ^ 32" using Suc.prems(4) by simp
    obtain c s1 where c: "shandle_copy get rel bs bs lvl s e1 pos n = (Ok c, s1)"
      using copy_total [OF Suc.prems(1) e1(2,3,4) b pos] by blast
    let ?c = "min (bs - pos mod bs) n"
    have cb: "inv s1" "length c = ?c"
      using copy_block [OF Suc.prems(1) e1(2,3,4) b pos c] by auto
    have "0 < ?c" using bs_pos [OF Suc.prems(1)] n by simp
    moreover have "add32 pos ?c = pos + ?c" using Suc.prems(4) by (simp add: arith32)
    moreover have "ext_ok pmap nblocks e1" using e1(2) by (simp add: ext_ok_def)
    ultimately have "\<exists>x e' s'. shandle_loop fuel get rel get_ext bs bs lvl s1 e1
        (add32 pos (length c)) (n - length c) (acc @ c) = (Ok x, e', s')"
      using Suc.prems(3-5) cb by (intro Suc.IH) auto
    with e1(1) c n show ?thesis by simp
  qed
qed

end

end
