(* ===== verification/FswByteOrder.thy ===== *)
theory FswByteOrder
  imports FswTypes
begin

text \<open>
  The byte-swap macros of \<^verbatim>\<open>OpenHfsPlus/fsw_core.h\<close> and the big-endian fields of on-disk
  structures, which the source reads by a native load followed by a swap. They are shown to
  read the bytes most significant first.
\<close>

section \<open>Byte order\<close>

definition FSW_SWAPVALUE_U16 :: "u16 \<Rightarrow> u16" where
  "FSW_SWAPVALUE_U16 v = drop_bit 8 (v AND 0xff00) OR push_bit 8 (v AND 0x00ff)"

definition FSW_SWAPVALUE_U32 :: "u32 \<Rightarrow> u32" where
  "FSW_SWAPVALUE_U32 v =
     drop_bit 24 (v AND 0xff000000) OR drop_bit 8 (v AND 0x00ff0000) OR
     push_bit 8 (v AND 0x0000ff00) OR push_bit 24 (v AND 0x000000ff)"

definition FSW_SWAPVALUE_U64 :: "u64 \<Rightarrow> u64" where
  "FSW_SWAPVALUE_U64 v =
     drop_bit 56 (v AND 0xff00000000000000) OR drop_bit 40 (v AND 0x00ff000000000000) OR
     drop_bit 24 (v AND 0x0000ff0000000000) OR drop_bit 8 (v AND 0x000000ff00000000) OR
     push_bit 8 (v AND 0x00000000ff000000) OR push_bit 24 (v AND 0x0000000000ff0000) OR
     push_bit 40 (v AND 0x000000000000ff00) OR push_bit 56 (v AND 0x00000000000000ff)"

text \<open>A big-endian field: a native load followed by the swap.\<close>

definition be16 :: "byte list \<Rightarrow> nat \<Rightarrow> nat option" where
  "be16 m i = map_option (\<lambda>w. unat (FSW_SWAPVALUE_U16 w)) (le16 m i)"

definition be32 :: "byte list \<Rightarrow> nat \<Rightarrow> nat option" where
  "be32 m i = map_option (\<lambda>w. unat (FSW_SWAPVALUE_U32 w)) (le32 m i)"

definition be64 :: "byte list \<Rightarrow> nat \<Rightarrow> nat option" where
  "be64 m i = map_option (\<lambda>w. unat (FSW_SWAPVALUE_U64 w)) (le64 m i)"

lemma be16_None: "be16 m i = None \<longleftrightarrow> length m < i + 2"
  by (auto simp: be16_def le16_def)

lemma be32_None: "be32 m i = None \<longleftrightarrow> length m < i + 4"
  by (auto simp: be32_def le32_def)

lemma be16_bound: "be16 m i = Some x \<Longrightarrow> x < 2 ^ 16"
  unfolding be16_def using unsigned_less [where 'b = 16] by (auto)

section \<open>Facts about byte order\<close>

text \<open>The masks of the macros as shifted byte masks, whose bits are known.\<close>

lemma byte_masks16: "(0x00ff :: u16) = mask 8" "(0xff00 :: u16) = push_bit 8 (mask 8)"
  by (simp_all add: mask_eq_exp_minus_1)

lemma byte_masks32:
  "(0x000000ff :: u32) = mask 8" "(0x0000ff00 :: u32) = push_bit 8 (mask 8)"
  "(0x00ff0000 :: u32) = push_bit 16 (mask 8)" "(0xff000000 :: u32) = push_bit 24 (mask 8)"
  by (simp_all add: mask_eq_exp_minus_1)

lemma byte_masks64:
  "(0x00000000000000ff :: u64) = mask 8" "(0x000000000000ff00 :: u64) = push_bit 8 (mask 8)"
  "(0x0000000000ff0000 :: u64) = push_bit 16 (mask 8)" "(0x00000000ff000000 :: u64) = push_bit 24 (mask 8)"
  "(0x000000ff00000000 :: u64) = push_bit 32 (mask 8)" "(0x0000ff0000000000 :: u64) = push_bit 40 (mask 8)"
  "(0x00ff000000000000 :: u64) = push_bit 48 (mask 8)" "(0xff00000000000000 :: u64) = push_bit 56 (mask 8)"
  by (simp_all add: mask_eq_exp_minus_1)

lemma bit_byte_bound: "bit (a :: byte) n \<Longrightarrow> n < 8"
  using bit_imp_le_length [of a n] by simp

lemma swap16_bytes:
  "FSW_SWAPVALUE_U16 (ucast a OR push_bit 8 (ucast b)) = push_bit 8 (ucast (a :: byte)) OR ucast (b :: byte)"
  by (rule bit_word_eqI)
    (auto simp: FSW_SWAPVALUE_U16_def byte_masks16 bit_simps dest: bit_byte_bound)

lemma swap16_involution: "FSW_SWAPVALUE_U16 (FSW_SWAPVALUE_U16 w) = w"
  by (rule bit_word_eqI)
    (auto simp: FSW_SWAPVALUE_U16_def byte_masks16 bit_simps, metis le_add_diff_inverse linorder_not_less)

lemma swap16_0 [simp]: "FSW_SWAPVALUE_U16 w = 0 \<longleftrightarrow> w = 0"
proof -
  have "FSW_SWAPVALUE_U16 0 = 0" by (simp add: FSW_SWAPVALUE_U16_def)
  then show ?thesis by (metis swap16_involution)
qed

lemma byte32_select:
  fixes a b c d :: byte
  defines "x \<equiv> (ucast a OR push_bit 8 (ucast b) OR push_bit 16 (ucast c) OR push_bit 24 (ucast d) :: u32)"
  shows "x AND mask 8 = ucast a"
    and "x AND push_bit 8 (mask 8) = push_bit 8 (ucast b)"
    and "x AND push_bit 16 (mask 8) = push_bit 16 (ucast c)"
    and "x AND push_bit 24 (mask 8) = push_bit 24 (ucast d)"
  unfolding x_def
  by (rule bit_word_eqI; auto simp: bit_simps dest: bit_byte_bound)+

lemma swap32_bytes:
  "FSW_SWAPVALUE_U32 (ucast a OR push_bit 8 (ucast b) OR push_bit 16 (ucast c) OR push_bit 24 (ucast d)) =
    push_bit 24 (ucast (a :: byte)) OR push_bit 16 (ucast (b :: byte)) OR
    push_bit 8 (ucast (c :: byte)) OR ucast (d :: byte)"
proof -
  have "drop_bit 24 (push_bit 24 (ucast d :: u32)) = ucast d"
    by (rule bit_word_eqI) (auto simp: bit_simps dest: bit_byte_bound)
  moreover have "drop_bit 8 (push_bit 16 (ucast c :: u32)) = push_bit 8 (ucast c)"
    by (rule bit_word_eqI) (auto simp: bit_simps dest: bit_byte_bound)
  ultimately show ?thesis
    unfolding FSW_SWAPVALUE_U32_def byte_masks32 byte32_select by (simp add: ac_simps)
qed

lemma unat_two_bytes:
  "unat (push_bit 8 (ucast a) OR ucast b :: u16) = 256 * unat (a :: byte) + unat (b :: byte)"
proof -
  have "unat (push_bit 8 (ucast a) OR ucast b :: u16) = push_bit 8 (unat a) OR unat b"
    using unat_byte_bound [of a] unat_byte_bound [of b]
    by (simp add: unsigned_or_eq unsigned_push_bit_eq unsigned_ucast_eq take_bit_push_bit
        take_bit_nat_eq_self)
  then show ?thesis by (simp add: push_bit_or_low [OF unat_byte_bound])
qed

lemma unat_four_bytes:
  "unat (push_bit 24 (ucast a) OR push_bit 16 (ucast b) OR push_bit 8 (ucast c) OR ucast d :: u32) =
    2 ^ 24 * unat (a :: byte) + 2 ^ 16 * unat (b :: byte) + 2 ^ 8 * unat (c :: byte) + unat (d :: byte)"
proof -
  note l = unat_byte_bound [of a] unat_byte_bound [of b] unat_byte_bound [of c] unat_byte_bound [of d]
  have "unat (push_bit 24 (ucast a) OR push_bit 16 (ucast b) OR push_bit 8 (ucast c) OR ucast d :: u32)
      = push_bit 24 (unat a) OR (push_bit 16 (unat b) OR (push_bit 8 (unat c) OR unat d))"
    using l by (simp add: unsigned_or_eq unsigned_push_bit_eq unsigned_ucast_eq take_bit_push_bit
        take_bit_nat_eq_self or.assoc)
  also have "push_bit 8 (unat c) OR unat d = 2 ^ 8 * unat c + unat d"
    by (rule push_bit_or_low [OF unat_byte_bound])
  also have "push_bit 16 (unat b) OR \<dots> = 2 ^ 16 * unat b + (2 ^ 8 * unat c + unat d)"
    by (rule push_bit_or_low) (use l in simp)
  also have "push_bit 24 (unat a) OR \<dots> = 2 ^ 24 * unat a + (2 ^ 16 * unat b + (2 ^ 8 * unat c + unat d))"
    by (rule push_bit_or_low) (use l in simp)
  finally show ?thesis by simp
qed

text \<open>The swapped native load reads the bytes most significant first.\<close>

lemma be16_value:
  "i + 2 \<le> length m \<Longrightarrow> be16 m i = Some (256 * unat (m ! i) + unat (m ! (i + 1)))"
  by (simp add: be16_def le16_def swap16_bytes unat_two_bytes)

lemma be32_value:
  "i + 4 \<le> length m \<Longrightarrow> be32 m i = Some (2 ^ 24 * unat (m ! i) + 2 ^ 16 * unat (m ! (i + 1)) +
    2 ^ 8 * unat (m ! (i + 2)) + unat (m ! (i + 3)))"
  by (simp only: be32_def le32_def swap32_bytes unat_four_bytes if_True option.map)

end
