(* ===== verification/FswStrings.thy ===== *)
theory FswStrings
  imports FswByteOrder
begin

text \<open>
  Strings with an encoding: \<^verbatim>\<open>OpenHfsPlus/fsw_lib.c\<close> and the generated conversion routines of
  \<^verbatim>\<open>OpenHfsPlus/fsw_strfunc.h\<close>. A string's data is the list of its code units from the data
  pointer on; reading past it is \<open>None\<close>. The abstract view of a string is its list of
  characters: comparison decides equality of the characters whatever the two encodings are,
  conversion keeps the characters, and splitting cuts at the first separator.
\<close>

section \<open>Reading and writing one character\<close>

fun next_ISO88591 :: "nat list \<Rightarrow> (nat \<times> nat list) option" where
  "next_ISO88591 [] = None"
| "next_ISO88591 (c # p) = Some (c, p)"

fun next_UTF16 :: "nat list \<Rightarrow> (nat \<times> nat list) option" where
  "next_UTF16 [] = None"
| "next_UTF16 (c # p) = Some (c, p)"

definition swap_unit :: "nat \<Rightarrow> nat" where
  "swap_unit c = unat (FSW_SWAPVALUE_U16 (of_nat c))"

fun next_UTF16_SWAPPED :: "nat list \<Rightarrow> (nat \<times> nat list) option" where
  "next_UTF16_SWAPPED [] = None"
| "next_UTF16_SWAPPED (c # p) = Some (swap_unit c, p)"

fun next_UTF8 :: "nat list \<Rightarrow> (nat \<times> nat list) option" where
  "next_UTF8 [] = None"
| "next_UTF8 (c # p) =
     (if c AND 0xe0 = 0xc0 then
        (case p of
           b1 # p' \<Rightarrow> Some (push_bit 6 (c AND 0x1f) OR (b1 AND 0x3f), p')
         | _ \<Rightarrow> None)
      else if c AND 0xf0 = 0xe0 then
        (case p of
           b1 # b2 # p' \<Rightarrow>
             Some (push_bit 12 (c AND 0x0f) OR push_bit 6 (b1 AND 0x3f) OR (b2 AND 0x3f), p')
         | _ \<Rightarrow> None)
      else if c AND 0xf8 = 0xf0 then
        (case p of
           b1 # b2 # b3 # p' \<Rightarrow>
             Some (push_bit 18 (c AND 0x07) OR push_bit 12 (b1 AND 0x3f) OR
               push_bit 6 (b2 AND 0x3f) OR (b3 AND 0x3f), p')
         | _ \<Rightarrow> None)
      else Some (c, p))"

definition utf8_size :: "nat \<Rightarrow> nat" where
  "utf8_size c = (if c < 0x000080 then 1 else if c < 0x000800 then 2 else if c < 0x010000 then 3 else 4)"

definition utf8_put :: "nat \<Rightarrow> nat list" where
  "utf8_put c =
     (if c < 0x000080 then [c]
      else if c < 0x000800 then [0xc0 OR (drop_bit 6 c AND 0x1f), 0x80 OR (c AND 0x3f)]
      else if c < 0x010000 then
        [0xe0 OR (drop_bit 12 c AND 0x0f), 0x80 OR (drop_bit 6 c AND 0x3f), 0x80 OR (c AND 0x3f)]
      else [0xf0 OR (drop_bit 18 c AND 0x07), 0x80 OR (drop_bit 12 c AND 0x3f),
        0x80 OR (drop_bit 6 c AND 0x3f), 0x80 OR (c AND 0x3f)])"

section \<open>The generated routines\<close>

text \<open>
  The comparison routines share one loop and differ in how the next character of each side
  is read; so do the conversion routines.
\<close>

fun streq_loop ::
  "(nat list \<Rightarrow> (nat \<times> nat list) option) \<Rightarrow> (nat list \<Rightarrow> (nat \<times> nat list) option) \<Rightarrow>
    nat list \<Rightarrow> nat list \<Rightarrow> nat \<Rightarrow> bool option" where
  "streq_loop next1 next2 p1 p2 0 = Some True"
| "streq_loop next1 next2 p1 p2 (Suc n) =
     (case next1 p1 of
        None \<Rightarrow> None
      | Some (c1, p1') \<Rightarrow>
          (case next2 p2 of
             None \<Rightarrow> None
           | Some (c2, p2') \<Rightarrow> if c1 \<noteq> c2 then Some False else streq_loop next1 next2 p1' p2' n))"

definition fsw_streq_ISO88591_UTF8 :: "nat list \<Rightarrow> nat list \<Rightarrow> nat \<Rightarrow> bool option" where
  "fsw_streq_ISO88591_UTF8 = streq_loop next_ISO88591 next_UTF8"

definition fsw_streq_ISO88591_UTF16 :: "nat list \<Rightarrow> nat list \<Rightarrow> nat \<Rightarrow> bool option" where
  "fsw_streq_ISO88591_UTF16 = streq_loop next_ISO88591 next_UTF16"

definition fsw_streq_ISO88591_UTF16_SWAPPED :: "nat list \<Rightarrow> nat list \<Rightarrow> nat \<Rightarrow> bool option" where
  "fsw_streq_ISO88591_UTF16_SWAPPED = streq_loop next_ISO88591 next_UTF16_SWAPPED"

definition fsw_streq_UTF8_UTF16 :: "nat list \<Rightarrow> nat list \<Rightarrow> nat \<Rightarrow> bool option" where
  "fsw_streq_UTF8_UTF16 = streq_loop next_UTF8 next_UTF16"

definition fsw_streq_UTF8_UTF16_SWAPPED :: "nat list \<Rightarrow> nat list \<Rightarrow> nat \<Rightarrow> bool option" where
  "fsw_streq_UTF8_UTF16_SWAPPED = streq_loop next_UTF8 next_UTF16_SWAPPED"

definition fsw_streq_UTF16_UTF16_SWAPPED :: "nat list \<Rightarrow> nat list \<Rightarrow> nat \<Rightarrow> bool option" where
  "fsw_streq_UTF16_UTF16_SWAPPED = streq_loop next_UTF16 next_UTF16_SWAPPED"

text \<open>The characters of a string, one after the other, each put into the destination.\<close>

fun coerce_loop ::
  "(nat list \<Rightarrow> (nat \<times> nat list) option) \<Rightarrow> (nat \<Rightarrow> nat list) \<Rightarrow> nat list \<Rightarrow> nat \<Rightarrow> nat list option" where
  "coerce_loop nxt put sp 0 = Some []"
| "coerce_loop nxt put sp (Suc n) =
     (case nxt sp of
        None \<Rightarrow> None
      | Some (c, sp') \<Rightarrow> map_option ((@) (put c)) (coerce_loop nxt put sp' n))"

definition put_u8 :: "nat \<Rightarrow> nat list" where
  "put_u8 c = [c mod 2 ^ 8]"

definition put_u16 :: "nat \<Rightarrow> nat list" where
  "put_u16 c = [c mod 2 ^ 16]"

text \<open>To a fixed-width encoding: the size is known before the data is read.\<close>

definition strcoerce_fixed ::
  "fsw_string_type \<Rightarrow> nat \<Rightarrow> (nat list \<Rightarrow> (nat \<times> nat list) option) \<Rightarrow> (nat \<Rightarrow> nat list) \<Rightarrow>
    fsw_host \<Rightarrow> 'v fsw_volume_scheme \<Rightarrow> nat list \<Rightarrow> nat \<Rightarrow> fsw_string fsw_res \<times> 'v fsw_volume_scheme" where
  "strcoerce_fixed type width nxt put h v srcdata srclen =
     (let size = srclen * width
      in case fsw_alloc h size v of
           (False, v1) \<Rightarrow> (Err FSW_OUT_OF_MEMORY, v1)
         | (True, v1) \<Rightarrow>
             (obind (of_load (coerce_loop nxt put srcdata srclen)) (\<lambda>d.
                Ok \<lparr>str_type = type, str_len = srclen, str_size = size, str_data = d\<rparr>), v1))"

text \<open>To UTF-8: a first pass over the source adds up the sizes.\<close>

definition strcoerce_utf8 ::
  "(nat list \<Rightarrow> (nat \<times> nat list) option) \<Rightarrow>
    fsw_host \<Rightarrow> 'v fsw_volume_scheme \<Rightarrow> nat list \<Rightarrow> nat \<Rightarrow> fsw_string fsw_res \<times> 'v fsw_volume_scheme" where
  "strcoerce_utf8 nxt h v srcdata srclen =
     (case coerce_loop nxt (\<lambda>c. [utf8_size c]) srcdata srclen of
        None \<Rightarrow> (Fault, v)
      | Some sizes \<Rightarrow>
          (case fsw_alloc h (sum_list sizes) v of
             (False, v1) \<Rightarrow> (Err FSW_OUT_OF_MEMORY, v1)
           | (True, v1) \<Rightarrow>
               (obind (of_load (coerce_loop nxt utf8_put srcdata srclen)) (\<lambda>d.
                  Ok \<lparr>str_type = STR_UTF8, str_len = srclen, str_size = sum_list sizes, str_data = d\<rparr>), v1)))"

definition "fsw_strcoerce_UTF8_ISO88591 = strcoerce_fixed STR_ISO88591 1 next_UTF8 put_u8"
definition "fsw_strcoerce_UTF16_ISO88591 = strcoerce_fixed STR_ISO88591 1 next_UTF16 put_u8"
definition "fsw_strcoerce_UTF16_SWAPPED_ISO88591 = strcoerce_fixed STR_ISO88591 1 next_UTF16_SWAPPED put_u8"
definition "fsw_strcoerce_ISO88591_UTF16 = strcoerce_fixed STR_UTF16 2 next_ISO88591 put_u16"
definition "fsw_strcoerce_UTF8_UTF16 = strcoerce_fixed STR_UTF16 2 next_UTF8 put_u16"
definition "fsw_strcoerce_UTF16_SWAPPED_UTF16 = strcoerce_fixed STR_UTF16 2 next_UTF16_SWAPPED put_u16"
definition "fsw_strcoerce_ISO88591_UTF8 = strcoerce_utf8 next_ISO88591"
definition "fsw_strcoerce_UTF16_UTF8 = strcoerce_utf8 next_UTF16"
definition "fsw_strcoerce_UTF16_SWAPPED_UTF8 = strcoerce_utf8 next_UTF16_SWAPPED"

section \<open>String operations\<close>

definition fsw_strlen :: "fsw_string option \<Rightarrow> nat" where
  "fsw_strlen s = (case s of
     None \<Rightarrow> 0 | Some s \<Rightarrow> if str_type s = STR_EMPTY then 0 else str_len s)"

definition fsw_strsize :: "fsw_string option \<Rightarrow> nat" where
  "fsw_strsize s = (case s of
     None \<Rightarrow> 0 | Some s \<Rightarrow> if str_type s = STR_EMPTY then 0 else str_size s)"

definition fsw_strdata :: "fsw_string option \<Rightarrow> nat list option" where
  "fsw_strdata s = (case s of
     None \<Rightarrow> None | Some s \<Rightarrow> if str_type s = STR_EMPTY then None else Some (str_data s))"

text \<open>The bytes behind the data pointer: UTF-16 units in the memory order of the target.\<close>

definition str_bytes :: "fsw_string \<Rightarrow> nat list" where
  "str_bytes s = (if str_type s = STR_UTF16 \<or> str_type s = STR_UTF16_SWAPPED
     then concat (map (\<lambda>c. [c mod 256, c div 256]) (str_data s)) else str_data s)"

definition fsw_memeq :: "fsw_string \<Rightarrow> fsw_string \<Rightarrow> nat \<Rightarrow> bool option" where
  "fsw_memeq s1 s2 n = (if n \<le> length (str_bytes s1) \<and> n \<le> length (str_bytes s2)
     then Some (take n (str_bytes s1) = take n (str_bytes s2)) else None)"

definition nonempty_type :: "fsw_string \<Rightarrow> fsw_string" where
  "nonempty_type s = (if str_type s = STR_EMPTY
     then \<lparr>str_type = STR_ISO88591, str_len = 0, str_size = 0, str_data = []\<rparr> else s)"

definition fsw_streq :: "fsw_string \<Rightarrow> fsw_string \<Rightarrow> bool option" where
  "fsw_streq a b =
     (let s1 = nonempty_type a; s2 = nonempty_type b;
          d1 = str_data s1; d2 = str_data s2; n = str_len s1
      in if str_len s1 \<noteq> str_len s2 then Some False
         else if str_len s1 = 0 then Some True
         else if str_type s1 = str_type s2 then
           (if str_size s1 \<noteq> str_size s2 then Some False else fsw_memeq s1 s2 (str_size s1))
         else (case (str_type s1, str_type s2) of
             (STR_ISO88591, STR_UTF8) \<Rightarrow> fsw_streq_ISO88591_UTF8 d1 d2 n
           | (STR_UTF8, STR_ISO88591) \<Rightarrow> fsw_streq_ISO88591_UTF8 d2 d1 n
           | (STR_ISO88591, STR_UTF16) \<Rightarrow> fsw_streq_ISO88591_UTF16 d1 d2 n
           | (STR_UTF16, STR_ISO88591) \<Rightarrow> fsw_streq_ISO88591_UTF16 d2 d1 n
           | (STR_ISO88591, STR_UTF16_SWAPPED) \<Rightarrow> fsw_streq_ISO88591_UTF16_SWAPPED d1 d2 n
           | (STR_UTF16_SWAPPED, STR_ISO88591) \<Rightarrow> fsw_streq_ISO88591_UTF16_SWAPPED d2 d1 n
           | (STR_UTF8, STR_UTF16) \<Rightarrow> fsw_streq_UTF8_UTF16 d1 d2 n
           | (STR_UTF16, STR_UTF8) \<Rightarrow> fsw_streq_UTF8_UTF16 d2 d1 n
           | (STR_UTF8, STR_UTF16_SWAPPED) \<Rightarrow> fsw_streq_UTF8_UTF16_SWAPPED d1 d2 n
           | (STR_UTF16_SWAPPED, STR_UTF8) \<Rightarrow> fsw_streq_UTF8_UTF16_SWAPPED d2 d1 n
           | (STR_UTF16, STR_UTF16_SWAPPED) \<Rightarrow> fsw_streq_UTF16_UTF16_SWAPPED d1 d2 n
           | (STR_UTF16_SWAPPED, STR_UTF16) \<Rightarrow> fsw_streq_UTF16_UTF16_SWAPPED d2 d1 n
           | _ \<Rightarrow> Some False))"

text \<open>A C string constant as a list of nonzero characters.\<close>

definition fsw_streq_cstr :: "fsw_string \<Rightarrow> nat list \<Rightarrow> bool option" where
  "fsw_streq_cstr s1 s2 =
     fsw_streq s1 \<lparr>str_type = STR_ISO88591, str_len = length s2, str_size = length s2, str_data = s2\<rparr>"

text \<open>
  Copying \<open>size\<close> bytes of a UTF-16 string leaves \<open>size div 2\<close> readable units.
\<close>

definition strdup_same ::
  "fsw_host \<Rightarrow> 'v fsw_volume_scheme \<Rightarrow> fsw_string \<Rightarrow> fsw_string fsw_res \<times> 'v fsw_volume_scheme" where
  "strdup_same h v src =
     (let size = str_size src;
          units = (if str_type src = STR_UTF16 \<or> str_type src = STR_UTF16_SWAPPED then size div 2 else size)
      in case fsw_alloc h size v of
           (False, v1) \<Rightarrow> (Err FSW_OUT_OF_MEMORY, v1)
         | (True, v1) \<Rightarrow>
             (if size \<le> length (str_bytes src)
              then Ok (src\<lparr>str_data := take units (str_data src)\<rparr>) else Fault, v1))"

definition fsw_strdup_coerce ::
  "fsw_host \<Rightarrow> 'v fsw_volume_scheme \<Rightarrow> fsw_string_type \<Rightarrow> fsw_string \<Rightarrow>
    fsw_string fsw_res \<times> 'v fsw_volume_scheme" where
  "fsw_strdup_coerce h v type src =
     (if str_type src = STR_EMPTY \<or> str_len src = 0 then
        (Ok \<lparr>str_type = type, str_len = 0, str_size = 0, str_data = []\<rparr>, v)
      else if str_type src = type then strdup_same h v src
      else (case (str_type src, type) of
          (STR_UTF8, STR_ISO88591) \<Rightarrow> fsw_strcoerce_UTF8_ISO88591 h v (str_data src) (str_len src)
        | (STR_UTF16, STR_ISO88591) \<Rightarrow> fsw_strcoerce_UTF16_ISO88591 h v (str_data src) (str_len src)
        | (STR_UTF16_SWAPPED, STR_ISO88591) \<Rightarrow>
            fsw_strcoerce_UTF16_SWAPPED_ISO88591 h v (str_data src) (str_len src)
        | (STR_ISO88591, STR_UTF8) \<Rightarrow> fsw_strcoerce_ISO88591_UTF8 h v (str_data src) (str_len src)
        | (STR_UTF16, STR_UTF8) \<Rightarrow> fsw_strcoerce_UTF16_UTF8 h v (str_data src) (str_len src)
        | (STR_UTF16_SWAPPED, STR_UTF8) \<Rightarrow>
            fsw_strcoerce_UTF16_SWAPPED_UTF8 h v (str_data src) (str_len src)
        | (STR_ISO88591, STR_UTF16) \<Rightarrow> fsw_strcoerce_ISO88591_UTF16 h v (str_data src) (str_len src)
        | (STR_UTF8, STR_UTF16) \<Rightarrow> fsw_strcoerce_UTF8_UTF16 h v (str_data src) (str_len src)
        | (STR_UTF16_SWAPPED, STR_UTF16) \<Rightarrow>
            fsw_strcoerce_UTF16_SWAPPED_UTF16 h v (str_data src) (str_len src)
        | _ \<Rightarrow> (Err FSW_UNSUPPORTED, v)))"

text \<open>
  Splitting: the element and the remaining buffer share the data. The scan reads at most
  \<open>len\<close> units.
\<close>

definition split_at :: "nat \<Rightarrow> fsw_string \<Rightarrow> nat \<Rightarrow> (fsw_string \<times> fsw_string) option" where
  "split_at width buffer separator =
     (let maxlen = str_len buffer;
          i = first_idx (\<lambda>c. c = separator) (take maxlen (str_data buffer));
          rest = (if i < maxlen then i + 1 else i)
      in if i = length (str_data buffer) \<and> i < maxlen then None
         else Some (buffer\<lparr>str_len := i, str_size := i * width\<rparr>,
                    buffer\<lparr>str_len := maxlen - rest, str_size := (maxlen - rest) * width,
                      str_data := drop rest (str_data buffer)\<rparr>))"

definition fsw_strsplit :: "fsw_string \<Rightarrow> fsw_string \<Rightarrow> nat \<Rightarrow> (fsw_string \<times> fsw_string) option" where
  "fsw_strsplit element buffer separator =
     (if str_type buffer = STR_EMPTY \<or> str_len buffer = 0 then
        Some (element\<lparr>str_type := STR_EMPTY\<rparr>, buffer)
      else if str_type buffer = STR_ISO88591 then split_at 1 buffer separator
      else if str_type buffer = STR_UTF16 then split_at 2 buffer separator
      else Some (buffer, buffer\<lparr>str_type := STR_EMPTY\<rparr>))"

definition fsw_strfree :: "fsw_string \<Rightarrow> fsw_string" where
  "fsw_strfree s = s\<lparr>str_type := STR_EMPTY\<rparr>"

section \<open>UTF-8\<close>

text \<open>Masks and shifts of the routines as arithmetic; what is written is read back.\<close>

lemma and_shifted: "(c :: nat) AND push_bit k m = push_bit k (drop_bit k c AND m)"
  by (rule bit_eqI) (auto simp: bit_simps)

lemma and_masks:
  "(c :: nat) AND 0x3f = c mod 64" "c AND 0x1f = c mod 32" "c AND 0x0f = c mod 16" "c AND 0x07 = c mod 8"
  using and_pow2_minus1 [of c 6] and_pow2_minus1 [of c 5] and_pow2_minus1 [of c 4] and_pow2_minus1 [of c 3]
  by simp_all

lemma and_prefix:
  "(c :: nat) AND 0xe0 = 32 * (c div 32 mod 8)"
  "c AND 0xf0 = 16 * (c div 16 mod 16)"
  "c AND 0xf8 = 8 * (c div 8 mod 32)"
  using and_shifted [of c 5 7] and_shifted [of c 4 15] and_shifted [of c 3 31]
  by (simp_all add: drop_bit_eq_div push_bit_eq_mult and_masks)

lemma or_prefix:
  "b < 64 \<Longrightarrow> 0x80 OR b = 0x80 + (b :: nat)" "b < 32 \<Longrightarrow> 0xc0 OR b = 0xc0 + (b :: nat)"
  "b < 16 \<Longrightarrow> 0xe0 OR b = 0xe0 + (b :: nat)" "b < 8 \<Longrightarrow> 0xf0 OR b = 0xf0 + (b :: nat)"
  using push_bit_or_low [of b 6 2] push_bit_or_low [of b 5 6] push_bit_or_low [of b 4 14] push_bit_or_low [of b 3 30]
  by (simp_all add: push_bit_eq_mult)

lemma or_groups:
  "b < 64 \<Longrightarrow> push_bit 6 a OR b = 64 * a + (b :: nat)"
  "b < 64 \<Longrightarrow> b' < 64 \<Longrightarrow> push_bit 12 a OR (64 * b + b') = 4096 * a + (64 * b + (b' :: nat))"
  "b < 64 \<Longrightarrow> b' < 64 \<Longrightarrow> b'' < 64 \<Longrightarrow>
    push_bit 18 a OR (4096 * b + (64 * b' + b'')) = 262144 * a + (4096 * b + (64 * b' + (b'' :: nat)))"
  using push_bit_or_low [of b 6 a] push_bit_or_low [of "64 * b + b'" 12 a]
    push_bit_or_low [of "4096 * b + (64 * b' + b'')" 18 a] by simp_all

lemma lead_bytes:
  "x < 32 \<Longrightarrow> (192 + x) div 32 = 6" "x < 32 \<Longrightarrow> (192 + x) mod 32 = (x :: nat)"
  "x < 16 \<Longrightarrow> (224 + x) div 32 = 7" "x < 16 \<Longrightarrow> (224 + x) div 16 = 14" "x < 16 \<Longrightarrow> (224 + x) mod 16 = (x :: nat)"
  "x < 8 \<Longrightarrow> (240 + x) div 32 = 7" "x < 8 \<Longrightarrow> (240 + x) div 16 = 15" "x < 8 \<Longrightarrow> (240 + x) div 8 = 30"
  "x < 8 \<Longrightarrow> (240 + x) mod 8 = (x :: nat)" "x < 64 \<Longrightarrow> (128 + x) mod 64 = (x :: nat)"
  by (auto simp: div_nat_eqI mod_nat_eqI)

lemma split64: "64 * (c div 64) + c mod 64 = (c :: nat)" by (rule mult_div_mod_eq)

lemma split4096: "4096 * (c div 4096) + 64 * (c div 64 mod 64) + c mod 64 = (c :: nat)"
proof -
  have "c div 4096 = c div 64 div 64" by (simp flip: div_mult2_eq)
  then show ?thesis using split64 [of "c div 64"] split64 [of c] by linarith
qed

lemma split262144: "262144 * (c div 262144) + 4096 * (c div 4096 mod 64) + 64 * (c div 64 mod 64) + c mod 64 = (c :: nat)"
proof -
  have "c div 262144 = c div 4096 div 64" by (simp flip: div_mult2_eq)
  then show ?thesis using split64 [of "c div 4096"] split4096 [of c] by linarith
qed

lemma utf8_roundtrip:
  assumes "c < 2 ^ 21" shows "next_UTF8 (utf8_put c @ p) = Some (c, p)"
proof -
  note ss = utf8_put_def and_masks and_prefix or_prefix or_groups drop_bit_eq_div
  consider "c < 0x80" | "0x80 \<le> c" "c < 0x800" | "0x800 \<le> c" "c < 0x10000" | "0x10000 \<le> c" by linarith
  then show ?thesis
  proof cases
    case 1
    then have "c div 32 < 4" "c div 16 < 8" "c div 8 < 16" by auto
    with 1 show ?thesis by (simp add: ss)
  next
    case 2
    then have "c div 64 < 32" by auto
    with 2 split64 [of c] show ?thesis by (simp add: ss lead_bytes)
  next
    case 3
    then have l: "c div 4096 < 16" by auto
    with 3 split4096 [of c] show ?thesis by (simp add: ss lead_bytes)
  next
    case 4
    then have l: "c div 262144 < 8" using assms by auto
    with 4 split262144 [of c] show ?thesis by (simp add: ss lead_bytes)
  qed
qed

lemma swap_unit_swap [simp]: "c < 2 ^ 16 \<Longrightarrow> swap_unit (swap_unit c) = c"
  by (simp add: swap_unit_def swap16_involution unat_of_nat take_bit_nat_eq_self)

lemma swap_unit_bound: "swap_unit c < 2 ^ 16"
  unfolding swap_unit_def using unsigned_less [where 'b = 16] by auto

section \<open>Strings as lists of characters\<close>

definition next_char :: "fsw_string_type \<Rightarrow> nat list \<Rightarrow> (nat \<times> nat list) option" where
  "next_char ty = (case ty of STR_UTF8 \<Rightarrow> next_UTF8 | STR_UTF16 \<Rightarrow> next_UTF16
     | STR_UTF16_SWAPPED \<Rightarrow> next_UTF16_SWAPPED | _ \<Rightarrow> next_ISO88591)"

definition units :: "fsw_string_type \<Rightarrow> nat \<Rightarrow> nat list" where
  "units ty c = (case ty of STR_UTF8 \<Rightarrow> utf8_put c | STR_UTF16_SWAPPED \<Rightarrow> [swap_unit c] | _ \<Rightarrow> [c])"

definition unit_width :: "fsw_string_type \<Rightarrow> nat" where
  "unit_width ty = (if ty = STR_UTF16 \<or> ty = STR_UTF16_SWAPPED then 2 else 1)"

definition char_limit :: "fsw_string_type \<Rightarrow> nat" where
  "char_limit ty = (case ty of STR_UTF8 \<Rightarrow> 2 ^ 21 | STR_UTF16 \<Rightarrow> 2 ^ 16 | STR_UTF16_SWAPPED \<Rightarrow> 2 ^ 16 | _ \<Rightarrow> 2 ^ 8)"

abbreviation encode :: "fsw_string_type \<Rightarrow> nat list \<Rightarrow> nat list" where
  "encode ty cs \<equiv> concat (map (units ty) cs)"

definition represents :: "fsw_string \<Rightarrow> nat list \<Rightarrow> bool" where
  "represents s cs \<longleftrightarrow> (if str_type s = STR_EMPTY then cs = []
     else str_len s = length cs \<and> (\<forall>c \<in> set cs. c < char_limit (str_type s)) \<and>
       str_size s = unit_width (str_type s) * length (encode (str_type s) cs) \<and>
       take (length (encode (str_type s) cs)) (str_data s) = encode (str_type s) cs)"

lemma next_char_units: "c < char_limit ty \<Longrightarrow> next_char ty (units ty c @ p) = Some (c, p)"
  by (cases ty) (simp_all add: next_char_def units_def char_limit_def utf8_roundtrip)

lemma streq_loop_chars:
  assumes "length cs1 = length cs2" "\<forall>c \<in> set cs1. c < char_limit t1" "\<forall>c \<in> set cs2. c < char_limit t2"
  shows "streq_loop (next_char t1) (next_char t2) (encode t1 cs1 @ r1) (encode t2 cs2 @ r2) (length cs1) =
    Some (cs1 = cs2)"
  using assms by (induction cs1 cs2 rule: list_induct2) (auto simp: next_char_units)

lemma coerce_loop_chars:
  assumes "\<forall>c \<in> set cs. c < char_limit ty"
  shows "coerce_loop (next_char ty) put (encode ty cs @ r) (length cs) = Some (concat (map put cs))"
  using assms by (induction cs) (auto simp: next_char_units)

lemma represents_data:
  assumes "represents s cs" and "str_type s \<noteq> STR_EMPTY"
  obtains r where "str_data s = encode (str_type s) cs @ r" "str_len s = length cs"
    "\<forall>c \<in> set cs. c < char_limit (str_type s)"
    "str_size s = unit_width (str_type s) * length (encode (str_type s) cs)"
proof
  let ?u = "encode (str_type s) cs"
  have "take (length ?u) (str_data s) = ?u" using assms unfolding represents_def by simp
  then show "str_data s = ?u @ drop (length ?u) (str_data s)" by (metis append_take_drop_id)
qed (use assms in \<open>auto simp: represents_def\<close>)


lemma encode_inj:
  assumes "\<forall>c \<in> set cs1. c < char_limit ty" "\<forall>c \<in> set cs2. c < char_limit ty"
    "length cs1 = length cs2" "encode ty cs1 = encode ty cs2"
  shows "cs1 = cs2"
  using coerce_loop_chars [OF assms(1), of "\<lambda>c. [c]" "[]"]
    coerce_loop_chars [OF assms(2), of "\<lambda>c. [c]" "[]"] assms(3,4) by simp

abbreviation unit_bytes :: "nat list \<Rightarrow> nat list" where
  "unit_bytes us \<equiv> concat (map (\<lambda>c. [c mod 256, c div 256]) us)"

lemma length_unit_bytes [simp]: "length (unit_bytes us) = 2 * length us"
  by (induction us) auto

lemma unit_bytes_inj: "unit_bytes us = unit_bytes vs \<longleftrightarrow> us = vs"
proof
  assume "unit_bytes us = unit_bytes vs"
  then show "us = vs"
  proof (induction us arbitrary: vs)
    case (Cons u us)
    then obtain w ws where "vs = w # ws" by (cases vs) auto
    with Cons show ?case by auto (metis mult_div_mod_eq)
  qed (auto simp: neq_Nil_conv)
qed simp

lemma size_bytes:
  assumes "represents s cs" and "str_type s \<noteq> STR_EMPTY"
  shows "str_size s \<le> length (str_bytes s)"
    and "take (str_size s) (str_bytes s) = (if unit_width (str_type s) = 2
      then unit_bytes (encode (str_type s) cs) else encode (str_type s) cs)"
  using assms
  by (auto elim!: represents_data simp: str_bytes_def unit_width_def)

lemma streq_same:
  assumes r: "represents s1 cs1" "represents s2 cs2" and t: "str_type s1 = str_type s2" "str_type s1 \<noteq> STR_EMPTY"
    and l: "str_len s1 = str_len s2"
  shows "(if str_size s1 \<noteq> str_size s2 then Some False else fsw_memeq s1 s2 (str_size s1)) = Some (cs1 = cs2)"
proof -
  have t2: "str_type s2 \<noteq> STR_EMPTY" using t by simp
  have ls: "\<forall>c \<in> set cs1. c < char_limit (str_type s1)" "\<forall>c \<in> set cs2. c < char_limit (str_type s1)" "length cs1 = length cs2"
    using r t t2 l by (auto simp: represents_def)
  have eqs: "encode (str_type s1) cs1 = encode (str_type s1) cs2 \<longleftrightarrow> cs1 = cs2" using encode_inj [OF ls] by blast
  show ?thesis
  proof (cases "str_size s1 = str_size s2")
    case True
    with size_bytes [OF r(1) t(2)] size_bytes [OF r(2) t2] t show ?thesis
      by (simp add: fsw_memeq_def eqs [unfolded t(1)] unit_bytes_inj)
  next
    case False
    with r t t2 have "cs1 \<noteq> cs2" by (auto simp: represents_def)
    with False show ?thesis by simp
  qed
qed

lemma nonempty_type_represents:
  "represents s cs \<Longrightarrow> represents (nonempty_type s) cs \<and> str_type (nonempty_type s) \<noteq> STR_EMPTY"
  by (auto simp: nonempty_type_def represents_def)

lemmas streq_routines =
  fsw_streq_ISO88591_UTF8_def fsw_streq_ISO88591_UTF16_def fsw_streq_ISO88591_UTF16_SWAPPED_def
  fsw_streq_UTF8_UTF16_def fsw_streq_UTF8_UTF16_SWAPPED_def fsw_streq_UTF16_UTF16_SWAPPED_def

lemma next_char_simps [simp]:
  "next_char STR_ISO88591 = next_ISO88591" "next_char STR_UTF8 = next_UTF8"
  "next_char STR_UTF16 = next_UTF16" "next_char STR_UTF16_SWAPPED = next_UTF16_SWAPPED"
  by (simp_all add: next_char_def)

lemma streq_dispatch:
  assumes "str_len s1 = str_len s2" "str_len s1 \<noteq> 0" "str_type s1 \<noteq> str_type s2"
    "str_type s1 \<noteq> STR_EMPTY" "str_type s2 \<noteq> STR_EMPTY"
  shows "fsw_streq s1 s2 \<in>
    {streq_loop (next_char (str_type s1)) (next_char (str_type s2)) (str_data s1) (str_data s2) (str_len s1),
     streq_loop (next_char (str_type s2)) (next_char (str_type s1)) (str_data s2) (str_data s1) (str_len s1)}"
  using assms
  by (cases "str_type s1"; cases "str_type s2") (simp_all add: fsw_streq_def nonempty_type_def streq_routines)

lemma streq_nonempty_type: "fsw_streq a b = fsw_streq (nonempty_type a) (nonempty_type b)"
  by (simp add: fsw_streq_def nonempty_type_def)

lemma streq_chars:
  assumes "represents a cs1" "represents b cs2"
  shows "fsw_streq a b = Some (cs1 = cs2)"
proof -
  define s1 s2 where d: "s1 = nonempty_type a" "s2 = nonempty_type b"
  have r: "represents s1 cs1" "represents s2 cs2" and ne: "str_type s1 \<noteq> STR_EMPTY" "str_type s2 \<noteq> STR_EMPTY"
    using assms nonempty_type_represents by (auto simp: d)
  obtain r1 where 1: "str_data s1 = encode (str_type s1) cs1 @ r1" "str_len s1 = length cs1"
    "\<forall>c \<in> set cs1. c < char_limit (str_type s1)" using r(1) ne(1) by (rule represents_data)
  obtain r2 where 2: "str_data s2 = encode (str_type s2) cs2 @ r2" "str_len s2 = length cs2"
    "\<forall>c \<in> set cs2. c < char_limit (str_type s2)" using r(2) ne(2) by (rule represents_data)
  show ?thesis
  proof (cases "length cs1 = length cs2 \<and> cs1 \<noteq> [] \<and> str_type s1 \<noteq> str_type s2")
    case False
    then show ?thesis using 1(2) 2(2) streq_same [OF r _ ne(1)]
      by (auto simp: fsw_streq_def Let_def d [symmetric])
  next
    case True
    note lp = streq_loop_chars [OF _ 1(3) 2(3), of r1 r2] streq_loop_chars [OF _ 2(3) 1(3), of r2 r1]
    have "cs2 \<noteq> []" using True by auto
    then have "fsw_streq s1 s2 \<in> {Some (cs1 = cs2), Some (cs2 = cs1)}"
      using streq_dispatch [of s1 s2] True 1 2 lp ne by simp
    then show ?thesis by (auto simp: streq_nonempty_type [of a b] d [symmetric])
  qed
qed


section \<open>Conversion keeps the characters\<close>

definition copied :: "fsw_host \<Rightarrow> 'v fsw_volume_scheme \<Rightarrow> fsw_string_type \<Rightarrow> nat list \<Rightarrow>
    fsw_string fsw_res \<times> 'v fsw_volume_scheme \<Rightarrow> bool" where
  "copied h v ty cs res \<longleftrightarrow>
     (\<exists>d. fst res = Ok d \<and> represents d cs \<and> str_type d = ty \<and> length (str_data d) = length (encode ty cs)) \<and>
       (snd res = v \<or> snd res = v\<lparr>allocs := Suc (allocs v)\<rparr>) \<or>
     fst res = Err FSW_OUT_OF_MEMORY \<and> (\<exists>n. \<not> alloc_ok h (allocs v) n) \<and>
       snd res = v\<lparr>allocs := Suc (allocs v)\<rparr>"

lemma put_encode:
  "\<forall>c \<in> set cs. c < char_limit STR_ISO88591 \<Longrightarrow> concat (map put_u8 cs) = encode STR_ISO88591 cs"
  "\<forall>c \<in> set cs. c < char_limit STR_UTF16 \<Longrightarrow> concat (map put_u16 cs) = encode STR_UTF16 cs"
  "concat (map utf8_put cs) = encode STR_UTF8 cs"
  by (induction cs) (auto simp: put_u8_def put_u16_def units_def char_limit_def)

lemma length_encode_fixed: "ty \<noteq> STR_UTF8 \<Longrightarrow> length (encode ty cs) = length cs"
  by (induction cs) (auto simp: units_def split: fsw_string_type.splits)

lemma strcoerce_fixed_chars:
  assumes "\<forall>c \<in> set cs. c < char_limit t1" "\<forall>c \<in> set cs. c < char_limit ty" "ty \<notin> {STR_UTF8, STR_EMPTY}"
    "concat (map put cs) = encode ty cs"
  shows "copied h v ty cs (strcoerce_fixed ty (unit_width ty) (next_char t1) put h v (encode t1 cs @ r) (length cs))"
  using assms coerce_loop_chars [OF assms(1), of put r] length_encode_fixed [of ty cs]
  by (cases "alloc_ok h (allocs v) (length cs * unit_width ty)")
    (auto simp: copied_def strcoerce_fixed_def Let_def fsw_alloc_def represents_def)

lemma utf8_sizes: "sum_list (concat (map (\<lambda>c. [utf8_size c]) cs)) = length (encode STR_UTF8 cs)"
  by (induction cs) (auto simp: units_def utf8_size_def utf8_put_def)

lemma strcoerce_utf8_chars:
  assumes "\<forall>c \<in> set cs. c < char_limit t1" "\<forall>c \<in> set cs. c < char_limit STR_UTF8"
  shows "copied h v STR_UTF8 cs (strcoerce_utf8 (next_char t1) h v (encode t1 cs @ r) (length cs))"
  using assms coerce_loop_chars [OF assms(1), of utf8_put r]
    coerce_loop_chars [OF assms(1), of "\<lambda>c. [utf8_size c]" r] utf8_sizes [of cs] put_encode(3) [of cs]
  by (cases "alloc_ok h (allocs v) (length (encode STR_UTF8 cs))")
    (auto simp: copied_def strcoerce_utf8_def fsw_alloc_def represents_def unit_width_def)

lemma strdup_same_chars:
  assumes "represents s cs" "str_type s \<noteq> STR_EMPTY"
  shows "copied h v (str_type s) cs (strdup_same h v s)"
proof -
  obtain r where d: "str_data s = encode (str_type s) cs @ r" "str_len s = length cs"
    "\<forall>c \<in> set cs. c < char_limit (str_type s)"
    "str_size s = unit_width (str_type s) * length (encode (str_type s) cs)"
    using assms by (rule represents_data)
  then show ?thesis using assms(2) size_bytes(1) [OF assms]
    by (cases "alloc_ok h (allocs v) (str_size s)")
      (auto simp: copied_def strdup_same_def Let_def fsw_alloc_def represents_def unit_width_def)
qed

lemmas strcoerce_routines =
  fsw_strcoerce_UTF8_ISO88591_def fsw_strcoerce_UTF16_ISO88591_def fsw_strcoerce_UTF16_SWAPPED_ISO88591_def
  fsw_strcoerce_ISO88591_UTF16_def fsw_strcoerce_UTF8_UTF16_def fsw_strcoerce_UTF16_SWAPPED_UTF16_def
  fsw_strcoerce_ISO88591_UTF8_def fsw_strcoerce_UTF16_UTF8_def fsw_strcoerce_UTF16_SWAPPED_UTF8_def

lemma strdup_coerce_chars:
  assumes r: "represents s cs" and ty: "ty \<in> {STR_ISO88591, STR_UTF8, STR_UTF16}"
    and lim: "\<forall>c \<in> set cs. c < char_limit ty"
  shows "copied h v ty cs (fsw_strdup_coerce h v ty s)"
proof (cases "str_type s = STR_EMPTY \<or> str_len s = 0")
  case True
  with r ty show ?thesis by (auto simp: fsw_strdup_coerce_def copied_def represents_def split: if_splits)
next
  case False
  then have ne: "str_type s \<noteq> STR_EMPTY" "str_len s \<noteq> 0" by auto
  obtain rr where d: "str_data s = encode (str_type s) cs @ rr" "str_len s = length cs"
    and l1: "\<forall>c \<in> set cs. c < char_limit (str_type s)" using r ne(1) by (rule represents_data)
  show ?thesis
  proof (cases "str_type s = ty")
    case True
    with strdup_same_chars [OF r ne(1)] ne show ?thesis by (simp add: fsw_strdup_coerce_def)
  next
    case nt: False
    note fx = strcoerce_fixed_chars [OF l1 lim, of _ h v rr]
    from ty consider "ty = STR_ISO88591" | "ty = STR_UTF8" | "ty = STR_UTF16" by blast
    then show ?thesis
    proof cases
      case 1
      with fx [of put_u8] put_encode(1) lim nt ne d show ?thesis
        by (cases "str_type s") (simp_all add: fsw_strdup_coerce_def strcoerce_routines unit_width_def)
    next
      case 2
      with strcoerce_utf8_chars [OF l1, of h v rr] lim nt ne d show ?thesis
        by (cases "str_type s") (simp_all add: fsw_strdup_coerce_def strcoerce_routines)
    next
      case 3
      with fx [of put_u16] put_encode(2) lim nt ne d show ?thesis
        by (cases "str_type s") (simp_all add: fsw_strdup_coerce_def strcoerce_routines unit_width_def)
    qed
  qed
qed

section \<open>Splitting\<close>

lemma strsplit_chars:
  assumes r: "represents b cs" and ty: "str_type b \<in> {STR_ISO88591, STR_UTF16}" and ne: "cs \<noteq> []"
  shows "\<exists>e b'. fsw_strsplit e0 b sep = Some (e, b') \<and> str_type e = str_type b \<and> str_type b' = str_type b \<and>
    represents e (takeWhile (\<lambda>c. c \<noteq> sep) cs) \<and> represents b' (tl (dropWhile (\<lambda>c. c \<noteq> sep) cs))"
proof -
  have te: "str_type b \<noteq> STR_EMPTY" "str_type b \<noteq> STR_UTF8" using ty by auto
  obtain rr where d: "str_data b = encode (str_type b) cs @ rr" "str_len b = length cs"
    "\<forall>c \<in> set cs. c < char_limit (str_type b)" using r te(1) by (rule represents_data)
  have enc: "encode (str_type b) xs = xs" for xs
    using ty by (induction xs) (auto simp: units_def)
  define i where "i = first_idx (\<lambda>c. c = sep) cs"
  have i: "i = length (takeWhile (\<lambda>c. c \<noteq> sep) cs)" by (simp add: i_def first_idx_def)
  have tk: "take i cs = takeWhile (\<lambda>c. c \<noteq> sep) cs" and dr: "drop i cs = dropWhile (\<lambda>c. c \<noteq> sep) cs"
    unfolding i by (rule takeWhile_eq_take [symmetric], rule dropWhile_eq_drop [symmetric])
  have il: "i \<le> length cs" by (simp add: i_def first_idx_le)
  have sp: "split_at (unit_width (str_type b)) b sep = Some
    (b\<lparr>str_len := i, str_size := i * unit_width (str_type b)\<rparr>,
     b\<lparr>str_len := length cs - Suc i, str_size := (length cs - Suc i) * unit_width (str_type b),
       str_data := drop (if i < length cs then Suc i else i) (str_data b)\<rparr>)"
    using d(1,2) il by (auto simp: split_at_def Let_def enc i_def [symmetric])
  moreover have "fsw_strsplit e0 b sep = split_at (unit_width (str_type b)) b sep"
    using ty te d(2) ne by (auto simp: fsw_strsplit_def unit_width_def)
  moreover have "represents (b\<lparr>str_len := i, str_size := i * unit_width (str_type b)\<rparr>) (take i cs)"
    using te d il by (auto simp: represents_def enc dest: in_set_takeD)
  moreover have "represents (b\<lparr>str_len := length cs - Suc i, str_size := (length cs - Suc i) * unit_width (str_type b),
       str_data := drop (if i < length cs then Suc i else i) (str_data b)\<rparr>) (drop (Suc i) cs)"
    using te d il by (auto simp: represents_def enc dest: in_set_dropD)
  moreover have "drop (Suc i) cs = tl (dropWhile (\<lambda>c. c \<noteq> sep) cs)" by (simp add: drop_Suc tl_drop dr [symmetric])
  ultimately show ?thesis using tk by auto
qed

end
