(* ===== verification/FswDnode.thy ===== *)
theory FswDnode
  imports FswShandle FswStrings
begin

text \<open>
  Directory nodes: the part of \<^verbatim>\<open>OpenHfsPlus/fsw_core.c\<close> that creates, shares, completes and
  releases dnodes, opens handles on them, looks up paths and resolves symbolic links. The
  doubly linked list of all dnodes lives in the store of the volume; a null or dangling
  pointer that is followed is a fault. The file system's operations are called through the
  dispatch table, a record of functions.
\<close>

section \<open>Dispatch table\<close>

text \<open>
  What a stat call reports: the bytes used, and the mode and timestamps it passes to the
  host's callbacks.
\<close>

record fsw_dnode_stat =
  used_bytes :: nat
  attr_posix :: nat
  ctime_posix :: nat
  mtime_posix :: nat
  atime_posix :: nat

record 's fsw_fstype_table =
  t_dnode_fill :: "addr \<Rightarrow> (fsw_status, 's, unit) sop"
  t_dnode_stat :: "fsw_hfsplus_dnode \<Rightarrow> fsw_dnode_stat"
  t_get_extent :: "fsw_hfsplus_dnode \<Rightarrow> fsw_extent \<Rightarrow> fsw_extent fsw_res"
  t_dir_lookup :: "addr \<Rightarrow> fsw_string \<Rightarrow> (fsw_status, 's, addr) sop"
  t_dir_read :: "addr \<Rightarrow> fsw_shandle \<Rightarrow> 's \<Rightarrow> addr fsw_res \<times> fsw_shandle \<times> 's"
  t_readlink :: "addr \<Rightarrow> (fsw_status, 's, fsw_string) sop"
  t_get_bless_info :: "nat \<Rightarrow> (fsw_status, 's, addr) sop"

section \<open>The dnode store\<close>

type_synonym ('v, 'a) vop = "(fsw_status, 'v fsw_volume_scheme, 'a) sop"

definition dnode_get :: "addr \<Rightarrow> ('v, fsw_hfsplus_dnode) vop" where
  "dnode_get a v = (of_load (dnodes v a), v)"

definition dnode_upd :: "addr \<Rightarrow> (fsw_hfsplus_dnode \<Rightarrow> fsw_hfsplus_dnode) \<Rightarrow> ('v, unit) vop" where
  "dnode_upd a f v = (case dnodes v a of
     None \<Rightarrow> (Fault, v) | Some d \<Rightarrow> (Ok (), v\<lparr>dnodes := (dnodes v)(a \<mapsto> f d)\<rparr>))"

definition empty_string :: fsw_string where
  "empty_string = \<lparr>str_type = STR_EMPTY, str_len = 0, str_size = 0, str_data = []\<rparr>"

text \<open>A dnode structure filled with zeros, of the size the 64-bit target gives it.\<close>

definition zero_dnode :: fsw_hfsplus_dnode where
  "zero_dnode = \<lparr>refcount = 0, complete = False, parent = None, dn_name = empty_string, dnode_id = 0,
     dn_type = TYPE_UNKNOWN, dn_size = 0, dn_next = None, dn_prev = None, ct = 0, mt = 0, at = 0,
     extents = replicate 8 \<lparr>startBlock = 0, blockCount = 0\<rparr>, bt_root = 0, bt_ndsz = 0,
     fd_creator = 0, fd_type = 0, inode_num = 0, parent_id = 0\<rparr>"

definition dnode_struct_size :: nat where
  "dnode_struct_size = 184"

definition dnode_alloc_zero :: "fsw_host \<Rightarrow> ('v, addr) vop" where
  "dnode_alloc_zero h v =
     (case fsw_alloc h dnode_struct_size v of
        (False, v1) \<Rightarrow> (Err FSW_OUT_OF_MEMORY, v1)
      | (True, v1) \<Rightarrow> (Ok (next_addr v1),
          v1\<lparr>dnodes := (dnodes v1)(next_addr v1 \<mapsto> zero_dnode), next_addr := Suc (next_addr v1)\<rparr>))"

definition dnode_free_mem :: "addr \<Rightarrow> ('v, unit) vop" where
  "dnode_free_mem a = smod (\<lambda>v. v\<lparr>dnodes := (dnodes v)(a := None)\<rparr>)"

section \<open>Creating, sharing and releasing\<close>

definition fsw_dnode_register :: "addr \<Rightarrow> ('v, unit) vop" where
  "fsw_dnode_register a =
     sbind (sget dnode_head) (\<lambda>hd.
     sthen (dnode_upd a (\<lambda>d. d\<lparr>dn_next := hd\<rparr>))
     (sthen (case hd of None \<Rightarrow> sret () | Some b \<Rightarrow> dnode_upd b (\<lambda>d. d\<lparr>dn_prev := Some a\<rparr>))
     (sthen (dnode_upd a (\<lambda>d. d\<lparr>dn_prev := None\<rparr>))
     (smod (\<lambda>v. v\<lparr>dnode_head := Some a\<rparr>)))))"

definition fsw_dnode_mkcomplete :: "addr \<Rightarrow> ('v, unit) vop" where
  "fsw_dnode_mkcomplete a = dnode_upd a (\<lambda>d. d\<lparr>complete := True\<rparr>)"

definition fsw_dnode_retain :: "addr \<Rightarrow> ('v, unit) vop" where
  "fsw_dnode_retain a = dnode_upd a (\<lambda>d. d\<lparr>refcount := add32 (refcount d) 1\<rparr>)"

definition fsw_dnode_create_root :: "fsw_host \<Rightarrow> nat \<Rightarrow> ('v, addr) vop" where
  "fsw_dnode_create_root h dnid =
     sbind (dnode_alloc_zero h) (\<lambda>a.
     sthen (dnode_upd a (\<lambda>d. d\<lparr>parent := None, dnode_id := dnid, dn_type := TYPE_DIR, refcount := 1,
       complete := True, dn_name := (dn_name d)\<lparr>str_type := STR_EMPTY\<rparr>\<rparr>))
     (sthen (fsw_dnode_register a)
     (sthen (fsw_dnode_mkcomplete a)
     (sret a))))"

definition fsw_dnode_is_root :: "fsw_hfsplus_dnode \<Rightarrow> bool" where
  "fsw_dnode_is_root d \<longleftrightarrow> parent d = None \<and> dn_type d = TYPE_DIR \<and> fsw_strlen (Some (dn_name d)) = 0"

text \<open>
  The search for a dnode by id along the list. Each dnode ever allocated is visited at most
  once if the list has no cycle, which bounds the fuel.
\<close>

fun find_dnode :: "nat \<Rightarrow> (addr \<Rightarrow> fsw_hfsplus_dnode option) \<Rightarrow> nat \<Rightarrow> addr option \<Rightarrow> addr option fsw_res" where
  "find_dnode fuel m dnid None = Ok None"
| "find_dnode 0 m dnid (Some a) = Diverge"
| "find_dnode (Suc fuel) m dnid (Some a) =
     (case m a of
        None \<Rightarrow> Fault
      | Some d \<Rightarrow> if dnode_id d = dnid then Ok (Some a) else find_dnode fuel m dnid (dn_next d))"

definition fsw_dnode_create ::
  "fsw_host \<Rightarrow> addr option \<Rightarrow> nat \<Rightarrow> fsw_dnode_type \<Rightarrow> fsw_string \<Rightarrow> ('v, addr) vop" where
  "fsw_dnode_create h parent_dno dnid type name =
     sbind (\<lambda>v. (find_dnode (next_addr v) (dnodes v) dnid (dnode_head v), v)) (\<lambda>found.
     case found of
       Some a \<Rightarrow> sthen (fsw_dnode_retain a) (sret a)
     | None \<Rightarrow>
         sbind (dnode_alloc_zero h) (\<lambda>a.
         sthen (dnode_upd a (\<lambda>d. d\<lparr>complete := False, parent := parent_dno\<rparr>))
         (sthen (case parent_dno of None \<Rightarrow> sret () | Some p \<Rightarrow> fsw_dnode_retain p)
         (sthen (dnode_upd a (\<lambda>d. d\<lparr>dnode_id := dnid, dn_type := type, refcount := 1\<rparr>))
         (sbind (on_err (\<lambda>v. fsw_strdup_coerce h v (native_string_type h) name) (dnode_free_mem a)) (\<lambda>nm.
          sthen (dnode_upd a (\<lambda>d. d\<lparr>dn_name := nm\<rparr>))
          (sthen (fsw_dnode_register a)
          (sret a))))))))"

text \<open>Taking a dnode out of the list and freeing it.\<close>

definition dnode_unlink :: "addr \<Rightarrow> ('v, unit) vop" where
  "dnode_unlink a =
     sbind (dnode_get a) (\<lambda>d.
     sthen (case dn_next d of None \<Rightarrow> sret () | Some n \<Rightarrow> dnode_upd n (\<lambda>x. x\<lparr>dn_prev := dn_prev d\<rparr>))
     (sthen (case dn_prev d of None \<Rightarrow> sret () | Some p \<Rightarrow> dnode_upd p (\<lambda>x. x\<lparr>dn_next := dn_next d\<rparr>))
     (sthen (smod (\<lambda>v. if dnode_head v = Some a then v\<lparr>dnode_head := dn_next d\<rparr> else v))
     (dnode_free_mem a))))"

text \<open>
  Releasing. Each nested release frees one more dnode, so the number of dnodes ever allocated
  bounds the depth.
\<close>

fun release_loop :: "nat \<Rightarrow> addr \<Rightarrow> ('v, unit) vop" where
  "release_loop 0 a = (\<lambda>v. (Diverge, v))"
| "release_loop (Suc fuel) a =
     sthen (dnode_upd a (\<lambda>d. d\<lparr>refcount := sub32 (refcount d) 1\<rparr>))
     (sbind (dnode_get a) (\<lambda>d.
      if refcount d = 0 then
        sthen (dnode_unlink a)
        (case parent d of None \<Rightarrow> sret () | Some p \<Rightarrow> release_loop fuel p)
      else sret ()))"

definition fsw_dnode_release :: "addr \<Rightarrow> ('v, unit) vop" where
  "fsw_dnode_release a v = release_loop (Suc (next_addr v)) a v"

section \<open>Completing, looking up, opening\<close>

text \<open>\<open>fill\<close> is the \<open>dnode_fill\<close> entry of the dispatch table.\<close>

definition fsw_dnode_fill :: "(addr \<Rightarrow> ('v, unit) vop) \<Rightarrow> addr \<Rightarrow> ('v, unit) vop" where
  "fsw_dnode_fill fill a =
     sbind (dnode_get a) (\<lambda>d. if complete d then sret () else fill a)"

definition fsw_dnode_stat :: "'v fsw_volume_scheme fsw_fstype_table \<Rightarrow> addr \<Rightarrow> ('v, fsw_dnode_stat) vop" where
  "fsw_dnode_stat t a =
     sthen (fsw_dnode_fill (t_dnode_fill t) a)
     (sbind (dnode_get a) (\<lambda>d v.
      let sb = t_dnode_stat t d
      in if used_bytes sb \<noteq> 0 then (Ok sb, v)
         else if log_blocksize v = 0 then (Fault, v)
         else (Ok (sb\<lparr>used_bytes := ((dn_size d + log_blocksize v + (2 ^ 64 - 1)) mod 2 ^ 64) div log_blocksize v\<rparr>), v)))"

definition fsw_dnode_lookup ::
  "'v fsw_volume_scheme fsw_fstype_table \<Rightarrow> addr \<Rightarrow> fsw_string \<Rightarrow> ('v, addr) vop" where
  "fsw_dnode_lookup t a name =
     sthen (fsw_dnode_fill (t_dnode_fill t) a)
     (sbind (dnode_get a) (\<lambda>d.
      if dn_type d \<noteq> TYPE_DIR then sfail FSW_UNSUPPORTED else t_dir_lookup t a name))"

definition fsw_shandle_open :: "(addr \<Rightarrow> ('v, unit) vop) \<Rightarrow> addr \<Rightarrow> ('v, fsw_shandle) vop" where
  "fsw_shandle_open fill a =
     sthen (fsw_dnode_fill fill a)
     (sthen (fsw_dnode_retain a)
     (sret \<lparr>sh_dnode = a, sh_pos = 0,
        sh_extent = \<lparr>ext_type = EXT_INVALID, log_start = 0, log_count = 0, phys_start = 0, ext_buffer = []\<rparr>\<rparr>))"

definition fsw_shandle_close :: "fsw_shandle \<Rightarrow> ('v, unit) vop" where
  "fsw_shandle_close sh = fsw_dnode_release (sh_dnode sh)"

definition fsw_dnode_dir_read ::
  "'v fsw_volume_scheme fsw_fstype_table \<Rightarrow> fsw_shandle \<Rightarrow> 'v fsw_volume_scheme \<Rightarrow>
    addr fsw_res \<times> fsw_shandle \<times> 'v fsw_volume_scheme" where
  "fsw_dnode_dir_read t sh v =
     (case dnodes v (sh_dnode sh) of
        None \<Rightarrow> (Fault, sh, v)
      | Some d \<Rightarrow>
          if dn_type d \<noteq> TYPE_DIR then (Err FSW_UNSUPPORTED, sh, v)
          else (case t_dir_read t (sh_dnode sh) sh v of
                  (Err st, sh', v') \<Rightarrow> (Err st, sh'\<lparr>sh_pos := sh_pos sh\<rparr>, v')
                | r \<Rightarrow> r))"

definition fsw_dnode_readlink :: "'v fsw_volume_scheme fsw_fstype_table \<Rightarrow> addr \<Rightarrow> ('v, fsw_string) vop" where
  "fsw_dnode_readlink t a =
     sthen (fsw_dnode_fill (t_dnode_fill t) a)
     (sbind (dnode_get a) (\<lambda>d.
      if dn_type d \<noteq> TYPE_SYMLINK then sfail FSW_UNSUPPORTED else t_readlink t a))"

text \<open>A link stored as file data: the whole file, at most one path long, as ISO 8859-1.\<close>

definition fsw_dnode_readlink_data ::
  "fsw_host \<Rightarrow> (addr \<Rightarrow> ('v, unit) vop) \<Rightarrow> (fsw_hfsplus_dnode \<Rightarrow> fsw_extent \<Rightarrow> fsw_extent fsw_res) \<Rightarrow>
    addr \<Rightarrow> ('v, fsw_string) vop" where
  "fsw_dnode_readlink_data h fill get_extent a =
     sbind (dnode_get a) (\<lambda>d.
     if FSW_PATH_MAX < dn_size d then sfail FSW_VOLUME_CORRUPTED
     else sbind (fsw_shandle_open fill a) (\<lambda>sh.
       sbind (on_err (\<lambda>v. case fsw_shandle_read h get_extent v sh (dn_size d) of (r, sh', v') \<Rightarrow> (r, v'))
         (fsw_shandle_close sh)) (\<lambda>(n, bytes).
       sthen (fsw_shandle_close sh)
       (if n < dn_size d then sfail FSW_VOLUME_CORRUPTED
        else (\<lambda>v. fsw_strdup_coerce h v (native_string_type h)
          \<lparr>str_type = STR_ISO88591, str_len = dn_size d, str_size = dn_size d,
           str_data = map unat bytes\<rparr>)))))"

section \<open>Paths and symbolic links\<close>

text \<open>
  Path lookup and link resolution call each other, and links on disk can form a cycle that
  the code follows for ever; the fuel bounds the path components and links followed. Every
  way out after an error releases the current dnode, except the one that finds that it is not
  a directory.
\<close>

definition STR_DOT :: "nat list" where "STR_DOT = [0x2E]"
definition STR_DOTDOT :: "nat list" where "STR_DOTDOT = [0x2E, 0x2E]"
definition CHAR_SLASH :: nat where "CHAR_SLASH = 0x2F"

fun lookup_loop ::
  "nat \<Rightarrow> 'v fsw_volume_scheme fsw_fstype_table \<Rightarrow> nat \<Rightarrow> bool \<Rightarrow> fsw_string \<Rightarrow> addr \<Rightarrow> ('v, addr) vop"
  and resolve_loop :: "nat \<Rightarrow> 'v fsw_volume_scheme fsw_fstype_table \<Rightarrow> addr \<Rightarrow> ('v, addr) vop" where
  "lookup_loop 0 t separator root_if_empty remaining_path dno = (\<lambda>v. (Diverge, v))"
| "lookup_loop (Suc fuel) t separator root_if_empty remaining_path dno =
     (if fsw_strlen (Some remaining_path) = 0 then sret dno
      else sbind (sload (fsw_strsplit empty_string remaining_path separator)) (\<lambda>(lookup_name, path').
        if fsw_strlen (Some lookup_name) = 0 then
          sbind (if root_if_empty then sbind (sget root) sload else sret dno) (\<lambda>child_dno.
          sthen (fsw_dnode_retain child_dno)
          (sthen (fsw_dnode_release dno)
          (lookup_loop fuel t separator False path' child_dno)))
        else
          sthen (on_err (fsw_dnode_fill (t_dnode_fill t) dno) (fsw_dnode_release dno))
          (sbind (dnode_get dno) (\<lambda>d.
          sbind (if dn_type d = TYPE_SYMLINK then
                   sbind (on_err (sthen (fsw_dnode_retain dno) (resolve_loop fuel t dno)) (fsw_dnode_release dno))
                     (\<lambda>target.
                   sthen (fsw_dnode_release dno)
                   (sthen (on_err (fsw_dnode_fill (t_dnode_fill t) target) (fsw_dnode_release target))
                   (sret target)))
                 else sret dno) (\<lambda>dno.
          sbind (dnode_get dno) (\<lambda>d.
          if dn_type d \<noteq> TYPE_DIR then sfail FSW_UNSUPPORTED
          else
            sbind (sbind (sload (fsw_streq_cstr lookup_name STR_DOT)) (\<lambda>is_dot.
                   if is_dot then sthen (fsw_dnode_retain dno) (sret dno)
                   else sbind (sload (fsw_streq_cstr lookup_name STR_DOTDOT)) (\<lambda>is_dotdot.
                   if is_dotdot then
                     (case parent d of
                        None \<Rightarrow> on_err (sfail FSW_NOT_FOUND) (fsw_dnode_release dno)
                      | Some p \<Rightarrow> sthen (fsw_dnode_retain p) (sret p))
                   else on_err (t_dir_lookup t dno lookup_name) (fsw_dnode_release dno)))) (\<lambda>child_dno.
            sthen (fsw_dnode_release dno)
            (lookup_loop fuel t separator False path' child_dno))))))))"
| "resolve_loop 0 t dno = (\<lambda>v. (Diverge, v))"
| "resolve_loop (Suc fuel) t dno =
     sthen (on_err (fsw_dnode_fill (t_dnode_fill t) dno) (fsw_dnode_release dno))
     (sbind (dnode_get dno) (\<lambda>d.
      if dn_type d \<noteq> TYPE_SYMLINK then sret dno
      else (case parent d of
        None \<Rightarrow> on_err (sfail FSW_NOT_FOUND) (fsw_dnode_release dno)
      | Some p \<Rightarrow>
          sbind (on_err (fsw_dnode_readlink t dno) (fsw_dnode_release dno)) (\<lambda>target_name.
          sbind (on_err (sthen (fsw_dnode_retain p) (lookup_loop fuel t CHAR_SLASH True target_name p))
            (fsw_dnode_release dno)) (\<lambda>target_dno.
          sthen (fsw_dnode_release dno)
          (resolve_loop fuel t target_dno))))))"

definition fsw_dnode_lookup_path ::
  "nat \<Rightarrow> 'v fsw_volume_scheme fsw_fstype_table \<Rightarrow> addr \<Rightarrow> fsw_string \<Rightarrow> nat \<Rightarrow> ('v, addr) vop" where
  "fsw_dnode_lookup_path fuel t dno lookup_path separator =
     sthen (fsw_dnode_retain dno) (lookup_loop fuel t separator True lookup_path dno)"

definition fsw_dnode_resolve :: "nat \<Rightarrow> 'v fsw_volume_scheme fsw_fstype_table \<Rightarrow> addr \<Rightarrow> ('v, addr) vop" where
  "fsw_dnode_resolve fuel t dno = sthen (fsw_dnode_retain dno) (resolve_loop fuel t dno)"

section \<open>The path of a dnode\<close>

definition salloc :: "fsw_host \<Rightarrow> nat \<Rightarrow> ('v, unit) vop" where
  "salloc h n v = (case fsw_alloc h n v of
     (True, v1) \<Rightarrow> (Ok (), v1) | (False, v1) \<Rightarrow> (Err FSW_OUT_OF_MEMORY, v1))"

definition SEP_CHAR :: nat where "SEP_CHAR = 0x5C"

text \<open>
  Walking up to the root and collecting names in a growable array. The status of
  \<open>fsw_dnode_fill\<close> is ignored, and the parent pointer is followed without a check.
\<close>

fun path_loop ::
  "nat \<Rightarrow> fsw_host \<Rightarrow> 'v fsw_volume_scheme fsw_fstype_table \<Rightarrow> addr option \<Rightarrow> fsw_string list \<Rightarrow> nat \<Rightarrow> nat \<Rightarrow>
    ('v, fsw_string list \<times> nat) vop" where
  "path_loop 0 h t dno arr cap len = (\<lambda>v. (Diverge, v))"
| "path_loop (Suc fuel) h t dno arr cap len =
     sbind (sload dno) (\<lambda>a.
     sbind (dnode_get a) (\<lambda>d.
     if fsw_dnode_is_root d then sret (arr, len)
     else
       sthen (\<lambda>v. case fsw_dnode_fill (t_dnode_fill t) a v of (Err st, v') \<Rightarrow> (Ok (), v') | r \<Rightarrow> r)
       (sbind (if length arr = cap then sthen (salloc h (mul32 cap 2 * 24)) (sret (mul32 cap 2)) else sret cap) (\<lambda>cap'.
        sbind (dnode_get a) (\<lambda>d.
        sbind (\<lambda>v. fsw_strdup_coerce h v STR_UTF16 (dn_name d)) (\<lambda>nm.
        path_loop fuel h t (parent d) (arr @ [nm]) cap' (len + str_len nm + 1)))))))"

fun path_fill :: "nat list \<Rightarrow> nat \<Rightarrow> fsw_string list \<Rightarrow> nat list option" where
  "path_fill buf off [] = Some buf"
| "path_fill buf off (s # ss) =
     Option.bind (store_bytes buf off [SEP_CHAR]) (\<lambda>b1.
     Option.bind (load_bytes (str_data s) 0 (str_size s div 2)) (\<lambda>us.
     Option.bind (store_bytes b1 (off + 1) us) (\<lambda>b2.
     path_fill b2 (off + 1 + str_len s) ss)))"

definition fsw_dnode_get_path ::
  "nat \<Rightarrow> fsw_host \<Rightarrow> 'v fsw_volume_scheme fsw_fstype_table \<Rightarrow> addr \<Rightarrow> ('v, fsw_string) vop" where
  "fsw_dnode_get_path fuel h t dno =
     sthen (salloc h (5 * 24))
     (sbind (path_loop fuel h t (Some dno) [] 5 0) (\<lambda>(arr, outlen).
      let len = (if outlen = 0 then 1 else outlen)
      in sthen (salloc h (len * 2))
         (sbind (sload (if arr \<noteq> [] then path_fill (replicate len 0) 0 (rev arr)
                        else store_bytes (replicate len 0) 0 [SEP_CHAR])) (\<lambda>buf.
          sret \<lparr>str_type = STR_UTF16, str_len = len, str_size = len * 2, str_data = buf\<rparr>))))"

definition fsw_get_bless_info ::
  "nat \<Rightarrow> fsw_host \<Rightarrow> 'v fsw_volume_scheme fsw_fstype_table \<Rightarrow> nat \<Rightarrow> ('v, fsw_string) vop" where
  "fsw_get_bless_info fuel h t bless_type =
     sbind (t_get_bless_info t bless_type) (\<lambda>dno. fsw_dnode_get_path fuel h t dno)"

end
