(* ===== verification/FswDnodeInv.thy ===== *)
theory FswDnodeInv
  imports FswDnode
begin

text \<open>
  The two invariants of the dnode store. \<open>dnodes_ok\<close>: the dnodes of the volume form one
  well-linked doubly linked list. \<open>refs_ok\<close>: the reference count of a dnode is the number
  of references its clients hold plus the number of dnodes that have it as parent. Under them
  the operations never follow a dangling pointer, an id is never given to two dnodes, and a
  release frees exactly the dnodes that nobody refers to any more.
\<close>

section \<open>Doubly linked segments\<close>

fun lseg :: "(addr \<Rightarrow> fsw_hfsplus_dnode option) \<Rightarrow> addr option \<Rightarrow> addr list \<Rightarrow> addr option \<Rightarrow> addr option \<Rightarrow> bool" where
  "lseg m p [] h e \<longleftrightarrow> h = e"
| "lseg m p (a # as) h e \<longleftrightarrow> h = Some a \<and>
     (case m a of None \<Rightarrow> False | Some d \<Rightarrow> dn_prev d = p \<and> lseg m (Some a) as (dn_next d) e)"

abbreviation last_or :: "addr option \<Rightarrow> addr list \<Rightarrow> addr option" where
  "last_or p xs \<equiv> (if xs = [] then p else Some (last xs))"

lemma lseg_append:
  "lseg m p (xs @ ys) h e \<longleftrightarrow> (\<exists>k. lseg m p xs h k \<and> lseg m (last_or p xs) ys k e)"
  by (induction xs arbitrary: p h) (auto split: option.splits)

lemma lseg_cong: "(\<And>x. x \<in> set xs \<Longrightarrow> m' x = m x) \<Longrightarrow> lseg m' p xs h e = lseg m p xs h e"
  by (induction xs arbitrary: p h) (auto split: option.splits)

lemma lseg_set_prev:
  assumes "lseg m p ys h e" and "distinct ys"
  shows "lseg (case h of Some b \<Rightarrow> if ys = [] then m else m(b := map_option (\<lambda>d. d\<lparr>dn_prev := q\<rparr>) (m b)) | None \<Rightarrow> m) q ys h e"
proof (cases ys)
  case (Cons b bs)
  with assms obtain d where d: "h = Some b" "m b = Some d" "lseg m (Some b) bs (dn_next d) e" "b \<notin> set bs"
    by (auto split: option.splits)
  moreover have "lseg (m(b \<mapsto> d\<lparr>dn_prev := q\<rparr>)) (Some b) bs (dn_next d) e"
    using d(3,4) by (subst lseg_cong [where m = m]) auto
  ultimately show ?thesis using Cons by simp
qed (use assms in \<open>auto split: option.splits\<close>)

lemma lseg_set_next:
  assumes "lseg m p (xs @ [b]) h e" and "distinct (xs @ [b])"
  shows "lseg (m(b := map_option (\<lambda>d. d\<lparr>dn_next := k\<rparr>) (m b))) p (xs @ [b]) h k"
proof -
  from assms(1) obtain j where j: "lseg m p xs h j" "lseg m (last_or p xs) [b] j e"
    by (auto simp: lseg_append)
  have "lseg (m(b := map_option (\<lambda>d. d\<lparr>dn_next := k\<rparr>) (m b))) p xs h j"
    using j(1) assms(2) by (subst lseg_cong [where m = m]) auto
  with j(2) show ?thesis by (auto simp: lseg_append split: option.splits)
qed

lemma lseg_dom: "lseg m p xs h e \<Longrightarrow> set xs \<subseteq> dom m"
  by (induction xs arbitrary: p h) (auto split: option.splits)

section \<open>The list of all dnodes\<close>

definition dnodes_ok :: "'v fsw_volume_scheme \<Rightarrow> addr list \<Rightarrow> bool" where
  "dnodes_ok v as \<longleftrightarrow> lseg (dnodes v) None as (dnode_head v) None \<and> distinct as \<and>
     dom (dnodes v) = set as \<and> (\<forall>a \<in> set as. a < next_addr v)"

text \<open>What the list operations leave alone: the fields of the volume, and of a dnode.\<close>

definition store_frame :: "'v fsw_volume_scheme \<Rightarrow> 'v fsw_volume_scheme \<Rightarrow> bool" where
  "store_frame v v' \<longleftrightarrow>
     v'\<lparr>dnodes := Map.empty, dnode_head := None\<rparr> = v\<lparr>dnodes := Map.empty, dnode_head := None\<rparr>"

definition unlinked :: "fsw_hfsplus_dnode \<Rightarrow> fsw_hfsplus_dnode" where
  "unlinked d = d\<lparr>dn_next := None, dn_prev := None\<rparr>"

definition contents :: "(addr \<Rightarrow> fsw_hfsplus_dnode option) \<Rightarrow> addr \<Rightarrow> fsw_hfsplus_dnode option" where
  "contents m a = map_option unlinked (m a)"

lemma contents_link_upd [simp]:
  "contents (m(b := map_option (\<lambda>d. d\<lparr>dn_next := k\<rparr>) (m b))) = contents m"
  "contents (m(b := map_option (\<lambda>d. d\<lparr>dn_prev := k\<rparr>) (m b))) = contents m"
  by (rule ext, cases "m b", auto simp: contents_def unlinked_def)+

lemma contents_fun_upd: "contents (m(a := x)) = (contents m)(a := map_option unlinked x)"
  by (auto simp: contents_def fun_eq_iff)

lemma dom_contents [simp]: "dom (contents m) = dom m"
  by (auto simp: contents_def dom_def)

lemma dnode_upd_eq:
  "a \<in> dom (dnodes v) \<Longrightarrow>
    dnode_upd a f v = (Ok (), v\<lparr>dnodes := (dnodes v)(a := map_option f (dnodes v a))\<rparr>)"
  by (auto simp: dnode_upd_def)

lemma store_frame_refl [simp]: "store_frame v v"
  by (simp add: store_frame_def)

lemma store_frame_upd [simp]:
  "store_frame v (w\<lparr>dnodes := m\<rparr>) = store_frame v w" "store_frame v (w\<lparr>dnode_head := x\<rparr>) = store_frame v w"
  by (simp_all add: store_frame_def)

lemma store_frame_trans: "store_frame u v \<Longrightarrow> store_frame v w \<Longrightarrow> store_frame u w"
  by (simp add: store_frame_def)

text \<open>Registering puts a dnode that is not in the list in front of it.\<close>

lemma register_ok:
  assumes seg: "lseg (dnodes v) None as (dnode_head v) None" and "distinct as"
    and a: "a \<notin> set as" "a \<in> dom (dnodes v)"
  obtains v' where "fsw_dnode_register a v = (Ok (), v')" "store_frame v v'"
    "lseg (dnodes v') None (a # as) (dnode_head v') None" "contents (dnodes v') = contents (dnodes v)"
proof -
  let ?m = "dnodes v" and ?h = "dnode_head v"
  define m1 where "m1 = ?m(a := map_option (\<lambda>d. d\<lparr>dn_next := ?h\<rparr>) (?m a))"
  have hd: "?h = (if as = [] then None else Some (hd as))" using seg by (cases as) auto
  define m2 where "m2 = (case ?h of None \<Rightarrow> m1 | Some b \<Rightarrow> m1(b := map_option (\<lambda>d. d\<lparr>dn_prev := Some a\<rparr>) (m1 b)))"
  define m3 where "m3 = m2(a := map_option (\<lambda>d. d\<lparr>dn_prev := None\<rparr>) (m2 a))"
  have doms: "dom m1 = dom ?m" "dom m2 = dom ?m"
    using a(2) by (auto simp: m1_def m2_def split: option.splits if_splits)
  have hdom: "\<And>b. ?h = Some b \<Longrightarrow> b \<in> dom ?m" using hd lseg_dom [OF seg] by (cases as) auto
  have "fsw_dnode_register a v = (Ok (), v\<lparr>dnodes := m3, dnode_head := Some a\<rparr>)"
    using a(2) doms hdom
    by (cases "?h") (simp_all add: fsw_dnode_register_def sop_simps dnode_upd_eq m1_def m2_def m3_def dom_def)
  moreover have "lseg m3 None (a # as) (Some a) None"
  proof -
    have "lseg m1 None as ?h None" using seg a(1) by (subst lseg_cong [where m = ?m]) (auto simp: m1_def)
    from lseg_set_prev [OF this assms(2), of "Some a"] have s2: "lseg m2 (Some a) as ?h None"
      using hd by (cases as) (auto simp: m2_def)
    have "lseg m3 (Some a) as ?h None" using s2 a(1) by (subst lseg_cong [where m = m2]) (auto simp: m3_def)
    moreover have "\<exists>d. m3 a = Some d \<and> dn_prev d = None \<and> dn_next d = ?h"
      using a hd by (cases as) (auto simp: m3_def m2_def m1_def)
    ultimately show ?thesis by auto
  qed
  moreover have "contents m3 = contents ?m" unfolding m3_def m2_def m1_def by (cases ?h) (simp_all only: contents_link_upd option.case)
  ultimately show thesis by (intro that [of "v\<lparr>dnodes := m3, dnode_head := Some a\<rparr>"]) simp_all
qed

text \<open>Unlinking takes a dnode out of the list and out of the store.\<close>

lemma unlink_ok:
  assumes seg: "lseg (dnodes v) None (xs @ a # ys) (dnode_head v) None" and dist: "distinct (xs @ a # ys)"
  obtains v' where "dnode_unlink a v = (Ok (), v')" "store_frame v v'"
    "lseg (dnodes v') None (xs @ ys) (dnode_head v') None"
    "contents (dnodes v') = (contents (dnodes v))(a := None)"
proof -
  let ?m = "dnodes v" and ?h = "dnode_head v"
  from seg obtain d where d: "?m a = Some d" "dn_prev d = last_or None xs"
    and sx: "lseg ?m None xs ?h (Some a)" and sy: "lseg ?m (Some a) ys (dn_next d) None"
    by (auto simp: lseg_append split: option.splits)
  have nx: "dn_next d = (if ys = [] then None else Some (hd ys))" using sy by (cases ys) auto
  define m1 where "m1 = (case dn_next d of None \<Rightarrow> ?m | Some n \<Rightarrow> ?m(n := map_option (\<lambda>x. x\<lparr>dn_prev := dn_prev d\<rparr>) (?m n)))"
  define m2 where "m2 = (case dn_prev d of None \<Rightarrow> m1 | Some p \<Rightarrow> m1(p := map_option (\<lambda>x. x\<lparr>dn_next := dn_next d\<rparr>) (m1 p)))"
  define hd' where "hd' = (if ?h = Some a then dn_next d else ?h)"
  have dx: "set xs \<subseteq> dom ?m" and dy: "set ys \<subseteq> dom ?m" using lseg_dom [OF sx] lseg_dom [OF sy] by auto
  have d1: "dom m1 = dom ?m" using nx dy by (auto simp: m1_def split: option.splits if_splits)
  have "dnode_unlink a v = (Ok (), v\<lparr>dnodes := m2(a := None), dnode_head := hd'\<rparr>)"
  proof -
    have n: "\<And>n. dn_next d = Some n \<Longrightarrow> n \<in> dom ?m" using nx dy by (cases ys) auto
    have p: "\<And>p. dn_prev d = Some p \<Longrightarrow> p \<in> dom m1" using d(2) dx d1 by (cases xs rule: rev_cases) auto
    show ?thesis using n p d(1)
      by (cases "dn_next d"; cases "dn_prev d")
        (simp_all add: dnode_unlink_def dnode_get_def sop_simps dnode_upd_eq dnode_free_mem_def m1_def m2_def hd'_def)
  qed
  moreover have "lseg (m2(a := None)) None (xs @ ys) hd' None"
  proof -
    have s1y: "lseg m1 (last_or None xs) ys (dn_next d) None"
      using lseg_set_prev [OF sy, of "last_or None xs"] dist d(2) nx by (cases ys) (auto simp: m1_def)
    have s1x: "lseg m1 None xs ?h (Some a)"
      using sx dist nx by (subst lseg_cong [where m = ?m]) (auto simp: m1_def split: if_splits)
    have "xs \<noteq> [] \<Longrightarrow> last xs \<notin> set ys" using dist by (cases xs rule: rev_cases) auto
    then have s2y: "lseg m2 (last_or None xs) ys (dn_next d) None"
      using s1y dist d(2) by (subst lseg_cong [where m = m1]) (auto simp: m2_def split: if_splits)
    have s2x: "lseg m2 None xs hd' (dn_next d)"
    proof (cases xs rule: rev_cases)
      case Nil
      with s1x show ?thesis by (simp add: hd'_def)
    next
      case (snoc zs b)
      have "lseg m2 None xs ?h (dn_next d)"
        using lseg_set_next [of m1 None zs b ?h "Some a" "dn_next d"] s1x snoc dist d(2) by (simp add: m2_def)
      moreover have "?h \<noteq> Some a" using sx snoc dist by (cases zs) auto
      ultimately show ?thesis by (simp add: hd'_def)
    qed
    have "lseg m2 None (xs @ ys) hd' None" using s2x s2y by (auto simp: lseg_append)
    then show ?thesis using dist by (subst lseg_cong [where m = m2]) auto
  qed
  moreover have "contents (m2(a := None)) = (contents ?m)(a := None)"
    unfolding contents_fun_upd m2_def m1_def
    by (cases "dn_next d"; cases "dn_prev d") (simp_all only: contents_link_upd option.case option.map)
  ultimately show thesis
    by (intro that [of "v\<lparr>dnodes := m2(a := None), dnode_head := hd'\<rparr>"]) simp_all
qed

section \<open>Reference counts\<close>

text \<open>
  \<open>ext\<close> counts the references the clients of the store hold. The counts see only the
  contents of the store.
\<close>

definition children :: "(addr \<Rightarrow> fsw_hfsplus_dnode option) \<Rightarrow> addr \<Rightarrow> addr set" where
  "children m a = {b. \<exists>d. m b = Some d \<and> parent d = Some a}"

definition node_refs :: "(addr \<Rightarrow> fsw_hfsplus_dnode option) \<Rightarrow> (addr \<Rightarrow> nat) \<Rightarrow> addr \<Rightarrow> fsw_hfsplus_dnode \<Rightarrow> bool" where
  "node_refs m ext a d \<longleftrightarrow> refcount d = ext a + card (children m a) \<and> 0 < refcount d \<and> refcount d < 2 ^ 32 \<and>
     (\<forall>p. parent d = Some p \<longrightarrow> p \<in> dom m)"

definition refs_ok :: "(addr \<Rightarrow> fsw_hfsplus_dnode option) \<Rightarrow> (addr \<Rightarrow> nat) \<Rightarrow> bool" where
  "refs_ok m ext \<longleftrightarrow> finite (dom m) \<and> (\<forall>a. a \<notin> dom m \<longrightarrow> ext a = 0) \<and>
     (\<forall>a d. m a = Some d \<longrightarrow> node_refs m ext a d)"

lemma refs_okD: "refs_ok m ext \<Longrightarrow> m a = Some d \<Longrightarrow> node_refs m ext a d"
  by (simp add: refs_ok_def)

lemma contents_Some: "contents m a = Some c \<longleftrightarrow> (\<exists>d. m a = Some d \<and> c = unlinked d)"
  by (auto simp: contents_def)

lemma unlinked_sel [simp]: "refcount (unlinked d) = refcount d" "parent (unlinked d) = parent d"
  "complete (unlinked d) = complete d" "dnode_id (unlinked d) = dnode_id d"
  by (simp_all add: unlinked_def)

lemma children_contents: "children (contents m) a = children m a"
  by (auto simp: children_def contents_Some)

lemma node_refs_contents: "node_refs (contents m) ext a (unlinked d) = node_refs m ext a d"
  by (simp add: node_refs_def children_contents)

lemma refs_ok_contents: "refs_ok (contents m) ext \<longleftrightarrow> refs_ok m ext"
  unfolding refs_ok_def dom_contents contents_Some
  using node_refs_contents by metis

lemma children_upd_same:
  "m a = Some d \<Longrightarrow> parent d' = parent d \<Longrightarrow> children (m(a \<mapsto> d')) b = children m b"
  by (auto simp: children_def)

lemma finite_children: "finite (dom m) \<Longrightarrow> finite (children m a)"
  by (rule finite_subset [of _ "dom m"]) (auto simp: children_def)

text \<open>Changing a count together with the reference it stands for.\<close>

lemma refs_ok_count:
  assumes "refs_ok m ext" and "m a = Some d" and "n + card (children m a) > 0" and "n + card (children m a) < 2 ^ 32"
  shows "refs_ok (m(a \<mapsto> d\<lparr>refcount := n + card (children m a)\<rparr>)) (ext(a := n))"
proof -
  let ?m = "m(a \<mapsto> d\<lparr>refcount := n + card (children m a)\<rparr>)"
  have ch: "children ?m b = children m b" for b
    by (rule children_upd_same) (use assms in auto)
  have dm: "dom ?m = dom m" using assms(2) by auto
  have "node_refs ?m (ext(a := n)) x dx" if "?m x = Some dx" for x dx
    using that refs_okD [OF assms(1), of x] refs_okD [OF assms(1,2)] assms(3,4)
    by (cases "x = a") (auto simp: node_refs_def ch dm)
  with assms(1,2) dm show ?thesis by (auto simp: refs_ok_def)
qed

text \<open>Dropping a dnode with one reference and no children hands its parent reference over.\<close>

lemma refs_ok_drop:
  assumes ok: "refs_ok m ext" and a: "m a = Some d" and one: "refcount d = 1" "0 < ext a"
  shows "children m a = {}" and "ext a = 1"
    and "parent d = None \<Longrightarrow> refs_ok (m(a := None)) (ext(a := 0))"
    and "parent d = Some p \<Longrightarrow> p \<noteq> a \<and> p \<in> dom m \<and> refs_ok (m(a := None)) (ext(a := 0, p := ext p + 1))"
proof -
  have fin: "finite (dom m)" using ok by (simp add: refs_ok_def)
  from refs_okD [OF ok a] one have "ext a + card (children m a) = 1" by (simp add: node_refs_def)
  with one have e: "ext a = 1" "card (children m a) = 0" by auto
  then show ka: "children m a = {}" and "ext a = 1" using finite_children [OF fin] by auto
  let ?m = "m(a := None)"
  have np: "x \<noteq> a \<Longrightarrow> m x = Some dx \<Longrightarrow> parent dx = Some q \<Longrightarrow> q \<noteq> a" for x dx q
    using ka by (auto simp: children_def)
  have keep: "node_refs ?m e' x dx"
    if "?m x = Some dx" "e' x + card (children ?m x) = ext x + card (children m x)" for e' x dx
    using that refs_okD [OF ok, of x dx] np by (auto simp: node_refs_def split: if_splits)
  show "refs_ok ?m (ext(a := 0))" if "parent d = None"
  proof -
    have "children ?m b = children m b" for b using that a by (auto simp: children_def)
    then have "node_refs ?m (ext(a := 0)) x dx" if "?m x = Some dx" for x dx
      using that by (intro keep) (auto split: if_splits)
    then show ?thesis using ok by (auto simp: refs_ok_def)
  qed
  show "p \<noteq> a \<and> p \<in> dom m \<and> refs_ok ?m (ext(a := 0, p := ext p + 1))" if p: "parent d = Some p"
  proof -
    have pa: "p \<noteq> a" "p \<in> dom m" using ka a p refs_okD [OF ok a] by (auto simp: children_def node_refs_def)
    have "children ?m p = children m p - {a}" "a \<in> children m p" using a p by (auto simp: children_def)
    then have "Suc (card (children ?m p)) = card (children m p)"
      using finite_children [OF fin] by (metis card_Suc_Diff1)
    moreover have "b \<noteq> p \<Longrightarrow> children ?m b = children m b" for b
      using p a by (auto simp: children_def)
    ultimately have "node_refs ?m (ext(a := 0, p := ext p + 1)) x dx" if "?m x = Some dx" for x dx
      using that by (intro keep) (auto split: if_splits)
    then show ?thesis using ok pa by (auto simp: refs_ok_def)
  qed
qed

section \<open>Release\<close>

lemma remove_mid: "distinct (xs @ a # ys) \<Longrightarrow> set (xs @ ys) = set (xs @ a # ys) - {a}"
  by auto

text \<open>What survives a release differs in counts and links only.\<close>

definition survives :: "(addr \<Rightarrow> fsw_hfsplus_dnode option) \<Rightarrow> (addr \<Rightarrow> fsw_hfsplus_dnode option) \<Rightarrow> bool" where
  "survives m m' \<longleftrightarrow> (\<forall>a d'. m' a = Some d' \<longrightarrow>
     (\<exists>d. m a = Some d \<and> (unlinked d')\<lparr>refcount := 0\<rparr> = (unlinked d)\<lparr>refcount := 0\<rparr>))"

lemma survives_refl [simp]: "survives m m"
  by (auto simp: survives_def)

lemma survives_trans: "survives m1 m2 \<Longrightarrow> survives m2 m3 \<Longrightarrow> survives m1 m3"
  unfolding survives_def by metis

lemma unlinked_idem [simp]: "unlinked (unlinked d) = unlinked d"
  by (simp add: unlinked_def)

lemma survives_contents: "survives m (contents m') \<longleftrightarrow> survives m m'"
  unfolding survives_def contents_Some by (metis unlinked_idem)

lemma dnodes_ok_split:
  assumes "dnodes_ok v as" and "a \<in> dom (dnodes v)"
  obtains xs ys where "as = xs @ a # ys"
  using assms by (metis dnodes_ok_def split_list)

lemma dom_contents_upd:
  assumes "contents m' = (contents m)(a := None)"
  shows "dom m' = dom m - {a}"
  using arg_cong [OF assms, of dom] by auto

lemma lseg_upd_data:
  assumes "m a = Some d" "dn_next d' = dn_next d" "dn_prev d' = dn_prev d"
  shows "lseg (m(a \<mapsto> d')) p xs h e = lseg m p xs h e"
  using assms by (induction xs arbitrary: p h) (auto split: option.splits)

lemma dnodes_ok_upd:
  assumes "dnodes_ok v as" and "dnodes v a = Some d" "dn_next d' = dn_next d" "dn_prev d' = dn_prev d"
  shows "dnodes_ok (v\<lparr>dnodes := (dnodes v)(a \<mapsto> d')\<rparr>) as"
  using assms lseg_upd_data [of "dnodes v" a d d'] by (auto simp: dnodes_ok_def)

lemma dnode_free_step:
  assumes ok: "dnodes_ok v as" and a: "dnodes v a = Some d"
  obtains v' as' where "dnode_unlink a v = (Ok (), v')" "store_frame v v'" "dnodes_ok v' as'"
    "contents (dnodes v') = (contents (dnodes v))(a := None)" "set as' = set as - {a}"
proof -
  obtain xs ys where as: "as = xs @ a # ys" using ok a by (auto elim: dnodes_ok_split)
  from ok as have seg: "lseg (dnodes v) None (xs @ a # ys) (dnode_head v) None" "distinct (xs @ a # ys)"
    by (auto simp: dnodes_ok_def)
  then obtain v' where v': "dnode_unlink a v = (Ok (), v')" "store_frame v v'"
    "lseg (dnodes v') None (xs @ ys) (dnode_head v') None"
    "contents (dnodes v') = (contents (dnodes v))(a := None)" by (rule unlink_ok)
  have nx: "next_addr v' = next_addr v"
    using v'(2) [unfolded store_frame_def, THEN arg_cong, of next_addr] by simp
  have "dnodes_ok v' (xs @ ys)"
    using v'(3) seg(2) ok dom_contents_upd [OF v'(4)] nx by (auto simp: dnodes_ok_def as)
  with v' seg(2) as show thesis by (intro that [of v' "xs @ ys"]) auto
qed

lemma release_loop_ok:
  assumes "dnodes_ok v as" and "refs_ok (dnodes v) ext" and "0 < ext a" and "length as < fuel"
  shows "\<exists>v' as'. release_loop fuel a v = (Ok (), v') \<and> store_frame v v' \<and> dnodes_ok v' as' \<and>
    refs_ok (dnodes v') (ext(a := ext a - 1)) \<and> survives (dnodes v) (dnodes v')"
  using assms
proof (induction fuel arbitrary: v as ext a)
  case (Suc fuel)
  note ok = Suc.prems(1) and refs = Suc.prems(2)
  have "a \<in> dom (dnodes v)" using refs Suc.prems(3) unfolding refs_ok_def by (metis less_irrefl)
  then obtain d where d: "dnodes v a = Some d" by blast
  note nr = refs_okD [OF refs d, unfolded node_refs_def]
  have sub: "sub32 (refcount d) 1 = refcount d - 1" using nr by (intro sub32_small) auto
  define d1 where "d1 = d\<lparr>refcount := refcount d - 1\<rparr>"
  define v1 where "v1 = v\<lparr>dnodes := (dnodes v)(a \<mapsto> d1)\<rparr>"
  have step: "release_loop (Suc fuel) a v = (if refcount d1 = 0
      then sthen (dnode_unlink a) (case parent d1 of None \<Rightarrow> sret () | Some p \<Rightarrow> release_loop fuel p) v1
      else (Ok (), v1))"
    using d sub by (simp add: sop_simps dnode_upd_def dnode_get_def v1_def d1_def)
  have ok1: "dnodes_ok v1 as" unfolding v1_def d1_def by (rule dnodes_ok_upd [OF ok d]) simp_all
  have sv1: "survives (dnodes v) (dnodes v1)" using d by (auto simp: survives_def v1_def d1_def unlinked_def)
  show ?case
  proof (cases "refcount d1 = 0")
    case False
    then have "refs_ok ((dnodes v)(a \<mapsto> d\<lparr>refcount := (ext a - 1) + card (children (dnodes v) a)\<rparr>)) (ext(a := ext a - 1))"
      using nr Suc.prems(3) by (intro refs_ok_count [OF refs d]) (auto simp: d1_def)
    moreover have "dnodes v1 = (dnodes v)(a \<mapsto> d\<lparr>refcount := (ext a - 1) + card (children (dnodes v) a)\<rparr>)"
      using nr Suc.prems(3) by (simp add: v1_def d1_def)
    ultimately have "refs_ok (dnodes v1) (ext(a := ext a - 1))" by (simp only:)
    moreover have "store_frame v v1" by (simp add: v1_def)
    moreover have "release_loop (Suc fuel) a v = (Ok (), v1)" using False step by (simp only: if_False)
    ultimately show ?thesis using ok1 sv1 by blast
  next
    case True
    then have one: "refcount d = 1" using nr by (simp add: d1_def)
    note dr = refs_ok_drop [OF refs d one Suc.prems(3)]
    have a1: "dnodes v1 a = Some d1" by (simp add: v1_def)
    obtain v2 as2 where v2: "dnode_unlink a v1 = (Ok (), v2)" "store_frame v1 v2" "dnodes_ok v2 as2"
      "contents (dnodes v2) = (contents (dnodes v1))(a := None)" "set as2 = set as - {a}"
      by (rule dnode_free_step [OF ok1 a1])
    have c2: "contents (dnodes v2) = contents ((dnodes v)(a := None))"
      using v2(4) by (simp add: v1_def contents_fun_upd)
    have sv2: "survives (dnodes v) (dnodes v2)"
      unfolding survives_contents [symmetric, of _ "dnodes v2"] c2 survives_contents by (auto simp: survives_def)
    have fr: "store_frame v v2" using v2(2) by (simp add: v1_def store_frame_def)
    show ?thesis
    proof (cases "parent d")
      case None
      then have "refs_ok (dnodes v2) (ext(a := ext a - 1))"
        using dr(2,3) c2 refs_ok_contents by (metis diff_self_eq_0)
      moreover have "release_loop (Suc fuel) a v = (Ok (), v2)"
        using step True v2(1) None by (simp add: sop_simps d1_def)
      ultimately show ?thesis using v2(3) fr sv2 by blast
    next
      case (Some p)
      then have p: "p \<noteq> a" and r2: "refs_ok (dnodes v2) (ext(a := 0, p := ext p + 1))"
        using dr(4) c2 refs_ok_contents by metis+
      have a: "a \<in> set as" using ok d by (auto simp: dnodes_ok_def)
      have "length as2 < fuel"
      proof -
        have "distinct as" "distinct as2" using ok v2(3) by (auto simp: dnodes_ok_def)
        then have "length as2 = card (set as - {a})" "length as = card (set as)"
          using v2(5) by (metis distinct_card)+
        with a Suc.prems(4) show ?thesis by (metis List.finite_set card_Diff1_less less_Suc_eq_le order_less_le_trans)
      qed
      note len2 = this
      define e2 where "e2 = ext(a := 0, p := ext p + 1)"
      have "0 < e2 p" by (simp add: e2_def)
      from Suc.IH [OF v2(3) r2 [folded e2_def] this len2] obtain v' as' where v':
        "release_loop fuel p v2 = (Ok (), v')" "store_frame v2 v'" "dnodes_ok v' as'"
        "refs_ok (dnodes v') (e2(p := e2 p - 1))"
        "survives (dnodes v2) (dnodes v')" by blast
      have "e2(p := e2 p - 1) = ext(a := ext a - 1)"
        using p dr(2) by (auto simp: e2_def)
      moreover have "release_loop (Suc fuel) a v = (Ok (), v')"
        using step True v2(1) Some v'(1) by (simp add: sop_simps d1_def)
      ultimately show ?thesis
        using v' fr store_frame_trans sv2 survives_trans by metis
    qed
  qed
qed simp

text \<open>
  A client gives one of its references back: no fault, the invariants hold with one reference
  less, and what is left in the store is unchanged but for counts and links.
\<close>

lemma release_ok:
  assumes ok: "dnodes_ok v as" and "refs_ok (dnodes v) ext" and "0 < ext a"
  obtains v' as' where "fsw_dnode_release a v = (Ok (), v')" "store_frame v v'" "dnodes_ok v' as'"
    "refs_ok (dnodes v') (ext(a := ext a - 1))" "survives (dnodes v) (dnodes v')"
proof -
  have "set as \<subseteq> {..<next_addr v}" "distinct as" using ok by (auto simp: dnodes_ok_def)
  then have "length as \<le> next_addr v" using card_mono [of "{..<next_addr v}" "set as"] by (simp add: distinct_card)
  then have "length as < Suc (next_addr v)" by simp
  from release_loop_ok [OF assms this] that show thesis unfolding fsw_dnode_release_def by blast
qed

section \<open>Retain and create\<close>

lemma retain_ok:
  assumes ok: "dnodes_ok v as" and refs: "refs_ok (dnodes v) ext" and d: "dnodes v a = Some d"
    and lim: "refcount d + 1 < 2 ^ 32"
  obtains v' where "fsw_dnode_retain a v = (Ok (), v')" "store_frame v v'" "dnodes_ok v' as"
    "refs_ok (dnodes v') (ext(a := ext a + 1))" "dnodes v' = (dnodes v)(a \<mapsto> d\<lparr>refcount := refcount d + 1\<rparr>)"
proof -
  let ?m = "(dnodes v)(a \<mapsto> d\<lparr>refcount := refcount d + 1\<rparr>)"
  note nr = refs_okD [OF refs d, unfolded node_refs_def]
  have "refs_ok ((dnodes v)(a \<mapsto> d\<lparr>refcount := (ext a + 1) + card (children (dnodes v) a)\<rparr>)) (ext(a := ext a + 1))"
    using nr lim by (intro refs_ok_count [OF refs d]) auto
  then have "refs_ok ?m (ext(a := ext a + 1))" using nr by simp
  moreover have "dnodes_ok (v\<lparr>dnodes := ?m\<rparr>) as" by (rule dnodes_ok_upd [OF ok d]) simp_all
  moreover have "fsw_dnode_retain a v = (Ok (), v\<lparr>dnodes := ?m\<rparr>)"
    using d lim by (simp add: fsw_dnode_retain_def dnode_upd_def add32_def)
  ultimately show thesis by (intro that [of "v\<lparr>dnodes := ?m\<rparr>"]) simp_all
qed

text \<open>The search by id returns the first dnode of the list with that id.\<close>

lemma find_dnode_list:
  assumes "lseg m p as h None" and "length as \<le> fuel"
  shows "find_dnode fuel m dnid h = Ok (List.find (\<lambda>a. \<exists>d. m a = Some d \<and> dnode_id d = dnid) as)"
  using assms
proof (induction as arbitrary: p h fuel)
  case (Cons a as)
  then obtain f where "fuel = Suc f" by (cases fuel) auto
  with Cons show ?case by (auto split: option.splits)
qed simp

lemma find_dnode_ok:
  assumes "dnodes_ok v as"
  shows "find_dnode (next_addr v) (dnodes v) dnid (dnode_head v) =
    Ok (List.find (\<lambda>a. \<exists>d. dnodes v a = Some d \<and> dnode_id d = dnid) as)"
proof -
  have "set as \<subseteq> {..<next_addr v}" "distinct as" using assms by (auto simp: dnodes_ok_def)
  then have "length as \<le> next_addr v" using card_mono [of "{..<next_addr v}" "set as"] by (simp add: distinct_card)
  with assms show ?thesis by (auto simp: dnodes_ok_def intro: find_dnode_list)
qed

text \<open>A new dnode: not complete, one reference, in front of the list.\<close>

definition ids_unique :: "(addr \<Rightarrow> fsw_hfsplus_dnode option) \<Rightarrow> bool" where
  "ids_unique m \<longleftrightarrow> (\<forall>a b i. map_option dnode_id (m a) = Some i \<longrightarrow> map_option dnode_id (m b) = Some i \<longrightarrow> a = b)"

definition new_dnode :: "nat \<Rightarrow> fsw_dnode_type \<Rightarrow> fsw_string \<Rightarrow> fsw_hfsplus_dnode" where
  "new_dnode dnid type nm = zero_dnode\<lparr>refcount := 1, dnode_id := dnid, dn_type := type, dn_name := nm\<rparr>"

definition alloc_frame :: "'v fsw_volume_scheme \<Rightarrow> 'v fsw_volume_scheme \<Rightarrow> bool" where
  "alloc_frame v v' \<longleftrightarrow>
     v'\<lparr>dnodes := Map.empty, dnode_head := None, next_addr := 0, allocs := 0\<rparr> =
     v\<lparr>dnodes := Map.empty, dnode_head := None, next_addr := 0, allocs := 0\<rparr>"

lemma alloc_frame_upd [simp]:
  "alloc_frame v v" "alloc_frame v (w\<lparr>dnodes := m\<rparr>) = alloc_frame v w"
  "alloc_frame v (w\<lparr>dnode_head := x\<rparr>) = alloc_frame v w" "alloc_frame v (w\<lparr>next_addr := n\<rparr>) = alloc_frame v w"
  "alloc_frame v (w\<lparr>allocs := k\<rparr>) = alloc_frame v w"
  by (simp_all add: alloc_frame_def)

lemma store_frame_alloc: "store_frame v w \<Longrightarrow> alloc_frame u v \<Longrightarrow> alloc_frame u w"
proof -
  assume s: "store_frame v w" and a: "alloc_frame u v"
  from s have "w\<lparr>dnodes := Map.empty, dnode_head := None\<rparr>\<lparr>next_addr := 0, allocs := 0\<rparr> =
      v\<lparr>dnodes := Map.empty, dnode_head := None\<rparr>\<lparr>next_addr := 0, allocs := 0\<rparr>"
    unfolding store_frame_def by simp
  with a show ?thesis by (simp add: alloc_frame_def)
qed

lemma refs_ok_new:
  assumes "refs_ok m ext" and "a \<notin> dom m" and "refcount d = 1" and "parent d = None"
  shows "refs_ok (m(a \<mapsto> d)) (ext(a := 1))"
proof -
  have fin: "finite (dom m)" using assms(1) by (simp add: refs_ok_def)
  have no: "children m a = {}"
    using refs_okD [OF assms(1)] assms(2) unfolding node_refs_def children_def by blast
  have ch: "children (m(a \<mapsto> d)) b = children m b" for b
    using assms(2,4) by (auto simp: children_def)
  have "node_refs (m(a \<mapsto> d)) (ext(a := 1)) x dx" if "(m(a \<mapsto> d)) x = Some dx" for x dx
    using that refs_okD [OF assms(1), of x dx] assms(3,4) no ch by (cases "x = a") (auto simp: node_refs_def)
  then show ?thesis using assms(1) fin by (auto simp: refs_ok_def)
qed

lemma register_new:
  assumes ok: "dnodes_ok v as" and a: "a \<notin> dom (dnodes v)" "a < n" "next_addr v \<le> n"
    and w: "dnodes w = (dnodes v)(a \<mapsto> d)" "dnode_head w = dnode_head v" "next_addr w = n"
  obtains v' where "fsw_dnode_register a w = (Ok (), v')" "store_frame w v'" "dnodes_ok v' (a # as)"
    "contents (dnodes v') = contents ((dnodes v)(a \<mapsto> d))"
proof -
  have seg: "lseg (dnodes v) None as (dnode_head v) None" "distinct as" "a \<notin> set as"
    using ok a by (auto simp: dnodes_ok_def)
  then have "lseg (dnodes w) None as (dnode_head w) None"
    unfolding w by (subst lseg_cong [where m = "dnodes v"]) auto
  from register_ok [OF this seg(2,3)] w(1) obtain v' where v': "fsw_dnode_register a w = (Ok (), v')"
    "store_frame w v'" "lseg (dnodes v') None (a # as) (dnode_head v') None"
    "contents (dnodes v') = contents (dnodes w)" by auto
  have nx: "next_addr v' = n"
    using v'(2) [unfolded store_frame_def, THEN arg_cong, of next_addr] w(3) by simp
  have "dom (dnodes v') = insert a (dom (dnodes v))"
    using arg_cong [OF v'(4), of dom] w(1) by simp
  then have "dnodes_ok v' (a # as)"
    using v'(3) seg ok a nx by (auto simp: dnodes_ok_def)
  with v' w(1) show thesis by (intro that [of v']) auto
qed

lemma create_found:
  assumes "dnodes_ok v as"
    and "List.find (\<lambda>a. \<exists>d. dnodes v a = Some d \<and> dnode_id d = dnid) as = Some a"
  shows "fsw_dnode_create h p dnid type name v = sthen (fsw_dnode_retain a) (sret a) v"
  using find_dnode_ok [OF assms(1), of dnid] assms(2)
  by (simp add: fsw_dnode_create_def sbind_def)

text \<open>
  The case of an id that is not in use, for a name whose characters the host's encoding can
  hold. On failure the store is as before.
\<close>

lemma create_new:
  assumes ok: "dnodes_ok v as" and refs: "refs_ok (dnodes v) ext"
    and none: "List.find (\<lambda>a. \<exists>d. dnodes v a = Some d \<and> dnode_id d = dnid) as = None"
    and nm: "represents name cs" "native_string_type h \<in> {STR_ISO88591, STR_UTF8, STR_UTF16}"
      "\<forall>c \<in> set cs. c < char_limit (native_string_type h)"
  obtains (oom) v' where "fsw_dnode_create h None dnid type name v = (Err FSW_OUT_OF_MEMORY, v')"
      "alloc_frame v v'" "dnodes_ok v' as" "dnodes v' = dnodes v" "\<exists>n size. \<not> alloc_ok h n size"
  | (new) v' nm' where "fsw_dnode_create h None dnid type name v = (Ok (next_addr v), v')"
      "alloc_frame v v'" "dnodes_ok v' (next_addr v # as)" "refs_ok (dnodes v') (ext(next_addr v := 1))"
      "represents nm' cs" "next_addr v \<notin> dom (dnodes v)"
      "contents (dnodes v') = contents ((dnodes v)(next_addr v \<mapsto> new_dnode dnid type nm'))"
proof -
  let ?a = "next_addr v"
  have a: "?a \<notin> dom (dnodes v)" using ok by (auto simp: dnodes_ok_def)
  have fd: "find_dnode (next_addr v) (dnodes v) dnid (dnode_head v) = Ok None"
    using find_dnode_ok [OF ok, of dnid] none by simp
  define v1 where "v1 = v\<lparr>allocs := Suc (allocs v), next_addr := Suc ?a, dnodes := (dnodes v)(?a \<mapsto>
    zero_dnode\<lparr>complete := False, parent := None, dnode_id := dnid, dn_type := type, refcount := 1\<rparr>)\<rparr>"
  show thesis
  proof (cases "alloc_ok h (allocs v) dnode_struct_size")
    case False
    then show thesis using fd ok
      by (intro oom [of "v\<lparr>allocs := Suc (allocs v)\<rparr>"])
        (auto simp: fsw_dnode_create_def sop_simps dnode_alloc_zero_def fsw_alloc_def sbind_def dnodes_ok_def)
  next
    case True
    have step: "fsw_dnode_create h None dnid type name v =
      sbind (on_err (\<lambda>v. fsw_strdup_coerce h v (native_string_type h) name) (dnode_free_mem ?a)) (\<lambda>nm.
          sthen (dnode_upd ?a (\<lambda>d. d\<lparr>dn_name := nm\<rparr>)) (sthen (fsw_dnode_register ?a) (sret ?a))) v1"
      using fd True
      by (simp add: fsw_dnode_create_def sop_simps dnode_alloc_zero_def fsw_alloc_def sbind_def
          dnode_upd_def v1_def)
    have al: "alloc_frame v v1" by (simp add: v1_def)
    have sel: "dnode_head v1 = dnode_head v" "next_addr v1 = Suc ?a" by (simp_all add: v1_def)
    obtain r v2 where dup: "fsw_strdup_coerce h v1 (native_string_type h) name = (r, v2)" by fastforce
    have cp: "copied h v1 (native_string_type h) cs (r, v2)"
      using strdup_coerce_chars [OF nm, of h v1] dup by simp
    then have v2: "v2 = v1 \<or> v2 = v1\<lparr>allocs := Suc (allocs v1)\<rparr>" by (auto simp: copied_def)
    have s2: "dnodes v2 = dnodes v1" "dnode_head v2 = dnode_head v" "next_addr v2 = Suc ?a" "alloc_frame v v2"
      using v2 sel al by auto
    from cp consider nm' where "r = Ok nm'" "represents nm' cs"
      | "r = Err FSW_OUT_OF_MEMORY" "\<exists>n. \<not> alloc_ok h (allocs v1) n" by (auto simp: copied_def)
    then show thesis
    proof cases
      case 1
      define v3 where "v3 = v2\<lparr>dnodes := (dnodes v)(?a \<mapsto> new_dnode dnid type nm')\<rparr>"
      have u: "dnode_upd ?a (\<lambda>d. d\<lparr>dn_name := nm'\<rparr>) v2 = (Ok (), v3)"
        using s2(1) by (simp add: dnode_upd_def v3_def v1_def new_dnode_def zero_dnode_def)
      obtain v' where v': "fsw_dnode_register ?a v3 = (Ok (), v')" "store_frame v3 v'" "dnodes_ok v' (?a # as)"
        "contents (dnodes v') = contents ((dnodes v)(?a \<mapsto> new_dnode dnid type nm'))"
        by (rule register_new [OF ok a, of "Suc ?a" v3 "new_dnode dnid type nm'"]) (auto simp: v3_def s2)
      have "refs_ok ((dnodes v)(?a \<mapsto> new_dnode dnid type nm')) (ext(?a := 1))"
        by (rule refs_ok_new [OF refs a]) (simp_all add: new_dnode_def zero_dnode_def)
      then have "refs_ok (dnodes v') (ext(?a := 1))" using v'(4) refs_ok_contents by metis
      moreover have "fsw_dnode_create h None dnid type name v = (Ok ?a, v')"
        using step dup 1 u v'(1) by (simp add: sop_simps on_err_def)
      moreover have "alloc_frame v v'" using v'(2) s2(4) by (simp add: v3_def store_frame_alloc)
      ultimately show thesis using new v' 1(2) a by blast
    next
      case 2
      define v3 where "v3 = v2\<lparr>dnodes := (dnodes v2)(?a := None)\<rparr>"
      have m: "dnodes v3 = dnodes v" using a s2(1) by (auto simp: v3_def v1_def fun_eq_iff dom_def)
      have "dnodes_ok v3 as" using ok m s2 by (auto simp: dnodes_ok_def v3_def)
      moreover have "fsw_dnode_create h None dnid type name v = (Err FSW_OUT_OF_MEMORY, v3)"
        using step dup 2 by (simp add: sop_simps on_err_def dnode_free_mem_def v3_def)
      ultimately show thesis using oom m 2 s2(4) by (auto simp: v3_def)
    qed
  qed
qed

lemma ids_unique_contents: "ids_unique (contents m) = ids_unique m"
proof -
  have "map_option dnode_id (contents m a) = map_option dnode_id (m a)" for a
    by (cases "m a") (simp_all add: contents_def)
  then show ?thesis by (simp add: ids_unique_def)
qed

lemma ids_unique_new:
  assumes "ids_unique m" and "\<And>a d. m a = Some d \<Longrightarrow> dnode_id d \<noteq> dnode_id x"
  shows "ids_unique (m(b \<mapsto> x))"
  unfolding ids_unique_def
proof (intro allI impI)
  fix c e i
  assume "map_option dnode_id ((m(b \<mapsto> x)) c) = Some i" "map_option dnode_id ((m(b \<mapsto> x)) e) = Some i"
  with assms show "c = e" by (cases "c = b"; cases "e = b") (auto simp: ids_unique_def)
qed

lemma find_None_ids:
  assumes "dnodes_ok v as" and "List.find (\<lambda>a. \<exists>d. dnodes v a = Some d \<and> dnode_id d = dnid) as = None"
    and "dnodes v a = Some d"
  shows "dnode_id d \<noteq> dnid"
proof -
  have "a \<in> set as" using assms(1,3) by (auto simp: dnodes_ok_def)
  with assms(2,3) show ?thesis by (auto simp: find_None_iff)
qed

end
