(* ===== verification/HfsExtents.thy ===== *)
theory HfsExtents
  imports FswShandle
begin

text \<open>
  The block map of an HFS+ file: \<open>fsw_hfsplus_get_ext\<close> of
  \<^verbatim>\<open>OpenHfsPlus/fsw_hfsplus.c\<close>. The eight extent descriptors of a fork are read as the list
  of physical blocks they describe; the operation is the reader's \<open>file_layout\<close>, and
  together with the block cache it makes \<open>fsw_shandle_read\<close> deliver the bytes of the
  file.
\<close>

section \<open>The operation\<close>

definition kHFSPlusExtentDensity :: nat where
  "kHFSPlusExtentDensity = 8"

text \<open>The loop over the descriptors; \<open>off\<close> is relative to the current one.\<close>

fun get_ext_loop :: "HFSPlusExtentDescriptor list \<Rightarrow> nat \<Rightarrow> fsw_extent \<Rightarrow> fsw_extent fsw_res" where
  "get_ext_loop [] off e = Err FSW_UNSUPPORTED"
| "get_ext_loop (x # xs) off e =
     (let bc = blockCount x
      in if bc = 0 then Err FSW_NOT_FOUND
         else if off < bc then
           Ok (e\<lparr>ext_type := EXT_PHYSBLOCK, phys_start := add32 (startBlock x) off,
                 log_count := bc - off\<rparr>)
         else get_ext_loop xs (off - bc) e)"

definition fsw_hfsplus_get_ext :: "fsw_hfsplus_dnode \<Rightarrow> fsw_extent \<Rightarrow> fsw_extent fsw_res" where
  "fsw_hfsplus_get_ext d e = get_ext_loop (take kHFSPlusExtentDensity (extents d)) (log_start e) e"

section \<open>The block map\<close>

text \<open>The physical blocks of a fork in logical order, up to the first empty descriptor.\<close>

fun ext_blocks :: "HFSPlusExtentDescriptor list \<Rightarrow> nat list" where
  "ext_blocks [] = []"
| "ext_blocks (x # xs) =
     (if blockCount x = 0 then []
      else map (add32 (startBlock x)) [0..<blockCount x] @ ext_blocks xs)"

definition fork_blocks :: "fsw_hfsplus_dnode \<Rightarrow> nat list" where
  "fork_blocks d = ext_blocks (take kHFSPlusExtentDensity (extents d))"

lemma add32_add32: "add32 (add32 a b) c = add32 a (b + c)"
  by (simp add: add32_def mod_simps add.assoc)

text \<open>
  Inside the fork the extent returned starts at the block asked for and describes a run of
  the fork's blocks; past its end the status tells whether an empty descriptor ended the
  list or all eight are in use.
\<close>

lemma get_ext_loop_inside:
  assumes "off < length (ext_blocks xs)"
  shows "\<exists>e'. get_ext_loop xs off e = Ok e' \<and> ext_type e' = EXT_PHYSBLOCK \<and>
    log_start e' = log_start e \<and> 0 < log_count e' \<and> off + log_count e' \<le> length (ext_blocks xs) \<and>
    (\<forall>k < log_count e'. add32 (phys_start e') k = ext_blocks xs ! (off + k))"
  using assms
proof (induction xs off e rule: get_ext_loop.induct)
  case (1 off e)
  then show ?case by simp
next
  case (2 x xs off e)
  then have bc: "blockCount x \<noteq> 0" by (auto split: if_splits)
  show ?case
  proof (cases "off < blockCount x")
    case True
    with bc show ?thesis by (auto simp: nth_append add32_add32)
  next
    case False
    with bc "2.prems" have "off - blockCount x < length (ext_blocks xs)" by auto
    from "2.IH" [OF refl bc False this] obtain e' where
      e': "get_ext_loop xs (off - blockCount x) e = Ok e'" "ext_type e' = EXT_PHYSBLOCK"
      "log_start e' = log_start e" "0 < log_count e'"
      "off - blockCount x + log_count e' \<le> length (ext_blocks xs)"
      "\<forall>k < log_count e'. add32 (phys_start e') k = ext_blocks xs ! (off - blockCount x + k)"
      by blast
    have "ext_blocks (x # xs) ! (off + k) = ext_blocks xs ! (off - blockCount x + k)" for k
      using bc False by (simp add: nth_append)
    with e' bc False show ?thesis by auto
  qed
qed

lemma get_ext_loop_outside:
  assumes "length (ext_blocks xs) \<le> off"
  shows "get_ext_loop xs off e =
    Err (if \<exists>x \<in> set xs. blockCount x = 0 then FSW_NOT_FOUND else FSW_UNSUPPORTED)"
  using assms
  by (induction xs off e rule: get_ext_loop.induct) (auto simp: Let_def split: if_splits)

section \<open>The reader's view\<close>

text \<open>
  The layout law needs the block numbers of the file to fit in 32 bits; a fork that claims
  more blocks than that has no readable ones here.
\<close>

definition readable_blocks :: "fsw_hfsplus_dnode \<Rightarrow> nat" where
  "readable_blocks d = (if length (fork_blocks d) < 2 ^ 32 then length (fork_blocks d) else 0)"

interpretation hfs_layout: file_layout "fsw_hfsplus_get_ext d" "(!) (fork_blocks d)" "readable_blocks d"
  for d :: fsw_hfsplus_dnode
proof
  fix e :: fsw_extent assume "log_start e < readable_blocks d"
  then have lt: "log_start e < length (fork_blocks d)" "length (fork_blocks d) < 2 ^ 32"
    by (auto simp: readable_blocks_def split: if_splits)
  from get_ext_loop_inside [OF lt(1) [unfolded fork_blocks_def], of e] obtain e' where
    "fsw_hfsplus_get_ext d e = Ok e'" "ext_type e' = EXT_PHYSBLOCK" "log_start e' = log_start e"
    "0 < log_count e'" "log_start e + log_count e' \<le> length (fork_blocks d)"
    "\<forall>k < log_count e'. add32 (phys_start e') k = fork_blocks d ! (log_start e + k)"
    by (auto simp: fsw_hfsplus_get_ext_def fork_blocks_def)
  with lt(2) show "\<exists>e'. fsw_hfsplus_get_ext d e = Ok e' \<and>
      ext_maps ((!) (fork_blocks d)) (readable_blocks d) e' \<and>
      log_start e' = log_start e \<and> 0 < log_count e'"
    by (intro exI [of _ e']) (auto simp: ext_maps_def)
qed

definition is_pow2 :: "nat \<Rightarrow> bool" where
  "is_pow2 n \<longleftrightarrow> (\<exists>k < 32. n = 2 ^ k)"

text \<open>
  A mounted volume whose block size is a power of two and whose device holds all blocks of
  the fork.
\<close>

definition fork_inv ::
  "fsw_host \<Rightarrow> 'v fsw_volume_scheme \<Rightarrow> fsw_hfsplus_dnode \<Rightarrow> 'v fsw_volume_scheme \<Rightarrow> bool" where
  "fork_inv h v0 d v \<longleftrightarrow> vol_inv h v0 v \<and> is_pow2 (phys_blocksize v0) \<and>
     (\<forall>b \<in> set (fork_blocks d). dev_valid h (phys_blocksize v0) b)"

interpretation hfs_file: stored_file "fsw_block_get h" fsw_block_release "fork_inv h v0 d"
  "dev_valid h (phys_blocksize v0)" "dev_block h (phys_blocksize v0)" "phys_blocksize v0"
  "fsw_hfsplus_get_ext d" "(!) (fork_blocks d)" "readable_blocks d"
  for h :: fsw_host and v0 :: "'v fsw_volume_scheme" and d :: fsw_hfsplus_dnode
proof
  fix s :: "'v fsw_volume_scheme" and b l r s'
  assume "fork_inv h v0 d s" "dev_valid h (phys_blocksize v0) b" "fsw_block_get h s b l = (r, s')"
  then show "r = Ok (Some (dev_block h (phys_blocksize v0) b)) \<and> fork_inv h v0 d (fsw_block_release s' b) \<or>
      (\<exists>st. r = Err st \<and> fork_inv h v0 d s')"
    using bc.get_blk unfolding fork_inv_def by blast
qed (auto simp: fork_inv_def is_pow2_def dev_valid_def readable_blocks_def split: if_splits)

interpretation hfs_file_total: stored_file_total "fsw_block_get h" fsw_block_release
  "\<lambda>v. fork_inv h v0 d v \<and> host_total h (phys_blocksize v0)"
  "dev_valid h (phys_blocksize v0)" "dev_block h (phys_blocksize v0)" "phys_blocksize v0"
  "fsw_hfsplus_get_ext d" "(!) (fork_blocks d)" "readable_blocks d"
  for h :: fsw_host and v0 :: "'v fsw_volume_scheme" and d :: fsw_hfsplus_dnode
proof
  fix s :: "'v fsw_volume_scheme" and b l r s'
  assume "fork_inv h v0 d s \<and> host_total h (phys_blocksize v0)"
    "dev_valid h (phys_blocksize v0) b" "fsw_block_get h s b l = (r, s')"
  then show "r = Ok (Some (dev_block h (phys_blocksize v0) b)) \<and>
      (fork_inv h v0 d (fsw_block_release s' b) \<and> host_total h (phys_blocksize v0)) \<or>
      (\<exists>st. r = Err st \<and> fork_inv h v0 d s' \<and> host_total h (phys_blocksize v0))"
    using hfs_file.get_blk by blast
next
  fix s :: "'v fsw_volume_scheme" and b l
  assume "fork_inv h v0 d s \<and> host_total h (phys_blocksize v0)" "dev_valid h (phys_blocksize v0) b"
  then show "\<exists>s'. fsw_block_get h s b l = (Ok (Some (dev_block h (phys_blocksize v0) b)), s')"
    using bct.get_total unfolding fork_inv_def by blast
qed (blast intro: hfs_file.bs_pow2 hfs_file.mapped hfs_file.blk_len)+

section \<open>Reading a file\<close>

text \<open>The bytes of the fork as the device holds them.\<close>

definition fork_bytes :: "fsw_host \<Rightarrow> 'v fsw_volume_scheme \<Rightarrow> fsw_hfsplus_dnode \<Rightarrow> nat \<Rightarrow> nat \<Rightarrow> byte list" where
  "fork_bytes h v d pos n =
     file_bytes (dev_block h (phys_blocksize v)) ((!) (fork_blocks d)) (phys_blocksize v) pos n"

lemma length_fork_bytes [simp]: "length (fork_bytes h v d pos n) = n"
  by (simp add: fork_bytes_def)

text \<open>
  A volume on which the data fork of \<open>d\<close> can be read: idle cache, equal block sizes that
  are a power of two, a device that holds all blocks of the fork, and a size the fork covers.
\<close>

definition readable :: "fsw_host \<Rightarrow> 'v fsw_volume_scheme \<Rightarrow> fsw_hfsplus_dnode \<Rightarrow> bool" where
  "readable h v d \<longleftrightarrow> idle_ok h v \<and> is_pow2 (phys_blocksize v) \<and> log_blocksize v = phys_blocksize v \<and>
     (\<forall>b \<in> set (fork_blocks d). dev_valid h (phys_blocksize v) b) \<and>
     length (fork_blocks d) < 2 ^ 32 \<and> dn_size d \<le> length (fork_blocks d) * phys_blocksize v \<and>
     dn_size d < 2 ^ 32"

definition handle_ok :: "fsw_hfsplus_dnode \<Rightarrow> fsw_shandle \<Rightarrow> bool" where
  "handle_ok d sh \<longleftrightarrow> ext_ok ((!) (fork_blocks d)) (readable_blocks d) (sh_extent sh)"

lemma readable_frame:
  "readable h v d \<Longrightarrow> cache_frame v v' \<Longrightarrow> idle_ok h v' \<Longrightarrow> readable h v' d"
  by (auto simp: readable_def cache_frame_sel)

lemma fork_bytes_frame: "cache_frame v v' \<Longrightarrow> fork_bytes h v' d pos n = fork_bytes h v d pos n"
  by (simp add: fork_bytes_def cache_frame_sel)

text \<open>Inside the file the read is the loop over the clipped length.\<close>

lemma shandle_read_eq:
  fixes len :: nat
  assumes rd: "readable h v d" and d: "dnodes v (sh_dnode sh) = Some d" and lt: "sh_pos sh < dn_size d"
  defines "n \<equiv> min len (dn_size d - sh_pos sh)"
  shows "fsw_shandle_read h fsw_hfsplus_get_ext v sh len =
    (case shandle_loop (Suc n) (fsw_block_get h) fsw_block_release (fsw_hfsplus_get_ext d)
        (phys_blocksize v) (phys_blocksize v) (if dn_type d \<noteq> TYPE_FILE then 1 else 0) v
        (sh_extent sh) (sh_pos sh) n [] of
       (Ok (pos', bytes), e, v') \<Rightarrow>
         (Ok (sub32 pos' (sh_pos sh), bytes), sh\<lparr>sh_pos := pos', sh_extent := e\<rparr>, v')
     | (Err st, e, v') \<Rightarrow> (Err st, sh\<lparr>sh_extent := e\<rparr>, v')
     | (Fault, e, v') \<Rightarrow> (Fault, sh\<lparr>sh_extent := e\<rparr>, v')
     | (Diverge, e, v') \<Rightarrow> (Diverge, sh\<lparr>sh_extent := e\<rparr>, v'))"
    and "sh_pos sh + n \<le> readable_blocks d * phys_blocksize v" and "sh_pos sh + n < 2 ^ 32"
proof -
  have bnd: "sh_pos sh < 2 ^ 32" "dn_size d < 2 ^ 32" using rd lt by (auto simp: readable_def)
  then have bl: "(if dn_size d - sh_pos sh mod 2 ^ 32 < len
      then (dn_size d - sh_pos sh mod 2 ^ 32) mod 2 ^ 32 else len) = n"
    by (auto simp: n_def min_def)
  have "sh_pos sh mod 2 ^ 32 = sh_pos sh" using bnd by simp
  moreover have "log_blocksize v = phys_blocksize v" using rd by (simp add: readable_def)
  ultimately show "fsw_shandle_read h fsw_hfsplus_get_ext v sh len =
    (case shandle_loop (Suc n) (fsw_block_get h) fsw_block_release (fsw_hfsplus_get_ext d)
        (phys_blocksize v) (phys_blocksize v) (if dn_type d \<noteq> TYPE_FILE then 1 else 0) v
        (sh_extent sh) (sh_pos sh) n [] of
       (Ok (pos', bytes), e, v') \<Rightarrow>
         (Ok (sub32 pos' (sh_pos sh), bytes), sh\<lparr>sh_pos := pos', sh_extent := e\<rparr>, v')
     | (Err st, e, v') \<Rightarrow> (Err st, sh\<lparr>sh_extent := e\<rparr>, v')
     | (Fault, e, v') \<Rightarrow> (Fault, sh\<lparr>sh_extent := e\<rparr>, v')
     | (Diverge, e, v') \<Rightarrow> (Diverge, sh\<lparr>sh_extent := e\<rparr>, v'))"
    unfolding fsw_shandle_read_def d option.case Let_def bl using lt by simp
  show "sh_pos sh + n \<le> readable_blocks d * phys_blocksize v" "sh_pos sh + n < 2 ^ 32"
    using rd lt by (auto simp: readable_def readable_blocks_def n_def min_def)
qed

lemma readable_inv: "readable h v d \<Longrightarrow> fork_inv h v d v"
  by (simp add: fork_inv_def vol_inv_def readable_def)

lemma shandle_read_fork:
  assumes rd: "readable h v d" and d: "dnodes v (sh_dnode sh) = Some d" and ho: "handle_ok d sh"
    and eq: "fsw_shandle_read h fsw_hfsplus_get_ext v sh len = (r, sh', v')"
  shows "cache_frame v v' \<and> idle_ok h v' \<and> handle_ok d sh' \<and> sh_dnode sh' = sh_dnode sh \<and>
    ((\<exists>st. r = Err st \<and> sh_pos sh' = sh_pos sh) \<or>
     (let n = min len (dn_size d - sh_pos sh)
      in r = Ok (n, fork_bytes h v d (sh_pos sh) n) \<and> sh_pos sh' = sh_pos sh + n))"
proof (cases "dn_size d \<le> sh_pos sh")
  case True
  with assms show ?thesis by (auto simp: fsw_shandle_read_def readable_def fork_bytes_def)
next
  case False
  then have lt: "sh_pos sh < dn_size d" by simp
  let ?n = "min len (dn_size d - sh_pos sh)"
  note re = shandle_read_eq [OF rd d lt, of len]
  obtain rl e1 v1 where lp: "shandle_loop (Suc ?n) (fsw_block_get h) fsw_block_release
      (fsw_hfsplus_get_ext d) (phys_blocksize v) (phys_blocksize v)
      (if dn_type d \<noteq> TYPE_FILE then 1 else 0) v (sh_extent sh) (sh_pos sh) ?n []
      = (rl, e1, v1)" by (metis prod_cases3)
  have "fork_inv h v d v1 \<and> ext_ok ((!) (fork_blocks d)) (readable_blocks d) e1 \<and>
      ((\<exists>st. rl = Err st) \<or> rl = Ok (sh_pos sh + ?n, [] @ fork_bytes h v d (sh_pos sh) ?n))"
    unfolding fork_bytes_def
    by (rule hfs_file.loop_reads_file [OF readable_inv [OF rd] ho [unfolded handle_ok_def] re(2,3) _ lp]) simp
  moreover have "sub32 (sh_pos sh + ?n) (sh_pos sh) = ?n" using re(3) by (simp add: arith32)
  ultimately show ?thesis using eq unfolding re(1) lp
    by (auto simp: handle_ok_def fork_inv_def vol_inv_def Let_def)
qed

lemma shandle_read_total:
  assumes rd: "readable h v d" and d: "dnodes v (sh_dnode sh) = Some d" and ho: "handle_ok d sh"
    and tot: "host_total h (phys_blocksize v)"
  shows "\<exists>x sh' v'. fsw_shandle_read h fsw_hfsplus_get_ext v sh len = (Ok x, sh', v')"
proof (cases "dn_size d \<le> sh_pos sh")
  case True
  with d show ?thesis by (simp add: fsw_shandle_read_def)
next
  case False
  then have lt: "sh_pos sh < dn_size d" by simp
  note re = shandle_read_eq [OF rd d lt, of len]
  have "fork_inv h v d v \<and> host_total h (phys_blocksize v)" using rd tot readable_inv by blast
  from hfs_file_total.loop_total [OF this ho [unfolded handle_ok_def] re(2,3) lessI,
      where lvl = "if dn_type d \<noteq> TYPE_FILE then 1 else 0" and acc = "[]"]
  obtain x e' v' where "shandle_loop (Suc (min len (dn_size d - sh_pos sh))) (fsw_block_get h)
      fsw_block_release (fsw_hfsplus_get_ext d) (phys_blocksize v) (phys_blocksize v)
      (if dn_type d \<noteq> TYPE_FILE then 1 else 0) v (sh_extent sh) (sh_pos sh)
      (min len (dn_size d - sh_pos sh)) [] = (Ok x, e', v')" by blast
  then show ?thesis unfolding re(1) by (cases x) simp
qed

end
