(* ===== verification/HfsKeys.thy ===== *)
theory HfsKeys
  imports FswByteOrder "HOL-Library.List_Lexorder" "HOL-Library.Product_Lexorder"
begin

text \<open>
  Access to the records of a B-tree node, and the key comparison procedures of
  \<^verbatim>\<open>OpenHfsPlus/fsw_hfsplus.c\<close>. A pointer into a node is an offset into its bytes, and a load
  outside the node is \<open>None\<close>. The comparison of catalog keys is shown to be the linear
  order on pairs of a parent id and a case-folded name.
\<close>

section \<open>Records of a B-tree node\<close>

text \<open>
  The offset table is at the end of the node and grows downwards; a record starts with its
  key, a 16-bit length followed by that many bytes. The node size is a 16-bit parameter.
\<close>

definition fsw_hfsplus_btnode_get_rec :: "byte list \<Rightarrow> nat \<Rightarrow> nat \<Rightarrow> nat option" where
  "fsw_hfsplus_btnode_get_rec btnode ndsz rnum =
     (let size = ndsz mod 2 ^ 16
      in if 2 * (rnum + 1) \<le> size then be16 btnode (size - 2 * (rnum + 1)) else None)"

definition fsw_hfsplus_bt_rec_skip_key :: "byte list \<Rightarrow> nat \<Rightarrow> nat option" where
  "fsw_hfsplus_bt_rec_skip_key btnode k = map_option (\<lambda>len. k + 2 + len) (be16 btnode k)"

definition fsw_hfsplus_bt_idx_get_child :: "byte list \<Rightarrow> nat \<Rightarrow> nat option" where
  "fsw_hfsplus_bt_idx_get_child btnode k =
     Option.bind (fsw_hfsplus_bt_rec_skip_key btnode k) (be32 btnode)"

text \<open>The node descriptor and the catalog key, by field offset of the packed structures.\<close>

definition nd_fLink :: "byte list \<Rightarrow> nat option" where
  "nd_fLink btnode = be32 btnode 0"

definition nd_kind :: "byte list \<Rightarrow> int option" where
  "nd_kind btnode = map_option sint (load8 btnode 8)"

definition nd_numRecords :: "byte list \<Rightarrow> nat option" where
  "nd_numRecords btnode = be16 btnode 10"

definition sizeof_BTNodeDescriptor :: nat where
  "sizeof_BTNodeDescriptor = 14"

definition kBTLeafNode :: int where "kBTLeafNode = -1"
definition kBTIndexNode :: int where "kBTIndexNode = 0"

definition key_parentID :: "byte list \<Rightarrow> nat \<Rightarrow> nat option" where
  "key_parentID btnode k = be32 btnode (k + 2)"

definition key_name_length :: "byte list \<Rightarrow> nat \<Rightarrow> nat option" where
  "key_name_length btnode k = be16 btnode (k + 6)"

section \<open>Comparison procedures\<close>

text \<open>A search key in memory: host byte order, at most \<open>255\<close> characters.\<close>

record HFSUniStr255 =
  uni_length :: nat
  unicode :: "nat list"

record HFSPlusCatalogKey =
  parentID :: nat
  nodeName :: HFSUniStr255

definition fsw_hfsplus_int_cmp :: "nat \<Rightarrow> nat \<Rightarrow> int" where
  "fsw_hfsplus_int_cmp a b = (if a < b then -1 else if b < a then 1 else 0)"

definition fsw_hfsplus_ucblatin_tolower :: "nat \<Rightarrow> nat" where
  "fsw_hfsplus_ucblatin_tolower c =
     (if c = 0 then 0xFFFF
      else if c = 0x00C6 \<or> c = 0x00D0 \<or> c = 0x00D8 \<or> c = 0x00DE \<or> (0x0041 \<le> c \<and> c \<le> 0x005A)
      then c + 0x0020 else c)"

definition fsw_hfsplus_thread_cmp :: "byte list \<Rightarrow> nat \<Rightarrow> HFSPlusCatalogKey \<Rightarrow> int option" where
  "fsw_hfsplus_thread_cmp btnode tk sk =
     (case key_parentID btnode tk of
        None \<Rightarrow> None
      | Some p \<Rightarrow>
          let ret = fsw_hfsplus_int_cmp p (parentID sk)
          in if ret \<noteq> 0 then Some ret
             else map_option (\<lambda>len. if 0 < unat len then 1 else 0) (le16 btnode (tk + 6)))"

text \<open>The two inner loops: the next valid character of the key on disk and of the search key.\<close>

fun tk_next :: "byte list \<Rightarrow> nat \<Rightarrow> nat \<Rightarrow> nat \<Rightarrow> (nat \<times> nat \<times> nat) option" where
  "tk_next btnode c p 0 = Some (c, p, 0)"
| "tk_next btnode c p (Suc n) =
     (if c = 0 then
        (case be16 btnode p of
           None \<Rightarrow> None
         | Some x \<Rightarrow> tk_next btnode (fsw_hfsplus_ucblatin_tolower x) (p + 2) n)
      else Some (c, p, Suc n))"

fun sk_next :: "nat \<Rightarrow> nat list \<Rightarrow> nat \<Rightarrow> (nat \<times> nat list \<times> nat) option" where
  "sk_next c s 0 = Some (c, s, 0)"
| "sk_next c s (Suc n) =
     (if c = 0 then
        (case s of
           [] \<Rightarrow> None
         | x # xs \<Rightarrow> sk_next (fsw_hfsplus_ucblatin_tolower x) xs n)
      else Some (c, s, Suc n))"

lemma tolower_nz [simp]: "fsw_hfsplus_ucblatin_tolower c \<noteq> 0"
  by (simp add: fsw_hfsplus_ucblatin_tolower_def)

text \<open>A folded character is never 0, so each inner loop runs at most once.\<close>

lemma tk_next_stop [simp]: "c \<noteq> 0 \<Longrightarrow> tk_next btnode c p n = Some (c, p, n)"
  by (cases n) auto

lemma sk_next_stop [simp]: "c \<noteq> 0 \<Longrightarrow> sk_next c s n = Some (c, s, n)"
  by (cases n) auto

lemma sk_next_shrinks: "sk_next 0 s n = Some (c, s', n') \<Longrightarrow> c \<noteq> 0 \<Longrightarrow> n' < n"
  by (cases n) (auto split: list.splits)

function cmp_names :: "byte list \<Rightarrow> nat \<Rightarrow> nat \<Rightarrow> nat list \<Rightarrow> nat \<Rightarrow> int option" where
  "cmp_names btnode p t_len s s_len =
     (case tk_next btnode 0 p t_len of
        None \<Rightarrow> None
      | Some (t_char, p', t_len') \<Rightarrow>
          (case sk_next 0 s s_len of
             None \<Rightarrow> None
           | Some (s_char, s', s_len') \<Rightarrow>
               let ret = fsw_hfsplus_int_cmp t_char s_char
               in if ret \<noteq> 0 \<or> s_char = 0 then Some ret
                  else cmp_names btnode p' t_len' s' s_len'))"
  by pat_completeness auto
termination
  by (relation "measure (\<lambda>(btnode, p, t_len, s, s_len). s_len)") (auto dest: sk_next_shrinks)

declare cmp_names.simps [simp del]

definition fsw_hfsplus_cat_cmp :: "byte list \<Rightarrow> nat \<Rightarrow> HFSPlusCatalogKey \<Rightarrow> int option" where
  "fsw_hfsplus_cat_cmp btnode tk sk =
     (case key_parentID btnode tk of
        None \<Rightarrow> None
      | Some p \<Rightarrow>
          let ret = fsw_hfsplus_int_cmp p (parentID sk)
          in if ret \<noteq> 0 then Some ret
             else (case key_name_length btnode tk of
                     None \<Rightarrow> None
                   | Some t_len \<Rightarrow>
                       cmp_names btnode (tk + 8) t_len (unicode (nodeName sk)) (uni_length (nodeName sk))))"

section \<open>The order of catalog keys\<close>

definition ord_cmp :: "'a :: linorder \<Rightarrow> 'a \<Rightarrow> int" where
  "ord_cmp x y = (if x < y then -1 else if y < x then 1 else 0)"

lemma ord_cmp_simps [simp]:
  "ord_cmp x y < 0 \<longleftrightarrow> x < y" "0 < ord_cmp x y \<longleftrightarrow> y < x" "ord_cmp x y = 0 \<longleftrightarrow> x = y"
  by (auto simp: ord_cmp_def)

lemma int_cmp_ord: "fsw_hfsplus_int_cmp = ord_cmp"
  by (intro ext) (simp add: fsw_hfsplus_int_cmp_def ord_cmp_def)

text \<open>A key up to case: the parent id, then the folded characters of the name.\<close>

type_synonym fkey = "nat \<times> nat list"

abbreviation fold_name :: "nat list \<Rightarrow> nat list" where
  "fold_name \<equiv> map fsw_hfsplus_ucblatin_tolower"

fun disk_name :: "byte list \<Rightarrow> nat \<Rightarrow> nat \<Rightarrow> nat list option" where
  "disk_name btnode p 0 = Some []"
| "disk_name btnode p (Suc n) =
     (case be16 btnode p of
        None \<Rightarrow> None
      | Some x \<Rightarrow> map_option ((#) x) (disk_name btnode (p + 2) n))"

definition disk_key :: "byte list \<Rightarrow> nat \<Rightarrow> fkey option" where
  "disk_key btnode k =
     (case (key_parentID btnode k, key_name_length btnode k) of
        (Some p, Some n) \<Rightarrow> map_option (\<lambda>s. (p, fold_name s)) (disk_name btnode (k + 8) n)
      | _ \<Rightarrow> None)"

definition search_key :: "HFSPlusCatalogKey \<Rightarrow> fkey" where
  "search_key sk = (parentID sk, fold_name (take (uni_length (nodeName sk)) (unicode (nodeName sk))))"

definition sk_wf :: "HFSPlusCatalogKey \<Rightarrow> bool" where
  "sk_wf sk \<longleftrightarrow> uni_length (nodeName sk) \<le> length (unicode (nodeName sk))"

lemma ord_cmp_Cons:
  "ord_cmp (x # xs) (y # ys) = (if ord_cmp x y \<noteq> 0 then ord_cmp x y else ord_cmp xs ys)"
  by (auto simp: ord_cmp_def)

lemma ord_cmp_Pair:
  "ord_cmp (a, b) (c, d) = (if ord_cmp a c \<noteq> 0 then ord_cmp a c else ord_cmp b d)"
  by (auto simp: ord_cmp_def less_prod_def)

lemma cmp_names_ord:
  assumes "disk_name btnode p n = Some ts" and "m \<le> length s"
  shows "cmp_names btnode p n s m = Some (ord_cmp (fold_name ts) (fold_name (take m s)))"
  using assms
proof (induction m arbitrary: p n ts s)
  case 0
  show ?case
  proof (cases n)
    case 0
    with "0.prems" show ?thesis
      by (simp add: cmp_names.simps [of btnode p] fsw_hfsplus_int_cmp_def ord_cmp_def)
  next
    case (Suc n')
    with "0.prems" show ?thesis
      by (auto simp: cmp_names.simps [of btnode p] fsw_hfsplus_int_cmp_def ord_cmp_def
          split: option.splits)
  qed
next
  case (Suc m)
  then obtain y ys where s: "s = y # ys" by (cases s) auto
  show ?case
  proof (cases n)
    case 0
    with Suc.prems s show ?thesis
      by (simp add: cmp_names.simps [of btnode p] fsw_hfsplus_int_cmp_def ord_cmp_def)
  next
    case n: (Suc n')
    with Suc.prems obtain x xs where x: "be16 btnode p = Some x"
      "disk_name btnode (p + 2) n' = Some xs" "ts = x # xs" by (auto split: option.splits)
    have "cmp_names btnode (p + 2) n' ys m = Some (ord_cmp (fold_name xs) (fold_name (take m ys)))"
      using x(2) Suc.prems(2) s by (intro Suc.IH) auto
    with x n s show ?thesis
      by (simp add: cmp_names.simps [of btnode p "Suc n'"] int_cmp_ord ord_cmp_Cons Let_def)
  qed
qed

text \<open>Catalog keys are compared in the lexicographic order of their folded forms.\<close>

lemma cat_cmp_ord:
  assumes "disk_key btnode k = Some dk" and "sk_wf sk"
  shows "fsw_hfsplus_cat_cmp btnode k sk = Some (ord_cmp dk (search_key sk))"
  using assms cmp_names_ord
  by (auto simp: fsw_hfsplus_cat_cmp_def disk_key_def search_key_def sk_wf_def int_cmp_ord
      ord_cmp_Pair Let_def split: option.splits)

text \<open>
  The thread comparison looks for the record with the empty name: it agrees with the catalog
  order at the key with no characters.
\<close>

lemma thread_cmp_ord:
  assumes "disk_key btnode k = Some dk"
  shows "fsw_hfsplus_thread_cmp btnode k sk = Some (ord_cmp dk (parentID sk, []))"
proof -
  from assms obtain p n s where ps: "key_parentID btnode k = Some p" "key_name_length btnode k = Some n"
    "disk_name btnode (k + 8) n = Some s" "dk = (p, fold_name s)"
    by (auto simp: disk_key_def split: option.splits)
  then obtain w where w: "le16 btnode (k + 6) = Some w" "n = unat (FSW_SWAPVALUE_U16 w)"
    by (auto simp: key_name_length_def be16_def)
  have "unat w = 0 \<longleftrightarrow> n = 0" by (simp add: w(2) unat_eq_0)
  moreover have "s = [] \<longleftrightarrow> n = 0" using ps(3) by (cases n) (auto split: option.splits)
  moreover have "s \<noteq> [] \<Longrightarrow> [] < fold_name s" by (cases s) auto
  ultimately show ?thesis using ps w
    by (auto simp: fsw_hfsplus_thread_cmp_def int_cmp_ord ord_cmp_Pair ord_cmp_def)
qed

end
