(* ===== verification/HfsBTree.thy ===== *)
theory HfsBTree
  imports HfsKeys
begin

text \<open>
  The B-tree of \<^verbatim>\<open>OpenHfsPlus/fsw_hfsplus.c\<close>: \<open>fsw_hfsplus_bt_search\<close> with its binary
  search in a node, and \<open>fsw_hfsplus_btree_get_rec\<close>, which walks the leaf records of a
  directory. Both read nodes through an argument, the file reader of the B-tree file (locale
  \<open>node_reader\<close>), and compare through an argument, a comparison procedure (locale
  \<open>key_order\<close>). The search is shown to decide membership in the leaves of a stored
  tree, and the walk to return the next file or folder record of the directory.
\<close>

section \<open>Search within a node\<close>

definition trial_cmp ::
  "(byte list \<Rightarrow> nat \<Rightarrow> 'k \<Rightarrow> int option) \<Rightarrow> byte list \<Rightarrow> nat \<Rightarrow> 'k \<Rightarrow> nat \<Rightarrow> int option" where
  "trial_cmp k_cmp btnode ndsz sk rec =
     Option.bind (fsw_hfsplus_btnode_get_rec btnode ndsz rec) (\<lambda>tk. k_cmp btnode tk sk)"

text \<open>The binary search ends at a matching leaf record, or stops with the final \<open>hi\<close>.\<close>

datatype node_result = Found nat | Stopped nat

text \<open>
  The offset table of a node has fewer than \<open>2 ^ 15\<close> entries, so a trial record beyond
  that is outside the node.
\<close>

lemma get_rec_bound: "fsw_hfsplus_btnode_get_rec btnode ndsz rec \<noteq> None \<Longrightarrow> rec < 32767"
proof -
  assume "fsw_hfsplus_btnode_get_rec btnode ndsz rec \<noteq> None"
  then have "2 * (rec + 1) \<le> ndsz mod 2 ^ 16"
    by (auto simp: fsw_hfsplus_btnode_get_rec_def Let_def split: if_splits)
  also have "ndsz mod 2 ^ 16 < 65536" by simp
  finally show ?thesis by presburger
qed

lemma trial_cmp_bound: "trial_cmp k_cmp btnode ndsz sk rec = Some c \<Longrightarrow> rec < 32767"
  using get_rec_bound by (fastforce simp: trial_cmp_def bind_eq_Some_conv)

text \<open>
  \<open>lo\<close>, \<open>hi\<close> and \<open>rec\<close> are 16-bit: \<open>hi = rec - 1\<close> wraps at record 0. The
  loop ends all the same, because the next trial record is then outside the node.
\<close>

function bt_node_search ::
  "(byte list \<Rightarrow> nat \<Rightarrow> 'k \<Rightarrow> int option) \<Rightarrow> byte list \<Rightarrow> nat \<Rightarrow> 'k \<Rightarrow> nat \<Rightarrow> nat \<Rightarrow>
    node_result fsw_res" where
  "bt_node_search k_cmp btnode ndsz sk lo hi =
     (if lo \<le> hi then
        let rec = (lo + hi) div 2
        in case trial_cmp k_cmp btnode ndsz sk rec of
             None \<Rightarrow> Fault
           | Some cmp \<Rightarrow>
               if cmp < 0 then bt_node_search k_cmp btnode ndsz sk ((rec + 1) mod 2 ^ 16) hi
               else if 0 < cmp then bt_node_search k_cmp btnode ndsz sk lo (sub16 rec 1)
               else (case nd_kind btnode of
                       None \<Rightarrow> Fault
                     | Some kind \<Rightarrow> if kind \<noteq> kBTLeafNode then Ok (Stopped rec) else Ok (Found rec))
      else Ok (Stopped hi))"
  by pat_completeness auto
termination
proof (relation "measure (\<lambda>(k_cmp, btnode, ndsz, sk, lo, hi).
    if 32766 < (lo + hi) div 2 then 0 else 1 + (hi + 1 - lo))", goal_cases)
  case 1
  then show ?case by simp
next
  case (2 k_cmp btnode ndsz sk lo hi rec cmp)
  then show ?case using trial_cmp_bound [OF 2(3)] by auto
next
  case (3 k_cmp btnode ndsz sk lo hi rec cmp)
  then have r: "rec < 32767" by (intro trial_cmp_bound)
  show ?case
  proof (cases "rec = 0")
    case True
    with 3 have "lo = 0" "hi < 2" by auto
    with 3 True r show ?thesis by (simp add: sub16_0_1 del: One_nat_def)
  next
    case False
    with r have "sub16 rec 1 = rec - 1" by (simp add: sub16_small)
    moreover have "Suc (rec - 1) - lo < Suc hi - lo" using 3(1,2) False by auto
    ultimately show ?thesis using 3(2) r False by auto
  qed
qed

declare bt_node_search.simps [simp del]

section \<open>Search from the root\<close>

datatype node_step = Descend nat | Match nat

definition bt_visit ::
  "(byte list \<Rightarrow> nat \<Rightarrow> 'k \<Rightarrow> int option) \<Rightarrow> nat \<Rightarrow> 'k \<Rightarrow> byte list \<Rightarrow> node_step fsw_res" where
  "bt_visit k_cmp ndsz sk btnode =
     obind (of_load (fsw_hfsplus_btnode_get_rec btnode ndsz 0)) (\<lambda>r0.
     if sizeof_BTNodeDescriptor \<noteq> r0 then Err FSW_VOLUME_CORRUPTED else
     obind (of_load (nd_numRecords btnode)) (\<lambda>num.
     obind (bt_node_search k_cmp btnode ndsz sk 0 (sub16 num 1)) (\<lambda>r.
     case r of
       Found rec \<Rightarrow> Ok (Match rec)
     | Stopped hi \<Rightarrow>
         obind (of_load (nd_kind btnode)) (\<lambda>kind.
         if kind \<noteq> kBTIndexNode then Err FSW_NOT_FOUND else
         obind (of_load (fsw_hfsplus_btnode_get_rec btnode ndsz hi)) (\<lambda>tk.
         obind (of_load (fsw_hfsplus_bt_idx_get_child btnode tk)) (\<lambda>node. Ok (Descend node)))))))"

text \<open>
  The descent. The child pointers on disk decide whether it ends: a cycle of index nodes is
  followed for ever, so the number of nodes visited is bounded by fuel. The result is the
  node left in the caller's buffer and the record number.
\<close>

fun bt_search_loop ::
  "nat \<Rightarrow> ('s \<Rightarrow> nat \<Rightarrow> nat \<Rightarrow> byte list fsw_res \<times> 's) \<Rightarrow> nat \<Rightarrow>
    (byte list \<Rightarrow> nat \<Rightarrow> 'k \<Rightarrow> int option) \<Rightarrow> 'k \<Rightarrow> 's \<Rightarrow> nat \<Rightarrow> (byte list \<times> nat) fsw_res \<times> 's" where
  "bt_search_loop 0 rd ndsz k_cmp sk s node = (Diverge, s)"
| "bt_search_loop (Suc fuel) rd ndsz k_cmp sk s node =
     (case rd s (node * ndsz) ndsz of
        (Ok btnode, s1) \<Rightarrow>
          (case bt_visit k_cmp ndsz sk btnode of
             Ok (Match rec) \<Rightarrow> (Ok (btnode, rec), s1)
           | Ok (Descend child) \<Rightarrow> bt_search_loop fuel rd ndsz k_cmp sk s1 child
           | Err st \<Rightarrow> (Err st, s1)
           | Fault \<Rightarrow> (Fault, s1)
           | Diverge \<Rightarrow> (Diverge, s1))
      | (Err st, s1) \<Rightarrow> (Err st, s1)
      | (Fault, s1) \<Rightarrow> (Fault, s1)
      | (Diverge, s1) \<Rightarrow> (Diverge, s1))"

definition fsw_hfsplus_bt_search ::
  "nat \<Rightarrow> ('s \<Rightarrow> nat \<Rightarrow> nat \<Rightarrow> byte list fsw_res \<times> 's) \<Rightarrow> fsw_hfsplus_dnode \<Rightarrow> 'k \<Rightarrow>
    (byte list \<Rightarrow> nat \<Rightarrow> 'k \<Rightarrow> int option) \<Rightarrow> 's \<Rightarrow> (byte list \<times> nat) fsw_res \<times> 's" where
  "fsw_hfsplus_bt_search fuel rd bt sk k_cmp s =
     bt_search_loop fuel rd (bt_ndsz bt) k_cmp sk s (bt_root bt)"

section \<open>Walking the records of a directory\<close>

definition kHFSPlusFolderRecord :: nat where "kHFSPlusFolderRecord = 1"
definition kHFSPlusFileRecord :: nat where "kHFSPlusFileRecord = 2"
definition kHFSPlusFolderThreadRecord :: nat where "kHFSPlusFolderThreadRecord = 3"
definition kHFSPlusFileThreadRecord :: nat where "kHFSPlusFileThreadRecord = 4"

text \<open>
  The inner loop over the records of one node: it ends at a wanted record, at a record of
  another directory, or past the last record. Each result carries \<open>*rec_skip\<close>.
\<close>

datatype scan_result = Hit nat nat | Other_parent nat | Exhausted nat nat

function get_rec_scan ::
  "byte list \<Rightarrow> nat \<Rightarrow> nat \<Rightarrow> nat \<Rightarrow> nat \<Rightarrow> nat \<Rightarrow> nat \<Rightarrow> scan_result fsw_res" where
  "get_rec_scan btnode ndsz pid num_records i counter rec_skip =
     (if i < num_records then
        obind (of_load (fsw_hfsplus_btnode_get_rec btnode ndsz i)) (\<lambda>tk.
        obind (of_load (key_parentID btnode tk)) (\<lambda>p.
        if p \<noteq> pid then Ok (Other_parent rec_skip)
        else if counter \<noteq> rec_skip then
          get_rec_scan btnode ndsz pid num_records (i + 1) (add32 counter 1) rec_skip
        else
          obind (of_load (Option.bind (fsw_hfsplus_bt_rec_skip_key btnode tk) (be16 btnode))) (\<lambda>ty.
          let rec_skip' = (rec_skip + 1) mod 2 ^ 64
          in if ty = kHFSPlusFileRecord \<or> ty = kHFSPlusFolderRecord then Ok (Hit i rec_skip')
             else get_rec_scan btnode ndsz pid num_records (i + 1) (add32 counter 1) rec_skip')))
      else Ok (Exhausted counter rec_skip))"
  by pat_completeness auto
termination
  by (relation "measure (\<lambda>(btnode, ndsz, pid, num_records, i, counter, rec_skip). num_records - i)")
    auto

declare get_rec_scan.simps [simp del]

text \<open>
  The outer loop follows the forward links of the leaves. The result is the status (with the
  buffer and \<open>*rnum\<close> on success), the final \<open>*rec_skip\<close> and the state.
\<close>

fun get_rec_loop ::
  "nat \<Rightarrow> ('s \<Rightarrow> nat \<Rightarrow> nat \<Rightarrow> byte list fsw_res \<times> 's) \<Rightarrow> nat \<Rightarrow> nat \<Rightarrow> 's \<Rightarrow> byte list \<Rightarrow> nat \<Rightarrow>
    nat \<Rightarrow> nat \<Rightarrow> (byte list \<times> nat) fsw_res \<times> nat \<times> 's" where
  "get_rec_loop 0 rd ndsz pid s btnode rnum counter rec_skip = (Diverge, rec_skip, s)"
| "get_rec_loop (Suc fuel) rd ndsz pid s btnode rnum counter rec_skip =
     (case obind (of_load (nd_numRecords btnode)) (\<lambda>num.
             get_rec_scan btnode ndsz pid num rnum counter rec_skip) of
        Ok (Hit i skip) \<Rightarrow> (Ok (btnode, i), skip, s)
      | Ok (Other_parent skip) \<Rightarrow> (Err FSW_NOT_FOUND, skip, s)
      | Ok (Exhausted cnt skip) \<Rightarrow>
          (case nd_fLink btnode of
             None \<Rightarrow> (Fault, skip, s)
           | Some btnode_next \<Rightarrow>
               if btnode_next = 0 then (Err FSW_NOT_FOUND, skip, s)
               else (case rd s (btnode_next * ndsz) ndsz of
                       (Ok btnode', s1) \<Rightarrow> get_rec_loop fuel rd ndsz pid s1 btnode' 0 cnt skip
                     | (Err st, s1) \<Rightarrow> (Err st, skip, s1)
                     | (Fault, s1) \<Rightarrow> (Fault, skip, s1)
                     | (Diverge, s1) \<Rightarrow> (Diverge, skip, s1)))
      | Err st \<Rightarrow> (Err st, rec_skip, s)
      | Fault \<Rightarrow> (Fault, rec_skip, s)
      | Diverge \<Rightarrow> (Diverge, rec_skip, s))"

definition fsw_hfsplus_btree_get_rec ::
  "nat \<Rightarrow> ('s \<Rightarrow> nat \<Rightarrow> nat \<Rightarrow> byte list fsw_res \<times> 's) \<Rightarrow> fsw_hfsplus_dnode \<Rightarrow> nat \<Rightarrow> 's \<Rightarrow>
    byte list \<Rightarrow> nat \<Rightarrow> nat \<Rightarrow> (byte list \<times> nat) fsw_res \<times> nat \<times> 's" where
  "fsw_hfsplus_btree_get_rec fuel rd bt pid s btnode rnum rec_skip =
     get_rec_loop fuel rd (bt_ndsz bt) pid s btnode rnum 0 rec_skip"

section \<open>Comparison procedures as orders\<close>

text \<open>
  What the search relies on: on records with a readable key, the comparison procedure
  compares that key with the one \<open>target\<close> assigns to the search key.
\<close>

definition get_key ::
  "(byte list \<Rightarrow> nat \<Rightarrow> 'a option) \<Rightarrow> byte list \<Rightarrow> nat \<Rightarrow> nat \<Rightarrow> 'a option" where
  "get_key key_at btnode ndsz i = Option.bind (fsw_hfsplus_btnode_get_rec btnode ndsz i) (key_at btnode)"

text \<open>A node whose records 0, 1, ... have the strictly increasing keys \<open>ks\<close>.\<close>

definition node_keys ::
  "(byte list \<Rightarrow> nat \<Rightarrow> ('a :: linorder) option) \<Rightarrow> byte list \<Rightarrow> nat \<Rightarrow> 'a list \<Rightarrow> bool" where
  "node_keys key_at btnode ndsz ks \<longleftrightarrow>
     fsw_hfsplus_btnode_get_rec btnode ndsz 0 = Some sizeof_BTNodeDescriptor \<and>
     nd_numRecords btnode = Some (length ks) \<and> ks \<noteq> [] \<and> sorted_wrt (<) ks \<and>
     (\<forall>i < length ks. get_key key_at btnode ndsz i = Some (ks ! i))"

definition rec_child :: "byte list \<Rightarrow> nat \<Rightarrow> nat \<Rightarrow> nat option" where
  "rec_child btnode ndsz i =
     Option.bind (fsw_hfsplus_btnode_get_rec btnode ndsz i) (fsw_hfsplus_bt_idx_get_child btnode)"

lemma of_load_bind: "of_load (Option.bind m f) = obind (of_load m) (\<lambda>x. of_load (f x))"
  by (cases m) auto

text \<open>The outcome of a search for \<open>t\<close> in a node with keys \<open>ks\<close>.\<close>

definition node_search_spec :: "int \<Rightarrow> ('a :: linorder) list \<Rightarrow> 'a \<Rightarrow> node_result fsw_res" where
  "node_search_spec kind ks t =
     (let p = first_idx (\<lambda>k. t \<le> k) ks
      in if p < length ks \<and> ks ! p = t
         then Ok (if kind = kBTLeafNode then Found p else Stopped p)
         else if p = 0 then Fault else Ok (Stopped (p - 1)))"

locale key_order =
  fixes k_cmp :: "byte list \<Rightarrow> nat \<Rightarrow> 'k \<Rightarrow> int option"
    and key_at :: "byte list \<Rightarrow> nat \<Rightarrow> ('a :: linorder) option"
    and target :: "'k \<Rightarrow> 'a"
    and wf_key :: "'k \<Rightarrow> bool"
  assumes cmp_ord: "key_at btnode off = Some x \<Longrightarrow> wf_key sk \<Longrightarrow>
      k_cmp btnode off sk = Some (ord_cmp x (target sk))"
begin

lemma trial_cmp_key:
  assumes "get_key key_at btnode ndsz i = Some x" and "wf_key sk"
  shows "trial_cmp k_cmp btnode ndsz sk i = Some (ord_cmp x (target sk))"
  using assms cmp_ord by (auto simp: get_key_def trial_cmp_def bind_eq_Some_conv)

lemma search_wrapped: "bt_node_search k_cmp btnode ndsz sk 0 65535 = Fault"
proof -
  have "trial_cmp k_cmp btnode ndsz sk 32767 = None" using trial_cmp_bound by (metis less_irrefl not_None_eq)
  then show ?thesis by (simp add: bt_node_search.simps [of _ _ _ _ 0])
qed

lemma node_search:
  assumes nk: "node_keys key_at btnode ndsz ks" and kind: "nd_kind btnode = Some kind"
    and wf: "wf_key sk"
    and "lo \<le> Suc hi" "hi < length ks"
    and "\<And>j. j < lo \<Longrightarrow> ks ! j < target sk"
    and "\<And>j. hi < j \<Longrightarrow> j < length ks \<Longrightarrow> target sk < ks ! j"
  shows "bt_node_search k_cmp btnode ndsz sk lo hi = node_search_spec kind ks (target sk)"
  using assms(4-)
proof (induction "Suc hi - lo" arbitrary: lo hi rule: less_induct)
  case less
  note below = less.prems(3) and above = less.prems(4)
  define p where "p = first_idx (\<lambda>k. target sk \<le> k) ks"
  have mono: "i < j \<Longrightarrow> j < length ks \<Longrightarrow> ks ! i < ks ! j" for i j
    using nk by (simp add: node_keys_def sorted_wrt_iff_nth_less)
  show ?case
  proof (cases "lo \<le> hi")
    case False
    with less.prems(1) have lo: "lo = Suc hi" by simp
    have "p = lo"
    proof (cases "lo < length ks")
      case True
      then show ?thesis unfolding p_def
        using above [of lo] below lo by (intro first_idx_unique) (auto simp: not_le)
    next
      case False
      have "\<not> target sk \<le> k" if "k \<in> set ks" for k
        using that below False by (metis in_set_conv_nth leD not_less order_less_le_trans)
      then have "\<not> p < length ks" unfolding p_def first_idx_less_iff by blast
      then show ?thesis using False lo less.prems(2) first_idx_le [of _ ks] unfolding p_def
        by (metis Suc_leI le_antisym not_le)
    qed
    with lo above [of lo] False show ?thesis
      by (auto simp: bt_node_search.simps [of _ _ _ _ "Suc hi"] node_search_spec_def p_def [symmetric] Let_def)
  next
    case True
    define r where "r = (lo + hi) div 2"
    have r: "lo \<le> r" "r \<le> hi" "r < length ks" using True less.prems(2) by (auto simp: r_def)
    from nk r have key: "get_key key_at btnode ndsz r = Some (ks ! r)" by (simp add: node_keys_def)
    note tc = trial_cmp_key [OF key wf]
    have rb: "r < 32767" using trial_cmp_bound [OF tc] .
    note step = bt_node_search.simps [of k_cmp btnode ndsz sk lo hi, folded r_def, unfolded Let_def,
        folded r_def, unfolded tc, simplified]
    consider "ks ! r < target sk" | "target sk < ks ! r" | "ks ! r = target sk" by fastforce
    then show ?thesis
    proof cases
      case 1
      have bl: "ks ! j < target sk" if "j < Suc r" for j
        using that 1 mono [of j r] r by (cases "j = r") auto
      have "bt_node_search k_cmp btnode ndsz sk (Suc r) hi = node_search_spec kind ks (target sk)"
        by (rule less.hyps) (use r less.prems(2) bl above in auto)
      with 1 True rb show ?thesis using step by simp
    next
      case 2
      have ab: "target sk < ks ! j" if "r \<le> j" "j < length ks" for j
        using that 2 mono [of r j] by (cases "j = r") auto
      show ?thesis
      proof (cases "r = 0")
        case True
        then have "p = 0" unfolding p_def using ab r by (intro first_idx_unique) (auto simp: less_imp_le)
        moreover have "lo = 0" using True r by simp
        moreover have "\<not> ks ! 0 < target sk" "ks ! 0 \<noteq> target sk" using 2 True by auto
        ultimately show ?thesis using step 2 True search_wrapped ab [of 0] r
          by (simp add: sub16_0_1 node_search_spec_def p_def [symmetric] del: One_nat_def)
      next
        case False
        then have s16: "sub16 r 1 = r - 1" using rb by (simp add: sub16_small)
        have "bt_node_search k_cmp btnode ndsz sk lo (r - 1) = node_search_spec kind ks (target sk)"
          by (rule less.hyps) (use r False below ab in auto)
        moreover have "\<not> ks ! r < target sk" using 2 by auto
        ultimately show ?thesis using step 2 \<open>lo \<le> hi\<close> s16 by simp
      qed
    next
      case 3
      have "p = r" unfolding p_def
        using 3 r mono [of _ r] by (intro first_idx_unique) (auto simp: not_le)
      with 3 r True kind show ?thesis using step
        by (simp add: node_search_spec_def p_def [symmetric])
    qed
  qed
qed

lemma visit:
  assumes nk: "node_keys key_at btnode ndsz ks" and kind: "nd_kind btnode = Some kind" and wf: "wf_key sk"
  shows "bt_visit k_cmp ndsz sk btnode =
    obind (node_search_spec kind ks (target sk)) (\<lambda>r. case r of
        Found rec \<Rightarrow> Ok (Match rec)
      | Stopped hi \<Rightarrow> if kind \<noteq> kBTIndexNode then Err FSW_NOT_FOUND
          else obind (of_load (rec_child btnode ndsz hi)) (\<lambda>n. Ok (Descend n)))"
proof -
  from nk have n: "nd_numRecords btnode = Some (length ks)" "0 < length ks"
    and r0: "fsw_hfsplus_btnode_get_rec btnode ndsz 0 = Some sizeof_BTNodeDescriptor"
    by (auto simp: node_keys_def)
  have "length ks < 2 ^ 16" using n(1) be16_bound by (auto simp: nd_numRecords_def)
  then have s16: "sub16 (length ks) 1 = length ks - 1" using n(2) by (intro sub16_small) (auto simp: Suc_le_eq)
  have "bt_node_search k_cmp btnode ndsz sk 0 (length ks - 1) = node_search_spec kind ks (target sk)"
    by (rule node_search [OF nk kind wf]) (use n(2) in auto)
  then show ?thesis using n(1) r0 kind
    by (auto simp: bt_visit_def s16 rec_child_def of_load_bind obind_assoc intro!: arg_cong2 [where f = obind]
        simp del: One_nat_def split: node_result.split)
qed

end

section \<open>Stored trees\<close>

text \<open>
  A B-tree with the node numbers it is stored at. An index node lists its children with the
  keys of their records. \<open>leaf_recs\<close> is the sequence of leaf records: node, record number
  and key.
\<close>

datatype 'a bt = Leaf nat "'a list" | Index nat "('a \<times> 'a bt) list"

fun node_no :: "'a bt \<Rightarrow> nat" where
  "node_no (Leaf no ks) = no"
| "node_no (Index no cs) = no"

fun first_key :: "'a bt \<Rightarrow> 'a" where
  "first_key (Leaf no ks) = hd ks"
| "first_key (Index no cs) = fst (hd cs)"

fun height :: "'a bt \<Rightarrow> nat" where
  "height (Leaf no ks) = 0"
| "height (Index no cs) = Suc (Max (insert 0 (set (map (\<lambda>c. height (snd c)) cs))))"

fun node_nos :: "'a bt \<Rightarrow> nat list" where
  "node_nos (Leaf no ks) = [no]"
| "node_nos (Index no cs) = no # concat (map (\<lambda>c. node_nos (snd c)) cs)"

fun leaf_recs :: "'a bt \<Rightarrow> (nat \<times> nat \<times> 'a) list" where
  "leaf_recs (Leaf no ks) = map (\<lambda>i. (no, i, ks ! i)) [0..<length ks]"
| "leaf_recs (Index no cs) = concat (map (\<lambda>c. leaf_recs (snd c)) cs)"

definition leaf_keys :: "'a bt \<Rightarrow> 'a list" where
  "leaf_keys t = map (snd \<circ> snd) (leaf_recs t)"

text \<open>
  \<open>stored key_at img ndsz t\<close>: the node images hold the tree, and the key of each index
  record is the first key of the child it points to.
\<close>

fun stored :: "(byte list \<Rightarrow> nat \<Rightarrow> ('a :: linorder) option) \<Rightarrow> (nat \<Rightarrow> byte list) \<Rightarrow> nat \<Rightarrow> 'a bt \<Rightarrow> bool" where
  "stored key_at img ndsz (Leaf no ks) \<longleftrightarrow>
     node_keys key_at (img no) ndsz ks \<and> nd_kind (img no) = Some kBTLeafNode"
| "stored key_at img ndsz (Index no cs) \<longleftrightarrow>
     node_keys key_at (img no) ndsz (map fst cs) \<and> nd_kind (img no) = Some kBTIndexNode \<and>
     (\<forall>i < length cs. rec_child (img no) ndsz i = Some (node_no (snd (cs ! i)))) \<and>
     (\<forall>c \<in> set cs. fst c = first_key (snd c) \<and> stored key_at img ndsz (snd c))"

definition tree_ok :: "(byte list \<Rightarrow> nat \<Rightarrow> ('a :: linorder) option) \<Rightarrow> (nat \<Rightarrow> byte list) \<Rightarrow> nat \<Rightarrow> 'a bt \<Rightarrow> bool" where
  "tree_ok key_at img ndsz t \<longleftrightarrow> stored key_at img ndsz t \<and> sorted_wrt (<) (leaf_keys t)"

lemma leaf_keys_simps [simp]:
  "leaf_keys (Leaf no ks) = ks"
  "leaf_keys (Index no cs) = concat (map (\<lambda>c. leaf_keys (snd c)) cs)"
  by (auto simp: leaf_keys_def map_concat comp_def intro: map_nth)

lemma leaf_keys_iff: "x \<in> set (leaf_keys t) \<longleftrightarrow> (\<exists>no i. (no, i, x) \<in> set (leaf_recs t))"
  by (force simp: leaf_keys_def)

lemma first_key_hd: "stored key_at img ndsz t \<Longrightarrow> leaf_keys t \<noteq> [] \<and> first_key t = hd (leaf_keys t)"
proof (induction t)
  case (Leaf no ks)
  then show ?case by (simp add: node_keys_def)
next
  case (Index no cs)
  then obtain c cs' where cs: "cs = c # cs'" by (cases cs) (auto simp: node_keys_def)
  with Index.prems have "stored key_at img ndsz (snd c)" "fst c = first_key (snd c)" by auto
  moreover have "snd c \<in> Basic_BNFs.snds c" by (simp add: snds.simps) 
  ultimately show ?case using Index.IH [of c "snd c"] cs by simp
qed

text \<open>Where the binary search stops, for a key not below the first one.\<close>

lemma spec_cases:
  fixes t :: "'a :: linorder"
  assumes "sorted_wrt (<) ks" and "ks \<noteq> []"
  obtains (below) "t < hd ks" "\<And>kind. node_search_spec kind ks t = Fault"
  | (hit) p where "p < length ks" "ks ! p = t" "hd ks \<le> t"
      "\<And>i. p < i \<Longrightarrow> i < length ks \<Longrightarrow> t < ks ! i"
      "\<And>kind. node_search_spec kind ks t = Ok (if kind = kBTLeafNode then Found p else Stopped p)"
  | (miss) p where "p < length ks" "ks ! p < t" "t \<notin> set ks" "hd ks \<le> t"
      "\<And>i. p < i \<Longrightarrow> i < length ks \<Longrightarrow> t < ks ! i"
      "\<And>kind. node_search_spec kind ks t = Ok (Stopped p)"
proof -
  let ?p = "first_idx (\<lambda>k. t \<le> k) ks"
  have mono: "i < j \<Longrightarrow> j < length ks \<Longrightarrow> ks ! i < ks ! j" for i j
    using assms(1) by (simp add: sorted_wrt_iff_nth_less)
  have bef: "j < ?p \<Longrightarrow> ks ! j < t" for j using first_idx_before [of j "\<lambda>k. t \<le> k" ks] by (simp add: not_le)
  have hd: "hd ks = ks ! 0" using assms(2) by (rule hd_conv_nth)
  have aft: "t < ks ! i" if "?p < i" "i < length ks" for i
    using first_idx_hit [of "\<lambda>k. t \<le> k" ks] mono [OF that] that by fastforce
  show thesis
  proof (cases "?p < length ks \<and> ks ! ?p = t")
    case True
    moreover have "hd ks \<le> t" using True mono [of 0 ?p] hd by (cases "?p = 0") auto
    ultimately show thesis using hit [of ?p] aft by (auto simp: node_search_spec_def)
  next
    case False
    have ge: "t < ks ! i" if "?p \<le> i" "i < length ks" for i
      using that aft [of i] first_idx_hit [of "\<lambda>k. t \<le> k" ks] False by (cases "?p = i") auto
    show thesis
    proof (cases "?p = 0")
      case True
      with False ge [of 0] hd assms(2) below show thesis by (auto simp: node_search_spec_def)
    next
      case False': False
      have pl: "?p - 1 < length ks" using False' first_idx_le [of "\<lambda>k. t \<le> k" ks] by linarith
      have "t \<notin> set ks"
      proof
        assume "t \<in> set ks"
        then obtain j where "j < length ks" "ks ! j = t" by (auto simp: in_set_conv_nth)
        then show False using bef [of j] ge [of j] by (cases "j < ?p") auto
      qed
      moreover have "ks ! (?p - 1) < t" using bef False' by simp
      moreover have "hd ks \<le> t" using bef [of 0] False' hd by simp
      ultimately show thesis using miss [of "?p - 1"] pl ge False False'
        by (auto simp: node_search_spec_def Let_def)
    qed
  qed
qed

lemma concat_map_sorted:
  "sorted_wrt P (concat (map f xs)) \<Longrightarrow> x \<in> set xs \<Longrightarrow> sorted_wrt P (f x)"
  by (induction xs) (auto simp: sorted_wrt_append)

section \<open>Search in a stored tree\<close>

text \<open>
  The outcome of a lookup of \<open>x\<close>: the leaf record with that key, or not found. Below the
  first key of the tree the search leaves the node buffer.
\<close>

definition lookup_spec :: "(nat \<Rightarrow> byte list) \<Rightarrow> ('a :: linorder) bt \<Rightarrow> 'a \<Rightarrow> (byte list \<times> nat) fsw_res \<Rightarrow> bool" where
  "lookup_spec img t x r \<longleftrightarrow>
     (\<exists>no i. (no, i, x) \<in> set (leaf_recs t) \<and> r = Ok (img no, i)) \<or>
     (x \<notin> set (leaf_keys t) \<and> r = (if x < first_key t then Fault else Err FSW_NOT_FOUND))"

text \<open>
  A reader of nodes: a valid node is read whole, or an error status is returned, and the
  state keeps its invariant.
\<close>

locale node_reader =
  fixes rd :: "'s \<Rightarrow> nat \<Rightarrow> nat \<Rightarrow> byte list fsw_res \<times> 's"
    and inv :: "'s \<Rightarrow> bool"
    and img :: "nat \<Rightarrow> byte list"
    and ndsz :: nat
    and valid :: "nat \<Rightarrow> bool"
  assumes rd_node: "inv s \<Longrightarrow> valid no \<Longrightarrow> rd s (no * ndsz) ndsz = (r, s') \<Longrightarrow>
      inv s' \<and> (r = Ok (img no) \<or> (\<exists>st. r = Err st))"
begin

definition rd_error :: "fsw_status \<Rightarrow> bool" where
  "rd_error st \<longleftrightarrow> (\<exists>s no s'. inv s \<and> valid no \<and> rd s (no * ndsz) ndsz = (Err st, s'))"

end

locale node_reader_total = node_reader +
  assumes rd_total: "inv s \<Longrightarrow> valid no \<Longrightarrow> \<exists>s'. rd s (no * ndsz) ndsz = (Ok (img no), s')"
begin

lemma no_rd_error: "\<not> rd_error st"
  using rd_total by (fastforce simp: rd_error_def)

end

text \<open>In an index node, only the child the search descends to can hold the key.\<close>

lemma child_holds:
  fixes x :: "'a :: linorder"
  assumes st: "\<forall>c \<in> set cs. fst c = first_key (snd c) \<and> stored key_at img ndsz (snd c)"
    and so: "sorted_wrt (<) (leaf_keys (Index no cs))"
    and p: "p < length cs" "fst (cs ! p) \<le> x"
    and above: "\<And>i. p < i \<Longrightarrow> i < length cs \<Longrightarrow> x < fst (cs ! i)"
    and x: "c \<in> set cs" "x \<in> set (leaf_keys (snd c))"
  shows "x \<in> set (leaf_keys (snd (cs ! p)))"
proof -
  from x obtain j where j: "j < length cs" "c = cs ! j" by (auto simp: in_set_conv_nth)
  have fk: "fst (cs ! i) = hd (leaf_keys (snd (cs ! i)))" "leaf_keys (snd (cs ! i)) \<noteq> []"
    if "i < length cs" for i using st that first_key_hd by (metis nth_mem)+
  have so': "sorted_wrt (<) (concat (map (\<lambda>c. leaf_keys (snd c)) cs))" using so by simp
  consider "j < p" | "j = p" | "p < j" by linarith
  then show ?thesis
  proof cases
    case 1
    have "a < b" if "a \<in> set (leaf_keys (snd (cs ! j)))" "b \<in> set (leaf_keys (snd (cs ! p)))" for a b
    proof -
      have "cs = take p cs @ cs ! p # drop (Suc p) cs" using p(1) by (rule id_take_nth_drop)
      then have "concat (map (\<lambda>c. leaf_keys (snd c)) cs) = concat (map (\<lambda>c. leaf_keys (snd c)) (take p cs)) @
          leaf_keys (snd (cs ! p)) @ concat (map (\<lambda>c. leaf_keys (snd c)) (drop (Suc p) cs))"
        by (metis concat.simps(2) concat_append list.simps(9) map_append)
      moreover have "cs ! j \<in> set (take p cs)" using 1 p(1) by (auto simp: in_set_conv_nth)
      ultimately show ?thesis using so' that by (fastforce simp: sorted_wrt_append)
    qed
    moreover have "hd (leaf_keys (snd (cs ! p))) \<in> set (leaf_keys (snd (cs ! p)))" using fk(2) [OF p(1)] by simp
    ultimately have "x < fst (cs ! p)" using x j fk(1) [OF p(1)] by metis
    with p(2) show ?thesis by simp
  next
    case 2
    with j x show ?thesis by simp
  next
    case 3
    then have "x < fst (cs ! j)" using above j by simp
    moreover have "fst (cs ! j) \<le> x"
    proof -
      have "sorted_wrt (<) (leaf_keys (snd (cs ! j)))"
        using so' j(1) by (metis (mono_tags, lifting) concat_map_sorted nth_mem)
      then show ?thesis using fk [OF j(1)] x(2) j(2)
        by (cases "leaf_keys (snd (cs ! j))") (auto simp: less_imp_le)
    qed
    ultimately show ?thesis by simp
  qed
qed

lemma lookup_descend:
  assumes st: "\<forall>c \<in> set cs. fst c = first_key (snd c) \<and> stored key_at img ndsz (snd c)"
    and so: "sorted_wrt (<) (leaf_keys (Index no cs))"
    and p: "p < length cs" "fst (cs ! p) \<le> x" "first_key (Index no cs) \<le> x"
      "\<And>i. p < i \<Longrightarrow> i < length cs \<Longrightarrow> x < fst (cs ! i)"
    and ls: "lookup_spec img (snd (cs ! p)) x r"
  shows "lookup_spec img (Index no cs) x r"
proof -
  have c: "cs ! p \<in> set cs" using p(1) by simp
  have "\<not> x < first_key (snd (cs ! p))" using p(2) st c by auto
  moreover have "\<not> x < first_key (Index no cs)" using p(3) by (simp only: not_less)
  moreover have "x \<in> set (leaf_keys (Index no cs)) \<Longrightarrow> x \<in> set (leaf_keys (snd (cs ! p)))"
    using child_holds [OF st so p(1,2)] p(4) by auto
  moreover have "set (leaf_recs (snd (cs ! p))) \<subseteq> set (leaf_recs (Index no cs))" using c by auto
  ultimately show ?thesis using ls unfolding lookup_spec_def by (metis (no_types, lifting) subsetD)
qed

lemma below_first:
  assumes "stored key_at img ndsz t" and "sorted_wrt (<) (leaf_keys t)" and "x < first_key t"
  shows "x \<notin> set (leaf_keys t)"
  using first_key_hd [OF assms(1)] assms(2,3) by (cases "leaf_keys t") (auto dest: less_asym)

locale tree_search = key_order k_cmp key_at target wf_key + node_reader rd inv img ndsz valid
  for k_cmp :: "byte list \<Rightarrow> nat \<Rightarrow> 'k \<Rightarrow> int option"
    and key_at :: "byte list \<Rightarrow> nat \<Rightarrow> ('a :: linorder) option"
    and target :: "'k \<Rightarrow> 'a" and wf_key :: "'k \<Rightarrow> bool"
    and rd :: "'s \<Rightarrow> nat \<Rightarrow> nat \<Rightarrow> byte list fsw_res \<times> 's" and inv :: "'s \<Rightarrow> bool"
    and img :: "nat \<Rightarrow> byte list" and ndsz :: nat and valid :: "nat \<Rightarrow> bool"
begin

text \<open>One round at a node with keys \<open>ks\<close>: a read error, or the visit of its image.\<close>

lemma loop_step:
  assumes "inv s" and "valid no" and "bt_search_loop (Suc f) rd ndsz k_cmp sk s no = (r, s')"
  obtains (err) st where "inv s'" "rd_error st" "r = Err st"
  | (step) s1 where "inv s1" "(r, s') = (case bt_visit k_cmp ndsz sk (img no) of
        Ok (Match rec) \<Rightarrow> (Ok (img no, rec), s1)
      | Ok (Descend child) \<Rightarrow> bt_search_loop f rd ndsz k_cmp sk s1 child
      | Err st \<Rightarrow> (Err st, s1) | Fault \<Rightarrow> (Fault, s1) | Diverge \<Rightarrow> (Diverge, s1))"
proof -
  obtain rr s1 where rr: "rd s (no * ndsz) ndsz = (rr, s1)" by fastforce
  then have "inv s1 \<and> (rr = Ok (img no) \<or> (\<exists>st. rr = Err st))" by (rule rd_node [OF assms(1,2)])
  then consider "inv s1" "rr = Ok (img no)" | st where "inv s1" "rr = Err st" by blast
  then show thesis
  proof cases
    case 1
    with assms(3) rr show thesis by (intro step [of s1]) simp_all
  next
    case (2 st)
    with assms rr have "rd_error st" by (auto simp: rd_error_def)
    with 2 assms(3) rr show thesis by (intro err [of st]) simp_all
  qed
qed

lemma search_leaf:
  assumes ok: "tree_ok key_at img ndsz (Leaf no ks)" and wf: "wf_key sk" and "inv s" and "valid no"
    and eq: "bt_search_loop (Suc f) rd ndsz k_cmp sk s no = (r, s')"
  shows "inv s' \<and> (lookup_spec img (Leaf no ks) (target sk) r \<or> (\<exists>st. rd_error st \<and> r = Err st))"
  using assms(3,4) eq
proof (cases rule: loop_step)
  case (step s1)
  have nk: "node_keys key_at (img no) ndsz ks" "nd_kind (img no) = Some kBTLeafNode"
    and so: "sorted_wrt (<) ks" "ks \<noteq> []"
    using ok by (auto simp: tree_ok_def node_keys_def)
  note vs = visit [OF nk wf]
  from so show ?thesis
  proof (cases rule: spec_cases [where t = "target sk"])
    case below
    with vs step below_first [of key_at img ndsz "Leaf no ks"] ok show ?thesis
      by (simp add: lookup_spec_def tree_ok_def)
  next
    case (hit p)
    have "(no, p, target sk) \<in> set (leaf_recs (Leaf no ks))" using hit(1,2) by auto
    then show ?thesis using hit(5) vs step by (auto simp: lookup_spec_def)
  next
    case (miss p)
    with vs step leD [OF miss(4)] show ?thesis
      by (simp add: lookup_spec_def kBTLeafNode_def kBTIndexNode_def)
  qed
qed blast

text \<open>An index node: out of the buffer below its first key, otherwise on to the child.\<close>

lemma search_index:
  assumes ok: "tree_ok key_at img ndsz (Index no cs)" and wf: "wf_key sk" and "inv s" and "valid no"
    and eq: "bt_search_loop (Suc f) rd ndsz k_cmp sk s no = (r, s')"
  obtains (final) "inv s'" "lookup_spec img (Index no cs) (target sk) r \<or> (\<exists>st. rd_error st \<and> r = Err st)"
  | (child) c s1 where "c \<in> set cs" "inv s1"
      "bt_search_loop f rd ndsz k_cmp sk s1 (node_no (snd c)) = (r, s')"
      "lookup_spec img (snd c) (target sk) r \<Longrightarrow> lookup_spec img (Index no cs) (target sk) r"
  using assms(3,4) eq
proof (cases rule: loop_step)
  case (step s1)
  have nk: "node_keys key_at (img no) ndsz (map fst cs)" "nd_kind (img no) = Some kBTIndexNode"
    and ch: "\<forall>i < length cs. rec_child (img no) ndsz i = Some (node_no (snd (cs ! i)))"
    and st: "\<forall>c \<in> set cs. fst c = first_key (snd c) \<and> stored key_at img ndsz (snd c)"
    and so: "sorted_wrt (<) (map fst cs)" "map fst cs \<noteq> []"
    and lk: "sorted_wrt (<) (leaf_keys (Index no cs))"
    using ok by (auto simp: tree_ok_def node_keys_def)
  note vs = visit [OF nk wf]
  have fk: "first_key (Index no cs) = hd (map fst cs)" using so(2) by (cases cs) auto
  have desc: thesis if p: "p < length cs" "fst (cs ! p) \<le> target sk" "hd (map fst cs) \<le> target sk"
      "\<And>i. p < i \<Longrightarrow> i < length cs \<Longrightarrow> target sk < fst (cs ! i)"
      and ns: "node_search_spec kBTIndexNode (map fst cs) (target sk) = Ok (Stopped p)" for p
  proof (rule child)
    show "bt_search_loop f rd ndsz k_cmp sk s1 (node_no (snd (cs ! p))) = (r, s')"
      using step(2) vs ns ch p(1) by simp
    show "lookup_spec img (snd (cs ! p)) (target sk) r \<Longrightarrow> lookup_spec img (Index no cs) (target sk) r"
      using lookup_descend [OF st lk p(1,2)] p(3,4) fk by simp
  qed (use p step in auto)
  from so show thesis
  proof (cases rule: spec_cases [where t = "target sk"])
    case below
    with vs step below_first [of key_at img ndsz "Index no cs"] ok fk show thesis
      by (intro final) (auto simp: lookup_spec_def tree_ok_def)
  next
    case (hit p)
    then show thesis by (intro desc [of p]) (auto simp: kBTLeafNode_def kBTIndexNode_def)
  next
    case (miss p)
    then show thesis by (intro desc [of p]) (auto simp: less_imp_le)
  qed
qed (use final in blast)

lemma search_tree:
  assumes "tree_ok key_at img ndsz t" and wf: "wf_key sk" and "inv s"
    and "\<forall>no \<in> set (node_nos t). valid no" and "height t < fuel"
    and "bt_search_loop fuel rd ndsz k_cmp sk s (node_no t) = (r, s')"
  shows "inv s' \<and> (lookup_spec img t (target sk) r \<or> (\<exists>st. rd_error st \<and> r = Err st))"
  using assms(1,3-)
proof (induction t arbitrary: s fuel)
  case (Leaf no ks)
  then obtain f where "fuel = Suc f" by (cases fuel) auto
  with Leaf search_leaf [OF Leaf.prems(1) wf Leaf.prems(2)] show ?case by auto
next
  case (Index no cs)
  then obtain f where f: "fuel = Suc f" by (cases fuel) auto
  have v: "valid no" and eq: "bt_search_loop (Suc f) rd ndsz k_cmp sk s no = (r, s')"
    using Index.prems(3,5) f by auto
  from Index.prems(1) wf Index.prems(2) v eq show ?case
  proof (cases rule: search_index)
    case (child c s1)
    have sn: "snd c \<in> Basic_BNFs.snds c" by (simp add: snds.simps)
    have tc: "tree_ok key_at img ndsz (snd c)"
      using Index.prems(1) child(1) concat_map_sorted [of "(<)" "\<lambda>c. leaf_keys (snd c)" cs c]
      by (auto simp: tree_ok_def)
    have "height (snd c) < f" using Index.prems(4) f child(1) by simp
    moreover have "\<forall>no \<in> set (node_nos (snd c)). valid no" using Index.prems(3) child(1) by auto
    ultimately show ?thesis using Index.IH [OF child(1) sn tc child(2)] child(3,4) by blast
  qed blast
qed

end

section \<open>The comparison procedures of the catalog\<close>

interpretation cat: key_order fsw_hfsplus_cat_cmp disk_key search_key sk_wf
  by unfold_locales (rule cat_cmp_ord)

interpretation thr: key_order fsw_hfsplus_thread_cmp disk_key "\<lambda>sk. (parentID sk, [])" "\<lambda>sk. True"
  by unfold_locales (rule thread_cmp_ord)

end
