(* ===== verification/HfsDirWalk.thy ===== *)
theory HfsDirWalk
  imports HfsBTree
begin

text \<open>
  Directory enumeration: \<open>fsw_hfsplus_btree_get_rec\<close> on a chain of leaf nodes. The walk
  is related to the list of records of the chain: one call returns the first file or folder
  record of the directory that has not been returned before, and moves the caller's position
  past it.
\<close>

section \<open>Chains of leaves\<close>

text \<open>A record as the walk sees it: parent id of its key and record type.\<close>

definition rec_info :: "byte list \<Rightarrow> nat \<Rightarrow> nat \<Rightarrow> (nat \<times> nat) option" where
  "rec_info btnode ndsz i =
     Option.bind (fsw_hfsplus_btnode_get_rec btnode ndsz i) (\<lambda>tk.
     Option.bind (key_parentID btnode tk) (\<lambda>p.
     map_option (Pair p) (Option.bind (fsw_hfsplus_bt_rec_skip_key btnode tk) (be16 btnode))))"

definition leaf_node :: "byte list \<Rightarrow> nat \<Rightarrow> (nat \<times> nat) list \<Rightarrow> bool" where
  "leaf_node btnode ndsz infos \<longleftrightarrow> nd_numRecords btnode = Some (length infos) \<and>
     (\<forall>i < length infos. rec_info btnode ndsz i = Some (infos ! i))"

text \<open>The node in the buffer and its successors by forward links, with their records.\<close>

fun leaf_chain :: "(nat \<Rightarrow> byte list) \<Rightarrow> nat \<Rightarrow> (nat \<Rightarrow> bool) \<Rightarrow> byte list \<Rightarrow> (nat \<times> nat) list list \<Rightarrow> bool" where
  "leaf_chain img ndsz valid btnode [] \<longleftrightarrow> False"
| "leaf_chain img ndsz valid btnode (infos # rest) \<longleftrightarrow> leaf_node btnode ndsz infos \<and>
     (case nd_fLink btnode of
        None \<Rightarrow> False
      | Some no \<Rightarrow> if no = 0 then rest = []
          else valid no \<and> leaf_chain img ndsz valid (img no) rest)"

definition node_part :: "byte list \<Rightarrow> (nat \<times> nat) list \<Rightarrow> nat \<Rightarrow> (byte list \<times> nat \<times> nat \<times> nat) list" where
  "node_part btnode infos i = map (\<lambda>j. (btnode, j, infos ! j)) [i..<length infos]"

fun chain_recs :: "(nat \<Rightarrow> byte list) \<Rightarrow> byte list \<Rightarrow> (nat \<times> nat) list list \<Rightarrow> nat \<Rightarrow>
    (byte list \<times> nat \<times> nat \<times> nat) list" where
  "chain_recs img btnode [] i = []"
| "chain_recs img btnode (infos # rest) i = node_part btnode infos i @
     (case nd_fLink btnode of None \<Rightarrow> [] | Some no \<Rightarrow> chain_recs img (img no) rest 0)"

section \<open>The walk over a list of records\<close>

fun walk :: "nat \<Rightarrow> nat \<Rightarrow> nat \<Rightarrow> (byte list \<times> nat \<times> nat \<times> nat) list \<Rightarrow> (byte list \<times> nat) option \<times> nat" where
  "walk pid c k [] = (None, k)"
| "walk pid c k ((b, i, p, ty) # rs) =
     (if p \<noteq> pid then (None, k)
      else if c \<noteq> k then walk pid (Suc c) k rs
      else if ty = kHFSPlusFileRecord \<or> ty = kHFSPlusFolderRecord then (Some (b, i), Suc k)
      else walk pid (Suc c) (Suc k) rs)"

text \<open>
  The entries of a directory from position \<open>k\<close>: the file and folder records among the
  leading records of that directory.
\<close>

definition dir_entries :: "nat \<Rightarrow> (byte list \<times> nat \<times> nat \<times> nat) list \<Rightarrow> nat \<Rightarrow> (byte list \<times> nat) list" where
  "dir_entries pid rs k = map (\<lambda>(b, i, p, ty). (b, i))
     (filter (\<lambda>(b, i, p, ty). ty = kHFSPlusFileRecord \<or> ty = kHFSPlusFolderRecord)
       (drop k (takeWhile (\<lambda>(b, i, p, ty). p = pid) rs)))"

lemma walk_entries:
  "c \<le> k \<Longrightarrow> (case dir_entries pid rs (k - c) of
      [] \<Rightarrow> \<exists>k'. walk pid c k rs = (None, k')
    | x # xs \<Rightarrow> \<exists>k' \<ge> Suc k. walk pid c k rs = (Some x, k') \<and> dir_entries pid rs (k' - c) = xs)"
proof (induction pid c k rs rule: walk.induct)
  case (1 pid c k)
  then show ?case by (simp add: dir_entries_def)
next
  case (2 pid c k b i p ty rs)
  have shift: "dir_entries pid ((b, i, p, ty) # rs) (m - c) = dir_entries pid rs (m - Suc c)"
    if "p = pid" "Suc c \<le> m" for m
  proof -
    have "m - c = Suc (m - Suc c)" using that by simp
    then show ?thesis using that by (simp add: dir_entries_def)
  qed
  consider "p \<noteq> pid" | "p = pid" "c \<noteq> k" | "p = pid" "c = k" by blast
  then show ?case
  proof cases
    case 1
    then show ?thesis by (simp add: dir_entries_def)
  next
    case 2
    with "2.prems" have "Suc c \<le> k" by simp
    with 2 "2.IH"(1) shift show ?thesis
      by (auto split: list.splits)
  next
    case 3
    show ?thesis
    proof (cases "ty = kHFSPlusFileRecord \<or> ty = kHFSPlusFolderRecord")
      case True
      with 3 have "dir_entries pid ((b, i, p, ty) # rs) 0 = (b, i) # dir_entries pid rs 0"
        by (auto simp: dir_entries_def)
      with 3 True shift [of "Suc k"] show ?thesis by auto
    next
      case False
      with 3 have "dir_entries pid ((b, i, p, ty) # rs) 0 = dir_entries pid rs 0"
        by (auto simp: dir_entries_def)
      moreover have "case dir_entries pid rs 0 of
          [] \<Rightarrow> \<exists>k'. walk pid (Suc c) (Suc k) rs = (None, k')
        | x # xs \<Rightarrow> \<exists>k' \<ge> Suc (Suc k). walk pid (Suc c) (Suc k) rs = (Some x, k') \<and>
            dir_entries pid rs (k' - Suc c) = xs"
        using "2.IH"(2) 3 False by simp
      moreover have "walk pid c k ((b, i, p, ty) # rs) = walk pid (Suc c) (Suc k) rs"
        using 3 False by simp
      moreover have "k - c = 0" using 3 by simp
      ultimately show ?thesis using shift [OF 3(1)] Suc_leD 3(2)
        by (simp only:) (cases "dir_entries pid rs 0"; auto)
    qed
  qed
qed

section \<open>The source's loops\<close>

text \<open>What a scan of one node means for the walk over the records from there on.\<close>

definition scan_agrees :: "nat \<Rightarrow> byte list \<Rightarrow> (byte list \<times> nat) option \<times> nat \<Rightarrow>
    (nat \<Rightarrow> nat \<Rightarrow> (byte list \<times> nat) option \<times> nat) \<Rightarrow> scan_result \<Rightarrow> bool" where
  "scan_agrees c' btnode w cont r \<longleftrightarrow> (case r of
       Hit i k \<Rightarrow> w = (Some (btnode, i), k)
     | Other_parent k \<Rightarrow> w = (None, k)
     | Exhausted c k \<Rightarrow> c = c' \<and> w = cont c k)"

lemma get_rec_scan_walk:
  assumes ln: "leaf_node btnode ndsz infos" and "i \<le> length infos" and "c + (length infos - i) < 2 ^ 32"
  shows "\<exists>r. get_rec_scan btnode ndsz pid (length infos) i c k = Ok r \<and>
    scan_agrees (c + (length infos - i)) btnode (walk pid c k (node_part btnode infos i @ rs))
      (\<lambda>c k. walk pid c k rs) r"
  using assms(2-)
proof (induction "length infos - i" arbitrary: i c k)
  case 0
  then show ?case by (simp add: get_rec_scan.simps [of _ _ _ _ i] node_part_def scan_agrees_def)
next
  case (Suc n)
  then have i: "i < length infos" by simp
  obtain p ty where info: "infos ! i = (p, ty)" by fastforce
  with ln i obtain tk where tk: "fsw_hfsplus_btnode_get_rec btnode ndsz i = Some tk"
    "key_parentID btnode tk = Some p"
    "Option.bind (fsw_hfsplus_bt_rec_skip_key btnode tk) (be16 btnode) = Some ty"
    by (auto simp: leaf_node_def rec_info_def bind_eq_Some_conv)
  have np: "node_part btnode infos i = (btnode, i, p, ty) # node_part btnode infos (Suc i)"
    using i info by (simp add: node_part_def upt_conv_Cons)
  have c1: "add32 c (Suc 0) = Suc c" using Suc.prems i by (simp add: add32_def)
  have ih: "\<exists>r. get_rec_scan btnode ndsz pid (length infos) (Suc i) (Suc c) k' = Ok r \<and>
      scan_agrees (c + (length infos - i)) btnode
        (walk pid (Suc c) k' (node_part btnode infos (Suc i) @ rs)) (\<lambda>c k. walk pid c k rs) r" for k'
  proof -
    have "Suc c + (length infos - Suc i) = c + (length infos - i)" using i by simp
    with Suc.hyps(1) [of "Suc i" "Suc c" k'] Suc.hyps(2) Suc.prems i show ?thesis by simp
  qed
  have k1: "c = k \<Longrightarrow> Suc k mod 2 ^ 64 = Suc k" using Suc.prems i by simp
  note step = get_rec_scan.simps [of btnode ndsz pid "length infos" i c k]
  consider "p \<noteq> pid" | "p = pid" "c \<noteq> k"
    | "p = pid" "c = k" "ty = kHFSPlusFileRecord \<or> ty = kHFSPlusFolderRecord"
    | "p = pid" "c = k" "\<not> (ty = kHFSPlusFileRecord \<or> ty = kHFSPlusFolderRecord)" by blast
  then show ?case
  proof cases
    case 1
    then show ?thesis using i tk np step by (simp add: scan_agrees_def)
  next
    case 2
    then show ?thesis using i tk np c1 step ih [of k] by simp
  next
    case 3
    then show ?thesis using k1 i tk np step by (simp add: scan_agrees_def Let_def)
  next
    case 4
    then show ?thesis using k1 i tk np c1 step ih [of "Suc k"] by (simp add: Let_def)
  qed
qed

context node_reader
begin

lemma get_rec_chain:
  assumes "leaf_chain img ndsz valid btnode infoss" and "length infoss \<le> fuel" and "inv s"
    and "rnum \<le> length (hd infoss)" and "c + length (chain_recs img btnode infoss rnum) < 2 ^ 32"
    and "get_rec_loop fuel rd ndsz pid s btnode rnum c k = (r, k', s')"
  shows "inv s' \<and>
    (case walk pid c k (chain_recs img btnode infoss rnum) of
       (Some x, k1) \<Rightarrow> r = Ok x \<and> k' = k1
     | (None, k1) \<Rightarrow> r = Err FSW_NOT_FOUND \<and> k' = k1) \<or>
    inv s' \<and> (\<exists>st. rd_error st \<and> r = Err st)"
  using assms
proof (induction infoss arbitrary: btnode fuel s rnum c k)
  case Nil
  then show ?case by simp
next
  case (Cons infos rest)
  then obtain f where f: "fuel = Suc f" by (cases fuel) auto
  from Cons.prems(1) obtain nx where ln: "leaf_node btnode ndsz infos" and nx: "nd_fLink btnode = Some nx"
    and lc: "if nx = 0 then rest = [] else valid nx \<and> leaf_chain img ndsz valid (img nx) rest"
    by (auto split: option.splits)
  define rs where "rs = chain_recs img (img nx) rest 0"
  have cr: "chain_recs img btnode (infos # rest) rnum = node_part btnode infos rnum @ rs"
    using nx by (simp add: rs_def)
  have num: "nd_numRecords btnode = Some (length infos)" using ln by (simp add: leaf_node_def)
  have len: "length (node_part btnode infos rnum) = length infos - rnum" by (simp add: node_part_def)
  have "c + (length infos - rnum) < 2 ^ 32" using Cons.prems(5) cr len by simp
  from get_rec_scan_walk [OF ln _ this, of pid k rs] Cons.prems(4) obtain sr where
    sr: "get_rec_scan btnode ndsz pid (length infos) rnum c k = Ok sr"
    and ag: "scan_agrees (c + (length infos - rnum)) btnode
      (walk pid c k (node_part btnode infos rnum @ rs)) (\<lambda>c k. walk pid c k rs) sr" by auto
  show ?case
  proof (cases sr)
    case (Exhausted c1 k1)
    with ag have w: "c1 = c + (length infos - rnum)"
      "walk pid c k (node_part btnode infos rnum @ rs) = walk pid c1 k1 rs"
      by (simp_all add: scan_agrees_def)
    show ?thesis
    proof (cases "nx = 0")
      case True
      with lc have "rs = []" by (simp add: rs_def)
      with True w Cons.prems(3,6) f num sr nx Exhausted cr show ?thesis by simp
    next
      case False
      with lc have lc': "valid nx" "leaf_chain img ndsz valid (img nx) rest" by auto
      obtain rr s1 where rr: "rd s (nx * ndsz) ndsz = (rr, s1)" by fastforce
      note rn = rd_node [OF Cons.prems(3) lc'(1) rr]
      show ?thesis
      proof (cases "rr = Ok (img nx)")
        case True
        have lp: "get_rec_loop f rd ndsz pid s1 (img nx) 0 c1 k1 = (r, k', s')"
          using True rr Cons.prems(6) f num sr nx Exhausted False by simp
        have "c1 + length (chain_recs img (img nx) rest 0) < 2 ^ 32"
          using Cons.prems(5) cr len w(1) rs_def by simp
        from Cons.IH [OF lc'(2) _ _ _ this lp] Cons.prems(2) f rn w(2) cr rs_def
        show ?thesis by simp
      next
        case False': False
        with rn obtain st where st: "rr = Err st" by blast
        with rr Cons.prems(3) lc'(1) have "rd_error st" by (auto simp: rd_error_def)
        moreover have "r = Err st" "s' = s1"
          using st rr Cons.prems(6) f num sr nx Exhausted False by simp_all
        ultimately show ?thesis using rn by blast
      qed
    qed
  qed (use ag Cons.prems(3,6) f num sr cr in \<open>auto simp: scan_agrees_def\<close>)
qed

end

end
