(* ===== verification/HfsVolume.thy ===== *)
theory HfsVolume
  imports FswDnodeInv HfsExtents HfsDirWalk
begin

text \<open>
  The HFS+ operations of \<^verbatim>\<open>OpenHfsPlus/fsw_hfsplus.c\<close> that work on a volume: mounting,
  reading a fork, completing and creating dnodes from catalog records, looking up a name in a
  directory, reading a directory, links, threads and the blessed folder. On-disk structures
  are read by offset in their bytes. \<open>fill\<close> is the dispatch table's \<open>dnode_fill\<close>,
  through which opening a handle calls back into this file; the recursion is tied in
  \<open>fsw_hfsplus_dno_fill\<close>, whose fuel bounds the nesting and the B-tree nodes visited.
\<close>

section \<open>The volume\<close>

record fsw_hfsplus_volume = fsw_volume +
  vh :: "byte list option"
  catf :: "addr option"

type_synonym hvol = fsw_hfsplus_volume
type_synonym 'a hop = "(fsw_status, fsw_hfsplus_volume, 'a) sop"

definition kHFSBlockSize :: nat where "kHFSBlockSize = 512"
definition kMasterDirectoryBlock :: nat where "kMasterDirectoryBlock = 2"
definition kHFSPlusSigWord :: nat where "kHFSPlusSigWord = 0x482B"
definition kHFSRootFolderID :: nat where "kHFSRootFolderID = 2"
definition kHFSCatalogFileID :: nat where "kHFSCatalogFileID = 4"
definition kHFSPlusMaxFileNameChars :: nat where "kHFSPlusMaxFileNameChars = 255"
definition kHFSPlusHFSPlusCreator :: nat where "kHFSPlusHFSPlusCreator = 0x6866732B"
definition kHFSPlusSymlinkCreator :: nat where "kHFSPlusSymlinkCreator = 0x72686170"
definition kHFSPlusHardlinkType :: nat where "kHFSPlusHardlinkType = 0x686C6E6B"
definition kHFSPlusSymlinkType :: nat where "kHFSPlusSymlinkType = 0x736C6E6B"

text \<open>Sizes of the packed structures and offsets of the fields that are read.\<close>

definition sizeof_HFSPlusVolumeHeader :: nat where "sizeof_HFSPlusVolumeHeader = 512"
definition sizeof_BTHeaderRec :: nat where "sizeof_BTHeaderRec = 106"

definition vh_signature :: "byte list \<Rightarrow> nat option" where "vh_signature b = be16 b 0"
definition vh_blockSize :: "byte list \<Rightarrow> nat option" where "vh_blockSize b = be32 b 40"
definition vh_totalBlocks :: "byte list \<Rightarrow> nat option" where "vh_totalBlocks b = be32 b 44"
definition vh_freeBlocks :: "byte list \<Rightarrow> nat option" where "vh_freeBlocks b = be32 b 48"
definition vh_blessedSystemFolderID :: "byte list \<Rightarrow> nat option" where "vh_blessedSystemFolderID b = be32 b 80"
definition vh_blessedSystemFileID :: "byte list \<Rightarrow> nat option" where "vh_blessedSystemFileID b = be32 b 84"
definition vh_blessedOSXFolderID :: "byte list \<Rightarrow> nat option" where "vh_blessedOSXFolderID b = be32 b 100"
definition vh_catalogFile :: nat where "vh_catalogFile = 272"

text \<open>The fork structure: logical size, then (past two counters) the eight extents.\<close>

definition fork_logicalSize :: "byte list \<Rightarrow> nat \<Rightarrow> nat option" where
  "fork_logicalSize b off = be64 b off"

fun load_extents :: "byte list \<Rightarrow> nat \<Rightarrow> nat \<Rightarrow> HFSPlusExtentDescriptor list option" where
  "load_extents b off 0 = Some []"
| "load_extents b off (Suc n) =
     (case (be32 b off, be32 b (off + 4), load_extents b (off + 8) n) of
        (Some s, Some c, Some xs) \<Rightarrow> Some (\<lparr>startBlock = s, blockCount = c\<rparr> # xs)
      | _ \<Rightarrow> None)"

definition fork_extents :: "byte list \<Rightarrow> nat \<Rightarrow> HFSPlusExtentDescriptor list option" where
  "fork_extents b off = load_extents b (off + 16) kHFSPlusExtentDensity"

text \<open>Catalog records.\<close>

definition rec_recordType :: "byte list \<Rightarrow> nat \<Rightarrow> nat option" where "rec_recordType b r = be16 b r"
definition rec_fileID :: "byte list \<Rightarrow> nat \<Rightarrow> nat option" where "rec_fileID b r = be32 b (r + 8)"
definition rec_createDate :: "byte list \<Rightarrow> nat \<Rightarrow> nat option" where "rec_createDate b r = be32 b (r + 12)"
definition rec_contentModDate :: "byte list \<Rightarrow> nat \<Rightarrow> nat option" where "rec_contentModDate b r = be32 b (r + 16)"
definition rec_accessDate :: "byte list \<Rightarrow> nat \<Rightarrow> nat option" where "rec_accessDate b r = be32 b (r + 24)"
definition rec_iNodeNum :: "byte list \<Rightarrow> nat \<Rightarrow> nat option" where "rec_iNodeNum b r = be32 b (r + 44)"
definition rec_fdType :: "byte list \<Rightarrow> nat \<Rightarrow> nat option" where "rec_fdType b r = be32 b (r + 48)"
definition rec_fdCreator :: "byte list \<Rightarrow> nat \<Rightarrow> nat option" where "rec_fdCreator b r = be32 b (r + 52)"
definition rec_dataFork :: "nat \<Rightarrow> nat" where "rec_dataFork r = r + 88"
definition thread_parentID :: "byte list \<Rightarrow> nat \<Rightarrow> nat option" where "thread_parentID b r = be32 b (r + 4)"
definition thread_name_length :: "byte list \<Rightarrow> nat \<Rightarrow> nat option" where "thread_name_length b r = be16 b (r + 8)"

text \<open>A pointer to 16-bit units inside a node: the units up to the end of the node.\<close>

definition units_at :: "byte list \<Rightarrow> nat \<Rightarrow> nat list" where
  "units_at b off = map (\<lambda>i. case le16 b (off + 2 * i) of Some w \<Rightarrow> unat w | None \<Rightarrow> 0)
     [0..<(length b - off) div 2]"

definition thread_name :: "byte list \<Rightarrow> nat \<Rightarrow> fsw_string option" where
  "thread_name b r = map_option (\<lambda>n.
     \<lparr>str_type = STR_UTF16_SWAPPED, str_len = n, str_size = 2 * n, str_data = units_at b (r + 10)\<rparr>)
     (thread_name_length b r)"

section \<open>Reading a fork\<close>

definition fsw_hfsplus_read ::
  "fsw_host \<Rightarrow> (addr \<Rightarrow> unit hop) \<Rightarrow> addr \<Rightarrow> nat \<Rightarrow> nat \<Rightarrow> byte list hop" where
  "fsw_hfsplus_read h fill d pos len =
     sbind (fsw_shandle_open fill d) (\<lambda>sh.
     sbind (on_err (\<lambda>v. case fsw_shandle_read h fsw_hfsplus_get_ext v (sh\<lparr>sh_pos := pos\<rparr>) len of
         (r, sh', v') \<Rightarrow> (obind r (\<lambda>(n, bytes). if n \<noteq> len then Err FSW_IO_ERROR else Ok bytes), v'))
       (fsw_shandle_close sh)) (\<lambda>bytes.
     sthen (fsw_shandle_close sh) (sret bytes)))"

text \<open>Searching the catalog: the B-tree file is the volume's \<open>catf\<close>.\<close>

definition cat_dnode :: "(addr \<times> fsw_hfsplus_dnode) hop" where
  "cat_dnode = sbind (sbind (sget catf) sload) (\<lambda>a. sbind (dnode_get a) (\<lambda>d. sret (a, d)))"

definition cat_search ::
  "nat \<Rightarrow> fsw_host \<Rightarrow> (addr \<Rightarrow> unit hop) \<Rightarrow> HFSPlusCatalogKey \<Rightarrow>
    (byte list \<Rightarrow> nat \<Rightarrow> HFSPlusCatalogKey \<Rightarrow> int option) \<Rightarrow> (byte list \<times> nat) hop" where
  "cat_search fuel h fill sk k_cmp =
     sbind cat_dnode (\<lambda>(a, bt).
     fsw_hfsplus_bt_search fuel (\<lambda>v pos len. fsw_hfsplus_read h fill a pos len v) bt sk k_cmp)"

definition node_alloc :: "fsw_host \<Rightarrow> nat hop" where
  "node_alloc h = sbind cat_dnode (\<lambda>(a, bt). sthen (salloc h (bt_ndsz bt)) (sret (bt_ndsz bt)))"

text \<open>The record behind the key of record \<open>rnum\<close>: offsets of key and record.\<close>

definition rec_at :: "byte list \<Rightarrow> nat \<Rightarrow> nat \<Rightarrow> (nat \<times> nat) option" where
  "rec_at btnode ndsz rnum =
     Option.bind (fsw_hfsplus_btnode_get_rec btnode ndsz rnum) (\<lambda>tk.
     map_option (Pair tk) (fsw_hfsplus_bt_rec_skip_key btnode tk))"

section \<open>Names\<close>

text \<open>
  The name of a search key. The copy into the 255 characters of the key is not checked
  against its size.
\<close>

definition fsw_hfsplus_fswstr2unistr :: "fsw_host \<Rightarrow> fsw_string \<Rightarrow> HFSUniStr255 hop" where
  "fsw_hfsplus_fswstr2unistr h src =
     sbind (\<lambda>v. fsw_strdup_coerce h v STR_UTF16 src) (\<lambda>ws.
     let len = fsw_strlen (Some ws) mod 2 ^ 16
     in if 0 < len then
          (if 2 * kHFSPlusMaxFileNameChars < fsw_strsize (Some ws) then (\<lambda>v. (Fault, v))
           else sbind (sload (load_bytes (str_data ws) 0 (fsw_strsize (Some ws) div 2))) (\<lambda>us.
             sret \<lparr>uni_length = len, unicode = us\<rparr>))
        else sret \<lparr>uni_length = len, unicode = []\<rparr>)"

section \<open>Dnodes from catalog records\<close>

definition fsw_hfsplus_dnode_create_minimal ::
  "fsw_host \<Rightarrow> nat \<Rightarrow> nat \<Rightarrow> fsw_string \<Rightarrow> addr hop" where
  "fsw_hfsplus_dnode_create_minimal h pid dnid name =
     sbind (fsw_dnode_create h None dnid TYPE_UNKNOWN name) (\<lambda>a.
     sthen (dnode_upd a (\<lambda>d. d\<lparr>parent_id := pid\<rparr>)) (sret a))"

definition complete_folder :: "byte list \<Rightarrow> nat \<Rightarrow> fsw_hfsplus_dnode \<Rightarrow> fsw_hfsplus_dnode option" where
  "complete_folder b r d =
     (case (rec_createDate b r, rec_contentModDate b r, rec_accessDate b r) of
        (Some c, Some m, Some a) \<Rightarrow> Some (d\<lparr>dn_type := TYPE_DIR, ct := c, mt := m, at := a\<rparr>)
      | _ \<Rightarrow> None)"

definition is_link :: "nat \<Rightarrow> nat \<Rightarrow> bool" where
  "is_link creator type \<longleftrightarrow> (creator = kHFSPlusSymlinkCreator \<and> type = kHFSPlusSymlinkType) \<or>
     (creator = kHFSPlusHFSPlusCreator \<and> type = kHFSPlusHardlinkType)"

definition complete_file :: "byte list \<Rightarrow> nat \<Rightarrow> fsw_hfsplus_dnode \<Rightarrow> fsw_hfsplus_dnode option" where
  "complete_file b r d =
     (case (fork_logicalSize b (rec_dataFork r), fork_extents b (rec_dataFork r)) of
        (Some lsz, Some es) \<Rightarrow>
          (case (rec_createDate b r, rec_contentModDate b r, rec_accessDate b r, rec_fdType b r, rec_fdCreator b r) of
             (Some c, Some m, Some a, Some ft, Some fc) \<Rightarrow>
               let d1 = d\<lparr>dn_type := TYPE_FILE, dn_size := lsz, extents := es, ct := c, mt := m, at := a,
                          fd_type := ft, fd_creator := fc\<rparr>
               in if is_link fc ft
                  then map_option (\<lambda>i. d1\<lparr>dn_type := TYPE_SYMLINK, inode_num := i\<rparr>) (rec_iNodeNum b r)
                  else Some d1
           | _ \<Rightarrow> None)
      | _ \<Rightarrow> None)"

definition complete_fields :: "byte list \<Rightarrow> nat \<Rightarrow> fsw_hfsplus_dnode \<Rightarrow> fsw_hfsplus_dnode option" where
  "complete_fields b r d =
     (case rec_recordType b r of
        None \<Rightarrow> None
      | Some ty \<Rightarrow>
          if ty = kHFSPlusFolderRecord then complete_folder b r d
          else if ty = kHFSPlusFileRecord then complete_file b r d
          else Some (d\<lparr>dn_type := TYPE_UNKNOWN, ct := 0, mt := 0, at := 0\<rparr>))"

definition fsw_hfsplus_dnode_complete :: "byte list \<Rightarrow> nat \<Rightarrow> addr \<Rightarrow> addr \<Rightarrow> unit hop" where
  "fsw_hfsplus_dnode_complete btnode rec parent_dno d_out =
     sbind (dnode_get d_out) (\<lambda>d.
     sbind (sload (complete_fields btnode rec d)) (\<lambda>d'.
     sthen (dnode_upd d_out (\<lambda>_. d'\<lparr>parent := Some parent_dno\<rparr>))
     (sthen (fsw_dnode_retain parent_dno)
     (fsw_dnode_mkcomplete d_out))))"

definition fsw_hfsplus_dnode_create_full ::
  "fsw_host \<Rightarrow> byte list \<Rightarrow> nat \<Rightarrow> addr \<Rightarrow> fsw_string \<Rightarrow> addr hop" where
  "fsw_hfsplus_dnode_create_full h btnode rec parent_dno name =
     sbind (sload (rec_recordType btnode rec)) (\<lambda>ty.
     sbind (if ty = kHFSPlusFolderRecord \<or> ty = kHFSPlusFileRecord then sload (rec_fileID btnode rec) else sret 0) (\<lambda>dnid.
     sbind (dnode_get parent_dno) (\<lambda>pd.
     sbind (fsw_hfsplus_dnode_create_minimal h (dnode_id pd) dnid name) (\<lambda>a.
     sthen (fsw_hfsplus_dnode_complete btnode rec parent_dno a) (sret a)))))"

section \<open>Threads\<close>

text \<open>The result is the node in the buffer and the offset of the thread record.\<close>

definition fsw_hfsplus_dnid2thread ::
  "nat \<Rightarrow> fsw_host \<Rightarrow> (addr \<Rightarrow> unit hop) \<Rightarrow> nat \<Rightarrow> (byte list \<times> nat) hop" where
  "fsw_hfsplus_dnid2thread fuel h fill dnid =
     sbind (cat_search fuel h fill \<lparr>parentID = dnid, nodeName = \<lparr>uni_length = 0, unicode = []\<rparr>\<rparr>
       fsw_hfsplus_thread_cmp) (\<lambda>(btnode, rnum).
     sbind cat_dnode (\<lambda>(c, bt).
     sbind (sload (rec_at btnode (bt_ndsz bt) rnum)) (\<lambda>(tk, thread). sret (btnode, thread))))"

definition fsw_hfsplus_thread2dnode ::
  "nat \<Rightarrow> fsw_host \<Rightarrow> (addr \<Rightarrow> unit hop) \<Rightarrow> byte list \<Rightarrow> nat \<Rightarrow> addr hop" where
  "fsw_hfsplus_thread2dnode fuel h fill tnode thread =
     sbind (sload (thread_parentID tnode thread)) (\<lambda>pid.
     sbind (sload (thread_name tnode thread)) (\<lambda>name.
     sbind (fsw_hfsplus_fswstr2unistr h name) (\<lambda>uname.
     sbind (cat_search fuel h fill \<lparr>parentID = pid, nodeName = uname\<rparr> fsw_hfsplus_cat_cmp) (\<lambda>(btnode, rnum).
     sbind cat_dnode (\<lambda>(c, bt).
     sbind (sload (rec_at btnode (bt_ndsz bt) rnum)) (\<lambda>(tk, rec).
     sbind (sload (rec_recordType btnode rec)) (\<lambda>ty.
     if ty \<noteq> kHFSPlusFolderRecord \<and> ty \<noteq> kHFSPlusFileRecord then sfail FSW_NOT_FOUND
     else sbind (sload (rec_fileID btnode rec)) (\<lambda>dnid.
       fsw_hfsplus_dnode_create_minimal h pid dnid name))))))))"

definition fsw_hfsplus_dnid2dnode ::
  "nat \<Rightarrow> fsw_host \<Rightarrow> (addr \<Rightarrow> unit hop) \<Rightarrow> nat \<Rightarrow> addr hop" where
  "fsw_hfsplus_dnid2dnode fuel h fill dnid =
     sthen (node_alloc h)
     (sthen (node_alloc h)
     (sbind (fsw_hfsplus_dnid2thread fuel h fill dnid) (\<lambda>(tnode, thread).
      fsw_hfsplus_thread2dnode fuel h fill tnode thread)))"

section \<open>Completing a dnode\<close>

text \<open>
  The status of the search is not looked at: when it fails, the record number is used
  without having been set, which is a fault here.
\<close>

definition dno_fill_body :: "nat \<Rightarrow> fsw_host \<Rightarrow> (addr \<Rightarrow> unit hop) \<Rightarrow> addr \<Rightarrow> unit hop" where
  "dno_fill_body fuel h fill a =
     sbind (node_alloc h) (\<lambda>ndsz.
     sbind (dnode_get a) (\<lambda>d.
     sbind (fsw_hfsplus_fswstr2unistr h (dn_name d)) (\<lambda>uname.
     sbind (\<lambda>v. case cat_search fuel h fill \<lparr>parentID = parent_id d, nodeName = uname\<rparr> fsw_hfsplus_cat_cmp v of
         (Err st, v') \<Rightarrow> (Fault, v') | r \<Rightarrow> r) (\<lambda>(btnode, rnum).
     sbind (sload (rec_at btnode ndsz rnum)) (\<lambda>(tk, rec).
     sbind (fsw_hfsplus_dnid2dnode fuel h fill (parent_id d)) (\<lambda>parent_dno.
     fsw_hfsplus_dnode_complete btnode rec parent_dno a))))))"

fun fsw_hfsplus_dno_fill :: "nat \<Rightarrow> fsw_host \<Rightarrow> addr \<Rightarrow> unit hop" where
  "fsw_hfsplus_dno_fill 0 h a = (\<lambda>v. (Diverge, v))"
| "fsw_hfsplus_dno_fill (Suc fuel) h a = dno_fill_body fuel h (fsw_hfsplus_dno_fill fuel h) a"

section \<open>Directories\<close>

definition fsw_hfsplus_dir_get ::
  "nat \<Rightarrow> fsw_host \<Rightarrow> (addr \<Rightarrow> unit hop) \<Rightarrow> addr \<Rightarrow> fsw_string \<Rightarrow> addr hop" where
  "fsw_hfsplus_dir_get fuel h fill d name =
     sbind (dnode_get d) (\<lambda>dd.
     sbind (fsw_hfsplus_fswstr2unistr h name) (\<lambda>uname.
     sbind (node_alloc h) (\<lambda>ndsz.
     sbind (cat_search fuel h fill \<lparr>parentID = dnode_id dd, nodeName = uname\<rparr> fsw_hfsplus_cat_cmp) (\<lambda>(btnode, rnum).
     sbind (sload (rec_at btnode ndsz rnum)) (\<lambda>(tk, rec).
     fsw_hfsplus_dnode_create_full h btnode rec d name)))))"

text \<open>
  Reading the next entry; the handle's position counts the records of the directory passed
  over. The name is copied out of the key with its characters swapped.
\<close>

fun swapped_units :: "byte list \<Rightarrow> nat \<Rightarrow> nat \<Rightarrow> nat list option" where
  "swapped_units b off 0 = Some []"
| "swapped_units b off (Suc n) =
     (case be16 b off of None \<Rightarrow> None | Some x \<Rightarrow> map_option ((#) x) (swapped_units b (off + 2) n))"

definition child_name :: "byte list \<Rightarrow> nat \<Rightarrow> fsw_host \<Rightarrow> fsw_string hop" where
  "child_name btnode tk h =
     sbind (sload (key_name_length btnode tk)) (\<lambda>n.
     sthen (salloc h (2 * n))
     (sbind (sload (swapped_units btnode (tk + 8) n)) (\<lambda>us.
      sret \<lparr>str_type = STR_UTF16, str_len = n, str_size = 2 * n, str_data = us\<rparr>)))"

definition fsw_hfsplus_dir_read ::
  "nat \<Rightarrow> fsw_host \<Rightarrow> (addr \<Rightarrow> unit hop) \<Rightarrow> addr \<Rightarrow> fsw_shandle \<Rightarrow> hvol \<Rightarrow>
    addr fsw_res \<times> fsw_shandle \<times> hvol" where
  "fsw_hfsplus_dir_read fuel h fill d sh v =
     (case sbind (dnode_get d) (\<lambda>dd.
           sbind (node_alloc h) (\<lambda>ndsz.
           sbind (cat_search fuel h fill \<lparr>parentID = dnode_id dd, nodeName = \<lparr>uni_length = 0, unicode = []\<rparr>\<rparr>
             fsw_hfsplus_cat_cmp) (\<lambda>(btnode, rnum).
           sbind cat_dnode (\<lambda>(c, bt). sret (dnode_id dd, btnode, rnum, c, bt))))) v of
        (Ok (dnid, btnode, rnum, c, bt), v1) \<Rightarrow>
          (case fsw_hfsplus_btree_get_rec fuel (\<lambda>v pos len. fsw_hfsplus_read h fill c pos len v) bt dnid v1
               btnode rnum (sh_pos sh) of
             (r, pos', v2) \<Rightarrow>
               (case sbind (\<lambda>v. (r, v)) (\<lambda>(btnode', rnum').
                     sbind (sload (rec_at btnode' (bt_ndsz bt) rnum')) (\<lambda>(tk, rec).
                     sbind (child_name btnode' tk h) (\<lambda>name.
                     fsw_hfsplus_dnode_create_full h btnode' rec d name))) v2 of
                  (r', v3) \<Rightarrow> (r', sh\<lparr>sh_pos := pos'\<rparr>, v3)))
      | (Err st, v1) \<Rightarrow> (Err st, sh, v1)
      | (Fault, v1) \<Rightarrow> (Fault, sh, v1)
      | (Diverge, v1) \<Rightarrow> (Diverge, sh, v1))"

section \<open>Links\<close>

text \<open>
  The decimal string of a 32-bit number. The length is computed on a signed copy, which is
  negative from \<open>2 ^ 31\<close> on; the digits are then stored past the end of the buffer.
\<close>

function dec_len :: "nat \<Rightarrow> nat" where
  "dec_len n = (if 0 < n div 10 then Suc (dec_len (n div 10)) else 1)"
  by pat_completeness auto
termination
  by (relation "measure (\<lambda>n. n)") auto

declare dec_len.simps [simp del]

definition itoa_len :: "nat \<Rightarrow> nat" where
  "itoa_len num = (if num < 2 ^ 31 then dec_len num else 1)"

function itoa_put :: "nat list \<Rightarrow> nat \<Rightarrow> nat \<Rightarrow> nat list option" where
  "itoa_put buf i num =
     (case store_bytes buf i [num mod 10 + 0x30] of
        None \<Rightarrow> None
      | Some buf' \<Rightarrow> if 0 < num div 10 then itoa_put buf' (i + 1) (num div 10) else Some buf')"
  by pat_completeness auto
termination
  by (relation "measure (\<lambda>(buf, i, num). num)") auto

declare itoa_put.simps [simp del]

function itoa_reverse :: "nat list \<Rightarrow> nat \<Rightarrow> nat \<Rightarrow> nat list" where
  "itoa_reverse buf i j =
     (if i < j then itoa_reverse (buf[i := buf ! j, j := buf ! i]) (i + 1) (j - 1) else buf)"
  by pat_completeness auto
termination
  by (relation "measure (\<lambda>(buf, i, j). j - i)") auto

declare itoa_reverse.simps [simp del]

definition fsw_hfsplus_itoa :: "fsw_host \<Rightarrow> nat \<Rightarrow> nat list hop" where
  "fsw_hfsplus_itoa h num =
     (let len = itoa_len num
      in sthen (salloc h len)
         (sbind (sload (itoa_put (replicate len 0) 0 num)) (\<lambda>buf. sret (itoa_reverse buf 0 (len - 1)))))"

definition fsw_hfsplus_sconcat :: "fsw_host \<Rightarrow> nat list \<Rightarrow> nat \<Rightarrow> nat list \<Rightarrow> nat \<Rightarrow> nat list hop" where
  "fsw_hfsplus_sconcat h s1 len1 s2 len2 =
     sthen (salloc h (len1 + len2))
     (sbind (sload (load_bytes s1 0 len1)) (\<lambda>b1.
      sbind (sload (load_bytes s2 0 len2)) (\<lambda>b2.
      sret (b1 @ b2))))"

text \<open>A slash, four zero characters, the name of the private data directory and a prefix.\<close>

definition hlink_prefix :: "nat list" where
  "hlink_prefix = [0x2F, 0, 0, 0, 0] @ map of_char ''HFS+ Private Data/iNode''"

definition hlink_prefix_len :: nat where "hlink_prefix_len = 28"

definition fsw_hfsplus_readlink :: "fsw_host \<Rightarrow> (addr \<Rightarrow> unit hop) \<Rightarrow> addr \<Rightarrow> fsw_string hop" where
  "fsw_hfsplus_readlink h fill a =
     sbind (dnode_get a) (\<lambda>d.
     if fd_creator d = kHFSPlusHFSPlusCreator \<and> fd_type d = kHFSPlusHardlinkType then
       sbind (fsw_hfsplus_itoa h (inode_num d)) (\<lambda>buf.
       sbind (fsw_hfsplus_sconcat h hlink_prefix hlink_prefix_len buf (length buf)) (\<lambda>s.
       sret \<lparr>str_type = STR_ISO88591, str_len = hlink_prefix_len + length buf,
         str_size = hlink_prefix_len + length buf, str_data = s\<rparr>))
     else if fd_creator d = kHFSPlusSymlinkCreator \<and> fd_type d = kHFSPlusSymlinkType then
       fsw_dnode_readlink_data h fill fsw_hfsplus_get_ext a
     else sfail FSW_UNSUPPORTED)"

section \<open>Blessed items\<close>

definition BLESSED_TYPE_SYSTEM_FILE :: nat where "BLESSED_TYPE_SYSTEM_FILE = 0"
definition BLESSED_TYPE_SYSTEM_FOLDER :: nat where "BLESSED_TYPE_SYSTEM_FOLDER = 1"
definition BLESSED_TYPE_OSX_FOLDER :: nat where "BLESSED_TYPE_OSX_FOLDER = 2"

definition fsw_hfsplus_bless_type2dnid :: "nat \<Rightarrow> nat hop" where
  "fsw_hfsplus_bless_type2dnid bless_type =
     sbind (sbind (sget vh) sload) (\<lambda>b.
     if bless_type = BLESSED_TYPE_SYSTEM_FILE then sload (vh_blessedSystemFileID b)
     else if bless_type = BLESSED_TYPE_SYSTEM_FOLDER then sload (vh_blessedSystemFolderID b)
     else if bless_type = BLESSED_TYPE_OSX_FOLDER then sload (vh_blessedOSXFolderID b)
     else sfail FSW_NOT_FOUND)"

definition fsw_hfsplus_get_bless_info :: "nat \<Rightarrow> fsw_host \<Rightarrow> (addr \<Rightarrow> unit hop) \<Rightarrow> nat \<Rightarrow> addr hop" where
  "fsw_hfsplus_get_bless_info fuel h fill bless_type =
     sbind (fsw_hfsplus_bless_type2dnid bless_type) (\<lambda>dnid. fsw_hfsplus_dnid2dnode fuel h fill dnid)"

section \<open>Volume\<close>

definition fsw_hfsplus_posix_time :: "nat \<Rightarrow> nat" where
  "fsw_hfsplus_posix_time t = (if 2082844800 < t then t - 2082844800 else 0)"

definition fsw_hfsplus_dno_stat :: "fsw_hfsplus_dnode \<Rightarrow> fsw_dnode_stat" where
  "fsw_hfsplus_dno_stat d = \<lparr>used_bytes = dn_size d, attr_posix = 320,
     ctime_posix = fsw_hfsplus_posix_time (ct d), mtime_posix = fsw_hfsplus_posix_time (mt d),
     atime_posix = fsw_hfsplus_posix_time (at d)\<rparr>"

text \<open>The dispatch table of the driver.\<close>

definition hfsplus_table :: "nat \<Rightarrow> fsw_host \<Rightarrow> hvol fsw_fstype_table" where
  "hfsplus_table fuel h =
     (let fill = fsw_hfsplus_dno_fill fuel h
      in \<lparr>t_dnode_fill = fill, t_dnode_stat = fsw_hfsplus_dno_stat, t_get_extent = fsw_hfsplus_get_ext,
          t_dir_lookup = fsw_hfsplus_dir_get fuel h fill, t_dir_read = fsw_hfsplus_dir_read fuel h fill,
          t_readlink = fsw_hfsplus_readlink h fill, t_get_bless_info = fsw_hfsplus_get_bless_info fuel h fill\<rparr>)"

text \<open>Totals in bytes: 32-bit products, stored in 64-bit fields.\<close>

definition fsw_hfsplus_vol_stat :: "(nat \<times> nat) hop" where
  "fsw_hfsplus_vol_stat =
     sbind (sbind (sget vh) sload) (\<lambda>b.
     sbind (sload (vh_blockSize b)) (\<lambda>bs.
     sbind (sload (vh_totalBlocks b)) (\<lambda>tb.
     sbind (sload (vh_freeBlocks b)) (\<lambda>fb.
     sret (mul32 bs tb, mul32 bs fb)))))"

definition fsw_hfsplus_btf_setup :: "fsw_host \<Rightarrow> (addr \<Rightarrow> unit hop) \<Rightarrow> nat \<Rightarrow> byte list \<Rightarrow> nat \<Rightarrow> unit hop" where
  "fsw_hfsplus_btf_setup h fill dn_id b f =
     sbind (fsw_dnode_create_root h dn_id) (\<lambda>a.
     sthen (smod (\<lambda>v. v\<lparr>catf := Some a\<rparr>))
     (sbind (sload (fork_logicalSize b f)) (\<lambda>lsz.
      sbind (sload (fork_extents b f)) (\<lambda>es.
      sthen (dnode_upd a (\<lambda>d. d\<lparr>dn_size := lsz, extents := es\<rparr>))
      (sbind (fsw_hfsplus_read h fill a sizeof_BTNodeDescriptor sizeof_BTHeaderRec) (\<lambda>hdr.
       sbind (sload (be32 hdr 2)) (\<lambda>rt.
       sbind (sload (be16 hdr 18)) (\<lambda>ns.
       dnode_upd a (\<lambda>d. d\<lparr>bt_root := rt, bt_ndsz := ns\<rparr>)))))))))"

text \<open>The header block, read through the cache at the smallest block size.\<close>

definition read_header :: "fsw_host \<Rightarrow> byte list hop" where
  "read_header h v =
     (case fsw_block_get h v kMasterDirectoryBlock 0 of
        (Ok p, v1) \<Rightarrow>
          (of_load (Option.bind p (\<lambda>d. load_bytes d 0 sizeof_HFSPlusVolumeHeader)),
           fsw_block_release v1 kMasterDirectoryBlock)
      | (Err st, v1) \<Rightarrow> (Err st, v1)
      | (Fault, v1) \<Rightarrow> (Fault, v1)
      | (Diverge, v1) \<Rightarrow> (Diverge, v1))"

text \<open>Errors while reading the label are not fatal; a fault is.\<close>

definition read_label :: "nat \<Rightarrow> fsw_host \<Rightarrow> (addr \<Rightarrow> unit hop) \<Rightarrow> unit hop" where
  "read_label fuel h fill v =
     (case node_alloc h v of
        (Ok ndsz, v1) \<Rightarrow>
          (case sbind (fsw_hfsplus_dnid2thread fuel h fill kHFSRootFolderID) (\<lambda>(tnode, thread).
                sbind (sload (thread_name tnode thread)) (\<lambda>name v. fsw_strdup_coerce h v STR_UTF16 name)) v1 of
             (Ok lab, v2) \<Rightarrow> (Ok (), v2\<lparr>label := lab\<rparr>)
           | (Err st, v2) \<Rightarrow> (Ok (), v2\<lparr>label := (label v2)\<lparr>str_type := STR_EMPTY\<rparr>\<rparr>)
           | (Fault, v2) \<Rightarrow> (Fault, v2)
           | (Diverge, v2) \<Rightarrow> (Diverge, v2))
      | (Err st, v1) \<Rightarrow> (Ok (), v1)
      | (Fault, v1) \<Rightarrow> (Fault, v1)
      | (Diverge, v1) \<Rightarrow> (Diverge, v1))"

definition fsw_hfsplus_vol_mount :: "nat \<Rightarrow> fsw_host \<Rightarrow> unit hop" where
  "fsw_hfsplus_vol_mount fuel h =
     (let fill = fsw_hfsplus_dno_fill fuel h
      in sthen (salloc h sizeof_HFSPlusVolumeHeader)
         (sthen (smod (fsw_set_blocksize kHFSBlockSize kHFSBlockSize))
         (sbind (read_header h) (\<lambda>b.
          sthen (smod (\<lambda>v. v\<lparr>vh := Some b\<rparr>))
          (sbind (sload (vh_signature b)) (\<lambda>sig.
           if sig \<noteq> kHFSPlusSigWord then sfail FSW_UNSUPPORTED
           else sbind (sload (vh_blockSize b)) (\<lambda>bs.
             sthen (smod (fsw_set_blocksize bs bs))
             (sthen (fsw_hfsplus_btf_setup h fill kHFSCatalogFileID b vh_catalogFile)
             (sbind (fsw_dnode_create_root h kHFSRootFolderID) (\<lambda>a.
              sthen (smod (\<lambda>v. v\<lparr>root := Some a\<rparr>))
              (read_label fuel h fill)))))))))))"

definition fsw_hfsplus_vol_free :: "unit hop" where
  "fsw_hfsplus_vol_free =
     sthen (smod (\<lambda>v. v\<lparr>vh := None\<rparr>))
     (sbind (sget catf) (\<lambda>c. case c of None \<Rightarrow> sret () | Some a \<Rightarrow> fsw_dnode_release a))"

text \<open>Mounting and unmounting, from \<^verbatim>\<open>fsw_core.c\<close>.\<close>

definition fsw_unmount :: "unit hop" where
  "fsw_unmount =
     sbind (sget root) (\<lambda>r.
     sthen (case r of None \<Rightarrow> sret () | Some a \<Rightarrow> fsw_dnode_release a)
     (sthen fsw_hfsplus_vol_free
     (sthen (smod fsw_blockcache_free)
     (smod (\<lambda>v. v\<lparr>label := fsw_strfree (label v)\<rparr>)))))"

definition fresh_volume :: hvol where
  "fresh_volume = \<lparr>phys_blocksize = 512, log_blocksize = 512, root = None, label = empty_string,
     dnode_head = None, bcache = [], dnodes = Map.empty, next_addr = 0, allocs = 0, vh = None, catf = None\<rparr>"

definition volume_struct_size :: nat where "volume_struct_size = 112"

definition fsw_mount :: "nat \<Rightarrow> fsw_host \<Rightarrow> unit fsw_res \<times> hvol" where
  "fsw_mount fuel h = sthen (salloc h volume_struct_size) (on_err (fsw_hfsplus_vol_mount fuel h) fsw_unmount) fresh_volume"

end
