(* ===== verification/HfsCatalog.thy ===== *)
theory HfsCatalog
  imports HfsVolume
begin

text \<open>
  The catalog file as the B-tree code sees it. Reading a piece of a complete dnode's fork
  gives its bytes and leaves the volume as it was but for the block cache, so the catalog's
  \<open>fsw_hfsplus_read\<close> is a \<open>node_reader\<close>, and the searches and walks of the
  \<open>tree_search\<close> and \<open>node_reader\<close> locales hold for the catalog of a mounted volume.
\<close>

section \<open>Reading a fork\<close>

lemma fork_blocks_refcount [simp]: "fork_blocks (d\<lparr>refcount := n\<rparr>) = fork_blocks d"
  by (simp add: fork_blocks_def)

lemma readable_refcount: "readable h v d \<Longrightarrow> readable h (v\<lparr>dnodes := m\<rparr>) (d\<lparr>refcount := n\<rparr>)"
  by (auto simp: readable_def idle_ok_def cache_ok_def)

lemma fork_bytes_refcount [simp]: "fork_bytes h (v\<lparr>dnodes := m\<rparr>) (d\<lparr>refcount := n\<rparr>) = fork_bytes h v d"
  by (simp add: fork_bytes_def fun_eq_iff)

lemma release_shared:
  assumes "dnodes v a = Some d" and "1 < refcount d" and "refcount d < 2 ^ 32"
  shows "fsw_dnode_release a v = (Ok (), v\<lparr>dnodes := (dnodes v)(a \<mapsto> d\<lparr>refcount := refcount d - 1\<rparr>)\<rparr>)"
proof -
  have "sub32 (refcount d) 1 = refcount d - 1" using assms by (intro sub32_small) auto
  then show ?thesis using assms
    by (simp add: fsw_dnode_release_def sop_simps dnode_upd_def dnode_get_def)
qed

lemma cache_frame_dnodes: "cache_frame (v\<lparr>dnodes := m\<rparr>) w \<Longrightarrow> cache_frame v (w\<lparr>dnodes := dnodes v\<rparr>)"
  by (cases v, cases w) (simp add: cache_frame_def)

text \<open>A dnode that is complete, in use, and whose count is not about to wrap.\<close>

definition dnode_live :: "fsw_hfsplus_dnode \<Rightarrow> bool" where
  "dnode_live d \<longleftrightarrow> complete d \<and> 0 < refcount d \<and> refcount d + 1 < 2 ^ 32"

lemma hfs_read_ok:
  assumes rd: "readable h v d" and d: "dnodes v a = Some d" and live: "dnode_live d"
    and eq: "fsw_hfsplus_read h fill a pos len v = (r, v')"
  shows "cache_frame v v' \<and> idle_ok h v' \<and>
    ((\<exists>st. r = Err st) \<or> (pos + len \<le> dn_size d \<or> len = 0) \<and> r = Ok (fork_bytes h v d pos len))"
proof -
  define d1 where "d1 = d\<lparr>refcount := refcount d + 1\<rparr>"
  define v1 where "v1 = v\<lparr>dnodes := (dnodes v)(a \<mapsto> d1)\<rparr>"
  define sh where "sh = \<lparr>sh_dnode = a, sh_pos = 0, sh_extent = \<lparr>ext_type = EXT_INVALID, log_start = 0,
    log_count = 0, phys_start = 0, ext_buffer = []\<rparr>\<rparr>"
  have op: "fsw_shandle_open fill a v = (Ok sh, v1)"
    using d live by (simp add: fsw_shandle_open_def fsw_dnode_fill_def fsw_dnode_retain_def dnode_get_def
        dnode_upd_def sop_simps dnode_live_def sh_def v1_def d1_def add32_def)
  have rd1: "readable h v1 d1" unfolding v1_def d1_def by (rule readable_refcount [OF rd])
  have dn1: "dnodes v1 (sh_dnode (sh\<lparr>sh_pos := pos\<rparr>)) = Some d1" by (simp add: v1_def sh_def)
  have ho: "handle_ok d1 (sh\<lparr>sh_pos := pos\<rparr>)" by (simp add: handle_ok_def ext_ok_def sh_def)
  obtain rr sh2 v2 where rr: "fsw_shandle_read h fsw_hfsplus_get_ext v1 (sh\<lparr>sh_pos := pos\<rparr>) len = (rr, sh2, v2)"
    by (metis prod_cases3)
  have fr: "cache_frame v1 v2" and id2: "idle_ok h v2"
    and res: "(\<exists>st. rr = Err st) \<or>
      rr = Ok (min len (dn_size d - pos), fork_bytes h v1 d1 pos (min len (dn_size d - pos)))"
    using shandle_read_fork [OF rd1 dn1 ho rr] by (auto simp: Let_def d1_def)
  have "dnodes v2 a = Some d1" using fr by (simp add: cache_frame_sel v1_def)
  from release_shared [OF this] live have rl: "fsw_dnode_release a v2 = (Ok (), v2\<lparr>dnodes := dnodes v\<rparr>)"
    using fr d by (simp add: d1_def dnode_live_def cache_frame_sel v1_def fun_upd_idem)
  have frv: "cache_frame v (v2\<lparr>dnodes := dnodes v\<rparr>)" using fr unfolding v1_def by (rule cache_frame_dnodes)
  have idv: "idle_ok h (v2\<lparr>dnodes := dnodes v\<rparr>)" using id2 by (simp add: idle_ok_def cache_ok_def)
  have fb: "fork_bytes h v1 d1 pos n = fork_bytes h v d pos n" for n by (simp add: v1_def d1_def)
  have step: "fsw_hfsplus_read h fill a pos len v = (case obind rr (\<lambda>(n, bytes).
      if n \<noteq> len then Err FSW_IO_ERROR else Ok bytes) of
        Ok bytes \<Rightarrow> (Ok bytes, v2\<lparr>dnodes := dnodes v\<rparr>) | Err st \<Rightarrow> (Err st, v2\<lparr>dnodes := dnodes v\<rparr>)
      | Fault \<Rightarrow> (Fault, v2) | Diverge \<Rightarrow> (Diverge, v2))"
    using op rr rl
    by (auto simp: fsw_hfsplus_read_def sop_simps sbind_def on_err_def fsw_shandle_close_def sh_def
        split: outcome.splits)
  from res show ?thesis
  proof
    assume "\<exists>st. rr = Err st"
    with step eq frv idv show ?thesis by auto
  next
    assume rr: "rr = Ok (min len (dn_size d - pos), fork_bytes h v1 d1 pos (min len (dn_size d - pos)))"
    show ?thesis
    proof (cases "min len (dn_size d - pos) = len")
      case True
      with rr step eq frv idv fb show ?thesis by (auto simp: min_def split: if_splits)
    next
      case False
      then have "(min len (dn_size d - pos) \<noteq> len) = True" by simp
      with rr step have "fsw_hfsplus_read h fill a pos len v = (Err FSW_IO_ERROR, v2\<lparr>dnodes := dnodes v\<rparr>)"
        by (simp only: obind.simps prod.case if_True outcome.case)
      with eq frv idv show ?thesis by auto
    qed
  qed
qed

lemma hfs_read_total:
  assumes rd: "readable h v d" and d: "dnodes v a = Some d" and live: "dnode_live d"
    and tot: "host_total h (phys_blocksize v)" and len: "pos + len \<le> dn_size d"
  shows "\<exists>v'. fsw_hfsplus_read h fill a pos len v = (Ok (fork_bytes h v d pos len), v')"
proof -
  define d1 where "d1 = d\<lparr>refcount := refcount d + 1\<rparr>"
  define v1 where "v1 = v\<lparr>dnodes := (dnodes v)(a \<mapsto> d1)\<rparr>"
  define sh where "sh = \<lparr>sh_dnode = a, sh_pos = 0, sh_extent = \<lparr>ext_type = EXT_INVALID, log_start = 0,
    log_count = 0, phys_start = 0, ext_buffer = []\<rparr>\<rparr>"
  have op: "fsw_shandle_open fill a v = (Ok sh, v1)"
    using d live by (simp add: fsw_shandle_open_def fsw_dnode_fill_def fsw_dnode_retain_def dnode_get_def
        dnode_upd_def sop_simps dnode_live_def sh_def v1_def d1_def add32_def)
  have rd1: "readable h v1 d1" unfolding v1_def d1_def by (rule readable_refcount [OF rd])
  have dn1: "dnodes v1 (sh_dnode (sh\<lparr>sh_pos := pos\<rparr>)) = Some d1" by (simp add: v1_def sh_def)
  have ho: "handle_ok d1 (sh\<lparr>sh_pos := pos\<rparr>)" by (simp add: handle_ok_def ext_ok_def sh_def)
  have "host_total h (phys_blocksize v1)" using tot by (simp add: v1_def)
  from shandle_read_total [OF rd1 dn1 ho this] obtain x sh2 v2 where
    rr: "fsw_shandle_read h fsw_hfsplus_get_ext v1 (sh\<lparr>sh_pos := pos\<rparr>) len = (Ok x, sh2, v2)" by blast
  have fr: "cache_frame v1 v2" and x: "x = (len, fork_bytes h v d pos len)"
    using shandle_read_fork [OF rd1 dn1 ho rr] len by (auto simp: Let_def d1_def v1_def)
  have "dnodes v2 a = Some d1" using fr by (simp add: cache_frame_sel v1_def)
  from release_shared [OF this] live have "\<exists>v3. fsw_dnode_release a v2 = (Ok (), v3)"
    by (simp add: d1_def dnode_live_def)
  with op rr x show ?thesis
    by (auto simp: fsw_hfsplus_read_def sop_simps sbind_def on_err_def fsw_shandle_close_def sh_def)
qed

section \<open>The catalog as a reader of nodes\<close>

text \<open>
  The catalog of a mounted volume: the volume's catalog dnode \<open>d\<close> at \<open>a\<close> is
  complete and its fork readable. The states met while searching differ from the initial
  volume in the cache only.
\<close>

definition cat_ready :: "fsw_host \<Rightarrow> hvol \<Rightarrow> addr \<Rightarrow> fsw_hfsplus_dnode \<Rightarrow> bool" where
  "cat_ready h v a d \<longleftrightarrow> catf v = Some a \<and> dnodes v a = Some d \<and> dnode_live d \<and> readable h v d"

definition cat_inv :: "fsw_host \<Rightarrow> hvol \<Rightarrow> addr \<Rightarrow> fsw_hfsplus_dnode \<Rightarrow> hvol \<Rightarrow> bool" where
  "cat_inv h v0 a d v \<longleftrightarrow> cat_ready h v0 a d \<and> cache_frame v0 v \<and> idle_ok h v"

definition node_img :: "fsw_host \<Rightarrow> hvol \<Rightarrow> fsw_hfsplus_dnode \<Rightarrow> nat \<Rightarrow> byte list" where
  "node_img h v d no = fork_bytes h v d (no * bt_ndsz d) (bt_ndsz d)"

definition node_in_fork :: "fsw_hfsplus_dnode \<Rightarrow> nat \<Rightarrow> bool" where
  "node_in_fork d no \<longleftrightarrow> no * bt_ndsz d + bt_ndsz d \<le> dn_size d"

lemma cat_inv_ready:
  assumes "cat_inv h v0 a d v"
  shows "dnodes v a = Some d" and "readable h v d" and "dnode_live d" and "catf v = Some a"
    and "fork_bytes h v d = fork_bytes h v0 d"
proof -
  have cf: "cache_frame v0 v" and rdy: "cat_ready h v0 a d" and id: "idle_ok h v"
    using assms by (auto simp: cat_inv_def)
  show "dnodes v a = Some d" "dnode_live d" using cf rdy by (auto simp: cat_ready_def cache_frame_sel)
  show "readable h v d" using rdy cf id by (auto simp: cat_ready_def intro: readable_frame)
  show "catf v = Some a"
    using cf rdy [unfolded cat_ready_def] by (cases v, cases v0) (simp add: cache_frame_def)
  show "fork_bytes h v d = fork_bytes h v0 d" using fork_bytes_frame [OF cf] by (intro ext)
qed

interpretation cat_rd: node_reader "\<lambda>v pos len. fsw_hfsplus_read h fill a pos len v" "cat_inv h v0 a d"
  "node_img h v0 d" "bt_ndsz d" "node_in_fork d"
  for h :: fsw_host and fill :: "addr \<Rightarrow> unit hop" and v0 :: hvol and a :: addr and d :: fsw_hfsplus_dnode
proof
  fix v v' :: hvol and no r
  assume inv: "cat_inv h v0 a d v" and "node_in_fork d no"
    and eq: "fsw_hfsplus_read h fill a (no * bt_ndsz d) (bt_ndsz d) v = (r, v')"
  note rdy = cat_inv_ready [OF inv]
  from hfs_read_ok [OF rdy(2,1,3) eq] have "cache_frame v v'" "idle_ok h v'"
    and r: "r = Ok (node_img h v0 d no) \<or> (\<exists>st. r = Err st)" by (auto simp: node_img_def rdy(5))
  then have "cat_inv h v0 a d v'" using inv by (auto simp: cat_inv_def intro: cache_frame_trans)
  with r show "cat_inv h v0 a d v' \<and> (r = Ok (node_img h v0 d no) \<or> (\<exists>st. r = Err st))" by blast
qed

interpretation cat_rdt: node_reader_total "\<lambda>v pos len. fsw_hfsplus_read h fill a pos len v"
  "\<lambda>v. cat_inv h v0 a d v \<and> host_total h (phys_blocksize v0)" "node_img h v0 d" "bt_ndsz d" "node_in_fork d"
  for h :: fsw_host and fill :: "addr \<Rightarrow> unit hop" and v0 :: hvol and a :: addr and d :: fsw_hfsplus_dnode
proof
  fix v v' :: hvol and no r
  assume "cat_inv h v0 a d v \<and> host_total h (phys_blocksize v0)" "node_in_fork d no"
    "fsw_hfsplus_read h fill a (no * bt_ndsz d) (bt_ndsz d) v = (r, v')"
  then show "(cat_inv h v0 a d v' \<and> host_total h (phys_blocksize v0)) \<and>
      (r = Ok (node_img h v0 d no) \<or> (\<exists>st. r = Err st))"
    using cat_rd.rd_node by blast
next
  fix v :: hvol and no
  assume inv: "cat_inv h v0 a d v \<and> host_total h (phys_blocksize v0)" and no: "node_in_fork d no"
  then have tot: "host_total h (phys_blocksize v)" by (auto simp: cat_inv_def cache_frame_sel)
  note rdy = cat_inv_ready [OF conjunct1 [OF inv]]
  from hfs_read_total [OF rdy(2,1,3) tot] no
  show "\<exists>v'. fsw_hfsplus_read h fill a (no * bt_ndsz d) (bt_ndsz d) v = (Ok (node_img h v0 d no), v')"
    by (simp add: node_img_def node_in_fork_def rdy(5))
qed

text \<open>The two kinds of search in the catalog.\<close>

interpretation cat_ts: tree_search fsw_hfsplus_cat_cmp disk_key search_key sk_wf
  "\<lambda>v pos len. fsw_hfsplus_read h fill a pos len v" "cat_inv h v0 a d" "node_img h v0 d" "bt_ndsz d" "node_in_fork d"
  for h :: fsw_host and fill :: "addr \<Rightarrow> unit hop" and v0 :: hvol and a :: addr and d :: fsw_hfsplus_dnode ..

interpretation thr_ts: tree_search fsw_hfsplus_thread_cmp disk_key "\<lambda>sk. (parentID sk, [])" "\<lambda>sk. True"
  "\<lambda>v pos len. fsw_hfsplus_read h fill a pos len v" "cat_inv h v0 a d" "node_img h v0 d" "bt_ndsz d" "node_in_fork d"
  for h :: fsw_host and fill :: "addr \<Rightarrow> unit hop" and v0 :: hvol and a :: addr and d :: fsw_hfsplus_dnode ..

end
