(* ===== verification/HfsProperties.thy ===== *)
theory HfsProperties
  imports HfsCatalog
begin

text \<open>
  Properties of the HFS+ driver, with an instance of each on a small volume: one block of
  64 bytes that holds a catalog of one leaf node with one record, the folder \<open>a\<close> in the
  directory with id 2.
\<close>

section \<open>A small volume\<close>

definition demo_node :: "byte list" where
  "demo_node = [0,0,0,0, 0,0,0,0, 0xFF, 1, 0,1, 0,0,
     0,8, 0,0,0,2, 0,1, 0,0x61, 0,1, 0,0,0,0, 0,0, 0,0,0,9, 0,0,0,0, 0,0,0,0, 0,0,0,0, 0,0,0,0,
     0,0,0,0, 0,0,0,0, 0,0, 0,14]"

definition demo_host :: fsw_host where
  "demo_host = \<lparr>native_string_type = STR_UTF16,
     read_block = (\<lambda>bs bno. (None, if bno = 5 then demo_node else replicate bs 0)),
     alloc_ok = (\<lambda>n size. True)\<rparr>"

definition demo_cat :: fsw_hfsplus_dnode where
  "demo_cat = zero_dnode\<lparr>refcount := 1, complete := True, dnode_id := 4, dn_type := TYPE_DIR,
     dn_size := 64, extents := \<lparr>startBlock = 5, blockCount = 1\<rparr> # replicate 7 \<lparr>startBlock = 0, blockCount = 0\<rparr>,
     bt_root := 0, bt_ndsz := 64\<rparr>"

definition demo_volume :: hvol where
  "demo_volume = fresh_volume\<lparr>phys_blocksize := 64, log_blocksize := 64, dnode_head := Some 0,
     dnodes := [0 \<mapsto> demo_cat], next_addr := 1, catf := Some 0\<rparr>"

definition demo_tree :: "fkey bt" where
  "demo_tree = Leaf 0 [(2, [0x61])]"

definition demo_key :: "nat \<Rightarrow> nat \<Rightarrow> HFSPlusCatalogKey" where
  "demo_key p c = \<lparr>parentID = p, nodeName = \<lparr>uni_length = 1, unicode = [c]\<rparr>\<rparr>"

lemma demo_key_sel [simp]: "sk_wf (demo_key p c)" "search_key (demo_key p 0x41) = (p, [0x61])"
  by (simp_all add: sk_wf_def demo_key_def search_key_def fsw_hfsplus_ucblatin_tolower_def)

lemma demo_loads:
  "length demo_node = 64" "be16 demo_node 62 = Some 14" "be16 demo_node 10 = Some 1"
  "be32 demo_node 16 = Some 2" "be16 demo_node 20 = Some 1" "be16 demo_node 22 = Some 0x61"
  "be16 demo_node 14 = Some 8" "be16 demo_node 24 = Some 1" "load8 demo_node 8 = Some 0xFF"
  "be32 demo_node 0 = Some 0" "be32 demo_node 32 = Some 9" "be32 demo_node 36 = Some 0" "be32 demo_node 40 = Some 0"
  "be32 demo_node 48 = Some 0"
  by (simp_all add: demo_node_def be16_value be32_value load8_def)

lemma ext_blocks_empty [simp]: "ext_blocks (replicate n \<lparr>startBlock = 0, blockCount = 0\<rparr>) = []"
  by (cases n) simp_all

lemma demo_host_sel [simp]:
  "read_block demo_host bs bno = (None, if bno = 5 then demo_node else replicate bs 0)"
  "alloc_ok demo_host n s" "native_string_type demo_host = STR_UTF16"
  by (simp_all add: demo_host_def)

lemma demo_blocks [simp]: "fork_blocks demo_cat = [5]"
  by (simp add: fork_blocks_def demo_cat_def kHFSPlusExtentDensity_def add32_def)

lemma demo_volume_sel [simp]:
  "phys_blocksize demo_volume = 64" "log_blocksize demo_volume = 64" "catf demo_volume = Some 0"
  "dnodes demo_volume = [0 \<mapsto> demo_cat]" "bcache demo_volume = []" "allocs demo_volume = 0"
  "dnode_head demo_volume = Some 0" "next_addr demo_volume = 1"
  by (simp_all add: demo_volume_def fresh_volume_def)

lemma demo_cat_extents: "extents demo_cat = \<lparr>startBlock = 5, blockCount = 1\<rparr> # replicate 7 \<lparr>startBlock = 0, blockCount = 0\<rparr>"
  by (simp add: demo_cat_def)

lemma demo_cat_sel [simp]: "bt_ndsz demo_cat = 64" "dn_size demo_cat = 64" "bt_root demo_cat = 0"
  "refcount demo_cat = 1" "complete demo_cat" "dnode_id demo_cat = 4" "parent demo_cat = None"
  by (simp_all add: demo_cat_def zero_dnode_def)

lemma demo_fork [simp]: "fork_bytes demo_host demo_volume demo_cat 0 64 = demo_node"
  by (simp add: fork_bytes_def file_bytes_def dev_block_def demo_host_def demo_node_def upt_conv_Cons)

lemma demo_idle [simp]: "idle_ok demo_host demo_volume"
  by (simp add: idle_ok_def cache_ok_def bno_unique_def)

lemma demo_block [simp]: "length (dev_block demo_host 64 5) = 64"
  by (simp add: dev_block_def demo_host_def demo_loads)

lemma demo_readable [simp]: "readable demo_host demo_volume demo_cat"
proof -
  have "is_pow2 64" unfolding is_pow2_def by (intro exI [of _ 6]) simp
  then show ?thesis
    by (simp add: readable_def dev_valid_def FSW_INVALID_BNO_def)
qed

lemma demo_ready: "cat_ready demo_host demo_volume 0 demo_cat"
  by (simp add: cat_ready_def dnode_live_def)

lemma demo_total: "host_total demo_host 64"
  by (simp add: host_total_def demo_host_def)

lemma demo_node_keys: "node_keys disk_key demo_node 64 [(2, [0x61])]"
  by (simp add: node_keys_def fsw_hfsplus_btnode_get_rec_def get_key_def disk_key_def key_parentID_def
      key_name_length_def nd_numRecords_def sizeof_BTNodeDescriptor_def demo_loads fsw_hfsplus_ucblatin_tolower_def)

lemma demo_tree_ok: "tree_ok disk_key (node_img demo_host demo_volume demo_cat) 64 demo_tree"
  using demo_node_keys
  by (simp add: tree_ok_def demo_tree_def node_img_def nd_kind_def demo_loads kBTLeafNode_def)

section \<open>Blocks and file data\<close>


definition demo_handle :: "nat \<Rightarrow> fsw_shandle" where
  "demo_handle pos = \<lparr>sh_dnode = 0, sh_pos = pos,
     sh_extent = \<lparr>ext_type = EXT_INVALID, log_start = 0, log_count = 0, phys_start = 0, ext_buffer = []\<rparr>\<rparr>"

lemma demo_handle_ok [simp]: "handle_ok demo_cat (demo_handle pos)" "sh_dnode (demo_handle pos) = 0"
  "sh_pos (demo_handle pos) = pos"
  by (simp_all add: demo_handle_def handle_ok_def ext_ok_def)


text \<open>
  On a host whose device and allocator never fail, a read of a readable file succeeds.
\<close>

theorem shandle_read_succeeds:
  assumes "readable h v d" and "dnodes v (sh_dnode sh) = Some d" and "handle_ok d sh"
    and "host_total h (phys_blocksize v)"
  shows "\<exists>sh' v'. fsw_shandle_read h fsw_hfsplus_get_ext v sh len =
    (Ok (min len (dn_size d - sh_pos sh), fork_bytes h v d (sh_pos sh) (min len (dn_size d - sh_pos sh))), sh', v')"
proof -
  obtain x sh' v' where eq: "fsw_shandle_read h fsw_hfsplus_get_ext v sh len = (Ok x, sh', v')"
    using shandle_read_total [OF assms] by blast
  with shandle_read_fork [OF assms(1-3) eq] show ?thesis by (auto simp: Let_def)
qed

theorem shandle_read_succeeds_witness:
  "\<exists>sh' v'. fsw_shandle_read demo_host fsw_hfsplus_get_ext demo_volume (demo_handle 62) 10 =
    (Ok (2, fork_bytes demo_host demo_volume demo_cat 62 2), sh', v')"
  using shandle_read_succeeds [of demo_host demo_volume demo_cat "demo_handle 62" 10] demo_total by simp

text \<open>
  C5: A block obtained from the cache holds what the device holds for that block number,
  whatever was cached before, the cache stays consistent and nothing else changes; the call
  never faults while the table has fewer than \<open>2 ^ 31\<close> entries.
\<close>

theorem block_get_transparent:
  assumes "cache_ok h v" and "bno \<noteq> FSW_INVALID_BNO" and "length (bcache v) < 2 ^ 31"
    and "fsw_block_get h v bno level = (r, v')"
  shows "cache_ok h v' \<and> cache_frame v v' \<and> r \<noteq> Fault \<and>
    (\<forall>p. r = Ok p \<longrightarrow> p \<noteq> None \<and> read_block h (phys_blocksize v) bno = (None, the p))"
  using fsw_block_get_inv [OF assms(1,2,4,3)] .

theorem block_get_transparent_witness:
  "cache_ok demo_host (snd (fsw_block_get demo_host demo_volume 5 0)) \<and>
    fst (fsw_block_get demo_host demo_volume 5 0) \<noteq> Fault"
  using block_get_transparent [of demo_host demo_volume 5 0 "fst (fsw_block_get demo_host demo_volume 5 0)"
      "snd (fsw_block_get demo_host demo_volume 5 0)"] demo_idle
  by (simp add: idle_ok_def FSW_INVALID_BNO_def)

text \<open>
  A cache entry that is in use (its reference count is positive) keeps its block number
  and data across any later request: a block is never evicted under a reader.
\<close>

theorem block_get_keeps_referenced:
  assumes "cache_ok h v" and "length (bcache v) < 2 ^ 31"
    and "j < length (bcache v)" and "0 < bc_refcount (bcache v ! j)"
    and "fsw_block_get h v bno level = (r, v')"
  shows "j < length (bcache v') \<and> bc_bno (bcache v' ! j) = bc_bno (bcache v ! j) \<and>
    bc_data (bcache v' ! j) = bc_data (bcache v ! j)"
  using fsw_block_get_pinned [OF assms(1,5,2,3,4)] .

definition demo_cached :: hvol where
  "demo_cached = demo_volume\<lparr>bcache := [\<lparr>bc_refcount = 1, bc_level = 0, bc_bno = 5, bc_data = Some demo_node\<rparr>]\<rparr>"

theorem block_get_keeps_referenced_witness:
  "bc_bno (bcache (snd (fsw_block_get demo_host demo_cached 7 0)) ! 0) = 5"
proof -
  have "cache_ok demo_host demo_cached"
    by (simp add: cache_ok_def demo_cached_def entry_ok_def bno_unique_def FSW_INVALID_BNO_def demo_host_def)
  from block_get_keeps_referenced [OF this, of 0 7 0 "fst (fsw_block_get demo_host demo_cached 7 0)"
      "snd (fsw_block_get demo_host demo_cached 7 0)"]
  show ?thesis by (simp add: demo_cached_def)
qed

text \<open>
  Between operations the cache never grows past sixteen entries: from a cache with no
  entry in use, getting a block and releasing it again leaves one of at most sixteen entries,
  none in use; if the request fails it is because the device or the allocator failed.
\<close>

theorem get_release_bounded:
  assumes "idle_ok h v" and "bno \<noteq> FSW_INVALID_BNO" and "fsw_block_get h v bno level = (r, v')"
  shows "(\<exists>d. r = Ok (Some d) \<and> read_block h (phys_blocksize v) bno = (None, d) \<and>
      idle_ok h (fsw_block_release v' bno) \<and> length (bcache (fsw_block_release v' bno)) \<le> 16) \<or>
    (\<exists>st. r = Err st \<and> idle_ok h v' \<and>
      ((\<exists>n s. \<not> alloc_ok h n s) \<or> fst (read_block h (phys_blocksize v) bno) \<noteq> None))"
  using idle_get_release [OF assms] by (auto simp: idle_ok_def)

theorem get_release_bounded_witness:
  "idle_ok demo_host (fsw_block_release (snd (fsw_block_get demo_host demo_volume 5 0)) 5)"
  using get_release_bounded [of demo_host demo_volume 5 0 "fst (fsw_block_get demo_host demo_volume 5 0)"
      "snd (fsw_block_get demo_host demo_volume 5 0)"] by (auto simp: FSW_INVALID_BNO_def)

text \<open>
  The extent lookup of HFS+ maps logical blocks as the eight extent descriptors of the
  fork lay them out: inside the fork it returns a run of consecutive physical blocks that
  starts at the block asked for; past the end it reports that the block is not found, or that
  more than eight fragments are not supported when all eight descriptors are in use.
\<close>

theorem get_ext_follows_extents:
  "(log_start e < length (fork_blocks d) \<and>
     (\<exists>e'. fsw_hfsplus_get_ext d e = Ok e' \<and> ext_type e' = EXT_PHYSBLOCK \<and> log_start e' = log_start e \<and>
       0 < log_count e' \<and> log_start e + log_count e' \<le> length (fork_blocks d) \<and>
       (\<forall>k \<in> {..<log_count e'}. add32 (phys_start e') k = fork_blocks d ! (log_start e + k)))) \<or>
   (length (fork_blocks d) \<le> log_start e \<and>
     fsw_hfsplus_get_ext d e = Err (if \<exists>x \<in> set (take 8 (extents d)). blockCount x = 0
       then FSW_NOT_FOUND else FSW_UNSUPPORTED))"
proof (cases "log_start e < length (fork_blocks d)")
  case True
  from get_ext_loop_inside [OF True [unfolded fork_blocks_def], of e] True show ?thesis
    by (auto simp: fsw_hfsplus_get_ext_def fork_blocks_def)
next
  case False
  then show ?thesis using get_ext_loop_outside [of "take kHFSPlusExtentDensity (extents d)" "log_start e" e]
    by (simp add: fsw_hfsplus_get_ext_def fork_blocks_def kHFSPlusExtentDensity_def)
qed

theorem get_ext_follows_extents_witness:
  "fsw_hfsplus_get_ext demo_cat (sh_extent (demo_handle 0)\<lparr>log_start := 1\<rparr>) = Err FSW_NOT_FOUND"
  using get_ext_follows_extents [of "sh_extent (demo_handle 0)\<lparr>log_start := 1\<rparr>" demo_cat]
  by (simp add: demo_cat_extents)

text \<open>
  Positions are cut to 32 bits: for a file larger than 4 GiB a read at a position past
  4 GiB delivers the data of the position modulo \<open>2 ^ 32\<close>, that is, of another place in
  the file.
\<close>

theorem read_past_4GiB_wraps:
  assumes "dnodes v (sh_dnode sh) = Some d" and "2 ^ 32 \<le> sh_pos sh" and "sh_pos sh < dn_size d"
    and "sh_pos sh + len \<le> dn_size d" and "len < 2 ^ 32"
  shows "fst (fsw_shandle_read h get_extent v sh len) =
    fst (fsw_shandle_read h get_extent v (sh\<lparr>sh_pos := sh_pos sh mod 2 ^ 32\<rparr>) len)"
proof -
  have "sh_pos sh mod 2 ^ 32 \<le> sh_pos sh" by (rule mod_less_eq_dividend)
  then have "\<not> dn_size d - sh_pos sh mod 2 ^ 32 < len" "\<not> dn_size d \<le> sh_pos sh mod 2 ^ 32"
    using assms(3,4) by linarith+
  with assms show ?thesis
    by (auto simp: fsw_shandle_read_def Let_def sub32_def split: prod.split outcome.split)
qed

definition demo_big :: hvol where
  "demo_big = demo_volume\<lparr>dnodes := [0 \<mapsto> demo_cat\<lparr>dn_size := 2 ^ 32 + 64\<rparr>]\<rparr>"

theorem read_past_4GiB_wraps_witness:
  "fst (fsw_shandle_read demo_host fsw_hfsplus_get_ext demo_big (demo_handle (2 ^ 32 + 4)) 2) =
    fst (fsw_shandle_read demo_host fsw_hfsplus_get_ext demo_big (demo_handle 4) 2)"
  using read_past_4GiB_wraps [of demo_big "demo_handle (2 ^ 32 + 4)" "demo_cat\<lparr>dn_size := 2 ^ 32 + 64\<rparr>" 2
      demo_host fsw_hfsplus_get_ext]
  by (simp add: demo_big_def demo_handle_def)

section \<open>Searching the catalog\<close>

text \<open>
  Catalog keys are compared as the parent id first and then the names character by
  character without regard to case: the sign of the comparison is that of the lexicographic
  order, and the comparison does not read outside the node.
\<close>

theorem cat_cmp_lexicographic:
  assumes "disk_key btnode k = Some (p, s)" and "sk_wf sk"
  shows "\<exists>c. fsw_hfsplus_cat_cmp btnode k sk = Some c \<and>
    (c < 0 \<longleftrightarrow> (p, s) < search_key sk) \<and> (c = 0 \<longleftrightarrow> (p, s) = search_key sk) \<and> (0 < c \<longleftrightarrow> search_key sk < (p, s))"
  using cat_cmp_ord [OF assms] by simp

theorem cat_cmp_lexicographic_witness:
  "\<exists>c. fsw_hfsplus_cat_cmp demo_node 14 (demo_key 2 0x41) = Some c \<and> c = 0"
proof -
  have k: "disk_key demo_node 14 = Some (2, [0x61])"
    by (simp add: disk_key_def key_parentID_def key_name_length_def demo_loads fsw_hfsplus_ucblatin_tolower_def)
  from cat_cmp_lexicographic [OF k, of "demo_key 2 0x41"] show ?thesis by auto
qed

text \<open>
  The binary search within a node agrees with a linear one: on a node with increasing
  keys it finds the record with the key, or stops at the last record with a smaller key. When
  every key of the node is larger, the search reads outside the node.
\<close>

theorem node_search_linear:
  assumes "node_keys disk_key btnode ndsz ks" and "nd_kind btnode = Some kind" and "sk_wf sk"
  shows "bt_node_search fsw_hfsplus_cat_cmp btnode ndsz sk 0 (length ks - 1) =
    (let p = first_idx (\<lambda>k. search_key sk \<le> k) ks
     in if p < length ks \<and> ks ! p = search_key sk
        then Ok (if kind = kBTLeafNode then Found p else Stopped p)
        else if p = 0 then Fault else Ok (Stopped (p - 1)))"
proof -
  have "ks \<noteq> []" using assms(1) by (simp add: node_keys_def)
  then show ?thesis
    using cat.node_search [OF assms, of 0 "length ks - 1"] by (auto simp: node_search_spec_def)
qed

theorem node_search_linear_witness:
  "bt_node_search fsw_hfsplus_cat_cmp demo_node 64 (demo_key 2 0x41) 0 0 = Ok (Found 0) \<and>
   bt_node_search fsw_hfsplus_cat_cmp demo_node 64 (demo_key 1 0x41) 0 0 = Fault"
  using node_search_linear [OF demo_node_keys, of kBTLeafNode "demo_key 2 0x41"]
    node_search_linear [OF demo_node_keys, of kBTLeafNode "demo_key 1 0x41"]
  by (simp add: nd_kind_def demo_loads kBTLeafNode_def first_idx_def Let_def)

text \<open>The setting of a search: the mounted catalog holds the tree \<open>t\<close>.\<close>

definition cat_tree :: "fsw_host \<Rightarrow> hvol \<Rightarrow> addr \<Rightarrow> fsw_hfsplus_dnode \<Rightarrow> fkey bt \<Rightarrow> bool" where
  "cat_tree h v a d t \<longleftrightarrow> cat_ready h v a d \<and> tree_ok disk_key (node_img h v d) (bt_ndsz d) t \<and>
     node_no t = bt_root d \<and> (\<forall>no \<in> set (node_nos t). node_in_fork d no)"

definition demo_fill :: "addr \<Rightarrow> unit hop" where
  "demo_fill = fsw_hfsplus_dno_fill 3 demo_host"

lemma cat_dnode_ready: "cat_ready h v a d \<Longrightarrow> cat_dnode v = (Ok (a, d), v)"
  by (simp add: cat_ready_def cat_dnode_def sop_simps dnode_get_def)

lemma demo_cat_tree: "cat_tree demo_host demo_volume 0 demo_cat demo_tree"
  using demo_ready demo_tree_ok by (simp add: cat_tree_def node_in_fork_def demo_tree_def)

lemma no_cat_error: "host_total h (phys_blocksize v) \<Longrightarrow> \<not> cat_rd.rd_error h fill a v d st"
  using cat_rdt.no_rd_error [of h fill a v d st]
  by (simp add: cat_rd.rd_error_def cat_rdt.rd_error_def)

lemma cat_search_tree:
  assumes "cat_tree h v a d t" and "sk_wf sk" and "height t < fuel"
    and "cat_search fuel h fill sk fsw_hfsplus_cat_cmp v = (r, v')"
  shows "cat_inv h v a d v' \<and> (lookup_spec (node_img h v d) t (search_key sk) r \<or>
    (\<exists>st. cat_rd.rd_error h fill a v d st \<and> r = Err st))"
proof -
  have rdy: "cat_ready h v a d" using assms(1) by (simp add: cat_tree_def)
  then have inv: "cat_inv h v a d v" by (simp add: cat_inv_def cat_ready_def readable_def cache_frame_def)
  from assms(4) have "bt_search_loop fuel (\<lambda>v pos len. fsw_hfsplus_read h fill a pos len v) (bt_ndsz d)
      fsw_hfsplus_cat_cmp sk v (node_no t) = (r, v')"
    using assms(1) by (simp add: cat_search_def fsw_hfsplus_bt_search_def sop_simps sbind_def
        cat_dnode_ready [OF rdy] cat_tree_def)
  from cat_ts.search_tree [OF _ assms(2) inv _ assms(3) this] assms(1) show ?thesis
    by (simp add: cat_tree_def)
qed

lemma cat_search_total:
  assumes "cat_tree h v a d t" and "sk_wf sk" and "height t < fuel"
    and "host_total h (phys_blocksize v)" and "first_key t \<le> search_key sk"
  shows "\<exists>r v'. cat_search fuel h fill sk fsw_hfsplus_cat_cmp v = (r, v') \<and> cache_frame v v' \<and> idle_ok h v' \<and>
    ((\<exists>no i. (no, i, search_key sk) \<in> set (leaf_recs t) \<and> r = Ok (node_img h v d no, i)) \<or>
     search_key sk \<notin> set (leaf_keys t) \<and> r = Err FSW_NOT_FOUND)"
proof -
  obtain r v' where eq: "cat_search fuel h fill sk fsw_hfsplus_cat_cmp v = (r, v')" by fastforce
  from cat_search_tree [OF assms(1-3) eq] have "cat_inv h v a d v'"
    "lookup_spec (node_img h v d) t (search_key sk) r \<or> (\<exists>st. cat_rd.rd_error h fill a v d st)" by blast+
  moreover note no_cat_error [OF assms(4)]
  ultimately show ?thesis using eq leD [OF assms(5)] by (auto simp: cat_inv_def lookup_spec_def)
qed



text \<open>
  Whatever the device does, a search of the catalog ends, keeps the volume but for the
  cache, and a record it returns is a record of the tree with the key asked for.
\<close>

theorem catalog_search_sound:
  assumes "cat_tree h v a d t" and "sk_wf sk" and "height t < fuel"
    and "cat_search fuel h fill sk fsw_hfsplus_cat_cmp v = (r, v')"
  shows "cache_frame v v' \<and> idle_ok h v' \<and> r \<noteq> Diverge \<and> (r = Fault \<longrightarrow> search_key sk < first_key t) \<and>
    (\<forall>b i. r = Ok (b, i) \<longrightarrow> (\<exists>no. (no, i, search_key sk) \<in> set (leaf_recs t) \<and> b = node_img h v d no))"
  using cat_search_tree [OF assms] by (auto simp: cat_inv_def lookup_spec_def split: if_splits)

theorem catalog_search_sound_witness:
  "fst (cat_search 1 demo_host demo_fill (demo_key 3 0x41) fsw_hfsplus_cat_cmp demo_volume) \<noteq> Diverge"
  using catalog_search_sound [OF demo_cat_tree, of "demo_key 3 0x41" 1 demo_fill] demo_total
  by (metis demo_key_sel(1) demo_tree_def height.simps(1) less_one prod.exhaust_sel)

text \<open>
  The search reads outside the node buffer for a key that comes before every key of the
  catalog: the 16-bit upper index wraps to 65535.
\<close>

theorem catalog_search_below_first:
  assumes "cat_tree h v a d t" and "sk_wf sk" and "height t < fuel"
    and "host_total h (phys_blocksize v)" and "search_key sk < first_key t"
  shows "fst (cat_search fuel h fill sk fsw_hfsplus_cat_cmp v) = Fault"
proof -
  obtain r v' where eq: "cat_search fuel h fill sk fsw_hfsplus_cat_cmp v = (r, v')" by fastforce
  have so: "sorted_wrt (<) (leaf_keys t)" "stored disk_key (node_img h v d) (bt_ndsz d) t"
    using assms(1) by (auto simp: cat_tree_def tree_ok_def)
  from cat_search_tree [OF assms(1-3) eq] no_cat_error [OF assms(4)] have "lookup_spec (node_img h v d) t (search_key sk) r" by blast
  with below_first [OF so(2,1) assms(5)] have "r = Fault"
    using assms(5) leaf_keys_iff by (fastforce simp: lookup_spec_def)
  with eq show ?thesis by simp
qed

theorem catalog_search_below_first_witness:
  "fst (cat_search 1 demo_host demo_fill (demo_key 1 0x41) fsw_hfsplus_cat_cmp demo_volume) = Fault"
  using catalog_search_below_first [OF demo_cat_tree, of "demo_key 1 0x41" 1 demo_fill] demo_total
  by (simp add: demo_tree_def less_prod_def)

section \<open>Directories\<close>

text \<open>
  C7: Reading a directory enumerates it: with the leaf of the search in the buffer and the
  leaves after it linked, a call at position \<open>k\<close> returns the first file or folder record
  among the records of the directory from the \<open>k\<close>-th on and advances the position past it,
  so that the entries left are exactly the remaining ones; when there is none it reports
  not found. Thread records are never returned.
\<close>

theorem dir_walk_enumerates:
  assumes "cat_ready h v a d" and "host_total h (phys_blocksize v)"
    and "leaf_chain (node_img h v d) (bt_ndsz d) (node_in_fork d) btnode infoss" and "length infoss \<le> fuel"
    and "rnum \<le> length (hd infoss)" and "length (chain_recs (node_img h v d) btnode infoss rnum) < 2 ^ 32"
    and "fsw_hfsplus_btree_get_rec fuel (\<lambda>v pos len. fsw_hfsplus_read h fill a pos len v) d pid v btnode rnum k =
      (r, k', v')"
  shows "cache_frame v v' \<and>
    (case dir_entries pid (chain_recs (node_img h v d) btnode infoss rnum) k of
       [] \<Rightarrow> r = Err FSW_NOT_FOUND
     | x # xs \<Rightarrow> r = Ok x \<and> k < k' \<and> dir_entries pid (chain_recs (node_img h v d) btnode infoss rnum) k' = xs)"
proof -
  let ?rs = "chain_recs (node_img h v d) btnode infoss rnum"
  have inv: "cat_inv h v a d v" using assms(1) by (simp add: cat_inv_def cat_ready_def readable_def cache_frame_def)
  from assms(7) have "get_rec_loop fuel (\<lambda>v pos len. fsw_hfsplus_read h fill a pos len v) (bt_ndsz d) pid v btnode
      rnum 0 k = (r, k', v')" by (simp add: fsw_hfsplus_btree_get_rec_def)
  from cat_rd.get_rec_chain [OF assms(3,4) inv assms(5) _ this] assms(6) no_cat_error [OF assms(2)]
  have cf: "cat_inv h v a d v'" and wk: "case walk pid 0 k ?rs of
      (Some x, k1) \<Rightarrow> r = Ok x \<and> k' = k1 | (None, k1) \<Rightarrow> r = Err FSW_NOT_FOUND \<and> k' = k1" by auto
  have "case dir_entries pid ?rs k of [] \<Rightarrow> r = Err FSW_NOT_FOUND
     | x # xs \<Rightarrow> r = Ok x \<and> k < k' \<and> dir_entries pid ?rs k' = xs"
    using walk_entries [of 0 k pid ?rs] wk by (auto split: list.splits)
  with cf show ?thesis by (simp add: cat_inv_def)
qed

lemma demo_chain: "leaf_chain img 64 valid demo_node [[(2, 1)]]"
  by (simp add: leaf_node_def rec_info_def fsw_hfsplus_btnode_get_rec_def key_parentID_def nd_numRecords_def
      nd_fLink_def fsw_hfsplus_bt_rec_skip_key_def demo_loads)

theorem dir_walk_enumerates_witness:
  "fst (fsw_hfsplus_btree_get_rec 1 (\<lambda>v pos len. fsw_hfsplus_read demo_host demo_fill 0 pos len v) demo_cat 2
     demo_volume demo_node 0 0) = Ok (demo_node, 0)"
proof -
  let ?R = "fsw_hfsplus_btree_get_rec 1 (\<lambda>v pos len. fsw_hfsplus_read demo_host demo_fill 0 pos len v) demo_cat 2
     demo_volume demo_node 0 0"
  have fl: "nd_fLink demo_node = Some 0" by (simp add: nd_fLink_def demo_loads)
  have "dir_entries 2 (chain_recs (node_img demo_host demo_volume demo_cat) demo_node [[(2, 1)]] 0) 0 = [(demo_node, 0)]"
    by (simp add: dir_entries_def node_part_def kHFSPlusFileRecord_def kHFSPlusFolderRecord_def fl)
  moreover have "?R = (fst ?R, fst (snd ?R), snd (snd ?R))" by simp
  moreover have "length (chain_recs (node_img demo_host demo_volume demo_cat) demo_node [[(2, 1)]] 0) < 2 ^ 32"
    by (simp add: node_part_def fl)
  ultimately show ?thesis
    using dir_walk_enumerates [OF demo_ready, of demo_node "[[(2, 1)]]" 1 0 demo_fill 2 0 "fst ?R" "fst (snd ?R)"
        "snd (snd ?R)"] demo_total demo_chain
    by (auto simp del: fst_conv snd_conv)
qed

section \<open>Dnodes\<close>

text \<open>
  C4: Releasing a dnode the caller holds a reference to never fails, faults or runs forever:
  the list of dnodes and all reference counts stay correct with one reference of the caller
  less, dnodes without references are freed (parents included), and no other dnode changes.
\<close>

theorem dnode_release_correct:
  assumes "dnodes_ok v as" and "refs_ok (dnodes v) ext" and "0 < ext a"
  shows "\<exists>v' as'. fsw_dnode_release a v = (Ok (), v') \<and> store_frame v v' \<and> dnodes_ok v' as' \<and>
    refs_ok (dnodes v') (ext(a := ext a - 1)) \<and> survives (dnodes v) (dnodes v')"
  using release_ok [OF assms] by metis

lemma demo_dnodes_ok: "dnodes_ok demo_volume [0]"
  by (simp add: dnodes_ok_def demo_cat_def zero_dnode_def)

lemma demo_refs_ok: "refs_ok (dnodes demo_volume) (\<lambda>x. if x = 0 then 1 else 0)"
  by (simp add: refs_ok_def node_refs_def children_def)

theorem dnode_release_correct_witness:
  "\<exists>v' as'. fsw_dnode_release 0 demo_volume = (Ok (), v') \<and> dnodes_ok v' as' \<and> refs_ok (dnodes v') (\<lambda>x. 0)"
proof -
  have "(\<lambda>x. if x = 0 then 1 else 0)(0 := (0 :: nat)) = (\<lambda>x :: nat. 0)" by auto
  with dnode_release_correct [OF demo_dnodes_ok demo_refs_ok, of 0] show ?thesis by auto
qed

text \<open>
  Creating a dnode for an id that already has one returns that dnode with one more
  reference and allocates nothing: within a volume there is one dnode per id.
\<close>

theorem dnode_create_shares:
  assumes "dnodes_ok v as" and "refs_ok (dnodes v) ext" and "dnodes v a = Some d" and "ids_unique (dnodes v)"
    and "refcount d + 1 < 2 ^ 32"
  shows "\<exists>v'. fsw_dnode_create h p (dnode_id d) type name v = (Ok a, v') \<and> store_frame v v' \<and> dnodes_ok v' as \<and>
    refs_ok (dnodes v') (ext(a := ext a + 1)) \<and> dnodes v' = (dnodes v)(a \<mapsto> d\<lparr>refcount := refcount d + 1\<rparr>)"
proof -
  let ?P = "\<lambda>b. \<exists>e. dnodes v b = Some e \<and> dnode_id e = dnode_id d"
  have "a \<in> set as" using assms(1,3) by (auto simp: dnodes_ok_def)
  then obtain b where b: "List.find ?P as = Some b" using assms(3) by (cases "List.find ?P as") (auto simp: find_None_iff)
  then obtain e where "dnodes v b = Some e" "dnode_id e = dnode_id d" by (auto simp: find_Some_iff)
  then have "b = a" using assms(3,4) by (auto simp: ids_unique_def)
  with create_found [OF assms(1) b]
  have cr: "fsw_dnode_create h p (dnode_id d) type name v = sthen (fsw_dnode_retain a) (sret a) v" by simp
  obtain v' where "fsw_dnode_retain a v = (Ok (), v')" "store_frame v v'" "dnodes_ok v' as"
    "refs_ok (dnodes v') (ext(a := ext a + 1))" "dnodes v' = (dnodes v)(a \<mapsto> d\<lparr>refcount := refcount d + 1\<rparr>)"
    using assms(1-3,5) by (rule retain_ok)
  with cr show ?thesis by (simp add: sop_simps)
qed

theorem dnode_create_shares_witness:
  "\<exists>v'. fsw_dnode_create demo_host None 4 TYPE_DIR empty_string demo_volume = (Ok 0, v')"
proof -
  have "ids_unique (dnodes demo_volume)" by (auto simp: ids_unique_def split: if_splits)
  with dnode_create_shares [OF demo_dnodes_ok demo_refs_ok, of 0 demo_cat demo_host None TYPE_DIR empty_string]
  show ?thesis by auto
qed

text \<open>
  Creating a dnode for a new id puts one in front of the list with a single reference and
  the name of the caller in the host's encoding, and keeps ids unique; when memory runs out,
  the store is as before.
\<close>

theorem dnode_create_fresh:
  assumes "dnodes_ok v as" and "refs_ok (dnodes v) ext" and "ids_unique (dnodes v)"
    and "dnid \<notin> dnode_id ` ran (dnodes v)"
    and "represents name cs" and "native_string_type h \<in> {STR_ISO88591, STR_UTF8, STR_UTF16}"
    and "\<forall>c \<in> set cs. c < char_limit (native_string_type h)"
  shows "(\<exists>v'. fsw_dnode_create h None dnid type name v = (Err FSW_OUT_OF_MEMORY, v') \<and> dnodes v' = dnodes v \<and>
      dnodes_ok v' as \<and> (\<exists>n size. \<not> alloc_ok h n size)) \<or>
    (\<exists>v' d. fsw_dnode_create h None dnid type name v = (Ok (next_addr v), v') \<and> alloc_frame v v' \<and>
      dnodes_ok v' (next_addr v # as) \<and> refs_ok (dnodes v') (ext(next_addr v := 1)) \<and> ids_unique (dnodes v') \<and>
      dnodes v (next_addr v) = None \<and> dnodes v' (next_addr v) = Some d \<and> dnode_id d = dnid \<and> dn_type d = type \<and>
      refcount d = 1 \<and> \<not> complete d \<and> represents (dn_name d) cs)"
proof -
  let ?P = "\<lambda>b. \<exists>e. dnodes v b = Some e \<and> dnode_id e = dnid"
  have none: "List.find ?P as = None" using assms(4) by (auto simp: find_None_iff image_iff ran_def)
  from assms(1,2) none assms(5-7) show ?thesis
  proof (cases rule: create_new [where type = type])
    case (oom v')
    then show ?thesis by blast
  next
    case (new v' nm')
    let ?n = "new_dnode dnid type nm'"
    have "ids_unique (contents ((dnodes v)(next_addr v \<mapsto> ?n)))"
      unfolding ids_unique_contents using assms(3,4)
      by (intro ids_unique_new) (auto simp: new_dnode_def image_iff ran_def)
    then have ids: "ids_unique (dnodes v')" using new(7) ids_unique_contents by metis
    from new(7) have "contents (dnodes v') (next_addr v) = Some (unlinked ?n)"
      by (simp add: contents_fun_upd)
    then obtain d where d: "dnodes v' (next_addr v) = Some d" "unlinked d = unlinked ?n"
      by (auto simp: contents_def)
    have "dnode_id d = dnid" "dn_type d = type" "refcount d = 1" "\<not> complete d" "dn_name d = nm'"
      using d(2) by (cases d; simp add: unlinked_def new_dnode_def zero_dnode_def)+
    with d new ids show ?thesis by (auto simp: domIff)
  qed
qed

theorem dnode_create_fresh_witness:
  "\<exists>v' d. fsw_dnode_create demo_host None 9 TYPE_DIR empty_string demo_volume = (Ok 1, v') \<and>
    dnodes v' 1 = Some d \<and> dnode_id d = 9"
proof -
  have "ids_unique (dnodes demo_volume)" by (auto simp: ids_unique_def split: if_splits)
  moreover have "represents empty_string []" by (simp add: represents_def empty_string_def)
  moreover have "9 \<notin> dnode_id ` ran (dnodes demo_volume)" by (auto simp: ran_def split: if_splits)
  ultimately show ?thesis
    using dnode_create_fresh [OF demo_dnodes_ok demo_refs_ok, of 9 empty_string "[]" demo_host TYPE_DIR] by auto
qed

section \<open>Strings\<close>

text \<open>
  C8: String comparison decides equality of the character sequences, in any two of the
  encodings (ISO 8859-1, UTF-8, UTF-16 and byte-swapped UTF-16), without reading past the
  data.
\<close>

theorem streq_decides:
  assumes "represents a cs1" and "represents b cs2"
  shows "fsw_streq a b = Some (cs1 = cs2)"
  using assms by (rule streq_chars)

lemma demo_eacute:
  "represents \<lparr>str_type = STR_UTF8, str_len = 1, str_size = 2, str_data = [0xC3, 0xA9]\<rparr> [0xE9]"
  by (simp add: represents_def char_limit_def units_def utf8_put_def unit_width_def drop_bit_eq_div)
    (simp flip: numeral_3_eq_3)

theorem streq_decides_witness:
  "fsw_streq \<lparr>str_type = STR_UTF8, str_len = 1, str_size = 2, str_data = [0xC3, 0xA9]\<rparr>
     \<lparr>str_type = STR_UTF16_SWAPPED, str_len = 1, str_size = 2, str_data = [0xE900]\<rparr> = Some True"
proof -
  have "represents \<lparr>str_type = STR_UTF16_SWAPPED, str_len = 1, str_size = 2, str_data = [0xE900]\<rparr> [0xE9]"
    by (simp add: represents_def char_limit_def units_def unit_width_def swap_unit_def FSW_SWAPVALUE_U16_def)
  from streq_decides [OF demo_eacute this] show ?thesis by simp
qed



text \<open>
  Splitting a path at a separator yields the characters before its first occurrence as
  the element and those after it as the rest, for the fixed-width encodings.
\<close>

theorem strsplit_splits:
  assumes "represents b cs" and "str_type b \<in> {STR_ISO88591, STR_UTF16}" and "cs \<noteq> []"
  shows "\<exists>e b'. fsw_strsplit e0 b sep = Some (e, b') \<and> represents e (takeWhile (\<lambda>c. c \<noteq> sep) cs) \<and>
    represents b' (tl (dropWhile (\<lambda>c. c \<noteq> sep) cs))"
  using strsplit_chars [OF assms] by blast

theorem strsplit_splits_witness:
  "\<exists>e b'. fsw_strsplit empty_string \<lparr>str_type = STR_ISO88591, str_len = 3, str_size = 3, str_data = [0x61, 0x2F, 0x62]\<rparr> 0x2F =
     Some (e, b') \<and> represents e [0x61] \<and> represents b' [0x62]"
proof -
  have "represents \<lparr>str_type = STR_ISO88591, str_len = 3, str_size = 3, str_data = [0x61, 0x2F, 0x62]\<rparr> [0x61, 0x2F, 0x62]"
    by (simp add: represents_def char_limit_def units_def unit_width_def)
  from strsplit_splits [OF this, of empty_string "0x2F"] show ?thesis by simp
qed

text \<open>
  Decoding undoes encoding in UTF-8 for every code point below \<open>2 ^ 21\<close>, whatever
  follows in the buffer.
\<close>

theorem utf8_decodes_encoded:
  assumes "c < 2 ^ 21"
  shows "next_UTF8 (utf8_put c @ p) = Some (c, p) \<and> length (utf8_put c) = utf8_size c"
  using utf8_roundtrip [OF assms] by (simp add: utf8_put_def utf8_size_def)

theorem utf8_decodes_encoded_witness: "next_UTF8 (utf8_put 0x20AC @ [1]) = Some (0x20AC, [1])"
  using utf8_decodes_encoded [of "0x20AC" "[1]"] by simp

end
