(* ===== verification/HfsLookup.thy ===== *)
theory HfsLookup
  imports HfsProperties
begin

text \<open>
  Whole operations of the HFS+ driver: mounting and unmounting, volume totals, the decimal
  strings of hard links, and looking up a name in a directory, which joins the string
  conversion, the catalog search and the dnode store.
\<close>

section \<open>Decimal strings\<close>

function digits :: "nat \<Rightarrow> nat list" where
  "digits n = (n mod 10 + 0x30) # (if 0 < n div 10 then digits (n div 10) else [])"
  by pat_completeness auto
termination by (relation "measure (\<lambda>n. n)") auto

declare digits.simps [simp del]

lemma itoa_put_digits:
  "itoa_put (pre @ replicate (dec_len n) 0) (length pre) n = Some (pre @ digits n)"
proof (induction n arbitrary: pre rule: less_induct)
  case (less n)
  show ?case
  proof (cases "0 < n div 10")
    case True
    then have "n div 10 < n" by auto
    from less.IH [OF this, of "pre @ [n mod 10 + 0x30]"] True show ?thesis
      by (simp add: itoa_put.simps [of _ _ n] dec_len.simps [of n] digits.simps [of n] store_bytes_def)
  next
    case False
    then show ?thesis
      by (simp add: itoa_put.simps [of _ _ n] dec_len.simps [of n] digits.simps [of n] store_bytes_def)
  qed
qed

lemma length_digits: "length (digits n) = dec_len n"
proof (induction n rule: digits.induct)
  case (1 n)
  then show ?case by (simp add: digits.simps [of n] dec_len.simps [of n])
qed

lemma itoa_reverse_nth:
  "j < length buf \<Longrightarrow> length (itoa_reverse buf i j) = length buf \<and>
    (\<forall>k < length buf. itoa_reverse buf i j ! k = (if i \<le> k \<and> k \<le> j then buf ! (i + j - k) else buf ! k))"
proof (induction buf i j rule: itoa_reverse.induct)
  case (1 buf i j)
  show ?case
  proof (cases "i < j")
    case True
    let ?b = "buf[i := buf ! j, j := buf ! i]"
    from 1 True have ih: "length (itoa_reverse ?b (i + 1) (j - 1)) = length buf"
      "\<And>k. k < length buf \<Longrightarrow> itoa_reverse ?b (i + 1) (j - 1) ! k =
        (if i + 1 \<le> k \<and> k \<le> j - 1 then ?b ! (i + 1 + (j - 1) - k) else ?b ! k)" by auto
    have "(if i + 1 \<le> k \<and> k \<le> j - 1 then ?b ! (i + 1 + (j - 1) - k) else ?b ! k) =
        (if i \<le> k \<and> k \<le> j then buf ! (i + j - k) else buf ! k)" if "k < length buf" for k
    proof -
      consider "k < i" | "k = i" | "i < k" "k < j" | "k = j" | "j < k" by linarith
      then show ?thesis using True that 1(2) by cases (auto simp: nth_list_update)
    qed
    with ih True show ?thesis by (simp add: itoa_reverse.simps [of buf])
  next
    case False
    then have "i + j - k = k" if "i \<le> k" "k \<le> j" for k using that by linarith
    with False show ?thesis by (simp add: itoa_reverse.simps [of buf])
  qed
qed

lemma itoa_reverse_rev: "buf \<noteq> [] \<Longrightarrow> itoa_reverse buf 0 (length buf - 1) = rev buf"
  using itoa_reverse_nth [of "length buf - 1" buf 0]
  by (auto intro!: nth_equalityI simp: rev_nth)

definition decimal_value :: "nat list \<Rightarrow> nat" where
  "decimal_value ds = foldl (\<lambda>n d. 10 * n + (d - 0x30)) 0 ds"

lemma decimal_value_digits: "decimal_value (rev (digits n)) = n"
proof (induction n rule: digits.induct)
  case (1 n)
  then show ?case by (simp add: digits.simps [of n] decimal_value_def)
qed

lemma digits_range: "d \<in> set (digits n) \<Longrightarrow> 0x30 \<le> d \<and> d \<le> 0x39"
proof (induction n rule: digits.induct)
  case (1 n)
  have "n mod 10 < 10" by simp
  with 1 show ?case by (fastforce simp: digits.simps [of n] split: if_splits)
qed

lemma digits_last: "last (digits n) = 0x30 \<Longrightarrow> n = 0"
proof (induction n rule: digits.induct)
  case (1 n)
  moreover have "digits (n div 10) \<noteq> []" by (simp add: digits.simps [of "n div 10"])
  ultimately show ?case by (auto simp: digits.simps [of n] split: if_splits)
qed

text \<open>
  The number of a hard link is written in decimal: for a number below \<open>2 ^ 31\<close> the
  string has exactly the digits of the number, most significant first and without leading
  zeros, and the writes stay inside the allocated buffer.
\<close>

theorem itoa_decimal:
  assumes "num < 2 ^ 31" and "alloc_ok h (allocs v) (itoa_len num)"
  shows "\<exists>ds v'. fsw_hfsplus_itoa h num v = (Ok ds, v') \<and> length ds = itoa_len num \<and> decimal_value ds = num \<and>
    (\<forall>d \<in> set ds. 0x30 \<le> d \<and> d \<le> 0x39) \<and> (hd ds = 0x30 \<longleftrightarrow> num = 0)"
proof -
  let ?ds = "rev (digits num)"
  have ne: "digits num \<noteq> []" by (simp add: digits.simps [of num])
  have len: "itoa_len num = length (digits num)" using assms(1) by (simp add: itoa_len_def length_digits)
  have "itoa_put (replicate (itoa_len num) 0) 0 num = Some (digits num)"
    using itoa_put_digits [of "[]" num] len by (simp add: length_digits)
  then have "fsw_hfsplus_itoa h num v = (Ok ?ds, v\<lparr>allocs := Suc (allocs v)\<rparr>)"
    using assms(2) ne itoa_reverse_rev [OF ne] len
    by (simp add: fsw_hfsplus_itoa_def Let_def sop_simps salloc_def fsw_alloc_def)
  moreover have "hd ?ds = 0x30 \<longleftrightarrow> num = 0"
    using digits_last [of num] ne by (auto simp: hd_rev) (simp add: digits.simps [of 0])
  ultimately show ?thesis using len decimal_value_digits digits_range by auto
qed

theorem itoa_decimal_witness:
  "\<exists>ds v'. fsw_hfsplus_itoa demo_host 90 demo_volume = (Ok ds, v') \<and> decimal_value ds = 90"
  using itoa_decimal [of 90 demo_host demo_volume] by auto

text \<open>
  From \<open>2 ^ 31\<close> on the signed copy of the number is negative, the buffer has room for
  one digit only, and the second digit is written past its end.
\<close>

theorem itoa_overflows:
  assumes "2 ^ 31 \<le> num" and "alloc_ok h (allocs v) 1"
  shows "fst (fsw_hfsplus_itoa h num v) = Fault"
proof -
  have "0 < num div 10" using assms(1) by (simp add: div_greater_zero_iff)
  then have "itoa_put [0] 0 num = None"
    by (simp add: itoa_put.simps [of "[0]"] itoa_put.simps [of _ "Suc 0"] store_bytes_def)
  then show ?thesis using assms
    by (simp add: fsw_hfsplus_itoa_def itoa_len_def Let_def sop_simps salloc_def fsw_alloc_def)
qed

theorem itoa_overflows_witness: "fst (fsw_hfsplus_itoa demo_host (2 ^ 31) demo_volume) = Fault"
  using itoa_overflows [of "2 ^ 31" demo_host demo_volume] by simp

section \<open>The volume\<close>

text \<open>
  The totals reported for a volume are the numbers of blocks times the block size
  modulo \<open>2 ^ 32\<close>: for a volume of 4 GiB or more the size reported is too small.
\<close>

theorem vol_stat_wraps:
  assumes "vh v = Some b" and "vh_blockSize b = Some bs" and "vh_totalBlocks b = Some tb"
    and "vh_freeBlocks b = Some fb"
  shows "fsw_hfsplus_vol_stat v = (Ok (bs * tb mod 2 ^ 32, bs * fb mod 2 ^ 32), v) \<and>
    (2 ^ 32 \<le> bs * tb \<longrightarrow> bs * tb mod 2 ^ 32 < bs * tb)"
proof -
  have "bs * tb mod 2 ^ 32 < 2 ^ 32" by simp
  then have "2 ^ 32 \<le> bs * tb \<Longrightarrow> bs * tb mod 2 ^ 32 < bs * tb" by linarith
  moreover have "fsw_hfsplus_vol_stat v = (Ok (bs * tb mod 2 ^ 32, bs * fb mod 2 ^ 32), v)"
    using assms by (simp add: fsw_hfsplus_vol_stat_def sop_simps mul32_def)
  ultimately show ?thesis by blast
qed

definition demo_header :: "byte list" where
  "demo_header = replicate 40 0 @ [0,0,16,0, 0,32,0,0, 0,0,0,1]"

theorem vol_stat_wraps_witness:
  "fst (fsw_hfsplus_vol_stat (demo_volume\<lparr>vh := Some demo_header\<rparr>)) = Ok (0, 4096)"
proof -
  have d: "drop 40 demo_header = [0,0,16,0, 0,32,0,0, 0,0,0,1]" by (simp add: demo_header_def)
  have len: "length demo_header = 52" by (simp add: demo_header_def)
  have nth: "demo_header ! (40 + k) = [0,0,16,0, 0,32,0,0, 0,0,0,1] ! k" if "k < 12" for k
    using nth_drop [of 40 demo_header k] d len by simp
  have "vh_blockSize demo_header = Some 4096" "vh_totalBlocks demo_header = Some 0x200000"
    "vh_freeBlocks demo_header = Some 1"
    using nth [of 0] nth [of 1] nth [of 2] nth [of 3] nth [of 4] nth [of 5] nth [of 6] nth [of 7] nth [of 8]
      nth [of 9] nth [of 10] nth [of 11]
    by (simp_all add: vh_blockSize_def vh_totalBlocks_def vh_freeBlocks_def be32_value len)
  from vol_stat_wraps [of "demo_volume\<lparr>vh := Some demo_header\<rparr>", OF _ this] show ?thesis by simp
qed

lemma read_header_total:
  assumes "\<forall>n s. alloc_ok h n s" and "idle_ok h v" and "read_block h (phys_blocksize v) kMasterDirectoryBlock = (None, b)"
    and "sizeof_HFSPlusVolumeHeader \<le> length b"
  shows "\<exists>v'. read_header h v = (Ok (take sizeof_HFSPlusVolumeHeader b), v') \<and> cache_frame v v' \<and> idle_ok h v'"
proof -
  have bno: "kMasterDirectoryBlock \<noteq> FSW_INVALID_BNO" by (simp add: kMasterDirectoryBlock_def FSW_INVALID_BNO_def)
  obtain r v1 where g: "fsw_block_get h v kMasterDirectoryBlock 0 = (r, v1)" by fastforce
  from idle_get_release [OF assms(2) bno g] assms(1,3)
  have r: "r = Ok (Some b)" and id: "idle_ok h (fsw_block_release v1 kMasterDirectoryBlock)" by auto
  have "cache_ok h v" "length (bcache v) < 2 ^ 31" using assms(2) by (auto simp: idle_ok_def)
  from fsw_block_get_inv [OF this(1) bno g this(2)] have "cache_frame v v1" by blast
  then have "cache_frame v (fsw_block_release v1 kMasterDirectoryBlock)"
    by (rule cache_frame_trans) simp
  with g r id assms(4) show ?thesis by (simp add: read_header_def load_bytes_def)
qed

text \<open>
  Mounting a device without the HFS+ signature in its header block fails with
  unsupported, and the volume that is thrown away holds no dnodes and an empty cache.
\<close>

theorem mount_rejects_signature:
  assumes "\<forall>n s. alloc_ok h n s" and "read_block h 512 2 = (None, b)" and "512 \<le> length b"
    and "be16 b 0 = Some sig" and "sig \<noteq> 0x482B"
  shows "\<exists>v'. fsw_mount fuel h = (Err FSW_UNSUPPORTED, v') \<and> dnodes v' = Map.empty \<and> bcache v' = [] \<and> vh v' = None"
proof -
  define v0 where "v0 = fsw_set_blocksize kHFSBlockSize kHFSBlockSize (fresh_volume\<lparr>allocs := 2\<rparr>)"
  have pb: "phys_blocksize v0 = 512" by (simp add: v0_def fsw_set_blocksize_def kHFSBlockSize_def fsw_blockcache_free_def)
  have idle: "idle_ok h v0" unfolding v0_def by (rule idle_ok_set_blocksize)
  obtain v1 where v1: "read_header h v0 = (Ok (take 512 b), v1)" "cache_frame v0 v1"
    using read_header_total [OF assms(1) idle, of b] assms(2,3) pb
    by (auto simp: kMasterDirectoryBlock_def sizeof_HFSPlusVolumeHeader_def)
  have sel: "dnodes v1 = Map.empty" "root v1 = None" "catf v1 = None"
    using v1(2) by (cases v1, simp add: cache_frame_def v0_def fsw_set_blocksize_def fsw_blockcache_free_def fresh_volume_def)+
  have sig: "vh_signature (take 512 b) = Some sig"
    using assms(3,4) by (simp add: vh_signature_def be16_value)
  let ?v2 = "v1\<lparr>vh := Some (take 512 b)\<rparr>"
  have "fsw_hfsplus_vol_mount fuel h (fresh_volume\<lparr>allocs := Suc 0\<rparr>) = (Err FSW_UNSUPPORTED, ?v2)"
    using v1(1) sig assms(1,5)
    by (simp add: fsw_hfsplus_vol_mount_def Let_def sop_simps salloc_def fsw_alloc_def kHFSPlusSigWord_def v0_def numeral_2_eq_2)
  moreover have "\<exists>v3. fsw_unmount ?v2 = (Ok (), v3) \<and> dnodes v3 = Map.empty \<and> bcache v3 = [] \<and> vh v3 = None"
    using sel by (simp add: fsw_unmount_def fsw_hfsplus_vol_free_def sop_simps fsw_blockcache_free_def)
  moreover have "allocs fresh_volume = 0" by (simp add: fresh_volume_def)
  ultimately show ?thesis
    using assms(1) by (auto simp: fsw_mount_def sop_simps salloc_def fsw_alloc_def on_err_def)
qed

theorem mount_rejects_signature_witness:
  "\<exists>v'. fsw_mount 1 (demo_host\<lparr>read_block := (\<lambda>bs bno. (None, replicate 512 0))\<rparr>) = (Err FSW_UNSUPPORTED, v')"
  using mount_rejects_signature [of "demo_host\<lparr>read_block := (\<lambda>bs bno. (None, replicate 512 0))\<rparr>" "replicate 512 0" 0 1]
  by (auto simp: be16_value)

section \<open>Unmounting\<close>

text \<open>
  The parent of a dnode. A store in which every reference is from a child, and in which the
  parents form no cycle, is empty.
\<close>

definition parent_rel :: "(addr \<Rightarrow> fsw_hfsplus_dnode option) \<Rightarrow> (addr \<times> addr) set" where
  "parent_rel m = {(b, a). \<exists>d. m b = Some d \<and> parent d = Some a}"

lemma parent_rel_survives: "survives m m' \<Longrightarrow> parent_rel m' \<subseteq> parent_rel m"
proof
  fix x assume s: "survives m m'" and "x \<in> parent_rel m'"
  then obtain b a d' where x: "x = (b, a)" "m' b = Some d'" "parent d' = Some a" by (auto simp: parent_rel_def)
  with s obtain d where "m b = Some d" "(unlinked d')\<lparr>refcount := 0\<rparr> = (unlinked d)\<lparr>refcount := 0\<rparr>"
    by (auto simp: survives_def)
  then show "x \<in> parent_rel m" using x
    by (cases d, cases d') (auto simp: parent_rel_def unlinked_def)
qed

lemma no_refs_empty:
  assumes "refs_ok m (\<lambda>_. 0)" and "acyclic (parent_rel m)"
  shows "m = Map.empty"
proof (rule ccontr)
  assume "m \<noteq> Map.empty"
  then obtain a0 where a0: "a0 \<in> dom m" by auto
  have fin: "finite (dom m)" using assms(1) by (simp add: refs_ok_def)
  have "parent_rel m \<subseteq> dom m \<times> dom m"
    using assms(1) by (auto simp: parent_rel_def refs_ok_def node_refs_def)
  then have "wf (parent_rel m)" using assms(2) fin finite_subset [of "parent_rel m"]
    by (intro finite_acyclic_wf) auto
  then obtain a where a: "a \<in> dom m" "\<And>b. (b, a) \<in> parent_rel m \<Longrightarrow> b \<notin> dom m"
    using a0 by (metis wfE_min)
  then have "children m a = {}" by (auto simp: children_def parent_rel_def)
  moreover from a(1) obtain d where "m a = Some d" by auto
  ultimately show False using refs_okD [OF assms(1)] by (fastforce simp: node_refs_def)
qed

lemma dnode_release_hvol:
  fixes v :: hvol
  assumes "store_frame v v'"
  shows "root v' = root v" "catf v' = catf v" "bcache v' = bcache v" "vh v' = vh v" "label v' = label v"
  using assms by (cases v, cases v', simp add: store_frame_def)+

lemma dnodes_ok_cong:
  "dnodes v' = dnodes v \<Longrightarrow> dnode_head v' = dnode_head v \<Longrightarrow> next_addr v' = next_addr v \<Longrightarrow> dnodes_ok v' as = dnodes_ok v as"
  by (simp add: dnodes_ok_def)

text \<open>
  C6: Unmounting frees everything: when the only references from outside are those of the
  volume to its root and its catalog and the parents form no cycle, no dnode is left, the
  block cache is empty and the header is gone.
\<close>

theorem unmount_frees_all:
  fixes v :: hvol
  assumes "dnodes_ok v as" and "refs_ok (dnodes v) ((\<lambda>_. 0)(r := 1, c := 1))" and "r \<noteq> c"
    and "root v = Some r" and "catf v = Some c" and "acyclic (parent_rel (dnodes v))"
  shows "\<exists>v'. fsw_unmount v = (Ok (), v') \<and> dnodes v' = Map.empty \<and> bcache v' = [] \<and> vh v' = None"
proof -
  let ?e = "(\<lambda>_. 0)(r := 1, c := 1 :: nat)"
  have "0 < ?e r" using assms(3) by simp
  with assms(1,2) obtain v1 as1 where v1: "fsw_dnode_release r v = (Ok (), v1)" "store_frame v v1" "dnodes_ok v1 as1"
    "refs_ok (dnodes v1) (?e(r := ?e r - 1))" "survives (dnodes v) (dnodes v1)" by (rule release_ok)
  let ?v2 = "v1\<lparr>vh := None\<rparr>"
  have e1: "?e(r := ?e r - 1) = (\<lambda>_. 0)(c := 1)" using assms(3) by auto
  have "dnodes_ok ?v2 as1" using v1(3) by (simp add: dnodes_ok_cong [of ?v2 v1])
  moreover have "refs_ok (dnodes ?v2) ((\<lambda>_. 0)(c := 1))" using v1(4) e1 by simp
  moreover have "0 < ((\<lambda>_. 0)(c := 1 :: nat)) c" by simp
  ultimately obtain v3 as3 where v3: "fsw_dnode_release c ?v2 = (Ok (), v3)" "store_frame ?v2 v3" "dnodes_ok v3 as3"
    "refs_ok (dnodes v3) (((\<lambda>_. 0)(c := 1))(c := ((\<lambda>_. 0)(c := 1 :: nat)) c - 1))"
    "survives (dnodes ?v2) (dnodes v3)" by (rule release_ok)
  have e3: "((\<lambda>_. 0)(c := 1))(c := ((\<lambda>_. 0)(c := 1 :: nat)) c - 1) = (\<lambda>_. 0)" by auto
  have "parent_rel (dnodes v3) \<subseteq> parent_rel (dnodes v)"
    using parent_rel_survives [OF v1(5)] parent_rel_survives [OF v3(5)] by simp
  then have "acyclic (parent_rel (dnodes v3))" using assms(6) acyclic_subset by blast
  then have "dnodes v3 = Map.empty" using v3(4) unfolding e3 by (rule no_refs_empty [rotated])
  then show ?thesis using v1 v3 assms(4,5) dnode_release_hvol [OF v1(2)] dnode_release_hvol [OF v3(2)]
    by (simp add: fsw_unmount_def fsw_hfsplus_vol_free_def sop_simps fsw_blockcache_free_def)
qed

definition demo_mounted :: hvol where
  "demo_mounted = demo_volume\<lparr>dnodes := [0 \<mapsto> demo_cat\<lparr>dn_prev := Some 1\<rparr>, 1 \<mapsto> demo_cat\<lparr>dnode_id := 2, dn_next := Some 0\<rparr>],
     dnode_head := Some 1, next_addr := 2, root := Some 1\<rparr>"

lemma demo_mounted_ok: "dnodes_ok demo_mounted [1, 0]"
  by (auto simp: dnodes_ok_def demo_mounted_def demo_cat_def zero_dnode_def)

lemma demo_mounted_refs: "refs_ok (dnodes demo_mounted) ((\<lambda>_. 0)(1 := 1, 0 := 1))"
  by (auto simp: refs_ok_def node_refs_def children_def demo_mounted_def split: if_splits)

theorem unmount_frees_all_witness:
  "\<exists>v'. fsw_unmount demo_mounted = (Ok (), v') \<and> dnodes v' = Map.empty"
proof -
  have "parent_rel (dnodes demo_mounted) = {}"
    by (auto simp: parent_rel_def demo_mounted_def split: if_splits)
  moreover have "root demo_mounted = Some 1" "catf demo_mounted = Some 0" by (simp_all add: demo_mounted_def)
  ultimately show ?thesis using unmount_frees_all [OF demo_mounted_ok demo_mounted_refs] by (auto simp: acyclic_def)
qed

section \<open>Looking up a name\<close>

lemma cat_tree_frame:
  assumes "cat_tree h v a d t" and "cache_frame v v'" and "idle_ok h v'"
  shows "cat_tree h v' a d t"
proof -
  have inv: "cat_inv h v a d v'" using assms by (simp add: cat_inv_def cat_tree_def)
  note r = cat_inv_ready [OF inv]
  have "node_img h v' d = node_img h v d" by (intro ext) (simp add: node_img_def r(5))
  then show ?thesis using assms(1) r by (simp add: cat_tree_def cat_ready_def)
qed

lemma cache_frame_allocs [simp]: "cache_frame v (v\<lparr>allocs := k\<rparr>)"
  by (simp add: cache_frame_def)

lemma idle_allocs [simp]: "idle_ok h (v\<lparr>allocs := k\<rparr>) = idle_ok h v"
  by (simp add: idle_ok_def cache_ok_def)

lemma fswstr2unistr_chars:
  assumes "represents name cs" and "\<forall>c \<in> set cs. c < 2 ^ 16" and "length cs \<le> 255" and "\<forall>n s. alloc_ok h n s"
  shows "\<exists>u k. fsw_hfsplus_fswstr2unistr h name v = (Ok u, v\<lparr>allocs := k\<rparr>) \<and> uni_length u = length cs \<and> unicode u = cs"
proof -
  have "copied h v STR_UTF16 cs (fsw_strdup_coerce h v STR_UTF16 name)"
    using assms by (intro strdup_coerce_chars) (auto simp: char_limit_def)
  then obtain d k where d: "fsw_strdup_coerce h v STR_UTF16 name = (Ok d, v\<lparr>allocs := k\<rparr>)"
    and r: "represents d cs" "str_type d = STR_UTF16" and len: "length (str_data d) = length (encode STR_UTF16 cs)"
    using assms(4) unfolding copied_def
    by (metis (no_types, lifting) prod.collapse fsw_volume.surjective fsw_volume.update_convs(9))
  have enc: "encode STR_UTF16 cs = cs" by (induction cs) (auto simp: units_def)
  have s: "str_len d = length cs" "str_size d = 2 * length cs" "str_data d = cs"
    using r len enc by (auto simp: represents_def unit_width_def)
  show ?thesis
  proof (cases "cs = []")
    case True
    with d s r show ?thesis
      by (auto simp: fsw_hfsplus_fswstr2unistr_def sop_simps Let_def fsw_strlen_def)
  next
    case False
    moreover have "length cs mod 2 ^ 16 = length cs" using assms(3) by simp
    ultimately show ?thesis using d s r assms(3)
      by (auto simp: fsw_hfsplus_fswstr2unistr_def sop_simps Let_def fsw_strlen_def fsw_strsize_def load_bytes_def
          kHFSPlusMaxFileNameChars_def)
  qed
qed

lemma leaf_recs_unique:
  fixes x :: "'a :: linorder"
  assumes "sorted_wrt (<) (leaf_keys t)" and "(no, i, x) \<in> set (leaf_recs t)" and "(no', i', x) \<in> set (leaf_recs t)"
  shows "no = no' \<and> i = i'"
proof -
  have "distinct (map (snd \<circ> snd) (leaf_recs t))"
    using assms(1) unfolding leaf_keys_def strict_sorted_iff by blast
  then have "inj_on (snd \<circ> snd) (set (leaf_recs t))" by (simp add: distinct_map)
  from inj_onD [OF this, of "(no, i, x)" "(no', i', x)"] assms(2,3) show ?thesis by auto
qed

text \<open>The search a lookup of a name in a directory performs.\<close>

lemma dir_get_search:
  fixes v :: hvol
  assumes "cat_tree h v c cd t" and "host_total h (phys_blocksize v)" and "height t < fuel"
    and "dnodes v da = Some dd"
    and "represents name cs" and "\<forall>x \<in> set cs. x < 2 ^ 16" and "length cs \<le> 255"
    and "first_key t \<le> (dnode_id dd, fold_name cs)"
  shows "\<exists>r v'. cache_frame v v' \<and>
    fsw_hfsplus_dir_get fuel h fill da name v = sbind (\<lambda>v. (r, v)) (\<lambda>(btnode, rnum).
      sbind (sload (rec_at btnode (bt_ndsz cd) rnum)) (\<lambda>(tk, rec).
      fsw_hfsplus_dnode_create_full h btnode rec da name)) v' \<and>
    ((\<exists>no i. (no, i, (dnode_id dd, fold_name cs)) \<in> set (leaf_recs t) \<and> r = Ok (node_img h v cd no, i)) \<or>
     (dnode_id dd, fold_name cs) \<notin> set (leaf_keys t) \<and> r = Err FSW_NOT_FOUND)"
proof -
  have al: "\<forall>n s. alloc_ok h n s" using assms(2) by (simp add: host_total_def)
  from fswstr2unistr_chars [OF assms(5-7) al, of v] obtain u k where
    u: "fsw_hfsplus_fswstr2unistr h name v = (Ok u, v\<lparr>allocs := k\<rparr>)" "uni_length u = length cs" "unicode u = cs" by blast
  define v1 where "v1 = v\<lparr>allocs := Suc k\<rparr>"
  let ?sk = "\<lparr>parentID = dnode_id dd, nodeName = u\<rparr>"
  have idle: "idle_ok h v" using assms(1) by (simp add: cat_tree_def cat_ready_def readable_def)
  have ct: "cat_tree h v1 c cd t" unfolding v1_def
    by (rule cat_tree_frame [OF assms(1)]) (simp_all add: idle)
  have sk: "sk_wf ?sk" "search_key ?sk = (dnode_id dd, fold_name cs)"
    using u by (simp_all add: sk_wf_def search_key_def)
  have im: "node_img h v1 cd = node_img h v cd" by (simp add: node_img_def fork_bytes_def v1_def fun_eq_iff)
  have "host_total h (phys_blocksize v1)" using assms(2) by (simp add: v1_def)
  from cat_search_total [OF ct sk(1) assms(3) this, of fill] assms(8) sk(2)
  obtain r v' where s: "cat_search fuel h fill ?sk fsw_hfsplus_cat_cmp v1 = (r, v')" "cache_frame v1 v'"
    and r: "(\<exists>no i. (no, i, (dnode_id dd, fold_name cs)) \<in> set (leaf_recs t) \<and> r = Ok (node_img h v cd no, i)) \<or>
     (dnode_id dd, fold_name cs) \<notin> set (leaf_keys t) \<and> r = Err FSW_NOT_FOUND" by (auto simp: im)
  have cr: "cat_ready h (v\<lparr>allocs := k\<rparr>) c cd"
    using cat_tree_frame [OF assms(1), of "v\<lparr>allocs := k\<rparr>"] idle by (simp add: cat_tree_def)
  have na: "node_alloc h (v\<lparr>allocs := k\<rparr>) = (Ok (bt_ndsz cd), v1)"
    using cat_dnode_ready [OF cr] al
    by (simp add: node_alloc_def sop_simps salloc_def fsw_alloc_def v1_def)
  have dg: "dnode_get da v = (Ok dd, v)" using assms(4) by (simp add: dnode_get_def)
  have "cache_frame v v'" using s(2) by (simp add: v1_def cache_frame_def)
  moreover have "fsw_hfsplus_dir_get fuel h fill da name v = sbind (\<lambda>v. (r, v)) (\<lambda>(btnode, rnum).
      sbind (sload (rec_at btnode (bt_ndsz cd) rnum)) (\<lambda>(tk, rec).
      fsw_hfsplus_dnode_create_full h btnode rec da name)) v'"
    using s(1) by (simp add: fsw_hfsplus_dir_get_def dg u(1) na sbind_def)
  ultimately show ?thesis using r by blast
qed

text \<open>
  Looking up a name that the catalog does not hold under the directory reports that it is
  not found, and creates and changes no dnode.
\<close>

theorem dir_lookup_missing:
  fixes v :: hvol
  assumes "cat_tree h v c cd t" and "host_total h (phys_blocksize v)" and "height t < fuel"
    and "dnodes v da = Some dd"
    and "represents name cs" and "\<forall>x \<in> set cs. x < 2 ^ 16" and "length cs \<le> 255"
    and "first_key t \<le> (dnode_id dd, fold_name cs)" and "(dnode_id dd, fold_name cs) \<notin> set (leaf_keys t)"
  shows "\<exists>v'. fsw_hfsplus_dir_get fuel h fill da name v = (Err FSW_NOT_FOUND, v') \<and> cache_frame v v'"
  using dir_get_search [OF assms(1-8), of fill] assms(9)
  by (auto simp: sop_simps leaf_keys_iff)

theorem dir_lookup_missing_witness:
  "\<exists>v'. fsw_hfsplus_dir_get 1 demo_host demo_fill 0 \<lparr>str_type = STR_ISO88591, str_len = 1, str_size = 1, str_data = [0x62]\<rparr>
     demo_volume = (Err FSW_NOT_FOUND, v')"
proof -
  have "represents \<lparr>str_type = STR_ISO88591, str_len = 1, str_size = 1, str_data = [0x62]\<rparr> [0x62]"
    by (simp add: represents_def char_limit_def units_def unit_width_def)
  from dir_lookup_missing [OF demo_cat_tree _ _ _ this, of 1 0 demo_cat demo_fill] demo_total show ?thesis
    by (auto simp: demo_tree_def fsw_hfsplus_ucblatin_tolower_def)
qed

text \<open>Completing a dnode from its record touches neither its links nor its count and identity.\<close>

lemma complete_fields_keeps:
  assumes "complete_fields b r x = Some x'"
  shows "dn_next x' = dn_next x \<and> dn_prev x' = dn_prev x \<and> refcount x' = refcount x \<and> dnode_id x' = dnode_id x \<and>
    dn_name x' = dn_name x"
  using assms
  by (auto simp: complete_fields_def complete_folder_def complete_file_def Let_def split: option.splits if_splits)

lemma complete_fields_type:
  assumes "complete_fields b r x = Some x'" and "rec_recordType b r = Some ty" and "ty \<in> {kHFSPlusFolderRecord, kHFSPlusFileRecord}"
  shows "dn_type x' = TYPE_DIR \<longleftrightarrow> ty = kHFSPlusFolderRecord"
  using assms
  by (auto simp: complete_fields_def complete_folder_def complete_file_def Let_def kHFSPlusFolderRecord_def
      kHFSPlusFileRecord_def split: option.splits if_splits)

lemma refs_ok_adopt:
  assumes refs: "refs_ok m ext" and a: "m a = Some x" "parent x = None" and p: "m p = Some pd" "p \<noteq> a" "refcount pd + 1 < 2 ^ 32"
    and x': "refcount x' = refcount x" "parent x' = Some p"
  shows "refs_ok (m(a \<mapsto> x', p \<mapsto> pd\<lparr>refcount := refcount pd + 1\<rparr>)) ext"
proof -
  define m' where "m' = m(a \<mapsto> x', p \<mapsto> pd\<lparr>refcount := refcount pd + 1\<rparr>)"
  have dm: "dom m' = dom m" using a p by (auto simp: m'_def)
  have ch: "children m' b = (if b = p then insert a (children m b) else children m b)" for b
    using a p x'(2) by (auto simp: children_def m'_def split: if_splits)
  have na: "a \<notin> children m p" using a by (simp add: children_def)
  have fin: "finite (children m p)" using refs by (intro finite_children) (simp add: refs_ok_def)
  have "node_refs m' ext y dy" if y: "m' y = Some dy" for y dy
  proof -
    consider "y = p" "dy = pd\<lparr>refcount := refcount pd + 1\<rparr>" | "y = a" "dy = x'" | "y \<noteq> p" "y \<noteq> a" "m y = Some dy"
      using y by (auto simp: m'_def split: if_splits)
    then show ?thesis
    proof cases
      case 1
      show ?thesis unfolding 1
        using refs_okD [OF refs p(1)] p(3) na fin by (simp add: node_refs_def ch dm)
    next
      case 2
      show ?thesis unfolding 2 using p(1,2) refs_okD [OF refs a(1)] x' by (auto simp: node_refs_def ch dm)
    next
      case 3
      then show ?thesis using refs_okD [OF refs 3(3)] by (auto simp: node_refs_def ch dm)
    qed
  qed
  with refs dm show ?thesis unfolding m'_def [symmetric] by (simp add: refs_ok_def)
qed

lemma dnode_complete_ok:
  assumes ok: "dnodes_ok v as" and refs: "refs_ok (dnodes v) ext"
    and a: "dnodes v a = Some x" "parent x = None" "complete_fields b r x = Some x'"
    and p: "dnodes v p = Some pd" "p \<noteq> a" "refcount pd + 1 < 2 ^ 32"
  defines "y \<equiv> x'\<lparr>parent := Some p, complete := True\<rparr>"
  shows "\<exists>v'. fsw_hfsplus_dnode_complete b r p a v = (Ok (), v') \<and> dnodes_ok v' as \<and> refs_ok (dnodes v') ext \<and>
    dnodes v' = (dnodes v)(a \<mapsto> y, p \<mapsto> pd\<lparr>refcount := refcount pd + 1\<rparr>)"
proof -
  let ?m = "(dnodes v)(a \<mapsto> y, p \<mapsto> pd\<lparr>refcount := refcount pd + 1\<rparr>)"
  note k = complete_fields_keeps [OF a(3)]
  have "add32 (refcount pd) 1 = refcount pd + 1" using p(3) by (simp add: add32_def)
  then have "fsw_hfsplus_dnode_complete b r p a v = (Ok (), v\<lparr>dnodes := ?m\<rparr>)"
    using a p(1,2) unfolding fsw_hfsplus_dnode_complete_def
    by (simp add: sop_simps dnode_get_def dnode_upd_def fsw_dnode_retain_def fsw_dnode_mkcomplete_def y_def
        fun_upd_twist)
  moreover have "dnodes_ok (v\<lparr>dnodes := (dnodes v)(a \<mapsto> y)\<rparr>) as"
    using k by (intro dnodes_ok_upd [OF ok a(1)]) (simp_all add: y_def)
  then have "dnodes_ok (v\<lparr>dnodes := (dnodes v)(a \<mapsto> y)\<rparr>\<lparr>dnodes := (dnodes (v\<lparr>dnodes := (dnodes v)(a \<mapsto> y)\<rparr>))
      (p \<mapsto> pd\<lparr>refcount := refcount pd + 1\<rparr>)\<rparr>) as"
    by (rule dnodes_ok_upd [where d = pd]) (use p in simp_all)
  then have "dnodes_ok (v\<lparr>dnodes := ?m\<rparr>) as" by simp
  moreover have "refs_ok ?m ext" using k by (intro refs_ok_adopt [OF refs a(1,2) p]) (simp_all add: y_def)
  ultimately show ?thesis by auto
qed

lemma refs_ok_same:
  assumes "refs_ok m ext" and "m a = Some x" and "refcount y = refcount x" and "parent y = parent x"
  shows "refs_ok (m(a \<mapsto> y)) ext"
proof -
  define m' where "m' = m(a \<mapsto> y)"
  have ch: "children m' b = children m b" for b
    unfolding m'_def using assms(2,4) by (rule children_upd_same)
  have dm: "dom m' = dom m" using assms(2) by (auto simp: m'_def)
  have "node_refs m' ext z dz" if "m' z = Some dz" for z dz
  proof (cases "z = a")
    case True
    with that have "dz = y" by (simp add: m'_def)
    with True refs_okD [OF assms(1,2)] assms(3,4) show ?thesis unfolding node_refs_def ch dm by metis
  next
    case False
    with that have "m z = Some dz" by (simp add: m'_def)
    from refs_okD [OF assms(1) this] show ?thesis unfolding node_refs_def ch dm .
  qed
  then show ?thesis using assms(1) dm unfolding m'_def [symmetric] by (simp add: refs_ok_def)
qed

lemma ids_unique_upd: "ids_unique m \<Longrightarrow> m a = Some x \<Longrightarrow> dnode_id y = dnode_id x \<Longrightarrow> ids_unique (m(a \<mapsto> y))"
  unfolding ids_unique_def by (auto split: if_splits)

text \<open>A dnode for an id not in use, and the directory it is created for.\<close>

lemma create_minimal_new:
  assumes ok: "dnodes_ok v as" and refs: "refs_ok (dnodes v) ext" and ids: "ids_unique (dnodes v)"
    and da: "dnodes v da = Some dd" "refcount dd + 1 < 2 ^ 32" and fid: "fid \<notin> dnode_id ` ran (dnodes v)"
    and nm: "represents name cs" "\<forall>c \<in> set cs. c < 2 ^ 16" and h: "native_string_type h = STR_UTF16" "\<forall>n s. alloc_ok h n s"
  obtains v' x pd where "fsw_hfsplus_dnode_create_minimal h pid fid name v = (Ok (next_addr v), v')"
    "dnodes_ok v' (next_addr v # as)" "refs_ok (dnodes v') (ext(next_addr v := 1))" "ids_unique (dnodes v')"
    "dnodes v' (next_addr v) = Some x" "dnode_id x = fid" "parent x = None" "represents (dn_name x) cs"
    "dnodes v' da = Some pd" "refcount pd + 1 < 2 ^ 32" "da \<noteq> next_addr v"
proof -
  let ?a = "next_addr v" and ?n = "new_dnode fid TYPE_UNKNOWN"
  have none: "List.find (\<lambda>b. \<exists>e. dnodes v b = Some e \<and> dnode_id e = fid) as = None"
    using fid by (auto simp: find_None_iff image_iff ran_def)
  have nst: "native_string_type h \<in> {STR_ISO88591, STR_UTF8, STR_UTF16}"
    "\<forall>c \<in> set cs. c < char_limit (native_string_type h)" using nm(2) h(1) by (auto simp: char_limit_def)
  obtain v2 n where cr: "fsw_dnode_create h None fid TYPE_UNKNOWN name v = (Ok ?a, v2)"
    and ok2: "dnodes_ok v2 (?a # as)" and refs2: "refs_ok (dnodes v2) (ext(?a := 1))" and n: "represents n cs"
    and fresh: "?a \<notin> dom (dnodes v)" and ct: "contents (dnodes v2) = contents ((dnodes v)(?a \<mapsto> ?n n))"
    using ok refs none nm(1) nst by (rule create_new [where type = TYPE_UNKNOWN]) (use h(2) in auto)
  have dane: "da \<noteq> ?a" using da(1) fresh by auto
  from ct have "contents (dnodes v2) ?a = Some (unlinked (?n n))" by (simp add: contents_fun_upd)
  then obtain x where x: "dnodes v2 ?a = Some x" "unlinked x = unlinked (?n n)" by (auto simp: contents_def)
  have xs: "dnode_id x = fid" "parent x = None" "dn_name x = n"
    using x(2) by (cases x; simp add: unlinked_def new_dnode_def zero_dnode_def)+
  from ct dane da(1) have "contents (dnodes v2) da = Some (unlinked dd)" by (simp add: contents_def contents_fun_upd)
  then obtain pd where pd: "dnodes v2 da = Some pd" "unlinked pd = unlinked dd" by (auto simp: contents_def)
  have rc: "refcount pd + 1 < 2 ^ 32" using pd(2) da(2) by (metis unlinked_sel(1))
  have "ids_unique (contents ((dnodes v)(?a \<mapsto> ?n n)))" unfolding ids_unique_contents
    using ids fid by (intro ids_unique_new) (auto simp: new_dnode_def image_iff ran_def)
  then have ids2: "ids_unique (dnodes v2)" using ct ids_unique_contents by metis
  let ?v3 = "v2\<lparr>dnodes := (dnodes v2)(?a \<mapsto> x\<lparr>parent_id := pid\<rparr>)\<rparr>"
  have "fsw_hfsplus_dnode_create_minimal h pid fid name v = (Ok ?a, ?v3)"
    using cr x(1) by (simp add: fsw_hfsplus_dnode_create_minimal_def sop_simps dnode_upd_def dnode_get_def)
  moreover have "dnodes_ok ?v3 (?a # as)" using ok2 x(1) by (rule dnodes_ok_upd) simp_all
  moreover have "refs_ok (dnodes ?v3) (ext(?a := 1))" using refs_ok_same [OF refs2 x(1)] by simp
  moreover have "ids_unique (dnodes ?v3)" using ids_unique_upd [OF ids2 x(1)] by simp
  ultimately show thesis using xs n pd(1) rc dane by (intro that [of ?v3 "x\<lparr>parent_id := pid\<rparr>" pd]) auto
qed

lemma create_full_new:
  assumes "dnodes_ok v as" and "refs_ok (dnodes v) ext" and "ids_unique (dnodes v)"
    and "dnodes v da = Some dd" and "refcount dd + 1 < 2 ^ 32" and "fid \<notin> dnode_id ` ran (dnodes v)"
    and "represents name cs" and "\<forall>c \<in> set cs. c < 2 ^ 16" and "native_string_type h = STR_UTF16" and "\<forall>n s. alloc_ok h n s"
    and "rec_recordType b rec = Some ty" and "ty \<in> {kHFSPlusFolderRecord, kHFSPlusFileRecord}"
    and "rec_fileID b rec = Some fid" and "\<forall>x. complete_fields b rec x \<noteq> None"
  shows "\<exists>v' d. fsw_hfsplus_dnode_create_full h b rec da name v = (Ok (next_addr v), v') \<and>
    dnodes v' (next_addr v) = Some d \<and> dnode_id d = fid \<and> complete d \<and> parent d = Some da \<and>
    (dn_type d = TYPE_DIR \<longleftrightarrow> ty = kHFSPlusFolderRecord) \<and> represents (dn_name d) cs \<and>
    dnodes_ok v' (next_addr v # as) \<and> refs_ok (dnodes v') (ext(next_addr v := 1)) \<and> ids_unique (dnodes v')"
proof -
  let ?a = "next_addr v"
  obtain v1 x pd where v1: "fsw_hfsplus_dnode_create_minimal h (dnode_id dd) fid name v = (Ok ?a, v1)"
    "dnodes_ok v1 (?a # as)" "refs_ok (dnodes v1) (ext(?a := 1))" "ids_unique (dnodes v1)"
    and x: "dnodes v1 ?a = Some x" "dnode_id x = fid" "parent x = None" "represents (dn_name x) cs"
    and pd: "dnodes v1 da = Some pd" "refcount pd + 1 < 2 ^ 32" "da \<noteq> ?a"
    using assms(1-10) by (rule create_minimal_new)
  obtain x' where x': "complete_fields b rec x = Some x'" using assms(14) by blast
  let ?y = "x'\<lparr>parent := Some da, complete := True\<rparr>"
  obtain v2 where v2: "fsw_hfsplus_dnode_complete b rec da ?a v1 = (Ok (), v2)" "dnodes_ok v2 (?a # as)"
    "refs_ok (dnodes v2) (ext(?a := 1))"
    "dnodes v2 = (dnodes v1)(?a \<mapsto> ?y, da \<mapsto> pd\<lparr>refcount := refcount pd + 1\<rparr>)"
    using dnode_complete_ok [OF v1(2,3) x(1,3) x' pd(1,3,2)] by blast
  note kp = complete_fields_keeps [OF x']
  have "ids_unique ((dnodes v1)(?a \<mapsto> ?y))" using kp by (intro ids_unique_upd [OF v1(4) x(1)]) simp
  then have "ids_unique (dnodes v2)" unfolding v2(4)
    by (rule ids_unique_upd [where x = pd]) (use pd in simp_all)
  moreover have "fsw_hfsplus_dnode_create_full h b rec da name v = (Ok ?a, v2)"
    using assms(4,11-13) v1(1) v2(1) by (auto simp: fsw_hfsplus_dnode_create_full_def sop_simps dnode_get_def)
  moreover have "dnodes v2 ?a = Some ?y" using v2(4) pd(3) by simp
  ultimately show ?thesis using v2(2,3) kp x complete_fields_type [OF x' assms(11,12)]
    by (intro exI [of _ v2] exI [of _ ?y]) simp
qed


lemma demo_rec:
  "rec_at demo_node 64 0 = Some (14, 24)" "rec_recordType demo_node 24 = Some 1" "rec_fileID demo_node 24 = Some 9"
  by (simp_all add: rec_at_def fsw_hfsplus_btnode_get_rec_def fsw_hfsplus_bt_rec_skip_key_def rec_recordType_def
      rec_fileID_def demo_loads)

lemma demo_complete: "\<forall>x. complete_fields demo_node 24 x \<noteq> None"
  by (simp add: complete_fields_def demo_rec kHFSPlusFolderRecord_def complete_folder_def rec_createDate_def
      rec_contentModDate_def rec_accessDate_def demo_loads)


text \<open>
  Looking up the same name again while its dnode is still held leaks a reference to the
  directory: the existing dnode is returned, its completion is repeated and retains the
  parent once more although the parent has no new child, so the counts no longer match the
  references (and unmounting will not free the directory).
\<close>

theorem repeated_lookup_leaks_parent:
  assumes "dnodes_ok v as" and "refs_ok (dnodes v) ext" and "ids_unique (dnodes v)"
    and "dnodes v a = Some x" and "parent x = Some da" and "refcount x + 1 < 2 ^ 32" and "a \<noteq> da"
    and "dnodes v da = Some dd" and "refcount dd + 1 < 2 ^ 32"
    and "rec_recordType b rec = Some ty" and "ty \<in> {kHFSPlusFolderRecord, kHFSPlusFileRecord}"
    and "rec_fileID b rec = Some (dnode_id x)" and "\<forall>x. complete_fields b rec x \<noteq> None"
  shows "\<exists>v' d'. fsw_hfsplus_dnode_create_full h b rec da name v = (Ok a, v') \<and>
    children (dnodes v') da = children (dnodes v) da \<and> dnodes v' da = Some d' \<and> refcount d' = refcount dd + 1 \<and>
    \<not> refs_ok (dnodes v') (ext(a := ext a + 1))"
proof -
  let ?P = "\<lambda>b. \<exists>e. dnodes v b = Some e \<and> dnode_id e = dnode_id x"
  have "a \<in> set as" using assms(1,4) by (auto simp: dnodes_ok_def)
  then obtain b' where b': "List.find ?P as = Some b'" using assms(4) by (cases "List.find ?P as") (auto simp: find_None_iff)
  then obtain e where "dnodes v b' = Some e" "dnode_id e = dnode_id x" by (auto simp: find_Some_iff)
  then have "b' = a" using assms(3,4) by (auto simp: ids_unique_def)
  with create_found [OF assms(1) b'] have cr: "fsw_dnode_create h None (dnode_id x) TYPE_UNKNOWN name v =
      sthen (fsw_dnode_retain a) (sret a) v" by simp
  let ?x1 = "x\<lparr>refcount := refcount x + 1, parent_id := dnode_id dd\<rparr>"
  obtain x' where x': "complete_fields b rec ?x1 = Some x'" using assms(13) by blast
  define m where "m = (dnodes v)(a \<mapsto> x'\<lparr>parent := Some da, complete := True\<rparr>, da \<mapsto> dd\<lparr>refcount := refcount dd + 1\<rparr>)"
  have ad: "add32 (refcount x) 1 = refcount x + 1" "add32 (refcount dd) 1 = refcount dd + 1"
    using assms(6,9) by (simp_all add: add32_def)
  have cm: "fsw_hfsplus_dnode_create_minimal h (dnode_id dd) (dnode_id x) name v =
      (Ok a, v\<lparr>dnodes := (dnodes v)(a \<mapsto> ?x1)\<rparr>)"
    using assms(4) ad by (simp add: fsw_hfsplus_dnode_create_minimal_def sbind_def cr sop_simps fsw_dnode_retain_def
        dnode_upd_def dnode_get_def)
  have "fsw_hfsplus_dnode_complete b rec da a (v\<lparr>dnodes := (dnodes v)(a \<mapsto> ?x1)\<rparr>) = (Ok (), v\<lparr>dnodes := m\<rparr>)"
    using x' ad assms(7,8) unfolding fsw_hfsplus_dnode_complete_def
    by (simp add: sop_simps dnode_get_def dnode_upd_def fsw_dnode_retain_def fsw_dnode_mkcomplete_def m_def fun_upd_twist)
  then have cf: "fsw_hfsplus_dnode_create_full h b rec da name v = (Ok a, v\<lparr>dnodes := m\<rparr>)"
    using assms(8,10-12) cm by (auto simp: fsw_hfsplus_dnode_create_full_def sop_simps dnode_get_def)
  have ch: "children m da = children (dnodes v) da"
    using assms(4,5,7,8) by (auto simp: children_def m_def split: if_splits)
  have md: "m da = Some (dd\<lparr>refcount := refcount dd + 1\<rparr>)" by (simp add: m_def)
  have "\<not> refs_ok m (ext(a := ext a + 1))"
  proof
    assume "refs_ok m (ext(a := ext a + 1))"
    from refs_okD [OF this md] refs_okD [OF assms(2,8)] assms(7) show False by (simp add: node_refs_def ch)
  qed
  with cf ch md show ?thesis by auto
qed

definition demo_opened :: hvol where
  "demo_opened = demo_volume\<lparr>dnodes := [0 \<mapsto> demo_cat\<lparr>refcount := 2, dn_prev := Some 1\<rparr>,
     1 \<mapsto> demo_cat\<lparr>dnode_id := 9, dn_next := Some 0, parent := Some 0\<rparr>], dnode_head := Some 1, next_addr := 2\<rparr>"

theorem repeated_lookup_leaks_parent_witness:
  "\<exists>v' d'. fsw_hfsplus_dnode_create_full demo_host demo_node 24 0 empty_string demo_opened = (Ok 1, v') \<and>
     dnodes v' 0 = Some d' \<and> refcount d' = 3"
proof -
  let ?v = demo_opened and ?d = "demo_cat\<lparr>refcount := 2, dn_prev := Some 1\<rparr>"
    and ?x = "demo_cat\<lparr>dnode_id := 9, dn_next := Some 0, parent := Some 0\<rparr>"
  have sel: "dnodes ?v 0 = Some ?d" "dnodes ?v 1 = Some ?x" by (simp_all add: demo_opened_def)
  have ok: "dnodes_ok ?v [1, 0]" by (auto simp: dnodes_ok_def demo_opened_def demo_cat_def zero_dnode_def)
  have ch: "children (dnodes ?v) b = (if b = 0 then {1} else {})" for b
    by (auto simp: children_def demo_opened_def split: if_splits)
  have "refs_ok (dnodes ?v) ((\<lambda>_. 0)(1 := 1, 0 := 1))"
    unfolding refs_ok_def node_refs_def ch by (auto simp: demo_opened_def split: if_splits)
  moreover have "ids_unique (dnodes ?v)" by (auto simp: ids_unique_def demo_opened_def split: if_splits)
  ultimately show ?thesis
    using repeated_lookup_leaks_parent [OF ok _ _ sel(2) _ _ _ sel(1), of "(\<lambda>_. 0)(1 := 1, 0 := 1)" demo_node 24 1
        demo_host empty_string] demo_rec demo_complete
    by (auto simp: kHFSPlusFolderRecord_def)
qed

end
