(* ===== verification/EfiTypes.thy ===== *)
theory EfiTypes
  imports Prelude
begin

text \<open>
  What the firmware modules share: the status codes of UEFI they return, values stored as
  little-endian bytes, and memory filled with a byte.
\<close>

datatype EFI_STATUS =
  EFI_SUCCESS | EFI_INVALID_PARAMETER | EFI_UNSUPPORTED | EFI_BAD_BUFFER_SIZE | EFI_BUFFER_TOO_SMALL |
  EFI_NOT_FOUND | EFI_ACCESS_DENIED | EFI_ABORTED | EFI_ALREADY_STARTED | EFI_OUT_OF_RESOURCES |
  EFI_PROTOCOL_ERROR | EFI_DEVICE_ERROR | EFI_NO_MAPPING | EFI_WRITE_PROTECTED | EFI_NOT_READY |
  EFI_NOT_STARTED | EFI_VOLUME_CORRUPTED | EFI_SECURITY_VIOLATION |
  EFI_VOLUME_FULL | EFI_END_OF_FILE | EFI_TIMEOUT | EFI_NO_MEDIA | EFI_WARN_DELETE_FAILURE

text \<open>Modes and attributes of files.\<close>

definition EFI_FILE_MODE_READ :: nat where "EFI_FILE_MODE_READ = 1"
definition EFI_FILE_MODE_WRITE :: nat where "EFI_FILE_MODE_WRITE = 2"
definition EFI_FILE_MODE_CREATE :: nat where "EFI_FILE_MODE_CREATE = 2 ^ 63"
definition EFI_FILE_READ_ONLY :: nat where "EFI_FILE_READ_ONLY = 1"
definition EFI_FILE_DIRECTORY :: nat where "EFI_FILE_DIRECTORY = 0x10"
definition EFI_FILE_VALID_ATTR :: nat where "EFI_FILE_VALID_ATTR = 0x37"

definition EFI_PAGE_SIZE :: nat where
  "EFI_PAGE_SIZE = 4096"

definition EFI_SIZE_TO_PAGES :: "nat \<Rightarrow> nat" where
  "EFI_SIZE_TO_PAGES s = s div EFI_PAGE_SIZE + (if s mod EFI_PAGE_SIZE \<noteq> 0 then 1 else 0)"

lemma pages_cover: "n \<le> EFI_SIZE_TO_PAGES n * EFI_PAGE_SIZE"
proof -
  have "n mod EFI_PAGE_SIZE \<le> (if n mod EFI_PAGE_SIZE \<noteq> 0 then 1 else 0) * EFI_PAGE_SIZE"
    by (simp add: EFI_PAGE_SIZE_def less_imp_le)
  then have "n div EFI_PAGE_SIZE * EFI_PAGE_SIZE + n mod EFI_PAGE_SIZE \<le> EFI_SIZE_TO_PAGES n * EFI_PAGE_SIZE"
    by (simp only: EFI_SIZE_TO_PAGES_def add_mult_distrib add_left_mono)
  then show ?thesis by (simp only: div_mult_mod_eq)
qed

section \<open>Little-endian bytes\<close>

fun le_bytes :: "nat \<Rightarrow> nat \<Rightarrow> byte list" where
  "le_bytes 0 v = []"
| "le_bytes (Suc n) v = of_nat v # le_bytes n (v div 256)"

fun le_value :: "byte list \<Rightarrow> nat" where
  "le_value [] = 0"
| "le_value (b # bs) = unat b + 256 * le_value bs"

lemma length_le_bytes [simp]: "length (le_bytes n v) = n"
  by (induction n arbitrary: v) auto

lemma unat_of_nat_byte [simp]: "unat (of_nat v :: byte) = v mod 256"
  by (simp add: unat_of_nat)

lemma le_value_le_bytes: "le_value (le_bytes n v) = v mod 256 ^ n"
proof (induction n arbitrary: v)
  case (Suc n)
  have "v mod 256 + 256 * (v div 256 mod 256 ^ n) = v mod (256 * 256 ^ n)"
    by (simp add: mod_mult2_eq)
  with Suc show ?case by simp
qed simp

lemma le_value_append: "le_value (xs @ ys) = le_value xs + 256 ^ length xs * le_value ys"
  by (induction xs) (auto simp: algebra_simps)

lemma unat_byte_less: "unat (b :: byte) < 256"
  by (rule order_less_le_trans [OF unsigned_less]) simp

lemma le_value_bound: "le_value bs < 256 ^ length bs"
proof (induction bs)
  case (Cons b bs)
  have "unat b < 256" by (rule unat_byte_less)
  with Cons show ?case by simp
qed simp

lemma le_bytes_le_value: "le_bytes (length bs) (le_value bs) = bs"
proof (induction bs)
  case (Cons b bs)
  have b: "unat b < 256" by (rule unat_byte_less)
  then have "(unat b + 256 * le_value bs) div 256 = le_value bs" by simp
  moreover have "(of_nat (unat b + 256 * le_value bs) :: byte) = b"
    by (rule word_unat_eq_iff [THEN iffD2]) (use b in \<open>simp only: unat_of_nat_byte mod_mult_self2 mod_less\<close>)
  ultimately show ?case using Cons by simp
qed simp

text \<open>A field of a structure in memory.\<close>

definition le_field :: "byte list \<Rightarrow> nat \<Rightarrow> nat \<Rightarrow> nat option" where
  "le_field m off n = map_option le_value (load_bytes m off n)"

lemma load_at: "off = length xs \<Longrightarrow> n = length ys \<Longrightarrow> load_bytes (xs @ ys @ zs) off n = Some ys"
  by (simp add: load_bytes_def)

lemma le_field_le_bytes: "off = length xs \<Longrightarrow> le_field (xs @ le_bytes n v @ zs) off n = Some (v mod 256 ^ n)"
  by (simp add: le_field_def load_at le_value_le_bytes)

lemma le_field_at: "off = length xs \<Longrightarrow> v < 256 ^ n \<Longrightarrow> le_field (xs @ le_bytes n v @ zs) off n = Some v"
  by (simp add: le_field_le_bytes)

lemma le_field_some: "off + n \<le> length b \<Longrightarrow> \<exists>v. le_field b off n = Some v"
  by (simp add: le_field_def load_bytes_def)

lemma le_field_less: "le_field b off n = Some v \<Longrightarrow> v < 256 ^ n"
  using le_value_bound [of "take n (drop off b)"] by (auto simp: le_field_def load_bytes_def split: if_splits)

definition set_mem :: "byte list \<Rightarrow> nat \<Rightarrow> nat \<Rightarrow> byte \<Rightarrow> byte list option" where
  "set_mem m off n v = store_bytes m off (replicate n v)"

lemma load_bytes_some: "load_bytes m i n = Some bs \<Longrightarrow> bs = take n (drop i m) \<and> i + n \<le> length m"
  by (auto simp: load_bytes_def split: if_splits)

end
