(* ===== verification/EmuFvb.thy ===== *)
theory EmuFvb
  imports EfiTypes
begin

text \<open>
  The emulated non-volatile variable store: the firmware volume block driver of
  \<^verbatim>\<open>EmuVariableFvbRuntimeDxe/Fvb.c\<close> with the platform hooks of
  \<^verbatim>\<open>Library/EmuVariableFvbLib\<close>. The store is a buffer in memory of twice the spare size;
  blocks are read, written and erased in it, and the driver's entry point finds or creates the
  volume in it. A result \<open>None\<close> is an access outside the buffer or a failed assertion.
\<close>

section \<open>Configuration and state\<close>

text \<open>The configuration items (PCDs) the driver reads and sets.\<close>

record fvb_pcd =
  FtwSpareSize :: nat
  VariableSize :: nat
  FtwWorkingSize :: nat
  VariableBase64 :: nat
  NvStoreReserved :: nat
  FtwWorkingBase :: nat
  FtwSpareBase :: nat
  EmuVariableEvent :: nat

definition EMU_FVB_BLOCK_SIZE :: nat where "EMU_FVB_BLOCK_SIZE = EFI_PAGE_SIZE"

definition EMU_FVB_NUM_SPARE_BLOCKS :: "fvb_pcd \<Rightarrow> nat" where
  "EMU_FVB_NUM_SPARE_BLOCKS p = EFI_SIZE_TO_PAGES (FtwSpareSize p)"

definition EMU_FVB_NUM_TOTAL_BLOCKS :: "fvb_pcd \<Rightarrow> nat" where
  "EMU_FVB_NUM_TOTAL_BLOCKS p = 2 * EMU_FVB_NUM_SPARE_BLOCKS p"

definition EMU_FVB_SIZE :: "fvb_pcd \<Rightarrow> nat" where
  "EMU_FVB_SIZE p = EMU_FVB_NUM_TOTAL_BLOCKS p * EMU_FVB_BLOCK_SIZE"

definition EMU_FV_HEADER_LENGTH :: nat where "EMU_FV_HEADER_LENGTH = 72"
definition ERASED_UINT8 :: byte where "ERASED_UINT8 = 0xFF"

text \<open>
  The device: where the buffer is and what it holds. With it the state of the platform hook:
  the event it signals (0 while unset), whether the system is in runtime, and the events
  signalled so far.
\<close>

record EFI_FW_VOL_BLOCK_DEVICE =
  BufferPtr :: nat
  fvb_buffer :: "byte list"
  BlockSize :: nat
  fvb_Size :: nat
  StartingAddress :: nat
  EndingAddress :: nat
  EventToSignal :: nat
  AtRuntime :: bool
  signalled :: "nat list"
  published :: bool
  pcds :: fvb_pcd

abbreviation num_blocks :: "EFI_FW_VOL_BLOCK_DEVICE \<Rightarrow> nat" where
  "num_blocks d \<equiv> EMU_FVB_NUM_TOTAL_BLOCKS (pcds d)"

text \<open>
  What comes from the platform headers and the base library: the GUID of the variable
  volume, signature, revision, store state bytes and attribute bits, and the two checksum routines, which
  take the bytes they sum over.
\<close>

record fv_lib =
  NvDataFvGuid :: "byte list"
  FvhSignature :: nat
  FvhRevision :: nat
  StoreFormatted :: nat
  StoreHealthy :: nat
  EFI_FVB2_READ_ENABLED_CAP :: nat
  EFI_FVB2_READ_STATUS :: nat
  EFI_FVB2_WRITE_ENABLED_CAP :: nat
  EFI_FVB2_WRITE_STATUS :: nat
  EFI_FVB2_ERASE_POLARITY :: nat
  CalculateSum16 :: "byte list \<Rightarrow> nat"
  CalculateCheckSum16 :: "byte list \<Rightarrow> nat"

section \<open>Platform hooks\<close>

definition PlatformFvbDataWritten :: "EFI_FW_VOL_BLOCK_DEVICE \<Rightarrow> EFI_FW_VOL_BLOCK_DEVICE" where
  "PlatformFvbDataWritten d =
     (if AtRuntime d then d
      else let d1 = (if EventToSignal d = 0 then d\<lparr>EventToSignal := EmuVariableEvent (pcds d)\<rparr> else d)
      in if EventToSignal d1 \<noteq> 0 then d1\<lparr>signalled := signalled d1 @ [EventToSignal d1]\<rparr> else d1)"

section \<open>Protocol operations\<close>

definition FvbProtocolGetPhysicalAddress :: "EFI_FW_VOL_BLOCK_DEVICE \<Rightarrow> EFI_STATUS \<times> nat" where
  "FvbProtocolGetPhysicalAddress d = (EFI_SUCCESS, BufferPtr d)"

definition FvbProtocolGetBlockSize ::
  "EFI_FW_VOL_BLOCK_DEVICE \<Rightarrow> nat \<Rightarrow> EFI_STATUS \<times> (nat \<times> nat) option" where
  "FvbProtocolGetBlockSize d Lba =
     (if num_blocks d \<le> Lba then (EFI_INVALID_PARAMETER, None)
      else (EFI_SUCCESS, Some (BlockSize d, num_blocks d - Lba)))"

definition FvbProtocolGetAttributes :: "fv_lib \<Rightarrow> EFI_STATUS \<times> nat" where
  "FvbProtocolGetAttributes lib = (EFI_SUCCESS,
     EFI_FVB2_READ_ENABLED_CAP lib OR EFI_FVB2_READ_STATUS lib OR EFI_FVB2_WRITE_ENABLED_CAP lib OR
     EFI_FVB2_WRITE_STATUS lib OR EFI_FVB2_ERASE_POLARITY lib)"

definition FvbProtocolSetAttributes :: "nat \<Rightarrow> EFI_STATUS \<times> nat" where
  "FvbProtocolSetAttributes attributes = (EFI_ACCESS_DENIED, attributes)"

text \<open>
  Erasing. The variable argument list is the list of its words; it is walked twice, first to
  check every range, then to erase. Running off its end without a terminator is a fault.
\<close>

definition EFI_LBA_LIST_TERMINATOR :: nat where "EFI_LBA_LIST_TERMINATOR = 2 ^ 64 - 1"

fun erase_check :: "nat \<Rightarrow> nat list \<Rightarrow> EFI_STATUS option" where
  "erase_check n [] = None"
| "erase_check n (lba # args) =
     (if lba = EFI_LBA_LIST_TERMINATOR then Some EFI_SUCCESS
      else (case args of
              [] \<Rightarrow> None
            | num # args' \<Rightarrow>
                if n < lba \<or> n - lba < num then Some EFI_INVALID_PARAMETER
                else erase_check n args'))"

fun erase_ranges :: "nat \<Rightarrow> byte list \<Rightarrow> nat list \<Rightarrow> byte list option" where
  "erase_ranges bs buf [] = None"
| "erase_ranges bs buf (lba # args) =
     (if lba = EFI_LBA_LIST_TERMINATOR then Some buf
      else (case args of
              [] \<Rightarrow> None
            | num # args' \<Rightarrow>
                Option.bind (set_mem buf (lba * bs) (num * bs) ERASED_UINT8) (\<lambda>buf'.
                erase_ranges bs buf' args')))"

definition FvbProtocolEraseBlocks ::
  "EFI_FW_VOL_BLOCK_DEVICE \<Rightarrow> nat list \<Rightarrow> (EFI_STATUS \<times> EFI_FW_VOL_BLOCK_DEVICE) option" where
  "FvbProtocolEraseBlocks d args =
     Option.bind (erase_check (num_blocks d) args) (\<lambda>st.
     if st \<noteq> EFI_SUCCESS then Some (st, d)
     else map_option (\<lambda>buf. (EFI_SUCCESS, d\<lparr>fvb_buffer := buf\<rparr>))
            (erase_ranges (BlockSize d) (fvb_buffer d) args))"

text \<open>
  Writing and reading within one block. \<open>NumBytes\<close> is cut at the end of the block; it
  is returned with the status.
\<close>

definition FvbProtocolWrite ::
  "EFI_FW_VOL_BLOCK_DEVICE \<Rightarrow> nat \<Rightarrow> nat \<Rightarrow> nat \<Rightarrow> byte list \<Rightarrow>
    (EFI_STATUS \<times> nat \<times> EFI_FW_VOL_BLOCK_DEVICE) option" where
  "FvbProtocolWrite d Lba Offset NumBytes Buffer =
     (if num_blocks d \<le> Lba \<or> BlockSize d < Offset then Some (EFI_INVALID_PARAMETER, NumBytes, d)
      else let cut = BlockSize d - Offset < NumBytes;
               n = (if cut then BlockSize d - Offset else NumBytes)
      in Option.bind (load_bytes Buffer 0 n) (\<lambda>src.
         map_option (\<lambda>buf. (if cut then EFI_BAD_BUFFER_SIZE else EFI_SUCCESS, n,
             PlatformFvbDataWritten (d\<lparr>fvb_buffer := buf\<rparr>)))
           (store_bytes (fvb_buffer d) (Lba * BlockSize d + Offset) src)))"

definition FvbProtocolRead ::
  "EFI_FW_VOL_BLOCK_DEVICE \<Rightarrow> nat \<Rightarrow> nat \<Rightarrow> nat \<Rightarrow> (EFI_STATUS \<times> nat \<times> byte list) option" where
  "FvbProtocolRead d Lba Offset NumBytes =
     (if num_blocks d \<le> Lba \<or> BlockSize d < Offset then Some (EFI_INVALID_PARAMETER, NumBytes, [])
      else let cut = BlockSize d - Offset < NumBytes;
               n = (if cut then BlockSize d - Offset else NumBytes)
      in map_option (\<lambda>bytes. (if cut then EFI_BAD_BUFFER_SIZE else EFI_SUCCESS, n, bytes))
           (load_bytes (fvb_buffer d) (Lba * BlockSize d + Offset) n))"

section \<open>The volume header\<close>

definition EFI_AUTHENTICATED_VARIABLE_GUID :: "byte list" where
  "EFI_AUTHENTICATED_VARIABLE_GUID =
     le_bytes 4 0xaaf32c78 @ le_bytes 2 0x947b @ le_bytes 2 0x439a @
     [0xa1, 0x80, 0x2e, 0x14, 0x4e, 0xc3, 0x77, 0x92]"

text \<open>Offsets in the header.\<close>

definition fv_FvLength :: nat where "fv_FvLength = 32"
definition fv_Signature :: nat where "fv_Signature = 40"
definition fv_HeaderLength :: nat where "fv_HeaderLength = 48"
definition fv_Checksum :: nat where "fv_Checksum = 50"
definition fv_Revision :: nat where "fv_Revision = 55"

definition FvAndAuthenticatedVarTemplate :: "fv_lib \<Rightarrow> fvb_pcd \<Rightarrow> byte list" where
  "FvAndAuthenticatedVarTemplate lib p =
     replicate 16 0 @ NvDataFvGuid lib @ le_bytes 8 (EMU_FVB_SIZE p) @ le_bytes 4 (FvhSignature lib) @
     le_bytes 4 0x4feff @ le_bytes 2 EMU_FV_HEADER_LENGTH @ le_bytes 2 0 @ le_bytes 2 0 @ [0] @
     le_bytes 1 (FvhRevision lib) @ le_bytes 4 (EMU_FVB_NUM_TOTAL_BLOCKS p) @ le_bytes 4 EMU_FVB_BLOCK_SIZE @
     le_bytes 4 0 @ le_bytes 4 0 @
     EFI_AUTHENTICATED_VARIABLE_GUID @ le_bytes 4 (sub32 (VariableSize p) EMU_FV_HEADER_LENGTH) @
     le_bytes 1 (StoreFormatted lib) @ le_bytes 1 (StoreHealthy lib) @ le_bytes 2 0 @ le_bytes 4 0"

definition InitializeFvAndVariableStoreHeaders :: "fv_lib \<Rightarrow> fvb_pcd \<Rightarrow> byte list \<Rightarrow> byte list option" where
  "InitializeFvAndVariableStoreHeaders lib p buf =
     Option.bind (store_bytes buf 0 (FvAndAuthenticatedVarTemplate lib p)) (\<lambda>buf1.
     Option.bind (le_field buf1 fv_HeaderLength 2) (\<lambda>hlen.
     Option.bind (load_bytes buf1 0 hlen) (\<lambda>hdr.
     store_bytes buf1 fv_Checksum (le_bytes 2 (CalculateCheckSum16 lib hdr)))))"

definition ValidateFvHeader :: "fv_lib \<Rightarrow> fvb_pcd \<Rightarrow> byte list \<Rightarrow> EFI_STATUS option" where
  "ValidateFvHeader lib p buf =
     (case (le_field buf fv_Revision 1, le_field buf fv_Signature 4, le_field buf fv_FvLength 8,
            le_field buf fv_HeaderLength 2) of
        (Some rv, Some sig, Some len, Some hlen) \<Rightarrow>
          if rv \<noteq> FvhRevision lib \<or> sig \<noteq> FvhSignature lib \<or> len \<noteq> EMU_FVB_SIZE p \<or> hlen \<noteq> EMU_FV_HEADER_LENGTH
          then Some EFI_NOT_FOUND
          else map_option (\<lambda>hdr. if CalculateSum16 lib hdr \<noteq> 0 then EFI_NOT_FOUND else EFI_SUCCESS)
                 (load_bytes buf 0 hlen)
      | _ \<Rightarrow> None)"

section \<open>Entry point\<close>

text \<open>
  The boot environment: pages allocated for a number of pages (address and contents), the
  contents of memory at an address, and whether setting a PCD, installing the protocols and
  registering the event succeed. These statuses are only asserted on.
\<close>

record fvb_boot =
  AllocateRuntimePages :: "nat \<Rightarrow> (nat \<times> byte list) option"
  memory_at :: "nat \<Rightarrow> nat \<Rightarrow> byte list"
  pcd_set_ok :: bool
  install_ok :: bool
  event_ok :: bool

definition mEmuVarsFvb :: "fvb_pcd \<Rightarrow> EFI_FW_VOL_BLOCK_DEVICE" where
  "mEmuVarsFvb p = \<lparr>BufferPtr = 0, fvb_buffer = [], BlockSize = EMU_FVB_BLOCK_SIZE, fvb_Size = EMU_FVB_SIZE p,
     StartingAddress = 0, EndingAddress = 0, EventToSignal = 0, AtRuntime = False, signalled = [], published = False,
     pcds = p\<rparr>"

text \<open>The buffer: the reserved block if there is one, else new pages; whether it must be initialised.\<close>

definition find_buffer :: "fv_lib \<Rightarrow> fvb_boot \<Rightarrow> fvb_pcd \<Rightarrow> (nat \<times> byte list \<times> bool) option" where
  "find_buffer lib env p =
     (if NvStoreReserved p \<noteq> 0 then
        let m = memory_at env (NvStoreReserved p) (EMU_FVB_SIZE p)
        in map_option (\<lambda>st. (NvStoreReserved p, m, st \<noteq> EFI_SUCCESS)) (ValidateFvHeader lib p m)
      else map_option (\<lambda>(a, m). (a, m, True)) (AllocateRuntimePages env (EFI_SIZE_TO_PAGES (EMU_FVB_SIZE p))))"

definition fill_buffer :: "fv_lib \<Rightarrow> fvb_pcd \<Rightarrow> byte list \<Rightarrow> byte list option" where
  "fill_buffer lib p m =
     Option.bind (set_mem m 0 (EMU_FVB_SIZE p) ERASED_UINT8) (InitializeFvAndVariableStoreHeaders lib p)"

definition FvbInitialize ::
  "fv_lib \<Rightarrow> fvb_boot \<Rightarrow> fvb_pcd \<Rightarrow> (EFI_STATUS \<times> EFI_FW_VOL_BLOCK_DEVICE) option" where
  "FvbInitialize lib env p =
     (if FtwSpareSize p mod EMU_FVB_BLOCK_SIZE \<noteq> 0 then None
      else if EMU_FVB_NUM_SPARE_BLOCKS p * EMU_FVB_BLOCK_SIZE < add32 (VariableSize p) (FtwWorkingSize p)
      then Some (EFI_INVALID_PARAMETER, mEmuVarsFvb p)
      else if VariableBase64 p \<noteq> 0 then Some (EFI_ABORTED, mEmuVarsFvb p)
      else Option.bind (find_buffer lib env p) (\<lambda>(Ptr, m, init).
        Option.bind (if init then fill_buffer lib p m else Some m) (\<lambda>buf.
        if \<not> pcd_set_ok env \<or> \<not> install_ok env \<or> \<not> event_ok env then None
        else Some (EFI_SUCCESS, (mEmuVarsFvb p)\<lparr>BufferPtr := Ptr, fvb_buffer := buf,
          StartingAddress := Ptr, EndingAddress := Ptr + EMU_FVB_SIZE p - 1, published := True,
          pcds := p\<lparr>VariableBase64 := Ptr mod 2 ^ 32,
            FtwWorkingBase := (Ptr + VariableSize p) mod 2 ^ 32,
            FtwSpareBase := (Ptr + EMU_FVB_NUM_SPARE_BLOCKS p * EMU_FVB_BLOCK_SIZE) mod 2 ^ 32\<rparr>\<rparr>))))"

section \<open>Blocks as a store\<close>

text \<open>
  What users of a block device rely on: a write that fits in a block succeeds, is read back,
  and leaves all other bytes alone.
\<close>

locale block_store =
  fixes rd :: "'d \<Rightarrow> nat \<Rightarrow> nat \<Rightarrow> nat \<Rightarrow> byte list option"
    and wr :: "'d \<Rightarrow> nat \<Rightarrow> nat \<Rightarrow> byte list \<Rightarrow> 'd option"
    and inv :: "'d \<Rightarrow> bool"
    and fits :: "'d \<Rightarrow> nat \<Rightarrow> nat \<Rightarrow> nat \<Rightarrow> bool"
  assumes wr_ok: "inv d \<Longrightarrow> fits d b off (length bs) \<Longrightarrow>
      \<exists>d'. wr d b off bs = Some d' \<and> inv d' \<and> fits d' = fits d"
    and rd_same: "inv d \<Longrightarrow> fits d b off (length bs) \<Longrightarrow> wr d b off bs = Some d' \<Longrightarrow>
      rd d' b off (length bs) = Some bs"
    and rd_other: "inv d \<Longrightarrow> fits d b off (length bs) \<Longrightarrow> fits d b' off' n \<Longrightarrow> wr d b off bs = Some d' \<Longrightarrow>
      b' \<noteq> b \<or> off' + n \<le> off \<or> off + length bs \<le> off' \<Longrightarrow> rd d' b' off' n = rd d b' off' n"
begin

fun write_all :: "'d \<Rightarrow> (nat \<times> nat \<times> byte list) list \<Rightarrow> 'd option" where
  "write_all d [] = Some d"
| "write_all d ((b, off, bs) # ws) = Option.bind (wr d b off bs) (\<lambda>d'. write_all d' ws)"

lemma write_all_other:
  assumes "inv d" and "\<forall>(b, off, bs) \<in> set ws. fits d b off (length bs) \<and>
      (b' \<noteq> b \<or> off' + n \<le> off \<or> off + length bs \<le> off')" and "fits d b' off' n"
  shows "\<exists>d'. write_all d ws = Some d' \<and> inv d' \<and> fits d' = fits d \<and> rd d' b' off' n = rd d b' off' n"
  using assms
proof (induction ws arbitrary: d)
  case (Cons w ws)
  obtain b off bs where w: "w = (b, off, bs)" by (metis prod_cases3)
  from Cons.prems(2) w have f: "fits d b off (length bs)" "b' \<noteq> b \<or> off' + n \<le> off \<or> off + length bs \<le> off'" by auto
  obtain d1 where d1: "wr d b off bs = Some d1" "inv d1" "fits d1 = fits d" using wr_ok [OF Cons.prems(1) f(1)] by blast
  have "rd d1 b' off' n = rd d b' off' n" by (rule rd_other [OF Cons.prems(1) f(1) Cons.prems(3) d1(1) f(2)])
  with Cons.IH [OF d1(2)] Cons.prems(2,3) d1 w show ?case by simp
qed simp

text \<open>Disjoint writes are all read back.\<close>

lemma write_all_same:
  assumes "inv d" and "\<forall>(b, off, bs) \<in> set (ws1 @ (b', off', bs') # ws2). fits d b off (length bs)"
    and "\<forall>(b, off, bs) \<in> set ws2. b' \<noteq> b \<or> off' + length bs' \<le> off \<or> off + length bs \<le> off'"
  shows "\<exists>d'. write_all d (ws1 @ (b', off', bs') # ws2) = Some d' \<and> inv d' \<and> rd d' b' off' (length bs') = Some bs'"
  using assms
proof (induction ws1 arbitrary: d)
  case Nil
  then have f: "fits d b' off' (length bs')" by simp
  obtain d1 where d1: "wr d b' off' bs' = Some d1" "inv d1" "fits d1 = fits d" using wr_ok [OF Nil.prems(1) f] by blast
  have "\<exists>d'. write_all d1 ws2 = Some d' \<and> inv d' \<and> fits d' = fits d1 \<and> rd d' b' off' (length bs') = rd d1 b' off' (length bs')"
    using Nil.prems(2,3) f d1(3) by (intro write_all_other [OF d1(2)]) auto
  with rd_same [OF Nil.prems(1) f d1(1)] d1(1) show ?case by auto
next
  case (Cons w ws1)
  obtain b off bs where w: "w = (b, off, bs)" by (metis prod_cases3)
  from Cons.prems(2) w have "fits d b off (length bs)" by simp
  then obtain d1 where d1: "wr d b off bs = Some d1" "inv d1" "fits d1 = fits d" using wr_ok [OF Cons.prems(1)] by blast
  with Cons.IH [OF d1(2)] Cons.prems(2,3) w show ?case by simp
qed

end

section \<open>The emulated store is one\<close>

definition fvb_ok :: "EFI_FW_VOL_BLOCK_DEVICE \<Rightarrow> bool" where
  "fvb_ok d \<longleftrightarrow> length (fvb_buffer d) = num_blocks d * BlockSize d \<and> 0 < BlockSize d"

definition fvb_fits :: "EFI_FW_VOL_BLOCK_DEVICE \<Rightarrow> nat \<Rightarrow> nat \<Rightarrow> nat \<Rightarrow> bool" where
  "fvb_fits d b off n \<longleftrightarrow> b < num_blocks d \<and> off + n \<le> BlockSize d"

lemma hook_sel [simp]:
  "fvb_buffer (PlatformFvbDataWritten d) = fvb_buffer d" "BlockSize (PlatformFvbDataWritten d) = BlockSize d"
  "pcds (PlatformFvbDataWritten d) = pcds d" "BufferPtr (PlatformFvbDataWritten d) = BufferPtr d"
  by (simp_all add: PlatformFvbDataWritten_def Let_def)

lemma block_end: "b < (n :: nat) \<Longrightarrow> off \<le> bs \<Longrightarrow> b * bs + off \<le> n * bs"
proof -
  assume b: "b < n" and "off \<le> bs"
  then have "b * bs + off \<le> Suc b * bs" by simp
  also have "Suc b * bs \<le> n * bs" using b by (intro mult_le_mono1) simp
  finally show ?thesis .
qed

lemma fvb_ok_in_buffer: "fvb_ok d \<Longrightarrow> fvb_fits d b off n \<Longrightarrow> b * BlockSize d + off + n \<le> length (fvb_buffer d)"
  using block_end [of b "num_blocks d" "off + n" "BlockSize d"] by (simp add: fvb_ok_def fvb_fits_def)

lemma write_in_block:
  assumes "fvb_ok d" and "fvb_fits d b off n" and "n \<le> length bs"
  shows "\<exists>buf. store_bytes (fvb_buffer d) (b * BlockSize d + off) (take n bs) = Some buf \<and> length buf = length (fvb_buffer d) \<and>
    FvbProtocolWrite d b off n bs = Some (EFI_SUCCESS, n, PlatformFvbDataWritten (d\<lparr>fvb_buffer := buf\<rparr>))"
  using assms fvb_ok_in_buffer [OF assms(1,2)]
  by (auto simp: FvbProtocolWrite_def Let_def load_bytes_def fvb_fits_def store_bytes_def)

lemma read_in_block:
  assumes "fvb_ok d" and "fvb_fits d b off n"
  shows "FvbProtocolRead d b off n = Some (EFI_SUCCESS, n, take n (drop (b * BlockSize d + off) (fvb_buffer d)))"
  using assms fvb_ok_in_buffer [OF assms]
  by (auto simp: FvbProtocolRead_def Let_def load_bytes_def fvb_fits_def)

definition fvb_rd :: "EFI_FW_VOL_BLOCK_DEVICE \<Rightarrow> nat \<Rightarrow> nat \<Rightarrow> nat \<Rightarrow> byte list option" where
  "fvb_rd d b off n = (case FvbProtocolRead d b off n of Some (EFI_SUCCESS, k, bytes) \<Rightarrow> Some bytes | _ \<Rightarrow> None)"

definition fvb_wr :: "EFI_FW_VOL_BLOCK_DEVICE \<Rightarrow> nat \<Rightarrow> nat \<Rightarrow> byte list \<Rightarrow> EFI_FW_VOL_BLOCK_DEVICE option" where
  "fvb_wr d b off bs = (case FvbProtocolWrite d b off (length bs) bs of Some (EFI_SUCCESS, k, d') \<Rightarrow> Some d' | _ \<Rightarrow> None)"

lemma fvb_rd_load: "fvb_ok d \<Longrightarrow> fvb_fits d b off n \<Longrightarrow> fvb_rd d b off n = load_bytes (fvb_buffer d) (b * BlockSize d + off) n"
  using read_in_block [of d b off n] fvb_ok_in_buffer [of d b off n] by (simp add: fvb_rd_def load_bytes_def)

lemma fvb_wr_store:
  assumes "fvb_ok d" and "fvb_fits d b off (length bs)"
  shows "\<exists>buf. store_bytes (fvb_buffer d) (b * BlockSize d + off) bs = Some buf \<and>
    fvb_wr d b off bs = Some (PlatformFvbDataWritten (d\<lparr>fvb_buffer := buf\<rparr>)) \<and>
    fvb_ok (PlatformFvbDataWritten (d\<lparr>fvb_buffer := buf\<rparr>)) \<and>
    fvb_fits (PlatformFvbDataWritten (d\<lparr>fvb_buffer := buf\<rparr>)) = fvb_fits d"
  using write_in_block [OF assms order_refl] assms(1)
  by (auto simp: fvb_wr_def fvb_ok_def fvb_fits_def fun_eq_iff)

lemma block_apart:
  assumes "b' \<noteq> (b :: nat)" and "off + n \<le> bs" and "off' + n' \<le> bs"
  shows "b' * bs + off' + n' \<le> b * bs + off \<or> b * bs + off + n \<le> b' * bs + off'"
proof -
  consider "b' < b" | "b < b'" using assms(1) by linarith
  then show ?thesis
  proof cases
    case 1
    with block_end [OF 1 assms(3)] show ?thesis by simp
  next
    case 2
    with block_end [OF 2 assms(2)] show ?thesis by simp
  qed
qed

interpretation fvb: block_store fvb_rd fvb_wr fvb_ok fvb_fits
proof
  fix d b off and bs :: "byte list" assume a: "fvb_ok d" "fvb_fits d b off (length bs)"
  show "\<exists>d'. fvb_wr d b off bs = Some d' \<and> fvb_ok d' \<and> fvb_fits d' = fvb_fits d" using fvb_wr_store [OF a] by blast
  fix d' assume w: "fvb_wr d b off bs = Some d'"
  from fvb_wr_store [OF a] w obtain buf where buf: "store_bytes (fvb_buffer d) (b * BlockSize d + off) bs = Some buf"
    "d' = PlatformFvbDataWritten (d\<lparr>fvb_buffer := buf\<rparr>)" "fvb_ok d'" "fvb_fits d' = fvb_fits d" by auto
  show "fvb_rd d' b off (length bs) = Some bs"
    using fvb_rd_load [OF buf(3), of b off "length bs"] a(2) buf load_store_same [OF buf(1)] by simp
  fix b' off' n assume f: "fvb_fits d b' off' n" and dj: "b' \<noteq> b \<or> off' + n \<le> off \<or> off + length bs \<le> off'"
  have "b' * BlockSize d + off' + n \<le> b * BlockSize d + off \<or> b * BlockSize d + off + length bs \<le> b' * BlockSize d + off'"
  proof (cases "b' = b")
    case False
    with f a(2) show ?thesis by (intro block_apart) (simp_all add: fvb_fits_def)
  qed (use dj in auto)
  with load_store_other [OF buf(1), of "b' * BlockSize d + off'" n]
  show "fvb_rd d' b' off' n = fvb_rd d b' off' n"
    using fvb_rd_load [OF buf(3)] fvb_rd_load [OF a(1) f] f buf(2,4) by simp
qed

end
