(* ===== verification/EmuFvbProps.thy ===== *)
theory EmuFvbProps
  imports EmuFvb
begin

text \<open>
  Properties of the emulated variable store: reads and writes are confined to a block and
  agree with each other, erasing checks every range before it touches any block, and the
  entry point leaves a valid volume with the three areas inside the buffer.
\<close>

section \<open>Reading, writing, erasing\<close>

text \<open>
  C35: A write to a block of the emulated store either is refused without effect (no such
  block, or an offset past the block), or stores as many of the bytes as fit in the rest of
  the block, reports the number, and reports a bad buffer size exactly if it was cut. What was
  written is read back, no other byte of the store changes, and nothing outside the buffer is
  touched.
\<close>

theorem fvb_write_behaviour:
  assumes "fvb_ok d" and "NumBytes \<le> length Buffer"
  shows "if Lba < num_blocks d \<and> Offset \<le> BlockSize d
    then let n = min NumBytes (BlockSize d - Offset) in
      \<exists>d'. FvbProtocolWrite d Lba Offset NumBytes Buffer =
          Some (if n < NumBytes then EFI_BAD_BUFFER_SIZE else EFI_SUCCESS, n, d') \<and> fvb_ok d' \<and>
        FvbProtocolRead d' Lba Offset n = Some (EFI_SUCCESS, n, take n Buffer) \<and>
        length (fvb_buffer d') = length (fvb_buffer d) \<and>
        (\<forall>i < length (fvb_buffer d). \<not> (Lba * BlockSize d + Offset \<le> i \<and> i < Lba * BlockSize d + Offset + n) \<longrightarrow>
          fvb_buffer d' ! i = fvb_buffer d ! i)
    else FvbProtocolWrite d Lba Offset NumBytes Buffer = Some (EFI_INVALID_PARAMETER, NumBytes, d)"
proof (cases "Lba < num_blocks d \<and> Offset \<le> BlockSize d")
  case True
  define n where "n = min NumBytes (BlockSize d - Offset)"
  have f: "fvb_fits d Lba Offset n" using True by (auto simp: fvb_fits_def n_def min_def)
  have n: "n \<le> length Buffer" using assms(2) by (simp add: n_def)
  obtain buf where buf: "store_bytes (fvb_buffer d) (Lba * BlockSize d + Offset) (take n Buffer) = Some buf"
    "length buf = length (fvb_buffer d)"
    using write_in_block [OF assms(1) f n] by blast
  let ?d = "PlatformFvbDataWritten (d\<lparr>fvb_buffer := buf\<rparr>)"
  have w: "FvbProtocolWrite d Lba Offset NumBytes Buffer =
      Some (if n < NumBytes then EFI_BAD_BUFFER_SIZE else EFI_SUCCESS, n, ?d)"
    using True buf n by (auto simp: FvbProtocolWrite_def Let_def n_def load_bytes_def min_def)
  have ok: "fvb_ok ?d" using assms(1) buf(2) by (simp add: fvb_ok_def)
  have "FvbProtocolRead ?d Lba Offset n = Some (EFI_SUCCESS, n, take n Buffer)"
    using read_in_block [OF ok, of Lba Offset n] f load_store_same [OF buf(1)] n
    by (auto simp: fvb_fits_def load_bytes_def split: if_splits)
  moreover have "\<forall>i < length (fvb_buffer d). \<not> (Lba * BlockSize d + Offset \<le> i \<and> i < Lba * BlockSize d + Offset + n) \<longrightarrow>
      fvb_buffer ?d ! i = fvb_buffer d ! i"
    using store_bytes_nth [OF buf(1)] n by auto
  moreover have "length (fvb_buffer ?d) = length (fvb_buffer d)" using buf(2) by simp
  ultimately show ?thesis using True w ok unfolding n_def [symmetric] Let_def by auto
next
  case False
  then show ?thesis by (auto simp: FvbProtocolWrite_def)
qed

definition demo_pcd :: fvb_pcd where
  "demo_pcd = \<lparr>FtwSpareSize = 4096, VariableSize = 2048, FtwWorkingSize = 1024, VariableBase64 = 0, NvStoreReserved = 0,
     FtwWorkingBase = 0, FtwSpareBase = 0, EmuVariableEvent = 0\<rparr>"

definition demo_fvb :: EFI_FW_VOL_BLOCK_DEVICE where
  "demo_fvb = (mEmuVarsFvb demo_pcd)\<lparr>fvb_buffer := replicate 8192 0\<rparr>"

lemma demo_fvb_ok: "fvb_ok demo_fvb" "num_blocks demo_fvb = 2" "BlockSize demo_fvb = 4096"
  by (simp_all add: fvb_ok_def demo_fvb_def mEmuVarsFvb_def EMU_FVB_NUM_TOTAL_BLOCKS_def EMU_FVB_NUM_SPARE_BLOCKS_def
      EFI_SIZE_TO_PAGES_def EFI_PAGE_SIZE_def EMU_FVB_BLOCK_SIZE_def demo_pcd_def)

theorem fvb_write_behaviour_witness:
  "\<exists>d'. FvbProtocolWrite demo_fvb 1 4094 3 [1, 2, 3] = Some (EFI_BAD_BUFFER_SIZE, 2, d') \<and>
     FvbProtocolRead d' 1 4094 2 = Some (EFI_SUCCESS, 2, [1, 2])"
  using fvb_write_behaviour [OF demo_fvb_ok(1), of 3 "[1, 2, 3]" 1 4094]
  by (auto simp: demo_fvb_ok Let_def)

text \<open>
  Writes to disjoint places of the store, in one block or several, do not disturb each
  other: after any sequence of writes that fit, each place reads back what was last written
  to it.
\<close>

theorem fvb_disjoint_writes:
  assumes "fvb_ok d" and "\<forall>(b, off, bs) \<in> set (ws1 @ (b', off', bs') # ws2). fvb_fits d b off (length bs)"
    and "\<forall>(b, off, bs) \<in> set ws2. b' \<noteq> b \<or> off' + length bs' \<le> off \<or> off + length bs \<le> off'"
  shows "\<exists>d'. fvb.write_all d (ws1 @ (b', off', bs') # ws2) = Some d' \<and> fvb_ok d' \<and>
    FvbProtocolRead d' b' off' (length bs') = Some (EFI_SUCCESS, length bs', bs')"
proof -
  obtain d' where d': "fvb.write_all d (ws1 @ (b', off', bs') # ws2) = Some d'" "fvb_ok d'"
    "fvb_rd d' b' off' (length bs') = Some bs'"
    using fvb.write_all_same [OF assms] by blast
  from d'(3) have "FvbProtocolRead d' b' off' (length bs') = Some (EFI_SUCCESS, length bs', bs')"
    by (auto simp: fvb_rd_def FvbProtocolRead_def Let_def load_bytes_def
        split: option.splits EFI_STATUS.splits if_splits)
  with d' show ?thesis by blast
qed

theorem fvb_disjoint_writes_witness:
  "\<exists>d'. fvb.write_all demo_fvb [(0, 0, [1]), (0, 0, [2]), (0, 1, [3])] = Some d' \<and>
     FvbProtocolRead d' 0 0 1 = Some (EFI_SUCCESS, 1, [2])"
  using fvb_disjoint_writes [OF demo_fvb_ok(1), of "[(0, 0, [1])]" 0 0 "[2]" "[(0, 1, [3])]"]
  by (auto simp: fvb_fits_def demo_fvb_ok)

text \<open>The words of an argument list of ranges.\<close>

definition erase_args :: "(nat \<times> nat) list \<Rightarrow> nat list" where
  "erase_args rs = concat (map (\<lambda>(lba, num). [lba, num]) rs) @ [EFI_LBA_LIST_TERMINATOR]"

definition range_ok :: "nat \<Rightarrow> nat \<times> nat \<Rightarrow> bool" where
  "range_ok n r \<longleftrightarrow> fst r \<le> n \<and> snd r \<le> n - fst r"

lemma erase_args_Cons [simp]: "erase_args ((lba, num) # rs) = lba # num # erase_args rs"
  by (simp add: erase_args_def)

lemma erase_check_args:
  "\<forall>r \<in> set rs. fst r \<noteq> EFI_LBA_LIST_TERMINATOR \<Longrightarrow>
    erase_check n (erase_args rs) = Some (if \<forall>r \<in> set rs. range_ok n r then EFI_SUCCESS else EFI_INVALID_PARAMETER)"
proof (induction rs)
  case Nil
  then show ?case by (simp add: erase_args_def)
next
  case (Cons r rs)
  then show ?case by (cases r) (auto simp: range_ok_def not_less)
qed

lemma erase_ranges_args:
  assumes "\<forall>r \<in> set rs. fst r \<noteq> EFI_LBA_LIST_TERMINATOR \<and> range_ok n r" and "length buf = n * bs" and "0 < bs"
  shows "\<exists>buf'. erase_ranges bs buf (erase_args rs) = Some buf' \<and> length buf' = length buf \<and>
    (\<forall>i < length buf. buf' ! i = (if \<exists>r \<in> set rs. fst r \<le> i div bs \<and> i div bs < fst r + snd r then ERASED_UINT8 else buf ! i))"
  using assms(1,2)
proof (induction rs arbitrary: buf)
  case Nil
  then show ?case by (simp add: erase_args_def)
next
  case (Cons r rs)
  obtain lba num where r: "r = (lba, num)" by fastforce
  from Cons.prems(1) r have "lba + num \<le> n" by (auto simp: range_ok_def)
  then have "(lba + num) * bs \<le> n * bs" by (rule mult_le_mono1)
  then have fit: "lba * bs + num * bs \<le> length buf" using Cons.prems(2) by (simp add: algebra_simps)
  then obtain b1 where b1: "set_mem buf (lba * bs) (num * bs) ERASED_UINT8 = Some b1" by (simp add: set_mem_def store_bytes_def)
  have len: "length b1 = length buf" using b1 store_bytes_length by (auto simp: set_mem_def)
  obtain b2 where b2: "erase_ranges bs b1 (erase_args rs) = Some b2" "length b2 = length b1"
    "\<forall>i < length b1. b2 ! i = (if \<exists>r \<in> set rs. fst r \<le> i div bs \<and> i div bs < fst r + snd r then ERASED_UINT8 else b1 ! i)"
    using Cons.IH [of b1] Cons.prems len by auto
  have "b1 ! i = (if lba \<le> i div bs \<and> i div bs < lba + num then ERASED_UINT8 else buf ! i)" if "i < length buf" for i
  proof -
    have "lba * bs \<le> i \<longleftrightarrow> lba \<le> i div bs" using assms(3) by (simp add: less_eq_div_iff_mult_less_eq)
    moreover have "i < lba * bs + num * bs \<longleftrightarrow> i div bs < lba + num"
      using assms(3) by (simp add: div_less_iff_less_mult flip: add_mult_distrib)
    ultimately show ?thesis using store_bytes_nth [OF b1 [unfolded set_mem_def] that] by auto
  qed
  with b1 b2 r len Cons.prems(1) show ?case by auto
qed

text \<open>
  Erasing is all or nothing: if one of the ranges of the argument list reaches past the
  last block, the request is refused and the store is unchanged; otherwise exactly the blocks
  named are set to the erased value and every other byte is kept.
\<close>

theorem fvb_erase_all_or_nothing:
  assumes "fvb_ok d" and "\<forall>r \<in> set rs. fst r \<noteq> EFI_LBA_LIST_TERMINATOR"
  shows "if \<forall>r \<in> set rs. range_ok (num_blocks d) r
    then \<exists>buf. FvbProtocolEraseBlocks d (erase_args rs) = Some (EFI_SUCCESS, d\<lparr>fvb_buffer := buf\<rparr>) \<and>
      length buf = length (fvb_buffer d) \<and>
      (\<forall>i < length buf. buf ! i =
        (if \<exists>r \<in> set rs. fst r \<le> i div BlockSize d \<and> i div BlockSize d < fst r + snd r then ERASED_UINT8 else fvb_buffer d ! i))
    else FvbProtocolEraseBlocks d (erase_args rs) = Some (EFI_INVALID_PARAMETER, d)"
proof (cases "\<forall>r \<in> set rs. range_ok (num_blocks d) r")
  case True
  with erase_ranges_args [of rs "num_blocks d" "fvb_buffer d" "BlockSize d"] assms
  obtain buf where "erase_ranges (BlockSize d) (fvb_buffer d) (erase_args rs) = Some buf" "length buf = length (fvb_buffer d)"
    "\<forall>i < length (fvb_buffer d). buf ! i =
      (if \<exists>r \<in> set rs. fst r \<le> i div BlockSize d \<and> i div BlockSize d < fst r + snd r then ERASED_UINT8 else fvb_buffer d ! i)"
    by (auto simp: fvb_ok_def)
  with True erase_check_args [OF assms(2), of "num_blocks d"] show ?thesis
    unfolding if_P [OF True] by (intro exI [of _ buf]) (simp add: FvbProtocolEraseBlocks_def)
next
  case False
  with erase_check_args [OF assms(2), of "num_blocks d"] show ?thesis by (simp add: FvbProtocolEraseBlocks_def)
qed

theorem fvb_erase_all_or_nothing_witness:
  "FvbProtocolEraseBlocks demo_fvb (erase_args [(0, 1), (1, 2)]) = Some (EFI_INVALID_PARAMETER, demo_fvb)"
  using fvb_erase_all_or_nothing [OF demo_fvb_ok(1), of "[(0, 1), (1, 2)]"]
  by (simp add: EFI_LBA_LIST_TERMINATOR_def range_ok_def demo_fvb_ok)

section \<open>The volume header\<close>

text \<open>
  The documented behaviour of the base library's checksum routines: the sum of the 16-bit
  words modulo \<open>2 ^ 16\<close>, and its two's complement.
\<close>

fun words16 :: "byte list \<Rightarrow> nat list" where
  "words16 (a # b # bs) = (unat a + 256 * unat b) # words16 bs"
| "words16 bs = []"

definition checksum_lib :: "fv_lib \<Rightarrow> bool" where
  "checksum_lib lib \<longleftrightarrow> (\<forall>bs. even (length bs) \<longrightarrow>
     CalculateSum16 lib bs = sum_list (words16 bs) mod 2 ^ 16 \<and>
     CalculateCheckSum16 lib bs = (2 ^ 16 - sum_list (words16 bs) mod 2 ^ 16) mod 2 ^ 16)"

text \<open>The constants of the platform headers are in the range of their fields.\<close>

definition header_consts :: "fv_lib \<Rightarrow> fvb_pcd \<Rightarrow> bool" where
  "header_consts lib p \<longleftrightarrow> length (NvDataFvGuid lib) = 16 \<and> FvhSignature lib < 2 ^ 32 \<and> FvhRevision lib < 2 ^ 8 \<and>
     FtwSpareSize p < 2 ^ 32"

lemma words16_append: "even (length xs) \<Longrightarrow> words16 (xs @ ys) = words16 xs @ words16 ys"
  by (induction xs rule: words16.induct) auto

lemma words16_le_bytes: "c < 2 ^ 16 \<Longrightarrow> words16 (le_bytes 2 c) = [c]"
proof -
  assume c: "c < 2 ^ 16"
  have "le_bytes 2 c = [of_nat c, of_nat (c div 256)]" by (simp add: numeral_2_eq_2)
  moreover have "c div 256 mod 256 = c div 256" using c by simp
  ultimately show ?thesis by simp
qed

lemma checksum_cancels:
  assumes "checksum_lib lib" and "even (length xs)" and "even (length ys)"
  shows "CalculateSum16 lib (xs @ le_bytes 2 (CalculateCheckSum16 lib (xs @ le_bytes 2 0 @ ys)) @ ys) = 0"
proof -
  define s where "s = sum_list (words16 xs) + sum_list (words16 ys)"
  have c: "CalculateCheckSum16 lib (xs @ le_bytes 2 0 @ ys) = (2 ^ 16 - s mod 2 ^ 16) mod 2 ^ 16"
    using assms by (simp add: checksum_lib_def words16_append words16_le_bytes s_def)
  have "s + (2 ^ 16 - s mod 2 ^ 16) mod 2 ^ 16 = s + (2 ^ 16 - s mod 2 ^ 16) \<or> s mod 2 ^ 16 = 0"
    by (cases "s mod 2 ^ 16 = 0") auto
  then have "(s + (2 ^ 16 - s mod 2 ^ 16) mod 2 ^ 16) mod 2 ^ 16 = 0"
  proof
    assume a: "s + (2 ^ 16 - s mod 2 ^ 16) mod 2 ^ 16 = s + (2 ^ 16 - s mod 2 ^ 16)"
    have "s mod 2 ^ 16 < 2 ^ 16" by simp
    then have "s + (2 ^ 16 - s mod 2 ^ 16) = (s - s mod 2 ^ 16) + 2 ^ 16" by (simp add: mod_less_eq_dividend)
    also have "s - s mod 2 ^ 16 = 2 ^ 16 * (s div 2 ^ 16)" by (rule minus_mod_eq_mult_div)
    finally show ?thesis unfolding a by (simp add: mod_add_right_eq)
  qed simp
  then show ?thesis using assms unfolding c
    by (simp add: checksum_lib_def words16_append words16_le_bytes s_def add_ac)
qed

lemma emu_size_bound: "header_consts lib p \<Longrightarrow> EMU_FVB_SIZE p < 2 ^ 64"
proof -
  assume "header_consts lib p"
  then have "FtwSpareSize p < 2 ^ 32" by (simp add: header_consts_def)
  then have "EMU_FVB_NUM_SPARE_BLOCKS p \<le> 2 ^ 32"
    unfolding EMU_FVB_NUM_SPARE_BLOCKS_def EFI_SIZE_TO_PAGES_def EFI_PAGE_SIZE_def by auto
  then have "EMU_FVB_SIZE p \<le> 2 * 2 ^ 32 * 4096"
    unfolding EMU_FVB_SIZE_def EMU_FVB_NUM_TOTAL_BLOCKS_def EMU_FVB_BLOCK_SIZE_def EFI_PAGE_SIZE_def by (intro mult_le_mono) auto
  then show ?thesis by simp
qed

text \<open>The header as its fields: before the checksum, and after it up to the header length.\<close>

definition hdr_front :: "fv_lib \<Rightarrow> fvb_pcd \<Rightarrow> byte list" where
  "hdr_front lib p = replicate 16 0 @ NvDataFvGuid lib @ le_bytes 8 (EMU_FVB_SIZE p) @ le_bytes 4 (FvhSignature lib) @
     le_bytes 4 0x4feff @ le_bytes 2 EMU_FV_HEADER_LENGTH"

definition hdr_back :: "fv_lib \<Rightarrow> fvb_pcd \<Rightarrow> byte list" where
  "hdr_back lib p = le_bytes 2 0 @ [0] @ le_bytes 1 (FvhRevision lib) @ le_bytes 4 (EMU_FVB_NUM_TOTAL_BLOCKS p) @
     le_bytes 4 EMU_FVB_BLOCK_SIZE @ le_bytes 4 0 @ le_bytes 4 0"

lemma initialize_header:
  assumes hc: "header_consts lib p" and len: "100 \<le> length buf"
  shows "\<exists>rest. length rest = length buf - 72 \<and> InitializeFvAndVariableStoreHeaders lib p buf =
    Some (hdr_front lib p @ le_bytes 2 (CalculateCheckSum16 lib (hdr_front lib p @ le_bytes 2 0 @ hdr_back lib p)) @
      hdr_back lib p @ rest)"
proof -
  obtain vars where t: "FvAndAuthenticatedVarTemplate lib p = hdr_front lib p @ le_bytes 2 0 @ hdr_back lib p @ vars"
    "length vars = 28"
    by (simp add: FvAndAuthenticatedVarTemplate_def hdr_front_def hdr_back_def EFI_AUTHENTICATED_VARIABLE_GUID_def)
  have lf: "length (hdr_front lib p) = 50" "length (hdr_back lib p) = 20"
    using hc by (simp_all add: hdr_front_def hdr_back_def header_consts_def)
  define rest where "rest = vars @ drop 100 buf"
  have s1: "store_bytes buf 0 (FvAndAuthenticatedVarTemplate lib p) =
      Some (hdr_front lib p @ le_bytes 2 0 @ hdr_back lib p @ rest)"
    using t lf len by (simp add: store_bytes_def rest_def)
  have s2: "le_field (hdr_front lib p @ le_bytes 2 0 @ hdr_back lib p @ rest) fv_HeaderLength 2 = Some 72"
    using hc by (simp add: le_field_def load_bytes_def fv_HeaderLength_def hdr_front_def header_consts_def
        le_value_le_bytes EMU_FV_HEADER_LENGTH_def)
  have s3: "load_bytes (hdr_front lib p @ le_bytes 2 0 @ hdr_back lib p @ rest) 0 72 =
      Some (hdr_front lib p @ le_bytes 2 0 @ hdr_back lib p)"
    using lf by (simp add: load_bytes_def)
  have "store_bytes (hdr_front lib p @ le_bytes 2 0 @ hdr_back lib p @ rest) fv_Checksum (le_bytes 2 c) =
      Some (hdr_front lib p @ le_bytes 2 c @ hdr_back lib p @ rest)" for c
    using lf by (simp add: store_bytes_def fv_Checksum_def)
  moreover have "length rest = length buf - 72" using t(2) len by (simp add: rest_def)
  ultimately show ?thesis using s1 s2 s3 by (simp add: InitializeFvAndVariableStoreHeaders_def)
qed

lemma fv_header_valid:
  assumes "checksum_lib lib" and "header_consts lib p" and "100 \<le> length buf"
  shows "\<exists>buf'. InitializeFvAndVariableStoreHeaders lib p buf = Some buf' \<and> length buf' = length buf \<and>
    ValidateFvHeader lib p buf' = Some EFI_SUCCESS"
proof -
  let ?c = "CalculateCheckSum16 lib (hdr_front lib p @ le_bytes 2 0 @ hdr_back lib p)"
  let ?hdr = "hdr_front lib p @ le_bytes 2 ?c @ hdr_back lib p"
  obtain rest where r: "length rest = length buf - 72"
    "InitializeFvAndVariableStoreHeaders lib p buf = Some (?hdr @ rest)"
    using initialize_header [OF assms(2,3)] by auto
  have lf: "length (hdr_front lib p) = 50" "length (hdr_back lib p) = 20"
    using assms(2) by (simp_all add: hdr_front_def hdr_back_def header_consts_def)
  have f: "le_field (?hdr @ rest) fv_Revision 1 = Some (FvhRevision lib)"
    "le_field (?hdr @ rest) fv_Signature 4 = Some (FvhSignature lib)"
    "le_field (?hdr @ rest) fv_FvLength 8 = Some (EMU_FVB_SIZE p)"
    "le_field (?hdr @ rest) fv_HeaderLength 2 = Some EMU_FV_HEADER_LENGTH"
    using assms(2) emu_size_bound [OF assms(2)]
    by (simp_all add: le_field_def load_bytes_def fv_Revision_def fv_Signature_def fv_FvLength_def fv_HeaderLength_def
        hdr_front_def hdr_back_def header_consts_def le_value_le_bytes EMU_FV_HEADER_LENGTH_def del: le_bytes.simps)
  have "load_bytes (?hdr @ rest) 0 EMU_FV_HEADER_LENGTH = Some ?hdr"
    using lf by (simp add: load_bytes_def EMU_FV_HEADER_LENGTH_def)
  moreover have "CalculateSum16 lib ?hdr = 0" using lf by (intro checksum_cancels [OF assms(1)]) simp_all
  ultimately have "ValidateFvHeader lib p (?hdr @ rest) = Some EFI_SUCCESS" using f by (simp add: ValidateFvHeader_def)
  moreover have "length (?hdr @ rest) = length buf" using r(1) lf assms(3) by simp
  ultimately show ?thesis using r(2) by blast
qed

text \<open>
  C36: A freshly initialised volume passes the driver's own validation: signature, revision
  and lengths are in place and the checksum stored makes the header sum to zero.
\<close>

theorem fv_initialize_validates:
  assumes "checksum_lib lib" and "header_consts lib p" and "100 \<le> length buf"
  shows "\<exists>buf'. InitializeFvAndVariableStoreHeaders lib p buf = Some buf' \<and> length buf' = length buf \<and>
    ValidateFvHeader lib p buf' = Some EFI_SUCCESS"
  using assms by (rule fv_header_valid)

definition demo_lib :: fv_lib where
  "demo_lib = \<lparr>NvDataFvGuid = replicate 16 7, FvhSignature = 0x4856465F, FvhRevision = 2, StoreFormatted = 0x5A,
     StoreHealthy = 0xFE, EFI_FVB2_READ_ENABLED_CAP = 2, EFI_FVB2_READ_STATUS = 4, EFI_FVB2_WRITE_ENABLED_CAP = 16,
     EFI_FVB2_WRITE_STATUS = 32, EFI_FVB2_ERASE_POLARITY = 0x800,
     CalculateSum16 = (\<lambda>bs. sum_list (words16 bs) mod 2 ^ 16),
     CalculateCheckSum16 = (\<lambda>bs. (2 ^ 16 - sum_list (words16 bs) mod 2 ^ 16) mod 2 ^ 16)\<rparr>"

lemma demo_lib_ok: "checksum_lib demo_lib" "header_consts demo_lib demo_pcd"
  by (simp_all add: checksum_lib_def header_consts_def demo_lib_def demo_pcd_def)

theorem fv_initialize_validates_witness:
  "\<exists>buf'. InitializeFvAndVariableStoreHeaders demo_lib demo_pcd (replicate 128 0xFF) = Some buf' \<and>
     ValidateFvHeader demo_lib demo_pcd buf' = Some EFI_SUCCESS"
  using fv_initialize_validates [OF demo_lib_ok, of "replicate 128 0xFF"] by auto

section \<open>The entry point\<close>

text \<open>The environment hands out memory of the size asked for.\<close>

definition boot_ok :: "fvb_boot \<Rightarrow> bool" where
  "boot_ok env \<longleftrightarrow> (\<forall>a n. length (memory_at env a n) = n) \<and>
     (\<forall>n a m. AllocateRuntimePages env n = Some (a, m) \<longrightarrow> length m = n * EFI_PAGE_SIZE)"

lemma emu_size: "EMU_FVB_SIZE p = 2 * EMU_FVB_NUM_SPARE_BLOCKS p * 4096"
  by (simp add: EMU_FVB_SIZE_def EMU_FVB_NUM_TOTAL_BLOCKS_def EMU_FVB_BLOCK_SIZE_def EFI_PAGE_SIZE_def)

lemma emu_pages: "EFI_SIZE_TO_PAGES (EMU_FVB_SIZE p) * 4096 = EMU_FVB_SIZE p"
  by (simp add: EFI_SIZE_TO_PAGES_def EFI_PAGE_SIZE_def emu_size)

lemma find_buffer_length:
  assumes "boot_ok env" and "find_buffer lib env p = Some (Ptr, m, init)"
  shows "length m = EMU_FVB_SIZE p"
  using assms by (auto simp: find_buffer_def boot_ok_def Let_def emu_pages EFI_PAGE_SIZE_def split: if_splits)

lemma fill_buffer_valid:
  assumes "checksum_lib lib" and "header_consts lib p" and "length m = EMU_FVB_SIZE p" and "100 \<le> EMU_FVB_SIZE p"
    and "fill_buffer lib p m = Some buf"
  shows "length buf = EMU_FVB_SIZE p \<and> ValidateFvHeader lib p buf = Some EFI_SUCCESS"
proof -
  from assms(5) obtain m1 where m1: "set_mem m 0 (EMU_FVB_SIZE p) ERASED_UINT8 = Some m1"
    "InitializeFvAndVariableStoreHeaders lib p m1 = Some buf" by (auto simp: fill_buffer_def bind_eq_Some_conv)
  have "length m1 = EMU_FVB_SIZE p" using store_bytes_length [OF m1(1) [unfolded set_mem_def]] assms(3) by simp
  then show ?thesis using fv_header_valid [OF assms(1,2), of m1] assms(4) m1(2) by auto
qed

text \<open>
  When the driver's entry point succeeds, the store is usable: the buffer has the full
  size and holds a volume that passes validation (a valid one found in the reserved memory is
  kept as it is), and, for a buffer below 4 GiB, the variable area, the fault tolerant
  working area and the spare area lie in this order, without overlap, inside the buffer.
\<close>

theorem fvb_initialize_ready:
  assumes "checksum_lib lib" and "header_consts lib p" and "boot_ok env" and "0 < FtwSpareSize p"
    and "VariableSize p + FtwWorkingSize p < 2 ^ 32"
    and "FvbInitialize lib env p = Some (EFI_SUCCESS, d)" and "BufferPtr d + EMU_FVB_SIZE p < 2 ^ 32"
  shows "fvb_ok d \<and> length (fvb_buffer d) = EMU_FVB_SIZE p \<and> ValidateFvHeader lib p (fvb_buffer d) = Some EFI_SUCCESS \<and>
    (NvStoreReserved p \<noteq> 0 \<and>
      ValidateFvHeader lib p (memory_at env (NvStoreReserved p) (EMU_FVB_SIZE p)) = Some EFI_SUCCESS \<longrightarrow>
      fvb_buffer d = memory_at env (NvStoreReserved p) (EMU_FVB_SIZE p)) \<and>
    VariableBase64 (pcds d) = BufferPtr d \<and>
    VariableBase64 (pcds d) + VariableSize p = FtwWorkingBase (pcds d) \<and>
    FtwWorkingBase (pcds d) + FtwWorkingSize p \<le> FtwSpareBase (pcds d) \<and>
    FtwSpareBase (pcds d) + FtwSpareSize p = BufferPtr d + length (fvb_buffer d)"
proof -
  let ?sp = "EMU_FVB_NUM_SPARE_BLOCKS p * 4096"
  from assms(6) have al: "FtwSpareSize p mod 4096 = 0" and fit: "VariableSize p + FtwWorkingSize p \<le> ?sp"
    using assms(5) by (auto simp: FvbInitialize_def EMU_FVB_BLOCK_SIZE_def EFI_PAGE_SIZE_def add32_def split: if_splits)
  from assms(6) obtain Ptr m init buf where fb: "find_buffer lib env p = Some (Ptr, m, init)"
    and buf: "(if init then fill_buffer lib p m else Some m) = Some buf"
    and d: "d = (mEmuVarsFvb p)\<lparr>BufferPtr := Ptr, fvb_buffer := buf,
          StartingAddress := Ptr, EndingAddress := Ptr + EMU_FVB_SIZE p - 1, published := True,
          pcds := p\<lparr>VariableBase64 := Ptr mod 2 ^ 32, FtwWorkingBase := (Ptr + VariableSize p) mod 2 ^ 32,
            FtwSpareBase := (Ptr + EMU_FVB_NUM_SPARE_BLOCKS p * EMU_FVB_BLOCK_SIZE) mod 2 ^ 32\<rparr>\<rparr>"
    by (auto simp: FvbInitialize_def bind_eq_Some_conv split: if_splits)
  have sp: "?sp = FtwSpareSize p" using al by (auto simp: EMU_FVB_NUM_SPARE_BLOCKS_def EFI_SIZE_TO_PAGES_def EFI_PAGE_SIZE_def)
  then have sz: "EMU_FVB_SIZE p = 2 * FtwSpareSize p" "100 \<le> EMU_FVB_SIZE p"
    using assms(4) al by (auto simp: emu_size)
  have lm: "length m = EMU_FVB_SIZE p" by (rule find_buffer_length [OF assms(3) fb])
  have val: "length buf = EMU_FVB_SIZE p \<and> ValidateFvHeader lib p buf = Some EFI_SUCCESS"
  proof (cases init)
    case True
    with buf fill_buffer_valid [OF assms(1,2) lm sz(2)] show ?thesis by simp
  next
    case False
    with fb buf lm show ?thesis by (auto simp: find_buffer_def Let_def split: if_splits)
  qed
  have keep: "NvStoreReserved p \<noteq> 0 \<and>
      ValidateFvHeader lib p (memory_at env (NvStoreReserved p) (EMU_FVB_SIZE p)) = Some EFI_SUCCESS \<longrightarrow>
      buf = memory_at env (NvStoreReserved p) (EMU_FVB_SIZE p)"
    using fb buf by (auto simp: find_buffer_def Let_def split: if_splits)
  have "num_blocks d * BlockSize d = EMU_FVB_SIZE p" "0 < BlockSize d"
    by (simp_all add: d mEmuVarsFvb_def EMU_FVB_SIZE_def EMU_FVB_NUM_TOTAL_BLOCKS_def EMU_FVB_NUM_SPARE_BLOCKS_def
        EMU_FVB_BLOCK_SIZE_def EFI_PAGE_SIZE_def)
  then have "fvb_ok d" using val by (simp add: fvb_ok_def d)
  moreover have "VariableBase64 (pcds d) = Ptr" "FtwWorkingBase (pcds d) = Ptr + VariableSize p"
    "FtwSpareBase (pcds d) = Ptr + ?sp" "BufferPtr d = Ptr"
    using assms(7) sz fit sp by (simp_all add: d EMU_FVB_BLOCK_SIZE_def EFI_PAGE_SIZE_def)
  ultimately show ?thesis using val keep fit sp sz(1) by (simp add: d)
qed

definition demo_boot :: fvb_boot where
  "demo_boot = \<lparr>AllocateRuntimePages = (\<lambda>n. Some (0x100000, replicate (n * 4096) 0)),
     memory_at = (\<lambda>a n. replicate n 0), pcd_set_ok = True, install_ok = True, event_ok = True\<rparr>"

lemma demo_pcd_sel: "FtwSpareSize demo_pcd = 4096" "VariableSize demo_pcd = 2048" "FtwWorkingSize demo_pcd = 1024"
  "VariableBase64 demo_pcd = 0" "NvStoreReserved demo_pcd = 0"
  by (simp_all add: demo_pcd_def)

lemma demo_boot_sel: "pcd_set_ok demo_boot" "install_ok demo_boot" "event_ok demo_boot"
  by (simp_all add: demo_boot_def)

theorem fvb_initialize_ready_witness:
  "\<exists>d. FvbInitialize demo_lib demo_boot demo_pcd = Some (EFI_SUCCESS, d) \<and> fvb_ok d \<and>
     FtwSpareBase (pcds d) + 4096 = 0x100000 + 8192"
proof -
  have sz: "EMU_FVB_SIZE demo_pcd = 8192" "EMU_FVB_NUM_SPARE_BLOCKS demo_pcd = 1"
    by (simp_all add: EMU_FVB_SIZE_def EMU_FVB_NUM_TOTAL_BLOCKS_def EMU_FVB_NUM_SPARE_BLOCKS_def EFI_SIZE_TO_PAGES_def
        EMU_FVB_BLOCK_SIZE_def EFI_PAGE_SIZE_def demo_pcd_def)
  have boot: "boot_ok demo_boot" by (simp add: boot_ok_def demo_boot_def EFI_PAGE_SIZE_def)
  obtain m1 where m1: "set_mem (replicate 8192 0) 0 8192 ERASED_UINT8 = Some m1" "length m1 = 8192"
    by (simp add: set_mem_def store_bytes_def)
  then obtain buf where "InitializeFvAndVariableStoreHeaders demo_lib demo_pcd m1 = Some buf"
    using fv_header_valid [OF demo_lib_ok, of m1] by auto
  with m1 have fb: "fill_buffer demo_lib demo_pcd (replicate 8192 0) = Some buf" by (simp add: fill_buffer_def sz)
  have "find_buffer demo_lib demo_boot demo_pcd = Some (0x100000, replicate 8192 0, True)"
    using emu_pages [of demo_pcd] by (simp add: find_buffer_def sz demo_boot_def) (simp add: demo_pcd_def)
  with fb sz(2) obtain d where d: "FvbInitialize demo_lib demo_boot demo_pcd = Some (EFI_SUCCESS, d)" "BufferPtr d = 0x100000"
    by (simp add: FvbInitialize_def EMU_FVB_BLOCK_SIZE_def EFI_PAGE_SIZE_def demo_pcd_sel demo_boot_sel add32_def)
  from fvb_initialize_ready [OF demo_lib_ok boot _ _ d(1)] sz(1) d show ?thesis
    by (auto simp: demo_pcd_def)
qed

end
