(* ===== verification/FlashFvb.thy ===== *)
theory FlashFvb
  imports EmuFvb
begin

text \<open>
  The variable store in flash: the driver of \<^verbatim>\<open>QemuFlashFvbServicesRuntimeDxe\<close>. \<^verbatim>\<open>QemuFlash.c\<close> drives
  the device by single-byte commands, \<^verbatim>\<open>FvbInfo.c\<close> has the header of a fresh volume, and
  \<^verbatim>\<open>FwBlockService.c\<close> offers blocks and attributes of the volume. The device is a parameter: a read
  and a write of one byte at an address. A result \<open>None\<close> is an access outside a buffer
  or a failed assertion.
\<close>

section \<open>The device\<close>

record 'd flash_dev =
  fl_read :: "'d \<Rightarrow> nat \<Rightarrow> byte \<times> 'd"
  fl_write :: "'d \<Rightarrow> nat \<Rightarrow> byte \<Rightarrow> 'd"

definition WRITE_BYTE_CMD :: byte where "WRITE_BYTE_CMD = 0x10"
definition BLOCK_ERASE_CMD :: byte where "BLOCK_ERASE_CMD = 0x20"
definition CLEAR_STATUS_CMD :: byte where "CLEAR_STATUS_CMD = 0x50"
definition READ_STATUS_CMD :: byte where "READ_STATUS_CMD = 0x70"
definition BLOCK_ERASE_CONFIRM_CMD :: byte where "BLOCK_ERASE_CONFIRM_CMD = 0xd0"
definition READ_ARRAY_CMD :: byte where "READ_ARRAY_CMD = 0xff"
definition CLEARED_ARRAY_STATUS :: byte where "CLEARED_ARRAY_STATUS = 0x00"

text \<open>The variables of the module.\<close>

record flash_mod =
  mFlashBase :: nat
  mFdBlockSize :: nat
  mFdBlockCount :: nat

definition QemuFlashPtr :: "flash_mod \<Rightarrow> nat \<Rightarrow> nat \<Rightarrow> nat" where
  "QemuFlashPtr m Lba Offset = mFlashBase m + (Lba * mFdBlockSize m) mod 2 ^ 64 + Offset"

text \<open>A copy of bytes out of the device.\<close>

fun read_span :: "'d flash_dev \<Rightarrow> 'd \<Rightarrow> nat \<Rightarrow> nat \<Rightarrow> byte list \<times> 'd" where
  "read_span dev d a 0 = ([], d)"
| "read_span dev d a (Suc n) = (case fl_read dev d a of (b, d1) \<Rightarrow> (case read_span dev d1 (a + 1) n of (bs, d2) \<Rightarrow> (b # bs, d2)))"

definition QemuFlashRead :: "'d flash_dev \<Rightarrow> flash_mod \<Rightarrow> 'd \<Rightarrow> nat \<Rightarrow> nat \<Rightarrow> nat \<Rightarrow> EFI_STATUS \<times> byte list \<times> 'd" where
  "QemuFlashRead dev m d Lba Offset NumBytes =
     (if mFdBlockCount m \<le> Lba then (EFI_INVALID_PARAMETER, [], d)
      else (EFI_SUCCESS, read_span dev d (QemuFlashPtr m Lba Offset) NumBytes))"

fun program_loop :: "'d flash_dev \<Rightarrow> 'd \<Rightarrow> nat \<Rightarrow> byte list \<Rightarrow> 'd" where
  "program_loop dev d p [] = d"
| "program_loop dev d p (v # vs) = program_loop dev (fl_write dev (fl_write dev d p WRITE_BYTE_CMD) p v) (p + 1) vs"

definition QemuFlashWrite ::
  "'d flash_dev \<Rightarrow> flash_mod \<Rightarrow> 'd \<Rightarrow> nat \<Rightarrow> nat \<Rightarrow> nat \<Rightarrow> byte list \<Rightarrow> (EFI_STATUS \<times> 'd) option" where
  "QemuFlashWrite dev m d Lba Offset NumBytes Buffer =
     (if mFdBlockCount m \<le> Lba then Some (EFI_INVALID_PARAMETER, d)
      else map_option (\<lambda>data.
        let Ptr = QemuFlashPtr m Lba Offset; d1 = program_loop dev d Ptr data
        in (EFI_SUCCESS, if 0 < NumBytes then fl_write dev d1 (Ptr + NumBytes - 1) READ_ARRAY_CMD else d1))
        (load_bytes Buffer 0 NumBytes))"

definition QemuFlashEraseBlock :: "'d flash_dev \<Rightarrow> flash_mod \<Rightarrow> 'd \<Rightarrow> nat \<Rightarrow> EFI_STATUS \<times> 'd" where
  "QemuFlashEraseBlock dev m d Lba =
     (if mFdBlockCount m \<le> Lba then (EFI_INVALID_PARAMETER, d)
      else let Ptr = QemuFlashPtr m Lba 0
      in (EFI_SUCCESS, fl_write dev (fl_write dev d Ptr BLOCK_ERASE_CMD) Ptr BLOCK_ERASE_CONFIRM_CMD))"

text \<open>
  Detection. The scan finds the first byte of the first block that no command or status can be
  mistaken for; the probe writes commands there and looks at what is read back.
\<close>

fun probe_scan :: "'d flash_dev \<Rightarrow> 'd \<Rightarrow> nat \<Rightarrow> nat \<Rightarrow> nat option \<times> 'd" where
  "probe_scan dev d a 0 = (None, d)"
| "probe_scan dev d a (Suc n) = (case fl_read dev d a of (ProbeUint8, d1) \<Rightarrow>
     if ProbeUint8 \<noteq> CLEAR_STATUS_CMD \<and> ProbeUint8 \<noteq> READ_STATUS_CMD \<and> ProbeUint8 \<noteq> CLEARED_ARRAY_STATUS
     then (Some a, d1) else probe_scan dev d1 (a + 1) n)"

definition probe_at :: "'d flash_dev \<Rightarrow> 'd \<Rightarrow> nat \<Rightarrow> bool \<times> 'd" where
  "probe_at dev d Ptr =
     (case fl_read dev d Ptr of (OriginalUint8, d1) \<Rightarrow>
      case fl_read dev (fl_write dev d1 Ptr CLEAR_STATUS_CMD) Ptr of (Probe1, d2) \<Rightarrow>
      if OriginalUint8 \<noteq> CLEAR_STATUS_CMD \<and> Probe1 = CLEAR_STATUS_CMD then (False, fl_write dev d2 Ptr OriginalUint8)
      else case fl_read dev (fl_write dev d2 Ptr READ_STATUS_CMD) Ptr of (Probe2, d3) \<Rightarrow>
        if Probe2 = OriginalUint8 then (False, d3)
        else if Probe2 = READ_STATUS_CMD then (False, fl_write dev d3 Ptr OriginalUint8)
        else if Probe2 = CLEARED_ARRAY_STATUS then (True, fl_write dev d3 Ptr READ_ARRAY_CMD)
        else (False, d3))"

definition QemuFlashDetected :: "'d flash_dev \<Rightarrow> bool \<Rightarrow> flash_mod \<Rightarrow> 'd \<Rightarrow> bool \<times> 'd" where
  "QemuFlashDetected dev SevEs m d =
     (case probe_scan dev d (QemuFlashPtr m 0 0) (mFdBlockSize m) of
        (None, d1) \<Rightarrow> (False, d1)
      | (Some Ptr, d1) \<Rightarrow> if SevEs then (True, d1) else probe_at dev d1 Ptr)"

section \<open>Configuration\<close>

text \<open>The configuration items, and the attribute bits of the firmware volume protocol.\<close>

record flash_pcd =
  OvmfFdBaseAddress :: nat
  OvmfFirmwareBlockSize :: nat
  OvmfFirmwareFdSize :: nat
  SmmSmramRequire :: bool
  FlashNvVariableBase :: nat
  FlashNvVariableSize :: nat
  FlashNvFtwWorkingSize :: nat
  FlashNvFtwSpareSize :: nat
  FlashNvEventLogSize :: nat

record fvb2_bits =
  READ_DISABLED_CAP :: u32
  READ_ENABLED_CAP :: u32
  READ_STATUS :: u32
  WRITE_DISABLED_CAP :: u32
  WRITE_ENABLED_CAP :: u32
  WRITE_STATUS :: u32
  LOCK_CAP :: u32
  LOCK_STATUS :: u32
  STICKY_WRITE :: u32
  MEMORY_MAPPED :: u32
  ERASE_POLARITY :: u32
  READ_LOCK_CAP :: u32
  WRITE_LOCK_CAP :: u32
  ALIGNMENT :: u32
  ALIGNMENT_16 :: u32

definition QemuFlashInitialize :: "'d flash_dev \<Rightarrow> bool \<Rightarrow> flash_pcd \<Rightarrow> 'd \<Rightarrow> (EFI_STATUS \<times> flash_mod \<times> 'd) option" where
  "QemuFlashInitialize dev SevEs p d =
     (if OvmfFirmwareBlockSize p = 0 \<or> OvmfFirmwareFdSize p mod OvmfFirmwareBlockSize p \<noteq> 0 then None
      else let m = \<lparr>mFlashBase = OvmfFdBaseAddress p, mFdBlockSize = OvmfFirmwareBlockSize p,
                    mFdBlockCount = OvmfFirmwareFdSize p div OvmfFirmwareBlockSize p\<rparr>
      in case QemuFlashDetected dev SevEs m d of (found, d1) \<Rightarrow>
         if found then Some (EFI_SUCCESS, m, d1)
         else if SmmSmramRequire p then None else Some (EFI_WRITE_PROTECTED, m, d1))"

section \<open>Instances and attributes\<close>

text \<open>
  An instance keeps a copy of the volume header as bytes. The instances follow each other in
  memory, each as long as its header makes it; they are a list here.
\<close>

record EFI_FW_VOL_INSTANCE =
  FvBase :: nat
  NumOfBlocks :: nat
  VolumeHeader :: "byte list"

definition GetFvbInstance :: "nat \<Rightarrow> EFI_FW_VOL_INSTANCE list \<Rightarrow> EFI_STATUS \<times> EFI_FW_VOL_INSTANCE option" where
  "GetFvbInstance Instance Global =
     (if length Global \<le> Instance then (EFI_INVALID_PARAMETER, None) else (EFI_SUCCESS, Some (Global ! Instance)))"

definition FvbGetPhysicalAddress :: "nat \<Rightarrow> EFI_FW_VOL_INSTANCE list \<Rightarrow> (EFI_STATUS \<times> nat) option" where
  "FvbGetPhysicalAddress Instance Global =
     (case GetFvbInstance Instance Global of (EFI_SUCCESS, Some i) \<Rightarrow> Some (EFI_SUCCESS, FvBase i) | _ \<Rightarrow> None)"

definition fv_Attributes :: nat where "fv_Attributes = 44"
definition fv_BlockMap :: nat where "fv_BlockMap = 56"

definition FvbGetVolumeAttributes :: "nat \<Rightarrow> EFI_FW_VOL_INSTANCE list \<Rightarrow> (EFI_STATUS \<times> u32) option" where
  "FvbGetVolumeAttributes Instance Global =
     (case GetFvbInstance Instance Global of
        (EFI_SUCCESS, Some i) \<Rightarrow> map_option (\<lambda>a. (EFI_SUCCESS, of_nat a)) (le_field (VolumeHeader i) fv_Attributes 4)
      | _ \<Rightarrow> None)"

definition EFI_FVB2_STATUS :: "fvb2_bits \<Rightarrow> u32" where
  "EFI_FVB2_STATUS B = READ_STATUS B OR WRITE_STATUS B OR LOCK_STATUS B"

definition UnchangedAttributes :: "fvb2_bits \<Rightarrow> u32" where
  "UnchangedAttributes B = READ_DISABLED_CAP B OR READ_ENABLED_CAP B OR WRITE_DISABLED_CAP B OR WRITE_ENABLED_CAP B OR
     LOCK_CAP B OR STICKY_WRITE B OR MEMORY_MAPPED B OR ERASE_POLARITY B OR READ_LOCK_CAP B OR WRITE_LOCK_CAP B OR ALIGNMENT B"

text \<open>The decision on a request, given the attributes of the volume, and the new attributes.\<close>

definition set_attributes :: "fvb2_bits \<Rightarrow> u32 \<Rightarrow> u32 \<Rightarrow> EFI_STATUS \<times> u32" where
  "set_attributes B OldAttributes Attributes =
     (let Capabilities = OldAttributes AND (READ_DISABLED_CAP B OR READ_ENABLED_CAP B OR WRITE_DISABLED_CAP B OR
            WRITE_ENABLED_CAP B OR LOCK_CAP B);
          OldStatus = OldAttributes AND EFI_FVB2_STATUS B;
          NewStatus = Attributes AND EFI_FVB2_STATUS B
      in if (OldAttributes AND UnchangedAttributes B) XOR (Attributes AND UnchangedAttributes B) \<noteq> 0
         then (EFI_INVALID_PARAMETER, OldAttributes)
         else if OldAttributes AND LOCK_STATUS B \<noteq> 0 \<and> OldStatus XOR NewStatus \<noteq> 0 then (EFI_ACCESS_DENIED, OldAttributes)
         else if Capabilities AND READ_DISABLED_CAP B = 0 \<and> NewStatus AND READ_STATUS B = 0
         then (EFI_INVALID_PARAMETER, OldAttributes)
         else if Capabilities AND READ_ENABLED_CAP B = 0 \<and> NewStatus AND READ_STATUS B \<noteq> 0
         then (EFI_INVALID_PARAMETER, OldAttributes)
         else if Capabilities AND WRITE_DISABLED_CAP B = 0 \<and> NewStatus AND WRITE_STATUS B = 0
         then (EFI_INVALID_PARAMETER, OldAttributes)
         else if Capabilities AND WRITE_ENABLED_CAP B = 0 \<and> NewStatus AND WRITE_STATUS B \<noteq> 0
         then (EFI_INVALID_PARAMETER, OldAttributes)
         else if Capabilities AND LOCK_CAP B = 0 \<and> NewStatus AND LOCK_STATUS B \<noteq> 0
         then (EFI_INVALID_PARAMETER, OldAttributes)
         else (EFI_SUCCESS, (OldAttributes AND (0xFFFFFFFF AND NOT (EFI_FVB2_STATUS B))) OR NewStatus))"

definition FvbSetVolumeAttributes ::
  "fvb2_bits \<Rightarrow> nat \<Rightarrow> u32 \<Rightarrow> EFI_FW_VOL_INSTANCE list \<Rightarrow> (EFI_STATUS \<times> u32 \<times> EFI_FW_VOL_INSTANCE list) option" where
  "FvbSetVolumeAttributes B Instance Attributes Global =
     (case GetFvbInstance Instance Global of
        (EFI_SUCCESS, Some i) \<Rightarrow> Option.bind (le_field (VolumeHeader i) fv_Attributes 4) (\<lambda>old.
          case set_attributes B (of_nat old) Attributes of
            (EFI_SUCCESS, new) \<Rightarrow> map_option (\<lambda>h. (EFI_SUCCESS, new, Global[Instance := i\<lparr>VolumeHeader := h\<rparr>]))
              (store_bytes (VolumeHeader i) fv_Attributes (le_bytes 4 (unat new)))
          | (st, _) \<Rightarrow> Some (st, Attributes, Global))
      | _ \<Rightarrow> None)"

section \<open>The block map\<close>

fun block_map :: "byte list \<Rightarrow> (nat \<times> nat) list" where
  "block_map (a # b # c # d # e # f # g # h # bs) = (le_value [a, b, c, d], le_value [e, f, g, h]) # block_map bs"
| "block_map _ = []"

fun lba_walk :: "nat \<Rightarrow> nat \<Rightarrow> nat \<Rightarrow> nat \<Rightarrow> (nat \<times> nat) list \<Rightarrow> (EFI_STATUS \<times> (nat \<times> nat \<times> nat) option) option" where
  "lba_walk base Lba StartLba Offset [] = None"
| "lba_walk base Lba StartLba Offset ((NumBlocks, BlockLength) # es) =
     (if NumBlocks = 0 \<or> BlockLength = 0 then Some (EFI_INVALID_PARAMETER, None)
      else let NextLba = StartLba + NumBlocks
      in if StartLba \<le> Lba \<and> Lba < NextLba
         then Some (EFI_SUCCESS, Some (base + (Offset + (Lba - StartLba) * BlockLength), BlockLength, NextLba - Lba))
         else lba_walk base Lba NextLba (Offset + mul32 NumBlocks BlockLength) es)"

definition FvbGetLbaAddress :: "nat \<Rightarrow> nat \<Rightarrow> EFI_FW_VOL_INSTANCE list \<Rightarrow> (EFI_STATUS \<times> (nat \<times> nat \<times> nat) option) option" where
  "FvbGetLbaAddress Instance Lba Global =
     (case GetFvbInstance Instance Global of
        (EFI_SUCCESS, Some i) \<Rightarrow> lba_walk (FvBase i) Lba 0 0 (block_map (drop fv_BlockMap (VolumeHeader i)))
      | _ \<Rightarrow> None)"

definition FvbProtocolGetBlockSize_flash ::
  "nat \<Rightarrow> nat \<Rightarrow> EFI_FW_VOL_INSTANCE list \<Rightarrow> (EFI_STATUS \<times> (nat \<times> nat) option) option" where
  "FvbProtocolGetBlockSize_flash Instance Lba Global =
     map_option (\<lambda>(st, r). (st, map_option (\<lambda>(_, len, n). (len, n)) r)) (FvbGetLbaAddress Instance Lba Global)"

section \<open>Reading, writing, erasing\<close>

definition FvbProtocolRead_flash :: "'d flash_dev \<Rightarrow> flash_mod \<Rightarrow> 'd \<Rightarrow> nat \<Rightarrow> nat \<Rightarrow> nat \<Rightarrow> EFI_STATUS \<times> byte list \<times> 'd" where
  "FvbProtocolRead_flash dev m d Lba Offset NumBytes = QemuFlashRead dev m d Lba Offset NumBytes"

definition FvbProtocolWrite_flash ::
  "'d flash_dev \<Rightarrow> flash_mod \<Rightarrow> 'd \<Rightarrow> nat \<Rightarrow> nat \<Rightarrow> nat \<Rightarrow> byte list \<Rightarrow> (EFI_STATUS \<times> 'd) option" where
  "FvbProtocolWrite_flash dev m d Lba Offset NumBytes Buffer = QemuFlashWrite dev m d Lba Offset NumBytes Buffer"

fun erase_check_flash :: "nat \<Rightarrow> nat list \<Rightarrow> EFI_STATUS option" where
  "erase_check_flash n [] = None"
| "erase_check_flash n (StartingLba # args) =
     (if StartingLba = EFI_LBA_LIST_TERMINATOR then Some EFI_SUCCESS
      else (case args of
              [] \<Rightarrow> None
            | NumOfLba # args' \<Rightarrow>
                if NumOfLba = 0 \<or> n < (StartingLba + NumOfLba) mod 2 ^ 64 then Some EFI_INVALID_PARAMETER
                else erase_check_flash n args'))"

fun erase_blocks :: "'d flash_dev \<Rightarrow> flash_mod \<Rightarrow> 'd \<Rightarrow> nat \<Rightarrow> nat \<Rightarrow> EFI_STATUS \<times> 'd" where
  "erase_blocks dev m d StartingLba 0 = (EFI_SUCCESS, d)"
| "erase_blocks dev m d StartingLba (Suc n) =
     (case QemuFlashEraseBlock dev m d StartingLba of
        (EFI_SUCCESS, d1) \<Rightarrow> erase_blocks dev m d1 ((StartingLba + 1) mod 2 ^ 64) n
      | (st, d1) \<Rightarrow> (st, d1))"

fun erase_ranges_flash :: "'d flash_dev \<Rightarrow> flash_mod \<Rightarrow> 'd \<Rightarrow> nat list \<Rightarrow> (EFI_STATUS \<times> 'd) option" where
  "erase_ranges_flash dev m d [] = None"
| "erase_ranges_flash dev m d (StartingLba # args) =
     (if StartingLba = EFI_LBA_LIST_TERMINATOR then Some (EFI_SUCCESS, d)
      else (case args of
              [] \<Rightarrow> None
            | NumOfLba # args' \<Rightarrow> (case erase_blocks dev m d StartingLba NumOfLba of
                  (EFI_SUCCESS, d1) \<Rightarrow> erase_ranges_flash dev m d1 args'
                | (st, d1) \<Rightarrow> Some (st, d1))))"

definition FvbProtocolEraseBlocks_flash ::
  "'d flash_dev \<Rightarrow> flash_mod \<Rightarrow> nat \<Rightarrow> EFI_FW_VOL_INSTANCE list \<Rightarrow> 'd \<Rightarrow> nat list \<Rightarrow> (EFI_STATUS \<times> 'd) option" where
  "FvbProtocolEraseBlocks_flash dev m Instance Global d args =
     (case GetFvbInstance Instance Global of
        (EFI_SUCCESS, Some i) \<Rightarrow> Option.bind (erase_check_flash (NumOfBlocks i) args) (\<lambda>st.
          if st \<noteq> EFI_SUCCESS then Some (st, d) else erase_ranges_flash dev m d args)
      | _ \<Rightarrow> None)"

section \<open>The volume\<close>

definition nv_length :: "flash_pcd \<Rightarrow> nat" where
  "nv_length p = add32 (add32 (add32 (FlashNvVariableSize p) (FlashNvFtwWorkingSize p)) (FlashNvFtwSpareSize p)) (FlashNvEventLogSize p)"

text \<open>The header in the media table, its checksum filled in by the first call.\<close>

definition mPlatformFvbMediaInfo :: "fv_lib \<Rightarrow> fvb2_bits \<Rightarrow> flash_pcd \<Rightarrow> byte list" where
  "mPlatformFvbMediaInfo lib B p =
     replicate 16 0 @ NvDataFvGuid lib @ le_bytes 8 (nv_length p) @ le_bytes 4 (FvhSignature lib) @
     le_bytes 4 (unat (MEMORY_MAPPED B OR READ_ENABLED_CAP B OR READ_STATUS B OR WRITE_ENABLED_CAP B OR WRITE_STATUS B OR
       ERASE_POLARITY B OR ALIGNMENT_16 B)) @
     le_bytes 2 EMU_FV_HEADER_LENGTH @ le_bytes 2 0 @ le_bytes 2 0 @ [0] @ [2] @
     le_bytes 4 (nv_length p div OvmfFirmwareBlockSize p) @ le_bytes 4 (OvmfFirmwareBlockSize p) @ le_bytes 4 0 @ le_bytes 4 0"

definition GetFvbInfo :: "fv_lib \<Rightarrow> fvb2_bits \<Rightarrow> flash_pcd \<Rightarrow> nat \<Rightarrow> (EFI_STATUS \<times> byte list option) option" where
  "GetFvbInfo lib B p FvLength =
     (if FvLength = nv_length p
      then map_option (\<lambda>h. (EFI_SUCCESS, Some h))
        (store_bytes (mPlatformFvbMediaInfo lib B p) fv_Checksum
          (le_bytes 2 (CalculateCheckSum16 lib (mPlatformFvbMediaInfo lib B p))))
      else Some (EFI_NOT_FOUND, None))"

text \<open>Validation of a header in memory, at an address of the device.\<close>

definition ValidateFvHeader_flash :: "'d flash_dev \<Rightarrow> fv_lib \<Rightarrow> 'd \<Rightarrow> nat \<Rightarrow> EFI_STATUS \<times> 'd" where
  "ValidateFvHeader_flash dev lib d a =
     (case read_span dev d a fv_BlockMap of (fixed, d1) \<Rightarrow>
      let hlen = le_value (take 2 (drop fv_HeaderLength fixed))
      in if le_field fixed fv_Revision 1 \<noteq> Some (FvhRevision lib) \<or> le_field fixed fv_Signature 4 \<noteq> Some (FvhSignature lib) \<or>
            le_field fixed fv_FvLength 8 = Some (2 ^ 64 - 1) \<or> hlen AND 1 \<noteq> 0
         then (EFI_NOT_FOUND, d1)
         else case read_span dev d1 a hlen of (hdr, d2) \<Rightarrow>
           (if CalculateSum16 lib hdr \<noteq> 0 then EFI_NOT_FOUND else EFI_SUCCESS, d2))"

text \<open>The volume of the variables: kept if it is valid and has the configured layout, else written anew.\<close>

definition InitializeVariableFvHeader ::
  "'d flash_dev \<Rightarrow> flash_mod \<Rightarrow> fv_lib \<Rightarrow> fvb2_bits \<Rightarrow> flash_pcd \<Rightarrow> 'd \<Rightarrow> (EFI_STATUS \<times> 'd) option" where
  "InitializeVariableFvHeader dev m lib B p d =
     (let a = FlashNvVariableBase p; Length = nv_length p; bs = OvmfFirmwareBlockSize p
      in case ValidateFvHeader_flash dev lib d a of (st, d1) \<Rightarrow>
         case (if st = EFI_SUCCESS then (case read_span dev d1 a 64 of (h, d2) \<Rightarrow>
                 (if le_field h fv_FvLength 8 \<noteq> Some Length \<or> le_field h (fv_BlockMap + 4) 4 \<noteq> Some bs
                  then EFI_VOLUME_CORRUPTED else EFI_SUCCESS, d2)) else (st, d1)) of (st, d2) \<Rightarrow>
         if st = EFI_SUCCESS then Some (EFI_SUCCESS, d2)
         else (case GetFvbInfo lib B p Length of
             Some (EFI_SUCCESS, Some good) \<Rightarrow>
               let Start = a - OvmfFdBaseAddress p
               in if a < OvmfFdBaseAddress p \<or> Start mod bs \<noteq> 0 \<or> Length mod bs \<noteq> 0 \<or> bs < EMU_FV_HEADER_LENGTH then None
                  else (case erase_blocks dev m d2 (Start div bs) (Length div bs) of
                      (EFI_SUCCESS, d3) \<Rightarrow> (case QemuFlashWrite dev m d3 (Start div bs) 0 EMU_FV_HEADER_LENGTH good of
                          Some (EFI_SUCCESS, d4) \<Rightarrow> Some (EFI_SUCCESS, d4) | _ \<Rightarrow> None)
                    | _ \<Rightarrow> None)
           | _ \<Rightarrow> None))"

text \<open>The block count of the instance: the entries up to the first without blocks.\<close>

fun count_blocks :: "(nat \<times> nat) list \<Rightarrow> nat option" where
  "count_blocks [] = None"
| "count_blocks ((n, l) # es) = (if n = 0 then Some 0 else map_option ((+) n) (count_blocks es))"

text \<open>The entry point. The hooks that install protocols and mark the range are not part of the model.\<close>

definition FvbInitialize_flash ::
  "'d flash_dev \<Rightarrow> bool \<Rightarrow> fv_lib \<Rightarrow> fvb2_bits \<Rightarrow> flash_pcd \<Rightarrow> 'd \<Rightarrow> (EFI_STATUS \<times> EFI_FW_VOL_INSTANCE list \<times> flash_mod \<times> 'd) option" where
  "FvbInitialize_flash dev SevEs lib B p d =
     Option.bind (QemuFlashInitialize dev SevEs p d) (\<lambda>(st, m, d1).
     if st \<noteq> EFI_SUCCESS then Some (EFI_WRITE_PROTECTED, [], m, d1)
     else Option.bind (InitializeVariableFvHeader dev m lib B p d1) (\<lambda>(st, d2).
     if st \<noteq> EFI_SUCCESS then Some (EFI_WRITE_PROTECTED, [], m, d2)
     else case ValidateFvHeader_flash dev lib d2 (OvmfFdBaseAddress p) of (st, d3) \<Rightarrow>
     Option.bind (if st = EFI_SUCCESS
         then (case read_span dev d3 (OvmfFdBaseAddress p) fv_BlockMap of (h, d4) \<Rightarrow>
           map_option (\<lambda>n. (EFI_SUCCESS, n, d4)) (le_field h fv_HeaderLength 2))
         else map_option (\<lambda>(st, h). (st, EMU_FV_HEADER_LENGTH, d3)) (GetFvbInfo lib B p (OvmfFirmwareFdSize p)))
       (\<lambda>(st, room, d4).
     if st \<noteq> EFI_SUCCESS then Some (EFI_WRITE_PROTECTED, [], m, d4)
     else case read_span dev d4 (FlashNvVariableBase p) fv_BlockMap of (h, d5) \<Rightarrow>
     Option.bind (le_field h fv_HeaderLength 2) (\<lambda>hlen.
     if room < hlen then None
     else case read_span dev d5 (FlashNvVariableBase p) hlen of (hdr, d6) \<Rightarrow>
     map_option (\<lambda>n. (EFI_SUCCESS, [\<lparr>FvBase = OvmfFdBaseAddress p, NumOfBlocks = n, VolumeHeader = hdr\<rparr>], m, d6))
       (count_blocks (block_map (drop fv_BlockMap hdr)))))))"

end
