(* ===== verification/FlashFvbProps.thy ===== *)
theory FlashFvbProps
  imports FlashFvb EmuFvbProps
begin

text \<open>
  Properties of the flash variable store over any device that keeps the contract of the
  command set: reads in array mode deliver the cells, a program command sets an erased cell, an erase command
  erases a block. A small machine with these commands shows that the contract can be met.
\<close>

section \<open>The contract of the device\<close>

text \<open>What of a state of the device matters: its cells, whether reads deliver them, whether it accepts a command.\<close>

record 'd flash_view =
  cells :: "'d \<Rightarrow> byte list"
  array_mode :: "'d \<Rightarrow> bool"
  accepts :: "'d \<Rightarrow> bool"

definition flash_law :: "'d flash_dev \<Rightarrow> nat \<Rightarrow> nat \<Rightarrow> 'd flash_view \<Rightarrow> bool" where
  "flash_law dev base bs v \<longleftrightarrow>
     (\<forall>d. array_mode v d \<longrightarrow> accepts v d) \<and>
     (\<forall>d a. array_mode v d \<and> a < length (cells v d) \<longrightarrow> fl_read dev d (base + a) = (cells v d ! a, d)) \<and>
     (\<forall>d a x. accepts v d \<and> a < length (cells v d) \<and> cells v d ! a = ERASED_UINT8 \<longrightarrow>
        (let d' = fl_write dev (fl_write dev d (base + a) WRITE_BYTE_CMD) (base + a) x
         in accepts v d' \<and> cells v d' = (cells v d)[a := x])) \<and>
     (\<forall>d a. accepts v d \<and> a < length (cells v d) \<longrightarrow>
        (let d' = fl_write dev d (base + a) READ_ARRAY_CMD in array_mode v d' \<and> cells v d' = cells v d)) \<and>
     (\<forall>d b. accepts v d \<and> b * bs + bs \<le> length (cells v d) \<longrightarrow>
        (let d' = fl_write dev (fl_write dev d (base + b * bs) BLOCK_ERASE_CMD) (base + b * bs) BLOCK_ERASE_CONFIRM_CMD
         in accepts v d' \<and> set_mem (cells v d) (b * bs) bs ERASED_UINT8 = Some (cells v d')))"

lemma flash_lawD:
  assumes "flash_law dev base bs v"
  shows "array_mode v d \<Longrightarrow> accepts v d"
    and "array_mode v d \<Longrightarrow> a < length (cells v d) \<Longrightarrow> fl_read dev d (base + a) = (cells v d ! a, d)"
    and "accepts v d \<Longrightarrow> a < length (cells v d) \<Longrightarrow> cells v d ! a = ERASED_UINT8 \<Longrightarrow>
      accepts v (fl_write dev (fl_write dev d (base + a) WRITE_BYTE_CMD) (base + a) x) \<and>
      cells v (fl_write dev (fl_write dev d (base + a) WRITE_BYTE_CMD) (base + a) x) = (cells v d)[a := x]"
    and "accepts v d \<Longrightarrow> a < length (cells v d) \<Longrightarrow>
      array_mode v (fl_write dev d (base + a) READ_ARRAY_CMD) \<and> cells v (fl_write dev d (base + a) READ_ARRAY_CMD) = cells v d"
    and "accepts v d \<Longrightarrow> b * bs + bs \<le> length (cells v d) \<Longrightarrow>
      accepts v (fl_write dev (fl_write dev d (base + b * bs) BLOCK_ERASE_CMD) (base + b * bs) BLOCK_ERASE_CONFIRM_CMD) \<and>
      set_mem (cells v d) (b * bs) bs ERASED_UINT8 =
        Some (cells v (fl_write dev (fl_write dev d (base + b * bs) BLOCK_ERASE_CMD) (base + b * bs) BLOCK_ERASE_CONFIRM_CMD))"
  using assms unfolding flash_law_def Let_def by blast+

text \<open>The module is set up for the device.\<close>

definition flash_geom :: "flash_mod \<Rightarrow> 'd flash_view \<Rightarrow> 'd \<Rightarrow> bool" where
  "flash_geom m v d \<longleftrightarrow> length (cells v d) = mFdBlockCount m * mFdBlockSize m \<and> 0 < mFdBlockSize m \<and> length (cells v d) < 2 ^ 64"

lemma flash_ptr:
  assumes "flash_geom m v d" and "b < mFdBlockCount m"
  shows "QemuFlashPtr m b off = mFlashBase m + (b * mFdBlockSize m + off)"
proof -
  have "b * mFdBlockSize m + 0 \<le> mFdBlockCount m * mFdBlockSize m" using assms(2) by (rule block_end) simp
  then have "b * mFdBlockSize m < 2 ^ 64" using assms(1) unfolding flash_geom_def by linarith
  then show ?thesis by (simp add: QemuFlashPtr_def)
qed

section \<open>Reading and writing\<close>

lemma read_span_cells:
  assumes "flash_law dev base bs v" and "array_mode v d" and "a + n \<le> length (cells v d)"
  shows "read_span dev d (base + a) n = (take n (drop a (cells v d)), d)"
  using assms(3)
proof (induction n arbitrary: a)
  case (Suc n)
  then have "fl_read dev d (base + a) = (cells v d ! a, d)" using flash_lawD(2) [OF assms(1,2), of a] by simp
  moreover have "read_span dev d (base + Suc a) n = (take n (drop (Suc a) (cells v d)), d)"
    using Suc.IH [of "Suc a"] Suc.prems by simp
  ultimately show ?case using Suc.prems by (simp add: Cons_nth_drop_Suc [symmetric])
qed simp

lemma program_loop_cells:
  assumes law: "flash_law dev base bs v" and "accepts v d" and "a + length xs \<le> length (cells v d)"
    and "\<forall>i < length xs. cells v d ! (a + i) = ERASED_UINT8"
  shows "accepts v (program_loop dev d (base + a) xs) \<and>
    store_bytes (cells v d) a xs = Some (cells v (program_loop dev d (base + a) xs))"
  using assms(2-)
proof (induction xs arbitrary: d a)
  case Nil
  then show ?case by (simp add: store_bytes_def)
next
  case (Cons x xs)
  let ?d = "fl_write dev (fl_write dev d (base + a) WRITE_BYTE_CMD) (base + a) x"
  have "cells v d ! a = ERASED_UINT8" using Cons.prems(3) by auto
  then have d: "accepts v ?d" "cells v ?d = (cells v d)[a := x]" using flash_lawD(3) [OF law Cons.prems(1)] Cons.prems(2) by auto
  have "\<forall>i < length xs. cells v ?d ! (Suc a + i) = ERASED_UINT8" using Cons.prems(3) d(2) by fastforce
  then have "accepts v (program_loop dev ?d (base + Suc a) xs) \<and>
      store_bytes (cells v ?d) (Suc a) xs = Some (cells v (program_loop dev ?d (base + Suc a) xs))"
    using Cons.IH [OF d(1), of "Suc a"] Cons.prems(2) d(2) by simp
  moreover have "store_bytes (cells v ?d) (Suc a) xs = store_bytes (cells v d) a (x # xs)"
    using Cons.prems(2) d(2) by (simp add: store_bytes_def take_Suc_conv_app_nth)
  ultimately show ?case by simp
qed

lemma flash_write_cells:
  assumes law: "flash_law dev (mFlashBase m) (mFdBlockSize m) v" and geom: "flash_geom m v d" and acc: "accepts v d"
    and b: "Lba < mFdBlockCount m" and n: "0 < n" "n \<le> length Buffer" "Lba * mFdBlockSize m + Offset + n \<le> length (cells v d)"
    and erased: "load_bytes (cells v d) (Lba * mFdBlockSize m + Offset) n = Some (replicate n ERASED_UINT8)"
  shows "\<exists>d'. FvbProtocolWrite_flash dev m d Lba Offset n Buffer = Some (EFI_SUCCESS, d') \<and> array_mode v d' \<and>
    store_bytes (cells v d) (Lba * mFdBlockSize m + Offset) (take n Buffer) = Some (cells v d') \<and>
    FvbProtocolRead_flash dev m d' Lba Offset n = (EFI_SUCCESS, take n Buffer, d')"
proof -
  let ?a = "Lba * mFdBlockSize m + Offset"
  define d1 where "d1 = program_loop dev d (mFlashBase m + ?a) (take n Buffer)"
  have len: "length (take n Buffer) = n" using n(2) by simp
  have e: "\<forall>i < n. cells v d ! (?a + i) = ERASED_UINT8"
  proof (intro allI impI)
    fix i assume "i < n"
    moreover have "take n (drop ?a (cells v d)) = replicate n ERASED_UINT8" using erased n(3) by (simp add: load_bytes_def)
    then have "take n (drop ?a (cells v d)) ! i = replicate n ERASED_UINT8 ! i" by simp
    ultimately show "cells v d ! (?a + i) = ERASED_UINT8" using n(3) by simp
  qed
  have d1: "accepts v d1" "store_bytes (cells v d) ?a (take n Buffer) = Some (cells v d1)"
    using program_loop_cells [OF law acc, of ?a "take n Buffer"] n(3) e len by (simp_all add: d1_def)
  have l1: "length (cells v d1) = length (cells v d)" using store_bytes_length [OF d1(2)] .
  let ?d = "fl_write dev d1 (mFlashBase m + (?a + n - 1)) READ_ARRAY_CMD"
  have d2: "array_mode v ?d" "cells v ?d = cells v d1" using flash_lawD(4) [OF law d1(1), of "?a + n - 1"] n l1 by auto
  have "FvbProtocolWrite_flash dev m d Lba Offset n Buffer = Some (EFI_SUCCESS, ?d)"
    using b n(1,2) flash_ptr [OF geom b, of Offset] unfolding FvbProtocolWrite_flash_def QemuFlashWrite_def
    by (simp add: load_bytes_def Let_def d1_def add.assoc)
  moreover have "read_span dev ?d (mFlashBase m + ?a) n = (take n (drop ?a (cells v ?d)), ?d)"
    using read_span_cells [OF law d2(1), of ?a n] n(3) l1 d2(2) by simp
  moreover have "take n (drop ?a (cells v ?d)) = take n Buffer"
    using load_store_same [OF d1(2)] d2(2) len by (simp add: load_bytes_def split: if_splits)
  moreover have "FvbProtocolRead_flash dev m ?d Lba Offset n = (EFI_SUCCESS, read_span dev ?d (mFlashBase m + ?a) n)"
    using b flash_ptr [OF geom b] by (simp add: FvbProtocolRead_flash_def QemuFlashRead_def)
  ultimately show ?thesis using d1(2) d2 by auto
qed


section \<open>A machine with these commands\<close>

datatype cfi_mode = ReadArray | ReadStatus | Program | Erase

type_synonym cfi = "cfi_mode \<times> byte \<times> byte list"

definition cfi_read :: "nat \<Rightarrow> cfi \<Rightarrow> nat \<Rightarrow> byte \<times> cfi" where
  "cfi_read base d a = (case d of (mode, status, c) \<Rightarrow> (if mode = ReadArray then c ! (a - base) else status, d))"

definition cfi_command :: "byte \<Rightarrow> byte \<Rightarrow> byte list \<Rightarrow> cfi" where
  "cfi_command x status c =
     (if x = WRITE_BYTE_CMD then (Program, status, c)
      else if x = BLOCK_ERASE_CMD then (Erase, status, c)
      else if x = READ_STATUS_CMD then (ReadStatus, status, c)
      else if x = CLEAR_STATUS_CMD then (ReadArray, 0, c)
      else (ReadArray, status, c))"

definition cfi_write :: "nat \<Rightarrow> nat \<Rightarrow> cfi \<Rightarrow> nat \<Rightarrow> byte \<Rightarrow> cfi" where
  "cfi_write base bs d a x = (case d of (mode, status, c) \<Rightarrow>
     (case mode of
        Program \<Rightarrow> (ReadStatus, 0x80, c[a - base := c ! (a - base) AND x])
      | Erase \<Rightarrow> if x = BLOCK_ERASE_CONFIRM_CMD
          then (ReadStatus, 0x80, (case set_mem c (a - base) bs ERASED_UINT8 of Some c' \<Rightarrow> c' | None \<Rightarrow> c))
          else (ReadArray, status, c)
      | _ \<Rightarrow> cfi_command x status c))"

definition cfi_dev :: "nat \<Rightarrow> nat \<Rightarrow> cfi flash_dev" where
  "cfi_dev base bs = \<lparr>fl_read = cfi_read base, fl_write = cfi_write base bs\<rparr>"

definition cfi_view :: "cfi flash_view" where
  "cfi_view = \<lparr>cells = (\<lambda>(mode, st, c). c), array_mode = (\<lambda>(mode, st, c). mode = ReadArray),
     accepts = (\<lambda>(mode, st, c). mode = ReadArray \<or> mode = ReadStatus)\<rparr>"

lemmas flash_commands = WRITE_BYTE_CMD_def BLOCK_ERASE_CMD_def CLEAR_STATUS_CMD_def READ_STATUS_CMD_def
  BLOCK_ERASE_CONFIRM_CMD_def READ_ARRAY_CMD_def CLEARED_ARRAY_STATUS_def

lemma and_all_ones [simp]: "(255 :: byte) AND x = x"
proof -
  have "(255 :: byte) = - 1" by simp
  then show ?thesis by (simp only: and.left_neutral)
qed

lemma cfi_law: "flash_law (cfi_dev base bs) base bs cfi_view"
  by (auto simp: flash_law_def cfi_dev_def cfi_view_def cfi_read_def cfi_write_def cfi_command_def flash_commands ERASED_UINT8_def
      Let_def set_mem_def store_bytes_def split: cfi_mode.splits)


section \<open>Erasing\<close>

lemma erase_block_cells:
  assumes law: "flash_law dev (mFlashBase m) (mFdBlockSize m) v" and geom: "flash_geom m v d" and "accepts v d"
    and b: "b < mFdBlockCount m"
  shows "\<exists>d'. QemuFlashEraseBlock dev m d b = (EFI_SUCCESS, d') \<and> accepts v d' \<and> flash_geom m v d' \<and>
    set_mem (cells v d) (b * mFdBlockSize m) (mFdBlockSize m) ERASED_UINT8 = Some (cells v d')"
proof -
  have "b * mFdBlockSize m + mFdBlockSize m \<le> length (cells v d)"
    using block_end [OF b order_refl, of "mFdBlockSize m"] geom by (simp add: flash_geom_def)
  from flash_lawD(5) [OF law assms(3) this] flash_ptr [OF geom b, of 0] b show ?thesis
    using geom by (auto simp: QemuFlashEraseBlock_def Let_def flash_geom_def set_mem_def dest: store_bytes_length)
qed

text \<open>Erasing block after block erases the whole range.\<close>

lemma set_mem_append:
  "set_mem c a n x = Some c1 \<Longrightarrow> set_mem c1 (a + n) k x = Some c2 \<Longrightarrow> set_mem c a (n + k) x = Some c2"
  by (auto simp: set_mem_def store_bytes_def replicate_add split: if_splits) (simp add: add.commute add.left_commute)

lemma set_mem_0: "a \<le> length c \<Longrightarrow> set_mem c a 0 x = Some c"
  by (simp add: set_mem_def store_bytes_def)

lemma erase_blocks_cells:
  assumes "flash_law dev (mFlashBase m) (mFdBlockSize m) v" and "flash_geom m v d" and "accepts v d"
    and "b + k \<le> mFdBlockCount m" and "b + k < 2 ^ 64"
  shows "\<exists>d'. erase_blocks dev m d b k = (EFI_SUCCESS, d') \<and> accepts v d' \<and> flash_geom m v d' \<and>
    set_mem (cells v d) (b * mFdBlockSize m) (k * mFdBlockSize m) ERASED_UINT8 = Some (cells v d')"
  using assms(2-)
proof (induction k arbitrary: d b)
  case 0
  then have "b * mFdBlockSize m \<le> length (cells v d)" by (simp add: flash_geom_def)
  with 0 show ?case by (simp add: set_mem_0)
next
  case (Suc k)
  then obtain d1 where d1: "QemuFlashEraseBlock dev m d b = (EFI_SUCCESS, d1)" "accepts v d1" "flash_geom m v d1"
    "set_mem (cells v d) (b * mFdBlockSize m) (mFdBlockSize m) ERASED_UINT8 = Some (cells v d1)"
    using erase_block_cells [OF assms(1) Suc.prems(1,2), of b] by auto
  have "(b + 1) mod 2 ^ 64 = Suc b" using Suc.prems(4) by simp
  moreover obtain d2 where "erase_blocks dev m d1 (Suc b) k = (EFI_SUCCESS, d2)" "accepts v d2" "flash_geom m v d2"
    "set_mem (cells v d1) (Suc b * mFdBlockSize m) (k * mFdBlockSize m) ERASED_UINT8 = Some (cells v d2)"
    using Suc.IH [OF d1(3,2), of "Suc b"] Suc.prems(3,4) by auto
  moreover have "set_mem (cells v d) (b * mFdBlockSize m) (Suc k * mFdBlockSize m) ERASED_UINT8 = Some (cells v d2)"
    using set_mem_append [OF d1(4), of "k * mFdBlockSize m"] calculation(5) by (simp add: add.commute)
  ultimately show ?case using d1 by simp
qed

text \<open>The words of an argument list of ranges.\<close>

definition range_args :: "(nat \<times> nat) list \<Rightarrow> nat list" where
  "range_args rs = concat (map (\<lambda>(lba, num). [lba, num]) rs) @ [EFI_LBA_LIST_TERMINATOR]"

fun erased_ranges :: "nat \<Rightarrow> byte list \<Rightarrow> (nat \<times> nat) list \<Rightarrow> byte list option" where
  "erased_ranges bs c [] = Some c"
| "erased_ranges bs c ((b, k) # rs) = Option.bind (set_mem c (b * bs) (k * bs) ERASED_UINT8) (\<lambda>c'. erased_ranges bs c' rs)"

lemma range_args_Cons [simp]: "range_args ((b, k) # rs) = b # k # range_args rs"
  by (simp add: range_args_def)

lemma erase_check_flash_args:
  assumes "\<forall>(b, k) \<in> set rs. b + k < 2 ^ 64 - 1"
  shows "erase_check_flash n (range_args rs) =
    Some (if \<forall>(b, k) \<in> set rs. 0 < k \<and> b + k \<le> n then EFI_SUCCESS else EFI_INVALID_PARAMETER)"
  using assms
proof (induction rs)
  case Nil
  then show ?case by (simp add: range_args_def)
next
  case (Cons r rs)
  obtain b k where r: "r = (b, k)" by fastforce
  have bk: "b + k < 2 ^ 64 - 1" using Cons.prems r by simp
  then have "b \<noteq> EFI_LBA_LIST_TERMINATOR" "(b + k) mod 2 ^ 64 = b + k" by (simp_all add: EFI_LBA_LIST_TERMINATOR_def)
  with Cons r show ?case by (auto simp: not_le)
qed

lemma erase_ranges_flash_cells:
  assumes "flash_law dev (mFlashBase m) (mFdBlockSize m) v" and "flash_geom m v d" and "accepts v d"
    and "\<forall>(b, k) \<in> set rs. b + k \<le> mFdBlockCount m \<and> b + k < 2 ^ 64 - 1"
  shows "\<exists>d'. erase_ranges_flash dev m d (range_args rs) = Some (EFI_SUCCESS, d') \<and> accepts v d' \<and> flash_geom m v d' \<and>
    erased_ranges (mFdBlockSize m) (cells v d) rs = Some (cells v d')"
  using assms(2-)
proof (induction rs arbitrary: d)
  case Nil
  then show ?case by (simp add: range_args_def)
next
  case (Cons r rs)
  obtain b k where r: "r = (b, k)" by fastforce
  have bk: "b + k \<le> mFdBlockCount m" "b + k < 2 ^ 64 - 1" using Cons.prems(3) r by simp_all
  then have "b + k < 2 ^ 64" by linarith
  then obtain d1 where d1: "erase_blocks dev m d b k = (EFI_SUCCESS, d1)" "accepts v d1" "flash_geom m v d1"
    "set_mem (cells v d) (b * mFdBlockSize m) (k * mFdBlockSize m) ERASED_UINT8 = Some (cells v d1)"
    using erase_blocks_cells [OF assms(1) Cons.prems(1,2) bk(1)] by blast
  have "b \<noteq> EFI_LBA_LIST_TERMINATOR" using bk by (simp add: EFI_LBA_LIST_TERMINATOR_def)
  with Cons.IH [OF d1(3,2)] Cons.prems(3) d1 r show ?case by simp
qed

text \<open>
  C32: An erase request of the flash store whose ranges do not wrap around is checked completely first: unless every
  range is non-empty and ends within the volume it is refused and nothing is sent to the device; else
  exactly the blocks named are erased.
\<close>

theorem flash_erase_all_or_nothing:
  assumes "flash_law dev (mFlashBase m) (mFdBlockSize m) v" and "flash_geom m v d" and "accepts v d"
    and "Instance < length Global" and "NumOfBlocks (Global ! Instance) \<le> mFdBlockCount m"
    and "\<forall>(b, k) \<in> set rs. b + k < 2 ^ 64 - 1"
  shows "if \<forall>(b, k) \<in> set rs. 0 < k \<and> b + k \<le> NumOfBlocks (Global ! Instance)
    then \<exists>d'. FvbProtocolEraseBlocks_flash dev m Instance Global d (range_args rs) = Some (EFI_SUCCESS, d') \<and>
      accepts v d' \<and> erased_ranges (mFdBlockSize m) (cells v d) rs = Some (cells v d')
    else FvbProtocolEraseBlocks_flash dev m Instance Global d (range_args rs) = Some (EFI_INVALID_PARAMETER, d)"
proof (cases "\<forall>(b, k) \<in> set rs. 0 < k \<and> b + k \<le> NumOfBlocks (Global ! Instance)")
  case True
  then have "\<forall>(b, k) \<in> set rs. b + k \<le> mFdBlockCount m \<and> b + k < 2 ^ 64 - 1" using assms(5,6) by fastforce
  from erase_ranges_flash_cells [OF assms(1-3) this] True show ?thesis using assms(4) erase_check_flash_args [OF assms(6)]
    by (auto simp: FvbProtocolEraseBlocks_flash_def GetFvbInstance_def)
next
  case False
  then have "erase_check_flash (NumOfBlocks (Global ! Instance)) (range_args rs) = Some EFI_INVALID_PARAMETER"
    using erase_check_flash_args [OF assms(6), of "NumOfBlocks (Global ! Instance)"] by (simp only: if_False)
  then show ?thesis unfolding if_not_P [OF False] using assms(4) by (simp add: FvbProtocolEraseBlocks_flash_def GetFvbInstance_def)
qed

lemma replicate_numeral: "replicate (numeral k) x = x # replicate (pred_numeral k) x"
  by (simp only: numeral_eq_Suc replicate_Suc)

definition demo_flash :: flash_mod where
  "demo_flash = \<lparr>mFlashBase = 100, mFdBlockSize = 4, mFdBlockCount = 2\<rparr>"

definition demo_cells :: cfi where
  "demo_cells = (ReadArray, 0, [1, 2, 3, 4, 5, 6, 7, 8])"

lemma demo_flash_ok:
  "flash_law (cfi_dev 100 4) (mFlashBase demo_flash) (mFdBlockSize demo_flash) cfi_view"
  "flash_geom demo_flash cfi_view demo_cells" "accepts cfi_view demo_cells" "array_mode cfi_view demo_cells"
  "cells cfi_view demo_cells = [1, 2, 3, 4, 5, 6, 7, 8]"
proof -
  show "flash_law (cfi_dev 100 4) (mFlashBase demo_flash) (mFdBlockSize demo_flash) cfi_view" by (simp add: demo_flash_def cfi_law)
qed (simp_all add: demo_flash_def demo_cells_def flash_geom_def cfi_view_def)

theorem flash_erase_all_or_nothing_witness:
  "\<exists>d'. FvbProtocolEraseBlocks_flash (cfi_dev 100 4) demo_flash 0 [\<lparr>FvBase = 100, NumOfBlocks = 2, VolumeHeader = []\<rparr>]
      demo_cells (range_args [(1, 1)]) = Some (EFI_SUCCESS, d') \<and> cells cfi_view d' = [1, 2, 3, 4, 0xFF, 0xFF, 0xFF, 0xFF]"
  using flash_erase_all_or_nothing [OF demo_flash_ok(1-3), of 0 "[\<lparr>FvBase = 100, NumOfBlocks = 2, VolumeHeader = []\<rparr>]" "[(1, 1)]"]
  by (auto simp: demo_flash_ok demo_flash_def set_mem_def store_bytes_def ERASED_UINT8_def replicate_numeral)

text \<open>A range that wraps around passes the check, and what precedes it is erased before the device refuses it.\<close>

lemma erase_blocks_numeral [simp]:
  "erase_blocks dev m d b (numeral k) = (case QemuFlashEraseBlock dev m d b of
     (EFI_SUCCESS, d1) \<Rightarrow> erase_blocks dev m d1 ((b + 1) mod 2 ^ 64) (pred_numeral k) | (st, d1) \<Rightarrow> (st, d1))"
  by (simp only: numeral_eq_Suc erase_blocks.simps)

lemma flash_erase_wraps:
  "\<exists>d'. FvbProtocolEraseBlocks_flash (cfi_dev 100 4) demo_flash 0 [\<lparr>FvBase = 100, NumOfBlocks = 2, VolumeHeader = []\<rparr>]
      demo_cells (range_args [(1, 1), (2 ^ 64 - 2, 3)]) = Some (EFI_INVALID_PARAMETER, d') \<and> cells cfi_view d' \<noteq> cells cfi_view demo_cells"
  by (simp add: FvbProtocolEraseBlocks_flash_def GetFvbInstance_def range_args_def EFI_LBA_LIST_TERMINATOR_def demo_flash_def
      demo_cells_def QemuFlashEraseBlock_def QemuFlashPtr_def cfi_dev_def cfi_write_def cfi_command_def flash_commands cfi_view_def
      set_mem_def store_bytes_def ERASED_UINT8_def replicate_numeral)

text \<open>After an erase the device is not back in array mode: a read delivers its status.\<close>

lemma flash_read_after_erase:
  "FvbProtocolRead_flash (cfi_dev 100 4) demo_flash
     (snd (QemuFlashEraseBlock (cfi_dev 100 4) demo_flash demo_cells 1)) 0 0 1 =
   (EFI_SUCCESS, [0x80], snd (QemuFlashEraseBlock (cfi_dev 100 4) demo_flash demo_cells 1))"
  by (simp add: FvbProtocolRead_flash_def QemuFlashRead_def demo_flash_def demo_cells_def QemuFlashEraseBlock_def QemuFlashPtr_def
      cfi_dev_def cfi_write_def cfi_read_def cfi_command_def flash_commands set_mem_def store_bytes_def)

section \<open>Attributes\<close>

text \<open>The status bits agree with the capabilities; the protocol defines status and fixed bits apart.\<close>

definition attributes_ok :: "fvb2_bits \<Rightarrow> u32 \<Rightarrow> bool" where
  "attributes_ok B a \<longleftrightarrow>
     (if a AND READ_STATUS B = 0 then a AND READ_DISABLED_CAP B \<noteq> 0 else a AND READ_ENABLED_CAP B \<noteq> 0) \<and>
     (if a AND WRITE_STATUS B = 0 then a AND WRITE_DISABLED_CAP B \<noteq> 0 else a AND WRITE_ENABLED_CAP B \<noteq> 0) \<and>
     (a AND LOCK_STATUS B \<noteq> 0 \<longrightarrow> a AND LOCK_CAP B \<noteq> 0)"

definition bits_apart :: "fvb2_bits \<Rightarrow> bool" where
  "bits_apart B \<longleftrightarrow> UnchangedAttributes B AND EFI_FVB2_STATUS B = 0"

lemma u32_eq_bits: "(x :: u32) = y \<longleftrightarrow> (\<forall>n < 32. bit x n = bit y n)"
  using bit_word_eqI [of x y] by auto

lemma xor_zero: "(x :: u32) XOR y = 0 \<longleftrightarrow> x = y"
  by (metis bit.xor_self xor.assoc xor.left_neutral xor.right_neutral)

lemma status_replaced:
  fixes old req :: u32
  assumes "bits_apart B"
  defines "new \<equiv> (old AND (0xFFFFFFFF AND NOT (EFI_FVB2_STATUS B))) OR (req AND EFI_FVB2_STATUS B)"
  shows "new AND EFI_FVB2_STATUS B = req AND EFI_FVB2_STATUS B"
    and "new AND UnchangedAttributes B = old AND UnchangedAttributes B"
    and "old AND EFI_FVB2_STATUS B = req AND EFI_FVB2_STATUS B \<Longrightarrow> new = old"
    and "c AND UnchangedAttributes B = c \<Longrightarrow> new AND c = old AND c"
    and "c AND EFI_FVB2_STATUS B = c \<Longrightarrow> new AND c = (req AND EFI_FVB2_STATUS B) AND c"
proof -
  have m: "(0xFFFFFFFF :: u32) AND x = x" for x
  proof -
    have "(0xFFFFFFFF :: u32) = - 1" by simp
    then show ?thesis by (simp only: and.left_neutral)
  qed
  have a: "\<not> (bit (UnchangedAttributes B) n \<and> bit (EFI_FVB2_STATUS B) n)" if "n < 32" for n
    using assms(1) that by (simp add: bits_apart_def u32_eq_bits bit_simps)
  show "new AND EFI_FVB2_STATUS B = req AND EFI_FVB2_STATUS B"
    unfolding new_def m u32_eq_bits by (auto simp: bit_simps)
  show "new AND UnchangedAttributes B = old AND UnchangedAttributes B"
    unfolding new_def m u32_eq_bits using a by (auto simp: bit_simps)
  show "new = old" if "old AND EFI_FVB2_STATUS B = req AND EFI_FVB2_STATUS B"
    using that unfolding new_def m u32_eq_bits by (auto simp: bit_simps)
  show "new AND c = old AND c" if "c AND UnchangedAttributes B = c"
    using that a unfolding new_def m u32_eq_bits by (simp add: bit_simps) blast
  show "new AND c = (req AND EFI_FVB2_STATUS B) AND c" if "c AND EFI_FVB2_STATUS B = c"
    using that unfolding new_def m u32_eq_bits by (simp add: bit_simps) blast
qed

lemma cap_bits:
  "READ_DISABLED_CAP B AND UnchangedAttributes B = READ_DISABLED_CAP B" "READ_ENABLED_CAP B AND UnchangedAttributes B = READ_ENABLED_CAP B"
  "WRITE_DISABLED_CAP B AND UnchangedAttributes B = WRITE_DISABLED_CAP B" "WRITE_ENABLED_CAP B AND UnchangedAttributes B = WRITE_ENABLED_CAP B"
  "LOCK_CAP B AND UnchangedAttributes B = LOCK_CAP B"
  "READ_STATUS B AND EFI_FVB2_STATUS B = READ_STATUS B" "WRITE_STATUS B AND EFI_FVB2_STATUS B = WRITE_STATUS B"
  "LOCK_STATUS B AND EFI_FVB2_STATUS B = LOCK_STATUS B"
  by (auto simp: UnchangedAttributes_def EFI_FVB2_STATUS_def u32_eq_bits bit_simps)

lemma set_attributes_success:
  assumes B: "bits_apart B" and st: "set_attributes B old req = (EFI_SUCCESS, new)"
  shows "attributes_ok B new \<and> new AND UnchangedAttributes B = old AND UnchangedAttributes B \<and>
    new AND EFI_FVB2_STATUS B = req AND EFI_FVB2_STATUS B \<and> (old AND LOCK_STATUS B \<noteq> 0 \<longrightarrow> new = old)"
proof -
  have new: "new = (old AND (0xFFFFFFFF AND NOT (EFI_FVB2_STATUS B))) OR (req AND EFI_FVB2_STATUS B)"
    using st by (simp add: set_attributes_def Let_def split: if_splits)
  note r = status_replaced [OF B, where old = old and req = req, folded new]
  have cap: "(old AND (READ_DISABLED_CAP B OR READ_ENABLED_CAP B OR WRITE_DISABLED_CAP B OR WRITE_ENABLED_CAP B OR LOCK_CAP B)) AND c = old AND c"
    if "c \<in> {READ_DISABLED_CAP B, READ_ENABLED_CAP B, WRITE_DISABLED_CAP B, WRITE_ENABLED_CAP B, LOCK_CAP B}" for c
    using that by (auto simp: u32_eq_bits bit_simps)
  have "attributes_ok B new"
    unfolding attributes_ok_def cap_bits(1-5) [THEN r(4)] cap_bits(6-8) [THEN r(5)]
    using st by (auto simp: set_attributes_def Let_def cap split: if_splits)
  moreover have "new = old" if "old AND LOCK_STATUS B \<noteq> 0"
    using st that by (intro r(3)) (auto simp: set_attributes_def Let_def xor_zero split: if_splits)
  ultimately show ?thesis using r(1,2) by blast
qed

text \<open>
  C33: A request to change the attributes of the flash volume that succeeds gives exactly the status bits asked for and
  leaves all others as they were; each status agrees with a capability of the volume, a
  locked volume stays as it is, and the attributes read afterwards are the ones reported. A
  request that fails changes nothing.
\<close>

theorem flash_set_attributes:
  assumes "bits_apart B" and "FvbGetVolumeAttributes Instance Global = Some (EFI_SUCCESS, old)"
  shows "\<exists>st new Global'. FvbSetVolumeAttributes B Instance req Global = Some (st, new, Global') \<and>
    (if st = EFI_SUCCESS
     then FvbGetVolumeAttributes Instance Global' = Some (EFI_SUCCESS, new) \<and> attributes_ok B new \<and>
       new AND UnchangedAttributes B = old AND UnchangedAttributes B \<and>
       new AND EFI_FVB2_STATUS B = req AND EFI_FVB2_STATUS B \<and> (old AND LOCK_STATUS B \<noteq> 0 \<longrightarrow> new = old)
     else st \<in> {EFI_INVALID_PARAMETER, EFI_ACCESS_DENIED} \<and> Global' = Global)"
proof -
  let ?i = "Global ! Instance"
  have inst: "Instance < length Global" using assms(2)
    by (auto simp: FvbGetVolumeAttributes_def GetFvbInstance_def split: if_splits)
  then obtain n where n: "le_field (VolumeHeader ?i) fv_Attributes 4 = Some n" "old = of_nat n"
    using assms(2) by (auto simp: FvbGetVolumeAttributes_def GetFvbInstance_def)
  obtain st new where sa: "set_attributes B old req = (st, new)" by fastforce
  show ?thesis
  proof (cases "st = EFI_SUCCESS")
    case True
    have "fv_Attributes + 4 \<le> length (VolumeHeader ?i)" using n(1) by (auto simp: le_field_def load_bytes_def split: if_splits)
    then obtain h where h: "store_bytes (VolumeHeader ?i) fv_Attributes (le_bytes 4 (unat new)) = Some h"
      by (simp add: store_bytes_def)
    have "le_field h fv_Attributes 4 = Some (unat new mod 256 ^ 4)"
      using load_store_same [OF h] le_value_le_bytes [of 4 "unat new"] by (simp add: le_field_def)
    moreover have "unat new < 256 ^ 4" by (rule order_less_le_trans [OF unsigned_less]) simp
    then have "unat new mod 256 ^ 4 = unat new" by simp
    ultimately show ?thesis using set_attributes_success [OF assms(1), of old req new] sa True h n inst
      by (simp add: FvbSetVolumeAttributes_def FvbGetVolumeAttributes_def GetFvbInstance_def)
  next
    case False
    then have "st \<in> {EFI_INVALID_PARAMETER, EFI_ACCESS_DENIED}"
      using sa by (auto simp: set_attributes_def Let_def split: if_splits)
    then show ?thesis using sa n inst
      by (auto simp: FvbSetVolumeAttributes_def GetFvbInstance_def)
  qed
qed

definition demo_bits :: fvb2_bits where
  "demo_bits = \<lparr>READ_DISABLED_CAP = 0x1, READ_ENABLED_CAP = 0x2, READ_STATUS = 0x4, WRITE_DISABLED_CAP = 0x8, WRITE_ENABLED_CAP = 0x10,
     WRITE_STATUS = 0x20, LOCK_CAP = 0x40, LOCK_STATUS = 0x80, STICKY_WRITE = 0x200, MEMORY_MAPPED = 0x400, ERASE_POLARITY = 0x800,
     READ_LOCK_CAP = 0x1000, WRITE_LOCK_CAP = 0x4000, ALIGNMENT = 0x1F0000, ALIGNMENT_16 = 0x40000\<rparr>"

lemma demo_bits_apart: "bits_apart demo_bits"
  by (simp add: bits_apart_def UnchangedAttributes_def EFI_FVB2_STATUS_def demo_bits_def)

text \<open>Disabling reads of a volume with all capabilities.\<close>

theorem flash_set_attributes_witness:
  "\<exists>st new Global'. FvbSetVolumeAttributes demo_bits 0 0x7B [\<lparr>FvBase = 0, NumOfBlocks = 0, VolumeHeader = replicate 44 0 @ le_bytes 4 0x7F @ replicate 24 0\<rparr>] =
     Some (st, new, Global') \<and> (st = EFI_SUCCESS \<longrightarrow> FvbGetVolumeAttributes 0 Global' = Some (EFI_SUCCESS, new))"
proof -
  let ?G = "[\<lparr>FvBase = 0, NumOfBlocks = 0, VolumeHeader = replicate 44 0 @ le_bytes 4 0x7F @ replicate 24 0\<rparr>]"
  have "FvbGetVolumeAttributes 0 ?G = Some (EFI_SUCCESS, 0x7F)"
    by (simp add: FvbGetVolumeAttributes_def GetFvbInstance_def fv_Attributes_def le_field_def load_bytes_def le_value_le_bytes del: le_bytes.simps)
  from flash_set_attributes [OF demo_bits_apart this, of "0x7B"] show ?thesis by (metis (full_types))
qed

section \<open>The block map\<close>

definition map_blocks :: "(nat \<times> nat) list \<Rightarrow> nat list" where
  "map_blocks es = concat (map (\<lambda>(n, l). replicate n l) es)"

lemma map_blocks_Cons: "map_blocks ((n, l) # es) = replicate n l @ map_blocks es"
  by (simp add: map_blocks_def)

lemma lba_walk_blocks:
  assumes "\<forall>(n, l) \<in> set es. 0 < n \<and> 0 < l \<and> n * l < 2 ^ 32" and "S \<le> Lba"
  shows "if Lba - S < length (map_blocks es)
    then \<exists>k > 0. lba_walk base Lba S Off (es @ (0, l0) # rest) =
        Some (EFI_SUCCESS, Some (base + (Off + sum_list (take (Lba - S) (map_blocks es))), map_blocks es ! (Lba - S), k)) \<and>
      Lba - S + k \<le> length (map_blocks es) \<and> (\<forall>i < k. map_blocks es ! (Lba - S + i) = map_blocks es ! (Lba - S))
    else lba_walk base Lba S Off (es @ (0, l0) # rest) = Some (EFI_INVALID_PARAMETER, None)"
  using assms
proof (induction es arbitrary: S Off)
  case Nil
  then show ?case by (simp add: map_blocks_def)
next
  case (Cons e es)
  obtain n l where e: "e = (n, l)" by fastforce
  then have nl: "0 < n" "0 < l" "mul32 n l = n * l" using Cons.prems(1) by (auto simp: mul32_small)
  show ?case
  proof (cases "Lba < S + n")
    case True
    then have lt: "Lba - S < n" using Cons.prems(2) by linarith
    then have "Lba - S + (S + n - Lba) \<le> length (map_blocks (e # es))"
      "\<forall>i < S + n - Lba. map_blocks (e # es) ! (Lba - S + i) = map_blocks (e # es) ! (Lba - S)"
      using Cons.prems(2) by (auto simp: e map_blocks_Cons nth_append)
    moreover have "map_blocks (e # es) ! (Lba - S) = l" "sum_list (take (Lba - S) (map_blocks (e # es))) = (Lba - S) * l"
      using lt by (simp_all add: e map_blocks_Cons nth_append sum_list_replicate min_def)
    ultimately show ?thesis using True nl Cons.prems(2)
      by (auto simp: e Let_def intro!: exI [of _ "S + n - Lba"])
  next
    case False
    define j where "j = Lba - (S + n)"
    have j: "Lba - S = n + j" using False Cons.prems(2) by (simp add: j_def)
    have "lba_walk base Lba S Off ((e # es) @ (0, l0) # rest) = lba_walk base Lba (S + n) (Off + n * l) (es @ (0, l0) # rest)"
      using False nl by (simp add: e Let_def)
    then show ?thesis using Cons.IH [of "S + n" "Off + n * l"] Cons.prems(1) False
      unfolding j j_def [symmetric] by (auto simp: e map_blocks_Cons nth_append sum_list_replicate add.assoc)
  qed
qed

text \<open>
  The address of a logical block is the base of the volume plus the lengths of the blocks before it, and its
  length and the number of equally long blocks from it on are those of the block map; past the last
  block the request is refused. Each entry of the map is below 4 GiB here.
\<close>

theorem flash_lba_address:
  assumes "Instance < length Global" and "block_map (drop fv_BlockMap (VolumeHeader (Global ! Instance))) = es @ (0, l0) # rest"
    and "\<forall>(n, l) \<in> set es. 0 < n \<and> 0 < l \<and> n * l < 2 ^ 32"
  shows "if Lba < length (map_blocks es)
    then \<exists>k > 0. FvbGetLbaAddress Instance Lba Global =
        Some (EFI_SUCCESS, Some (FvBase (Global ! Instance) + sum_list (take Lba (map_blocks es)), map_blocks es ! Lba, k)) \<and>
      Lba + k \<le> length (map_blocks es) \<and> (\<forall>i < k. map_blocks es ! (Lba + i) = map_blocks es ! Lba)
    else FvbGetLbaAddress Instance Lba Global = Some (EFI_INVALID_PARAMETER, None)"
  using lba_walk_blocks [OF assms(3), of 0 Lba "FvBase (Global ! Instance)" 0 l0 rest] assms(1,2)
  by (simp add: FvbGetLbaAddress_def GetFvbInstance_def split: if_splits)

lemma block_map_le_bytes:
  assumes "n < 2 ^ 32" and "l < 2 ^ 32"
  shows "block_map (le_bytes 4 n @ le_bytes 4 l @ bs) = (n, l) # block_map bs"
proof -
  have f: "length xs = 4 \<Longrightarrow> \<exists>a b c d. xs = [a, b, c, d]" for xs :: "byte list" by (auto simp: eval_nat_numeral length_Suc_conv)
  obtain a b c d e g h i where x: "le_bytes 4 n = [a, b, c, d]" "le_bytes 4 l = [e, g, h, i]" using f [of "le_bytes 4 n"] f [of "le_bytes 4 l"] length_le_bytes by metis
  have "le_value [a, b, c, d] = n" "le_value [e, g, h, i] = l"
    using assms le_value_le_bytes [of 4 n] le_value_le_bytes [of 4 l] unfolding x by simp_all
  then show ?thesis unfolding x by simp
qed

theorem flash_lba_address_witness:
  "\<exists>k. FvbGetLbaAddress 0 3 [\<lparr>FvBase = 1000, NumOfBlocks = 4, VolumeHeader = replicate 56 0 @
      le_bytes 4 2 @ le_bytes 4 64 @ le_bytes 4 2 @ le_bytes 4 16 @ le_bytes 4 0 @ le_bytes 4 0\<rparr>] = Some (EFI_SUCCESS, Some (1144, 16, k))"
proof -
  let ?G = "[\<lparr>FvBase = 1000, NumOfBlocks = 4, VolumeHeader = replicate 56 0 @
      le_bytes 4 2 @ le_bytes 4 64 @ le_bytes 4 2 @ le_bytes 4 16 @ le_bytes 4 0 @ le_bytes 4 0\<rparr>]"
  have "block_map (drop fv_BlockMap (VolumeHeader (?G ! 0))) = [(2, 64), (2, 16)] @ (0, 0) # []"
    using block_map_le_bytes [of 0 0 "[]"] by (simp add: fv_BlockMap_def block_map_le_bytes del: le_bytes.simps)
  from flash_lba_address [OF _ this, of 3] show ?thesis
    by (simp add: map_blocks_def replicate_numeral numeral_3_eq_3 del: le_bytes.simps) blast
qed

end
