(* ===== verification/FlashFvbInit.thy ===== *)
theory FlashFvbInit
  imports FlashFvbProps
begin

text \<open>
  Start-up of the flash variable store: detection of the device, and the volume header, which
  is validated or written anew.
\<close>

section \<open>Validation over the cells\<close>

definition header_valid :: "fv_lib \<Rightarrow> byte list \<Rightarrow> nat \<Rightarrow> bool" where
  "header_valid lib c off \<longleftrightarrow>
     le_field c (off + fv_Revision) 1 = Some (FvhRevision lib) \<and> le_field c (off + fv_Signature) 4 = Some (FvhSignature lib) \<and>
     le_field c (off + fv_FvLength) 8 \<noteq> Some (2 ^ 64 - 1) \<and>
     (\<exists>hlen hdr. le_field c (off + fv_HeaderLength) 2 = Some hlen \<and> even hlen \<and> load_bytes c off hlen = Some hdr \<and>
       CalculateSum16 lib hdr = 0)"

lemma le_field_part:
  assumes "off + n \<le> length c" and "x + k \<le> n"
  shows "le_field (take n (drop off c)) x k = le_field c (off + x) k"
proof -
  have "take k (drop x (take n (drop off c))) = take k (drop (off + x) c)"
    using assms by (simp add: drop_take add.commute)
  then show ?thesis using assms by (simp add: le_field_def load_bytes_def)
qed

lemma validate_cells:
  assumes law: "flash_law dev base bs v" and arr: "array_mode v d" and off: "off + 2 ^ 16 \<le> length (cells v d)"
  shows "ValidateFvHeader_flash dev lib d (base + off) = (if header_valid lib (cells v d) off then EFI_SUCCESS else EFI_NOT_FOUND, d)"
proof -
  let ?c = "cells v d"
  define fixed where "fixed = take fv_BlockMap (drop off ?c)"
  have r: "read_span dev d (base + off) n = (take n (drop off ?c), d)" if "n \<le> 2 ^ 16" for n
    using read_span_cells [OF law arr, of off n] that off by simp
  have f: "le_field fixed x k = le_field ?c (off + x) k" if "x + k \<le> fv_BlockMap" for x k
    unfolding fixed_def using that off by (intro le_field_part) (simp_all add: fv_BlockMap_def)
  let ?h = "le_value (take 2 (drop fv_HeaderLength fixed))"
  have h: "le_field ?c (off + fv_HeaderLength) 2 = Some ?h"
  proof -
    have "le_field fixed fv_HeaderLength 2 = Some ?h"
      using off by (simp add: le_field_def load_bytes_def fv_HeaderLength_def fv_BlockMap_def fixed_def)
    then show ?thesis using f [of fv_HeaderLength 2] by (simp add: fv_HeaderLength_def fv_BlockMap_def)
  qed
  have "?h < 2 ^ 16"
    using le_value_bound [of "take 2 (drop fv_HeaderLength fixed)"] off
    by (simp add: fixed_def fv_HeaderLength_def fv_BlockMap_def)
  then have l: "load_bytes ?c off ?h = Some (take ?h (drop off ?c))" and rh: "read_span dev d (base + off) ?h = (take ?h (drop off ?c), d)"
    using off r [of ?h] by (simp_all add: load_bytes_def)
  have "read_span dev d (base + off) fv_BlockMap = (fixed, d)" using r [of fv_BlockMap] by (simp add: fixed_def fv_BlockMap_def)
  then show ?thesis unfolding ValidateFvHeader_flash_def header_valid_def h
    using f rh l by (simp add: Let_def fv_Revision_def fv_Signature_def fv_FvLength_def fv_BlockMap_def and_one_eq odd_iff_mod_2_eq_one)
qed

section \<open>The fresh header\<close>

definition flash_front :: "fv_lib \<Rightarrow> fvb2_bits \<Rightarrow> flash_pcd \<Rightarrow> byte list" where
  "flash_front lib B p = replicate 16 0 @ NvDataFvGuid lib @ le_bytes 8 (nv_length p) @ le_bytes 4 (FvhSignature lib) @
     le_bytes 4 (unat (MEMORY_MAPPED B OR READ_ENABLED_CAP B OR READ_STATUS B OR WRITE_ENABLED_CAP B OR WRITE_STATUS B OR
       ERASE_POLARITY B OR ALIGNMENT_16 B)) @ le_bytes 2 EMU_FV_HEADER_LENGTH"

definition flash_back :: "flash_pcd \<Rightarrow> byte list" where
  "flash_back p = le_bytes 2 0 @ [0] @ [2] @ le_bytes 4 (nv_length p div OvmfFirmwareBlockSize p) @
     le_bytes 4 (OvmfFirmwareBlockSize p) @ le_bytes 4 0 @ le_bytes 4 0"

definition flash_header :: "fv_lib \<Rightarrow> fvb2_bits \<Rightarrow> flash_pcd \<Rightarrow> byte list" where
  "flash_header lib B p = flash_front lib B p @
     le_bytes 2 (CalculateCheckSum16 lib (flash_front lib B p @ le_bytes 2 0 @ flash_back p)) @ flash_back p"

text \<open>The constants of the headers are in range; the revision is the one the table has.\<close>

definition flash_consts :: "fv_lib \<Rightarrow> flash_pcd \<Rightarrow> bool" where
  "flash_consts lib p \<longleftrightarrow> length (NvDataFvGuid lib) = 16 \<and> FvhSignature lib < 2 ^ 32 \<and> FvhRevision lib = 2 \<and>
     OvmfFirmwareBlockSize p < 2 ^ 32"

lemma nv_length_bound: "nv_length p < 2 ^ 32"
  by (simp add: nv_length_def del: power_numeral)

lemma flash_lengths:
  assumes "flash_consts lib p"
  shows "length (flash_front lib B p) = 50" "length (flash_back p) = 20" "length (flash_header lib B p) = 72"
  using assms by (simp_all add: flash_front_def flash_back_def flash_header_def flash_consts_def)

lemma get_fvb_info: "flash_consts lib p \<Longrightarrow> GetFvbInfo lib B p (nv_length p) = Some (EFI_SUCCESS, Some (flash_header lib B p))"
proof -
  assume c: "flash_consts lib p"
  have m: "mPlatformFvbMediaInfo lib B p = flash_front lib B p @ le_bytes 2 0 @ flash_back p"
    by (simp add: mPlatformFvbMediaInfo_def flash_front_def flash_back_def)
  show ?thesis using flash_lengths [OF c] by (simp add: GetFvbInfo_def m store_bytes_def fv_Checksum_def flash_header_def)
qed

lemma flash_header_valid:
  assumes lib: "checksum_lib lib" and c: "flash_consts lib p" and cells: "take 72 (drop off cs) = flash_header lib B p" "off + 72 \<le> length cs"
  shows "header_valid lib cs off \<and> le_field cs (off + fv_FvLength) 8 = Some (nv_length p) \<and>
    le_field cs (off + (fv_BlockMap + 4)) 4 = Some (OvmfFirmwareBlockSize p)"
proof -
  let ?h = "flash_header lib B p"
  have f: "le_field cs (off + x) k = le_field ?h x k" if "x + k \<le> 72" for x k
    using le_field_part [OF cells(2) that] cells(1) by simp
  have nv: "nv_length p < 2 ^ 64" "nv_length p < 2 ^ 32" using nv_length_bound [of p] by simp_all
  note defs = le_field_def load_bytes_def fv_Revision_def fv_Signature_def fv_FvLength_def fv_HeaderLength_def fv_BlockMap_def
    flash_header_def flash_front_def flash_back_def flash_consts_def le_value_le_bytes EMU_FV_HEADER_LENGTH_def
  have fields: "le_field ?h fv_Revision 1 = Some (FvhRevision lib)" "le_field ?h fv_Signature 4 = Some (FvhSignature lib)"
    "le_field ?h fv_FvLength 8 = Some (nv_length p)" "le_field ?h fv_HeaderLength 2 = Some 72"
    "le_field ?h (fv_BlockMap + 4) 4 = Some (OvmfFirmwareBlockSize p)"
    using c nv by (simp_all add: defs del: le_bytes.simps)
  have "load_bytes cs off 72 = Some ?h" using cells by (simp add: load_bytes_def)
  moreover have "CalculateSum16 lib ?h = 0"
    unfolding flash_header_def using flash_lengths [OF c] by (intro checksum_cancels [OF lib]) simp_all
  ultimately have "\<exists>hlen hdr. le_field cs (off + fv_HeaderLength) 2 = Some hlen \<and> even hlen \<and> load_bytes cs off hlen = Some hdr \<and>
      CalculateSum16 lib hdr = 0"
    using f [of fv_HeaderLength 2] fields(4) by (intro exI [of _ 72] exI [of _ ?h]) (simp add: fv_HeaderLength_def)
  moreover have "nv_length p \<noteq> 2 ^ 64 - 1" using nv(2) by simp
  ultimately show ?thesis unfolding header_valid_def
    using f [of fv_Revision 1] f [of fv_Signature 4] f [of fv_FvLength 8] f [of "fv_BlockMap + 4" 4] fields
    by (simp add: fv_Revision_def fv_Signature_def fv_FvLength_def fv_BlockMap_def)
qed

section \<open>Writing the volume\<close>

lemma set_mem_load: "set_mem c a n x = Some c1 \<Longrightarrow> k \<le> n \<Longrightarrow> load_bytes c1 a k = Some (replicate k x)"
  by (auto simp: set_mem_def store_bytes_def load_bytes_def min_def split: if_splits)

text \<open>The volume of the variables lies in the device, in whole blocks.\<close>

definition volume_placed :: "flash_mod \<Rightarrow> flash_pcd \<Rightarrow> nat \<Rightarrow> bool" where
  "volume_placed m p n \<longleftrightarrow> mFlashBase m = OvmfFdBaseAddress p \<and> mFdBlockSize m = OvmfFirmwareBlockSize p \<and>
     OvmfFdBaseAddress p \<le> FlashNvVariableBase p \<and>
     (FlashNvVariableBase p - OvmfFdBaseAddress p) mod OvmfFirmwareBlockSize p = 0 \<and> nv_length p mod OvmfFirmwareBlockSize p = 0 \<and>
     EMU_FV_HEADER_LENGTH \<le> OvmfFirmwareBlockSize p \<and> 2 ^ 16 \<le> nv_length p \<and>
     FlashNvVariableBase p - OvmfFdBaseAddress p + nv_length p \<le> n"

definition volume_good :: "fv_lib \<Rightarrow> flash_pcd \<Rightarrow> byte list \<Rightarrow> bool" where
  "volume_good lib p c \<longleftrightarrow> (let off = FlashNvVariableBase p - OvmfFdBaseAddress p in header_valid lib c off \<and>
     le_field c (off + fv_FvLength) 8 = Some (nv_length p) \<and> le_field c (off + (fv_BlockMap + 4)) 4 = Some (OvmfFirmwareBlockSize p))"

text \<open>Erasing the blocks of the volume and writing the header.\<close>

lemma erase_then_write:
  assumes law: "flash_law dev (mFlashBase m) (mFdBlockSize m) v" and geom: "flash_geom m v d" and acc: "accepts v d"
    and pl: "volume_placed m p (length (cells v d))" and c: "flash_consts lib p"
  defines "Start \<equiv> FlashNvVariableBase p - OvmfFdBaseAddress p" and "bs \<equiv> OvmfFirmwareBlockSize p"
  shows "\<exists>d1 d2. erase_blocks dev m d (Start div bs) (nv_length p div bs) = (EFI_SUCCESS, d1) \<and>
    QemuFlashWrite dev m d1 (Start div bs) 0 EMU_FV_HEADER_LENGTH (flash_header lib B p) = Some (EFI_SUCCESS, d2) \<and> array_mode v d2 \<and>
    set_mem (cells v d) Start (nv_length p) ERASED_UINT8 = Some (cells v d1) \<and>
    store_bytes (cells v d1) Start (flash_header lib B p) = Some (cells v d2)"
proof -
  have m: "mFdBlockSize m = bs" using pl by (simp add: volume_placed_def bs_def)
  have bs: "0 < bs" using geom m by (simp add: flash_geom_def)
  have mul: "Start div bs * bs = Start" "nv_length p div bs * bs = nv_length p"
    using pl by (auto simp: volume_placed_def Start_def bs_def)
  have fit0: "Start + nv_length p \<le> length (cells v d)" and big: "2 ^ 16 \<le> nv_length p"
    using pl by (simp_all only: volume_placed_def Start_def)
  have fit: "Start + nv_length p \<le> mFdBlockCount m * bs" using fit0 geom m by (simp add: flash_geom_def)
  have "(Start div bs + nv_length p div bs) * bs \<le> mFdBlockCount m * bs" using fit mul by (simp add: add_mult_distrib)
  then have le: "Start div bs + nv_length p div bs \<le> mFdBlockCount m" using bs by simp
  have "mFdBlockCount m * 1 \<le> mFdBlockCount m * bs" using bs by (intro mult_le_mono2) simp
  moreover have "mFdBlockCount m * bs < 2 ^ 64" using geom m by (simp add: flash_geom_def)
  ultimately have "mFdBlockCount m < 2 ^ 64" by linarith
  with le have "Start div bs + nv_length p div bs < 2 ^ 64" by linarith
  from erase_blocks_cells [OF law geom acc le this] obtain d1 where
    d1: "erase_blocks dev m d (Start div bs) (nv_length p div bs) = (EFI_SUCCESS, d1)" "accepts v d1" "flash_geom m v d1"
      "set_mem (cells v d) Start (nv_length p) ERASED_UINT8 = Some (cells v d1)" unfolding m mul by blast
  have l1: "length (cells v d1) = mFdBlockCount m * bs" using d1(3) m by (simp add: flash_geom_def)
  have "0 < nv_length p div bs" using mul(2) big by (cases "nv_length p div bs") auto
  with le have lt: "Start div bs < mFdBlockCount m" by linarith
  have e: "load_bytes (cells v d1) (Start div bs * mFdBlockSize m + 0) EMU_FV_HEADER_LENGTH = Some (replicate EMU_FV_HEADER_LENGTH ERASED_UINT8)"
    using set_mem_load [OF d1(4), of EMU_FV_HEADER_LENGTH] big by (simp add: m mul EMU_FV_HEADER_LENGTH_def)
  have "Start div bs * mFdBlockSize m + 0 + EMU_FV_HEADER_LENGTH \<le> length (cells v d1)"
    using fit big l1 by (simp add: m mul EMU_FV_HEADER_LENGTH_def)
  from flash_write_cells [OF law d1(3,2) lt _ _ this e, of "flash_header lib B p"] flash_lengths(3) [OF c, of B] d1(1,4)
  show ?thesis by (auto simp: FvbProtocolWrite_flash_def EMU_FV_HEADER_LENGTH_def m mul)
qed

text \<open>
  C11: After the header has been initialised the flash holds a volume that passes validation with the configured length
  and block size, and reads deliver it. A volume that is already in order is left alone; otherwise exactly its blocks
  are erased and its header is written.
\<close>

theorem flash_volume_initialised:
  assumes law: "flash_law dev (mFlashBase m) (mFdBlockSize m) v" and geom: "flash_geom m v d" and arr: "array_mode v d"
    and pl: "volume_placed m p (length (cells v d))" and lib: "checksum_lib lib" "flash_consts lib p"
  shows "\<exists>d'. InitializeVariableFvHeader dev m lib B p d = Some (EFI_SUCCESS, d') \<and> array_mode v d' \<and> volume_good lib p (cells v d') \<and>
    ValidateFvHeader_flash dev lib d' (FlashNvVariableBase p) = (EFI_SUCCESS, d') \<and>
    (if volume_good lib p (cells v d) then d' = d
     else \<exists>c. set_mem (cells v d) (FlashNvVariableBase p - OvmfFdBaseAddress p) (nv_length p) ERASED_UINT8 = Some c \<and>
       store_bytes c (FlashNvVariableBase p - OvmfFdBaseAddress p) (flash_header lib B p) = Some (cells v d'))"
proof -
  define Start where "Start = FlashNvVariableBase p - OvmfFdBaseAddress p"
  have "Start + nv_length p \<le> length (cells v d)" "2 ^ 16 \<le> nv_length p"
    using pl by (simp_all only: volume_placed_def Start_def)
  then have big: "Start + 2 ^ 16 \<le> length (cells v d)" by linarith
  have base: "FlashNvVariableBase p = mFlashBase m + Start" using pl by (simp add: volume_placed_def Start_def)
  have good: "volume_good lib p c \<longleftrightarrow> header_valid lib c Start \<and> le_field c (Start + fv_FvLength) 8 = Some (nv_length p) \<and>
      le_field c (Start + (fv_BlockMap + 4)) 4 = Some (OvmfFirmwareBlockSize p)" for c
    by (simp add: volume_good_def Start_def Let_def)
  have val: "ValidateFvHeader_flash dev lib d (FlashNvVariableBase p) =
      (if header_valid lib (cells v d) Start then EFI_SUCCESS else EFI_NOT_FOUND, d)"
    unfolding base by (rule validate_cells [OF law arr big])
  have rd: "read_span dev d (FlashNvVariableBase p) 64 = (take 64 (drop Start (cells v d)), d)"
    unfolding base using read_span_cells [OF law arr, of Start 64] big by simp
  have fld: "le_field (take 64 (drop Start (cells v d))) x k = le_field (cells v d) (Start + x) k" if "x + k \<le> 64" for x k
    using le_field_part [of Start 64 "cells v d"] that big by simp
  show ?thesis
  proof (cases "volume_good lib p (cells v d)")
    case True
    with val rd fld show ?thesis
      by (simp add: good InitializeVariableFvHeader_def Let_def arr fv_FvLength_def fv_BlockMap_def)
  next
    case False
    obtain d1 d2 where w: "erase_blocks dev m d (Start div OvmfFirmwareBlockSize p) (nv_length p div OvmfFirmwareBlockSize p) = (EFI_SUCCESS, d1)"
      "QemuFlashWrite dev m d1 (Start div OvmfFirmwareBlockSize p) 0 EMU_FV_HEADER_LENGTH (flash_header lib B p) = Some (EFI_SUCCESS, d2)"
      "array_mode v d2" "set_mem (cells v d) Start (nv_length p) ERASED_UINT8 = Some (cells v d1)"
      "store_bytes (cells v d1) Start (flash_header lib B p) = Some (cells v d2)"
      using erase_then_write [OF law geom flash_lawD(1) [OF law arr] pl lib(2), of B] unfolding Start_def by blast
    have l2: "length (cells v d2) = length (cells v d)"
      using store_bytes_length [OF w(5)] store_bytes_length [OF w(4) [unfolded set_mem_def]] by simp
    have "take 72 (drop Start (cells v d2)) = flash_header lib B p"
      using load_store_same [OF w(5)] flash_lengths(3) [OF lib(2), of B] by (simp add: load_bytes_def split: if_splits)
    then have g: "volume_good lib p (cells v d2)"
      using flash_header_valid [OF lib, of Start "cells v d2" B] l2 big by (simp add: good)
    then have "ValidateFvHeader_flash dev lib d2 (FlashNvVariableBase p) = (EFI_SUCCESS, d2)"
      unfolding base using validate_cells [OF law w(3), of Start] l2 big by (simp add: good)
    moreover have "InitializeVariableFvHeader dev m lib B p d = Some (EFI_SUCCESS, d2)"
      using val rd fld False w(1,2) pl get_fvb_info [OF lib(2), of B] unfolding InitializeVariableFvHeader_def good Start_def [symmetric]
      by (auto simp: Let_def volume_placed_def Start_def [symmetric] fv_FvLength_def fv_BlockMap_def not_less)
    ultimately show ?thesis using False w g unfolding Start_def by auto
  qed
qed

definition demo_flash_pcd :: flash_pcd where
  "demo_flash_pcd = \<lparr>OvmfFdBaseAddress = 4096, OvmfFirmwareBlockSize = 4096, OvmfFirmwareFdSize = 131072, SmmSmramRequire = False,
     FlashNvVariableBase = 8192, FlashNvVariableSize = 32768, FlashNvFtwWorkingSize = 4096, FlashNvFtwSpareSize = 28672, FlashNvEventLogSize = 0\<rparr>"

text \<open>An empty device gets a volume.\<close>

theorem flash_volume_initialised_witness:
  "\<exists>d'. InitializeVariableFvHeader (cfi_dev 4096 4096) \<lparr>mFlashBase = 4096, mFdBlockSize = 4096, mFdBlockCount = 32\<rparr> demo_lib demo_bits
      demo_flash_pcd (ReadArray, 0, replicate 131072 0) = Some (EFI_SUCCESS, d') \<and> volume_good demo_lib demo_flash_pcd (cells cfi_view d')"
proof -
  let ?m = "\<lparr>mFlashBase = 4096, mFdBlockSize = 4096, mFdBlockCount = 32\<rparr>" and ?d = "(ReadArray, 0 :: byte, replicate 131072 (0 :: byte))"
  have "flash_law (cfi_dev 4096 4096) (mFlashBase ?m) (mFdBlockSize ?m) cfi_view" by (simp add: cfi_law)
  moreover have "flash_geom ?m cfi_view ?d" "array_mode cfi_view ?d" by (simp_all add: flash_geom_def cfi_view_def)
  moreover have "volume_placed ?m demo_flash_pcd (length (cells cfi_view ?d))"
    by (simp add: volume_placed_def demo_flash_pcd_def nv_length_def add32_def EMU_FV_HEADER_LENGTH_def cfi_view_def)
  moreover have "flash_consts demo_lib demo_flash_pcd" by (simp add: flash_consts_def demo_lib_def demo_flash_pcd_def)
  ultimately show ?thesis using flash_volume_initialised [of "cfi_dev 4096 4096" ?m cfi_view ?d demo_flash_pcd demo_lib demo_bits]
    demo_lib_ok(1) by blast
qed

section \<open>Detection\<close>

text \<open>Devices that are not flash: memory keeps what is written, a ROM ignores it.\<close>

definition ram_dev :: "'d flash_dev \<Rightarrow> ('d \<Rightarrow> nat \<Rightarrow> byte) \<Rightarrow> bool" where
  "ram_dev dev mem \<longleftrightarrow> (\<forall>d a. fl_read dev d a = (mem d a, d)) \<and> (\<forall>d a x. mem (fl_write dev d a x) = (mem d)(a := x))"

definition rom_dev :: "'d flash_dev \<Rightarrow> ('d \<Rightarrow> nat \<Rightarrow> byte) \<Rightarrow> bool" where
  "rom_dev dev mem \<longleftrightarrow> (\<forall>d a. fl_read dev d a = (mem d a, d)) \<and> (\<forall>d a x. mem (fl_write dev d a x) = mem d)"

lemma probe_scan_plain:
  assumes "\<forall>d a. fl_read dev d a = (mem d a, d)" and "probe_scan dev d a n = (r, d')"
  shows "d' = d \<and> (\<forall>p. r = Some p \<longrightarrow> mem d p \<notin> {CLEAR_STATUS_CMD, READ_STATUS_CMD, CLEARED_ARRAY_STATUS})"
  using assms by (induction n arbitrary: a) (auto split: if_splits)

text \<open>
  Probing for the flash device does no harm: memory and a ROM in its place are reported as absent, and every byte
  is as before afterwards.
\<close>

theorem flash_probe_harmless:
  assumes "ram_dev dev mem \<or> rom_dev dev mem"
  shows "fst (QemuFlashDetected dev False m d) = False \<and> mem (snd (QemuFlashDetected dev False m d)) = mem d"
proof -
  have plain: "\<forall>d a. fl_read dev d a = (mem d a, d)" using assms by (auto simp: ram_dev_def rom_dev_def)
  obtain r d1 where s: "probe_scan dev d (QemuFlashPtr m 0 0) (mFdBlockSize m) = (r, d1)" by fastforce
  note p = probe_scan_plain [OF plain s]
  show ?thesis
  proof (cases r)
    case None
    with s p show ?thesis by (simp add: QemuFlashDetected_def)
  next
    case (Some a)
    with p have "mem d a \<noteq> CLEAR_STATUS_CMD" "mem d a \<noteq> READ_STATUS_CMD" by auto
    then have "fst (probe_at dev d a) = False \<and> mem (snd (probe_at dev d a)) = mem d"
      using assms by (auto simp: probe_at_def ram_dev_def rom_dev_def)
    with s p Some show ?thesis by (simp add: QemuFlashDetected_def)
  qed
qed

theorem flash_probe_harmless_witness:
  "fst (QemuFlashDetected \<lparr>fl_read = \<lambda>d a. (d a, d), fl_write = \<lambda>d a x. d(a := x)\<rparr> False demo_flash (\<lambda>a. 0x33)) = False"
  using flash_probe_harmless [of "\<lparr>fl_read = \<lambda>d a. (d a, d), fl_write = \<lambda>d a x. d(a := x)\<rparr>" "\<lambda>d. d" demo_flash "\<lambda>a. 0x33"]
  by (simp add: ram_dev_def)

text \<open>The machine with the command set is detected, and left in array mode with its cells.\<close>

lemma probe_scan_numeral:
  "probe_scan dev d a (numeral k) = (case fl_read dev d a of (x, d1) \<Rightarrow>
     if x \<noteq> CLEAR_STATUS_CMD \<and> x \<noteq> READ_STATUS_CMD \<and> x \<noteq> CLEARED_ARRAY_STATUS then (Some a, d1)
     else probe_scan dev d1 (a + 1) (pred_numeral k))"
  by (simp only: numeral_eq_Suc probe_scan.simps)

lemma cfi_detected:
  "QemuFlashDetected (cfi_dev 100 4) False demo_flash demo_cells = (True, demo_cells)"
  by (simp add: QemuFlashDetected_def demo_flash_def demo_cells_def QemuFlashPtr_def probe_scan_numeral cfi_dev_def cfi_read_def
      flash_commands probe_at_def cfi_write_def cfi_command_def)

end
