(* ===== verification/OrderedCollections.thy ===== *)
theory OrderedCollections
  imports EfiTypes
begin

text \<open>
  The ordered collection of the base library, a parameter of the components that use it: its
  functions, the contract they keep, and association lists that keep it.
\<close>

section \<open>Functions and contract\<close>

text \<open>
  The ordered collection of the base library. A collection holds pointers, each under the key
  that the comparison function it was made with looks at; an entry is identified by its key. An
  insertion returns the pointer of the entry, a new or a colliding one.
\<close>

record ('k, 'c) ordered_collection =
  OrderedCollectionInit :: "'c option"
  OrderedCollectionInsert :: "'c \<Rightarrow> 'k \<Rightarrow> nat \<Rightarrow> EFI_STATUS \<times> 'c \<times> nat"
  OrderedCollectionFind :: "'c \<Rightarrow> 'k \<Rightarrow> nat option"
  OrderedCollectionDelete :: "'c \<Rightarrow> 'k \<Rightarrow> 'c"
  OrderedCollectionMin :: "'c \<Rightarrow> ('k \<times> nat) option"
  OrderedCollectionNext :: "'c \<Rightarrow> 'k \<Rightarrow> ('k \<times> nat) option"

text \<open>A view of a collection as the list of its entries in the order of iteration.\<close>

record ('k, 'c) oc_view =
  oc_inv :: "'c \<Rightarrow> bool"
  oc_list :: "'c \<Rightarrow> ('k \<times> nat) list"

definition oc_keyed :: "('k, 'c) ordered_collection \<Rightarrow> ('k, 'c) oc_view \<Rightarrow> bool" where
  "oc_keyed ops v \<longleftrightarrow>
     (\<forall>c. OrderedCollectionInit ops = Some c \<longrightarrow> oc_inv v c \<and> oc_list v c = []) \<and>
     (\<forall>c. oc_inv v c \<longrightarrow> distinct (map fst (oc_list v c)) \<and>
        OrderedCollectionFind ops c = map_of (oc_list v c) \<and>
        OrderedCollectionMin ops c = (case oc_list v c of [] \<Rightarrow> None | e # _ \<Rightarrow> Some e) \<and>
        (\<forall>k. oc_inv v (OrderedCollectionDelete ops c k) \<and>
           oc_list v (OrderedCollectionDelete ops c k) = filter (\<lambda>e. fst e \<noteq> k) (oc_list v c)) \<and>
        (\<forall>xs k p ys. oc_list v c = xs @ (k, p) # ys \<longrightarrow>
           OrderedCollectionNext ops c k = (case ys of [] \<Rightarrow> None | e # _ \<Rightarrow> Some e)) \<and>
        (\<forall>k p. (\<exists>c'. OrderedCollectionInsert ops c k p = (EFI_SUCCESS, c', p) \<and> oc_inv v c' \<and>
              k \<notin> fst ` set (oc_list v c) \<and> set (oc_list v c') = insert (k, p) (set (oc_list v c))) \<or>
           (\<exists>q. OrderedCollectionInsert ops c k p = (EFI_ALREADY_STARTED, c, q) \<and> (k, q) \<in> set (oc_list v c)) \<or>
           (\<exists>q. OrderedCollectionInsert ops c k p = (EFI_OUT_OF_RESOURCES, c, q))))"

text \<open>With keys that the comparison function orders like the order of their type.\<close>

definition oc_law :: "('k :: linorder, 'c) ordered_collection \<Rightarrow> ('k, 'c) oc_view \<Rightarrow> bool" where
  "oc_law ops v \<longleftrightarrow> oc_keyed ops v \<and> (\<forall>c. oc_inv v c \<longrightarrow> sorted_wrt (<) (map fst (oc_list v c)))"

lemma oc_keyedD:
  assumes "oc_keyed ops v"
  shows "OrderedCollectionInit ops = Some c \<Longrightarrow> oc_inv v c \<and> oc_list v c = []"
    and "oc_inv v c \<Longrightarrow> distinct (map fst (oc_list v c))"
    and "oc_inv v c \<Longrightarrow> OrderedCollectionFind ops c = map_of (oc_list v c)"
    and "oc_inv v c \<Longrightarrow> OrderedCollectionMin ops c = (case oc_list v c of [] \<Rightarrow> None | e # _ \<Rightarrow> Some e)"
    and "oc_inv v c \<Longrightarrow> oc_inv v (OrderedCollectionDelete ops c k) \<and>
      oc_list v (OrderedCollectionDelete ops c k) = filter (\<lambda>e. fst e \<noteq> k) (oc_list v c)"
    and "oc_inv v c \<Longrightarrow> oc_list v c = xs @ (k, p) # ys \<Longrightarrow>
      OrderedCollectionNext ops c k = (case ys of [] \<Rightarrow> None | e # _ \<Rightarrow> Some e)"
    and "oc_inv v c \<Longrightarrow> (\<exists>c'. OrderedCollectionInsert ops c k p = (EFI_SUCCESS, c', p) \<and> oc_inv v c' \<and>
        k \<notin> fst ` set (oc_list v c) \<and> set (oc_list v c') = insert (k, p) (set (oc_list v c))) \<or>
      (\<exists>q. OrderedCollectionInsert ops c k p = (EFI_ALREADY_STARTED, c, q) \<and> (k, q) \<in> set (oc_list v c)) \<or>
      (\<exists>q. OrderedCollectionInsert ops c k p = (EFI_OUT_OF_RESOURCES, c, q))"
  using assms unfolding oc_keyed_def by blast+

lemma oc_lawD:
  assumes "oc_law ops v"
  shows "OrderedCollectionInit ops = Some c \<Longrightarrow> oc_inv v c \<and> oc_list v c = []"
    and "oc_inv v c \<Longrightarrow> sorted_wrt (<) (map fst (oc_list v c))"
    and "oc_inv v c \<Longrightarrow> OrderedCollectionFind ops c = map_of (oc_list v c)"
    and "oc_inv v c \<Longrightarrow> OrderedCollectionMin ops c = (case oc_list v c of [] \<Rightarrow> None | e # _ \<Rightarrow> Some e)"
    and "oc_inv v c \<Longrightarrow> oc_inv v (OrderedCollectionDelete ops c k) \<and>
      oc_list v (OrderedCollectionDelete ops c k) = filter (\<lambda>e. fst e \<noteq> k) (oc_list v c)"
    and "oc_inv v c \<Longrightarrow> oc_list v c = xs @ (k, p) # ys \<Longrightarrow>
      OrderedCollectionNext ops c k = (case ys of [] \<Rightarrow> None | e # _ \<Rightarrow> Some e)"
    and "oc_inv v c \<Longrightarrow> (\<exists>c'. OrderedCollectionInsert ops c k p = (EFI_SUCCESS, c', p) \<and> oc_inv v c' \<and>
        k \<notin> fst ` set (oc_list v c) \<and> set (oc_list v c') = insert (k, p) (set (oc_list v c))) \<or>
      (\<exists>q. OrderedCollectionInsert ops c k p = (EFI_ALREADY_STARTED, c, q) \<and> (k, q) \<in> set (oc_list v c)) \<or>
      (\<exists>q. OrderedCollectionInsert ops c k p = (EFI_OUT_OF_RESOURCES, c, q))"
  using assms unfolding oc_law_def oc_keyed_def by blast+

section \<open>Association lists\<close>

definition assoc_collection :: "('k, ('k \<times> nat) list) ordered_collection" where
  "assoc_collection = \<lparr>OrderedCollectionInit = Some [],
     OrderedCollectionInsert = (\<lambda>c k p. case map_of c k of
         Some q \<Rightarrow> (EFI_ALREADY_STARTED, c, q) | None \<Rightarrow> (EFI_SUCCESS, c @ [(k, p)], p)),
     OrderedCollectionFind = map_of,
     OrderedCollectionDelete = (\<lambda>c k. filter (\<lambda>e. fst e \<noteq> k) c),
     OrderedCollectionMin = (\<lambda>c. case c of [] \<Rightarrow> None | e # _ \<Rightarrow> Some e),
     OrderedCollectionNext = (\<lambda>c k. case dropWhile (\<lambda>e. fst e \<noteq> k) c of _ # e # _ \<Rightarrow> Some e | _ \<Rightarrow> None)\<rparr>"

definition assoc_view :: "('k, ('k \<times> nat) list) oc_view" where
  "assoc_view = \<lparr>oc_inv = \<lambda>c. distinct (map fst c), oc_list = \<lambda>c. c\<rparr>"

lemma assoc_collection_keyed: "oc_keyed (assoc_collection :: ('k, ('k \<times> nat) list) ordered_collection) assoc_view"
proof -
  have nxt: "(case dropWhile (\<lambda>e. fst e \<noteq> k) (xs @ (k, p) # ys) of _ # e # _ \<Rightarrow> Some e | _ \<Rightarrow> None) =
      (case ys of [] \<Rightarrow> None | e # _ \<Rightarrow> Some e)"
    if "distinct (map fst (xs @ (k, p) # ys))" for xs ys :: "('k \<times> nat) list" and k p
  proof -
    have "dropWhile (\<lambda>e. fst e \<noteq> k) (xs @ (k, p) # ys) = (k, p) # ys" using that by (subst dropWhile_append2) force+
    then show ?thesis by (simp split: list.split)
  qed
  have step: "(\<exists>c'. OrderedCollectionInsert assoc_collection c k p = (EFI_SUCCESS, c', p) \<and> distinct (map fst c') \<and>
        k \<notin> fst ` set c \<and> set c' = insert (k, p) (set c)) \<or>
      (\<exists>q. OrderedCollectionInsert assoc_collection c k p = (EFI_ALREADY_STARTED, c, q) \<and> (k, q) \<in> set c)"
    if "distinct (map fst c)" for c :: "('k \<times> nat) list" and k p
  proof (cases "map_of c k")
    case None
    then have "k \<notin> fst ` set c" by (simp add: map_of_eq_None_iff)
    with None that show ?thesis by (simp add: assoc_collection_def)
  qed (auto simp: assoc_collection_def dest: map_of_SomeD)
  have sel: "OrderedCollectionInit assoc_collection = Some []" "OrderedCollectionFind assoc_collection = map_of"
    "OrderedCollectionDelete assoc_collection c k = filter (\<lambda>e. fst e \<noteq> k) c"
    "OrderedCollectionMin assoc_collection c = (case c of [] \<Rightarrow> None | e # _ \<Rightarrow> Some e)"
    "OrderedCollectionNext assoc_collection c k = (case dropWhile (\<lambda>e. fst e \<noteq> k) c of _ # e # _ \<Rightarrow> Some e | _ \<Rightarrow> None)"
    for c and k :: 'k by (simp_all add: assoc_collection_def)
  show ?thesis unfolding oc_keyed_def assoc_view_def oc_view.simps sel
    by (intro conjI allI impI) (use nxt step in \<open>simp add: distinct_map_filter; fail | blast\<close>)+
qed

definition sorted_collection :: "('k :: linorder, ('k \<times> nat) list) ordered_collection" where
  "sorted_collection = \<lparr>OrderedCollectionInit = Some [],
     OrderedCollectionInsert = (\<lambda>c k p. case map_of c k of
         Some q \<Rightarrow> (EFI_ALREADY_STARTED, c, q)
       | None \<Rightarrow> (EFI_SUCCESS, filter (\<lambda>e. fst e < k) c @ (k, p) # filter (\<lambda>e. k < fst e) c, p)),
     OrderedCollectionFind = map_of,
     OrderedCollectionDelete = (\<lambda>c k. filter (\<lambda>e. fst e \<noteq> k) c),
     OrderedCollectionMin = (\<lambda>c. case c of [] \<Rightarrow> None | e # _ \<Rightarrow> Some e),
     OrderedCollectionNext = (\<lambda>c k. case filter (\<lambda>e. k < fst e) c of [] \<Rightarrow> None | e # _ \<Rightarrow> Some e)\<rparr>"

definition sorted_view :: "('k :: linorder, ('k \<times> nat) list) oc_view" where
  "sorted_view = \<lparr>oc_inv = \<lambda>c. sorted_wrt (<) (map fst c), oc_list = \<lambda>c. c\<rparr>"

lemma sorted_collection_law: "oc_law sorted_collection (sorted_view :: ('k :: linorder, ('k \<times> nat) list) oc_view)"
proof -
  have nxt: "(case filter (\<lambda>e. k < fst e) (xs @ (k, p) # ys) of [] \<Rightarrow> None | e # _ \<Rightarrow> Some e) = (case ys of [] \<Rightarrow> None | e # _ \<Rightarrow> Some e)"
    if "sorted_wrt (<) (map fst (xs @ (k, p) # ys))" for xs ys :: "('k \<times> nat) list" and k p
  proof -
    have "filter (\<lambda>e. k < fst e) xs = []" "filter (\<lambda>e. k < fst e) ys = ys"
      using that by (force simp: sorted_wrt_append filter_empty_conv filter_id_conv)+
    then show ?thesis by simp
  qed
  have ins: "sorted_wrt (<) (map fst (filter (\<lambda>e. fst e < k) c @ (k, p) # filter (\<lambda>e. k < fst e) c)) \<and>
      set (filter (\<lambda>e. fst e < k) c @ (k, p) # filter (\<lambda>e. k < fst e) c) = insert (k, p) (set c)"
    if "sorted_wrt (<) (map fst c)" "k \<notin> fst ` set c" for c :: "('k \<times> nat) list" and k p
  proof -
    have "sorted_wrt (<) (map fst (filter P c))" for P using that(1)
      by (simp add: sorted_wrt_map sorted_wrt_filter)
    moreover have "fst e < k \<or> k < fst e" if e: "e \<in> set c" for e using e \<open>k \<notin> fst ` set c\<close> by (metis image_eqI linorder_neqE)
    ultimately show ?thesis by (auto simp: sorted_wrt_append)
  qed
  have filt: "sorted_wrt (<) (map fst (filter P c))" if "sorted_wrt (<) (map fst c)" for P and c :: "('k \<times> nat) list"
    using that by (simp add: sorted_wrt_map sorted_wrt_filter)
  have step: "(\<exists>c'. OrderedCollectionInsert sorted_collection c k p = (EFI_SUCCESS, c', p) \<and> sorted_wrt (<) (map fst c') \<and>
        k \<notin> fst ` set c \<and> set c' = insert (k, p) (set c)) \<or>
      (\<exists>q. OrderedCollectionInsert sorted_collection c k p = (EFI_ALREADY_STARTED, c, q) \<and> (k, q) \<in> set c)"
    if "sorted_wrt (<) (map fst c)" for c :: "('k \<times> nat) list" and k p
  proof (cases "map_of c k")
    case None
    then have "k \<notin> fst ` set c" by (simp add: map_of_eq_None_iff)
    from None ins [OF that this, of p] this show ?thesis by (simp add: sorted_collection_def)
  qed (auto simp: sorted_collection_def dest: map_of_SomeD)
  have sel: "OrderedCollectionInit sorted_collection = Some []" "OrderedCollectionFind sorted_collection = map_of"
    "OrderedCollectionDelete sorted_collection c k = filter (\<lambda>e. fst e \<noteq> k) c"
    "OrderedCollectionMin sorted_collection c = (case c of [] \<Rightarrow> None | e # _ \<Rightarrow> Some e)"
    "OrderedCollectionNext sorted_collection c k = (case filter (\<lambda>e. k < fst e) c of [] \<Rightarrow> None | e # _ \<Rightarrow> Some e)"
    for c and k :: 'k by (simp_all add: sorted_collection_def)
  have dist: "sorted_wrt (<) (map fst c) \<Longrightarrow> distinct (map fst c)" for c :: "('k \<times> nat) list"
    using strict_sorted_iff by blast
  show ?thesis unfolding oc_law_def oc_keyed_def sorted_view_def oc_view.simps sel
    by (intro conjI allI impI) (use nxt filt step dist in \<open>simp; fail | blast\<close>)+
qed

end
