(* ===== verification/PciCap.thy ===== *)
theory PciCap
  imports OrderedCollections
begin

text \<open>
  PCI capabilities: the library \<^verbatim>\<open>Library/BasePciCapLib\<close> parses the two linked lists of
  capabilities in the configuration space of a device, and finds, describes, reads and writes
  capabilities. The device is a parameter, and so is the ordered collection of the base library: a
  record of its functions. Objects live in a store, a pointer is an index. Loops over
  the device and over a collection are partial functions, a result \<open>None\<close> is a loop that does
  not end or a failed assertion.
\<close>

section \<open>Keys\<close>

datatype PCI_CAP_DOMAIN = PciCapNormal | PciCapExtended

datatype PCI_CAP_KEY = PCI_CAP_KEY (Domain: PCI_CAP_DOMAIN) (CapId: nat) (Instance: nat)

definition domain_value :: "PCI_CAP_DOMAIN \<Rightarrow> nat" where
  "domain_value d = (case d of PciCapNormal \<Rightarrow> 0 | PciCapExtended \<Rightarrow> 1)"

definition ComparePciCapKey :: "PCI_CAP_KEY \<Rightarrow> PCI_CAP_KEY \<Rightarrow> int" where
  "ComparePciCapKey Key1 Key2 =
     (if domain_value (Domain Key1) < domain_value (Domain Key2) then - 1
      else if domain_value (Domain Key1) > domain_value (Domain Key2) then 1
      else if CapId Key1 < CapId Key2 then - 1
      else if CapId Key1 > CapId Key2 then 1
      else if Instance Key1 < Instance Key2 then - 1
      else if Instance Key1 > Instance Key2 then 1
      else 0)"

definition ComparePciCapOffset :: "nat \<Rightarrow> nat \<Rightarrow> int" where
  "ComparePciCapOffset Offset1 Offset2 = int Offset1 - int Offset2"

text \<open>The comparison of keys makes them a linear order.\<close>

instantiation PCI_CAP_KEY :: linorder
begin

definition less_eq_PCI_CAP_KEY :: "PCI_CAP_KEY \<Rightarrow> PCI_CAP_KEY \<Rightarrow> bool" where
  "less_eq_PCI_CAP_KEY a b \<longleftrightarrow> ComparePciCapKey a b \<le> 0"

definition less_PCI_CAP_KEY :: "PCI_CAP_KEY \<Rightarrow> PCI_CAP_KEY \<Rightarrow> bool" where
  "less_PCI_CAP_KEY a b \<longleftrightarrow> ComparePciCapKey a b < 0"

instance
proof
  fix x y z :: PCI_CAP_KEY
  show "x < y \<longleftrightarrow> x \<le> y \<and> \<not> y \<le> x"
    by (auto simp: less_PCI_CAP_KEY_def less_eq_PCI_CAP_KEY_def ComparePciCapKey_def split: if_splits)
  show "x \<le> x" by (simp add: less_eq_PCI_CAP_KEY_def ComparePciCapKey_def)
  show "x \<le> y \<Longrightarrow> y \<le> z \<Longrightarrow> x \<le> z"
    by (auto simp: less_eq_PCI_CAP_KEY_def ComparePciCapKey_def split: if_splits)
  show "x \<le> y \<Longrightarrow> y \<le> x \<Longrightarrow> x = y"
    by (auto simp: less_eq_PCI_CAP_KEY_def ComparePciCapKey_def domain_value_def
        split: if_splits PCI_CAP_DOMAIN.splits intro: PCI_CAP_KEY.expand)
  show "x \<le> y \<or> y \<le> x" by (auto simp: less_eq_PCI_CAP_KEY_def ComparePciCapKey_def split: if_splits)
qed

end

section \<open>Capabilities and their lists\<close>

datatype PCI_CAP_NUM_INSTANCES = NumInstances nat | InstanceZero nat

record PCI_CAP =
  Key :: PCI_CAP_KEY
  NumInstancesUnion :: PCI_CAP_NUM_INSTANCES
  cap_Offset :: nat
  MaxSizeHint :: nat
  cap_Version :: nat

text \<open>The environment: memory (by the number of objects already allocated), the two collections and the device.\<close>

record ('c, 'o, 'p) pci_env =
  AllocatePool :: "nat \<Rightarrow> bool"
  key_ops :: "(PCI_CAP_KEY, 'c) ordered_collection"
  offset_ops :: "(nat, 'o) ordered_collection"
  ReadConfig :: "'p \<Rightarrow> nat \<Rightarrow> nat \<Rightarrow> (EFI_STATUS + byte list) \<times> 'p"
  WriteConfig :: "'p \<Rightarrow> nat \<Rightarrow> byte list \<Rightarrow> nat \<Rightarrow> EFI_STATUS \<times> 'p"

record ('c, 'o) caps =
  cap_heap :: "PCI_CAP list"
  Capabilities :: 'c
  CapHdrOffsets :: 'o

text \<open>Constants of the PCI specification.\<close>

definition PCI_MAX_CONFIG_OFFSET :: nat where "PCI_MAX_CONFIG_OFFSET = 0x100"
definition PCI_EXP_MAX_CONFIG_OFFSET :: nat where "PCI_EXP_MAX_CONFIG_OFFSET = 0x1000"
definition PCI_PRIMARY_STATUS_OFFSET :: nat where "PCI_PRIMARY_STATUS_OFFSET = 0x06"
definition PCI_CAPBILITY_POINTER_OFFSET :: nat where "PCI_CAPBILITY_POINTER_OFFSET = 0x34"
definition EFI_PCI_STATUS_CAPABILITY :: nat where "EFI_PCI_STATUS_CAPABILITY = 0x10"
definition EFI_PCI_CAPABILITY_ID_PCIEXP :: nat where "EFI_PCI_CAPABILITY_ID_PCIEXP = 0x10"

definition ConfigSpaceSize :: "PCI_CAP_DOMAIN \<Rightarrow> nat" where
  "ConfigSpaceSize d = (if d = PciCapNormal then PCI_MAX_CONFIG_OFFSET else PCI_EXP_MAX_CONFIG_OFFSET)"

section \<open>Inserting\<close>

text \<open>Linking a capability that is in the list under its offset, or taking it out of the list again.\<close>

definition link_offset ::
  "('c, 'o, 'p) pci_env \<Rightarrow> ('c, 'o) caps \<Rightarrow> 'c \<Rightarrow> PCI_CAP \<Rightarrow> nat option \<Rightarrow> (EFI_STATUS \<times> ('c, 'o) caps) option" where
  "link_offset E s caps' PciCap zero =
     (case OrderedCollectionInsert (offset_ops E) (CapHdrOffsets s) (cap_Offset PciCap) (length (cap_heap s)) of
        (EFI_SUCCESS, offs', _) \<Rightarrow>
          let s1 = s\<lparr>cap_heap := cap_heap s @ [PciCap], Capabilities := caps', CapHdrOffsets := offs'\<rparr>
          in (case zero of
                None \<Rightarrow> Some (EFI_SUCCESS, s1)
              | Some z \<Rightarrow> (case NumInstancesUnion (cap_heap s ! z) of
                    NumInstances n \<Rightarrow> Some (EFI_SUCCESS, s1\<lparr>cap_heap := (cap_heap s1)[z := (cap_heap s1 ! z)
                      \<lparr>NumInstancesUnion := NumInstances ((n + 1) mod 2 ^ 16)\<rparr>]\<rparr>)
                  | InstanceZero _ \<Rightarrow> None))
      | (EFI_ALREADY_STARTED, _, _) \<Rightarrow>
          Some (EFI_DEVICE_ERROR, s\<lparr>Capabilities := OrderedCollectionDelete (key_ops E) caps' (Key PciCap)\<rparr>)
      | (st, _, _) \<Rightarrow> Some (st, s\<lparr>Capabilities := OrderedCollectionDelete (key_ops E) caps' (Key PciCap)\<rparr>))"

definition InsertPciCap ::
  "('c, 'o, 'p) pci_env \<Rightarrow> ('c, 'o) caps \<Rightarrow> PCI_CAP_DOMAIN \<Rightarrow> nat \<Rightarrow> nat \<Rightarrow> nat \<Rightarrow> (EFI_STATUS \<times> ('c, 'o) caps) option" where
  "InsertPciCap E s Dom ID Off Ver =
     (if Off mod 4 \<noteq> 0 \<or> ConfigSpaceSize Dom \<le> Off \<or> (Dom \<noteq> PciCapExtended \<and> Ver \<noteq> 0) then None
      else if \<not> AllocatePool E (length (cap_heap s)) then Some (EFI_OUT_OF_RESOURCES, s)
      else let PciCap = \<lparr>Key = PCI_CAP_KEY Dom ID 0, NumInstancesUnion = NumInstances 1, cap_Offset = Off, MaxSizeHint = 0,
                         cap_Version = Ver\<rparr>
      in case OrderedCollectionInsert (key_ops E) (Capabilities s) (Key PciCap) (length (cap_heap s)) of
          (EFI_SUCCESS, caps', _) \<Rightarrow> link_offset E s caps' PciCap None
        | (EFI_OUT_OF_RESOURCES, _, _) \<Rightarrow> Some (EFI_OUT_OF_RESOURCES, s)
        | (EFI_ALREADY_STARTED, caps1, z) \<Rightarrow>
            (case NumInstancesUnion (cap_heap s ! z) of
                InstanceZero _ \<Rightarrow> None
              | NumInstances n \<Rightarrow>
                  if n = 0 then None
                  else let PciCap1 = PciCap\<lparr>Key := PCI_CAP_KEY Dom ID n, NumInstancesUnion := InstanceZero z\<rparr>
                  in (case OrderedCollectionInsert (key_ops E) caps1 (Key PciCap1) (length (cap_heap s)) of
                      (EFI_SUCCESS, caps', _) \<Rightarrow> link_offset E s caps' PciCap1 (Some z)
                    | (EFI_OUT_OF_RESOURCES, _, _) \<Rightarrow> Some (EFI_OUT_OF_RESOURCES, s)
                    | _ \<Rightarrow> None))
        | _ \<Rightarrow> None)"

section \<open>Size hints\<close>

definition CalculatePciCapMaxSizeHint :: "PCI_CAP \<Rightarrow> PCI_CAP option \<Rightarrow> PCI_CAP option" where
  "CalculatePciCapMaxSizeHint PciCap NextPciCap =
     (let Size = ConfigSpaceSize (Domain (Key PciCap))
      in if (case NextPciCap of None \<Rightarrow> False | Some n \<Rightarrow> cap_Offset n \<le> cap_Offset PciCap) \<or> Size \<le> cap_Offset PciCap then None
         else (case NextPciCap of
             None \<Rightarrow> Some (PciCap\<lparr>MaxSizeHint := Size - cap_Offset PciCap\<rparr>)
           | Some n \<Rightarrow> if Size \<le> cap_Offset n then Some (PciCap\<lparr>MaxSizeHint := Size - cap_Offset PciCap\<rparr>)
               else Some (PciCap\<lparr>MaxSizeHint := cap_Offset n - cap_Offset PciCap\<rparr>)))"

text \<open>The loop over the offsets, from the entry for the lowest one on; it empties the collection.\<close>

partial_function (option) hint_loop :: "('c, 'o, 'p) pci_env \<Rightarrow> ('c, 'o) caps \<Rightarrow> nat \<Rightarrow> nat \<Rightarrow> ('c, 'o) caps option" where
  "hint_loop E s k p =
     (case OrderedCollectionNext (offset_ops E) (CapHdrOffsets s) k of
        None \<Rightarrow> map_option (\<lambda>c. s\<lparr>CapHdrOffsets := OrderedCollectionDelete (offset_ops E) (CapHdrOffsets s) k,
            cap_heap := (cap_heap s)[p := c]\<rparr>) (CalculatePciCapMaxSizeHint (cap_heap s ! p) None)
      | Some (k2, p2) \<Rightarrow> Option.bind (CalculatePciCapMaxSizeHint (cap_heap s ! p) (Some (cap_heap s ! p2))) (\<lambda>c.
          hint_loop E (s\<lparr>CapHdrOffsets := OrderedCollectionDelete (offset_ops E) (CapHdrOffsets s) k,
            cap_heap := (cap_heap s)[p := c]\<rparr>) k2 p2))"

definition all_hints :: "('c, 'o, 'p) pci_env \<Rightarrow> ('c, 'o) caps \<Rightarrow> ('c, 'o) caps option" where
  "all_hints E s =
     Option.bind (case OrderedCollectionMin (offset_ops E) (CapHdrOffsets s) of
         None \<Rightarrow> Some s | Some (k, p) \<Rightarrow> hint_loop E s k p) (\<lambda>s1.
     if OrderedCollectionMin (offset_ops E) (CapHdrOffsets s1) \<noteq> None then None else Some s1)"

section \<open>Parsing\<close>

text \<open>The walk over the normal list: the status, the list, the device, and whether it is PCI Express.\<close>

partial_function (option) normal_walk ::
  "('c, 'o, 'p) pci_env \<Rightarrow> ('c, 'o) caps \<Rightarrow> 'p \<Rightarrow> bool \<Rightarrow> nat \<Rightarrow> (EFI_STATUS \<times> ('c, 'o) caps \<times> 'p \<times> bool) option" where
  "normal_walk E s d express off =
     (if off = 0 then Some (EFI_SUCCESS, s, d, express)
      else case ReadConfig E d off 2 of
        (Inl st, d1) \<Rightarrow> Some (st, s, d1, express)
      | (Inr hdr, d1) \<Rightarrow>
          if length hdr \<noteq> 2 then None
          else Option.bind (InsertPciCap E s PciCapNormal (unat (hdr ! 0)) off 0) (\<lambda>(st, s1).
            if st \<noteq> EFI_SUCCESS then Some (st, s1, d1, express)
            else normal_walk E s1 d1 (express \<or> unat (hdr ! 0) = EFI_PCI_CAPABILITY_ID_PCIEXP) (unat (hdr ! 1) AND 0xFC)))"

text \<open>The fields of an extended header.\<close>

definition ext_CapabilityId :: "byte list \<Rightarrow> nat" where "ext_CapabilityId hdr = le_value hdr mod 2 ^ 16"
definition ext_CapabilityVersion :: "byte list \<Rightarrow> nat" where "ext_CapabilityVersion hdr = le_value hdr div 2 ^ 16 mod 2 ^ 4"
definition ext_NextCapabilityOffset :: "byte list \<Rightarrow> nat" where "ext_NextCapabilityOffset hdr = le_value hdr div 2 ^ 20 mod 2 ^ 12"

partial_function (option) extended_walk ::
  "('c, 'o, 'p) pci_env \<Rightarrow> ('c, 'o) caps \<Rightarrow> 'p \<Rightarrow> nat \<Rightarrow> (EFI_STATUS \<times> ('c, 'o) caps \<times> 'p) option" where
  "extended_walk E s d off =
     (if off = 0 then Some (EFI_SUCCESS, s, d)
      else case ReadConfig E d off 4 of
        (Inl st, d1) \<Rightarrow> if off = PCI_MAX_CONFIG_OFFSET then Some (EFI_SUCCESS, s, d1) else Some (st, s, d1)
      | (Inr hdr, d1) \<Rightarrow>
          if length hdr \<noteq> 4 then None
          else if off = PCI_MAX_CONFIG_OFFSET \<and> list_all (\<lambda>b. b = 0) hdr then Some (EFI_SUCCESS, s, d1)
          else Option.bind (InsertPciCap E s PciCapExtended (ext_CapabilityId hdr) off (ext_CapabilityVersion hdr)) (\<lambda>(st, s1).
            if st \<noteq> EFI_SUCCESS then Some (st, s1, d1)
            else let next = ext_NextCapabilityOffset hdr AND 0xFFC
            in if 0 < next \<and> next < PCI_MAX_CONFIG_OFFSET then Some (EFI_DEVICE_ERROR, s1, d1)
               else extended_walk E s1 d1 next))"

text \<open>Whether the list object itself can be allocated is the first parameter.\<close>

definition PciCapListInit ::
  "bool \<Rightarrow> ('c, 'o, 'p) pci_env \<Rightarrow> 'p \<Rightarrow> (EFI_STATUS \<times> ('c, 'o) caps option \<times> 'p) option" where
  "PciCapListInit list_ok E d =
     (if \<not> list_ok then Some (EFI_OUT_OF_RESOURCES, None, d)
      else case (OrderedCollectionInit (key_ops E), OrderedCollectionInit (offset_ops E)) of
        (Some caps, Some offs) \<Rightarrow>
          let s = \<lparr>cap_heap = [], Capabilities = caps, CapHdrOffsets = offs\<rparr>
          in (case ReadConfig E d PCI_PRIMARY_STATUS_OFFSET 2 of
                (Inl st, d1) \<Rightarrow> Some (st, None, d1)
              | (Inr reg, d1) \<Rightarrow>
                  if length reg \<noteq> 2 then None
                  else Option.bind
                    (if le_value reg AND EFI_PCI_STATUS_CAPABILITY \<noteq> 0
                     then (case ReadConfig E d1 PCI_CAPBILITY_POINTER_OFFSET 1 of
                         (Inl st, d2) \<Rightarrow> Some (st, s, d2, False)
                       | (Inr ptr, d2) \<Rightarrow> if length ptr \<noteq> 1 then None
                           else normal_walk E s d2 False (unat (ptr ! 0) AND 0xFC))
                     else Some (EFI_SUCCESS, s, d1, False)) (\<lambda>(st, s1, d2, express).
                  if st \<noteq> EFI_SUCCESS then Some (st, None, d2)
                  else Option.bind (if express then extended_walk E s1 d2 PCI_MAX_CONFIG_OFFSET else Some (EFI_SUCCESS, s1, d2))
                    (\<lambda>(st, s2, d3).
                  if st \<noteq> EFI_SUCCESS then Some (st, None, d3)
                  else map_option (\<lambda>s3. (EFI_SUCCESS, Some s3, d3)) (all_hints E s2))))
      | _ \<Rightarrow> Some (EFI_OUT_OF_RESOURCES, None, d))"

section \<open>Lookup and access\<close>

definition PciCapListFindCap ::
  "('c, 'o, 'p) pci_env \<Rightarrow> ('c, 'o) caps \<Rightarrow> PCI_CAP_DOMAIN \<Rightarrow> nat \<Rightarrow> nat \<Rightarrow> EFI_STATUS \<times> nat option" where
  "PciCapListFindCap E s Dom ID Inst =
     (case OrderedCollectionFind (key_ops E) (Capabilities s) (PCI_CAP_KEY Dom ID Inst) of
        None \<Rightarrow> (EFI_NOT_FOUND, None) | Some p \<Rightarrow> (EFI_SUCCESS, Some p))"

partial_function (option) version_loop ::
  "('c, 'o, 'p) pci_env \<Rightarrow> ('c, 'o) caps \<Rightarrow> PCI_CAP_DOMAIN \<Rightarrow> nat \<Rightarrow> nat \<Rightarrow> PCI_CAP_KEY \<Rightarrow> nat \<Rightarrow> (EFI_STATUS \<times> nat option) option" where
  "version_loop E s Dom ID MinVersion k p =
     (if Domain (Key (cap_heap s ! p)) \<noteq> Dom \<or> CapId (Key (cap_heap s ! p)) \<noteq> ID then Some (EFI_NOT_FOUND, None)
      else if MinVersion \<le> cap_Version (cap_heap s ! p) then Some (EFI_SUCCESS, Some p)
      else case OrderedCollectionNext (key_ops E) (Capabilities s) k of
          None \<Rightarrow> Some (EFI_NOT_FOUND, None)
        | Some (k2, p2) \<Rightarrow> version_loop E s Dom ID MinVersion k2 p2)"

definition PciCapListFindCapVersion ::
  "('c, 'o, 'p) pci_env \<Rightarrow> ('c, 'o) caps \<Rightarrow> PCI_CAP_DOMAIN \<Rightarrow> nat \<Rightarrow> nat \<Rightarrow> (EFI_STATUS \<times> nat option) option" where
  "PciCapListFindCapVersion E s Dom ID MinVersion =
     (case OrderedCollectionFind (key_ops E) (Capabilities s) (PCI_CAP_KEY Dom ID 0) of
        None \<Rightarrow> Some (EFI_NOT_FOUND, None)
      | Some p \<Rightarrow> version_loop E s Dom ID MinVersion (PCI_CAP_KEY Dom ID 0) p)"

record PCI_CAP_INFO =
  info_Domain :: PCI_CAP_DOMAIN
  info_CapId :: nat
  info_NumInstances :: nat
  info_Instance :: nat
  info_Offset :: nat
  info_MaxSizeHint :: nat
  info_Version :: nat

definition PciCapGetInfo :: "('c, 'o) caps \<Rightarrow> nat \<Rightarrow> (EFI_STATUS \<times> PCI_CAP_INFO) option" where
  "PciCapGetInfo s p =
     (let Cap = cap_heap s ! p;
          zero = (if Instance (Key Cap) = 0 then Some p
                  else (case NumInstancesUnion Cap of InstanceZero z \<Rightarrow> Some z | NumInstances _ \<Rightarrow> None))
      in Option.bind zero (\<lambda>z. case NumInstancesUnion (cap_heap s ! z) of
           InstanceZero _ \<Rightarrow> None
         | NumInstances n \<Rightarrow> Some (EFI_SUCCESS, \<lparr>info_Domain = Domain (Key Cap), info_CapId = CapId (Key Cap), info_NumInstances = n,
             info_Instance = Instance (Key Cap), info_Offset = cap_Offset Cap, info_MaxSizeHint = MaxSizeHint Cap,
             info_Version = cap_Version Cap\<rparr>)))"

definition PciCapRead ::
  "('c, 'o, 'p) pci_env \<Rightarrow> 'p \<Rightarrow> PCI_CAP \<Rightarrow> nat \<Rightarrow> nat \<Rightarrow> (EFI_STATUS + byte list) \<times> 'p" where
  "PciCapRead E d Cap SourceOffsetInCap Size =
     (if MaxSizeHint Cap < SourceOffsetInCap + Size then (Inl EFI_BAD_BUFFER_SIZE, d)
      else ReadConfig E d (cap_Offset Cap + SourceOffsetInCap) Size)"

definition PciCapWrite ::
  "('c, 'o, 'p) pci_env \<Rightarrow> 'p \<Rightarrow> PCI_CAP \<Rightarrow> nat \<Rightarrow> byte list \<Rightarrow> nat \<Rightarrow> EFI_STATUS \<times> 'p" where
  "PciCapWrite E d Cap DestinationOffsetInCap SourceBuffer Size =
     (if MaxSizeHint Cap < DestinationOffsetInCap + Size then (EFI_BAD_BUFFER_SIZE, d)
      else WriteConfig E d (cap_Offset Cap + DestinationOffsetInCap) SourceBuffer Size)"

declare hint_loop.simps [code] normal_walk.simps [code] extended_walk.simps [code] version_loop.simps [code]

end
