(* ===== verification/PciCapInv.thy ===== *)
theory PciCapInv
  imports PciCap
begin

text \<open>
  The capability list as a function of the sequence of capabilities found: instance numbers,
  counts and links follow from the sequence, and inserting appends to it. The ordered
  collection is any that keeps its entries sorted by their keys.
\<close>

section \<open>The list as a function of what was found\<close>

text \<open>A capability found: domain, identifier, offset and version.\<close>

type_synonym found = "PCI_CAP_DOMAIN \<times> nat \<times> nat \<times> nat"

abbreviation f_off :: "found \<Rightarrow> nat" where "f_off t \<equiv> fst (snd (snd t))"
abbreviation same_cap :: "PCI_CAP_DOMAIN \<Rightarrow> nat \<Rightarrow> found \<Rightarrow> bool" where "same_cap d i t \<equiv> fst t = d \<and> fst (snd t) = i"

definition cnt :: "found list \<Rightarrow> PCI_CAP_DOMAIN \<Rightarrow> nat \<Rightarrow> nat" where
  "cnt ts d i = length (filter (same_cap d i) ts)"

definition cap_of :: "found list \<Rightarrow> nat \<Rightarrow> PCI_CAP" where
  "cap_of ts k = (case ts ! k of (d, i, off, ver) \<Rightarrow> let n = cnt (take k ts) d i in
     \<lparr>Key = PCI_CAP_KEY d i n,
      NumInstancesUnion = (if n = 0 then NumInstances (cnt ts d i) else InstanceZero (first_idx (same_cap d i) ts)),
      cap_Offset = off, MaxSizeHint = 0, cap_Version = ver\<rparr>)"

definition heap_of :: "found list \<Rightarrow> PCI_CAP list" where
  "heap_of ts = map (cap_of ts) [0..<length ts]"

lemma cnt_append [simp]: "cnt (ts @ us) d i = cnt ts d i + cnt us d i"
  by (simp add: cnt_def)

lemma cnt_Cons: "cnt (t # ts) d i = (if same_cap d i t then 1 else 0) + cnt ts d i"
  by (simp add: cnt_def)

lemma cnt_Nil [simp]: "cnt [] d i = 0"
  by (simp add: cnt_def)

lemma length_heap_of [simp]: "length (heap_of ts) = length ts"
  by (simp add: heap_of_def)

lemma nth_heap_of: "k < length ts \<Longrightarrow> heap_of ts ! k = cap_of ts k"
  by (simp add: heap_of_def)

lemma cap_of_sel:
  "cap_Offset (cap_of ts k) = f_off (ts ! k)" "Key (cap_of ts k) = PCI_CAP_KEY (fst (ts ! k)) (fst (snd (ts ! k))) (cnt (take k ts) (fst (ts ! k)) (fst (snd (ts ! k))))"
  by (simp_all add: cap_of_def Let_def split: prod.split)

text \<open>The position of the first capability of a kind.\<close>

lemma cnt_0_iff: "cnt ts d i = 0 \<longleftrightarrow> (\<forall>t \<in> set ts. \<not> same_cap d i t)"
  by (simp add: cnt_def filter_empty_conv)

lemma first_idx_append: "cnt ts d i > 0 \<Longrightarrow> first_idx (same_cap d i) (ts @ us) = first_idx (same_cap d i) ts"
  by (induction ts) (auto simp: first_idx_Cons cnt_Cons)

lemma first_kind:
  assumes "0 < cnt ts d i"
  shows "first_idx (same_cap d i) ts < length ts" "same_cap d i (ts ! first_idx (same_cap d i) ts)"
    "cnt (take (first_idx (same_cap d i) ts) ts) d i = 0"
proof -
  have "\<exists>t \<in> set ts. same_cap d i t" using assms cnt_0_iff [of ts d i] by auto
  then show l: "first_idx (same_cap d i) ts < length ts" by (simp add: first_idx_less_iff)
  then show "same_cap d i (ts ! first_idx (same_cap d i) ts)" using first_idx_hit [OF l] by simp
  have "\<not> same_cap d i t" if mem: "t \<in> set (take (first_idx (same_cap d i) ts) ts)" for t
  proof -
    obtain j where j: "j < first_idx (same_cap d i) ts" "t = ts ! j" using mem l by (auto simp: in_set_conv_nth)
    show ?thesis using first_idx_before [OF j(1)] j(2) by simp
  qed
  then show "cnt (take (first_idx (same_cap d i) ts) ts) d i = 0" unfolding cnt_0_iff by blast
qed

lemma first_unique:
  assumes "k < length ts" "same_cap d i (ts ! k)" "cnt (take k ts) d i = 0"
  shows "first_idx (same_cap d i) ts = k"
proof (rule first_idx_unique [where P = "same_cap d i", OF assms(1,2)])
  fix j assume "j < k"
  then have "ts ! j \<in> set (take k ts)" using assms(1) by (auto simp: in_set_conv_nth intro!: exI [of _ j])
  then show "\<not> same_cap d i (ts ! j)" using assms(3) by (simp add: cnt_0_iff)
qed

lemma cnt_take_less: "k < length ts \<Longrightarrow> same_cap d i (ts ! k) \<Longrightarrow> cnt (take k ts) d i < cnt ts d i"
  using id_take_nth_drop [of k ts] cnt_append [of "take k ts" "ts ! k # drop (Suc k) ts" d i] by (simp add: cnt_Cons)

text \<open>Appending a capability of a new kind, or of one already found.\<close>

lemma heap_of_snoc_new:
  assumes "cnt ts d i = 0"
  shows "heap_of (ts @ [(d, i, off, ver)]) = heap_of ts @ [\<lparr>Key = PCI_CAP_KEY d i 0, NumInstancesUnion = NumInstances 1,
    cap_Offset = off, MaxSizeHint = 0, cap_Version = ver\<rparr>]"
proof -
  have "cap_of (ts @ [(d, i, off, ver)]) k = cap_of ts k" if "k < length ts" for k
  proof -
    obtain d' i' o' v' where t: "ts ! k = (d', i', o', v')" by (metis prod_cases4)
    have "ts ! k \<in> set ts" using that by simp
    then have ne: "\<not> (d' = d \<and> i' = i)" using assms t by (auto simp: cnt_0_iff)
    have c: "0 < cnt ts d' i'" using cnt_take_less [OF that, of d' i'] t by simp
    show ?thesis using that ne c t by (auto simp: cap_of_def nth_append Let_def cnt_Cons first_idx_append)
  qed
  then show ?thesis using assms by (simp add: heap_of_def cap_of_def nth_append cnt_Cons)
qed

lemma heap_of_snoc_again:
  assumes "0 < cnt ts d i"
  defines "z \<equiv> first_idx (same_cap d i) ts"
  shows "heap_of (ts @ [(d, i, off, ver)]) = (heap_of ts @ [\<lparr>Key = PCI_CAP_KEY d i (cnt ts d i), NumInstancesUnion = InstanceZero z,
    cap_Offset = off, MaxSizeHint = 0, cap_Version = ver\<rparr>])[z := (heap_of ts ! z)\<lparr>NumInstancesUnion := NumInstances (cnt ts d i + 1)\<rparr>]"
    (is "?l = ?r")
proof (rule nth_equalityI)
  note f = first_kind [OF assms(1), folded z_def]
  show "length ?l = length ?r" by simp
  fix k assume "k < length ?l"
  then consider "k < length ts" "k = z" | "k < length ts" "k \<noteq> z" | "k = length ts" by fastforce
  then show "?l ! k = ?r ! k"
  proof cases
    case 1
    obtain o' v' where t: "ts ! z = (d, i, o', v')" using f(2) by (metis prod.collapse)
    have "heap_of (ts @ [(d, i, off, ver)]) ! z = cap_of (ts @ [(d, i, off, ver)]) z" using f(1) by (simp add: nth_heap_of)
    then show ?thesis using 1 f t by (simp add: cap_of_def nth_append nth_heap_of Let_def cnt_Cons)
  next
    case 2
    obtain d' i' o' v' where t: "ts ! k = (d', i', o', v')" by (metis prod_cases4)
    have c: "0 < cnt ts d' i'" using cnt_take_less [OF 2(1), of d' i'] t by simp
    have "\<not> (d' = d \<and> i' = i \<and> cnt (take k ts) d i = 0)" using first_unique [OF 2(1), of d i] t 2(2) by (auto simp: z_def)
    then have "cap_of (ts @ [(d, i, off, ver)]) k = cap_of ts k"
      using 2(1) c t by (auto simp: cap_of_def nth_append Let_def cnt_Cons first_idx_append)
    then show ?thesis using 2 by (simp add: nth_heap_of nth_append)
  next
    case 3
    then have "?l ! k = cap_of (ts @ [(d, i, off, ver)]) k" by (simp add: nth_heap_of)
    then show ?thesis using 3 assms(1) f(1) by (simp add: cap_of_def nth_append Let_def first_idx_append z_def)
  qed
qed

section \<open>The invariant\<close>

definition found_ok :: "found list \<Rightarrow> bool" where
  "found_ok ts \<longleftrightarrow> distinct (map f_off ts) \<and> (\<forall>t \<in> set ts. f_off t mod 4 = 0 \<and> f_off t < ConfigSpaceSize (fst t))"

definition caps_inv :: "(PCI_CAP_KEY, 'c) oc_view \<Rightarrow> (nat, 'o) oc_view \<Rightarrow> found list \<Rightarrow> ('c, 'o) caps \<Rightarrow> bool" where
  "caps_inv kv ov ts s \<longleftrightarrow> cap_heap s = heap_of ts \<and> found_ok ts \<and>
     oc_inv kv (Capabilities s) \<and> set (oc_list kv (Capabilities s)) = (\<lambda>k. (Key (cap_of ts k), k)) ` {..<length ts} \<and>
     oc_inv ov (CapHdrOffsets s) \<and> set (oc_list ov (CapHdrOffsets s)) = (\<lambda>k. (f_off (ts ! k), k)) ` {..<length ts}"

text \<open>There is room for 1024 headers at most.\<close>

lemma found_bound:
  assumes "found_ok ts"
  shows "length ts \<le> 1024"
proof -
  have "set (map f_off ts) \<subseteq> (\<lambda>j. 4 * j) ` {..<1024}"
  proof
    fix x assume "x \<in> set (map f_off ts)"
    then obtain t where t: "t \<in> set ts" "x = f_off t" by auto
    then have m: "x mod 4 = 0" "x < ConfigSpaceSize (fst t)" using assms by (auto simp: found_ok_def)
    have "ConfigSpaceSize (fst t) \<le> 4096"
      by (simp add: ConfigSpaceSize_def PCI_MAX_CONFIG_OFFSET_def PCI_EXP_MAX_CONFIG_OFFSET_def)
    with m have "x mod 4 = 0" "x < 4096" by auto
    then have "x = 4 * (x div 4)" "x div 4 < 1024" by auto
    then show "x \<in> (\<lambda>j. 4 * j) ` {..<1024}" by blast
  qed
  then have "card (set (map f_off ts)) \<le> card ((\<lambda>j. 4 * j) ` {..<1024 :: nat})" by (intro card_mono) auto
  also have "\<dots> \<le> 1024" using card_image_le [of "{..<1024 :: nat}" "\<lambda>j. 4 * j"] by simp
  finally show ?thesis using assms distinct_card [of "map f_off ts"] by (simp add: found_ok_def)
qed

lemma cnt_le: "cnt ts d i \<le> length ts"
  by (simp add: cnt_def)

lemma key_unique:
  assumes "k < length ts" and "Key (cap_of ts k) = PCI_CAP_KEY d i n"
  shows "same_cap d i (ts ! k)" "cnt (take k ts) d i = n" "n < cnt ts d i"
proof -
  show s: "same_cap d i (ts ! k)" using assms(2) by (simp add: cap_of_sel)
  then show c: "cnt (take k ts) d i = n" using assms(2) by (simp add: cap_of_sel)
  show "n < cnt ts d i" using cnt_take_less [OF assms(1) s] c by simp
qed

text \<open>Keys do not change when a capability is appended.\<close>

lemma cap_of_Key_snoc: "k < length ts \<Longrightarrow> Key (cap_of (ts @ us) k) = Key (cap_of ts k)"
  by (simp add: cap_of_sel nth_append)

lemma caps_inv_snoc:
  assumes inv: "caps_inv kv ov ts s" and t: "off mod 4 = 0" "off < ConfigSpaceSize d" "off \<notin> f_off ` set ts"
    and caps: "oc_inv kv caps'" "set (oc_list kv caps') = insert (PCI_CAP_KEY d i (cnt ts d i), length ts) (set (oc_list kv (Capabilities s)))"
    and offs: "oc_inv ov offs'" "set (oc_list ov offs') = insert (off, length ts) (set (oc_list ov (CapHdrOffsets s)))"
  shows "caps_inv kv ov (ts @ [(d, i, off, ver)])
    (s\<lparr>cap_heap := heap_of (ts @ [(d, i, off, ver)]), Capabilities := caps', CapHdrOffsets := offs'\<rparr>)"
proof -
  let ?ts = "ts @ [(d, i, off, ver)]"
  have "{..<length ?ts} = insert (length ts) {..<length ts}" by (simp add: lessThan_Suc)
  then have "(\<lambda>k. (Key (cap_of ?ts k), k)) ` {..<length ?ts} = insert (PCI_CAP_KEY d i (cnt ts d i), length ts) ((\<lambda>k. (Key (cap_of ts k), k)) ` {..<length ts})"
    "(\<lambda>k. (f_off (?ts ! k), k)) ` {..<length ?ts} = insert (off, length ts) ((\<lambda>k. (f_off (ts ! k), k)) ` {..<length ts})"
    by (auto simp: cap_of_Key_snoc nth_append cap_of_sel(2) [of "ts @ [(d, i, off, ver)]" "length ts"] image_iff)
  then show ?thesis using assms by (auto simp: caps_inv_def found_ok_def)
qed

end
