(* ===== verification/PciCapParse.thy ===== *)
theory PciCapParse
  imports PciCapInv
begin

text \<open>
  Parsing: an insertion appends to the sequence of capabilities found or detects a loop; the
  walks over the lists end on every device, and the size hints follow from the offsets.
\<close>

section \<open>Insertion\<close>

text \<open>The environment keeps the contracts of the collections and of config space reads.\<close>

definition env_ok :: "('c, 'o, 'p) pci_env \<Rightarrow> (PCI_CAP_KEY, 'c) oc_view \<Rightarrow> (nat, 'o) oc_view \<Rightarrow> bool" where
  "env_ok E kv ov \<longleftrightarrow> oc_law (key_ops E) kv \<and> oc_law (offset_ops E) ov \<and>
     (\<forall>d off n. case fst (ReadConfig E d off n) of Inl st \<Rightarrow> st \<noteq> EFI_SUCCESS | Inr bs \<Rightarrow> length bs = n)"

lemma link_offset_step:
  assumes law: "oc_law (offset_ops E) ov" and inv: "caps_inv kv ov ts s"
    and cap: "cap_Offset cap = off" "off mod 4 = 0" "off < ConfigSpaceSize d"
    and caps: "oc_inv kv caps'" "set (oc_list kv caps') = insert (PCI_CAP_KEY d i (cnt ts d i), length ts) (set (oc_list kv (Capabilities s)))"
    and heap: "heap_of (ts @ [(d, i, off, ver)]) = (case zero of None \<Rightarrow> heap_of ts @ [cap]
        | Some z \<Rightarrow> (heap_of ts @ [cap])[z := (heap_of ts ! z)\<lparr>NumInstancesUnion := NumInstances (n + 1)\<rparr>])"
    and zero: "\<And>z. zero = Some z \<Longrightarrow> z < length ts \<and> NumInstancesUnion (heap_of ts ! z) = NumInstances n \<and> n + 1 < 2 ^ 16"
  shows "\<exists>st s'. link_offset E s caps' cap zero = Some (st, s') \<and>
    (if st = EFI_SUCCESS then caps_inv kv ov (ts @ [(d, i, off, ver)]) s' \<and> off \<notin> f_off ` set ts
     else st = EFI_OUT_OF_RESOURCES \<or> st = EFI_DEVICE_ERROR \<and> off \<in> f_off ` set ts)"
proof -
  have hs: "cap_heap s = heap_of ts" and ov: "oc_inv ov (CapHdrOffsets s)"
    and os: "set (oc_list ov (CapHdrOffsets s)) = (\<lambda>k. (f_off (ts ! k), k)) ` {..<length ts}"
    using inv by (simp_all add: caps_inv_def)
  have offs: "fst ` set (oc_list ov (CapHdrOffsets s)) = f_off ` set ts"
  proof -
    have "set ts = (!) ts ` {..<length ts}" by (auto simp: set_conv_nth)
    then show ?thesis unfolding os by (simp add: image_image)
  qed
  consider (ok) offs' where "OrderedCollectionInsert (offset_ops E) (CapHdrOffsets s) off (length ts) = (EFI_SUCCESS, offs', length ts)"
      "oc_inv ov offs'" "off \<notin> f_off ` set ts" "set (oc_list ov offs') = insert (off, length ts) (set (oc_list ov (CapHdrOffsets s)))"
    | (dup) q where "OrderedCollectionInsert (offset_ops E) (CapHdrOffsets s) off (length ts) = (EFI_ALREADY_STARTED, CapHdrOffsets s, q)"
      "off \<in> f_off ` set ts"
    | (mem) q where "OrderedCollectionInsert (offset_ops E) (CapHdrOffsets s) off (length ts) = (EFI_OUT_OF_RESOURCES, CapHdrOffsets s, q)"
    using oc_lawD(7) [OF law ov, of off "length ts"] unfolding offs [symmetric] by (metis fst_conv image_eqI)
  then show ?thesis
  proof cases
    case ok
    let ?s = "s\<lparr>cap_heap := heap_of (ts @ [(d, i, off, ver)]), Capabilities := caps', CapHdrOffsets := offs'\<rparr>"
    have "caps_inv kv ov (ts @ [(d, i, off, ver)]) ?s" by (rule caps_inv_snoc [OF inv cap(2,3) ok(3) caps ok(2,4)])
    moreover have "link_offset E s caps' cap zero = Some (EFI_SUCCESS, ?s)"
    proof (cases zero)
      case None
      with ok(1) cap(1) hs heap show ?thesis by (simp add: link_offset_def)
    next
      case (Some z)
      with zero [of z] ok(1) cap(1) hs heap show ?thesis by (simp add: link_offset_def Let_def nth_append)
    qed
    ultimately show ?thesis using ok(3) by auto
  next
    case dup
    with cap(1) hs show ?thesis by (simp add: link_offset_def)
  next
    case mem
    with cap(1) hs show ?thesis by (simp add: link_offset_def)
  qed
qed

lemma insert_pci_cap:
  assumes env: "env_ok E kv ov" and inv: "caps_inv kv ov ts s"
    and off: "off mod 4 = 0" "off < ConfigSpaceSize d" "d = PciCapExtended \<or> ver = 0"
  shows "\<exists>st s'. InsertPciCap E s d i off ver = Some (st, s') \<and>
    (if st = EFI_SUCCESS then caps_inv kv ov (ts @ [(d, i, off, ver)]) s' \<and> off \<notin> f_off ` set ts
     else st = EFI_OUT_OF_RESOURCES \<or> st = EFI_DEVICE_ERROR \<and> off \<in> f_off ` set ts)"
proof (cases "AllocatePool E (length (cap_heap s))")
  case False
  with off show ?thesis by (auto simp: InsertPciCap_def)
next
  case True
  have kl: "oc_law (key_ops E) kv" and ol: "oc_law (offset_ops E) ov" using env by (simp_all add: env_ok_def)
  have hs: "cap_heap s = heap_of ts" and kv: "oc_inv kv (Capabilities s)"
    and ks: "set (oc_list kv (Capabilities s)) = (\<lambda>k. (Key (cap_of ts k), k)) ` {..<length ts}"
    and ft: "found_ok ts" using inv by (simp_all add: caps_inv_def)
  let ?cap = "\<lparr>Key = PCI_CAP_KEY d i 0, NumInstancesUnion = NumInstances 1, cap_Offset = off, MaxSizeHint = 0, cap_Version = ver\<rparr>"
  let ?ins = "OrderedCollectionInsert (key_ops E)"
  have pre: "\<not> (off mod 4 \<noteq> 0 \<or> ConfigSpaceSize d \<le> off \<or> (d \<noteq> PciCapExtended \<and> ver \<noteq> 0))" using off by auto
  have present: "0 < cnt ts d i" if new: "(PCI_CAP_KEY d i 0, q) \<in> set (oc_list kv (Capabilities s))" for q
    using new key_unique(3) [of q ts d i 0] unfolding ks by auto
  have absent: "PCI_CAP_KEY d i 0 \<in> fst ` set (oc_list kv (Capabilities s))" if c: "0 < cnt ts d i"
    using first_kind [OF c] unfolding ks
    by (auto simp: cap_of_sel image_iff intro!: bexI [of _ "first_idx (same_cap d i) ts"])
  consider (new) caps' where "?ins (Capabilities s) (PCI_CAP_KEY d i 0) (length ts) = (EFI_SUCCESS, caps', length ts)" "oc_inv kv caps'"
      "cnt ts d i = 0" "set (oc_list kv caps') = insert (PCI_CAP_KEY d i 0, length ts) (set (oc_list kv (Capabilities s)))"
    | (again) z where "?ins (Capabilities s) (PCI_CAP_KEY d i 0) (length ts) = (EFI_ALREADY_STARTED, Capabilities s, z)"
      "(PCI_CAP_KEY d i 0, z) \<in> set (oc_list kv (Capabilities s))"
    | (mem) q where "?ins (Capabilities s) (PCI_CAP_KEY d i 0) (length ts) = (EFI_OUT_OF_RESOURCES, Capabilities s, q)"
    using oc_lawD(7) [OF kl kv, of "PCI_CAP_KEY d i 0" "length ts"] absent by (metis neq0_conv)
  then show ?thesis
  proof cases
    case new
    have "\<exists>st s'. link_offset E s caps' ?cap None = Some (st, s') \<and>
      (if st = EFI_SUCCESS then caps_inv kv ov (ts @ [(d, i, off, ver)]) s' \<and> off \<notin> f_off ` set ts
       else st = EFI_OUT_OF_RESOURCES \<or> st = EFI_DEVICE_ERROR \<and> off \<in> f_off ` set ts)"
      using new off heap_of_snoc_new [OF new(3), of off ver] by (intro link_offset_step [OF ol inv]) simp_all
    then show ?thesis using pre True new hs by (simp add: InsertPciCap_def)
  next
    case mem
    with pre True hs show ?thesis by (simp add: InsertPciCap_def)
  next
    case again
    have c: "0 < cnt ts d i" by (rule present [OF again(2)])
    have z: "z < length ts" "same_cap d i (ts ! z)" "cnt (take z ts) d i = 0"
      using again(2) key_unique [of z ts d i 0] unfolding ks by auto
    have fz: "first_idx (same_cap d i) ts = z" by (rule first_unique [OF z])
    have nu: "NumInstancesUnion (heap_of ts ! z) = NumInstances (cnt ts d i)"
      using z by (auto simp: nth_heap_of cap_of_def Let_def split: prod.split)
    let ?n = "cnt ts d i" and ?cap1 = "\<lparr>Key = PCI_CAP_KEY d i (cnt ts d i), NumInstancesUnion = InstanceZero z, cap_Offset = off, MaxSizeHint = 0, cap_Version = ver\<rparr>"
    have bound: "?n + 1 < 2 ^ 16" using cnt_le [of ts d i] found_bound [OF ft] by simp
    have fresh: "(PCI_CAP_KEY d i ?n, q) \<notin> set (oc_list kv (Capabilities s))" for q
      using key_unique(3) [of q ts d i ?n] unfolding ks by auto
    consider (ok) caps' where "?ins (Capabilities s) (PCI_CAP_KEY d i ?n) (length ts) = (EFI_SUCCESS, caps', length ts)" "oc_inv kv caps'"
        "set (oc_list kv caps') = insert (PCI_CAP_KEY d i ?n, length ts) (set (oc_list kv (Capabilities s)))"
      | (mem) q where "?ins (Capabilities s) (PCI_CAP_KEY d i ?n) (length ts) = (EFI_OUT_OF_RESOURCES, Capabilities s, q)"
      using oc_lawD(7) [OF kl kv, of "PCI_CAP_KEY d i ?n" "length ts"] fresh by blast
    then show ?thesis
    proof cases
      case ok
      have "\<exists>st s'. link_offset E s caps' ?cap1 (Some z) = Some (st, s') \<and>
        (if st = EFI_SUCCESS then caps_inv kv ov (ts @ [(d, i, off, ver)]) s' \<and> off \<notin> f_off ` set ts
         else st = EFI_OUT_OF_RESOURCES \<or> st = EFI_DEVICE_ERROR \<and> off \<in> f_off ` set ts)"
        using ok off z nu bound heap_of_snoc_again [OF c, of off ver] fz
        by (intro link_offset_step [OF ol inv, where n = ?n]) simp_all
      then show ?thesis using pre True again ok hs nu c by (simp add: InsertPciCap_def Let_def)
    next
      case mem
      with pre True again hs nu c show ?thesis by (simp add: InsertPciCap_def Let_def)
    qed
  qed
qed

section \<open>The walks\<close>

text \<open>The chains of headers in the configuration space, from one state of the device to another.\<close>

inductive normal_chain :: "('c, 'o, 'p) pci_env \<Rightarrow> 'p \<Rightarrow> nat \<Rightarrow> found list \<Rightarrow> 'p \<Rightarrow> bool" for E where
  stop: "normal_chain E d 0 [] d"
| header: "off \<noteq> 0 \<Longrightarrow> ReadConfig E d off 2 = (Inr hdr, d1) \<Longrightarrow> normal_chain E d1 (unat (hdr ! 1) AND 0xFC) ts d2 \<Longrightarrow>
    normal_chain E d off ((PciCapNormal, unat (hdr ! 0), off, 0) # ts) d2"

inductive extended_chain :: "('c, 'o, 'p) pci_env \<Rightarrow> 'p \<Rightarrow> nat \<Rightarrow> found list \<Rightarrow> 'p \<Rightarrow> bool" for E where
  stop: "extended_chain E d 0 [] d"
| unreadable: "ReadConfig E d PCI_MAX_CONFIG_OFFSET 4 = (Inl st, d1) \<Longrightarrow> extended_chain E d PCI_MAX_CONFIG_OFFSET [] d1"
| empty: "ReadConfig E d PCI_MAX_CONFIG_OFFSET 4 = (Inr hdr, d1) \<Longrightarrow> list_all (\<lambda>b. b = 0) hdr \<Longrightarrow>
    extended_chain E d PCI_MAX_CONFIG_OFFSET [] d1"
| header: "off \<noteq> 0 \<Longrightarrow> ReadConfig E d off 4 = (Inr hdr, d1) \<Longrightarrow> off \<noteq> PCI_MAX_CONFIG_OFFSET \<or> \<not> list_all (\<lambda>b. b = 0) hdr \<Longrightarrow>
    extended_chain E d1 (ext_NextCapabilityOffset hdr AND 0xFFC) ts d2 \<Longrightarrow>
    extended_chain E d off ((PciCapExtended, ext_CapabilityId hdr, off, ext_CapabilityVersion hdr) # ts) d2"

lemma and_bound: "(n :: nat) < 2 ^ k \<Longrightarrow> n AND m < 2 ^ k"
proof -
  assume "n < 2 ^ k"
  then have n: "take_bit k n = n" by (simp add: take_bit_nat_eq_self)
  have "bit n i \<Longrightarrow> i < k" for i using bit_take_bit_iff [of k n i] unfolding n by blast
  then have "take_bit k (n AND m) = n AND m" by (intro bit_eqI) (auto simp: bit_simps)
  then show ?thesis by (metis take_bit_nat_less_exp)
qed

lemma and_aligned: "m AND 3 = 0 \<Longrightarrow> ((n :: nat) AND m) mod 4 = 0"
proof -
  assume "m AND 3 = 0"
  then have "(n AND m) AND (2 ^ 2 - 1) = 0" by (simp add: and.assoc)
  then show ?thesis unfolding and_pow2_minus1 by simp
qed

lemma and_pointer: "(n :: nat) < 256 \<Longrightarrow> (n AND 0xFC) mod 4 = 0 \<and> n AND 0xFC < 256"
  using and_bound [of n 8 "0xFC"] and_aligned [of "0xFC" n] by simp

lemma and_pointer_ext: "(n :: nat) < 4096 \<Longrightarrow> (n AND 0xFFC) mod 4 = 0 \<and> n AND 0xFFC < 4096"
  using and_bound [of n 12 "0xFFC"] and_aligned [of "0xFFC" n] by simp

lemma normal_walk_returns:
  assumes env: "env_ok E kv ov" and "caps_inv kv ov ts s" and "off mod 4 = 0" and "off < 256"
  shows "\<exists>st s' d' e'. normal_walk E s d e off = Some (st, s', d', e') \<and>
    (st = EFI_SUCCESS \<longrightarrow> (\<exists>us. caps_inv kv ov (ts @ us) s' \<and> normal_chain E d off us d' \<and>
      (e' \<longleftrightarrow> e \<or> (\<exists>t \<in> set us. fst (snd t) = EFI_PCI_CAPABILITY_ID_PCIEXP))))"
  using assms(2-)
proof (induction "1024 - length ts" arbitrary: ts s d e off rule: less_induct)
  case less
  show ?case
  proof (cases "off = 0")
    case True
    then show ?thesis using less.prems(1) by (subst normal_walk.simps) (auto intro!: exI [of _ "[]"] normal_chain.stop)
  next
    case off: False
    obtain r d1 where r: "ReadConfig E d off 2 = (r, d1)" by fastforce
    have ro: "case r of Inl st \<Rightarrow> st \<noteq> EFI_SUCCESS | Inr bs \<Rightarrow> length bs = 2"
      using env r unfolding env_ok_def by (metis fst_conv)
    show ?thesis
    proof (cases r)
      case (Inl st)
      then show ?thesis using off r ro by (subst normal_walk.simps) simp
    next
      case (Inr hdr)
      with ro have l: "length hdr = 2" by simp
      let ?t = "(PciCapNormal, unat (hdr ! 0), off, 0)"
      obtain st s1 where ins: "InsertPciCap E s PciCapNormal (unat (hdr ! 0)) off 0 = Some (st, s1)"
        "st = EFI_SUCCESS \<Longrightarrow> caps_inv kv ov (ts @ [?t]) s1"
        using insert_pci_cap [OF env less.prems(1,2), of PciCapNormal 0 "unat (hdr ! 0)"] less.prems(3)
        by (auto simp: ConfigSpaceSize_def PCI_MAX_CONFIG_OFFSET_def split: if_splits)
      show ?thesis
      proof (cases "st = EFI_SUCCESS")
        case False
        then show ?thesis using off r Inr l ins(1) by (subst normal_walk.simps) simp
      next
        case True
        note inv1 = ins(2) [OF True]
        have "length (ts @ [?t]) \<le> 1024" using inv1 by (intro found_bound) (simp add: caps_inv_def)
        then have m: "1024 - length (ts @ [?t]) < 1024 - length ts" by simp
        let ?off = "unat (hdr ! 1) AND 0xFC" and ?e = "e \<or> unat (hdr ! 0) = EFI_PCI_CAPABILITY_ID_PCIEXP"
        have p: "?off mod 4 = 0" "?off < 256" using and_pointer [OF unat_byte_less] by blast+
        obtain st' s' d' e' where w: "normal_walk E s1 d1 ?e ?off = Some (st', s', d', e')"
          "st' = EFI_SUCCESS \<Longrightarrow> \<exists>us. caps_inv kv ov ((ts @ [?t]) @ us) s' \<and> normal_chain E d1 ?off us d' \<and>
            (e' \<longleftrightarrow> ?e \<or> (\<exists>t \<in> set us. fst (snd t) = EFI_PCI_CAPABILITY_ID_PCIEXP))"
          using less.hyps [OF m inv1 p] by blast
        have "normal_walk E s d e off = Some (st', s', d', e')"
          using off r Inr l ins(1) True w(1) by (subst normal_walk.simps) simp
        moreover have "\<exists>us. caps_inv kv ov (ts @ us) s' \<and> normal_chain E d off us d' \<and>
            (e' \<longleftrightarrow> e \<or> (\<exists>t \<in> set us. fst (snd t) = EFI_PCI_CAPABILITY_ID_PCIEXP))" if "st' = EFI_SUCCESS"
        proof -
          from w(2) [OF that] obtain us where "caps_inv kv ov ((ts @ [?t]) @ us) s'" "normal_chain E d1 ?off us d'"
            "e' \<longleftrightarrow> ?e \<or> (\<exists>t \<in> set us. fst (snd t) = EFI_PCI_CAPABILITY_ID_PCIEXP)" by blast
          then show ?thesis using normal_chain.header [of off E d hdr d1 us d'] off r Inr by (intro exI [of _ "?t # us"]) auto
        qed
        ultimately show ?thesis by blast
      qed
    qed
  qed
qed

lemma extended_walk_returns:
  assumes env: "env_ok E kv ov" and "caps_inv kv ov ts s" and "off mod 4 = 0" and "off < 4096"
  shows "\<exists>st s' d'. extended_walk E s d off = Some (st, s', d') \<and>
    (st = EFI_SUCCESS \<longrightarrow> (\<exists>us. caps_inv kv ov (ts @ us) s' \<and> extended_chain E d off us d'))"
  using assms(2-)
proof (induction "1024 - length ts" arbitrary: ts s d off rule: less_induct)
  case less
  show ?case
  proof (cases "off = 0")
    case True
    then show ?thesis using less.prems(1) by (subst extended_walk.simps) (auto intro!: exI [of _ "[]"] extended_chain.stop)
  next
    case off: False
    obtain r d1 where r: "ReadConfig E d off 4 = (r, d1)" by fastforce
    have ro: "case r of Inl st \<Rightarrow> st \<noteq> EFI_SUCCESS | Inr bs \<Rightarrow> length bs = 4"
      using env r unfolding env_ok_def by (metis fst_conv)
    show ?thesis
    proof (cases r)
      case (Inl st)
      then show ?thesis using off r ro less.prems(1)
        by (subst extended_walk.simps) (auto intro!: exI [of _ "[]"] extended_chain.unreadable)
    next
      case (Inr hdr)
      with ro have l: "length hdr = 4" by simp
      show ?thesis
      proof (cases "off = PCI_MAX_CONFIG_OFFSET \<and> list_all (\<lambda>b. b = 0) hdr")
        case True
        then show ?thesis using off r Inr l less.prems(1)
          by (subst extended_walk.simps) (auto intro!: exI [of _ "[]"] extended_chain.empty)
      next
        case nz: False
        let ?t = "(PciCapExtended, ext_CapabilityId hdr, off, ext_CapabilityVersion hdr)"
        obtain st s1 where ins: "InsertPciCap E s PciCapExtended (ext_CapabilityId hdr) off (ext_CapabilityVersion hdr) = Some (st, s1)"
          "st = EFI_SUCCESS \<Longrightarrow> caps_inv kv ov (ts @ [?t]) s1"
          using insert_pci_cap [OF env less.prems(1,2), of PciCapExtended "ext_CapabilityVersion hdr" "ext_CapabilityId hdr"] less.prems(3)
          by (auto simp: ConfigSpaceSize_def PCI_EXP_MAX_CONFIG_OFFSET_def split: if_splits)
        let ?off = "ext_NextCapabilityOffset hdr AND 0xFFC"
        show ?thesis
        proof (cases "st = EFI_SUCCESS \<and> \<not> (0 < ?off \<and> ?off < PCI_MAX_CONFIG_OFFSET)")
          case False
          then show ?thesis using off r Inr l nz ins(1) by (subst extended_walk.simps) (auto simp: Let_def)
        next
          case True
          then have inv1: "caps_inv kv ov (ts @ [?t]) s1" using ins(2) by blast
          have "length (ts @ [?t]) \<le> 1024" using inv1 by (intro found_bound) (simp add: caps_inv_def)
          then have m: "1024 - length (ts @ [?t]) < 1024 - length ts" by simp
          have "ext_NextCapabilityOffset hdr < 4096" by (simp add: ext_NextCapabilityOffset_def)
          then have p: "?off mod 4 = 0" "?off < 4096" using and_pointer_ext by blast+
          obtain st' s' d' where w: "extended_walk E s1 d1 ?off = Some (st', s', d')"
            "st' = EFI_SUCCESS \<Longrightarrow> \<exists>us. caps_inv kv ov ((ts @ [?t]) @ us) s' \<and> extended_chain E d1 ?off us d'"
            using less.hyps [OF m inv1 p] by blast
          have "extended_walk E s d off = Some (st', s', d')"
            using off r Inr l nz ins(1) True w(1) by (subst extended_walk.simps) (auto simp: Let_def)
          moreover have "\<exists>us. caps_inv kv ov (ts @ us) s' \<and> extended_chain E d off us d'" if "st' = EFI_SUCCESS"
          proof -
            from w(2) [OF that] obtain us where "caps_inv kv ov ((ts @ [?t]) @ us) s'" "extended_chain E d1 ?off us d'" by blast
            then show ?thesis using extended_chain.header [of off E d hdr d1 us d'] off r Inr nz by (intro exI [of _ "?t # us"]) auto
          qed
          ultimately show ?thesis by blast
        qed
      qed
    qed
  qed
qed

end
