(* ===== verification/PciCapEx.thy ===== *)
theory PciCapEx
  imports PciCapParse
begin

text \<open>
  The contracts can be kept: a sorted association list is an ordered collection, and a small device with two
  normal and two extended capabilities is parsed with it.
\<close>

definition ex_byte :: "nat \<Rightarrow> byte" where
  "ex_byte x = (case map_of [(0x06, 0x10), (0x34, 0x40), (0x40, 0x10), (0x41, 0x50), (0x50, 0x05),
     (0x100, 0x01), (0x102, 0x02), (0x103, 0x14), (0x140, 0x01), (0x142, 0x03)] x of None \<Rightarrow> 0 | Some b \<Rightarrow> b)"

definition ex_env :: "((PCI_CAP_KEY \<times> nat) list, (nat \<times> nat) list, unit) pci_env" where
  "ex_env = \<lparr>AllocatePool = \<lambda>_. True, key_ops = sorted_collection, offset_ops = sorted_collection,
     ReadConfig = \<lambda>d off n. (Inr (map ex_byte [off ..< off + n]), d), WriteConfig = \<lambda>d _ _ _. (EFI_SUCCESS, d)\<rparr>"

lemma ex_env_ok: "env_ok ex_env sorted_view sorted_view"
  by (simp add: env_ok_def ex_env_def sorted_collection_law)


definition ex_s0 :: "((PCI_CAP_KEY \<times> nat) list, (nat \<times> nat) list) caps" where
  "ex_s0 = \<lparr>cap_heap = [],
     Capabilities = [],
     CapHdrOffsets = []\<rparr>"

definition ex_s1 :: "((PCI_CAP_KEY \<times> nat) list, (nat \<times> nat) list) caps" where
  "ex_s1 = \<lparr>cap_heap = [\<lparr>Key = PCI_CAP_KEY PciCapNormal 16 0, NumInstancesUnion = NumInstances 1, cap_Offset = 64, MaxSizeHint = 0, cap_Version = 0\<rparr>],
     Capabilities = [(PCI_CAP_KEY PciCapNormal 16 0, 0)],
     CapHdrOffsets = [(64, 0)]\<rparr>"

definition ex_s2 :: "((PCI_CAP_KEY \<times> nat) list, (nat \<times> nat) list) caps" where
  "ex_s2 = \<lparr>cap_heap = [\<lparr>Key = PCI_CAP_KEY PciCapNormal 16 0, NumInstancesUnion = NumInstances 1, cap_Offset = 64, MaxSizeHint = 0, cap_Version = 0\<rparr>,
       \<lparr>Key = PCI_CAP_KEY PciCapNormal 5 0, NumInstancesUnion = NumInstances 1, cap_Offset = 80, MaxSizeHint = 0, cap_Version = 0\<rparr>],
     Capabilities = [(PCI_CAP_KEY PciCapNormal 5 0, 1), (PCI_CAP_KEY PciCapNormal 16 0, 0)],
     CapHdrOffsets = [(64, 0), (80, 1)]\<rparr>"

definition ex_s3 :: "((PCI_CAP_KEY \<times> nat) list, (nat \<times> nat) list) caps" where
  "ex_s3 = \<lparr>cap_heap = [\<lparr>Key = PCI_CAP_KEY PciCapNormal 16 0, NumInstancesUnion = NumInstances 1, cap_Offset = 64, MaxSizeHint = 0, cap_Version = 0\<rparr>,
       \<lparr>Key = PCI_CAP_KEY PciCapNormal 5 0, NumInstancesUnion = NumInstances 1, cap_Offset = 80, MaxSizeHint = 0, cap_Version = 0\<rparr>,
       \<lparr>Key = PCI_CAP_KEY PciCapExtended 1 0, NumInstancesUnion = NumInstances 1, cap_Offset = 256, MaxSizeHint = 0, cap_Version = 2\<rparr>],
     Capabilities = [(PCI_CAP_KEY PciCapNormal 5 0, 1), (PCI_CAP_KEY PciCapNormal 16 0, 0), (PCI_CAP_KEY PciCapExtended 1 0, 2)],
     CapHdrOffsets = [(64, 0), (80, 1), (256, 2)]\<rparr>"

definition ex_s4 :: "((PCI_CAP_KEY \<times> nat) list, (nat \<times> nat) list) caps" where
  "ex_s4 = \<lparr>cap_heap = [\<lparr>Key = PCI_CAP_KEY PciCapNormal 16 0, NumInstancesUnion = NumInstances 1, cap_Offset = 64, MaxSizeHint = 0, cap_Version = 0\<rparr>,
       \<lparr>Key = PCI_CAP_KEY PciCapNormal 5 0, NumInstancesUnion = NumInstances 1, cap_Offset = 80, MaxSizeHint = 0, cap_Version = 0\<rparr>,
       \<lparr>Key = PCI_CAP_KEY PciCapExtended 1 0, NumInstancesUnion = NumInstances 2, cap_Offset = 256, MaxSizeHint = 0, cap_Version = 2\<rparr>,
       \<lparr>Key = PCI_CAP_KEY PciCapExtended 1 1, NumInstancesUnion = InstanceZero 2, cap_Offset = 320, MaxSizeHint = 0, cap_Version = 3\<rparr>],
     Capabilities = [(PCI_CAP_KEY PciCapNormal 5 0, 1), (PCI_CAP_KEY PciCapNormal 16 0, 0), (PCI_CAP_KEY PciCapExtended 1 0, 2), (PCI_CAP_KEY PciCapExtended 1 1, 3)],
     CapHdrOffsets = [(64, 0), (80, 1), (256, 2), (320, 3)]\<rparr>"

definition ex_list :: "((PCI_CAP_KEY \<times> nat) list, (nat \<times> nat) list) caps" where
  "ex_list = \<lparr>cap_heap = [\<lparr>Key = PCI_CAP_KEY PciCapNormal 16 0, NumInstancesUnion = NumInstances 1, cap_Offset = 64, MaxSizeHint = 16, cap_Version = 0\<rparr>,
       \<lparr>Key = PCI_CAP_KEY PciCapNormal 5 0, NumInstancesUnion = NumInstances 1, cap_Offset = 80, MaxSizeHint = 176, cap_Version = 0\<rparr>,
       \<lparr>Key = PCI_CAP_KEY PciCapExtended 1 0, NumInstancesUnion = NumInstances 2, cap_Offset = 256, MaxSizeHint = 64, cap_Version = 2\<rparr>,
       \<lparr>Key = PCI_CAP_KEY PciCapExtended 1 1, NumInstancesUnion = InstanceZero 2, cap_Offset = 320, MaxSizeHint = 3776, cap_Version = 3\<rparr>],
     Capabilities = [(PCI_CAP_KEY PciCapNormal 5 0, 1), (PCI_CAP_KEY PciCapNormal 16 0, 0), (PCI_CAP_KEY PciCapExtended 1 0, 2), (PCI_CAP_KEY PciCapExtended 1 1, 3)],
     CapHdrOffsets = []\<rparr>"

lemma ex_read:
  "ReadConfig ex_env d 6 2 = (Inr [0x10, 0], d)" "ReadConfig ex_env d 0x34 (Suc 0) = (Inr [0x40], d)"
  "ReadConfig ex_env d 0x40 2 = (Inr [0x10, 0x50], d)" "ReadConfig ex_env d 0x50 2 = (Inr [0x05, 0], d)"
  "ReadConfig ex_env d 0x100 4 = (Inr [0x01, 0, 0x02, 0x14], d)" "ReadConfig ex_env d 0x140 4 = (Inr [0x01, 0, 0x03, 0], d)"
  by (simp_all add: ex_env_def ex_byte_def upt_rec_numeral)

lemmas ex_insert_defs = InsertPciCap_def link_offset_def ConfigSpaceSize_def PCI_MAX_CONFIG_OFFSET_def PCI_EXP_MAX_CONFIG_OFFSET_def
  Let_def sorted_collection_def ex_env_def less_PCI_CAP_KEY_def ComparePciCapKey_def domain_value_def

lemma ex_insert:
  "InsertPciCap ex_env ex_s0 PciCapNormal 16 64 0 = Some (EFI_SUCCESS, ex_s1)"
  "InsertPciCap ex_env ex_s1 PciCapNormal 5 80 0 = Some (EFI_SUCCESS, ex_s2)"
  "InsertPciCap ex_env ex_s2 PciCapExtended (Suc 0) 256 2 = Some (EFI_SUCCESS, ex_s3)"
  "InsertPciCap ex_env ex_s3 PciCapExtended (Suc 0) 320 3 = Some (EFI_SUCCESS, ex_s4)"
  by (simp_all add: ex_insert_defs ex_s0_def ex_s1_def ex_s2_def ex_s3_def ex_s4_def)

lemma ex_normal: "normal_walk ex_env ex_s0 d False 64 = Some (EFI_SUCCESS, ex_s2, d, True)"
proof -
  have "normal_walk ex_env ex_s2 d True 0 = Some (EFI_SUCCESS, ex_s2, d, True)" by (subst normal_walk.simps) simp
  then have "normal_walk ex_env ex_s1 d True 80 = Some (EFI_SUCCESS, ex_s2, d, True)"
    by (subst normal_walk.simps) (simp add: ex_read ex_insert)
  then show ?thesis by (subst normal_walk.simps) (simp add: ex_read ex_insert EFI_PCI_CAPABILITY_ID_PCIEXP_def)
qed

lemma ex_extended: "extended_walk ex_env ex_s2 d PCI_MAX_CONFIG_OFFSET = Some (EFI_SUCCESS, ex_s4, d)"
proof -
  note h = ext_CapabilityId_def ext_CapabilityVersion_def ext_NextCapabilityOffset_def PCI_MAX_CONFIG_OFFSET_def
  have "extended_walk ex_env ex_s4 d 0 = Some (EFI_SUCCESS, ex_s4, d)" by (subst extended_walk.simps) simp
  then have "extended_walk ex_env ex_s3 d 320 = Some (EFI_SUCCESS, ex_s4, d)"
    by (subst extended_walk.simps) (simp add: ex_read ex_insert h)
  then show ?thesis by (subst extended_walk.simps) (simp add: ex_read ex_insert h)
qed

lemma ex_hints: "all_hints ex_env ex_s4 = Some ex_list"
proof -
  note h = CalculatePciCapMaxSizeHint_def ConfigSpaceSize_def PCI_MAX_CONFIG_OFFSET_def PCI_EXP_MAX_CONFIG_OFFSET_def Let_def
    sorted_collection_def
  have o: "offset_ops ex_env = sorted_collection" by (simp add: ex_env_def)
  have "hint_loop ex_env ex_s4 64 0 = Some ex_list" unfolding ex_s4_def ex_list_def
    by (subst hint_loop.simps, simp add: o h, subst hint_loop.simps, simp add: o h,
        subst hint_loop.simps, simp add: o h, subst hint_loop.simps, simp add: o h)
  then show ?thesis by (simp add: all_hints_def o) (simp add: h ex_s4_def ex_list_def)
qed

lemma ex_parse: "PciCapListInit True ex_env () = Some (EFI_SUCCESS, Some ex_list, ())"
proof -
  have i: "OrderedCollectionInit (key_ops ex_env) = Some []" "OrderedCollectionInit (offset_ops ex_env) = Some []"
    by (simp_all add: ex_env_def sorted_collection_def)
  show ?thesis by (simp add: PciCapListInit_def i Let_def PCI_PRIMARY_STATUS_OFFSET_def PCI_CAPBILITY_POINTER_OFFSET_def
    EFI_PCI_STATUS_CAPABILITY_def ex_read ex_normal [unfolded ex_s0_def] ex_extended ex_hints)
qed

end
