(* ===== verification/PciCapProps.thy ===== *)
theory PciCapProps
  imports PciCapEx
begin

text \<open>
  Properties of the capability library: parsing ends on every device and finds the chain of headers; the
  regions of the capabilities are disjoint and inside the configuration space; lookups follow the order
  of the chain.
\<close>

section \<open>Size hints\<close>

definition size_hint :: "nat set \<Rightarrow> PCI_CAP_DOMAIN \<Rightarrow> nat \<Rightarrow> nat" where
  "size_hint offs d k = Min (insert (ConfigSpaceSize d) {x \<in> offs. k < x}) - k"

definition offset_entries :: "PCI_CAP list \<Rightarrow> (nat \<times> nat) list \<Rightarrow> bool" where
  "offset_entries h es \<longleftrightarrow> sorted_wrt (<) (map fst es) \<and> distinct (map snd es) \<and>
     (\<forall>(k, p) \<in> set es. p < length h \<and> cap_Offset (h ! p) = k \<and> k < ConfigSpaceSize (Domain (Key (h ! p))))"

lemma size_hint_last: "k < ConfigSpaceSize d \<Longrightarrow> \<forall>x \<in> offs. x \<le> k \<Longrightarrow> size_hint offs d k = ConfigSpaceSize d - k"
proof -
  assume "\<forall>x \<in> offs. x \<le> k"
  then have e: "{x \<in> offs. k < x} = {}" by auto
  show ?thesis unfolding size_hint_def e by simp
qed

lemma size_hint_next:
  assumes "k2 \<in> offs" "k < k2" "\<forall>x \<in> offs. k < x \<longrightarrow> k2 \<le> x" "finite offs"
  shows "size_hint offs d k = (if ConfigSpaceSize d \<le> k2 then ConfigSpaceSize d - k else k2 - k)"
proof -
  let ?S = "{x \<in> offs. k < x}"
  have "Min ?S = k2" using assms by (intro Min_eqI) auto
  moreover have "finite ?S" "?S \<noteq> {}" using assms by auto
  ultimately have "Min (insert (ConfigSpaceSize d) ?S) = min (ConfigSpaceSize d) k2" by simp
  then show ?thesis by (simp add: size_hint_def min_def)
qed

lemma hint_loop_sets_hints:
  assumes law: "oc_law (offset_ops E) ov"
    and "oc_inv ov (CapHdrOffsets s)" and "oc_list ov (CapHdrOffsets s) = (k, p) # ys" and "offset_entries (cap_heap s) ((k, p) # ys)"
  shows "\<exists>s'. hint_loop E s k p = Some s' \<and> Capabilities s' = Capabilities s \<and> length (cap_heap s') = length (cap_heap s) \<and>
    oc_inv ov (CapHdrOffsets s') \<and> oc_list ov (CapHdrOffsets s') = [] \<and>
    (\<forall>q. q \<notin> snd ` set ((k, p) # ys) \<longrightarrow> cap_heap s' ! q = cap_heap s ! q) \<and>
    (\<forall>(x, q) \<in> set ((k, p) # ys). cap_heap s' ! q = (cap_heap s ! q)
      \<lparr>MaxSizeHint := size_hint (fst ` set ((k, p) # ys)) (Domain (Key (cap_heap s ! q))) x\<rparr>)"
  using assms(2-)
proof (induction ys arbitrary: s k p)
  case Nil
  have n: "OrderedCollectionNext (offset_ops E) (CapHdrOffsets s) k = None"
    using oc_lawD(6) [OF law Nil.prems(1), of "[]" k p "[]"] Nil.prems(2) by simp
  have k: "p < length (cap_heap s)" "cap_Offset (cap_heap s ! p) = k" "k < ConfigSpaceSize (Domain (Key (cap_heap s ! p)))"
    using Nil.prems(3) by (simp_all add: offset_entries_def)
  then show ?case using n oc_lawD(5) [OF law Nil.prems(1), of k] Nil.prems(2)
    by (subst hint_loop.simps) (simp add: CalculatePciCapMaxSizeHint_def Let_def size_hint_last)
next
  case (Cons y zs)
  obtain k2 p2 where y: "y = (k2, p2)" by fastforce
  have n: "OrderedCollectionNext (offset_ops E) (CapHdrOffsets s) k = Some (k2, p2)"
    using oc_lawD(6) [OF law Cons.prems(1), of "[]" k p "y # zs"] Cons.prems(2) y by simp
  have k: "p < length (cap_heap s)" "cap_Offset (cap_heap s ! p) = k" "k < ConfigSpaceSize (Domain (Key (cap_heap s ! p)))"
    "p2 < length (cap_heap s)" "cap_Offset (cap_heap s ! p2) = k2" "k < k2" "p \<notin> snd ` set (y # zs)" "\<forall>x \<in> fst ` set (y # zs). k2 \<le> x" "\<forall>x \<in> fst ` set (y # zs). k < x"
    using Cons.prems(3) y by (auto simp: offset_entries_def)
  let ?offs = "fst ` set ((k, p) # y # zs)"
  let ?c = "(cap_heap s ! p)\<lparr>MaxSizeHint := size_hint ?offs (Domain (Key (cap_heap s ! p))) k\<rparr>"
  have "size_hint ?offs (Domain (Key (cap_heap s ! p))) k =
      (if ConfigSpaceSize (Domain (Key (cap_heap s ! p))) \<le> k2 then ConfigSpaceSize (Domain (Key (cap_heap s ! p))) - k else k2 - k)"
    using k(6,8) y by (intro size_hint_next) auto
  then have c: "CalculatePciCapMaxSizeHint (cap_heap s ! p) (Some (cap_heap s ! p2)) = Some ?c"
    using k by (simp add: CalculatePciCapMaxSizeHint_def Let_def)
  let ?s = "s\<lparr>CapHdrOffsets := OrderedCollectionDelete (offset_ops E) (CapHdrOffsets s) k, cap_heap := (cap_heap s)[p := ?c]\<rparr>"
  have "filter (\<lambda>e. fst e \<noteq> k) ((k, p) # y # zs) = y # zs" using k(9) by (auto simp: filter_id_conv)
  then have d: "oc_inv ov (CapHdrOffsets ?s)" "oc_list ov (CapHdrOffsets ?s) = (k2, p2) # zs"
    using oc_lawD(5) [OF law Cons.prems(1), of k] Cons.prems(2) y by simp_all
  have other: "q \<noteq> p \<Longrightarrow> cap_heap ?s ! q = cap_heap s ! q" for q by simp
  have "offset_entries (cap_heap ?s) ((k2, p2) # zs)"
    using Cons.prems(3) k(7) y unfolding offset_entries_def by (auto simp: nth_list_update)
  from Cons.IH [OF d this] obtain s' where s': "hint_loop E ?s k2 p2 = Some s'" "Capabilities s' = Capabilities s"
    "length (cap_heap s') = length (cap_heap s)" "oc_inv ov (CapHdrOffsets s')" "oc_list ov (CapHdrOffsets s') = []"
    "\<forall>q. q \<notin> snd ` set (y # zs) \<longrightarrow> cap_heap s' ! q = cap_heap ?s ! q"
    "\<forall>(x, q) \<in> set (y # zs). cap_heap s' ! q = (cap_heap ?s ! q)
      \<lparr>MaxSizeHint := size_hint (fst ` set (y # zs)) (Domain (Key (cap_heap ?s ! q))) x\<rparr>" using y by auto
  have "hint_loop E s k p = Some s'" using n c s'(1) by (subst hint_loop.simps) simp
  moreover have "cap_heap s' ! p = ?c" using s'(6) k(1,7) by simp
  moreover have "cap_heap s' ! q = (cap_heap s ! q)\<lparr>MaxSizeHint := size_hint ?offs (Domain (Key (cap_heap s ! q))) x\<rparr>"
    if xq: "(x, q) \<in> set (y # zs)" for x q
  proof -
    have "q \<noteq> p" using k(7) xq by force
    moreover have "k < x" using k(9) xq by force
    then have "{o' \<in> ?offs. x < o'} = {o' \<in> fst ` set (y # zs). x < o'}" by auto
    then have "size_hint ?offs d x = size_hint (fst ` set (y # zs)) d x" for d by (simp add: size_hint_def)
    ultimately show ?thesis using s'(7) xq by fastforce
  qed
  moreover have "cap_heap s' ! q = cap_heap s ! q" if "q \<notin> snd ` set ((k, p) # y # zs)" for q using s'(6) that by simp
  ultimately show ?case using s' by auto
qed

section \<open>The parsed list\<close>

definition caps_final :: "(PCI_CAP_KEY, 'c) oc_view \<Rightarrow> found list \<Rightarrow> ('c, 'o) caps \<Rightarrow> bool" where
  "caps_final kv ts s \<longleftrightarrow> found_ok ts \<and> length (cap_heap s) = length ts \<and>
     (\<forall>j < length ts. cap_heap s ! j = (cap_of ts j)\<lparr>MaxSizeHint := size_hint (f_off ` set ts) (fst (ts ! j)) (f_off (ts ! j))\<rparr>) \<and>
     oc_inv kv (Capabilities s) \<and> set (oc_list kv (Capabilities s)) = (\<lambda>k. (Key (cap_of ts k), k)) ` {..<length ts}"

lemma all_hints_final:
  assumes env: "env_ok E kv ov" and inv: "caps_inv kv ov ts s"
  shows "\<exists>s'. all_hints E s = Some s' \<and> caps_final kv ts s'"
proof -
  have law: "oc_law (offset_ops E) ov" using env by (simp add: env_ok_def)
  note i = inv [unfolded caps_inv_def]
  let ?es = "oc_list ov (CapHdrOffsets s)"
  have set: "set ?es = (\<lambda>k. (f_off (ts ! k), k)) ` {..<length ts}" and oi: "oc_inv ov (CapHdrOffsets s)" using i by blast+
  show ?thesis
  proof (cases ?es)
    case Nil
    with set have "ts = []" by auto
    then show ?thesis using i Nil oc_lawD(4) [OF law oi] by (simp add: all_hints_def caps_final_def heap_of_def)
  next
    case (Cons e ys)
    obtain k p where e: "e = (k, p)" by fastforce
    have srt: "sorted_wrt (<) (map fst ?es)" by (rule oc_lawD(2) [OF law oi])
    have "distinct (map snd ?es)"
    proof -
      have "inj_on snd (set ?es)" unfolding set by (auto simp: inj_on_def)
      moreover have "distinct ?es" using srt by (metis distinct_map strict_sorted_iff)
      ultimately show ?thesis by (simp add: distinct_map)
    qed
    moreover have "\<forall>(k, p) \<in> set ?es. p < length ts \<and> k = f_off (ts ! p) \<and> k < ConfigSpaceSize (fst (ts ! p))"
      using i unfolding set found_ok_def by auto
    ultimately have "offset_entries (cap_heap s) ((k, p) # ys)" using srt i Cons e
      by (auto simp: offset_entries_def nth_heap_of cap_of_sel)
    from hint_loop_sets_hints [OF law oi _ this] Cons e obtain s' where s': "hint_loop E s k p = Some s'" "Capabilities s' = Capabilities s"
      "length (cap_heap s') = length (cap_heap s)" "oc_inv ov (CapHdrOffsets s')" "oc_list ov (CapHdrOffsets s') = []"
      "\<forall>(x, q) \<in> set ?es. cap_heap s' ! q = (cap_heap s ! q)\<lparr>MaxSizeHint := size_hint (fst ` set ?es) (Domain (Key (cap_heap s ! q))) x\<rparr>"
      by auto
    have "fst ` set ?es = f_off ` set ts"
    proof -
      have "set ts = (!) ts ` {..<length ts}" by (auto simp: set_conv_nth)
      then show ?thesis unfolding set by (simp add: image_image)
    qed
    then have "cap_heap s' ! j = (cap_of ts j)\<lparr>MaxSizeHint := size_hint (f_off ` set ts) (fst (ts ! j)) (f_off (ts ! j))\<rparr>" if "j < length ts" for j
      using s'(6) that i unfolding set by (auto simp: nth_heap_of cap_of_sel)
    then have "caps_final kv ts s'" using s' i by (simp add: caps_final_def)
    moreover have "all_hints E s = Some s'"
      using oc_lawD(4) [OF law oi] oc_lawD(4) [OF law s'(4)] s'(1,5) Cons e by (simp add: all_hints_def)
    ultimately show ?thesis by blast
  qed
qed

text \<open>What the device says: the chain of normal headers, and for a PCI Express device the extended one.\<close>

definition device_caps :: "('c, 'o, 'p) pci_env \<Rightarrow> 'p \<Rightarrow> found list \<Rightarrow> 'p \<Rightarrow> bool" where
  "device_caps E d ts d' \<longleftrightarrow> (\<exists>reg d1. ReadConfig E d PCI_PRIMARY_STATUS_OFFSET 2 = (Inr reg, d1) \<and>
     (if le_value reg AND EFI_PCI_STATUS_CAPABILITY = 0 then ts = [] \<and> d' = d1
      else \<exists>ptr d2 ns d3. ReadConfig E d1 PCI_CAPBILITY_POINTER_OFFSET 1 = (Inr ptr, d2) \<and>
        normal_chain E d2 (unat (ptr ! 0) AND 0xFC) ns d3 \<and>
        (if \<exists>t \<in> set ns. fst (snd t) = EFI_PCI_CAPABILITY_ID_PCIEXP
         then \<exists>es. extended_chain E d3 PCI_MAX_CONFIG_OFFSET es d' \<and> ts = ns @ es else ts = ns \<and> d' = d3)))"

lemma caps_inv_empty:
  assumes "env_ok E kv ov" and "OrderedCollectionInit (key_ops E) = Some caps" and "OrderedCollectionInit (offset_ops E) = Some offs"
  shows "caps_inv kv ov [] \<lparr>cap_heap = [], Capabilities = caps, CapHdrOffsets = offs\<rparr>"
  using assms oc_lawD(1) [of "key_ops E" kv caps] oc_lawD(1) [of "offset_ops E" ov offs]
  by (simp add: caps_inv_def env_ok_def heap_of_def found_ok_def)

text \<open>From the normal list on.\<close>

lemma normal_part:
  assumes env: "env_ok E kv ov" and inv: "caps_inv kv ov [] s" and reg: "ReadConfig E d PCI_PRIMARY_STATUS_OFFSET 2 = (Inr reg, d1)"
  shows "\<exists>st s' d2 e. (if le_value reg AND EFI_PCI_STATUS_CAPABILITY \<noteq> 0
      then (case ReadConfig E d1 PCI_CAPBILITY_POINTER_OFFSET 1 of
          (Inl st, d2) \<Rightarrow> Some (st, s, d2, False)
        | (Inr ptr, d2) \<Rightarrow> if length ptr \<noteq> 1 then None else normal_walk E s d2 False (unat (ptr ! 0) AND 0xFC))
      else Some (EFI_SUCCESS, s, d1, False)) = Some (st, s', d2, e) \<and>
    (st = EFI_SUCCESS \<longrightarrow> (\<exists>ns. caps_inv kv ov ns s' \<and>
      (\<forall>ts d'. (if e then \<exists>es. extended_chain E d2 PCI_MAX_CONFIG_OFFSET es d' \<and> ts = ns @ es else ts = ns \<and> d' = d2) \<longrightarrow>
        device_caps E d ts d')))"
proof (cases "le_value reg AND EFI_PCI_STATUS_CAPABILITY = 0")
  case True
  then show ?thesis using inv reg by (auto simp: device_caps_def)
next
  case False
  obtain r d2 where r: "ReadConfig E d1 PCI_CAPBILITY_POINTER_OFFSET 1 = (r, d2)" by fastforce
  have ro: "case r of Inl st \<Rightarrow> st \<noteq> EFI_SUCCESS | Inr bs \<Rightarrow> length bs = 1"
    using env r unfolding env_ok_def by (metis fst_conv)
  show ?thesis
  proof (cases r)
    case (Inl st)
    with False r ro show ?thesis by auto
  next
    case (Inr ptr)
    let ?off = "unat (ptr ! 0) AND 0xFC"
    have p: "?off mod 4 = 0" "?off < 256" using and_pointer [OF unat_byte_less] by blast+
    obtain st s' d3 e where w: "normal_walk E s d2 False ?off = Some (st, s', d3, e)"
      "st = EFI_SUCCESS \<longrightarrow> (\<exists>ns. caps_inv kv ov ([] @ ns) s' \<and> normal_chain E d2 ?off ns d3 \<and>
        (e \<longleftrightarrow> False \<or> (\<exists>t \<in> set ns. fst (snd t) = EFI_PCI_CAPABILITY_ID_PCIEXP)))"
      using normal_walk_returns [OF env inv p] by blast
    then show ?thesis using False r Inr ro reg unfolding device_caps_def by auto
  qed
qed

lemma init_parses:
  assumes env: "env_ok E kv ov"
  shows "\<exists>st r d'. PciCapListInit list_ok E d = Some (st, r, d') \<and>
    (if st = EFI_SUCCESS then \<exists>s ts. r = Some s \<and> caps_final kv ts s \<and> device_caps E d ts d' else r = None)"
proof (cases "list_ok \<and> OrderedCollectionInit (key_ops E) \<noteq> None \<and> OrderedCollectionInit (offset_ops E) \<noteq> None")
  case False
  then show ?thesis by (auto simp: PciCapListInit_def split: option.splits)
next
  case True
  then obtain caps offs where io: "OrderedCollectionInit (key_ops E) = Some caps" "OrderedCollectionInit (offset_ops E) = Some offs" by auto
  let ?s = "\<lparr>cap_heap = [], Capabilities = caps, CapHdrOffsets = offs\<rparr>"
  have inv: "caps_inv kv ov [] ?s" by (rule caps_inv_empty [OF env io])
  obtain r d1 where r: "ReadConfig E d PCI_PRIMARY_STATUS_OFFSET 2 = (r, d1)" by fastforce
  have ro: "case r of Inl st \<Rightarrow> st \<noteq> EFI_SUCCESS | Inr bs \<Rightarrow> length bs = 2"
    using env r unfolding env_ok_def by (metis fst_conv)
  show ?thesis
  proof (cases r)
    case (Inl st)
    with True io r ro show ?thesis by (simp add: PciCapListInit_def)
  next
    case (Inr reg)
    obtain st s1 d2 e where n: "(if le_value reg AND EFI_PCI_STATUS_CAPABILITY \<noteq> 0
        then (case ReadConfig E d1 PCI_CAPBILITY_POINTER_OFFSET 1 of
            (Inl st, d2) \<Rightarrow> Some (st, ?s, d2, False)
          | (Inr ptr, d2) \<Rightarrow> if length ptr \<noteq> 1 then None else normal_walk E ?s d2 False (unat (ptr ! 0) AND 0xFC))
        else Some (EFI_SUCCESS, ?s, d1, False)) = Some (st, s1, d2, e)"
      "st = EFI_SUCCESS \<longrightarrow> (\<exists>ns. caps_inv kv ov ns s1 \<and>
        (\<forall>ts d'. (if e then \<exists>es. extended_chain E d2 PCI_MAX_CONFIG_OFFSET es d' \<and> ts = ns @ es else ts = ns \<and> d' = d2) \<longrightarrow>
          device_caps E d ts d'))"
      using normal_part [OF env inv, of d reg d1] r Inr by blast
    have unf: "PciCapListInit list_ok E d = Option.bind (Some (st, s1, d2, e)) (\<lambda>(st, s1, d2, express).
        if st \<noteq> EFI_SUCCESS then Some (st, None, d2)
        else Option.bind (if express then extended_walk E s1 d2 PCI_MAX_CONFIG_OFFSET else Some (EFI_SUCCESS, s1, d2)) (\<lambda>(st, s2, d3).
          if st \<noteq> EFI_SUCCESS then Some (st, None, d3) else map_option (\<lambda>s3. (EFI_SUCCESS, Some s3, d3)) (all_hints E s2)))"
      unfolding n(1) [symmetric] using True io r Inr ro by (simp add: PciCapListInit_def Let_def)
    show ?thesis
    proof (cases "st = EFI_SUCCESS")
      case False
      with unf show ?thesis by simp
    next
      case st: True
      with n(2) obtain ns where ns: "caps_inv kv ov ns s1"
        "\<forall>ts d'. (if e then \<exists>es. extended_chain E d2 PCI_MAX_CONFIG_OFFSET es d' \<and> ts = ns @ es else ts = ns \<and> d' = d2) \<longrightarrow>
          device_caps E d ts d'" by blast
      have x: "\<exists>st2 s2 d3. (if e then extended_walk E s1 d2 PCI_MAX_CONFIG_OFFSET else Some (EFI_SUCCESS, s1, d2)) = Some (st2, s2, d3) \<and>
          (st2 = EFI_SUCCESS \<longrightarrow> (\<exists>ts. caps_inv kv ov ts s2 \<and> device_caps E d ts d3))"
      proof (cases e)
        case True
        have "PCI_MAX_CONFIG_OFFSET mod 4 = 0" "PCI_MAX_CONFIG_OFFSET < 4096" by (simp_all add: PCI_MAX_CONFIG_OFFSET_def)
        from extended_walk_returns [OF env ns(1) this] True ns(2) show ?thesis by fastforce
      qed (use ns in auto)
      then obtain st2 s2 d3 where w: "(if e then extended_walk E s1 d2 PCI_MAX_CONFIG_OFFSET else Some (EFI_SUCCESS, s1, d2)) = Some (st2, s2, d3)"
        "st2 = EFI_SUCCESS \<longrightarrow> (\<exists>ts. caps_inv kv ov ts s2 \<and> device_caps E d ts d3)" by blast
      show ?thesis
      proof (cases "st2 = EFI_SUCCESS")
        case False
        with unf st w(1) show ?thesis by simp
      next
        case True
        with w(2) obtain ts where ts: "caps_inv kv ov ts s2" "device_caps E d ts d3" by blast
        obtain s3 where "all_hints E s2 = Some s3" "caps_final kv ts s3" using all_hints_final [OF env ts(1)] by blast
        with unf st w(1) True ts(2) show ?thesis by auto
      qed
    qed
  qed
qed

text \<open>
  C27: Parsing the capability lists ends on every device, whatever its configuration space holds and however reads of it
  vary: either with an error, or with exactly the headers that the chain of pointers visits, in this order, no offset twice.
\<close>

theorem pci_caps_parse:
  assumes env: "env_ok E kv ov"
  shows "\<exists>st r d'. PciCapListInit list_ok E d = Some (st, r, d') \<and>
    (if st = EFI_SUCCESS then \<exists>s ts. r = Some s \<and> caps_final kv ts s \<and> device_caps E d ts d' else r = None)"
  using assms by (rule init_parses)

theorem pci_caps_parse_witness:
  "\<exists>ts. PciCapListInit True ex_env () = Some (EFI_SUCCESS, Some ex_list, ()) \<and>
    caps_final sorted_view ts ex_list \<and> device_caps ex_env () ts ()"
  using pci_caps_parse [OF ex_env_ok, of True "()"] ex_parse by auto

section \<open>Regions\<close>

lemma size_hint_region:
  assumes ok: "found_ok ts" and k: "k < length ts"
  defines "hint \<equiv> size_hint (f_off ` set ts) (fst (ts ! k)) (f_off (ts ! k))"
  shows "0 < hint" "f_off (ts ! k) + hint \<le> ConfigSpaceSize (fst (ts ! k))"
    and "j < length ts \<Longrightarrow> f_off (ts ! k) < f_off (ts ! j) \<Longrightarrow> f_off (ts ! k) + hint \<le> f_off (ts ! j)"
proof -
  let ?S = "{x \<in> f_off ` set ts. f_off (ts ! k) < x}" and ?m = "Min (insert (ConfigSpaceSize (fst (ts ! k))) {x \<in> f_off ` set ts. f_off (ts ! k) < x})"
  have lt: "f_off (ts ! k) < ConfigSpaceSize (fst (ts ! k))" using ok k by (simp add: found_ok_def)
  then have m: "f_off (ts ! k) < ?m" by simp
  then have e: "f_off (ts ! k) + hint = ?m" by (simp add: hint_def size_hint_def)
  show "0 < hint" using m e by linarith
  show "f_off (ts ! k) + hint \<le> ConfigSpaceSize (fst (ts ! k))" unfolding e by simp
  show "f_off (ts ! k) + hint \<le> f_off (ts ! j)" if "j < length ts" "f_off (ts ! k) < f_off (ts ! j)"
    unfolding e using that by (intro Min_le) auto
qed

text \<open>
  C28: After a successful parse every capability has a region of its own: it is not empty, ends within the
  configuration space of its domain and overlaps no other. A read or write beyond it is refused without an access.
\<close>

theorem pci_cap_regions:
  assumes env: "env_ok E kv ov" and ok: "PciCapListInit list_ok E d = Some (EFI_SUCCESS, Some s, d')" and p: "p < length (cap_heap s)"
  defines "region \<equiv> \<lambda>q. {cap_Offset (cap_heap s ! q) ..< cap_Offset (cap_heap s ! q) + MaxSizeHint (cap_heap s ! q)}"
  shows "region p \<noteq> {} \<and> region p \<subseteq> {..< ConfigSpaceSize (Domain (Key (cap_heap s ! p)))} \<and>
    (\<forall>q < length (cap_heap s). q \<noteq> p \<longrightarrow> region p \<inter> region q = {}) \<and>
    (\<forall>off n. 0 < n \<longrightarrow> (if {cap_Offset (cap_heap s ! p) + off ..< cap_Offset (cap_heap s ! p) + off + n} \<subseteq> region p
       then PciCapRead E d' (cap_heap s ! p) off n = ReadConfig E d' (cap_Offset (cap_heap s ! p) + off) n
       else PciCapRead E d' (cap_heap s ! p) off n = (Inl EFI_BAD_BUFFER_SIZE, d') \<and>
         (\<forall>src. PciCapWrite E d' (cap_heap s ! p) off src n = (EFI_BAD_BUFFER_SIZE, d'))))"
proof -
  obtain ts where f: "caps_final kv ts s" using init_parses [OF env, of list_ok d] ok by auto
  then have ft: "found_ok ts" and l: "length (cap_heap s) = length ts" by (simp_all add: caps_final_def)
  have h: "cap_Offset (cap_heap s ! q) = f_off (ts ! q)" "Domain (Key (cap_heap s ! q)) = fst (ts ! q)"
    "MaxSizeHint (cap_heap s ! q) = size_hint (f_off ` set ts) (fst (ts ! q)) (f_off (ts ! q))" if "q < length ts" for q
    using f that by (simp_all add: caps_final_def cap_of_sel)
  have p': "p < length ts" using p l by simp
  note rp = size_hint_region [OF ft p']
  have "region p \<inter> region q = {}" if q: "q < length ts" "q \<noteq> p" for q
  proof -
    have "f_off (ts ! p) \<noteq> f_off (ts ! q)" using ft p' q nth_eq_iff_index_eq [of "map f_off ts" p q] by (simp add: found_ok_def)
    then show ?thesis using rp(3) [OF q(1)] size_hint_region(3) [OF ft q(1) p'] h [OF p'] h [OF q(1)]
      by (cases "f_off (ts ! p) < f_off (ts ! q)") (auto simp: region_def)
  qed
  moreover have "region p \<noteq> {}" "region p \<subseteq> {..< ConfigSpaceSize (Domain (Key (cap_heap s ! p)))}"
    using rp(1,2) h [OF p'] by (auto simp: region_def)
  ultimately show ?thesis using l by (auto simp: region_def PciCapRead_def PciCapWrite_def)
qed

theorem pci_cap_regions_witness:
  "{320 ..< 4096} \<inter> {256 ..< 320 :: nat} = {} \<and> PciCapRead ex_env () (cap_heap ex_list ! 2) 60 8 = (Inl EFI_BAD_BUFFER_SIZE, ())"
  using pci_cap_regions [OF ex_env_ok ex_parse, of 2] by (auto simp: ex_list_def PciCapRead_def)

section \<open>Lookup\<close>

lemma nth_occurrence: "n < cnt ts d i \<Longrightarrow> \<exists>p < length ts. same_cap d i (ts ! p) \<and> cnt (take p ts) d i = n"
proof (induction ts rule: rev_induct)
  case (snoc t ts)
  show ?case
  proof (cases "n < cnt ts d i")
    case True
    then obtain p where "p < length ts" "same_cap d i (ts ! p)" "cnt (take p ts) d i = n" using snoc.IH by blast
    then show ?thesis by (intro exI [of _ p]) (simp add: nth_append)
  next
    case False
    then have "same_cap d i t" "cnt ts d i = n" using snoc.prems by (auto simp: cnt_Cons split: if_splits)
    then show ?thesis by (intro exI [of _ "length ts"]) simp
  qed
qed simp

text \<open>The key of an instance is in the list exactly for the instances there are.\<close>

lemma key_entry:
  assumes "p < length ts" "same_cap d i (ts ! p)" "cnt (take p ts) d i = n"
  shows "Key (cap_of ts p) = PCI_CAP_KEY d i n"
  using assms by (simp add: cap_of_sel)

lemma find_entry:
  assumes env: "env_ok E kv ov" and f: "caps_final kv ts s"
  shows "OrderedCollectionFind (key_ops E) (Capabilities s) k = Some p \<longleftrightarrow> p < length ts \<and> Key (cap_of ts p) = k"
proof -
  have law: "oc_law (key_ops E) kv" using env by (simp add: env_ok_def)
  have oi: "oc_inv kv (Capabilities s)" and set: "set (oc_list kv (Capabilities s)) = (\<lambda>k. (Key (cap_of ts k), k)) ` {..<length ts}"
    using f by (simp_all add: caps_final_def)
  have "distinct (map fst (oc_list kv (Capabilities s)))" using oc_lawD(2) [OF law oi] strict_sorted_iff by blast
  then have "map_of (oc_list kv (Capabilities s)) k = Some p \<longleftrightarrow> (k, p) \<in> set (oc_list kv (Capabilities s))" by simp
  then show ?thesis unfolding oc_lawD(3) [OF law oi] set by auto
qed

lemma find_absent:
  assumes env: "env_ok E kv ov" and f: "caps_final kv ts s" and n: "\<not> n < cnt ts d i"
  shows "OrderedCollectionFind (key_ops E) (Capabilities s) (PCI_CAP_KEY d i n) = None"
proof (rule ccontr)
  assume "OrderedCollectionFind (key_ops E) (Capabilities s) (PCI_CAP_KEY d i n) \<noteq> None"
  then obtain p where "p < length ts" "Key (cap_of ts p) = PCI_CAP_KEY d i n" using find_entry [OF env f] by auto
  with n key_unique(3) show False by blast
qed

lemma get_info:
  assumes f: "caps_final kv ts s" and p: "p < length ts" "same_cap d i (ts ! p)" "cnt (take p ts) d i = n"
  shows "\<exists>info. PciCapGetInfo s p = Some (EFI_SUCCESS, info) \<and> info_NumInstances info = cnt ts d i \<and> info_Instance info = n \<and>
    (info_Domain info, info_CapId info, info_Offset info, info_Version info) = ts ! p"
proof -
  obtain off ver where t: "ts ! p = (d, i, off, ver)" using p(2) by (metis prod.collapse)
  have c: "0 < cnt ts d i" using cnt_take_less [OF p(1,2)] by simp
  note z = first_kind [OF c]
  have hz: "NumInstancesUnion (cap_heap s ! first_idx (same_cap d i) ts) = NumInstances (cnt ts d i)"
    using f z by (auto simp: caps_final_def cap_of_def Let_def split: prod.split)
  have zp: "first_idx (same_cap d i) ts = p" if "n = 0" using first_unique [OF p(1,2)] p(3) that by simp
  have hp: "cap_heap s ! p = (cap_of ts p)\<lparr>MaxSizeHint := size_hint (f_off ` set ts) (fst (ts ! p)) (f_off (ts ! p))\<rparr>"
    using f p(1) by (simp add: caps_final_def)
  show ?thesis using hz zp p(3) t unfolding PciCapGetInfo_def
    by (cases "n = 0") (simp_all add: hp cap_of_def Let_def)
qed

text \<open>
  C29: A capability is found by domain, identifier and instance exactly if the chain has that many of them: the
  instance is the one that comes at that place in the chain, and what is reported about it are its offset, its
  version and the number of all instances.
\<close>

theorem pci_cap_find:
  assumes env: "env_ok E kv ov" and ok: "PciCapListInit list_ok E d = Some (EFI_SUCCESS, Some s, d')"
  shows "\<exists>ts. device_caps E d ts d' \<and> (\<forall>D I n.
    if n < cnt ts D I
    then \<exists>p info. PciCapListFindCap E s D I n = (EFI_SUCCESS, Some p) \<and> p < length ts \<and> same_cap D I (ts ! p) \<and> cnt (take p ts) D I = n \<and>
      PciCapGetInfo s p = Some (EFI_SUCCESS, info) \<and> info_NumInstances info = cnt ts D I \<and> info_Instance info = n \<and>
      (info_Domain info, info_CapId info, info_Offset info, info_Version info) = ts ! p
    else PciCapListFindCap E s D I n = (EFI_NOT_FOUND, None))"
proof -
  obtain ts where f: "caps_final kv ts s" and dc: "device_caps E d ts d'" using init_parses [OF env, of list_ok d] ok by auto
  have "if n < cnt ts D I
    then \<exists>p info. PciCapListFindCap E s D I n = (EFI_SUCCESS, Some p) \<and> p < length ts \<and> same_cap D I (ts ! p) \<and> cnt (take p ts) D I = n \<and>
      PciCapGetInfo s p = Some (EFI_SUCCESS, info) \<and> info_NumInstances info = cnt ts D I \<and> info_Instance info = n \<and>
      (info_Domain info, info_CapId info, info_Offset info, info_Version info) = ts ! p
    else PciCapListFindCap E s D I n = (EFI_NOT_FOUND, None)" for D I n
  proof (cases "n < cnt ts D I")
    case True
    then obtain p where p: "p < length ts" "same_cap D I (ts ! p)" "cnt (take p ts) D I = n" using nth_occurrence by blast
    have "PciCapListFindCap E s D I n = (EFI_SUCCESS, Some p)"
      using find_entry [OF env f, of "PCI_CAP_KEY D I n" p] key_entry [OF p] p(1) by (simp add: PciCapListFindCap_def)
    with get_info [OF f p] p True show ?thesis by auto
  next
    case False
    with find_absent [OF env f False] show ?thesis by (simp add: PciCapListFindCap_def)
  qed
  with dc show ?thesis by blast
qed

theorem pci_cap_find_witness:
  "\<exists>ts. device_caps ex_env () ts () \<and> (\<forall>n. if n < cnt ts PciCapExtended 1
     then \<exists>p. PciCapListFindCap ex_env ex_list PciCapExtended 1 n = (EFI_SUCCESS, Some p)
     else PciCapListFindCap ex_env ex_list PciCapExtended 1 n = (EFI_NOT_FOUND, None))"
  using pci_cap_find [OF ex_env_ok ex_parse] by (metis (no_types, lifting))

text \<open>Following the entries of one kind.\<close>

lemma key_order:
  "PCI_CAP_KEY d i n < k \<longleftrightarrow> (if Domain k = d \<and> CapId k = i then n < Instance k
     else domain_value d < domain_value (Domain k) \<or> domain_value d = domain_value (Domain k) \<and> i < CapId k)"
  by (cases k; cases d) (auto simp: less_PCI_CAP_KEY_def ComparePciCapKey_def domain_value_def split: PCI_CAP_DOMAIN.splits)

lemma next_entry:
  assumes env: "env_ok E kv ov" and f: "caps_final kv ts s"
    and p: "p < length ts" "same_cap d i (ts ! p)" "cnt (take p ts) d i = n"
  shows "case OrderedCollectionNext (key_ops E) (Capabilities s) (PCI_CAP_KEY d i n) of
      None \<Rightarrow> cnt ts d i = n + 1
    | Some (k2, p2) \<Rightarrow> p2 < length ts \<and> k2 = Key (cap_of ts p2) \<and>
        (if n + 1 < cnt ts d i then k2 = PCI_CAP_KEY d i (n + 1) else \<not> (Domain k2 = d \<and> CapId k2 = i))"
proof -
  have law: "oc_law (key_ops E) kv" using env by (simp add: env_ok_def)
  let ?es = "oc_list kv (Capabilities s)"
  have oi: "oc_inv kv (Capabilities s)" and set: "set ?es = (\<lambda>k. (Key (cap_of ts k), k)) ` {..<length ts}"
    using f by (simp_all add: caps_final_def)
  have srt: "sorted_wrt (<) (map fst ?es)" by (rule oc_lawD(2) [OF law oi])
  have "(PCI_CAP_KEY d i n, p) \<in> set ?es" unfolding set using p key_entry [OF p] by (auto simp: image_iff)
  then obtain xs ys where es: "?es = xs @ (PCI_CAP_KEY d i n, p) # ys" by (meson split_list)
  note nx = oc_lawD(6) [OF law oi es]
  have after: "(k, q) \<in> set ys" if "(k, q) \<in> set ?es" "PCI_CAP_KEY d i n < k" for k q
    using that srt unfolding es by (auto simp: sorted_wrt_append)
  have succ: "\<exists>q. (PCI_CAP_KEY d i (n + 1), q) \<in> set ys" if nc: "n + 1 < cnt ts d i"
  proof -
    obtain q where q: "q < length ts" "same_cap d i (ts ! q)" "cnt (take q ts) d i = n + 1" using nth_occurrence [OF nc] by blast
    then have "(PCI_CAP_KEY d i (n + 1), q) \<in> set ?es" unfolding set using key_entry [OF q] by (auto simp: image_iff)
    then show ?thesis using after by (force simp: key_order)
  qed
  have lt: "n < cnt ts d i" using cnt_take_less [OF p(1,2)] p(3) by simp
  show ?thesis
  proof (cases ys)
    case Nil
    with succ nx lt show ?thesis by fastforce
  next
    case (Cons e zs)
    obtain k2 p2 where e: "e = (k2, p2)" by fastforce
    have k2: "PCI_CAP_KEY d i n < k2" "\<forall>(k, q) \<in> set zs. k2 < k" using srt unfolding es Cons e by (auto simp: sorted_wrt_append)
    have "(k2, p2) \<in> set ?es" unfolding es Cons e by simp
    then have m: "p2 < length ts" "k2 = Key (cap_of ts p2)" unfolding set by auto
    have "if n + 1 < cnt ts d i then k2 = PCI_CAP_KEY d i (n + 1) else \<not> (Domain k2 = d \<and> CapId k2 = i)"
    proof (cases "n + 1 < cnt ts d i")
      case True
      then obtain q where "(PCI_CAP_KEY d i (n + 1), q) \<in> set ys" using succ by blast
      then have "k2 = PCI_CAP_KEY d i (n + 1) \<or> k2 < PCI_CAP_KEY d i (n + 1)" using k2(2) Cons e by auto
      moreover have "\<not> k2 < PCI_CAP_KEY d i (n + 1)"
        using k2(1) by (cases k2) (auto simp: key_order split: if_splits)
      ultimately show ?thesis using True by simp
    next
      case False
      have "Instance k2 < cnt ts d i" if "Domain k2 = d" "CapId k2 = i"
        using key_unique(3) [OF m(1), of d i "Instance k2"] that m(2) by (metis PCI_CAP_KEY.collapse)
      then show ?thesis using False k2(1) by (auto simp: key_order)
    qed
    then show ?thesis using nx m(1) unfolding Cons e by (simp only: list.case option.case prod.case m(2) [symmetric])
  qed
qed

definition version_found :: "found list \<Rightarrow> PCI_CAP_DOMAIN \<Rightarrow> nat \<Rightarrow> nat \<Rightarrow> EFI_STATUS \<times> nat option" where
  "version_found ts d i v = (let j = first_idx (\<lambda>t. same_cap d i t \<and> v \<le> snd (snd (snd t))) ts
     in if j < length ts then (EFI_SUCCESS, Some j) else (EFI_NOT_FOUND, None))"

lemma version_loop_finds:
  assumes env: "env_ok E kv ov" and f: "caps_final kv ts s"
    and "p < length ts" "same_cap d i (ts ! p)" "cnt (take p ts) d i = n"
    and "\<forall>q < p. \<not> (same_cap d i (ts ! q) \<and> v \<le> snd (snd (snd (ts ! q))))"
  shows "version_loop E s d i v (PCI_CAP_KEY d i n) p = Some (version_found ts d i v)"
  using assms(3-)
proof (induction "cnt ts d i - n" arbitrary: n p rule: less_induct)
  case less
  have hp: "Domain (Key (cap_heap s ! q)) = fst (ts ! q)" "CapId (Key (cap_heap s ! q)) = fst (snd (ts ! q))"
    "cap_Version (cap_heap s ! q) = snd (snd (snd (ts ! q)))" if "q < length ts" for q
    using f that by (auto simp: caps_final_def cap_of_def Let_def split: prod.split)
  let ?P = "\<lambda>t :: found. same_cap d i t \<and> v \<le> snd (snd (snd t))"
  show ?case
  proof (cases "v \<le> snd (snd (snd (ts ! p)))")
    case True
    then have "first_idx ?P ts = p" using less.prems by (intro first_idx_unique) auto
    then show ?thesis using True less.prems hp [OF less.prems(1)] by (subst version_loop.simps) (simp add: version_found_def)
  next
    case False
    note nx = next_entry [OF env f less.prems(1-3)]
    have lt: "n < cnt ts d i" using cnt_take_less [OF less.prems(1,2)] less.prems(3) by simp
    show ?thesis
    proof (cases "n + 1 < cnt ts d i")
      case True
      then obtain p2 where p2: "OrderedCollectionNext (key_ops E) (Capabilities s) (PCI_CAP_KEY d i n) = Some (PCI_CAP_KEY d i (n + 1), p2)"
        "p2 < length ts" "Key (cap_of ts p2) = PCI_CAP_KEY d i (n + 1)" using nx by (auto split: option.splits)
      note u = key_unique(1,2) [OF p2(2,3)]
      have "\<not> ?P (ts ! q)" if q: "q < p2" for q
      proof
        assume P: "?P (ts ! q)"
        then have "\<not> q < p" "q \<noteq> p" using less.prems(4) False by auto
        then have pq: "p < q" "q < length ts" using q p2(2) by auto
        have "cnt (take q ts) d i < cnt (take p2 ts) d i"
          using cnt_take_less [of q "take p2 ts" d i] P q p2(2) by (simp add: min_absorb1)
        moreover have "cnt (take p ts) d i < cnt (take q ts) d i"
          using cnt_take_less [of p "take q ts" d i] less.prems(2) pq by (simp add: min_absorb1)
        ultimately show False using u(2) less.prems(3) by simp
      qed
      moreover have m: "cnt ts d i - (n + 1) < cnt ts d i - n" using lt by simp
      ultimately have "version_loop E s d i v (PCI_CAP_KEY d i (n + 1)) p2 = Some (version_found ts d i v)"
        using less.hyps [OF m p2(2) u] by blast
      then show ?thesis using False less.prems(2) hp [OF less.prems(1)] p2(1) by (subst version_loop.simps) simp
    next
      case last: False
      have none: "version_found ts d i v = (EFI_NOT_FOUND, None)"
      proof -
        have "\<not> ?P (ts ! q)" if q: "q < length ts" for q
        proof
          assume P: "?P (ts ! q)"
          then have "\<not> q < p" "q \<noteq> p" using less.prems(4) False by auto
          then have "cnt (take p ts) d i < cnt (take q ts) d i"
            using cnt_take_less [of p "take q ts" d i] less.prems(2) q by (simp add: min_absorb1)
          moreover have "cnt (take q ts) d i < cnt ts d i" using cnt_take_less [OF q] P by simp
          ultimately show False using last less.prems(3) by simp
        qed
        then have "\<not> first_idx ?P ts < length ts" using first_idx_hit [of ?P ts] by blast
        then show ?thesis by (simp add: version_found_def Let_def)
      qed
      show ?thesis
      proof (cases "OrderedCollectionNext (key_ops E) (Capabilities s) (PCI_CAP_KEY d i n)")
        case None
        then show ?thesis using False less.prems(2) hp [OF less.prems(1)] none by (subst version_loop.simps) simp
      next
        case (Some e)
        then obtain p2 where p2: "e = (Key (cap_of ts p2), p2)" "p2 < length ts"
          "\<not> (Domain (Key (cap_of ts p2)) = d \<and> CapId (Key (cap_of ts p2)) = i)" using nx last by (auto split: prod.splits)
        then have "version_loop E s d i v (Key (cap_of ts p2)) p2 = Some (EFI_NOT_FOUND, None)"
          using hp [OF p2(2)] by (subst version_loop.simps) (auto simp: cap_of_sel)
        then show ?thesis using False less.prems(2) hp [OF less.prems(1)] none Some p2(1) by (subst version_loop.simps) simp
      qed
    qed
  qed
qed

text \<open>
  The search by version returns, and finds the first capability of the chain with the domain and identifier
  whose version is high enough, if there is one.
\<close>

theorem pci_cap_find_version:
  assumes env: "env_ok E kv ov" and ok: "PciCapListInit list_ok E d = Some (EFI_SUCCESS, Some s, d')"
  shows "\<exists>ts. device_caps E d ts d' \<and> (\<forall>D I v. PciCapListFindCapVersion E s D I v = Some (version_found ts D I v))"
proof -
  obtain ts where f: "caps_final kv ts s" and dc: "device_caps E d ts d'" using init_parses [OF env, of list_ok d] ok by auto
  have "PciCapListFindCapVersion E s D I v = Some (version_found ts D I v)" for D I v
  proof (cases "0 < cnt ts D I")
    case True
    note z = first_kind [OF True]
    have "\<forall>q < first_idx (same_cap D I) ts. \<not> (same_cap D I (ts ! q) \<and> v \<le> snd (snd (snd (ts ! q))))"
      using first_idx_before [of _ "same_cap D I" ts] by blast
    from version_loop_finds [OF env f z this]
    have "version_loop E s D I v (PCI_CAP_KEY D I 0) (first_idx (same_cap D I) ts) = Some (version_found ts D I v)" .
    moreover have "OrderedCollectionFind (key_ops E) (Capabilities s) (PCI_CAP_KEY D I 0) = Some (first_idx (same_cap D I) ts)"
      using find_entry [OF env f, of "PCI_CAP_KEY D I 0" "first_idx (same_cap D I) ts"] key_entry [OF z] z(1) by blast
    ultimately show ?thesis by (simp add: PciCapListFindCapVersion_def)
  next
    case False
    then have "\<not> first_idx (\<lambda>t. same_cap D I t \<and> v \<le> snd (snd (snd t))) ts < length ts"
      using cnt_0_iff [of ts D I] by (auto simp: first_idx_less_iff)
    then show ?thesis using find_absent [OF env f False] by (simp add: PciCapListFindCapVersion_def version_found_def Let_def)
  qed
  with dc show ?thesis by blast
qed

theorem pci_cap_find_version_witness:
  "\<exists>ts. device_caps ex_env () ts () \<and> PciCapListFindCapVersion ex_env ex_list PciCapExtended 1 3 = Some (version_found ts PciCapExtended 1 3)"
  using pci_cap_find_version [OF ex_env_ok ex_parse] by blast

end
