(* ===== verification/PhysMem.thy ===== *)
theory PhysMem
  imports EfiTypes
begin

text \<open>
  Memory as one flat array of bytes, for the components in which copies, buffers and tables may
  overlap.
\<close>

section \<open>Flat memory\<close>

type_synonym phys_mem = "nat \<Rightarrow> byte"

definition mem_bytes :: "phys_mem \<Rightarrow> nat \<Rightarrow> nat \<Rightarrow> byte list" where
  "mem_bytes m a n = map m [a..<a + n]"

definition copy_range :: "phys_mem \<Rightarrow> nat \<Rightarrow> nat \<Rightarrow> nat \<Rightarrow> phys_mem" where
  "copy_range m dst src n = (\<lambda>a. if dst \<le> a \<and> a < dst + n then m (src + (a - dst)) else m a)"

text \<open>\<open>CopyMem\<close> asserts that both ranges end inside the address space.\<close>

definition CopyMem :: "nat \<Rightarrow> phys_mem \<Rightarrow> nat \<Rightarrow> nat \<Rightarrow> nat \<Rightarrow> phys_mem option" where
  "CopyMem maxa m dst src n =
     (if n = 0 then Some m
      else if maxa + 1 < dst + n \<or> maxa + 1 < src + n then None
      else Some (copy_range m dst src n))"

fun apart :: "nat \<times> nat \<Rightarrow> nat \<times> nat \<Rightarrow> bool" where
  "apart (a, n) (b, m) \<longleftrightarrow> a + n \<le> b \<or> b + m \<le> a"

lemma apart_sym: "apart r q \<longleftrightarrow> apart q r"
  by (cases r; cases q) auto

lemma mem_bytes_length [simp]: "length (mem_bytes m a n) = n"
  by (simp add: mem_bytes_def)

lemma mem_bytes_nth [simp]: "i < n \<Longrightarrow> mem_bytes m a n ! i = m (a + i)"
  by (simp add: mem_bytes_def)

lemma mem_bytes_cong: "(\<And>i. a \<le> i \<Longrightarrow> i < a + n \<Longrightarrow> m i = m' i) \<Longrightarrow> mem_bytes m a n = mem_bytes m' a n"
  by (simp add: mem_bytes_def)

lemma copy_range_same [simp]: "mem_bytes (copy_range m dst src n) dst n = mem_bytes m src n"
  by (rule nth_equalityI) (simp_all add: copy_range_def)

lemma copy_range_other [simp]: "apart (a, k) (dst, n) \<Longrightarrow> mem_bytes (copy_range m dst src n) a k = mem_bytes m a k"
  by (rule mem_bytes_cong) (auto simp: copy_range_def)

lemma copy_range_within:
  assumes "off + n \<le> k"
  shows "mem_bytes (copy_range m (a + off) src n) a k =
    take off (mem_bytes m a k) @ mem_bytes m src n @ drop (off + n) (mem_bytes m a k)"
  using assms by (intro nth_equalityI) (auto simp: copy_range_def nth_append)

end
