(* ===== verification/LockBox.thy ===== *)
theory LockBox
  imports PhysMem
begin

text \<open>
  Lock boxes: \<^verbatim>\<open>Library/LockBoxLib\<close>. Boot code saves buffers under a GUID; the
  copies survive a suspend to RAM, and the resume path restores them, to a buffer of the caller
  or in place. The table of entries is a fixed array in reserved memory, ended by the first
  entry of size 0; the copies live in NVS pages below 4 GiB, with the unused end of the last page
  kept for small boxes. Memory is one flat array of bytes, so that copies, callers' buffers and
  original places can overlap. A result \<open>None\<close> is a failed assertion.
\<close>

section \<open>State\<close>

type_synonym guid = "byte list"

record LOCK_BOX_ENTRY =
  lb_Guid :: guid
  OrigAddress :: nat
  CopyAddress :: nat
  lb_Size :: nat
  lb_Attributes :: nat

text \<open>
  The global structure at the start of the reserved storage, the entries behind it, the
  number of entries between the module's start and end pointers (both null before
  initialisation), and memory.
\<close>

record lockbox =
  lb_Signature :: nat
  SubPageBuffer :: nat
  SubPageRemaining :: nat
  Entries :: "LOCK_BOX_ENTRY list"
  NumEntries :: nat
  phys :: phys_mem

definition sizeof_LOCK_BOX_GLOBAL :: nat where "sizeof_LOCK_BOX_GLOBAL = 12"
definition sizeof_LOCK_BOX_ENTRY :: nat where "sizeof_LOCK_BOX_ENTRY = 44"

text \<open>SIGNATURE\_32('L', 'B', 'G', 'S').\<close>

definition LOCK_BOX_GLOBAL_SIGNATURE :: nat where
  "LOCK_BOX_GLOBAL_SIGNATURE = le_value [0x4C, 0x42, 0x47, 0x53]"

text \<open>
  The platform: the largest address, the attribute bit that allows restoring in place, the
  configured size of the storage, whether SMRAM is required, the page allocator of the boot
  services, the addresses it never hands out because they are in use, and
  what the library constructor finds.
\<close>

record lockbox_env =
  MAX_ADDRESS :: nat
  RESTORE_IN_PLACE :: nat
  LockBoxStorageSize :: nat
  SmmSmramRequire :: bool
  AllocatePages :: "lockbox \<Rightarrow> nat \<Rightarrow> nat option"
  in_use :: "nat \<Rightarrow> bool"
  S3Enabled :: bool
  LockBoxProtocolPresent :: bool
  InstallOk :: bool

section \<open>Operations\<close>

definition LockBoxLibInitialize :: "lockbox_env \<Rightarrow> lockbox \<Rightarrow> (EFI_STATUS \<times> lockbox) option" where
  "LockBoxLibInitialize env s =
     (if SmmSmramRequire env then None
      else if LockBoxStorageSize env < sizeof_LOCK_BOX_GLOBAL then Some (EFI_UNSUPPORTED, s)
      else let s1 = s\<lparr>NumEntries := (LockBoxStorageSize env - sizeof_LOCK_BOX_GLOBAL) div sizeof_LOCK_BOX_ENTRY\<rparr>
      in Some (EFI_SUCCESS,
           if lb_Signature s1 \<noteq> LOCK_BOX_GLOBAL_SIGNATURE
           then s1\<lparr>lb_Signature := LOCK_BOX_GLOBAL_SIGNATURE\<rparr> else s1))"

text \<open>The index of the header returned, \<open>None\<close> for the null pointer.\<close>

definition FindHeaderByGuid :: "lockbox \<Rightarrow> guid \<Rightarrow> nat option" where
  "FindHeaderByGuid s Guid =
     (let es = take (NumEntries s) (Entries s);
          i = first_idx (\<lambda>h. lb_Size h = 0 \<or> lb_Guid h = Guid) es
      in if i < length es then Some i else None)"

text \<open>The allocator of the DXE instance; address 0 is the null pointer.\<close>

definition AllocateMemoryBelow4G :: "lockbox_env \<Rightarrow> lockbox \<Rightarrow> nat \<Rightarrow> (nat \<times> lockbox) option" where
  "AllocateMemoryBelow4G env s Size =
     (let Pages = EFI_SIZE_TO_PAGES Size
      in if lb_Signature s \<noteq> LOCK_BOX_GLOBAL_SIGNATURE then None
         else if Size \<le> SubPageRemaining s then
           Some (SubPageBuffer s, s\<lparr>SubPageBuffer := add32 (SubPageBuffer s) (Size mod 2 ^ 32),
             SubPageRemaining := sub32 (SubPageRemaining s) (Size mod 2 ^ 32)\<rparr>)
         else (case AllocatePages env s Pages of
             None \<Rightarrow> Some (0, s)
           | Some Address \<Rightarrow>
               let s1 = s\<lparr>phys := (\<lambda>a. if Address \<le> a \<and> a < Address + Pages * EFI_PAGE_SIZE then 0 else phys s a)\<rparr>;
                   AllocRemaining = Pages * EFI_PAGE_SIZE - Size
               in Some (Address,
                    if SubPageRemaining s1 < AllocRemaining
                    then s1\<lparr>SubPageBuffer := (Address + Size) mod 2 ^ 32, SubPageRemaining := AllocRemaining mod 2 ^ 32\<rparr>
                    else s1)))"

definition AllocateAcpiNvsPool :: "lockbox_env \<Rightarrow> lockbox \<Rightarrow> nat \<Rightarrow> (nat \<times> lockbox) option" where
  "AllocateAcpiNvsPool env s AllocationSize = AllocateMemoryBelow4G env s AllocationSize"

definition LockBoxDxeLibInitialize :: "lockbox_env \<Rightarrow> lockbox \<Rightarrow> (EFI_STATUS \<times> lockbox) option" where
  "LockBoxDxeLibInitialize env s =
     Option.bind (LockBoxLibInitialize env s) (\<lambda>(Status, s1).
     if Status = EFI_SUCCESS \<and> S3Enabled env \<and> \<not> LockBoxProtocolPresent env \<and> \<not> InstallOk env
     then None else Some (Status, s1))"

definition SaveLockBox :: "lockbox_env \<Rightarrow> lockbox \<Rightarrow> guid option \<Rightarrow> nat \<Rightarrow> nat \<Rightarrow> (EFI_STATUS \<times> lockbox) option" where
  "SaveLockBox env s Guid Buffer Length =
     (case Guid of
        None \<Rightarrow> Some (EFI_INVALID_PARAMETER, s)
      | Some g \<Rightarrow>
          if Buffer = 0 \<or> Length = 0 then Some (EFI_INVALID_PARAMETER, s)
          else if 0xFFFFFFFF < Length then Some (EFI_OUT_OF_RESOURCES, s)
          else (case FindHeaderByGuid s g of
              None \<Rightarrow> Some (EFI_OUT_OF_RESOURCES, s)
            | Some i \<Rightarrow>
                if 0 < lb_Size (Entries s ! i) then Some (EFI_ALREADY_STARTED, s)
                else Option.bind (AllocateAcpiNvsPool env s Length) (\<lambda>(CopyBuffer, s1).
                  if CopyBuffer = 0 then Some (EFI_OUT_OF_RESOURCES, s1)
                  else let s2 = s1\<lparr>Entries := (Entries s1)[i := \<lparr>lb_Guid = g, OrigAddress = Buffer,
                         CopyAddress = CopyBuffer, lb_Size = Length mod 2 ^ 32, lb_Attributes = 0\<rparr>]\<rparr>
                  in map_option (\<lambda>m. (EFI_SUCCESS, s2\<lparr>phys := m\<rparr>))
                       (CopyMem (MAX_ADDRESS env) (phys s2) CopyBuffer Buffer Length))))"

definition SetLockBoxAttributes :: "lockbox \<Rightarrow> guid option \<Rightarrow> nat \<Rightarrow> EFI_STATUS \<times> lockbox" where
  "SetLockBoxAttributes s Guid Attributes =
     (case Guid of
        None \<Rightarrow> (EFI_INVALID_PARAMETER, s)
      | Some g \<Rightarrow> (case FindHeaderByGuid s g of
            None \<Rightarrow> (EFI_NOT_FOUND, s)
          | Some i \<Rightarrow>
              if lb_Size (Entries s ! i) = 0 then (EFI_NOT_FOUND, s)
              else (EFI_SUCCESS, s\<lparr>Entries := (Entries s)[i := (Entries s ! i)\<lparr>lb_Attributes := Attributes\<rparr>]\<rparr>)))"

definition UpdateLockBox ::
  "lockbox_env \<Rightarrow> lockbox \<Rightarrow> guid option \<Rightarrow> nat \<Rightarrow> nat \<Rightarrow> nat \<Rightarrow> (EFI_STATUS \<times> lockbox) option" where
  "UpdateLockBox env s Guid Offset Buffer Length =
     (case Guid of
        None \<Rightarrow> Some (EFI_INVALID_PARAMETER, s)
      | Some g \<Rightarrow>
          if Buffer = 0 \<or> Length = 0 then Some (EFI_INVALID_PARAMETER, s)
          else (case FindHeaderByGuid s g of
              None \<Rightarrow> Some (EFI_NOT_FOUND, s)
            | Some i \<Rightarrow>
                let h = Entries s ! i
                in if lb_Size h = 0 then Some (EFI_NOT_FOUND, s)
                   else if lb_Size h < Offset \<or> lb_Size h - Offset < Length then Some (EFI_BUFFER_TOO_SMALL, s)
                   else map_option (\<lambda>m. (EFI_SUCCESS, s\<lparr>phys := m\<rparr>))
                          (CopyMem (MAX_ADDRESS env) (phys s) (CopyAddress h + Offset) Buffer Length)))"

text \<open>Whether an entry may be restored in place, and whether its end is past the largest address.\<close>

definition restorable :: "lockbox_env \<Rightarrow> LOCK_BOX_ENTRY \<Rightarrow> bool" where
  "restorable env h \<longleftrightarrow> lb_Attributes h AND RESTORE_IN_PLACE env \<noteq> 0"

definition past_end :: "lockbox_env \<Rightarrow> LOCK_BOX_ENTRY \<Rightarrow> bool" where
  "past_end env h \<longleftrightarrow> MAX_ADDRESS env < (OrigAddress h + (lb_Size h - 1)) mod 2 ^ 64"

text \<open>\<open>Length\<close> is an optional pointer: what it points to before, and after.\<close>

definition RestoreLockBox ::
  "lockbox_env \<Rightarrow> lockbox \<Rightarrow> guid option \<Rightarrow> nat \<Rightarrow> nat option \<Rightarrow> (EFI_STATUS \<times> nat option \<times> lockbox) option" where
  "RestoreLockBox env s Guid Buffer Length =
     (case Guid of
        None \<Rightarrow> Some (EFI_INVALID_PARAMETER, Length, s)
      | Some g \<Rightarrow>
          if (Buffer = 0 \<and> Length \<noteq> None) \<or> (Buffer \<noteq> 0 \<and> Length = None)
          then Some (EFI_INVALID_PARAMETER, Length, s)
          else (case FindHeaderByGuid s g of
              None \<Rightarrow> Some (EFI_NOT_FOUND, Length, s)
            | Some i \<Rightarrow>
                let h = Entries s ! i
                in if lb_Size h = 0 then Some (EFI_NOT_FOUND, Length, s)
                   else if Buffer = 0 \<and> \<not> restorable env h then Some (EFI_WRITE_PROTECTED, Length, s)
                   else if Buffer = 0 \<and> past_end env h then Some (EFI_UNSUPPORTED, Length, s)
                   else let dst = (if Buffer = 0 then OrigAddress h else Buffer)
                   in (case Length of
                         Some n \<Rightarrow> if n < lb_Size h then Some (EFI_BUFFER_TOO_SMALL, Some (lb_Size h), s)
                           else map_option (\<lambda>m. (EFI_SUCCESS, Some (lb_Size h), s\<lparr>phys := m\<rparr>))
                             (CopyMem (MAX_ADDRESS env) (phys s) dst (CopyAddress h) (lb_Size h))
                       | None \<Rightarrow> map_option (\<lambda>m. (EFI_SUCCESS, None, s\<lparr>phys := m\<rparr>))
                             (CopyMem (MAX_ADDRESS env) (phys s) dst (CopyAddress h) (lb_Size h)))))"

fun restore_entries :: "lockbox_env \<Rightarrow> LOCK_BOX_ENTRY list \<Rightarrow> phys_mem \<Rightarrow> (EFI_STATUS \<times> phys_mem) option" where
  "restore_entries env [] m = Some (EFI_SUCCESS, m)"
| "restore_entries env (h # hs) m =
     (if lb_Size h = 0 then Some (EFI_SUCCESS, m)
      else if restorable env h then
        if past_end env h then Some (EFI_UNSUPPORTED, m)
        else Option.bind (CopyMem (MAX_ADDRESS env) m (OrigAddress h) (CopyAddress h) (lb_Size h))
               (restore_entries env hs)
      else restore_entries env hs m)"

definition RestoreAllLockBoxInPlace :: "lockbox_env \<Rightarrow> lockbox \<Rightarrow> (EFI_STATUS \<times> lockbox) option" where
  "RestoreAllLockBoxInPlace env s =
     map_option (\<lambda>(st, m). (st, s\<lparr>phys := m\<rparr>))
       (restore_entries env (take (NumEntries s) (Entries s)) (phys s))"

end
