(* ===== verification/LockBoxInv.thy ===== *)
theory LockBoxInv
  imports LockBox
begin

text \<open>
  The invariant of the lock boxes and what each operation does to the map from GUIDs to
  contents. The interface to a client that only saves and restores is a locale.
\<close>

section \<open>Invariant and contents\<close>

definition lb_used :: "lockbox \<Rightarrow> LOCK_BOX_ENTRY list" where
  "lb_used s = takeWhile (\<lambda>h. 0 < lb_Size h) (take (NumEntries s) (Entries s))"

definition entry_area :: "LOCK_BOX_ENTRY \<Rightarrow> nat \<times> nat" where
  "entry_area h = (CopyAddress h, lb_Size h)"

definition lb_areas :: "lockbox \<Rightarrow> (nat \<times> nat) list" where
  "lb_areas s = (SubPageBuffer s, SubPageRemaining s) # map entry_area (lb_used s)"

fun in_area :: "nat \<times> nat \<Rightarrow> nat \<Rightarrow> bool" where
  "in_area (a, n) i \<longleftrightarrow> a \<le> i \<and> i < a + n"

text \<open>
  The used entries are a prefix of the table and have distinct GUIDs; their copies and the free
  rest of the last page are pairwise disjoint, below 4 GiB, and in nobody else's memory.
\<close>

fun area_ok :: "lockbox_env \<Rightarrow> nat \<times> nat \<Rightarrow> bool" where
  "area_ok env (a, n) \<longleftrightarrow> (0 < n \<longrightarrow> 0 < a) \<and> a + n \<le> 2 ^ 32 \<and> (\<forall>i. a \<le> i \<and> i < a + n \<longrightarrow> \<not> in_use env i)"

definition lb_inv :: "lockbox_env \<Rightarrow> lockbox \<Rightarrow> bool" where
  "lb_inv env s \<longleftrightarrow>
     NumEntries s \<le> length (Entries s) \<and> lb_Signature s = LOCK_BOX_GLOBAL_SIGNATURE \<and>
     (\<forall>h \<in> set (drop (length (lb_used s)) (take (NumEntries s) (Entries s))). lb_Size h = 0) \<and>
     distinct (map lb_Guid (lb_used s)) \<and> sorted_wrt apart (lb_areas s) \<and>
     (\<forall>r \<in> set (lb_areas s). area_ok env r)"

text \<open>What the page allocator promises: pages below 4 GiB that nobody uses.\<close>

definition pages_fresh :: "lockbox_env \<Rightarrow> bool" where
  "pages_fresh env \<longleftrightarrow> (\<forall>s n a. AllocatePages env s n = Some a \<longrightarrow>
     area_ok env (a, n * EFI_PAGE_SIZE) \<and> (\<forall>r \<in> set (lb_areas s). apart r (a, n * EFI_PAGE_SIZE)))"

definition lb_entry :: "lockbox \<Rightarrow> guid \<Rightarrow> LOCK_BOX_ENTRY option" where
  "lb_entry s g = find (\<lambda>h. lb_Guid h = g) (lb_used s)"

definition lb_content :: "lockbox \<Rightarrow> guid \<Rightarrow> byte list option" where
  "lb_content s g = map_option (\<lambda>h. mem_bytes (phys s) (CopyAddress h) (lb_Size h)) (lb_entry s g)"

lemma first_idx_split: "first_idx (\<lambda>x. P x \<or> Q x) xs = first_idx Q (takeWhile (\<lambda>x. \<not> P x) xs)"
  by (induction xs) (auto simp: first_idx_Cons)

lemma find_first_idx: "find P xs = (if first_idx P xs < length xs then Some (xs ! first_idx P xs) else None)"
  by (induction xs) (auto simp: first_idx_Cons)

text \<open>A used entry of the table is at the index that the search returns.\<close>

lemma used_take: "lb_used s = take (length (lb_used s)) (take (NumEntries s) (Entries s))"
  unfolding lb_used_def by (rule takeWhile_eq_take)

lemma used_le: "length (lb_used s) \<le> min (NumEntries s) (length (Entries s))"
  using length_takeWhile_le [of "\<lambda>h. 0 < lb_Size h" "take (NumEntries s) (Entries s)"] by (auto simp: lb_used_def)

lemma used_nth: "i < length (lb_used s) \<Longrightarrow> lb_used s ! i = Entries s ! i"
  using used_take [of s] used_le [of s] by (metis min.strict_boundedE nth_take order.strict_trans2)

lemma used_size: "h \<in> set (lb_used s) \<Longrightarrow> 0 < lb_Size h"
  by (auto simp: lb_used_def dest: set_takeWhileD)

lemma find_header_first:
  "FindHeaderByGuid s g = (let i = first_idx (\<lambda>h. lb_Guid h = g) (lb_used s)
     in if i < min (NumEntries s) (length (Entries s)) then Some i else None)"
  using first_idx_split [of "\<lambda>h. lb_Size h = 0" "\<lambda>h. lb_Guid h = g" "take (NumEntries s) (Entries s)"]
  by (simp add: FindHeaderByGuid_def Let_def lb_used_def min.commute)

lemma find_header_used:
  assumes "lb_entry s g = Some h"
  obtains i where "FindHeaderByGuid s g = Some i" "i < length (lb_used s)" "Entries s ! i = h" "lb_Guid h = g"
proof -
  define i where "i = first_idx (\<lambda>h. lb_Guid h = g) (lb_used s)"
  from assms have i: "i < length (lb_used s)" "lb_used s ! i = h"
    by (auto simp: lb_entry_def find_first_idx i_def split: if_splits)
  have "lb_Guid h = g" using first_idx_hit [of "\<lambda>h. lb_Guid h = g" "lb_used s"] i by (simp add: i_def)
  moreover have "FindHeaderByGuid s g = Some i"
    using used_le [of s] i(1) by (simp add: find_header_first flip: i_def)
  ultimately show thesis using that [of i] i used_nth [OF i(1)] by simp
qed

lemma find_header_unused:
  assumes "lb_entry s g = None" and "lb_inv env s"
  shows "FindHeaderByGuid s g = (if length (lb_used s) < NumEntries s then Some (length (lb_used s)) else None)"
    and "length (lb_used s) < NumEntries s \<Longrightarrow> lb_Size (Entries s ! length (lb_used s)) = 0"
proof -
  have "first_idx (\<lambda>h. lb_Guid h = g) (lb_used s) = length (lb_used s)"
    using assms(1) first_idx_le [of "\<lambda>h. lb_Guid h = g" "lb_used s"] by (auto simp: lb_entry_def find_first_idx split: if_splits)
  then show "FindHeaderByGuid s g = (if length (lb_used s) < NumEntries s then Some (length (lb_used s)) else None)"
    using assms(2) by (simp add: find_header_first lb_inv_def)
  assume l: "length (lb_used s) < NumEntries s"
  with assms(2) have "take (NumEntries s) (Entries s) ! length (lb_used s) \<in> set (drop (length (lb_used s)) (take (NumEntries s) (Entries s)))"
    by (auto simp: lb_inv_def in_set_conv_nth intro!: exI [of _ 0])
  with assms(2) l show "lb_Size (Entries s ! length (lb_used s)) = 0" by (auto simp: lb_inv_def)
qed

section \<open>Allocation\<close>

lemma apart_in_area: "apart r q \<Longrightarrow> in_area r i \<Longrightarrow> \<not> in_area q i"
  by (cases r; cases q) auto

lemma apart_sub: "apart r (a, n) \<Longrightarrow> a \<le> b \<Longrightarrow> b + k \<le> a + n \<Longrightarrow> apart r (b, k)"
  by (cases r) auto

lemma area_ok_sub: "area_ok env (a, n) \<Longrightarrow> a \<le> b \<Longrightarrow> b + k \<le> a + n \<Longrightarrow> area_ok env (b, k)"
  by auto

text \<open>What allocation does to the rest of the state.\<close>

definition alloc_frame :: "lockbox_env \<Rightarrow> lockbox \<Rightarrow> lockbox \<Rightarrow> bool" where
  "alloc_frame env s s1 \<longleftrightarrow> Entries s1 = Entries s \<and> NumEntries s1 = NumEntries s \<and> lb_Signature s1 = lb_Signature s \<and>
     (\<forall>i. in_use env i \<or> (\<exists>h \<in> set (lb_used s). in_area (entry_area h) i) \<longrightarrow> phys s1 i = phys s i)"

definition alloc_areas :: "lockbox_env \<Rightarrow> lockbox \<Rightarrow> lockbox \<Rightarrow> nat \<times> nat \<Rightarrow> bool" where
  "alloc_areas env s s1 r \<longleftrightarrow>
     (let q = (SubPageBuffer s1, SubPageRemaining s1)
      in area_ok env r \<and> area_ok env q \<and> apart q r \<and> (\<forall>h \<in> set (lb_used s). apart (entry_area h) r \<and> apart (entry_area h) q))"

lemma inv_area:
  assumes "lb_inv env s"
  shows "area_ok env (SubPageBuffer s, SubPageRemaining s)" "h \<in> set (lb_used s) \<Longrightarrow> area_ok env (entry_area h)"
    "h \<in> set (lb_used s) \<Longrightarrow> apart (entry_area h) (SubPageBuffer s, SubPageRemaining s)"
  using assms by (auto simp: lb_inv_def lb_areas_def apart_sym)

lemma alloc_subpage:
  assumes inv: "lb_inv env s" and n: "0 < n" "n \<le> SubPageRemaining s"
  shows "\<exists>s1. AllocateMemoryBelow4G env s n = Some (SubPageBuffer s, s1) \<and> 0 < SubPageBuffer s \<and>
    alloc_frame env s s1 \<and> alloc_areas env s s1 (SubPageBuffer s, n)"
proof -
  let ?b = "SubPageBuffer s" and ?k = "SubPageRemaining s"
  note q = inv_area [OF inv]
  from q(1) n have b: "0 < ?b" "?b + ?k \<le> 2 ^ 32" by auto
  with n have w: "n mod 2 ^ 32 = n" "sub32 ?k n = ?k - n" "add32 ?b n = (if n = ?k \<and> ?b + ?k = 2 ^ 32 then 0 else ?b + n)"
    by (auto simp: arith32 add32_def)
  define s1 where "s1 = s\<lparr>SubPageBuffer := add32 ?b n, SubPageRemaining := ?k - n\<rparr>"
  have "AllocateMemoryBelow4G env s n = Some (?b, s1)"
    using inv n(2) by (simp only: AllocateMemoryBelow4G_def Let_def w(1,2)) (simp add: lb_inv_def s1_def)
  moreover have "alloc_areas env s s1 (?b, n)"
  proof -
    have r: "area_ok env (?b, n)" by (rule area_ok_sub [OF q(1)]) (use n in auto)
    have c: "add32 ?b n = 0 \<and> ?k - n = 0 \<or> add32 ?b n = ?b + n" using w(3) by auto
    have "area_ok env (add32 ?b n, ?k - n)" using q(1) c n by (auto simp del: add32_bound)
    moreover have "apart (add32 ?b n, ?k - n) (?b, n)" using c by auto
    moreover have "apart (entry_area h) (?b, n) \<and> apart (entry_area h) (add32 ?b n, ?k - n)" if "h \<in> set (lb_used s)" for h
      using q(3) [OF that] c n(2) by (cases "entry_area h") auto
    ultimately show ?thesis using r by (simp add: alloc_areas_def Let_def s1_def)
  qed
  ultimately show ?thesis using b by (auto simp: alloc_frame_def s1_def)
qed

lemma alloc_pages:
  assumes inv: "lb_inv env s" and fr: "pages_fresh env" and n: "0 < n" "SubPageRemaining s < n" "n < 2 ^ 32"
    and al: "AllocatePages env s (EFI_SIZE_TO_PAGES n) = Some a"
  shows "\<exists>s1. AllocateMemoryBelow4G env s n = Some (a, s1) \<and> 0 < a \<and> alloc_frame env s s1 \<and> alloc_areas env s s1 (a, n)"
proof -
  let ?p = "EFI_SIZE_TO_PAGES n * EFI_PAGE_SIZE"
  note q = inv_area [OF inv]
  have p: "area_ok env (a, ?p)" "\<And>r. r \<in> set (lb_areas s) \<Longrightarrow> apart r (a, ?p)" using fr al unfolding pages_fresh_def by blast+
  have le: "n \<le> ?p" by (rule pages_cover)
  have "0 < ?p" using n(1) le by linarith
  with p(1) have a: "0 < a" "a + ?p \<le> 2 ^ 32" by (simp_all only: area_ok.simps)
  define k where "k = ?p - n"
  define m where "m = (\<lambda>i. if a \<le> i \<and> i < a + ?p then 0 else phys s i)"
  define s1 where "s1 = (if SubPageRemaining s < k then s\<lparr>phys := m, SubPageBuffer := a + n, SubPageRemaining := k\<rparr> else s\<lparr>phys := m\<rparr>)"
  have w: "SubPageRemaining s < k \<Longrightarrow> (a + n) mod 2 ^ 32 = a + n" "k mod 2 ^ 32 = k" using a n(1) le by (auto simp: k_def)
  have "AllocateMemoryBelow4G env s n = Some (a, s1)"
    using inv n(2) al w by (auto simp: AllocateMemoryBelow4G_def Let_def lb_inv_def s1_def m_def k_def)
  moreover have "alloc_frame env s s1"
  proof -
    have "m i = phys s i" if "in_use env i \<or> (\<exists>h \<in> set (lb_used s). in_area (entry_area h) i)" for i
    proof -
      have "\<not> in_area (a, ?p) i" using that
      proof
        assume "in_use env i"
        with p(1) show ?thesis by auto
      next
        assume "\<exists>h \<in> set (lb_used s). in_area (entry_area h) i"
        then obtain h where h: "h \<in> set (lb_used s)" "in_area (entry_area h) i" by blast
        from h(1) have "apart (entry_area h) (a, ?p)" by (intro p(2)) (simp add: lb_areas_def)
        from apart_in_area [OF this h(2)] show ?thesis .
      qed
      then show ?thesis by (auto simp: m_def)
    qed
    then show ?thesis by (simp add: alloc_frame_def s1_def)
  qed
  moreover have "alloc_areas env s s1 (a, n)"
  proof -
    have r: "area_ok env (a, n)" "area_ok env (a + n, k)" by (rule area_ok_sub [OF p(1)]; use le in \<open>simp add: k_def\<close>)+
    have "apart (entry_area h) (a, n)" "apart (entry_area h) (a + n, k)" if "h \<in> set (lb_used s)" for h
      using p(2) [of "entry_area h"] that le by (auto simp: lb_areas_def k_def intro: apart_sub)
    moreover have "apart (SubPageBuffer s, SubPageRemaining s) (a, n)"
      using p(2) [of "(SubPageBuffer s, SubPageRemaining s)"] le by (auto simp: lb_areas_def)
    ultimately show ?thesis using r q by (auto simp: alloc_areas_def Let_def s1_def)
  qed
  ultimately show ?thesis using a by blast
qed

section \<open>Saving\<close>

lemma save_used:
  assumes inv: "lb_inv env s" and k: "length (lb_used s) < NumEntries s" and h: "0 < lb_Size h"
    and s': "NumEntries s' = NumEntries s" "Entries s' = (Entries s)[length (lb_used s) := h]"
  shows "lb_used s' = lb_used s @ [h]"
    and "\<forall>x \<in> set (drop (length (lb_used s')) (take (NumEntries s') (Entries s'))). lb_Size x = 0"
proof -
  let ?es = "take (NumEntries s) (Entries s)" and ?k = "length (lb_used s)"
  have len: "?k < length ?es" using inv k by (simp add: lb_inv_def)
  have rest: "\<forall>x \<in> set (drop (Suc ?k) ?es). lb_Size x = 0"
  proof
    fix x assume "x \<in> set (drop (Suc ?k) ?es)"
    then have "x \<in> set (drop ?k ?es)" using set_drop_subset_set_drop [of ?k "Suc ?k" ?es] by auto
    with inv show "lb_Size x = 0" by (auto simp: lb_inv_def)
  qed
  have es: "take (NumEntries s') (Entries s') = lb_used s @ h # drop (Suc ?k) ?es"
  proof -
    have "take (NumEntries s') (Entries s') = ?es[?k := h]" by (simp add: s' take_update_swap)
    also have "\<dots> = take ?k ?es @ h # drop (Suc ?k) ?es" by (rule upd_conv_take_nth_drop [OF len])
    finally show ?thesis by (simp only: used_take [symmetric])
  qed
  have "takeWhile (\<lambda>x. 0 < lb_Size x) (drop (Suc ?k) ?es) = []"
    using rest by (cases "drop (Suc ?k) ?es") auto
  then show u: "lb_used s' = lb_used s @ [h]"
    unfolding lb_used_def [of s'] es using h used_size [of _ s] by (simp add: takeWhile_append2)
  show "\<forall>x \<in> set (drop (length (lb_used s')) (take (NumEntries s') (Entries s'))). lb_Size x = 0"
    unfolding u es using rest by simp
qed

lemma content_frame:
  assumes "lb_used s' = lb_used s" and "\<And>h i. h \<in> set (lb_used s) \<Longrightarrow> in_area (entry_area h) i \<Longrightarrow> phys s' i = phys s i"
  shows "lb_content s' g = lb_content s g"
proof (cases "lb_entry s g")
  case (Some h)
  then have "h \<in> set (lb_used s)" by (auto simp: lb_entry_def find_Some_iff)
  with Some assms show ?thesis by (auto simp: lb_content_def lb_entry_def entry_area_def intro!: mem_bytes_cong)
qed (use assms in \<open>auto simp: lb_content_def lb_entry_def\<close>)

lemma save_success:
  assumes inv: "lb_inv env s" and k: "length (lb_used s) < NumEntries s" and none: "lb_entry s g = None"
    and al: "alloc_frame env s s1" "alloc_areas env s s1 (a, n)" and n: "0 < n"
    and src: "\<forall>i. buf \<le> i \<and> i < buf + n \<longrightarrow> in_use env i"
    and h: "h = \<lparr>lb_Guid = g, OrigAddress = buf, CopyAddress = a, lb_Size = n, lb_Attributes = 0\<rparr>"
    and s': "s' = s1\<lparr>Entries := (Entries s1)[length (lb_used s) := h], phys := copy_range (phys s1) a buf n\<rparr>"
  shows "lb_inv env s'" "lb_content s' = (lb_content s)(g \<mapsto> mem_bytes (phys s) buf n)" "lb_entry s' = (lb_entry s)(g \<mapsto> h)"
    "in_use env i \<Longrightarrow> phys s' i = phys s i"
proof -
  note fr = al(1) [unfolded alloc_frame_def]
  have u: "lb_used s' = lb_used s @ [h]" "\<forall>x \<in> set (drop (length (lb_used s')) (take (NumEntries s') (Entries s'))). lb_Size x = 0"
    using fr n by (intro save_used [OF inv k, of h]; simp add: s' h)+
  have sub: "SubPageBuffer s' = SubPageBuffer s1" "SubPageRemaining s' = SubPageRemaining s1" by (simp_all add: s')
  have gs: "g \<notin> lb_Guid ` set (lb_used s)" using none by (auto simp: lb_entry_def find_None_iff)
  have h': "lb_Guid h = g" "entry_area h = (a, n)" by (simp_all add: h entry_area_def)
  show "lb_inv env s'"
    unfolding lb_inv_def
  proof (intro conjI)
    show "NumEntries s' \<le> length (Entries s')" "lb_Signature s' = LOCK_BOX_GLOBAL_SIGNATURE"
      using inv fr by (auto simp: lb_inv_def s')
    show "distinct (map lb_Guid (lb_used s'))" using inv gs h' by (auto simp: u lb_inv_def)
    show "sorted_wrt apart (lb_areas s')"
      using al(2) inv by (auto simp: lb_areas_def u sub h' lb_inv_def alloc_areas_def Let_def sorted_wrt_append apart_sym)
    show "\<forall>r \<in> set (lb_areas s'). area_ok env r"
      using al(2) inv by (auto simp: lb_areas_def u sub h' lb_inv_def alloc_areas_def Let_def)
  qed (rule u(2))
  show e: "lb_entry s' = (lb_entry s)(g \<mapsto> h)"
  proof
    fix g'
    have "find (\<lambda>h. lb_Guid h = g') (xs @ [h]) = (case find (\<lambda>h. lb_Guid h = g') xs of None \<Rightarrow> if g = g' then Some h else None | r \<Rightarrow> r)" for xs
      using h' by (induction xs) auto
    with none show "lb_entry s' g' = ((lb_entry s)(g \<mapsto> h)) g'" by (auto simp: lb_entry_def u split: option.split)
  qed
  have src': "mem_bytes (phys s1) buf n = mem_bytes (phys s) buf n" using fr src by (intro mem_bytes_cong) simp
  show "lb_content s' = (lb_content s)(g \<mapsto> mem_bytes (phys s) buf n)"
  proof
    fix g'
    show "lb_content s' g' = ((lb_content s)(g \<mapsto> mem_bytes (phys s) buf n)) g'"
    proof (cases "g' = g")
      case True
      with src' show ?thesis by (simp add: lb_content_def e) (simp add: h s')
    next
      case False
      show ?thesis
      proof (cases "lb_entry s g'")
        case (Some x)
        then have x: "x \<in> set (lb_used s)" by (auto simp: lb_entry_def find_Some_iff)
        then have "apart (entry_area x) (a, n)" using al(2) by (simp add: alloc_areas_def Let_def)
        then have "mem_bytes (phys s') (CopyAddress x) (lb_Size x) = mem_bytes (phys s1) (CopyAddress x) (lb_Size x)"
          by (simp add: s' entry_area_def)
        also have "\<dots> = mem_bytes (phys s) (CopyAddress x) (lb_Size x)"
          using fr x by (intro mem_bytes_cong) (auto simp: entry_area_def)
        finally show ?thesis using Some False by (simp add: lb_content_def e)
      qed (use False in \<open>simp add: lb_content_def e\<close>)
    qed
  qed
  assume "in_use env i"
  moreover from this have "\<not> in_area (a, n) i" using al(2) by (auto simp: alloc_areas_def Let_def)
  ultimately show "phys s' i = phys s i" using fr by (auto simp: s' copy_range_def)
qed

text \<open>The three outcomes of saving a buffer.\<close>

definition save_post :: "lockbox_env \<Rightarrow> lockbox \<Rightarrow> guid \<Rightarrow> nat \<Rightarrow> nat \<Rightarrow> EFI_STATUS \<Rightarrow> lockbox \<Rightarrow> bool" where
  "save_post env s g buf n st s' \<longleftrightarrow>
     st = EFI_SUCCESS \<and> lb_content s g = None \<and> lb_content s' = (lb_content s)(g \<mapsto> mem_bytes (phys s) buf n) \<and>
       (\<exists>h. lb_entry s' = (lb_entry s)(g \<mapsto> h) \<and> OrigAddress h = buf \<and> lb_Attributes h = 0) \<or>
     st = EFI_ALREADY_STARTED \<and> lb_content s g \<noteq> None \<and> s' = s \<or>
     st = EFI_OUT_OF_RESOURCES \<and> lb_content s g = None \<and> s' = s \<and>
       (length (lb_used s) = NumEntries s \<or> SubPageRemaining s < n \<and> AllocatePages env s (EFI_SIZE_TO_PAGES n) = None)"

lemma content_None: "lb_content s g = None \<longleftrightarrow> lb_entry s g = None"
  by (simp add: lb_content_def)

lemma save_outcome:
  assumes inv: "lb_inv env s" and fr: "pages_fresh env" and maxa: "2 ^ 32 \<le> MAX_ADDRESS env + 1"
    and buf: "0 < buf" "0 < n" "n < 2 ^ 32" "buf + n \<le> MAX_ADDRESS env + 1"
    and src: "\<forall>i. buf \<le> i \<and> i < buf + n \<longrightarrow> in_use env i"
  shows "\<exists>st s'. SaveLockBox env s (Some g) buf n = Some (st, s') \<and> save_post env s g buf n st s' \<and>
    lb_inv env s' \<and> (\<forall>i. in_use env i \<longrightarrow> phys s' i = phys s i)"
proof (cases "lb_entry s g")
  case (Some h)
  from find_header_used [OF Some] obtain i where i: "FindHeaderByGuid s g = Some i" "i < length (lb_used s)" "Entries s ! i = h" by metis
  have "0 < lb_Size h" using i used_nth [OF i(2)] used_size [of h s] nth_mem [OF i(2)] by metis
  with i buf Some inv show ?thesis by (auto simp: SaveLockBox_def save_post_def content_None)
next
  case None
  note fu = find_header_unused [OF None inv]
  show ?thesis
  proof (cases "length (lb_used s) < NumEntries s")
    case False
    with used_le [of s] have "length (lb_used s) = NumEntries s" by simp
    with False fu buf None inv show ?thesis by (auto simp: SaveLockBox_def save_post_def content_None)
  next
    case k: True
    consider "AllocateMemoryBelow4G env s n = Some (0, s)" "SubPageRemaining s < n" "AllocatePages env s (EFI_SIZE_TO_PAGES n) = None"
      | a s1 where "AllocateMemoryBelow4G env s n = Some (a, s1)" "0 < a" "alloc_frame env s s1" "alloc_areas env s s1 (a, n)"
    proof (cases "n \<le> SubPageRemaining s")
      case True
      then show ?thesis using alloc_subpage [OF inv buf(2) True] that(2) by blast
    next
      case nsub: False
      show ?thesis
      proof (cases "AllocatePages env s (EFI_SIZE_TO_PAGES n)")
        case None
        with nsub inv show ?thesis by (intro that(1)) (simp_all add: AllocateMemoryBelow4G_def Let_def lb_inv_def)
      next
        case (Some a)
        with nsub alloc_pages [OF inv fr buf(2) _ buf(3) Some] show ?thesis using that(2) by force
      qed
    qed
    then show ?thesis
    proof cases
      case 1
      with k fu buf None inv show ?thesis
        by (auto simp: SaveLockBox_def AllocateAcpiNvsPool_def save_post_def content_None)
    next
      case (2 a s1)
      define h where "h = \<lparr>lb_Guid = g, OrigAddress = buf, CopyAddress = a, lb_Size = n, lb_Attributes = 0\<rparr>"
      define s' where "s' = s1\<lparr>Entries := (Entries s1)[length (lb_used s) := h], phys := copy_range (phys s1) a buf n\<rparr>"
      have end_a: "a + n \<le> MAX_ADDRESS env + 1" using 2(4) maxa by (auto simp: alloc_areas_def Let_def)
      have "n mod 2 ^ 32 = n" using buf(3) by simp
      then have "SaveLockBox env s (Some g) buf n = Some (EFI_SUCCESS, s')"
        using 2(1,2) k fu buf end_a
        by (simp add: SaveLockBox_def AllocateAcpiNvsPool_def CopyMem_def s'_def h_def)
      moreover note save_success [OF inv k None 2(3,4) buf(2) src h_def s'_def]
      ultimately show ?thesis using None by (auto simp: save_post_def content_None h_def)
    qed
  qed
qed

section \<open>Updating, attributes and restoring\<close>

lemma sorted_wrt_apart:
  assumes "sorted_wrt apart (map f xs)" and "x \<in> set xs" "y \<in> set xs" "x \<noteq> y"
  shows "apart (f x) (f y)"
  using assms by (induction xs) (auto simp: apart_sym)

lemma entry_used:
  assumes "lb_entry s g = Some h"
  shows "h \<in> set (lb_used s)" "lb_Guid h = g" "0 < lb_Size h"
  using assms used_size [of h s] by (auto simp: lb_entry_def find_Some_iff)

lemma entries_apart:
  assumes inv: "lb_inv env s" and h: "lb_entry s g = Some h" and x: "lb_entry s g' = Some x" and "g \<noteq> g'"
  shows "apart (entry_area x) (entry_area h)"
proof -
  have "x \<noteq> h" using entry_used [OF h] entry_used [OF x] \<open>g \<noteq> g'\<close> by auto
  with inv show ?thesis using entry_used [OF h] entry_used [OF x]
    by (intro sorted_wrt_apart [of entry_area "lb_used s"]) (simp_all add: lb_inv_def lb_areas_def)
qed

lemma inv_phys: "lb_inv env (s\<lparr>phys := m\<rparr>) = lb_inv env s" "lb_entry (s\<lparr>phys := m\<rparr>) = lb_entry s"
  by (simp_all add: lb_inv_def lb_used_def lb_areas_def lb_entry_def fun_eq_iff)

lemma find_header_hit:
  assumes "lb_entry s g = Some h"
  shows "\<exists>i. FindHeaderByGuid s g = Some i \<and> Entries s ! i = h \<and> i < length (lb_used s)"
  by (rule find_header_used [OF assms]) blast

lemma copy_in_space:
  assumes "lb_inv env s" "lb_entry s g = Some h" "2 ^ 32 \<le> MAX_ADDRESS env + 1"
  shows "CopyAddress h + lb_Size h \<le> MAX_ADDRESS env + 1"
  using inv_area(2) [OF assms(1) entry_used(1) [OF assms(2)]] assms(3) by (simp add: entry_area_def)

lemma update_outcome:
  assumes inv: "lb_inv env s" and c: "lb_content s g = Some c" and maxa: "2 ^ 32 \<le> MAX_ADDRESS env + 1"
    and buf: "0 < buf" "0 < n" "buf + n \<le> MAX_ADDRESS env + 1" and fit: "off + n \<le> length c"
  shows "\<exists>s'. UpdateLockBox env s (Some g) off buf n = Some (EFI_SUCCESS, s') \<and> lb_inv env s' \<and>
    lb_entry s' = lb_entry s \<and> (\<forall>i. in_use env i \<longrightarrow> phys s' i = phys s i) \<and>
    lb_content s' = (lb_content s)(g \<mapsto> take off c @ mem_bytes (phys s) buf n @ drop (off + n) c)"
proof -
  from c obtain h where h: "lb_entry s g = Some h" and c': "c = mem_bytes (phys s) (CopyAddress h) (lb_Size h)"
    by (auto simp: lb_content_def)
  from find_header_hit [OF h] obtain i where i: "FindHeaderByGuid s g = Some i" "Entries s ! i = h" by blast
  have fit': "off + n \<le> lb_Size h" using fit c' by simp
  define s' where "s' = s\<lparr>phys := copy_range (phys s) (CopyAddress h + off) buf n\<rparr>"
  have "UpdateLockBox env s (Some g) off buf n = Some (EFI_SUCCESS, s')"
    using i buf fit' entry_used(3) [OF h] copy_in_space [OF inv h maxa] by (simp add: UpdateLockBox_def Let_def CopyMem_def s'_def)
  moreover have "lb_content s' = (lb_content s)(g \<mapsto> take off c @ mem_bytes (phys s) buf n @ drop (off + n) c)"
  proof
    fix g'
    have "mem_bytes (phys s') (CopyAddress x) (lb_Size x) = mem_bytes (phys s) (CopyAddress x) (lb_Size x)"
      if "lb_entry s g' = Some x" "g' \<noteq> g" for x
    proof -
      have "apart (entry_area x) (entry_area h)" by (rule entries_apart [OF inv h that(1)]) (use that in simp)
      then have "apart (CopyAddress x, lb_Size x) (CopyAddress h + off, n)"
        unfolding entry_area_def by (rule apart_sub) (use fit' in auto)
      then show ?thesis by (simp add: s'_def)
    qed
    then show "lb_content s' g' = ((lb_content s)(g \<mapsto> take off c @ mem_bytes (phys s) buf n @ drop (off + n) c)) g'"
      using h copy_range_within [OF fit', of "phys s" "CopyAddress h" buf]
      by (cases "lb_entry s g'") (auto simp: lb_content_def s'_def inv_phys c')
  qed
  moreover have "phys s' i = phys s i" if "in_use env i" for i
    using inv_area(2) [OF inv entry_used(1) [OF h]] that fit' by (auto simp: entry_area_def s'_def copy_range_def)
  ultimately show ?thesis using inv by (auto simp: s'_def inv_phys)
qed

lemma update_too_small:
  assumes "lb_content s g = Some c" and "0 < buf" "0 < n" and "length c < off + n"
  shows "UpdateLockBox env s (Some g) off buf n = Some (EFI_BUFFER_TOO_SMALL, s)"
proof -
  from assms(1) obtain h where h: "lb_entry s g = Some h" and c': "length c = lb_Size h" by (auto simp: lb_content_def)
  from find_header_hit [OF h] obtain i where "FindHeaderByGuid s g = Some i" "Entries s ! i = h" by blast
  with assms c' entry_used(3) [OF h] show ?thesis by (auto simp: UpdateLockBox_def Let_def)
qed

lemma restore_outcome:
  assumes inv: "lb_inv env s" and c: "lb_content s g = Some c" and maxa: "2 ^ 32 \<le> MAX_ADDRESS env + 1"
    and buf: "0 < buf" "buf + length c \<le> MAX_ADDRESS env + 1" and n: "length c \<le> n"
    and dst: "\<forall>i. buf \<le> i \<and> i < buf + length c \<longrightarrow> in_use env i"
  shows "\<exists>s'. RestoreLockBox env s (Some g) buf (Some n) = Some (EFI_SUCCESS, Some (length c), s') \<and>
    mem_bytes (phys s') buf (length c) = c \<and> (\<forall>i. \<not> in_area (buf, length c) i \<longrightarrow> phys s' i = phys s i) \<and>
    lb_inv env s' \<and> lb_content s' = lb_content s"
proof -
  from c obtain h where h: "lb_entry s g = Some h" and c': "c = mem_bytes (phys s) (CopyAddress h) (lb_Size h)"
    by (auto simp: lb_content_def)
  from find_header_hit [OF h] obtain i where i: "FindHeaderByGuid s g = Some i" "Entries s ! i = h" by blast
  define s' where "s' = s\<lparr>phys := copy_range (phys s) buf (CopyAddress h) (lb_Size h)\<rparr>"
  have "RestoreLockBox env s (Some g) buf (Some n) = Some (EFI_SUCCESS, Some (length c), s')"
    using i buf n c' entry_used(3) [OF h] copy_in_space [OF inv h maxa]
    by (simp add: RestoreLockBox_def Let_def CopyMem_def s'_def)
  moreover have "lb_content s' = lb_content s"
  proof
    fix g'
    have u: "lb_used s' = lb_used s" by (simp add: s'_def lb_used_def)
    show "lb_content s' g' = lb_content s g'"
    proof (rule content_frame [OF u])
      fix x i assume "x \<in> set (lb_used s)" "in_area (entry_area x) i"
      with inv_area(2) [OF inv] have "\<not> in_use env i" by (cases "entry_area x") force
      with dst c' show "phys s' i = phys s i" by (auto simp: s'_def copy_range_def)
    qed
  qed
  moreover have "mem_bytes (phys s') buf (length c) = c" using c' by (simp add: s'_def)
  moreover have "phys s' i = phys s i" if "\<not> in_area (buf, length c) i" for i
    using that c' by (auto simp: s'_def copy_range_def)
  moreover have "lb_inv env s'" using inv by (simp add: s'_def inv_phys)
  ultimately show ?thesis by blast
qed

lemma restore_too_small:
  assumes "lb_content s g = Some c" and "0 < buf" and "n < length c"
  shows "RestoreLockBox env s (Some g) buf (Some n) = Some (EFI_BUFFER_TOO_SMALL, Some (length c), s)"
proof -
  from assms(1) obtain h where h: "lb_entry s g = Some h" and c': "length c = lb_Size h" by (auto simp: lb_content_def)
  from find_header_hit [OF h] obtain i where "FindHeaderByGuid s g = Some i" "Entries s ! i = h" by blast
  with assms c' show ?thesis by (auto simp: RestoreLockBox_def Let_def)
qed

lemma attributes_outcome:
  assumes inv: "lb_inv env s" and h: "lb_entry s g = Some h"
  shows "\<exists>s'. SetLockBoxAttributes s (Some g) attr = (EFI_SUCCESS, s') \<and> lb_inv env s' \<and> lb_content s' = lb_content s \<and>
    phys s' = phys s \<and> lb_entry s' = (lb_entry s)(g \<mapsto> h\<lparr>lb_Attributes := attr\<rparr>)"
proof -
  from find_header_used [OF h] obtain i where i: "FindHeaderByGuid s g = Some i" "i < length (lb_used s)" "Entries s ! i = h" by metis
  let ?h = "h\<lparr>lb_Attributes := attr\<rparr>" and ?P = "\<lambda>h. 0 < lb_Size h"
  define s' where "s' = s\<lparr>Entries := (Entries s)[i := ?h]\<rparr>"
  have tw: "takeWhile ?P (xs[j := y]) = (takeWhile ?P xs)[j := y]" if "j < length (takeWhile ?P xs)" "?P y" for xs j y
    using that by (induction xs arbitrary: j) (auto split: nat.split if_splits)
  have u: "lb_used s' = (lb_used s)[i := ?h]"
    unfolding lb_used_def using i(2) entry_used(3) [OF h] by (simp add: s'_def take_update_swap tw lb_used_def)
  have hi: "lb_used s ! i = h" using used_nth [OF i(2)] i(3) by simp
  have m: "map f (lb_used s') = map f (lb_used s)" if "f ?h = f h" for f :: "LOCK_BOX_ENTRY \<Rightarrow> 'x"
    using i(2) hi that unfolding u by (metis list_update_id map_update)
  have g: "map lb_Guid (lb_used s') = map lb_Guid (lb_used s)" "map entry_area (lb_used s') = map entry_area (lb_used s)"
    by (intro m; simp add: entry_area_def)+
  have e: "lb_entry s' = (lb_entry s)(g \<mapsto> ?h)"
  proof
    fix g'
    have d: "distinct (map lb_Guid (lb_used s))" using inv by (simp add: lb_inv_def)
    have f: "find (\<lambda>x. lb_Guid x = g') (xs[j := ?h]) = (if g' = g then Some ?h else find (\<lambda>x. lb_Guid x = g') xs)"
      if "j < length xs" "xs ! j = h" "distinct (map lb_Guid xs)" for xs j
      using that entry_used(2) [OF h]
    proof (induction xs arbitrary: j)
      case (Cons x xs)
      show ?case
      proof (cases j)
        case (Suc k)
        with Cons.prems have "h \<in> set xs" by auto
        with Cons.prems have "lb_Guid x \<noteq> g" by auto
        with Cons Suc show ?thesis by auto
      qed (use Cons.prems in auto)
    qed simp
    show "lb_entry s' g' = ((lb_entry s)(g \<mapsto> ?h)) g'" using f [OF i(2) hi d] by (simp add: lb_entry_def u)
  qed
  have "lb_inv env s'"
  proof -
    have "drop (length (lb_used s')) (take (NumEntries s') (Entries s')) = drop (length (lb_used s)) (take (NumEntries s) (Entries s))"
      using i(2) by (simp add: u) (simp add: s'_def take_update_swap drop_update_cancel)
    with inv g show ?thesis by (simp add: lb_inv_def lb_areas_def) (simp add: s'_def)
  qed
  moreover have "lb_content s' = lb_content s"
    using h by (auto simp: lb_content_def e fun_eq_iff) (simp_all add: s'_def)
  moreover have "SetLockBoxAttributes s (Some g) attr = (EFI_SUCCESS, s')"
    using i entry_used(3) [OF h] by (simp add: SetLockBoxAttributes_def s'_def)
  ultimately show ?thesis using e by (auto simp: s'_def)
qed

section \<open>Restoring everything in place\<close>

definition orig_area :: "LOCK_BOX_ENTRY \<Rightarrow> nat \<times> nat" where
  "orig_area h = (OrigAddress h, lb_Size h)"

lemma restore_used: "restore_entries env es = restore_entries env (takeWhile (\<lambda>h. 0 < lb_Size h) es)"
proof (induction es)
  case (Cons h es)
  then show ?case by (intro ext) simp
qed simp

text \<open>Restorable entries whose original places are disjoint from each other and from the copies.\<close>

definition in_place_ok :: "lockbox_env \<Rightarrow> LOCK_BOX_ENTRY list \<Rightarrow> bool" where
  "in_place_ok env hs \<longleftrightarrow>
     sorted_wrt (\<lambda>h x. restorable env h \<and> restorable env x \<longrightarrow> apart (orig_area h) (orig_area x)) hs \<and>
     (\<forall>h \<in> set hs. restorable env h \<longrightarrow> OrigAddress h + lb_Size h \<le> MAX_ADDRESS env + 1 \<and>
       (\<forall>i. in_area (orig_area h) i \<longrightarrow> in_use env i))"

lemma restore_list:
  assumes "\<forall>h \<in> set hs. 0 < lb_Size h \<and> CopyAddress h + lb_Size h \<le> MAX_ADDRESS env + 1 \<and> area_ok env (entry_area h)"
    and "in_place_ok env hs" and "MAX_ADDRESS env < 2 ^ 64"
  shows "\<exists>m'. restore_entries env hs m = Some (EFI_SUCCESS, m') \<and>
    (\<forall>h \<in> set hs. restorable env h \<longrightarrow> mem_bytes m' (OrigAddress h) (lb_Size h) = mem_bytes m (CopyAddress h) (lb_Size h)) \<and>
    (\<forall>i. (\<forall>h \<in> set hs. restorable env h \<longrightarrow> \<not> in_area (orig_area h) i) \<longrightarrow> m' i = m i)"
  using assms
proof (induction hs arbitrary: m)
  case (Cons h hs)
  then have ok: "in_place_ok env hs" by (simp add: in_place_ok_def)
  note IH = Cons.IH [OF _ ok Cons.prems(3)]
  show ?case
  proof (cases "restorable env h")
    case False
    with Cons.prems IH [of m] show ?thesis by auto
  next
    case True
    define m1 where "m1 = copy_range m (OrigAddress h) (CopyAddress h) (lb_Size h)"
    from Cons.prems True have b: "OrigAddress h + lb_Size h \<le> MAX_ADDRESS env + 1" "0 < lb_Size h"
      "CopyAddress h + lb_Size h \<le> MAX_ADDRESS env + 1" by (simp_all add: in_place_ok_def)
    then have "\<not> past_end env h" using Cons.prems(3) by (simp add: past_end_def)
    with b True have st: "restore_entries env (h # hs) m = restore_entries env hs m1" by (simp add: CopyMem_def m1_def)
    obtain m' where m': "restore_entries env hs m1 = Some (EFI_SUCCESS, m')"
      "\<forall>h \<in> set hs. restorable env h \<longrightarrow> mem_bytes m' (OrigAddress h) (lb_Size h) = mem_bytes m1 (CopyAddress h) (lb_Size h)"
      "\<forall>i. (\<forall>h \<in> set hs. restorable env h \<longrightarrow> \<not> in_area (orig_area h) i) \<longrightarrow> m' i = m1 i"
      using IH [of m1] Cons.prems(1) by auto
    have copies: "mem_bytes m1 (CopyAddress x) (lb_Size x) = mem_bytes m (CopyAddress x) (lb_Size x)" if "x \<in> set hs" for x
    proof (rule mem_bytes_cong)
      fix i assume i: "CopyAddress x \<le> i" "i < CopyAddress x + lb_Size x"
      have "area_ok env (entry_area x)" using Cons.prems(1) that by simp
      with i have "\<not> in_use env i" by (auto simp: entry_area_def)
      with Cons.prems(2) True have "\<not> in_area (orig_area h) i" by (auto simp: in_place_ok_def)
      then show "m1 i = m i" by (auto simp: m1_def copy_range_def orig_area_def)
    qed
    have "mem_bytes m' (OrigAddress h) (lb_Size h) = mem_bytes m1 (OrigAddress h) (lb_Size h)"
    proof (rule mem_bytes_cong)
      fix i assume i: "OrigAddress h \<le> i" "i < OrigAddress h + lb_Size h"
      have "\<not> in_area (orig_area x) i" if "x \<in> set hs" "restorable env x" for x
        using Cons.prems(2) True that i apart_in_area [of "orig_area h" "orig_area x" i]
        by (simp add: in_place_ok_def) (simp add: orig_area_def)
      then show "m' i = m1 i" using m'(3) by blast
    qed
    then have "mem_bytes m' (OrigAddress h) (lb_Size h) = mem_bytes m (CopyAddress h) (lb_Size h)" by (simp add: m1_def)
    moreover have "m' i = m i" if "\<forall>x \<in> set (h # hs). restorable env x \<longrightarrow> \<not> in_area (orig_area x) i" for i
      using that True m'(3) by (auto simp: m1_def copy_range_def orig_area_def)
    ultimately show ?thesis using st m' copies by auto
  qed
qed simp

lemma restore_all_outcome:
  assumes inv: "lb_inv env s" and ok: "in_place_ok env (lb_used s)"
    and maxa: "2 ^ 32 \<le> MAX_ADDRESS env + 1" "MAX_ADDRESS env < 2 ^ 64"
  shows "\<exists>s'. RestoreAllLockBoxInPlace env s = Some (EFI_SUCCESS, s') \<and> lb_inv env s' \<and> lb_content s' = lb_content s \<and>
    (\<forall>h \<in> set (lb_used s). restorable env h \<longrightarrow> Some (mem_bytes (phys s') (OrigAddress h) (lb_Size h)) = lb_content s (lb_Guid h)) \<and>
    (\<forall>i. (\<forall>h \<in> set (lb_used s). restorable env h \<longrightarrow> \<not> in_area (orig_area h) i) \<longrightarrow> phys s' i = phys s i)"
proof -
  have hyp: "\<forall>h \<in> set (lb_used s). 0 < lb_Size h \<and> CopyAddress h + lb_Size h \<le> MAX_ADDRESS env + 1 \<and> area_ok env (entry_area h)"
  proof
    fix h assume h: "h \<in> set (lb_used s)"
    have a: "area_ok env (entry_area h)" by (rule inv_area(2) [OF inv h])
    then have "CopyAddress h + lb_Size h \<le> MAX_ADDRESS env + 1" using maxa(1) by (simp add: entry_area_def)
    with a used_size [OF h] show "0 < lb_Size h \<and> CopyAddress h + lb_Size h \<le> MAX_ADDRESS env + 1 \<and> area_ok env (entry_area h)"
      by blast
  qed
  from restore_list [OF hyp ok maxa(2), of "phys s"] obtain m where
    m: "restore_entries env (lb_used s) (phys s) = Some (EFI_SUCCESS, m)"
    "\<forall>h \<in> set (lb_used s). restorable env h \<longrightarrow> mem_bytes m (OrigAddress h) (lb_Size h) = mem_bytes (phys s) (CopyAddress h) (lb_Size h)"
    "\<forall>i. (\<forall>h \<in> set (lb_used s). restorable env h \<longrightarrow> \<not> in_area (orig_area h) i) \<longrightarrow> m i = phys s i" by blast
  have "lb_entry s (lb_Guid h) = Some h" if "h \<in> set (lb_used s)" for h
  proof -
    have "find (\<lambda>x. lb_Guid x = lb_Guid h) xs = Some h" if "h \<in> set xs" "distinct (map lb_Guid xs)" for xs
      using that by (induction xs) auto
    with inv that show ?thesis by (simp add: lb_entry_def lb_inv_def)
  qed
  then have "\<forall>h \<in> set (lb_used s). restorable env h \<longrightarrow> Some (mem_bytes m (OrigAddress h) (lb_Size h)) = lb_content s (lb_Guid h)"
    using m(2) by (simp add: lb_content_def)
  moreover have "RestoreAllLockBoxInPlace env s = Some (EFI_SUCCESS, s\<lparr>phys := m\<rparr>)"
    using m(1) restore_used [of env "take (NumEntries s) (Entries s)"] by (simp add: RestoreAllLockBoxInPlace_def lb_used_def)
  moreover have "lb_content (s\<lparr>phys := m\<rparr>) = lb_content s"
  proof
    fix g
    show "lb_content (s\<lparr>phys := m\<rparr>) g = lb_content s g"
    proof (rule content_frame)
      fix h i assume "h \<in> set (lb_used s)" "in_area (entry_area h) i"
      then have "\<not> in_use env i" using hyp by (cases "entry_area h") force
      then show "phys (s\<lparr>phys := m\<rparr>) i = phys s i" using ok m(3) by (auto simp: in_place_ok_def)
    qed (simp add: lb_used_def)
  qed
  ultimately show ?thesis using inv m(3) by (auto simp: inv_phys)
qed

section \<open>Initialisation\<close>

definition lb_cleared :: "lockbox \<Rightarrow> bool" where
  "lb_cleared s \<longleftrightarrow> (\<forall>h \<in> set (Entries s). lb_Size h = 0) \<and> SubPageBuffer s = 0 \<and> SubPageRemaining s = 0"

lemma initialize_inv:
  assumes "LockBoxLibInitialize env s0 = Some (EFI_SUCCESS, s)" and cl: "lb_cleared s0"
    and st: "(LockBoxStorageSize env - sizeof_LOCK_BOX_GLOBAL) div sizeof_LOCK_BOX_ENTRY \<le> length (Entries s0)"
  shows "lb_inv env s" "lb_content s = Map.empty" "phys s = phys s0"
proof -
  let ?n = "(LockBoxStorageSize env - sizeof_LOCK_BOX_GLOBAL) div sizeof_LOCK_BOX_ENTRY"
  have s: "s = s0\<lparr>NumEntries := ?n, lb_Signature := LOCK_BOX_GLOBAL_SIGNATURE\<rparr>"
    using assms(1) by (auto simp: LockBoxLibInitialize_def Let_def split: if_splits)
  have z: "lb_Size h = 0" if "h \<in> set (take ?n (Entries s0))" for h
    using cl in_set_takeD [OF that] by (simp add: lb_cleared_def)
  have "takeWhile (\<lambda>h. 0 < lb_Size h) xs = []" if "\<And>h. h \<in> set xs \<Longrightarrow> lb_Size h = 0" for xs :: "LOCK_BOX_ENTRY list"
    using that by (cases xs) auto
  then have "takeWhile (\<lambda>h. 0 < lb_Size h) (take ?n (Entries s0)) = []" using z by blast
  then have u: "lb_used s = []" by (simp add: s lb_used_def)
  show "lb_inv env s" using cl st z by (auto simp: lb_inv_def u lb_areas_def) (auto simp: s lb_cleared_def)
  show "lb_content s = Map.empty" by (simp add: lb_content_def lb_entry_def u fun_eq_iff)
  show "phys s = phys s0" by (simp add: s)
qed

section \<open>Saving as an interface\<close>

text \<open>
  What a client of \<open>save\<close> relies on: a successful save stores the bytes of its buffer
  under a new key, keeps all other contents, and does not touch the client's own memory.
\<close>

locale box_store =
  fixes inv :: "'s \<Rightarrow> bool"
    and content :: "'s \<Rightarrow> 'k \<Rightarrow> byte list option"
    and save :: "'s \<Rightarrow> 'k \<Rightarrow> nat \<Rightarrow> nat \<Rightarrow> 's option"
    and mem :: "'s \<Rightarrow> phys_mem"
    and own :: "'s \<Rightarrow> nat \<times> nat \<Rightarrow> bool"
  assumes save_keeps: "inv s \<Longrightarrow> own s (a, n) \<Longrightarrow> save s k a n = Some s' \<Longrightarrow> inv s' \<and> own s' = own s"
    and save_content: "inv s \<Longrightarrow> own s (a, n) \<Longrightarrow> save s k a n = Some s' \<Longrightarrow>
      content s k = None \<and> content s' = (content s)(k \<mapsto> mem_bytes (mem s) a n)"
    and save_frame: "inv s \<Longrightarrow> own s (a, n) \<Longrightarrow> save s k a n = Some s' \<Longrightarrow> own s (b, m) \<Longrightarrow>
      mem_bytes (mem s') b m = mem_bytes (mem s) b m"
begin

fun save_all :: "'s \<Rightarrow> ('k \<times> nat \<times> nat) list \<Rightarrow> 's option" where
  "save_all s [] = Some s"
| "save_all s ((k, a, n) # xs) = Option.bind (save s k a n) (\<lambda>s'. save_all s' xs)"

lemma save_all_keeps:
  assumes "inv s" and "\<forall>(k, a, n) \<in> set xs. own s (a, n)" and "save_all s xs = Some s'"
  shows "inv s' \<and> own s' = own s \<and> (\<forall>k c. content s k = Some c \<longrightarrow> content s' k = Some c)"
  using assms
proof (induction xs arbitrary: s)
  case (Cons x xs)
  obtain k a n where x: "x = (k, a, n)" by (metis prod_cases3)
  from Cons.prems x have own: "own s (a, n)" by simp
  from Cons.prems(3) x obtain s1 where s1: "save s k a n = Some s1" "save_all s1 xs = Some s'" by (auto simp: bind_eq_Some_conv)
  note k1 = save_keeps [OF Cons.prems(1) own s1(1)] and c1 = save_content [OF Cons.prems(1) own s1(1)]
  have "inv s' \<and> own s' = own s1 \<and> (\<forall>k c. content s1 k = Some c \<longrightarrow> content s' k = Some c)"
    using Cons.prems(2) k1 s1(2) by (intro Cons.IH) auto
  moreover have "content s1 k' = Some c" if "content s k' = Some c" for k' c using c1 that by auto
  ultimately show ?case using k1 by auto
qed simp

lemma save_all_content:
  assumes "inv s" and "\<forall>(k, a, n) \<in> set xs. own s (a, n)" and "save_all s xs = Some s'" and "(k, a, n) \<in> set xs"
  shows "content s' k = Some (mem_bytes (mem s) a n)"
  using assms
proof (induction xs arbitrary: s)
  case (Cons x xs)
  obtain k1 a1 n1 where x: "x = (k1, a1, n1)" by (metis prod_cases3)
  from Cons.prems x have own: "own s (a1, n1)" by simp
  from Cons.prems(3) x obtain s1 where s1: "save s k1 a1 n1 = Some s1" "save_all s1 xs = Some s'" by (auto simp: bind_eq_Some_conv)
  note k1 = save_keeps [OF Cons.prems(1) own s1(1)]
  have own1: "\<forall>(k, a, n) \<in> set xs. own s1 (a, n)" using Cons.prems(2) k1 by auto
  show ?case
  proof (cases "(k, a, n) \<in> set xs")
    case True
    then have "content s' k = Some (mem_bytes (mem s1) a n)" using k1 own1 s1(2) by (intro Cons.IH) auto
    moreover have "own s (a, n)" using Cons.prems(2,4) by auto
    ultimately show ?thesis using save_frame [OF Cons.prems(1) own s1(1)] by simp
  next
    case False
    with Cons.prems(4) x have "k = k1" "a = a1" "n = n1" by auto
    with save_content [OF Cons.prems(1) own s1(1)] save_all_keeps [OF _ own1 s1(2)] k1 show ?thesis by simp
  qed
qed simp

end

definition lb_own :: "lockbox_env \<Rightarrow> nat \<times> nat \<Rightarrow> bool" where
  "lb_own env r \<longleftrightarrow> 0 < fst r \<and> 0 < snd r \<and> snd r < 2 ^ 32 \<and> fst r + snd r \<le> MAX_ADDRESS env + 1 \<and>
     (\<forall>i. fst r \<le> i \<and> i < fst r + snd r \<longrightarrow> in_use env i)"

definition lb_ready :: "lockbox_env \<Rightarrow> lockbox \<Rightarrow> bool" where
  "lb_ready env s \<longleftrightarrow> lb_inv env s \<and> pages_fresh env \<and> 2 ^ 32 \<le> MAX_ADDRESS env + 1 \<and> MAX_ADDRESS env < 2 ^ 64"

definition lb_save :: "lockbox_env \<times> lockbox \<Rightarrow> guid \<Rightarrow> nat \<Rightarrow> nat \<Rightarrow> (lockbox_env \<times> lockbox) option" where
  "lb_save es g a n = (case SaveLockBox (fst es) (snd es) (Some g) a n of
     Some (EFI_SUCCESS, s') \<Rightarrow> Some (fst es, s') | _ \<Rightarrow> None)"

lemma lb_save_post:
  assumes "lb_ready env s" and "lb_own env (a, n)" and "lb_save (env, s) g a n = Some es'"
  shows "\<exists>s'. es' = (env, s') \<and> lb_ready env s' \<and> lb_content s g = None \<and>
    lb_content s' = (lb_content s)(g \<mapsto> mem_bytes (phys s) a n) \<and> (\<forall>i. in_use env i \<longrightarrow> phys s' i = phys s i)"
proof -
  from assms(1,2) obtain st s' where s': "SaveLockBox env s (Some g) a n = Some (st, s')" "save_post env s g a n st s'"
    "lb_inv env s'" "\<forall>i. in_use env i \<longrightarrow> phys s' i = phys s i"
    using save_outcome [of env s a n g] by (auto simp: lb_ready_def lb_own_def)
  from assms(3) s'(1) have st: "st = EFI_SUCCESS" "es' = (env, s')" by (cases st; simp add: lb_save_def)+
  with s'(2) have "lb_content s g = None" "lb_content s' = (lb_content s)(g \<mapsto> mem_bytes (phys s) a n)" by (simp_all add: save_post_def)
  moreover have "lb_ready env s'" using assms(1) s'(3) by (simp add: lb_ready_def)
  ultimately show ?thesis using st(2) s'(4) by blast
qed

interpretation lb: box_store "\<lambda>es. lb_ready (fst es) (snd es)" "\<lambda>es. lb_content (snd es)" lb_save "\<lambda>es. phys (snd es)" "\<lambda>es. lb_own (fst es)"
proof (unfold_locales, goal_cases)
  case (1 es a n k es')
  then show ?case using lb_save_post [of "fst es" "snd es" a n k es'] by auto
next
  case (2 es a n k es')
  then show ?case using lb_save_post [of "fst es" "snd es" a n k es'] by auto
next
  case (3 es a n k es' b m)
  from lb_save_post [of "fst es" "snd es" a n k es'] 3 obtain s' where
    "es' = (fst es, s')" "\<forall>i. in_use (fst es) i \<longrightarrow> phys s' i = phys (snd es) i" by auto
  with 3(4) show ?case by (intro mem_bytes_cong) (simp add: lb_own_def)
qed

end
