(* ===== verification/LockBoxProps.thy ===== *)
theory LockBoxProps
  imports LockBoxInv
begin

text \<open>
  The properties of the lock boxes, each with a witness on a small platform: two entries, a
  page allocator that hands out the pages at 64 KiB while they are free, and
  client memory from address 16 to 63.
\<close>

section \<open>A small platform\<close>

definition demo_pages :: "lockbox \<Rightarrow> nat \<Rightarrow> nat option" where
  "demo_pages s n = (if 65536 + n * EFI_PAGE_SIZE \<le> 2 ^ 32 \<and> (\<forall>r \<in> set (lb_areas s). apart r (65536, n * EFI_PAGE_SIZE))
     then Some 65536 else None)"

definition demo_box_env :: lockbox_env where
  "demo_box_env = \<lparr>MAX_ADDRESS = 2 ^ 64 - 1, RESTORE_IN_PLACE = 1, LockBoxStorageSize = 100, SmmSmramRequire = False,
     AllocatePages = demo_pages, in_use = (\<lambda>i. 16 \<le> i \<and> i < 64), S3Enabled = True, LockBoxProtocolPresent = False,
     InstallOk = True\<rparr>"

definition no_box :: LOCK_BOX_ENTRY where
  "no_box = \<lparr>lb_Guid = [], OrigAddress = 0, CopyAddress = 0, lb_Size = 0, lb_Attributes = 0\<rparr>"

definition demo_box :: lockbox where
  "demo_box = \<lparr>lb_Signature = 0, SubPageBuffer = 0, SubPageRemaining = 0, Entries = [no_box, no_box], NumEntries = 0,
     phys = (\<lambda>i. of_nat i)\<rparr>"

definition demo_box1 :: lockbox where
  "demo_box1 = demo_box\<lparr>lb_Signature := LOCK_BOX_GLOBAL_SIGNATURE, NumEntries := 2\<rparr>"

definition demo_entry :: LOCK_BOX_ENTRY where
  "demo_entry = \<lparr>lb_Guid = [7], OrigAddress = 16, CopyAddress = 65536, lb_Size = 4, lb_Attributes = 1\<rparr>"

definition demo_box2 :: lockbox where
  "demo_box2 = demo_box1\<lparr>Entries := [demo_entry, no_box]\<rparr>"

lemma demo_env_sel [simp]:
  "MAX_ADDRESS demo_box_env = 2 ^ 64 - 1" "RESTORE_IN_PLACE demo_box_env = 1" "LockBoxStorageSize demo_box_env = 100"
  "SmmSmramRequire demo_box_env = False" "AllocatePages demo_box_env = demo_pages"
  "in_use demo_box_env i = (16 \<le> i \<and> i < 64)"
  by (simp_all add: demo_box_env_def)

lemma no_box_sel [simp]: "lb_Size no_box = 0"
  by (simp add: no_box_def)

lemma demo_entry_sel [simp]:
  "lb_Guid demo_entry = [7]" "OrigAddress demo_entry = 16" "CopyAddress demo_entry = 65536" "lb_Size demo_entry = 4"
  "lb_Attributes demo_entry = 1"
  by (simp_all add: demo_entry_def)

lemma demo_fresh: "pages_fresh demo_box_env"
  unfolding pages_fresh_def by (auto simp: demo_pages_def split: if_splits)

lemma demo_init: "LockBoxLibInitialize demo_box_env demo_box = Some (EFI_SUCCESS, demo_box1)"
  by (simp add: LockBoxLibInitialize_def sizeof_LOCK_BOX_GLOBAL_def sizeof_LOCK_BOX_ENTRY_def demo_box1_def demo_box_def
      LOCK_BOX_GLOBAL_SIGNATURE_def)

lemma demo_used [simp]: "lb_used demo_box1 = []" "lb_used demo_box2 = [demo_entry]"
  by (simp_all add: lb_used_def demo_box1_def demo_box2_def demo_box_def)

lemma demo_inv: "lb_inv demo_box_env demo_box1" "lb_inv demo_box_env demo_box2"
  by (simp_all add: lb_inv_def lb_areas_def entry_area_def) (simp_all add: demo_box1_def demo_box2_def demo_box_def)

lemma demo_content: "lb_content demo_box2 [7] = Some [0, 1, 2, 3]"
  by (simp add: lb_content_def lb_entry_def mem_bytes_def upt_rec) (simp add: demo_box2_def demo_box1_def demo_box_def)

text \<open>Saving a list of buffers, all with success.\<close>

fun save_boxes :: "lockbox_env \<Rightarrow> lockbox \<Rightarrow> (guid \<times> nat \<times> nat) list \<Rightarrow> lockbox option" where
  "save_boxes env s [] = Some s"
| "save_boxes env s ((g, buf, n) # xs) =
     (case SaveLockBox env s (Some g) buf n of Some (EFI_SUCCESS, s') \<Rightarrow> save_boxes env s' xs | _ \<Rightarrow> None)"

lemma lb_save_eq: "lb_save (env, s) g a n = (case SaveLockBox env s (Some g) a n of Some (EFI_SUCCESS, s') \<Rightarrow> Some (env, s') | _ \<Rightarrow> None)"
  unfolding lb_save_def fst_conv snd_conv by (rule refl)

lemma save_boxes_all: "lb.save_all (env, s) xs = map_option (Pair env) (save_boxes env s xs)"
  by (induction env s xs rule: save_boxes.induct) (auto simp: lb_save_eq split: option.splits EFI_STATUS.splits)

section \<open>Properties\<close>

text \<open>
  C21: saving a buffer never fails an assertion and has one of three outcomes. It succeeds, and then
  the contents of the boxes are what they were with the bytes of the buffer added under a new
  GUID, at the buffer's address and without attributes; or the GUID is already in use and
  nothing changes; or the table is full or there is no memory, and nothing changes. The
  invariant holds afterwards and no memory in use by others has changed.
\<close>

theorem lockbox_save_behaviour:
  assumes "lb_inv env s" and "pages_fresh env" and "2 ^ 32 \<le> MAX_ADDRESS env + 1"
    and "0 < buf" "0 < n" "n < 2 ^ 32" "buf + n \<le> MAX_ADDRESS env + 1"
    and "\<forall>i. buf \<le> i \<and> i < buf + n \<longrightarrow> in_use env i"
  shows "\<exists>st s'. SaveLockBox env s (Some g) buf n = Some (st, s') \<and>
    (st = EFI_SUCCESS \<and> lb_content s g = None \<and> lb_content s' = (lb_content s)(g \<mapsto> mem_bytes (phys s) buf n) \<and>
       (\<exists>h. lb_entry s' = (lb_entry s)(g \<mapsto> h) \<and> OrigAddress h = buf \<and> lb_Attributes h = 0) \<or>
     st = EFI_ALREADY_STARTED \<and> lb_content s g \<noteq> None \<and> s' = s \<or>
     st = EFI_OUT_OF_RESOURCES \<and> lb_content s g = None \<and> s' = s \<and>
       (length (lb_used s) = NumEntries s \<or> SubPageRemaining s < n \<and> AllocatePages env s (EFI_SIZE_TO_PAGES n) = None)) \<and>
    lb_inv env s' \<and> (\<forall>i. in_use env i \<longrightarrow> phys s' i = phys s i)"
  using save_outcome [OF assms, of g] by (simp only: save_post_def)

text \<open>The witness saves the four bytes at address 16 in the empty table.\<close>

theorem lockbox_save_behaviour_witness:
  "\<exists>s'. SaveLockBox demo_box_env demo_box1 (Some [7]) 16 4 = Some (EFI_SUCCESS, s') \<and> lb_content s' [7] = Some [16, 17, 18, 19]"
proof -
  have c: "lb_content demo_box1 [7] = None" by (simp add: lb_content_def lb_entry_def)
  have p: "demo_pages demo_box1 (EFI_SIZE_TO_PAGES 4) \<noteq> None" "NumEntries demo_box1 = 2"
    by (simp_all add: demo_pages_def lb_areas_def EFI_PAGE_SIZE_def EFI_SIZE_TO_PAGES_def) (simp_all add: demo_box1_def demo_box_def)
  have m: "mem_bytes (phys demo_box1) 16 4 = [16, 17, 18, 19]"
    by (simp add: mem_bytes_def upt_rec demo_box1_def demo_box_def)
  show ?thesis using lockbox_save_behaviour [OF demo_inv(1) demo_fresh, of 16 4 "[7]"] c p m by auto
qed

text \<open>
  C34: updating part of a box and restoring the box afterwards delivers the old contents with the updated
  part replaced, to any buffer of the caller that is large enough, whose size is set to that of the
  box; contents of other boxes stay. An update beyond the end of the box and a restore to a
  buffer that is too small are refused without effect, the latter with the size needed.
\<close>

theorem lockbox_update_restore:
  assumes "lb_inv env s" and "lb_content s g = Some c" and "2 ^ 32 \<le> MAX_ADDRESS env + 1"
    and "0 < buf" "0 < n" "buf + n \<le> MAX_ADDRESS env + 1"
    and "0 < dst" "dst + length c \<le> MAX_ADDRESS env + 1"
    and "\<forall>i. dst \<le> i \<and> i < dst + length c \<longrightarrow> in_use env i"
  shows "(off + n \<le> length c \<and> length c \<le> cap \<longrightarrow>
      (\<exists>s1 s2. UpdateLockBox env s (Some g) off buf n = Some (EFI_SUCCESS, s1) \<and>
        RestoreLockBox env s1 (Some g) dst (Some cap) = Some (EFI_SUCCESS, Some (length c), s2) \<and>
        mem_bytes (phys s2) dst (length c) = take off c @ mem_bytes (phys s) buf n @ drop (off + n) c \<and>
        lb_inv env s2 \<and> (\<forall>g'. g' \<noteq> g \<longrightarrow> lb_content s2 g' = lb_content s g'))) \<and>
    (length c < off + n \<longrightarrow> UpdateLockBox env s (Some g) off buf n = Some (EFI_BUFFER_TOO_SMALL, s)) \<and>
    (cap < length c \<longrightarrow> RestoreLockBox env s (Some g) dst (Some cap) = Some (EFI_BUFFER_TOO_SMALL, Some (length c), s))"
proof (intro conjI)
  show "length c < off + n \<longrightarrow> UpdateLockBox env s (Some g) off buf n = Some (EFI_BUFFER_TOO_SMALL, s)"
    using update_too_small assms by blast
  show "cap < length c \<longrightarrow> RestoreLockBox env s (Some g) dst (Some cap) = Some (EFI_BUFFER_TOO_SMALL, Some (length c), s)"
    using restore_too_small assms by blast
  show "off + n \<le> length c \<and> length c \<le> cap \<longrightarrow>
      (\<exists>s1 s2. UpdateLockBox env s (Some g) off buf n = Some (EFI_SUCCESS, s1) \<and>
        RestoreLockBox env s1 (Some g) dst (Some cap) = Some (EFI_SUCCESS, Some (length c), s2) \<and>
        mem_bytes (phys s2) dst (length c) = take off c @ mem_bytes (phys s) buf n @ drop (off + n) c \<and>
        lb_inv env s2 \<and> (\<forall>g'. g' \<noteq> g \<longrightarrow> lb_content s2 g' = lb_content s g'))" (is "?P \<longrightarrow> _")
  proof
    assume p: ?P
    let ?c = "take off c @ mem_bytes (phys s) buf n @ drop (off + n) c"
    obtain s1 where s1: "UpdateLockBox env s (Some g) off buf n = Some (EFI_SUCCESS, s1)" "lb_inv env s1"
      "lb_content s1 = (lb_content s)(g \<mapsto> ?c)" using update_outcome [OF assms(1-6)] p by blast
    have l: "length ?c = length c" using p by simp
    have "lb_content s1 g = Some ?c" using s1(3) by simp
    then obtain s2 where "RestoreLockBox env s1 (Some g) dst (Some cap) = Some (EFI_SUCCESS, Some (length c), s2)"
      "mem_bytes (phys s2) dst (length c) = ?c" "lb_inv env s2" "lb_content s2 = lb_content s1"
      using restore_outcome [OF s1(2) _ assms(3), of g ?c dst cap] assms(7-9) p unfolding l by blast
    with s1 show "\<exists>s1 s2. UpdateLockBox env s (Some g) off buf n = Some (EFI_SUCCESS, s1) \<and>
        RestoreLockBox env s1 (Some g) dst (Some cap) = Some (EFI_SUCCESS, Some (length c), s2) \<and>
        mem_bytes (phys s2) dst (length c) = ?c \<and> lb_inv env s2 \<and> (\<forall>g'. g' \<noteq> g \<longrightarrow> lb_content s2 g' = lb_content s g')"
      by fastforce
  qed
qed

text \<open>The witness replaces the middle of a box of four bytes.\<close>

theorem lockbox_update_restore_witness:
  "\<exists>s1 s2. UpdateLockBox demo_box_env demo_box2 (Some [7]) 1 20 2 = Some (EFI_SUCCESS, s1) \<and>
    RestoreLockBox demo_box_env s1 (Some [7]) 32 (Some 8) = Some (EFI_SUCCESS, Some 4, s2) \<and>
    mem_bytes (phys s2) 32 4 = [0, 20, 21, 3]"
proof -
  have m: "mem_bytes (phys demo_box2) 20 2 = [20, 21]"
    by (simp add: mem_bytes_def upt_rec demo_box2_def demo_box1_def demo_box_def)
  have l: "length [0, 1, 2, 3 :: byte] = 4" by simp
  have "\<exists>s1 s2. UpdateLockBox demo_box_env demo_box2 (Some [7]) 1 20 2 = Some (EFI_SUCCESS, s1) \<and>
      RestoreLockBox demo_box_env s1 (Some [7]) 32 (Some 8) = Some (EFI_SUCCESS, Some 4, s2) \<and>
      mem_bytes (phys s2) 32 4 = take 1 [0, 1, 2, 3] @ [20, 21] @ drop (1 + 2) [0, 1, 2, 3] \<and>
      lb_inv demo_box_env s2 \<and> (\<forall>g'. g' \<noteq> [7] \<longrightarrow> lb_content s2 g' = lb_content demo_box2 g')"
    by (rule lockbox_update_restore [OF demo_inv(2) demo_content, unfolded l, of 20 2 32 1 8, unfolded m, THEN conjunct1, THEN mp])
      simp_all
  then show ?thesis by simp blast
qed

text \<open>
  on resume, restoring all boxes in place succeeds and puts the contents of every box that allows
  it at its original address, for boxes whose original places do not overlap. Nothing
  else in memory changes, and the boxes keep their contents.
\<close>

theorem lockbox_restore_all:
  assumes "lb_inv env s" and "in_place_ok env (lb_used s)"
    and "2 ^ 32 \<le> MAX_ADDRESS env + 1" "MAX_ADDRESS env < 2 ^ 64"
  shows "\<exists>s'. RestoreAllLockBoxInPlace env s = Some (EFI_SUCCESS, s') \<and> lb_inv env s' \<and> lb_content s' = lb_content s \<and>
    (\<forall>h \<in> set (lb_used s). restorable env h \<longrightarrow> Some (mem_bytes (phys s') (OrigAddress h) (lb_Size h)) = lb_content s (lb_Guid h)) \<and>
    (\<forall>i. (\<forall>h \<in> set (lb_used s). restorable env h \<longrightarrow> \<not> in_area (orig_area h) i) \<longrightarrow> phys s' i = phys s i)"
  by (rule restore_all_outcome [OF assms])

text \<open>The witness restores one box of four bytes to address 16.\<close>

theorem lockbox_restore_all_witness:
  "\<exists>s'. RestoreAllLockBoxInPlace demo_box_env demo_box2 = Some (EFI_SUCCESS, s') \<and> mem_bytes (phys s') 16 4 = [0, 1, 2, 3]"
proof -
  have "in_place_ok demo_box_env (lb_used demo_box2)" by (simp add: in_place_ok_def orig_area_def)
  moreover have "restorable demo_box_env demo_entry" by (simp add: restorable_def)
  ultimately show ?thesis using lockbox_restore_all [of demo_box_env demo_box2] demo_inv(2) demo_content by auto
qed

text \<open>
  C20: what was saved survives. From cleared storage, after initialisation and any sequence of successful
  saves, and whatever happens to the memory in use by others afterwards, restoring a box
  to a large enough buffer delivers the bytes its original buffer had at the start.
\<close>

theorem lockbox_survives:
  assumes "lb_cleared s0" and "(LockBoxStorageSize env - sizeof_LOCK_BOX_GLOBAL) div sizeof_LOCK_BOX_ENTRY \<le> length (Entries s0)"
    and "LockBoxLibInitialize env s0 = Some (EFI_SUCCESS, s)" and "save_boxes env s xs = Some s'"
    and "pages_fresh env" and "2 ^ 32 \<le> MAX_ADDRESS env + 1" "MAX_ADDRESS env < 2 ^ 64"
    and "\<forall>(g, buf, n) \<in> set xs. lb_own env (buf, n)" and "(g, buf, n) \<in> set xs"
    and "\<forall>i. \<not> in_use env i \<longrightarrow> m i = phys s' i" and "lb_own env (dst, n)" and "n \<le> cap"
  shows "\<exists>s''. RestoreLockBox env (s'\<lparr>phys := m\<rparr>) (Some g) dst (Some cap) = Some (EFI_SUCCESS, Some n, s'') \<and>
    mem_bytes (phys s'') dst n = mem_bytes (phys s0) buf n"
proof -
  note ini = initialize_inv [OF assms(3,1,2)]
  have r: "lb_ready env s" using ini(1) assms(5-7) by (simp add: lb_ready_def)
  have sv: "lb.save_all (env, s) xs = Some (env, s')" using assms(4) by (simp add: save_boxes_all)
  have own: "\<forall>(k, a, n) \<in> set xs. lb_own (fst (env, s)) (a, n)" using assms(8) by simp
  have c: "lb_content s' g = Some (mem_bytes (phys s0) buf n)"
    using lb.save_all_content [OF _ own sv assms(9)] r ini(3) by simp
  have r': "lb_ready env s'" using lb.save_all_keeps [OF _ own sv] r by simp
  define s2 where "s2 = s'\<lparr>phys := m\<rparr>"
  have inv2: "lb_inv env s2" using r' by (simp add: s2_def inv_phys lb_ready_def)
  have "lb_content s2 g = lb_content s' g"
  proof (rule content_frame)
    fix h i assume "h \<in> set (lb_used s')" "in_area (entry_area h) i"
    then have "\<not> in_use env i" using inv_area(2) [of env s' h] r' by (cases "entry_area h") (auto simp: lb_ready_def)
    with assms(10) show "phys s2 i = phys s' i" by (simp add: s2_def)
  qed (simp add: s2_def lb_used_def)
  with c have c2: "lb_content s2 g = Some (mem_bytes (phys s0) buf n)" by simp
  show ?thesis using restore_outcome [OF inv2 c2 assms(6), of dst cap] assms(11,12) by (auto simp: lb_own_def s2_def)
qed

text \<open>The witness saves two boxes, has the client memory overwritten, and restores the second.\<close>

theorem lockbox_survives_witness:
  "\<exists>s' s''. save_boxes demo_box_env demo_box1 [([7], 16, 4), ([9], 32, 2)] = Some s' \<and>
    RestoreLockBox demo_box_env (s'\<lparr>phys := (\<lambda>i. if 16 \<le> i \<and> i < 64 then 0 else phys s' i)\<rparr>) (Some [9]) 40 (Some 8) = Some (EFI_SUCCESS, Some 2, s'') \<and>
    mem_bytes (phys s'') 40 2 = [32, 33]"
proof -
  have sv: "\<exists>s'. save_boxes demo_box_env demo_box1 [([7], 16, 4), ([9], 32, 2)] = Some s'"
    by (simp add: demo_box1_def demo_box_def SaveLockBox_def FindHeaderByGuid_def first_idx_Cons AllocateAcpiNvsPool_def
        AllocateMemoryBelow4G_def demo_pages_def lb_areas_def lb_used_def EFI_PAGE_SIZE_def EFI_SIZE_TO_PAGES_def CopyMem_def
        add32_def sub32_def no_box_def)
  then obtain s' where s': "save_boxes demo_box_env demo_box1 [([7], 16, 4), ([9], 32, 2)] = Some s'" by blast
  have m: "mem_bytes (phys demo_box) 32 2 = [32, 33]" by (simp add: mem_bytes_def upt_rec demo_box_def)
  have "\<exists>s''. RestoreLockBox demo_box_env (s'\<lparr>phys := (\<lambda>i. if 16 \<le> i \<and> i < 64 then 0 else phys s' i)\<rparr>) (Some [9]) 40 (Some 8) =
      Some (EFI_SUCCESS, Some 2, s'') \<and> mem_bytes (phys s'') 40 2 = mem_bytes (phys demo_box) 32 2"
  proof (rule lockbox_survives [OF _ _ demo_init s' demo_fresh])
    show "lb_cleared demo_box" "\<forall>(g, buf, n) \<in> set [([7], 16, 4), ([9], 32, 2)]. lb_own demo_box_env (buf, n)"
      "lb_own demo_box_env (40, 2)"
      by (simp_all add: lb_cleared_def lb_own_def demo_box_def)
    show "\<forall>i. \<not> in_use demo_box_env i \<longrightarrow> (if 16 \<le> i \<and> i < 64 then 0 else phys s' i) = phys s' i"
      using s' by simp
  qed (simp_all add: demo_box_def sizeof_LOCK_BOX_GLOBAL_def sizeof_LOCK_BOX_ENTRY_def)
  with s' m show ?thesis by auto
qed

end
