(* ===== verification/FwCfg.thy ===== *)
theory FwCfg
  imports EfiTypes
begin

text \<open>
  The firmware configuration interface of QEMU and its simple parser:
  \<^verbatim>\<open>Library/QemuFwCfgLib/QemuFwCfgLib.c\<close> with the PEI instance of its library
  (\<^verbatim>\<open>QemuFwCfgPei.c\<close>), \<^verbatim>\<open>Library/QemuFwCfgS3Lib/QemuFwCfgS3PeiDxe.c\<close> and
  \<^verbatim>\<open>Library/QemuFwCfgSimpleParserLib\<close>. The device is a parameter: the byte it delivers at an
  offset of an item. It keeps the item selected and the offset in it, by port and by DMA
  alike. A result \<open>None\<close> is an access outside a buffer or a failed assertion.
\<close>

section \<open>Device and state\<close>

type_synonym fw_dev = "nat \<Rightarrow> nat \<Rightarrow> byte"

record fw_cfg =
  mQemuFwCfgSupported :: bool
  mQemuFwCfgDmaSupported :: bool
  fw_item :: nat
  fw_offset :: nat
  fw_written :: "(nat \<times> nat \<times> byte list) list"

definition QemuFwCfgItemSignature :: nat where "QemuFwCfgItemSignature = 0"
definition QemuFwCfgItemInterfaceVersion :: nat where "QemuFwCfgItemInterfaceVersion = 1"
definition QemuFwCfgItemFileDir :: nat where "QemuFwCfgItemFileDir = 0x19"
definition QEMU_FW_CFG_FNAME_SIZE :: nat where "QEMU_FW_CFG_FNAME_SIZE = 56"
definition FW_CFG_F_DMA :: nat where "FW_CFG_F_DMA = 2"
definition MAX_UINT32 :: nat where "MAX_UINT32 = 0xFFFFFFFF"

text \<open>What a transfer of bytes from the device delivers, and the state it leaves.\<close>

definition dev_bytes :: "fw_dev \<Rightarrow> nat \<Rightarrow> nat \<Rightarrow> nat \<Rightarrow> byte list" where
  "dev_bytes dev item off n = map (dev item) [off..<off + n]"

definition dev_transfer :: "fw_dev \<Rightarrow> fw_cfg \<Rightarrow> nat \<Rightarrow> byte list \<times> fw_cfg" where
  "dev_transfer dev s n = (dev_bytes dev (fw_item s) (fw_offset s) n, s\<lparr>fw_offset := fw_offset s + n\<rparr>)"

section \<open>The library\<close>

definition QemuFwCfgSelectItem :: "fw_cfg \<Rightarrow> nat \<Rightarrow> fw_cfg" where
  "QemuFwCfgSelectItem s item = s\<lparr>fw_item := item mod 2 ^ 16, fw_offset := 0\<rparr>"

definition InternalQemuFwCfgReadBytes :: "fw_dev \<Rightarrow> fw_cfg \<Rightarrow> nat \<Rightarrow> byte list \<times> fw_cfg" where
  "InternalQemuFwCfgReadBytes dev s Size =
     (if mQemuFwCfgDmaSupported s \<and> Size \<le> MAX_UINT32 then dev_transfer dev s (Size mod 2 ^ 32)
      else dev_transfer dev s Size)"

definition QemuFwCfgReadBytes :: "fw_dev \<Rightarrow> fw_cfg \<Rightarrow> nat \<Rightarrow> byte list \<times> fw_cfg" where
  "QemuFwCfgReadBytes dev s Size =
     (if mQemuFwCfgSupported s then InternalQemuFwCfgReadBytes dev s Size else (replicate Size 0, s))"

definition QemuFwCfgWriteBytes :: "fw_cfg \<Rightarrow> byte list \<Rightarrow> fw_cfg" where
  "QemuFwCfgWriteBytes s Buffer =
     (if mQemuFwCfgSupported s
      then s\<lparr>fw_offset := fw_offset s + length Buffer, fw_written := fw_written s @ [(fw_item s, fw_offset s, Buffer)]\<rparr>
      else s)"

function skip_loop :: "fw_dev \<Rightarrow> fw_cfg \<Rightarrow> nat \<Rightarrow> fw_cfg" where
  "skip_loop dev s Size =
     (if 0 < Size then let ChunkSize = min Size 256 in skip_loop dev (snd (dev_transfer dev s ChunkSize)) (Size - ChunkSize)
      else s)"
  by auto
termination by (relation "measure (\<lambda>(dev, s, n). n)") auto
declare skip_loop.simps [simp del]

definition QemuFwCfgSkipBytes :: "fw_dev \<Rightarrow> fw_cfg \<Rightarrow> nat \<Rightarrow> fw_cfg" where
  "QemuFwCfgSkipBytes dev s Size =
     (if \<not> mQemuFwCfgSupported s then s
      else if mQemuFwCfgDmaSupported s \<and> Size \<le> MAX_UINT32 then s\<lparr>fw_offset := fw_offset s + Size\<rparr>
      else skip_loop dev s Size)"

definition read_le :: "nat \<Rightarrow> fw_dev \<Rightarrow> fw_cfg \<Rightarrow> nat \<times> fw_cfg" where
  "read_le n dev s = (let (bs, s') = QemuFwCfgReadBytes dev s n in (le_value bs, s'))"

definition QemuFwCfgRead8 :: "fw_dev \<Rightarrow> fw_cfg \<Rightarrow> nat \<times> fw_cfg" where "QemuFwCfgRead8 = read_le 1"
definition QemuFwCfgRead16 :: "fw_dev \<Rightarrow> fw_cfg \<Rightarrow> nat \<times> fw_cfg" where "QemuFwCfgRead16 = read_le 2"
definition QemuFwCfgRead32 :: "fw_dev \<Rightarrow> fw_cfg \<Rightarrow> nat \<times> fw_cfg" where "QemuFwCfgRead32 = read_le 4"
definition QemuFwCfgRead64 :: "fw_dev \<Rightarrow> fw_cfg \<Rightarrow> nat \<times> fw_cfg" where "QemuFwCfgRead64 = read_le 8"

definition QemuFwCfgInitialize :: "bool \<Rightarrow> fw_dev \<Rightarrow> fw_cfg \<Rightarrow> EFI_STATUS \<times> fw_cfg" where
  "QemuFwCfgInitialize sev dev s =
     (let s1 = s\<lparr>mQemuFwCfgSupported := True, mQemuFwCfgDmaSupported := False\<rparr>;
          (Signature, s2) = QemuFwCfgRead32 dev (QemuFwCfgSelectItem s1 QemuFwCfgItemSignature);
          (Revision, s3) = QemuFwCfgRead32 dev (QemuFwCfgSelectItem s2 QemuFwCfgItemInterfaceVersion)
      in if Signature \<noteq> le_value [0x51, 0x45, 0x4D, 0x55] \<or> Revision < 1
         then (EFI_SUCCESS, s3\<lparr>mQemuFwCfgSupported := False\<rparr>)
         else (EFI_SUCCESS, if Revision AND FW_CFG_F_DMA = 0 \<or> sev then s3 else s3\<lparr>mQemuFwCfgDmaSupported := True\<rparr>))"

definition SwapBytes16 :: "nat \<Rightarrow> nat" where "SwapBytes16 v = le_value (rev (le_bytes 2 v))"
definition SwapBytes32 :: "nat \<Rightarrow> nat" where "SwapBytes32 v = le_value (rev (le_bytes 4 v))"

text \<open>
  Whether a string without its terminator equals the string in a buffer, as a comparison
  byte by byte up to the first difference or the terminator finds out; \<open>norm\<close> is
  applied to the bytes before they are compared. Running off the buffer is a fault.
\<close>

fun strcmp_eq :: "(byte \<Rightarrow> byte) \<Rightarrow> byte list \<Rightarrow> byte list \<Rightarrow> bool option" where
  "strcmp_eq norm cs [] = None"
| "strcmp_eq norm [] (b # bs) = Some (b = 0)"
| "strcmp_eq norm (c # cs) (b # bs) =
     (if b \<noteq> 0 \<and> norm b = norm c then strcmp_eq norm cs bs else Some False)"

definition AsciiStrCmp :: "byte list \<Rightarrow> byte list \<Rightarrow> bool option" where
  "AsciiStrCmp = strcmp_eq (\<lambda>b. b)"

fun find_file_loop :: "fw_dev \<Rightarrow> byte list \<Rightarrow> nat \<Rightarrow> fw_cfg \<Rightarrow> (EFI_STATUS \<times> nat \<times> nat \<times> fw_cfg) option" where
  "find_file_loop dev Name 0 s = Some (EFI_NOT_FOUND, 0, 0, s)"
| "find_file_loop dev Name (Suc left) s =
     (let (FileSize, s1) = QemuFwCfgRead32 dev s;
          (FileSelect, s2) = QemuFwCfgRead16 dev s1;
          (FileReserved, s3) = QemuFwCfgRead16 dev s2;
          (FName, s4) = InternalQemuFwCfgReadBytes dev s3 QEMU_FW_CFG_FNAME_SIZE
      in Option.bind (AsciiStrCmp Name FName) (\<lambda>eq.
         if eq then Some (EFI_SUCCESS, SwapBytes16 FileSelect, SwapBytes32 FileSize, s4)
         else find_file_loop dev Name left s4))"

text \<open>Status, item and size; the last two are set on success only.\<close>

definition QemuFwCfgFindFile :: "fw_dev \<Rightarrow> fw_cfg \<Rightarrow> byte list \<Rightarrow> (EFI_STATUS \<times> nat \<times> nat \<times> fw_cfg) option" where
  "QemuFwCfgFindFile dev s Name =
     (if \<not> mQemuFwCfgSupported s then Some (EFI_UNSUPPORTED, 0, 0, s)
      else let (Count, s1) = QemuFwCfgRead32 dev (QemuFwCfgSelectItem s QemuFwCfgItemFileDir)
      in find_file_loop dev Name (SwapBytes32 Count) s1)"

text \<open>The ASCII bytes of a literal.\<close>

definition ascii :: "string \<Rightarrow> byte list" where
  "ascii cs = map (\<lambda>c. of_nat (of_char c)) cs"

definition QemuFwCfgS3Enabled :: "fw_dev \<Rightarrow> fw_cfg \<Rightarrow> (bool \<times> fw_cfg) option" where
  "QemuFwCfgS3Enabled dev s =
     Option.bind (QemuFwCfgFindFile dev s (ascii ''etc/system-states'')) (\<lambda>(Status, FwCfgItem, FwCfgSize, s1).
     if Status \<noteq> EFI_SUCCESS \<or> FwCfgSize \<noteq> 6 then Some (False, s1)
     else let (SystemStates, s2) = QemuFwCfgReadBytes dev (QemuFwCfgSelectItem s1 FwCfgItem) 6
     in Some (SystemStates ! 3 AND 0x80 \<noteq> 0, s2))"

section \<open>The parser\<close>

definition UINT64_STRING_MAX_SIZE :: nat where "UINT64_STRING_MAX_SIZE = max 21 19"
definition BOOL_STRING_MAX_SIZE :: nat where "BOOL_STRING_MAX_SIZE = 9"
definition CRLF_LENGTH :: nat where "CRLF_LENGTH = 3 - 1"

definition mTrueString :: "string list" where
  "mTrueString = [''true'', ''yes'', ''y'', ''enable'', ''enabled'', ''1'']"

definition mFalseString :: "string list" where
  "mFalseString = [''false'', ''no'', ''n'', ''disable'', ''disabled'', ''0'']"

text \<open>
  Status, buffer size and buffer. \<open>BufferSize\<close> is the size of \<open>Buffer\<close> on
  entry.
\<close>

definition QemuFwCfgGetAsString ::
  "fw_dev \<Rightarrow> fw_cfg \<Rightarrow> byte list \<Rightarrow> nat \<Rightarrow> byte list \<Rightarrow> (EFI_STATUS \<times> nat \<times> byte list \<times> fw_cfg) option" where
  "QemuFwCfgGetAsString dev s FileName BufferSize Buffer =
     (if \<not> mQemuFwCfgSupported s then Some (EFI_UNSUPPORTED, BufferSize, Buffer, s)
      else Option.bind (QemuFwCfgFindFile dev s FileName) (\<lambda>(Status, FwCfgItem, FwCfgSize, s1).
        if Status \<noteq> EFI_SUCCESS then Some (Status, BufferSize, Buffer, s1)
        else if BufferSize < FwCfgSize then Some (EFI_PROTOCOL_ERROR, BufferSize, Buffer, s1)
        else let (bytes, s2) = QemuFwCfgReadBytes dev (QemuFwCfgSelectItem s1 FwCfgItem) FwCfgSize
        in Option.bind (store_bytes Buffer 0 bytes) (\<lambda>Buffer1.
           if 0 < FwCfgSize \<and> load8 Buffer1 (FwCfgSize - 1) = Some 0 then Some (EFI_SUCCESS, FwCfgSize, Buffer1, s2)
           else if FwCfgSize = BufferSize then Some (EFI_PROTOCOL_ERROR, BufferSize, Buffer1, s2)
           else map_option (\<lambda>Buffer2. (EFI_SUCCESS, FwCfgSize + 1, Buffer2, s2)) (store_bytes Buffer1 FwCfgSize [0]))))"

definition StripNewline :: "nat \<Rightarrow> byte list \<Rightarrow> (nat \<times> byte list) option" where
  "StripNewline InSize Buffer =
     (let OutSize = (if 3 \<le> InSize \<and> load8 Buffer (InSize - 3) = Some 0x0D \<and> load8 Buffer (InSize - 2) = Some 0x0A then InSize - 2
                     else if 2 \<le> InSize \<and> load8 Buffer (InSize - 2) = Some 0x0A then InSize - 1
                     else InSize)
      in if OutSize < InSize then map_option (Pair OutSize) (store_bytes Buffer (OutSize - 1) [0])
         else Some (InSize, Buffer))"

text \<open>
  The number parsers of the base library: from a buffer with a terminated string, the status,
  the index the end pointer is at, and the value.
\<close>

record str_lib =
  AsciiStrHexToUint64S :: "byte list \<Rightarrow> EFI_STATUS \<times> nat \<times> nat"
  AsciiStrDecimalToUint64S :: "byte list \<Rightarrow> EFI_STATUS \<times> nat \<times> nat"

text \<open>Status, the value if it is set, and the state. The first buffer contents are indeterminate.\<close>

definition QemuFwCfgParseUint64WithLimit ::
  "str_lib \<Rightarrow> byte list \<Rightarrow> fw_dev \<Rightarrow> fw_cfg \<Rightarrow> byte list \<Rightarrow> bool \<Rightarrow> nat \<Rightarrow> (EFI_STATUS \<times> nat option \<times> fw_cfg) option" where
  "QemuFwCfgParseUint64WithLimit lib Uint64String dev s FileName ParseAsHex Limit =
     Option.bind (QemuFwCfgGetAsString dev s FileName (UINT64_STRING_MAX_SIZE + CRLF_LENGTH) Uint64String)
       (\<lambda>(Status, Uint64StringSize, Buffer, s1).
     if Status \<noteq> EFI_SUCCESS then Some (Status, None, s1)
     else Option.bind (StripNewline Uint64StringSize Buffer) (\<lambda>(size1, Buffer1).
       let (Status2, EndPointer, Uint64) = (if ParseAsHex then AsciiStrHexToUint64S lib Buffer1 else AsciiStrDecimalToUint64S lib Buffer1)
       in if Status2 \<noteq> EFI_SUCCESS then Some (Status2, None, s1)
          else Option.bind (load8 Buffer1 EndPointer) (\<lambda>c.
            if EndPointer = 0 \<or> c \<noteq> 0 \<or> Limit < Uint64 then Some (EFI_PROTOCOL_ERROR, None, s1)
            else Some (EFI_SUCCESS, Some Uint64, s1))))"

definition QemuFwCfgSimpleParserInit :: EFI_STATUS where
  "QemuFwCfgSimpleParserInit = EFI_SUCCESS"

definition ascii_upper :: "byte \<Rightarrow> byte" where
  "ascii_upper b = (if 97 \<le> b \<and> b \<le> 122 then b - 32 else b)"

definition AsciiStriCmp :: "byte list \<Rightarrow> byte list \<Rightarrow> bool option" where
  "AsciiStriCmp = strcmp_eq ascii_upper"

text \<open>Whether one of the words is the string in the buffer.\<close>

fun match_words :: "string list \<Rightarrow> byte list \<Rightarrow> bool option" where
  "match_words [] Buffer = Some False"
| "match_words (w # ws) Buffer =
     Option.bind (AsciiStriCmp (ascii w) Buffer) (\<lambda>eq. if eq then Some True else match_words ws Buffer)"

definition QemuFwCfgParseBool ::
  "byte list \<Rightarrow> fw_dev \<Rightarrow> fw_cfg \<Rightarrow> byte list \<Rightarrow> (EFI_STATUS \<times> bool option \<times> fw_cfg) option" where
  "QemuFwCfgParseBool BoolString dev s FileName =
     Option.bind (QemuFwCfgGetAsString dev s FileName (BOOL_STRING_MAX_SIZE + CRLF_LENGTH) BoolString)
       (\<lambda>(Status, BoolStringSize, Buffer, s1).
     if Status \<noteq> EFI_SUCCESS then Some (Status, None, s1)
     else Option.bind (StripNewline BoolStringSize Buffer) (\<lambda>(size1, Buffer1).
       Option.bind (match_words mTrueString Buffer1) (\<lambda>t.
       if t then Some (EFI_SUCCESS, Some True, s1)
       else Option.bind (match_words mFalseString Buffer1) (\<lambda>f.
         if f then Some (EFI_SUCCESS, Some False, s1) else Some (EFI_PROTOCOL_ERROR, None, s1)))))"

text \<open>The fixed-width variants: the limit, and the cast of the result to the width.\<close>

definition parse_cast ::
  "nat \<Rightarrow> str_lib \<Rightarrow> byte list \<Rightarrow> fw_dev \<Rightarrow> fw_cfg \<Rightarrow> byte list \<Rightarrow> bool \<Rightarrow> (EFI_STATUS \<times> nat option \<times> fw_cfg) option" where
  "parse_cast w lib buf dev s FileName ParseAsHex =
     map_option (\<lambda>(Status, v, s1). (Status, map_option (\<lambda>Uint64. Uint64 mod 2 ^ w) v, s1))
       (QemuFwCfgParseUint64WithLimit lib buf dev s FileName ParseAsHex (2 ^ w - 1))"

definition QemuFwCfgParseUint8 where "QemuFwCfgParseUint8 = parse_cast 8"
definition QemuFwCfgParseUint16 where "QemuFwCfgParseUint16 = parse_cast 16"
definition QemuFwCfgParseUint32 where "QemuFwCfgParseUint32 = parse_cast 32"
definition QemuFwCfgParseUint64 where "QemuFwCfgParseUint64 = parse_cast 64"
definition QemuFwCfgParseUintn where "QemuFwCfgParseUintn = parse_cast 64"

end
