(* ===== verification/FwCfgProps.thy ===== *)
theory FwCfgProps
  imports FwCfg
begin

text \<open>
  Files of the firmware configuration device are found by name and parsed as numbers and
  booleans. The device publishes a directory in the documented format: a count and
  one entry per file with size, item and name, numbers in big-endian order.
\<close>

section \<open>Transfers\<close>

lemma dev_bytes_length [simp]: "length (dev_bytes dev item off n) = n"
  by (simp add: dev_bytes_def)

lemma dev_bytes_add: "dev_bytes dev item off (n + m) = dev_bytes dev item off n @ dev_bytes dev item (off + n) m"
proof -
  have "[off..<off + (n + m)] = [off..<off + n] @ [off + n..<off + n + m]"
    using upt_add_eq_append [of off "off + n" m] by (simp add: add.assoc)
  then show ?thesis by (simp add: dev_bytes_def)
qed

lemma dev_bytes_split:
  assumes "dev_bytes dev item off (length (xs @ ys)) = xs @ ys"
  shows "dev_bytes dev item off (length xs) = xs" "dev_bytes dev item (off + length xs) (length ys) = ys"
  using assms dev_bytes_add [of dev item off "length xs" "length ys"] by (simp_all add: append_eq_append_conv)

lemma skip_loop_offset: "skip_loop dev s n = s\<lparr>fw_offset := fw_offset s + n\<rparr>"
proof (induction dev s n rule: skip_loop.induct)
  case (1 dev s n)
  show ?case
    by (subst skip_loop.simps) (use 1 [OF _ refl] in \<open>simp add: Let_def dev_transfer_def\<close>)
qed

lemma internal_read: "InternalQemuFwCfgReadBytes dev s n = dev_transfer dev s n"
  by (auto simp: InternalQemuFwCfgReadBytes_def MAX_UINT32_def)

lemma read_bytes: "mQemuFwCfgSupported s \<Longrightarrow> QemuFwCfgReadBytes dev s n = dev_transfer dev s n"
  by (simp add: QemuFwCfgReadBytes_def internal_read)

lemma dev_transfer_bytes:
  "dev_bytes dev (fw_item s) (fw_offset s) (length bs) = bs \<Longrightarrow> n = length bs \<Longrightarrow>
    dev_transfer dev s n = (bs, s\<lparr>fw_offset := fw_offset s + n\<rparr>)"
  by (simp add: dev_transfer_def)

lemmas fw_read_defs = QemuFwCfgRead8_def QemuFwCfgRead16_def QemuFwCfgRead32_def QemuFwCfgRead64_def read_le_def read_bytes

section \<open>Directories\<close>

definition be_bytes :: "nat \<Rightarrow> nat \<Rightarrow> byte list" where
  "be_bytes n v = rev (le_bytes n v)"

type_synonym dir_entry = "byte list \<times> nat \<times> nat"

fun entry_image :: "dir_entry \<Rightarrow> byte list" where
  "entry_image (name, sz, item) =
     be_bytes 4 sz @ be_bytes 2 item @ [0, 0] @ name @ replicate (QEMU_FW_CFG_FNAME_SIZE - length name) 0"

fun entry_ok :: "dir_entry \<Rightarrow> bool" where
  "entry_ok (name, sz, item) \<longleftrightarrow> 0 \<notin> set name \<and> length name < QEMU_FW_CFG_FNAME_SIZE \<and> sz < 2 ^ 32 \<and> item < 2 ^ 16"

definition dir_image :: "dir_entry list \<Rightarrow> byte list" where
  "dir_image es = be_bytes 4 (length es) @ concat (map entry_image es)"

definition dev_holds :: "fw_dev \<Rightarrow> nat \<Rightarrow> byte list \<Rightarrow> bool" where
  "dev_holds dev item bs \<longleftrightarrow> dev_bytes dev item 0 (length bs) = bs"

definition publishes :: "fw_dev \<Rightarrow> dir_entry list \<Rightarrow> bool" where
  "publishes dev es \<longleftrightarrow> dev_holds dev QemuFwCfgItemFileDir (dir_image es) \<and> length es < 2 ^ 32 \<and> (\<forall>e \<in> set es. entry_ok e)"

lemma be_bytes_length [simp]: "length (be_bytes n v) = n"
  by (simp add: be_bytes_def)

lemma swap32: "v < 2 ^ 32 \<Longrightarrow> SwapBytes32 (le_value (be_bytes 4 v)) = v"
  using le_bytes_le_value [of "be_bytes 4 v"] by (simp add: SwapBytes32_def) (simp add: be_bytes_def le_value_le_bytes)

lemma swap16: "v < 2 ^ 16 \<Longrightarrow> SwapBytes16 (le_value (be_bytes 2 v)) = v"
  using le_bytes_le_value [of "be_bytes 2 v"] by (simp add: SwapBytes16_def) (simp add: be_bytes_def le_value_le_bytes)

lemma strcmp_terminated: "0 \<notin> set bs \<Longrightarrow> strcmp_eq norm cs (bs @ 0 # rest) = Some (map norm cs = map norm bs)"
proof (induction norm cs "bs @ 0 # rest" arbitrary: bs rule: strcmp_eq.induct)
  case (2 norm b bs')
  then show ?case by (cases bs) auto
next
  case (3 norm c cs b bs')
  then show ?case by (cases bs) auto
qed simp

lemma entry_read:
  assumes sup: "mQemuFwCfgSupported s" and ok: "entry_ok (name, sz, item)"
    and img: "dev_bytes dev (fw_item s) (fw_offset s) (length (entry_image (name, sz, item))) = entry_image (name, sz, item)"
  shows "find_file_loop dev Name (Suc k) s =
    (let s' = s\<lparr>fw_offset := fw_offset s + 64\<rparr>
     in if name = Name then Some (EFI_SUCCESS, item, sz, s') else find_file_loop dev Name k s')"
proof -
  let ?fn = "name @ replicate (QEMU_FW_CFG_FNAME_SIZE - length name) 0"
  note d = img [unfolded entry_image.simps]
  note d1 = dev_bytes_split(1) [OF d] and d' = dev_bytes_split(2) [OF d]
  note d2 = dev_bytes_split(1) [OF d'] and d'' = dev_bytes_split(2) [OF d']
  note d3 = dev_bytes_split(1) [OF d''] and d4 = dev_bytes_split(2) [OF d'']
  have l: "length ?fn = 56" using ok by (simp add: QEMU_FW_CFG_FNAME_SIZE_def)
  let ?s1 = "s\<lparr>fw_offset := fw_offset s + 4\<rparr>" and ?s2 = "s\<lparr>fw_offset := fw_offset s + 4 + 2\<rparr>"
    and ?s3 = "s\<lparr>fw_offset := fw_offset s + 4 + 2 + 2\<rparr>"
  have r1: "QemuFwCfgRead32 dev s = (le_value (be_bytes 4 sz), ?s1)"
    using dev_transfer_bytes [of dev s "be_bytes 4 sz"] d1 sup by (simp add: fw_read_defs)
  have r2: "QemuFwCfgRead16 dev ?s1 = (le_value (be_bytes 2 item), ?s2)"
    using dev_transfer_bytes [of dev ?s1 "be_bytes 2 item"] d2 sup by (simp add: fw_read_defs)
  have r3: "QemuFwCfgRead16 dev ?s2 = (0, ?s3)"
    using dev_transfer_bytes [of dev ?s2 "[0, 0]" 2] d3 sup by (simp add: fw_read_defs numeral_2_eq_2)
  have r4: "InternalQemuFwCfgReadBytes dev ?s3 56 = (?fn, s\<lparr>fw_offset := fw_offset s + 64\<rparr>)"
    using dev_transfer_bytes [of dev ?s3 ?fn 56] d4 l by (simp add: internal_read)
  from ok have "0 < QEMU_FW_CFG_FNAME_SIZE - length name" by simp
  then obtain j where "QEMU_FW_CFG_FNAME_SIZE - length name = Suc j" using gr0_implies_Suc by blast
  then have c: "AsciiStrCmp Name ?fn = Some (Name = name)"
    using strcmp_terminated [of name "\<lambda>b. b" Name] ok by (simp add: AsciiStrCmp_def)
  have q: "QEMU_FW_CFG_FNAME_SIZE = 56" by (simp add: QEMU_FW_CFG_FNAME_SIZE_def)
  have r4': "InternalQemuFwCfgReadBytes dev ?s3 QEMU_FW_CFG_FNAME_SIZE = (?fn, s\<lparr>fw_offset := fw_offset s + 64\<rparr>)"
    using r4 unfolding q .
  show ?thesis using ok by (simp only: find_file_loop.simps r1 r2 Let_def prod.case r3 r4' c) (auto simp: swap16 swap32)
qed

lemma entry_length: "entry_ok e \<Longrightarrow> length (entry_image e) = 64"
  by (cases e) (simp add: QEMU_FW_CFG_FNAME_SIZE_def)

text \<open>What the directory says about a name: status, item and size.\<close>

definition lookup_entry :: "dir_entry list \<Rightarrow> byte list \<Rightarrow> EFI_STATUS \<times> nat \<times> nat" where
  "lookup_entry es Name = (case find (\<lambda>e. fst e = Name) es of
     None \<Rightarrow> (EFI_NOT_FOUND, 0, 0) | Some (name, sz, item) \<Rightarrow> (EFI_SUCCESS, item, sz))"

definition found_in :: "fw_cfg \<Rightarrow> EFI_STATUS \<times> nat \<times> nat \<Rightarrow> (EFI_STATUS \<times> nat \<times> nat \<times> fw_cfg) option" where
  "found_in s r = Some (fst r, fst (snd r), snd (snd r), s)"

lemma find_loop:
  assumes "mQemuFwCfgSupported s" and "\<forall>e \<in> set es. entry_ok e"
    and "dev_bytes dev (fw_item s) (fw_offset s) (length (concat (map entry_image es))) = concat (map entry_image es)"
  shows "\<exists>off. find_file_loop dev Name (length es) s = found_in (s\<lparr>fw_offset := off\<rparr>) (lookup_entry es Name)"
  using assms
proof (induction es arbitrary: s)
  case Nil
  show ?case by (rule exI [of _ "fw_offset s"]) (simp add: found_in_def lookup_entry_def)
next
  case (Cons e es)
  obtain name sz item where e: "e = (name, sz, item)" by (metis prod_cases3)
  have img: "dev_bytes dev (fw_item s) (fw_offset s) (length (entry_image e @ concat (map entry_image es))) =
      entry_image e @ concat (map entry_image es)" using Cons.prems(3) by simp
  have ok: "entry_ok e" using Cons.prems(2) by simp
  note st = entry_read [OF Cons.prems(1), of name sz item dev Name "length es"]
  let ?s = "s\<lparr>fw_offset := fw_offset s + 64\<rparr>"
  obtain off where off: "find_file_loop dev Name (length es) ?s = found_in (?s\<lparr>fw_offset := off\<rparr>) (lookup_entry es Name)"
    using Cons.IH [of ?s] Cons.prems dev_bytes_split(2) [OF img] entry_length [OF ok] by auto
  show ?case
  proof (cases "name = Name")
    case True
    then show ?thesis using st dev_bytes_split(1) [OF img] ok e by (auto simp: found_in_def lookup_entry_def)
  next
    case False
    with st dev_bytes_split(1) [OF img] ok e off show ?thesis
      by (intro exI [of _ off]) (simp add: found_in_def lookup_entry_def)
  qed
qed

lemma find_file_published:
  assumes "mQemuFwCfgSupported s" and "publishes dev es"
  shows "\<exists>off. QemuFwCfgFindFile dev s Name = found_in (s\<lparr>fw_item := QemuFwCfgItemFileDir, fw_offset := off\<rparr>) (lookup_entry es Name)"
proof -
  have h: "dev_bytes dev QemuFwCfgItemFileDir 0 (length (dir_image es)) = dir_image es" "length es < 2 ^ 32"
    "\<forall>e \<in> set es. entry_ok e" using assms(2) by (auto simp: publishes_def dev_holds_def)
  note d = dev_bytes_split [OF h(1) [unfolded dir_image_def]]
  let ?s = "s\<lparr>fw_item := QemuFwCfgItemFileDir, fw_offset := 0\<rparr>" and ?s1 = "s\<lparr>fw_item := QemuFwCfgItemFileDir, fw_offset := 4\<rparr>"
  have sel: "QemuFwCfgSelectItem s QemuFwCfgItemFileDir = ?s"
    by (simp add: QemuFwCfgSelectItem_def QemuFwCfgItemFileDir_def)
  have r: "QemuFwCfgRead32 dev ?s = (le_value (be_bytes 4 (length es)), ?s1)"
    using dev_transfer_bytes [of dev ?s "be_bytes 4 (length es)"] d(1) assms(1) by (simp add: fw_read_defs)
  have "QemuFwCfgFindFile dev s Name = find_file_loop dev Name (length es) ?s1"
    using assms(1) swap32 [OF h(2)] by (simp add: QemuFwCfgFindFile_def sel r)
  moreover have "\<exists>off. find_file_loop dev Name (length es) ?s1 = found_in (?s1\<lparr>fw_offset := off\<rparr>) (lookup_entry es Name)"
    using assms(1) h(3) d(2) by (intro find_loop) simp_all
  ultimately show ?thesis by simp
qed

section \<open>Text files\<close>

text \<open>A file with a text in it, terminated or not, and the text without a final line break.\<close>

definition text_file :: "fw_dev \<Rightarrow> dir_entry list \<Rightarrow> byte list \<Rightarrow> byte list \<Rightarrow> bool" where
  "text_file dev es FileName ts \<longleftrightarrow> 0 \<notin> set ts \<and>
     (\<exists>item data. lookup_entry es FileName = (EFI_SUCCESS, item, length data) \<and> dev_holds dev item data \<and>
       (data = ts \<or> data = ts @ [0]))"

definition chomp :: "byte list \<Rightarrow> byte list" where
  "chomp ts = (if 2 \<le> length ts \<and> drop (length ts - 2) ts = [0x0D, 0x0A] then take (length ts - 2) ts
     else if 1 \<le> length ts \<and> last ts = 0x0A then butlast ts else ts)"

lemma lookup_item:
  assumes "publishes dev es" "lookup_entry es FileName = (EFI_SUCCESS, item, n)"
  shows "item < 2 ^ 16"
proof -
  from assms(2) obtain e where e: "find (\<lambda>e. fst e = FileName) es = Some e" "snd (snd e) = item"
    by (auto simp: lookup_entry_def split: option.splits)
  then have "e \<in> set es" by (auto simp: find_Some_iff)
  with assms(1) have "entry_ok e" by (simp add: publishes_def)
  with e show ?thesis by (cases e) auto
qed

lemma store_front: "length bs \<le> length m \<Longrightarrow> store_bytes m 0 bs = Some (bs @ drop (length bs) m)"
  by (simp add: store_bytes_def)

lemma get_string:
  assumes sup: "mQemuFwCfgSupported s" and pub: "publishes dev es" and tf: "text_file dev es FileName ts" and len: "length Buffer = n"
  shows "\<exists>s'. length ts < n \<longrightarrow>
      (\<exists>rest. QemuFwCfgGetAsString dev s FileName n Buffer = Some (EFI_SUCCESS, length ts + 1, ts @ 0 # rest, s'))"
    and "n \<le> length ts \<Longrightarrow>
      \<exists>k buf s'. QemuFwCfgGetAsString dev s FileName n Buffer = Some (EFI_PROTOCOL_ERROR, k, buf, s')"
proof -
  from tf obtain item data where d: "0 \<notin> set ts" "lookup_entry es FileName = (EFI_SUCCESS, item, length data)" "dev_holds dev item data"
    "data = ts \<or> data = ts @ [0]" by (auto simp: text_file_def)
  obtain off where f: "QemuFwCfgFindFile dev s FileName = found_in (s\<lparr>fw_item := QemuFwCfgItemFileDir, fw_offset := off\<rparr>) (lookup_entry es FileName)"
    using find_file_published [OF sup pub] by blast
  define s1 where "s1 = s\<lparr>fw_item := QemuFwCfgItemFileDir, fw_offset := off\<rparr>"
  have it: "item < 2 ^ 16" by (rule lookup_item [OF pub d(2)])
  have r: "QemuFwCfgReadBytes dev (QemuFwCfgSelectItem s1 item) (length data) = (data, s\<lparr>fw_item := item, fw_offset := length data\<rparr>)"
    using dev_transfer_bytes [of dev "QemuFwCfgSelectItem s1 item" data] sup d(3) it
    by (simp add: read_bytes QemuFwCfgSelectItem_def dev_holds_def s1_def)
  define s2 where "s2 = s\<lparr>fw_item := item, fw_offset := length data\<rparr>"
  let ?b = "data @ drop (length data) Buffer"
  have big: "QemuFwCfgGetAsString dev s FileName n Buffer = Some (EFI_PROTOCOL_ERROR, n, Buffer, s1)" if "n < length data"
    using that by (simp add: QemuFwCfgGetAsString_def f found_in_def d(2) sup s1_def)
  have ev: "QemuFwCfgGetAsString dev s FileName n Buffer =
      (if 0 < length data \<and> load8 ?b (length data - 1) = Some 0 then Some (EFI_SUCCESS, length data, ?b, s2)
       else if length data = n then Some (EFI_PROTOCOL_ERROR, n, ?b, s2)
       else map_option (\<lambda>Buffer2. (EFI_SUCCESS, length data + 1, Buffer2, s2)) (store_bytes ?b (length data) [0]))"
    if "length data \<le> n"
    using that len r [unfolded s1_def] by (simp add: QemuFwCfgGetAsString_def f found_in_def d(2) sup store_front s2_def)
  have nz: "\<not> (0 < length data \<and> load8 ?b (length data - 1) = Some 0)" if "data = ts"
  proof
    assume a: "0 < length data \<and> load8 ?b (length data - 1) = Some 0"
    then have "ts \<noteq> []" "last ts = 0" using that by (auto simp: load8_def nth_append last_conv_nth split: if_splits)
    with d(1) last_in_set [of ts] show False by simp
  qed
  show "\<exists>s'. length ts < n \<longrightarrow>
      (\<exists>rest. QemuFwCfgGetAsString dev s FileName n Buffer = Some (EFI_SUCCESS, length ts + 1, ts @ 0 # rest, s'))"
  proof (intro exI [of _ s2] impI)
    assume n: "length ts < n"
    show "\<exists>rest. QemuFwCfgGetAsString dev s FileName n Buffer = Some (EFI_SUCCESS, length ts + 1, ts @ 0 # rest, s2)"
    proof (cases "data = ts @ [0]")
      case True
      with n ev show ?thesis by (simp add: load8_def)
    next
      case False
      with d(4) have data: "data = ts" by simp
      have "store_bytes ?b (length data) [0] = Some (ts @ 0 # drop (length ts + 1) Buffer)"
        using n len data by (simp add: store_bytes_def)
      with n ev nz data show ?thesis by simp
    qed
  qed
  assume n: "n \<le> length ts"
  show "\<exists>k buf s'. QemuFwCfgGetAsString dev s FileName n Buffer = Some (EFI_PROTOCOL_ERROR, k, buf, s')"
  proof (cases "n < length data")
    case False
    with n d(4) have "data = ts" "n = length ts" by auto
    with ev nz show ?thesis by simp
  qed (use big in blast)
qed

lemma strip_newline:
  "\<exists>rest'. StripNewline (length ts + 1) (ts @ 0 # rest) = Some (length (chomp ts) + 1, chomp ts @ 0 # rest')"
proof -
  consider t where "ts = t @ [0x0D, 0x0A]" | t where "ts = t @ [0x0A]" "\<not> (\<exists>u. t = u @ [0x0D])"
    | "ts = [] \<or> last ts \<noteq> 0x0A"
  proof (cases "ts = [] \<or> last ts \<noteq> 0x0A")
    case False
    then obtain t where t: "ts = t @ [0x0A]" by (metis append_butlast_last_id)
    then show thesis using that(1,2) by (cases "\<exists>u. t = u @ [0x0D]") auto
  qed (use that in blast)
  then show ?thesis
  proof cases
    case 1
    then show ?thesis by (simp add: StripNewline_def chomp_def load8_def nth_append store_bytes_def)
  next
    case 2
    then have "\<not> (2 \<le> length ts \<and> drop (length ts - 2) ts = [0x0D, 0x0A])"
      by (cases t rule: rev_cases) auto
    moreover have "t = [] \<or> t ! (length t - 1) \<noteq> 0x0D" using 2 by (cases t rule: rev_cases) auto
    ultimately show ?thesis using 2(1)
      by (auto simp: StripNewline_def chomp_def load8_def nth_append store_bytes_def)
  next
    case 3
    then have "ts = [] \<or> ts ! (length ts - 1) \<noteq> 0x0A" by (auto simp: last_conv_nth)
    moreover have "chomp ts = ts" using 3 by (cases ts rule: rev_cases) (auto simp: chomp_def)
    ultimately show ?thesis by (auto simp: StripNewline_def load8_def nth_append)
  qed
qed

lemma chomp_set: "0 \<notin> set ts \<Longrightarrow> 0 \<notin> set (chomp ts)"
  by (auto simp: chomp_def dest: in_set_takeD in_set_butlastD)

lemma text_string:
  assumes "mQemuFwCfgSupported s" and "publishes dev es" and "text_file dev es FileName ts" and "length Buffer = n" and "length ts < n"
  shows "\<exists>s' rest rest'. QemuFwCfgGetAsString dev s FileName n Buffer = Some (EFI_SUCCESS, length ts + 1, ts @ 0 # rest, s') \<and>
    StripNewline (length ts + 1) (ts @ 0 # rest) = Some (length (chomp ts) + 1, chomp ts @ 0 # rest')"
  using get_string(1) [OF assms(1-4)] assms(5) strip_newline by blast

lemma parse_text:
  assumes "mQemuFwCfgSupported s" and "publishes dev es" and "text_file dev es FileName ts"
    and "length buf = UINT64_STRING_MAX_SIZE + CRLF_LENGTH" and "length ts < length buf"
    and lib: "\<forall>rest. (if hex then AsciiStrHexToUint64S lib else AsciiStrDecimalToUint64S lib) (chomp ts @ 0 # rest) = (EFI_SUCCESS, k, v)"
    and k: "k \<le> length (chomp ts)"
  shows "\<exists>s'. QemuFwCfgParseUint64WithLimit lib buf dev s FileName hex Limit =
    Some (if 0 < k \<and> k = length (chomp ts) \<and> v \<le> Limit then (EFI_SUCCESS, Some v, s') else (EFI_PROTOCOL_ERROR, None, s'))"
proof -
  from text_string [OF assms(1-4)] assms(4,5) obtain s' rest rest' where
    g: "QemuFwCfgGetAsString dev s FileName (UINT64_STRING_MAX_SIZE + CRLF_LENGTH) buf = Some (EFI_SUCCESS, length ts + 1, ts @ 0 # rest, s')"
    "StripNewline (length ts + 1) (ts @ 0 # rest) = Some (length (chomp ts) + 1, chomp ts @ 0 # rest')" by auto
  have nz: "0 \<notin> set (chomp ts)" using assms(3) by (intro chomp_set) (simp add: text_file_def)
  have c: "load8 (chomp ts @ 0 # rest') k = Some (if k = length (chomp ts) then 0 else chomp ts ! k)"
    using k by (auto simp: load8_def nth_append)
  have "k \<noteq> length (chomp ts) \<Longrightarrow> chomp ts ! k \<noteq> 0" using nz k by (metis le_neq_implies_less nth_mem)
  moreover have "(if hex then AsciiStrHexToUint64S lib (chomp ts @ 0 # rest') else AsciiStrDecimalToUint64S lib (chomp ts @ 0 # rest')) = (EFI_SUCCESS, k, v)"
    using lib by (simp split: if_splits)
  ultimately show ?thesis using c
    by (intro exI [of _ s']) (simp only: QemuFwCfgParseUint64WithLimit_def g Option.bind.simps prod.case Let_def; auto)
qed

lemma match_words_text:
  "0 \<notin> set t \<Longrightarrow> match_words ws (t @ 0 # rest) = Some (map ascii_upper t \<in> (\<lambda>w. map ascii_upper (ascii w)) ` set ws)"
  by (induction ws) (auto simp: AsciiStriCmp_def strcmp_terminated)

section \<open>A small device\<close>

definition demo_text :: "byte list" where "demo_text = ascii ''Yes'' @ [0x0D, 0x0A]"
definition demo_digits :: "byte list" where "demo_digits = ascii ''42'' @ [0x0A]"

definition demo_dir :: "dir_entry list" where
  "demo_dir = [(ascii ''a'', 5, 0x20), (ascii ''b'', 3, 0x21)]"

definition demo_dev :: fw_dev where
  "demo_dev item off = (let m = (if item = 0x19 then dir_image demo_dir else if item = 0x20 then demo_text else demo_digits)
     in if off < length m then m ! off else 0)"

definition demo_fw :: fw_cfg where
  "demo_fw = \<lparr>mQemuFwCfgSupported = True, mQemuFwCfgDmaSupported = False, fw_item = 0, fw_offset = 0, fw_written = []\<rparr>"

text \<open>A parser of decimal digits that stops at the first other character.\<close>

definition demo_decimal :: "byte list \<Rightarrow> EFI_STATUS \<times> nat \<times> nat" where
  "demo_decimal bs = (let ds = takeWhile (\<lambda>b. 48 \<le> b \<and> b \<le> 57) bs
     in (EFI_SUCCESS, length ds, fold (\<lambda>d v. 10 * v + (unat d - 48)) ds 0))"

definition demo_lib :: str_lib where
  "demo_lib = \<lparr>AsciiStrHexToUint64S = demo_decimal, AsciiStrDecimalToUint64S = demo_decimal\<rparr>"

lemma dev_holdsI: "(\<And>i. i < length bs \<Longrightarrow> dev item i = bs ! i) \<Longrightarrow> dev_holds dev item bs"
  by (auto simp: dev_holds_def dev_bytes_def intro: nth_equalityI)

lemma demo_publishes: "publishes demo_dev demo_dir"
  unfolding publishes_def
proof (intro conjI)
  show "dev_holds demo_dev QemuFwCfgItemFileDir (dir_image demo_dir)"
    by (rule dev_holdsI) (simp add: demo_dev_def QemuFwCfgItemFileDir_def)
qed (auto simp: demo_dir_def QEMU_FW_CFG_FNAME_SIZE_def ascii_def)

lemma demo_text_file: "text_file demo_dev demo_dir (ascii ''a'') demo_text"
proof -
  have "dev_holds demo_dev 0x20 demo_text" by (rule dev_holdsI) (simp add: demo_dev_def)
  then show ?thesis unfolding text_file_def
    by (intro conjI exI [of _ "0x20"] exI [of _ demo_text]) (simp_all add: lookup_entry_def demo_dir_def demo_text_def ascii_def)
qed

lemma demo_digits_file: "text_file demo_dev demo_dir (ascii ''b'') demo_digits"
proof -
  have "dev_holds demo_dev 0x21 demo_digits" by (rule dev_holdsI) (simp add: demo_dev_def)
  then show ?thesis unfolding text_file_def
    by (intro conjI exI [of _ "0x21"] exI [of _ demo_digits]) (simp_all add: lookup_entry_def demo_dir_def demo_digits_def ascii_def)
qed

section \<open>Properties\<close>

text \<open>
  C22: looking up a file by name never reads outside a buffer and decides what the published
  directory says: the item and size of the first entry with the name, or that there is none.
  Only the item selected and the offset change.
\<close>

theorem fwcfg_find_file:
  assumes "mQemuFwCfgSupported s" and "publishes dev es"
  shows "\<exists>off. QemuFwCfgFindFile dev s Name =
    (let s' = s\<lparr>fw_item := QemuFwCfgItemFileDir, fw_offset := off\<rparr>
     in case find (\<lambda>e. fst e = Name) es of
          None \<Rightarrow> Some (EFI_NOT_FOUND, 0, 0, s')
        | Some (name, sz, item) \<Rightarrow> Some (EFI_SUCCESS, item, sz, s'))"
  using find_file_published [OF assms, of Name]
  by (auto simp: found_in_def lookup_entry_def split: option.splits)

text \<open>The witness finds the second file of two.\<close>

theorem fwcfg_find_file_witness:
  "\<exists>s'. QemuFwCfgFindFile demo_dev demo_fw (ascii ''b'') = Some (EFI_SUCCESS, 0x21, 3, s')"
  using fwcfg_find_file [of demo_fw demo_dev demo_dir "ascii ''b''"] demo_publishes
  by (auto simp: demo_dir_def ascii_def demo_fw_def)

text \<open>
  parsing a text file as a number of a given width. The line break at the end is
  ignored. If the number parser takes the whole rest of the text, which is not empty, and its value fits
  the width, the result is that value, not cut by the cast; otherwise it is a protocol error and no
  value is set. A text too long for the buffer is a protocol error.
\<close>

theorem fwcfg_parse_uint:
  assumes "mQemuFwCfgSupported s" and "publishes dev es" and "text_file dev es FileName ts"
    and "length buf = UINT64_STRING_MAX_SIZE + CRLF_LENGTH"
    and "\<forall>rest. (if hex then AsciiStrHexToUint64S lib else AsciiStrDecimalToUint64S lib) (chomp ts @ 0 # rest) = (EFI_SUCCESS, k, v)"
    and "k \<le> length (chomp ts)"
  shows "\<exists>s'. parse_cast w lib buf dev s FileName hex =
    Some (if length ts < length buf \<and> 0 < k \<and> k = length (chomp ts) \<and> v < 2 ^ w
          then (EFI_SUCCESS, Some v, s') else (EFI_PROTOCOL_ERROR, None, s'))"
proof (cases "length ts < length buf")
  case True
  have lim: "v \<le> 2 ^ w - 1 \<longleftrightarrow> v < 2 ^ w" by (simp add: less_eq_Suc_le flip: le_diff_conv2) (auto simp: Suc_le_eq le_diff_conv2)
  obtain s' where "QemuFwCfgParseUint64WithLimit lib buf dev s FileName hex (2 ^ w - 1) =
      Some (if 0 < k \<and> k = length (chomp ts) \<and> v \<le> 2 ^ w - 1 then (EFI_SUCCESS, Some v, s') else (EFI_PROTOCOL_ERROR, None, s'))"
    using parse_text [OF assms(1-4) True assms(5,6)] by blast
  then show ?thesis using True unfolding lim parse_cast_def by (intro exI [of _ s']) auto
next
  case False
  with assms(4) get_string(2) [OF assms(1-3), of buf "length buf"] obtain m b s' where
    "QemuFwCfgGetAsString dev s FileName (UINT64_STRING_MAX_SIZE + CRLF_LENGTH) buf = Some (EFI_PROTOCOL_ERROR, m, b, s')" by auto
  with False show ?thesis by (simp add: parse_cast_def QemuFwCfgParseUint64WithLimit_def)
qed

text \<open>The witness parses 42 with a final newline as an 8-bit number.\<close>

theorem fwcfg_parse_uint_witness:
  "\<exists>s'. QemuFwCfgParseUint8 demo_lib (replicate 23 0) demo_dev demo_fw (ascii ''b'') False = Some (EFI_SUCCESS, Some 42, s')"
proof -
  have c: "chomp demo_digits = [52, 50]" by (simp add: chomp_def demo_digits_def ascii_def)
  have d: "\<forall>rest. (if False then AsciiStrHexToUint64S demo_lib else AsciiStrDecimalToUint64S demo_lib) (chomp demo_digits @ 0 # rest) = (EFI_SUCCESS, 2, 42)"
    by (simp add: c demo_lib_def demo_decimal_def)
  have l: "length (replicate 23 (0 :: byte)) = UINT64_STRING_MAX_SIZE + CRLF_LENGTH"
    by (simp add: UINT64_STRING_MAX_SIZE_def CRLF_LENGTH_def)
  have "mQemuFwCfgSupported demo_fw" "length demo_digits = 3" by (simp_all add: demo_fw_def demo_digits_def ascii_def)
  then show ?thesis using fwcfg_parse_uint [OF _ demo_publishes demo_digits_file l d, of demo_fw 8]
    by (simp add: QemuFwCfgParseUint8_def c)
qed

text \<open>
  parsing a text file as a boolean accepts exactly the listed words, in any
  mixture of case and with an optional line break at the end; every other text, also one too long for the buffer, is a
  protocol error and sets no value.
\<close>

theorem fwcfg_parse_bool:
  assumes "mQemuFwCfgSupported s" and "publishes dev es" and "text_file dev es FileName ts"
    and "length buf = BOOL_STRING_MAX_SIZE + CRLF_LENGTH"
  shows "\<exists>s'. QemuFwCfgParseBool buf dev s FileName = Some (
    if length ts < length buf \<and> map ascii_upper (chomp ts) \<in> (\<lambda>w. map ascii_upper (ascii w)) ` set mTrueString then (EFI_SUCCESS, Some True, s')
    else if length ts < length buf \<and> map ascii_upper (chomp ts) \<in> (\<lambda>w. map ascii_upper (ascii w)) ` set mFalseString then (EFI_SUCCESS, Some False, s')
    else (EFI_PROTOCOL_ERROR, None, s'))"
proof (cases "length ts < length buf")
  case True
  from text_string [OF assms(1-4)] True assms(4) obtain s' rest rest' where
    g: "QemuFwCfgGetAsString dev s FileName (BOOL_STRING_MAX_SIZE + CRLF_LENGTH) buf = Some (EFI_SUCCESS, length ts + 1, ts @ 0 # rest, s')"
    "StripNewline (length ts + 1) (ts @ 0 # rest) = Some (length (chomp ts) + 1, chomp ts @ 0 # rest')" by auto
  have nz: "0 \<notin> set (chomp ts)" using assms(3) by (intro chomp_set) (simp add: text_file_def)
  show ?thesis
    by (rule exI [of _ s'], simp only: QemuFwCfgParseBool_def g Option.bind.simps prod.case match_words_text [OF nz] True) auto
next
  case False
  with assms(4) get_string(2) [OF assms(1-3), of buf "length buf"] obtain m b s' where
    "QemuFwCfgGetAsString dev s FileName (BOOL_STRING_MAX_SIZE + CRLF_LENGTH) buf = Some (EFI_PROTOCOL_ERROR, m, b, s')" by auto
  with False show ?thesis by (simp add: QemuFwCfgParseBool_def)
qed

text \<open>The witness parses Yes with a carriage return and a newline.\<close>

theorem fwcfg_parse_bool_witness:
  "\<exists>s'. QemuFwCfgParseBool (replicate 11 0) demo_dev demo_fw (ascii ''a'') = Some (EFI_SUCCESS, Some True, s')"
proof -
  have l: "length (replicate 11 (0 :: byte)) = BOOL_STRING_MAX_SIZE + CRLF_LENGTH"
    by (simp add: BOOL_STRING_MAX_SIZE_def CRLF_LENGTH_def)
  have "mQemuFwCfgSupported demo_fw" "length demo_text = 5" by (simp_all add: demo_fw_def demo_text_def ascii_def)
  moreover have "map ascii_upper (chomp demo_text) \<in> (\<lambda>w. map ascii_upper (ascii w)) ` set mTrueString"
    by (simp add: chomp_def demo_text_def ascii_def mTrueString_def ascii_upper_def)
  ultimately show ?thesis using fwcfg_parse_bool [OF _ demo_publishes demo_text_file l, of demo_fw] by simp
qed

end
