(* ===== verification/SerializeVars.thy ===== *)
theory SerializeVars
  imports EfiTypes
begin

text \<open>
  Serialisation of UEFI variables: \<^verbatim>\<open>Library/SerializeVariablesLib\<close>. An instance collects
  variables in a packed buffer: size and bytes of the name with its terminator, GUID,
  attributes, size and bytes of the data. The buffer can be copied out, read in again and
  iterated with a callback. A result \<open>None\<close> is an access outside a buffer or a
  failed assertion.
\<close>

section \<open>State\<close>

definition SV_SIGNATURE :: nat where
  "SV_SIGNATURE = le_value [0x53, 0x56, 0x41, 0x52]"

record SV_INSTANCE =
  sv_Signature :: nat
  sv_BufferPtr :: "byte list option"
  sv_BufferSize :: nat
  sv_DataSize :: nat

definition sizeof_SV_INSTANCE :: nat where "sizeof_SV_INSTANCE = 32"
definition sizeof_EFI_GUID :: nat where "sizeof_EFI_GUID = 16"

text \<open>
  A callback gets its context, the name, the GUID, the attributes and the data of a
  variable. The memory allocator gives the (indeterminate) contents of a new block.
\<close>

type_synonym 'c callback = "'c \<Rightarrow> byte list \<Rightarrow> byte list \<Rightarrow> nat \<Rightarrow> byte list \<Rightarrow> (EFI_STATUS \<times> 'c) option"
type_synonym pool = "nat \<Rightarrow> byte list option"

section \<open>Reading a buffer\<close>

text \<open>
  The sizes and attributes of the next variable and where its GUID and data start. The
  numbers are read before the size of what is left is compared with the offset behind them.
\<close>

record unpacked =
  u_NameSize :: nat
  u_Guid :: nat
  u_Attributes :: nat
  u_DataSize :: nat
  u_Data :: nat
  u_SizeUsed :: nat

definition UnpackVariableFromBuffer :: "byte list \<Rightarrow> nat \<Rightarrow> (EFI_STATUS + unpacked) option" where
  "UnpackVariableFromBuffer Buffer MaxSize =
     Option.bind (le_field Buffer 0 4) (\<lambda>NameSize.
     if MaxSize < 4 then Some (Inl EFI_INVALID_PARAMETER)
     else let Offset = 4 + NameSize
     in if MaxSize < Offset then Some (Inl EFI_INVALID_PARAMETER)
     else let Offset2 = Offset + sizeof_EFI_GUID
     in if MaxSize < Offset2 then Some (Inl EFI_INVALID_PARAMETER)
     else Option.bind (le_field Buffer Offset2 4) (\<lambda>Attributes.
       if MaxSize < Offset2 + 4 then Some (Inl EFI_INVALID_PARAMETER)
       else Option.bind (le_field Buffer (Offset2 + 4) 4) (\<lambda>DataSize.
         let Offset3 = Offset2 + 4 + 4
         in if MaxSize < Offset3 then Some (Inl EFI_INVALID_PARAMETER)
            else if MaxSize < Offset3 + DataSize then Some (Inl EFI_INVALID_PARAMETER)
            else Some (Inr \<lparr>u_NameSize = NameSize, u_Guid = Offset, u_Attributes = Attributes, u_DataSize = DataSize,
                   u_Data = Offset3, u_SizeUsed = Offset3 + DataSize\<rparr>))))"

lemma unpack_used:
  assumes "UnpackVariableFromBuffer Buffer n = Some (Inr u)"
  shows "u_SizeUsed u = 28 + u_NameSize u + u_DataSize u" "u_SizeUsed u \<le> n"
  using assms by (auto simp: UnpackVariableFromBuffer_def sizeof_EFI_GUID_def bind_eq_Some_conv Let_def split: if_splits)

text \<open>The size of what the name buffer may hold is never updated, so that it is replaced for every nonempty name.\<close>

definition AlignedNameMaxSize :: nat where "AlignedNameMaxSize = 0"

function iterate_loop ::
  "pool \<Rightarrow> 'c callback \<Rightarrow> byte list \<Rightarrow> nat \<Rightarrow> byte list option \<Rightarrow> nat \<Rightarrow> 'c \<Rightarrow> (EFI_STATUS \<times> 'c) option" where
  "iterate_loop alloc cb Buffer MaxSize AlignedName TotalSizeUsed ctx =
     (if TotalSizeUsed < MaxSize then
        (case UnpackVariableFromBuffer (drop TotalSizeUsed Buffer) (MaxSize - TotalSizeUsed) of
           None \<Rightarrow> None
         | Some (Inl st) \<Rightarrow> Some (st, ctx)
         | Some (Inr u) \<Rightarrow>
             (case (if AlignedNameMaxSize < u_NameSize u then alloc (u_NameSize u) else AlignedName) of
                None \<Rightarrow> Some (EFI_OUT_OF_RESOURCES, ctx)
              | Some mem \<Rightarrow>
                  (case Option.bind (load_bytes Buffer (TotalSizeUsed + 4) (u_NameSize u)) (store_bytes mem 0) of
                     None \<Rightarrow> None
                   | Some name \<Rightarrow>
                       (case (load_bytes Buffer (TotalSizeUsed + u_Guid u) sizeof_EFI_GUID,
                              load_bytes Buffer (TotalSizeUsed + u_Data u) (u_DataSize u)) of
                          (Some g, Some d) \<Rightarrow>
                            (case cb ctx name g (u_Attributes u) d of
                               None \<Rightarrow> None
                             | Some (st, ctx') \<Rightarrow>
                                 if st = EFI_SUCCESS
                                 then iterate_loop alloc cb Buffer MaxSize (Some name) (TotalSizeUsed + u_SizeUsed u) ctx'
                                 else Some (if TotalSizeUsed + u_SizeUsed u \<noteq> MaxSize then EFI_INVALID_PARAMETER else EFI_SUCCESS, ctx'))
                        | _ \<Rightarrow> None))))
      else Some (if TotalSizeUsed \<noteq> MaxSize then EFI_INVALID_PARAMETER else EFI_SUCCESS, ctx))"
  by pat_completeness auto
termination
  by (relation "measure (\<lambda>(alloc, cb, Buffer, MaxSize, AlignedName, TotalSizeUsed, ctx). MaxSize - TotalSizeUsed)")
    (auto dest: unpack_used)

declare iterate_loop.simps [simp del]

definition IterateVariablesInBuffer :: "pool \<Rightarrow> 'c callback \<Rightarrow> 'c \<Rightarrow> byte list \<Rightarrow> nat \<Rightarrow> (EFI_STATUS \<times> 'c) option" where
  "IterateVariablesInBuffer alloc cb ctx Buffer MaxSize = iterate_loop alloc cb Buffer MaxSize None 0 ctx"

definition IterateVariablesCallbackNop :: "'c callback" where
  "IterateVariablesCallbackNop ctx VariableName VendorGuid Attributes Data = Some (EFI_SUCCESS, ctx)"

section \<open>Adding variables\<close>

definition EnsureExtraBufferSpace :: "pool \<Rightarrow> SV_INSTANCE \<Rightarrow> nat \<Rightarrow> (EFI_STATUS \<times> SV_INSTANCE) option" where
  "EnsureExtraBufferSpace alloc i Size =
     (let NewSize = (sv_DataSize i + Size) mod 2 ^ 64
      in if NewSize \<le> sv_BufferSize i then Some (EFI_SUCCESS, i)
         else let NewSize2 = (2 * NewSize) mod 2 ^ 64
         in (case alloc NewSize2 of
               None \<Rightarrow> Some (EFI_OUT_OF_RESOURCES, i)
             | Some NewBuffer \<Rightarrow>
                 map_option (\<lambda>b. (EFI_SUCCESS, i\<lparr>sv_BufferPtr := Some b, sv_BufferSize := NewSize2\<rparr>))
                   (case sv_BufferPtr i of
                      None \<Rightarrow> Some NewBuffer
                    | Some old \<Rightarrow> Option.bind (load_bytes old 0 (sv_DataSize i)) (store_bytes NewBuffer 0))))"

definition AppendToBuffer :: "SV_INSTANCE \<Rightarrow> byte list option \<Rightarrow> nat \<Rightarrow> SV_INSTANCE option" where
  "AppendToBuffer i Data Size =
     Option.bind Data (\<lambda>d.
     let NewSize = (sv_DataSize i + Size) mod 2 ^ 64
     in if sv_BufferSize i < NewSize then None
        else Option.bind (load_bytes d 0 Size) (\<lambda>src.
          Option.bind (sv_BufferPtr i) (\<lambda>buf.
          map_option (\<lambda>b. i\<lparr>sv_BufferPtr := Some b, sv_DataSize := NewSize\<rparr>) (store_bytes buf (sv_DataSize i) src))))"

definition SerializeVariablesNewInstance :: "pool \<Rightarrow> EFI_STATUS \<times> SV_INSTANCE option" where
  "SerializeVariablesNewInstance alloc =
     (case alloc sizeof_SV_INSTANCE of
        None \<Rightarrow> (EFI_OUT_OF_RESOURCES, None)
      | Some _ \<Rightarrow> (EFI_SUCCESS, Some \<lparr>sv_Signature = SV_SIGNATURE, sv_BufferPtr = None, sv_BufferSize = 0, sv_DataSize = 0\<rparr>))"

text \<open>
  The pointer behind a handle; the macro asserts the signature. What freeing leaves behind is an
  instance without signature and buffer.
\<close>

definition SV_FROM_HANDLE :: "SV_INSTANCE \<Rightarrow> SV_INSTANCE option" where
  "SV_FROM_HANDLE i = (if sv_Signature i = SV_SIGNATURE then Some i else None)"

definition SerializeVariablesFreeInstance :: "SV_INSTANCE \<Rightarrow> (EFI_STATUS \<times> SV_INSTANCE) option" where
  "SerializeVariablesFreeInstance Handle =
     Option.bind (SV_FROM_HANDLE Handle) (\<lambda>i.
     if sv_Signature i \<noteq> SV_SIGNATURE then Some (EFI_INVALID_PARAMETER, i)
     else Some (EFI_SUCCESS, i\<lparr>sv_Signature := 0, sv_BufferPtr := None\<rparr>))"

text \<open>The size of a string of 16-bit characters with its terminator.\<close>

fun StrSize :: "byte list \<Rightarrow> nat option" where
  "StrSize (a # b # r) = (if a = 0 \<and> b = 0 then Some 2 else map_option (\<lambda>n. n + 2) (StrSize r))"
| "StrSize _ = None"

text \<open>A missing name, GUID or data is the null pointer. The check of the parameters has no effect.\<close>

definition SerializeVariablesAddVariable ::
  "pool \<Rightarrow> SV_INSTANCE \<Rightarrow> byte list option \<Rightarrow> byte list option \<Rightarrow> nat \<Rightarrow> nat \<Rightarrow> byte list option \<Rightarrow> (EFI_STATUS \<times> SV_INSTANCE) option" where
  "SerializeVariablesAddVariable alloc Handle VariableName VendorGuid Attributes DataSize Data =
     Option.bind (SV_FROM_HANDLE Handle) (\<lambda>i0.
     Option.bind (Option.bind VariableName StrSize) (\<lambda>StrSz.
     let SerializedNameSize = StrSz mod 2 ^ 32;
         SerializedSize = (4 + SerializedNameSize + sizeof_EFI_GUID + 4 + 4 + DataSize) mod 2 ^ 64
     in Option.bind (EnsureExtraBufferSpace alloc i0 SerializedSize) (\<lambda>(Status, i1).
        if Status \<noteq> EFI_SUCCESS then Some (Status, i1)
        else Option.bind (AppendToBuffer i1 (Some (le_bytes 4 SerializedNameSize)) 4) (\<lambda>i2.
          Option.bind (AppendToBuffer i2 VariableName SerializedNameSize) (\<lambda>i3.
          Option.bind (AppendToBuffer i3 VendorGuid sizeof_EFI_GUID) (\<lambda>i4.
          Option.bind (AppendToBuffer i4 (Some (le_bytes 4 Attributes)) 4) (\<lambda>i5.
          Option.bind (AppendToBuffer i5 (Some (le_bytes 4 (DataSize mod 2 ^ 32))) 4) (\<lambda>i6.
          map_option (Pair EFI_SUCCESS) (AppendToBuffer i6 Data DataSize)))))))))"

definition IterateVariablesCallbackSetInInstance :: "pool \<Rightarrow> SV_INSTANCE callback" where
  "IterateVariablesCallbackSetInInstance alloc i VariableName VendorGuid Attributes Data =
     SerializeVariablesAddVariable alloc i (Some VariableName) (Some VendorGuid) Attributes (length Data) (Some Data)"

definition SerializeVariablesNewInstanceFromBuffer :: "pool \<Rightarrow> byte list \<Rightarrow> nat \<Rightarrow> (EFI_STATUS \<times> SV_INSTANCE option) option" where
  "SerializeVariablesNewInstanceFromBuffer alloc Buffer Size =
     (case SerializeVariablesNewInstance alloc of
        (st, None) \<Rightarrow> Some (st, None)
      | (st, Some i) \<Rightarrow>
          Option.bind (IterateVariablesInBuffer alloc IterateVariablesCallbackNop () Buffer Size) (\<lambda>(st1, _).
          if st1 \<noteq> EFI_SUCCESS then map_option (\<lambda>(_, i'). (st1, Some i')) (SerializeVariablesFreeInstance i)
          else Option.bind (IterateVariablesInBuffer alloc (IterateVariablesCallbackSetInInstance alloc) i Buffer Size) (\<lambda>(st2, i2).
            if st2 \<noteq> EFI_SUCCESS then map_option (\<lambda>(_, i'). (st2, Some i')) (SerializeVariablesFreeInstance i2)
            else Some (st2, Some i2))))"

section \<open>Using an instance\<close>

definition SerializeVariablesIterateInstanceVariables :: "pool \<Rightarrow> SV_INSTANCE \<Rightarrow> 'c callback \<Rightarrow> 'c \<Rightarrow> (EFI_STATUS \<times> 'c) option" where
  "SerializeVariablesIterateInstanceVariables alloc Handle cb ctx =
     Option.bind (SV_FROM_HANDLE Handle) (\<lambda>i.
     case sv_BufferPtr i of
       Some b \<Rightarrow> if sv_DataSize i \<noteq> 0 then IterateVariablesInBuffer alloc cb ctx b (sv_DataSize i) else Some (EFI_SUCCESS, ctx)
     | None \<Rightarrow> Some (EFI_SUCCESS, ctx))"

text \<open>Setting the variables of the system: the service and the bits of authenticated variables are parameters.\<close>

record 'rt sv_rt =
  SetVariable :: "'rt \<Rightarrow> byte list \<Rightarrow> byte list \<Rightarrow> nat \<Rightarrow> byte list \<Rightarrow> EFI_STATUS \<times> 'rt"
  AuthMask :: nat

definition IterateVariablesCallbackSetSystemVariable :: "'rt sv_rt \<Rightarrow> 'rt callback" where
  "IterateVariablesCallbackSetSystemVariable gRT ctx VariableName VendorGuid Attributes Data =
     (let (Status, ctx') = SetVariable gRT ctx VariableName VendorGuid Attributes Data
      in Some (if Status = EFI_SECURITY_VIOLATION \<and> Attributes AND AuthMask gRT \<noteq> 0 then EFI_SUCCESS
               else if Status = EFI_WRITE_PROTECTED then EFI_SUCCESS else Status, ctx'))"

definition SerializeVariablesSetSerializedVariables :: "pool \<Rightarrow> 'rt sv_rt \<Rightarrow> SV_INSTANCE \<Rightarrow> 'rt \<Rightarrow> (EFI_STATUS \<times> 'rt) option" where
  "SerializeVariablesSetSerializedVariables alloc gRT Handle rt =
     SerializeVariablesIterateInstanceVariables alloc Handle (IterateVariablesCallbackSetSystemVariable gRT) rt"

text \<open>Status, size and buffer; the pointers may be null.\<close>

definition SerializeVariablesToBuffer ::
  "SV_INSTANCE \<Rightarrow> byte list option \<Rightarrow> nat option \<Rightarrow> (EFI_STATUS \<times> nat option \<times> byte list option) option" where
  "SerializeVariablesToBuffer Handle Buffer Size =
     Option.bind (SV_FROM_HANDLE Handle) (\<lambda>i.
     case Size of
       None \<Rightarrow> Some (EFI_INVALID_PARAMETER, Size, Buffer)
     | Some n \<Rightarrow>
         if n < sv_DataSize i then Some (EFI_BUFFER_TOO_SMALL, Some (sv_DataSize i), Buffer)
         else (case Buffer of
             None \<Rightarrow> Some (EFI_INVALID_PARAMETER, Size, Buffer)
           | Some b \<Rightarrow>
               map_option (\<lambda>b'. (EFI_SUCCESS, Some (sv_DataSize i), Some b'))
                 (Option.bind (load_bytes (case sv_BufferPtr i of None \<Rightarrow> [] | Some m \<Rightarrow> m) 0 (sv_DataSize i)) (store_bytes b 0))))"

end
