(* ===== verification/SerializeVarsProps.thy ===== *)
theory SerializeVarsProps
  imports SerializeVars
begin

text \<open>
  What is added to an instance is what its buffer, an instance made from that buffer, and an iteration over
  either deliver; and what an iteration reports when its callback fails.
\<close>

section \<open>Variables and their bytes\<close>

record sv_var =
  v_name :: "byte list"
  v_guid :: "byte list"
  v_attr :: nat
  v_data :: "byte list"

definition ser :: "sv_var \<Rightarrow> byte list" where
  "ser v = le_bytes 4 (length (v_name v)) @ v_name v @ v_guid v @ le_bytes 4 (v_attr v) @ le_bytes 4 (length (v_data v)) @ v_data v"

definition var_ok :: "sv_var \<Rightarrow> bool" where
  "var_ok v \<longleftrightarrow> StrSize (v_name v) = Some (length (v_name v)) \<and> length (v_name v) < 2 ^ 32 \<and> length (v_guid v) = 16 \<and>
     v_attr v < 2 ^ 32 \<and> length (v_data v) < 2 ^ 32"

definition ser_all :: "sv_var list \<Rightarrow> byte list" where
  "ser_all vs = concat (map ser vs)"

lemma ser_all_simps [simp]: "ser_all [] = []" "ser_all (v # vs) = ser v @ ser_all vs" "ser_all (vs @ ws) = ser_all vs @ ser_all ws"
  by (simp_all add: ser_all_def)

lemma StrSize_pos: "StrSize bs = Some n \<Longrightarrow> 2 \<le> n"
  by (induction bs arbitrary: n rule: StrSize.induct) (auto split: if_splits)

lemma name_pos: "var_ok v \<Longrightarrow> 0 < length (v_name v)"
  using StrSize_pos [of "v_name v" "length (v_name v)"] by (auto simp: var_ok_def)

lemma ser_length: "var_ok v \<Longrightarrow> length (ser v) = 28 + length (v_name v) + length (v_data v)"
  by (simp add: ser_def var_ok_def)

lemma unpack_ser:
  assumes ok: "var_ok v" and n: "length (ser v) \<le> n"
  shows "UnpackVariableFromBuffer (ser v @ rest) n = Some (Inr \<lparr>u_NameSize = length (v_name v), u_Guid = 4 + length (v_name v),
    u_Attributes = v_attr v, u_DataSize = length (v_data v), u_Data = 28 + length (v_name v), u_SizeUsed = length (ser v)\<rparr>)"
proof -
  let ?L = "length (v_name v)" and ?D = "length (v_data v)"
  have o: "?L < 256 ^ 4" "v_attr v < 256 ^ 4" "?D < 256 ^ 4" "length (v_guid v) = 16" using ok by (simp_all add: var_ok_def)
  have f1: "le_field (ser v @ rest) 0 4 = Some ?L"
    using le_field_at [of 0 "[]" ?L 4] o(1) by (simp add: ser_def)
  have f2: "le_field (ser v @ rest) (20 + ?L) 4 = Some (v_attr v)"
    using le_field_at [of "20 + ?L" "le_bytes 4 ?L @ v_name v @ v_guid v" "v_attr v" 4 "le_bytes 4 ?D @ v_data v @ rest"] o
    by (simp add: ser_def)
  have f3: "le_field (ser v @ rest) (24 + ?L) 4 = Some ?D"
    using le_field_at [of "24 + ?L" "le_bytes 4 ?L @ v_name v @ v_guid v @ le_bytes 4 (v_attr v)" ?D 4 "v_data v @ rest"] o
    by (simp add: ser_def)
  show ?thesis using f1 f2 f3 n ser_length [OF ok]
    by (simp add: UnpackVariableFromBuffer_def Let_def sizeof_EFI_GUID_def add.commute add.left_commute)
qed

section \<open>Iteration\<close>

text \<open>
  What an iteration does with the callback: it stops at the first failure, which it reports as an
  invalid parameter, or not at all when no variable is left.
\<close>

fun run_callback :: "'c callback \<Rightarrow> 'c \<Rightarrow> sv_var list \<Rightarrow> (EFI_STATUS \<times> 'c) option" where
  "run_callback cb ctx [] = Some (EFI_SUCCESS, ctx)"
| "run_callback cb ctx (v # vs) =
     Option.bind (cb ctx (v_name v) (v_guid v) (v_attr v) (v_data v)) (\<lambda>(st, ctx').
     if st = EFI_SUCCESS then run_callback cb ctx' vs
     else Some (if vs = [] then EFI_SUCCESS else EFI_INVALID_PARAMETER, ctx'))"

definition pool_ok :: "pool \<Rightarrow> bool" where
  "pool_ok alloc \<longleftrightarrow> (\<forall>n b. alloc n = Some b \<longrightarrow> length b = n)"

definition names_fit :: "pool \<Rightarrow> sv_var list \<Rightarrow> bool" where
  "names_fit alloc vs \<longleftrightarrow> (\<forall>v \<in> set vs. alloc (length (v_name v)) \<noteq> None)"

lemma ser_all_Nil: "\<forall>v \<in> set vs. var_ok v \<Longrightarrow> ser_all vs = [] \<longleftrightarrow> vs = []"
  by (cases vs) (auto simp: ser_def dest: name_pos)

lemma iterate_ser:
  assumes "pool_ok alloc" and "names_fit alloc vs" and "\<forall>v \<in> set vs. var_ok v" and "MaxSize = length pre + length (ser_all vs)"
  shows "iterate_loop alloc cb (pre @ ser_all vs @ rest) MaxSize an (length pre) ctx = run_callback cb ctx vs"
  using assms(2-)
proof (induction vs arbitrary: pre an ctx)
  case Nil
  then show ?case by (subst iterate_loop.simps) simp
next
  case (Cons v vs)
  define B where "B = pre @ ser_all (v # vs) @ rest"
  let ?L = "length (v_name v)" and ?D = "length (v_data v)"
  have ok: "var_ok v" using Cons.prems(2) by simp
  note l = ser_length [OF ok]
  obtain mem where mem: "alloc ?L = Some mem" "length mem = ?L"
    using Cons.prems(1) assms(1) by (fastforce simp: names_fit_def pool_ok_def)
  have u: "UnpackVariableFromBuffer (drop (length pre) B) (MaxSize - length pre) = Some (Inr \<lparr>u_NameSize = ?L, u_Guid = 4 + ?L,
    u_Attributes = v_attr v, u_DataSize = ?D, u_Data = 28 + ?L, u_SizeUsed = length (ser v)\<rparr>)"
    using unpack_ser [OF ok, of "MaxSize - length pre" "ser_all vs @ rest"] Cons.prems(3) by (simp add: B_def)
  have n1: "load_bytes B (length pre + 4) ?L = Some (v_name v)"
    using load_at [of "length pre + 4" "pre @ le_bytes 4 ?L" ?L "v_name v"] by (simp add: ser_def B_def)
  have g1: "load_bytes B (length pre + (4 + ?L)) sizeof_EFI_GUID = Some (v_guid v)"
    using load_at [of "length pre + (4 + ?L)" "pre @ le_bytes 4 ?L @ v_name v" 16 "v_guid v"] ok
    by (simp add: ser_def var_ok_def sizeof_EFI_GUID_def B_def)
  have d1: "load_bytes B (length pre + (28 + ?L)) ?D = Some (v_data v)"
    using load_at [of "length pre + (28 + ?L)" "pre @ le_bytes 4 ?L @ v_name v @ v_guid v @ le_bytes 4 (v_attr v) @ le_bytes 4 ?D" ?D "v_data v" "ser_all vs @ rest"] ok
    by (simp add: ser_def var_ok_def B_def)
  have st: "store_bytes mem 0 (v_name v) = Some (v_name v)" using mem(2) by (simp add: store_bytes_def)
  have a: "AlignedNameMaxSize < ?L" using name_pos [OF ok] by (simp add: AlignedNameMaxSize_def)
  have fin: "(length pre + length (ser v) \<noteq> MaxSize) = (vs \<noteq> [])"
    using Cons.prems(2,3) ser_all_Nil [of vs] by auto
  have lt: "length pre < MaxSize" using Cons.prems(3) l by simp
  have IH: "iterate_loop alloc cb B MaxSize (Some (v_name v)) (length pre + length (ser v)) ctx' = run_callback cb ctx' vs" for ctx'
    using Cons.IH [of "pre @ ser v" "Some (v_name v)" ctx'] Cons.prems by (simp add: names_fit_def B_def)
  show ?case
    unfolding B_def [symmetric]
    by (subst iterate_loop.simps) (simp add: lt u a mem(1) n1 st g1 d1 IH fin split: option.split)
qed

lemma iterate_buffer:
  assumes "pool_ok alloc" and "names_fit alloc vs" and "\<forall>v \<in> set vs. var_ok v"
  shows "IterateVariablesInBuffer alloc cb ctx (ser_all vs @ rest) (length (ser_all vs)) = run_callback cb ctx vs"
  unfolding IterateVariablesInBuffer_def using iterate_ser [OF assms, of "length (ser_all vs)" "[]"] by simp

section \<open>Instances\<close>

text \<open>An instance and the bytes it holds.\<close>

definition sv_buf :: "SV_INSTANCE \<Rightarrow> byte list" where
  "sv_buf i = (case sv_BufferPtr i of None \<Rightarrow> [] | Some b \<Rightarrow> b)"

definition sv_holds :: "SV_INSTANCE \<Rightarrow> byte list \<Rightarrow> bool" where
  "sv_holds i bs \<longleftrightarrow> sv_Signature i = SV_SIGNATURE \<and> sv_BufferSize i = length (sv_buf i) \<and> sv_BufferSize i < 2 ^ 64 \<and>
     sv_DataSize i = length bs \<and> (\<exists>rest. sv_buf i = bs @ rest)"

lemma append_holds:
  assumes "sv_holds i bs" and "sv_BufferPtr i \<noteq> None" and "length bs + n \<le> sv_BufferSize i" and "n \<le> length d"
  shows "\<exists>i'. AppendToBuffer i (Some d) n = Some i' \<and> sv_holds i' (bs @ take n d) \<and> sv_BufferPtr i' \<noteq> None \<and> sv_BufferSize i' = sv_BufferSize i"
proof -
  from assms(1,2) obtain b rest where b: "sv_BufferPtr i = Some b" "b = bs @ rest" "length b = sv_BufferSize i" "sv_BufferSize i < 2 ^ 64"
    "sv_DataSize i = length bs" "sv_Signature i = SV_SIGNATURE" by (auto simp: sv_holds_def sv_buf_def)
  have n: "(sv_DataSize i + n) mod 2 ^ 64 = length bs + n" using b assms(3) by simp
  have ld: "load_bytes d 0 n = Some (take n d)" using assms(4) by (simp add: load_bytes_def)
  have st: "store_bytes b (length bs) (take n d) = Some (bs @ take n d @ drop n rest)"
    using assms(3,4) b(2,3) by (simp add: store_bytes_def)
  define i' where "i' = i\<lparr>sv_BufferPtr := Some (bs @ take n d @ drop n rest), sv_DataSize := length bs + n\<rparr>"
  have "AppendToBuffer i (Some d) n = Some i'"
    using b(1,5) assms(3) n ld st by (simp add: AppendToBuffer_def Let_def i'_def)
  moreover have "sv_holds i' (bs @ take n d)" using b assms(3,4) by (auto simp: sv_holds_def sv_buf_def i'_def)
  ultimately show ?thesis by (simp add: i'_def)
qed

lemma ensure_space:
  assumes "sv_holds i bs" and "pool_ok alloc" and "0 < n" and "length bs + n < 2 ^ 63"
  shows "(\<exists>i'. EnsureExtraBufferSpace alloc i n = Some (EFI_SUCCESS, i') \<and> sv_holds i' bs \<and> sv_BufferPtr i' \<noteq> None \<and>
      length bs + n \<le> sv_BufferSize i') \<or>
    EnsureExtraBufferSpace alloc i n = Some (EFI_OUT_OF_RESOURCES, i) \<and> alloc (2 * (length bs + n)) = None"
proof -
  from assms(1) obtain rest where h: "sv_buf i = bs @ rest" "length (sv_buf i) = sv_BufferSize i" "sv_DataSize i = length bs"
    "sv_Signature i = SV_SIGNATURE" by (auto simp: sv_holds_def)
  have m: "(sv_DataSize i + n) mod 2 ^ 64 = length bs + n" "(2 * (length bs + n)) mod 2 ^ 64 = 2 * (length bs + n)"
    using assms(4) h(3) by simp_all
  show ?thesis
  proof (cases "length bs + n \<le> sv_BufferSize i")
    case True
    with assms(3) h(2) have "sv_BufferPtr i \<noteq> None" by (cases "sv_BufferPtr i") (auto simp: sv_buf_def)
    with True m assms(1) show ?thesis by (simp add: EnsureExtraBufferSpace_def Let_def)
  next
    case False
    show ?thesis
    proof (cases "alloc (2 * (length bs + n))")
      case None
      with False m show ?thesis by (simp add: EnsureExtraBufferSpace_def Let_def)
    next
      case (Some nb)
      have l: "length nb = 2 * (length bs + n)" using assms(2) Some by (simp add: pool_ok_def)
      define b where "b = bs @ drop (length bs) nb"
      define i' where "i' = i\<lparr>sv_BufferPtr := Some b, sv_BufferSize := 2 * (length bs + n)\<rparr>"
      have "EnsureExtraBufferSpace alloc i n = Some (EFI_SUCCESS, i'\<lparr>sv_BufferPtr := Some nb\<rparr>) \<and> bs = [] \<or>
          EnsureExtraBufferSpace alloc i n = Some (EFI_SUCCESS, i')"
        using False m Some h l
        by (cases "sv_BufferPtr i")
          (auto simp: EnsureExtraBufferSpace_def Let_def sv_buf_def i'_def b_def load_bytes_def store_bytes_def)
      moreover have "sv_holds i' bs" "bs = [] \<Longrightarrow> sv_holds (i'\<lparr>sv_BufferPtr := Some nb\<rparr>) bs"
        using h l assms(4) by (simp_all add: sv_holds_def sv_buf_def i'_def b_def)
      ultimately show ?thesis by (auto simp: i'_def)
    qed
  qed
qed

lemma add_variable:
  assumes ih: "sv_holds i bs" and po: "pool_ok alloc" and ok: "var_ok v" and sz: "length bs + length (ser v) < 2 ^ 63"
  shows "(\<exists>i'. SerializeVariablesAddVariable alloc i (Some (v_name v)) (Some (v_guid v)) (v_attr v) (length (v_data v)) (Some (v_data v)) =
      Some (EFI_SUCCESS, i') \<and> sv_holds i' (bs @ ser v)) \<or>
    SerializeVariablesAddVariable alloc i (Some (v_name v)) (Some (v_guid v)) (v_attr v) (length (v_data v)) (Some (v_data v)) =
      Some (EFI_OUT_OF_RESOURCES, i) \<and> alloc (2 * (length bs + length (ser v))) = None"
proof -
  let ?L = "length (v_name v)" and ?D = "length (v_data v)"
  note l = ser_length [OF ok]
  have m: "?L mod 2 ^ 32 = ?L" "?D mod 2 ^ 32 = ?D" "StrSize (v_name v) = Some ?L" "length (v_guid v) = 16" "v_attr v < 2 ^ 32"
    using ok by (simp_all add: var_ok_def)
  have s64: "(4 + ?L + sizeof_EFI_GUID + 4 + 4 + ?D) mod 2 ^ 64 = length (ser v)" using l sz by (simp add: sizeof_EFI_GUID_def)
  have hd: "SV_FROM_HANDLE i = Some i" using ih by (simp add: SV_FROM_HANDLE_def sv_holds_def)
  have pos: "0 < length (ser v)" using l by simp
  note ev = SerializeVariablesAddVariable_def hd Option.bind.simps m(1-3) Let_def s64
  from ensure_space [OF ih po pos sz] show ?thesis
  proof (elim disjE exE conjE)
    fix i1 assume e: "EnsureExtraBufferSpace alloc i (length (ser v)) = Some (EFI_SUCCESS, i1)"
      and h1: "sv_holds i1 bs" "sv_BufferPtr i1 \<noteq> None" "length bs + length (ser v) \<le> sv_BufferSize i1"
    obtain i2 where i2: "AppendToBuffer i1 (Some (le_bytes 4 ?L)) 4 = Some i2" "sv_holds i2 (bs @ le_bytes 4 ?L)" "sv_BufferPtr i2 \<noteq> None"
      "sv_BufferSize i2 = sv_BufferSize i1" using append_holds [OF h1(1,2), of 4 "le_bytes 4 ?L"] h1(3) l by auto
    obtain i3 where i3: "AppendToBuffer i2 (Some (v_name v)) ?L = Some i3" "sv_holds i3 (bs @ le_bytes 4 ?L @ v_name v)" "sv_BufferPtr i3 \<noteq> None"
      "sv_BufferSize i3 = sv_BufferSize i1" using append_holds [OF i2(2,3), of ?L "v_name v"] i2(4) h1(3) l by auto
    obtain i4 where i4: "AppendToBuffer i3 (Some (v_guid v)) sizeof_EFI_GUID = Some i4" "sv_holds i4 (bs @ le_bytes 4 ?L @ v_name v @ v_guid v)"
      "sv_BufferPtr i4 \<noteq> None" "sv_BufferSize i4 = sv_BufferSize i1"
      using append_holds [OF i3(2,3), of 16 "v_guid v"] i3(4) h1(3) l m(4) by (auto simp: sizeof_EFI_GUID_def)
    obtain i5 where i5: "AppendToBuffer i4 (Some (le_bytes 4 (v_attr v))) 4 = Some i5"
      "sv_holds i5 (bs @ le_bytes 4 ?L @ v_name v @ v_guid v @ le_bytes 4 (v_attr v))" "sv_BufferPtr i5 \<noteq> None"
      "sv_BufferSize i5 = sv_BufferSize i1" using append_holds [OF i4(2,3), of 4 "le_bytes 4 (v_attr v)"] i4(4) h1(3) l m(4) by auto
    obtain i6 where i6: "AppendToBuffer i5 (Some (le_bytes 4 ?D)) 4 = Some i6"
      "sv_holds i6 (bs @ le_bytes 4 ?L @ v_name v @ v_guid v @ le_bytes 4 (v_attr v) @ le_bytes 4 ?D)" "sv_BufferPtr i6 \<noteq> None"
      "sv_BufferSize i6 = sv_BufferSize i1" using append_holds [OF i5(2,3), of 4 "le_bytes 4 ?D"] i5(4) h1(3) l m(4) by auto
    obtain i7 where i7: "AppendToBuffer i6 (Some (v_data v)) ?D = Some i7" "sv_holds i7 (bs @ ser v)"
      using append_holds [OF i6(2,3), of ?D "v_data v"] i6(4) h1(3) l m(4) by (auto simp: ser_def)
    show ?thesis
      using i7(2) by (simp only: ev e prod.case i2(1) i3(1) i4(1) i5(1) i6(1) i7(1)) simp
  next
    assume "EnsureExtraBufferSpace alloc i (length (ser v)) = Some (EFI_OUT_OF_RESOURCES, i)" "alloc (2 * (length bs + length (ser v))) = None"
    then show ?thesis by (simp only: ev prod.case) simp
  qed
qed

lemma add_no_memory:
  assumes ih: "sv_holds i bs" and ok: "var_ok v" and sz: "length bs + length (ser v) < 2 ^ 63"
    and full: "sv_BufferSize i < length bs + length (ser v)" and al: "alloc (2 * (length bs + length (ser v))) = None"
  shows "SerializeVariablesAddVariable alloc i (Some (v_name v)) (Some (v_guid v)) (v_attr v) (length (v_data v)) (Some (v_data v)) =
    Some (EFI_OUT_OF_RESOURCES, i)"
proof -
  let ?L = "length (v_name v)" and ?D = "length (v_data v)"
  have m: "?L mod 2 ^ 32 = ?L" "StrSize (v_name v) = Some ?L" using ok by (simp_all add: var_ok_def)
  have s64: "(4 + ?L + sizeof_EFI_GUID + 4 + 4 + ?D) mod 2 ^ 64 = length (ser v)"
    using ser_length [OF ok] sz by (simp add: sizeof_EFI_GUID_def)
  have hd: "SV_FROM_HANDLE i = Some i" "sv_DataSize i = length bs" using ih by (simp_all add: SV_FROM_HANDLE_def sv_holds_def)
  have "(length bs + length (ser v)) mod 2 ^ 64 = length bs + length (ser v)"
    "(2 * (length bs + length (ser v))) mod 2 ^ 64 = 2 * (length bs + length (ser v))" using sz by simp_all
  then have "EnsureExtraBufferSpace alloc i (length (ser v)) = Some (EFI_OUT_OF_RESOURCES, i)"
    using full al hd(2) by (simp add: EnsureExtraBufferSpace_def Let_def)
  then show ?thesis by (simp only: SerializeVariablesAddVariable_def hd(1) Option.bind.simps m Let_def s64 prod.case) simp
qed

section \<open>Sequences of variables\<close>

abbreviation add_var :: "pool \<Rightarrow> SV_INSTANCE \<Rightarrow> sv_var \<Rightarrow> (EFI_STATUS \<times> SV_INSTANCE) option" where
  "add_var alloc i v \<equiv> SerializeVariablesAddVariable alloc i (Some (v_name v)) (Some (v_guid v)) (v_attr v) (length (v_data v)) (Some (v_data v))"

fun add_vars :: "pool \<Rightarrow> SV_INSTANCE \<Rightarrow> sv_var list \<Rightarrow> (EFI_STATUS \<times> SV_INSTANCE) option" where
  "add_vars alloc i [] = Some (EFI_SUCCESS, i)"
| "add_vars alloc i (v # vs) =
     Option.bind (add_var alloc i v) (\<lambda>(st, i'). if st = EFI_SUCCESS then add_vars alloc i' vs else Some (st, i'))"

definition pool_total :: "pool \<Rightarrow> bool" where
  "pool_total alloc \<longleftrightarrow> (\<forall>n. \<exists>b. alloc n = Some b \<and> length b = n)"

lemma pool_total: "pool_total alloc \<Longrightarrow> pool_ok alloc" "pool_total alloc \<Longrightarrow> names_fit alloc vs" "pool_total alloc \<Longrightarrow> alloc n \<noteq> None"
  unfolding pool_total_def pool_ok_def names_fit_def by (metis option.sel option.distinct(1))+

definition new_sv :: SV_INSTANCE where
  "new_sv = \<lparr>sv_Signature = SV_SIGNATURE, sv_BufferPtr = None, sv_BufferSize = 0, sv_DataSize = 0\<rparr>"

lemma new_instance: "alloc sizeof_SV_INSTANCE \<noteq> None \<Longrightarrow> SerializeVariablesNewInstance alloc = (EFI_SUCCESS, Some new_sv)"
  by (auto simp: SerializeVariablesNewInstance_def new_sv_def)

lemma new_sv_holds: "sv_holds new_sv []"
  by (simp add: sv_holds_def new_sv_def sv_buf_def)

lemma add_vars_holds:
  assumes "pool_total alloc" and "sv_holds i bs" and "\<forall>v \<in> set vs. var_ok v" and "length bs + length (ser_all vs) < 2 ^ 63"
  shows "\<exists>i'. add_vars alloc i vs = Some (EFI_SUCCESS, i') \<and> sv_holds i' (bs @ ser_all vs)"
  using assms(2-)
proof (induction vs arbitrary: i bs)
  case (Cons v vs)
  from add_variable [OF Cons.prems(1) pool_total(1) [OF assms(1)], of v] Cons.prems pool_total(3) [OF assms(1)]
  obtain i1 where i1: "add_var alloc i v = Some (EFI_SUCCESS, i1)" "sv_holds i1 (bs @ ser v)" by auto
  then show ?case using Cons.IH [OF i1(2)] Cons.prems by simp
qed simp

text \<open>Adding to an instance as the callback of an iteration.\<close>

lemma set_in_instance:
  "run_callback (IterateVariablesCallbackSetInInstance alloc) i vs = Some (EFI_SUCCESS, i')" if "add_vars alloc i vs = Some (EFI_SUCCESS, i')"
  using that by (induction vs arbitrary: i)
    (auto simp: IterateVariablesCallbackSetInInstance_def bind_eq_Some_conv split: if_splits)

lemma run_callback_nop: "run_callback IterateVariablesCallbackNop ctx vs = Some (EFI_SUCCESS, ctx)"
  by (induction vs) (auto simp: IterateVariablesCallbackNop_def)

lemma set_in_instance_last:
  assumes "add_vars alloc i vs = Some (EFI_SUCCESS, i1)" and "add_var alloc i1 v = Some (st, i2)"
  shows "run_callback (IterateVariablesCallbackSetInInstance alloc) i (vs @ [v]) = Some (EFI_SUCCESS, i2)"
  using assms by (induction vs arbitrary: i)
    (auto simp: IterateVariablesCallbackSetInInstance_def bind_eq_Some_conv split: if_splits)

lemma from_buffer:
  assumes "pool_ok alloc" "names_fit alloc vs" "\<forall>v \<in> set vs. var_ok v" "alloc sizeof_SV_INSTANCE \<noteq> None"
    and "run_callback (IterateVariablesCallbackSetInInstance alloc) new_sv vs = Some (EFI_SUCCESS, i)"
  shows "SerializeVariablesNewInstanceFromBuffer alloc (ser_all vs) (length (ser_all vs)) = Some (EFI_SUCCESS, Some i)"
  using iterate_buffer [OF assms(1-3), of IterateVariablesCallbackNop "()" "[]"]
    iterate_buffer [OF assms(1-3), of "IterateVariablesCallbackSetInInstance alloc" new_sv "[]"] new_instance [of alloc] assms(4,5)
  by (simp add: SerializeVariablesNewInstanceFromBuffer_def run_callback_nop)

lemma iterate_instance:
  assumes "pool_ok alloc" "names_fit alloc vs" "\<forall>v \<in> set vs. var_ok v" and h: "sv_holds i (ser_all vs)"
  shows "SerializeVariablesIterateInstanceVariables alloc i cb ctx = run_callback cb ctx vs"
proof -
  from h obtain rest where r: "SV_FROM_HANDLE i = Some i" "sv_buf i = ser_all vs @ rest" "sv_DataSize i = length (ser_all vs)"
    by (auto simp: sv_holds_def SV_FROM_HANDLE_def)
  show ?thesis
  proof (cases "sv_DataSize i = 0")
    case True
    with r(3) ser_all_Nil [OF assms(3)] have "vs = []" by simp
    with r True show ?thesis by (simp add: SerializeVariablesIterateInstanceVariables_def split: option.split)
  next
    case False
    with r obtain b where "sv_BufferPtr i = Some b" "b = ser_all vs @ rest" by (cases "sv_BufferPtr i") (auto simp: sv_buf_def)
    with r False show ?thesis
      by (simp add: SerializeVariablesIterateInstanceVariables_def iterate_buffer [OF assms(1-3)])
  qed
qed

lemma to_buffer:
  assumes "sv_holds i bs" and "length bs \<le> length buf"
  shows "SerializeVariablesToBuffer i (Some buf) (Some (length buf)) = Some (EFI_SUCCESS, Some (length bs), Some (bs @ drop (length bs) buf))"
  using assms by (auto simp: SerializeVariablesToBuffer_def SV_FROM_HANDLE_def sv_holds_def sv_buf_def load_bytes_def store_bytes_def)

section \<open>Properties\<close>

text \<open>Two variables with one-character names.\<close>

definition demo_var :: "byte \<Rightarrow> sv_var" where
  "demo_var c = \<lparr>v_name = [c, 0, 0, 0], v_guid = replicate 16 7, v_attr = 3, v_data = [1, 2]\<rparr>"

definition small_pool :: pool where
  "small_pool n = (if n \<le> 100 then Some (replicate n 0) else None)"

definition ample_pool :: pool where
  "ample_pool n = Some (replicate n 0)"

definition collect_names :: "byte list list callback" where
  "collect_names ns name g a d = Some (EFI_SUCCESS, ns @ [name])"

lemma demo_var_ok: "c \<noteq> 0 \<Longrightarrow> var_ok (demo_var c)"
  by (simp add: var_ok_def demo_var_def)

lemma demo_ser_length: "length (ser (demo_var c)) = 34"
  by (simp add: ser_def demo_var_def)



text \<open>
  an iteration over packed variables calls the callback on them in order up to the first failure. A failure is
  reported as an invalid parameter, whatever the callback returned, unless it
  concerns the last variable: then it is reported as success.
\<close>

theorem sv_iteration:
  assumes "pool_ok alloc" and "names_fit alloc vs" and "\<forall>v \<in> set vs. var_ok v"
  shows "IterateVariablesInBuffer alloc cb ctx (ser_all vs @ rest) (length (ser_all vs)) = run_callback cb ctx vs"
  by (rule iterate_buffer [OF assms])

text \<open>The witness has a callback that fails on the second of two variables.\<close>

theorem sv_iteration_witness:
  "IterateVariablesInBuffer small_pool (\<lambda>n name g a d. Some (if n = (1 :: nat) then EFI_DEVICE_ERROR else EFI_SUCCESS, n + 1)) 0
     (ser_all [demo_var 65, demo_var 66]) 68 = Some (EFI_SUCCESS, 2)"
proof -
  have l: "length (ser_all [demo_var 65, demo_var 66]) = 68" by (simp add: demo_ser_length)
  have ok: "\<forall>v \<in> set [demo_var 65, demo_var 66]. var_ok v" by (simp add: demo_var_ok)
  have p: "pool_ok small_pool" "names_fit small_pool [demo_var 65, demo_var 66]"
    by (auto simp: pool_ok_def names_fit_def small_pool_def demo_var_def split: if_splits)
  from sv_iteration [OF p ok, of "\<lambda>n name g a d. Some (if n = (1 :: nat) then EFI_DEVICE_ERROR else EFI_SUCCESS, n + 1)" 0 "[]", unfolded l]
  show ?thesis by simp
qed

text \<open>
  C37: when there is no memory for the last variable of a buffer, making an instance from it still
  reports success, with an instance that lacks the variable.
\<close>

theorem sv_last_variable_lost:
  assumes "pool_ok alloc" and "names_fit alloc (vs @ [v])" and "\<forall>x \<in> set (vs @ [v]). var_ok x" and "alloc sizeof_SV_INSTANCE \<noteq> None"
    and "add_vars alloc new_sv vs = Some (EFI_SUCCESS, i)" and "sv_holds i (ser_all vs)"
    and "length (ser_all (vs @ [v])) < 2 ^ 63" and "sv_BufferSize i < length (ser_all (vs @ [v]))"
    and "alloc (2 * length (ser_all (vs @ [v]))) = None"
  shows "SerializeVariablesNewInstanceFromBuffer alloc (ser_all (vs @ [v])) (length (ser_all (vs @ [v]))) = Some (EFI_SUCCESS, Some i)"
proof -
  have "add_var alloc i v = Some (EFI_OUT_OF_RESOURCES, i)"
    using assms(3,7-9) by (intro add_no_memory [OF assms(6)]) simp_all
  then show ?thesis by (intro from_buffer [OF assms(1-4)] set_in_instance_last [OF assms(5)])
qed

text \<open>The witness has memory for 100 bytes at once; the second variable needs twice 108.\<close>

definition demo_long :: sv_var where
  "demo_long = (demo_var 66)\<lparr>v_data := replicate 42 9\<rparr>"

definition demo_sv :: SV_INSTANCE where
  "demo_sv = \<lparr>sv_Signature = SV_SIGNATURE, sv_BufferPtr = Some (ser (demo_var 65) @ replicate 34 0), sv_BufferSize = 68, sv_DataSize = 34\<rparr>"

lemma demo_add: "add_vars small_pool new_sv [demo_var 65] = Some (EFI_SUCCESS, demo_sv)"
  by (simp add: SerializeVariablesAddVariable_def SV_FROM_HANDLE_def new_sv_def demo_var_def Let_def sizeof_EFI_GUID_def
      EnsureExtraBufferSpace_def small_pool_def AppendToBuffer_def load_bytes_def store_bytes_def demo_sv_def ser_def)
    (rule arg_cong [of _ _ "le_bytes 4"], simp)

theorem sv_last_variable_lost_witness:
  "SerializeVariablesNewInstanceFromBuffer small_pool (ser_all [demo_var 65, demo_long]) 108 = Some (EFI_SUCCESS, Some demo_sv)"
proof -
  have ok: "var_ok demo_long" "length (ser demo_long) = 74"
    by (simp_all add: var_ok_def demo_long_def demo_var_def ser_def)
  have l: "length (ser_all ([demo_var 65] @ [demo_long])) = 108" by (simp add: demo_ser_length ok(2))
  have p: "pool_ok small_pool" "names_fit small_pool ([demo_var 65] @ [demo_long])" "small_pool sizeof_SV_INSTANCE \<noteq> None"
    by (auto simp: pool_ok_def names_fit_def small_pool_def demo_long_def demo_var_def sizeof_SV_INSTANCE_def split: if_splits)
  have o: "\<forall>x \<in> set ([demo_var 65] @ [demo_long]). var_ok x" using ok by (simp add: demo_var_ok)
  have h: "sv_holds demo_sv (ser_all [demo_var 65])" by (simp add: sv_holds_def demo_sv_def sv_buf_def demo_ser_length)
  have b: "108 < (2 :: nat) ^ 63" "sv_BufferSize demo_sv < 108" "small_pool (2 * 108) = None"
    by (simp_all add: demo_sv_def small_pool_def)
  show ?thesis using sv_last_variable_lost [OF p(1,2) o p(3) demo_add h, unfolded l, OF b] by simp
qed

text \<open>A buffer shorter than a size field is read past its end before its size is looked at.\<close>

lemma sv_short_buffer_overread:
  assumes "0 < n" "n < 4" "length Buffer = n" "alloc sizeof_SV_INSTANCE \<noteq> None"
  shows "SerializeVariablesNewInstanceFromBuffer alloc Buffer n = None"
proof -
  have "UnpackVariableFromBuffer Buffer n = None"
    using assms by (simp add: UnpackVariableFromBuffer_def le_field_def load_bytes_def)
  then have "IterateVariablesInBuffer alloc IterateVariablesCallbackNop () Buffer n = None"
    unfolding IterateVariablesInBuffer_def using assms(1) by (subst iterate_loop.simps) simp
  then show ?thesis using new_instance [of alloc] assms(4) by (simp add: SerializeVariablesNewInstanceFromBuffer_def)
qed

end
