(* ===== verification/SerializeVarsSystem.thy ===== *)
theory SerializeVarsSystem
  imports SerializeVarsProps
begin

text \<open>
  The iteration over the variables of the system: \<^verbatim>\<open>SerializeVariablesIterateSystemVariables\<close>. The
  runtime services are a parameter; name and data buffers grow as they demand.
\<close>

section \<open>Model\<close>

text \<open>
  Both services get the size of a buffer, the buffer and the identity of a variable, and return the size used or needed.
  A missing buffer is the null pointer.
\<close>

record var_services =
  GetNextVariableName :: "nat \<Rightarrow> byte list option \<Rightarrow> byte list \<Rightarrow> EFI_STATUS \<times> nat \<times> byte list option \<times> byte list"
  GetVariable :: "byte list option \<Rightarrow> byte list \<Rightarrow> nat \<Rightarrow> byte list option \<Rightarrow> EFI_STATUS \<times> nat \<times> nat \<times> byte list option"

text \<open>Status, size of the name buffer, name buffer and GUID.\<close>

definition next_name ::
  "pool \<Rightarrow> var_services \<Rightarrow> nat \<Rightarrow> byte list option \<Rightarrow> byte list \<Rightarrow> (EFI_STATUS \<times> nat \<times> byte list option \<times> byte list) option" where
  "next_name alloc gRT nsz VariableName VendorGuid =
     (let (Status, need, name1, guid1) = GetNextVariableName gRT nsz VariableName VendorGuid
      in if Status = EFI_BUFFER_TOO_SMALL
         then (case alloc need of
             None \<Rightarrow> Some (EFI_OUT_OF_RESOURCES, nsz, name1, guid1)
           | Some NewBuffer \<Rightarrow>
               Option.bind (Option.bind name1 (\<lambda>b. load_bytes b 0 nsz)) (\<lambda>old.
               Option.bind (store_bytes NewBuffer 0 old) (\<lambda>b.
               let (Status2, _, name2, guid2) = GetNextVariableName gRT need (Some b) guid1
               in Some (Status2, need, name2, guid2))))
         else Some (Status, nsz, name1, guid1))"

text \<open>Status, attributes, size of the data, size of the data buffer and data buffer.\<close>

definition get_data ::
  "pool \<Rightarrow> var_services \<Rightarrow> byte list option \<Rightarrow> byte list \<Rightarrow> nat \<Rightarrow> byte list option \<Rightarrow> EFI_STATUS \<times> nat \<times> nat \<times> nat \<times> byte list option" where
  "get_data alloc gRT VariableName VendorGuid dsz VariableData =
     (let (Status, attr, need, data1) = GetVariable gRT VariableName VendorGuid dsz VariableData
      in if Status = EFI_BUFFER_TOO_SMALL
         then (case alloc need of
             None \<Rightarrow> (EFI_OUT_OF_RESOURCES, attr, need, 0, None)
           | Some d \<Rightarrow> let (Status2, attr2, n, data2) = GetVariable gRT VariableName VendorGuid need (Some d)
               in (Status2, attr2, n, need, data2))
         else (Status, attr, need, dsz, data1))"

partial_function (option) system_loop ::
  "pool \<Rightarrow> var_services \<Rightarrow> 'c callback \<Rightarrow> nat \<Rightarrow> byte list option \<Rightarrow> byte list \<Rightarrow> nat \<Rightarrow> byte list option \<Rightarrow> 'c \<Rightarrow> (EFI_STATUS \<times> 'c) option" where
  "system_loop alloc gRT cb nsz VariableName VendorGuid dsz VariableData ctx =
     Option.bind (next_name alloc gRT nsz VariableName VendorGuid) (\<lambda>(Status, nsz1, name1, guid1).
     if Status \<noteq> EFI_SUCCESS then Some (if Status = EFI_NOT_FOUND then EFI_SUCCESS else Status, ctx)
     else let (Status2, attr, n, dsz1, data1) = get_data alloc gRT name1 guid1 dsz VariableData
     in if Status2 \<noteq> EFI_SUCCESS then Some (Status2, ctx)
        else Option.bind name1 (\<lambda>name. Option.bind (Option.bind data1 (\<lambda>d. load_bytes d 0 n)) (\<lambda>d.
          Option.bind (cb ctx name guid1 attr d) (\<lambda>(Status3, ctx1).
          if Status3 \<noteq> EFI_SUCCESS then Some (Status3, ctx1)
          else system_loop alloc gRT cb nsz1 name1 guid1 dsz1 data1 ctx1))))"

declare system_loop.simps [code]

text \<open>The buffer for names is zeroed; the GUID is not initialised.\<close>

definition SerializeVariablesIterateSystemVariables ::
  "pool \<Rightarrow> var_services \<Rightarrow> byte list \<Rightarrow> 'c callback \<Rightarrow> 'c \<Rightarrow> (EFI_STATUS \<times> 'c) option" where
  "SerializeVariablesIterateSystemVariables alloc gRT VendorGuid cb ctx =
     system_loop alloc gRT cb 2 (map_option (\<lambda>b. replicate (length b) 0) (alloc 2)) VendorGuid 0 None ctx"

section \<open>The services\<close>

text \<open>A buffer that starts with a name.\<close>

definition holds_name :: "byte list \<Rightarrow> byte list \<Rightarrow> bool" where
  "holds_name b name \<longleftrightarrow> (\<exists>rest. b = name @ rest)"

text \<open>
  The variables are enumerated in a fixed order, starting with the empty name, and read by name and GUID; a
  buffer that is too small is reported with the size needed and nothing else.
\<close>

definition serves :: "var_services \<Rightarrow> sv_var list \<Rightarrow> bool" where
  "serves gRT vs \<longleftrightarrow> (\<forall>v \<in> set vs. v_data v \<noteq> []) \<and>
     (\<forall>k b guid. k \<le> length vs \<and> (if k = 0 then holds_name b [0, 0] else holds_name b (v_name (vs ! (k - 1))) \<and> guid = v_guid (vs ! (k - 1))) \<longrightarrow>
        (if k = length vs then fst (GetNextVariableName gRT (length b) (Some b) guid) = EFI_NOT_FOUND
         else let name = v_name (vs ! k)
           in GetNextVariableName gRT (length b) (Some b) guid =
             (if length b < length name then (EFI_BUFFER_TOO_SMALL, length name, Some b, guid)
              else (EFI_SUCCESS, length name, Some (name @ drop (length name) b), v_guid (vs ! k))))) \<and>
     (\<forall>v b data. v \<in> set vs \<and> holds_name b (v_name v) \<longrightarrow> (let n = (case data of None \<Rightarrow> 0 | Some d \<Rightarrow> length d)
        in if n < length (v_data v)
           then \<exists>attr. GetVariable gRT (Some b) (v_guid v) n data = (EFI_BUFFER_TOO_SMALL, attr, length (v_data v), data)
           else GetVariable gRT (Some b) (v_guid v) n data =
             (EFI_SUCCESS, v_attr v, length (v_data v), map_option (\<lambda>d. v_data v @ drop (length (v_data v)) d) data)))"

text \<open>The callbacks in order, up to the first that fails; its status is the result.\<close>

fun run_system :: "'c callback \<Rightarrow> 'c \<Rightarrow> sv_var list \<Rightarrow> (EFI_STATUS \<times> 'c) option" where
  "run_system cb ctx [] = Some (EFI_SUCCESS, ctx)"
| "run_system cb ctx (v # vs) = Option.bind (cb ctx (v_name v) (v_guid v) (v_attr v) (v_data v)) (\<lambda>(st, ctx').
     if st \<noteq> EFI_SUCCESS then Some (st, ctx') else run_system cb ctx' vs)"

text \<open>A callback that looks at the name only up to its terminator.\<close>

definition reads_name :: "'c callback \<Rightarrow> sv_var list \<Rightarrow> bool" where
  "reads_name cb vs \<longleftrightarrow> (\<forall>v \<in> set vs. \<forall>ctx rest. cb ctx (v_name v @ rest) (v_guid v) (v_attr v) (v_data v) =
     cb ctx (v_name v) (v_guid v) (v_attr v) (v_data v))"

definition data_buffer :: "nat \<Rightarrow> byte list option \<Rightarrow> bool" where
  "data_buffer n data \<longleftrightarrow> n = (case data of None \<Rightarrow> 0 | Some d \<Rightarrow> length d)"

lemma pool_totalE:
  assumes "pool_total alloc"
  obtains b where "alloc n = Some b" "length b = n"
  using assms unfolding pool_total_def by blast

lemma next_name_found:
  assumes sv: "serves gRT vs" and pt: "pool_total alloc" and k: "k < length vs"
    and at: "if k = 0 then holds_name b [0, 0] else holds_name b (v_name (vs ! (k - 1))) \<and> guid = v_guid (vs ! (k - 1))"
  shows "\<exists>b'. next_name alloc gRT (length b) (Some b) guid = Some (EFI_SUCCESS, length b', Some b', v_guid (vs ! k)) \<and> holds_name b' (v_name (vs ! k))"
proof -
  let ?name = "v_name (vs ! k)"
  have step: "GetNextVariableName gRT (length c) (Some c) guid =
       (if length c < length ?name then (EFI_BUFFER_TOO_SMALL, length ?name, Some c, guid)
        else (EFI_SUCCESS, length ?name, Some (?name @ drop (length ?name) c), v_guid (vs ! k)))"
    if "if k = 0 then holds_name c [0, 0] else holds_name c (v_name (vs ! (k - 1))) \<and> guid = v_guid (vs ! (k - 1))" for c
    using sv k that unfolding serves_def by (metis less_imp_le nat_neq_iff)
  show ?thesis
  proof (cases "length b < length ?name")
    case False
    then have "length (?name @ drop (length ?name) b) = length b" by simp
    then show ?thesis using step [OF at] False
      by (intro exI [of _ "?name @ drop (length ?name) b"]) (simp add: next_name_def holds_name_def)
  next
    case True
    obtain nb where nb: "alloc (length ?name) = Some nb" "length nb = length ?name" by (rule pool_totalE [OF pt])
    let ?b = "b @ drop (length b) nb"
    have l: "length ?b = length ?name" using True nb(2) by simp
    have at': "if k = 0 then holds_name ?b [0, 0] else holds_name ?b (v_name (vs ! (k - 1))) \<and> guid = v_guid (vs ! (k - 1))"
      using at by (auto simp: holds_name_def)
    have "next_name alloc gRT (length b) (Some b) guid = Some (EFI_SUCCESS, length ?name, Some ?name, v_guid (vs ! k))"
      using step [OF at] step [OF at', unfolded l] True nb by (simp add: next_name_def load_bytes_def store_bytes_def)
    then show ?thesis by (intro exI [of _ ?name]) (auto simp: holds_name_def)
  qed
qed

lemma serves_get:
  assumes "serves gRT vs" and "v \<in> set vs" and "holds_name b (v_name v)"
  shows "let n = (case data of None \<Rightarrow> 0 | Some d \<Rightarrow> length d)
      in if n < length (v_data v) then \<exists>attr. GetVariable gRT (Some b) (v_guid v) n data = (EFI_BUFFER_TOO_SMALL, attr, length (v_data v), data)
         else GetVariable gRT (Some b) (v_guid v) n data =
           (EFI_SUCCESS, v_attr v, length (v_data v), map_option (\<lambda>d. v_data v @ drop (length (v_data v)) d) data)"
  using assms unfolding serves_def by blast

lemma get_data_found:
  assumes sv: "serves gRT vs" and pt: "pool_total alloc" and v: "v \<in> set vs" and b: "holds_name b (v_name v)" and d: "data_buffer dsz data"
  shows "\<exists>d'. get_data alloc gRT (Some b) (v_guid v) dsz data = (EFI_SUCCESS, v_attr v, length (v_data v), length d', Some d') \<and>
    load_bytes d' 0 (length (v_data v)) = Some (v_data v)"
proof -
  let ?D = "v_data v"
  have ne: "?D \<noteq> []" using sv v unfolding serves_def by blast
  note step = serves_get [OF sv v b]
  show ?thesis
  proof (cases "dsz < length ?D")
    case True
    obtain attr where g: "GetVariable gRT (Some b) (v_guid v) dsz data = (EFI_BUFFER_TOO_SMALL, attr, length ?D, data)"
      using step [of data] d True by (auto simp: data_buffer_def Let_def)
    obtain nb where nb: "alloc (length ?D) = Some nb" "length nb = length ?D" by (rule pool_totalE [OF pt])
    have "GetVariable gRT (Some b) (v_guid v) (length ?D) (Some nb) = (EFI_SUCCESS, v_attr v, length ?D, Some ?D)"
      using step [of "Some nb"] nb(2) by (simp add: Let_def)
    then show ?thesis using g nb by (intro exI [of _ ?D]) (simp add: get_data_def load_bytes_def)
  next
    case False
    then obtain d0 where d0: "data = Some d0" "dsz = length d0" using d ne by (cases data) (auto simp: data_buffer_def)
    then have "GetVariable gRT (Some b) (v_guid v) dsz data = (EFI_SUCCESS, v_attr v, length ?D, Some (?D @ drop (length ?D) d0))"
      using step [of data] False by simp
    then show ?thesis using False d0 by (intro exI [of _ "?D @ drop (length ?D) d0"]) (simp add: get_data_def load_bytes_def)
  qed
qed

lemma system_loop_runs:
  assumes sv: "serves gRT vs" and pt: "pool_total alloc" and cb: "reads_name cb vs"
    and "k \<le> length vs" and "data_buffer dsz data"
    and "if k = 0 then holds_name b [0, 0] else holds_name b (v_name (vs ! (k - 1))) \<and> guid = v_guid (vs ! (k - 1))"
  shows "system_loop alloc gRT cb (length b) (Some b) guid dsz data ctx = run_system cb ctx (drop k vs)"
  using assms(4-)
proof (induction "length vs - k" arbitrary: k b guid dsz data ctx)
  case 0
  then have k: "k = length vs" by simp
  have "fst (GetNextVariableName gRT (length b) (Some b) guid) = EFI_NOT_FOUND"
    using sv 0(2,4) k unfolding serves_def by (metis order_refl)
  then show ?case using k by (subst system_loop.simps) (auto simp: next_name_def split: prod.splits)
next
  case (Suc j)
  then have k: "k < length vs" by simp
  let ?v = "vs ! k"
  have v: "?v \<in> set vs" using k by simp
  have dr: "drop k vs = ?v # drop (Suc k) vs" using Cons_nth_drop_Suc [OF k] by simp
  obtain b' where b': "next_name alloc gRT (length b) (Some b) guid = Some (EFI_SUCCESS, length b', Some b', v_guid ?v)" "holds_name b' (v_name ?v)"
    using next_name_found [OF sv pt k Suc.prems(3)] by blast
  obtain d' where d': "get_data alloc gRT (Some b') (v_guid ?v) dsz data = (EFI_SUCCESS, v_attr ?v, length (v_data ?v), length d', Some d')"
    "load_bytes d' 0 (length (v_data ?v)) = Some (v_data ?v)" using get_data_found [OF sv pt v b'(2) Suc.prems(2)] by blast
  have c: "cb ctx b' (v_guid ?v) (v_attr ?v) (v_data ?v) = cb ctx (v_name ?v) (v_guid ?v) (v_attr ?v) (v_data ?v)"
    using cb v b'(2) unfolding reads_name_def holds_name_def by blast
  have next_var: "system_loop alloc gRT cb (length b') (Some b') (v_guid ?v) (length d') (Some d') ctx' = run_system cb ctx' (drop (Suc k) vs)" for ctx'
    using Suc.hyps(1) [of "Suc k" "length d'" "Some d'" b' "v_guid ?v" ctx'] Suc.hyps(2) k b'(2) by (simp add: data_buffer_def)
  have "system_loop alloc gRT cb (length b) (Some b) guid dsz data ctx =
      Option.bind (cb ctx b' (v_guid ?v) (v_attr ?v) (v_data ?v)) (\<lambda>(st, ctx1). if st \<noteq> EFI_SUCCESS then Some (st, ctx1)
        else system_loop alloc gRT cb (length b') (Some b') (v_guid ?v) (length d') (Some d') ctx1)"
    by (subst system_loop.simps) (simp add: b' d')
  then show ?case unfolding dr c next_var by simp
qed

lemma iterate_system:
  assumes "serves gRT vs" and "pool_total alloc" and "reads_name cb vs"
  shows "SerializeVariablesIterateSystemVariables alloc gRT guid cb ctx = run_system cb ctx vs"
proof -
  obtain b where b: "alloc 2 = Some b" "length b = 2" by (rule pool_totalE [OF assms(2)])
  have "holds_name (replicate 2 0) [0, 0]" by (simp add: holds_name_def numeral_2_eq_2)
  then show ?thesis using system_loop_runs [OF assms, of 0 0 None "replicate 2 0" guid ctx] b
    by (simp add: SerializeVariablesIterateSystemVariables_def data_buffer_def)
qed

end
