(* ===== verification/NvVars.thy ===== *)
theory NvVars
  imports SerializeVarsSystem FwCfg
begin

text \<open>
  Non-volatile variables kept in a file: \<^verbatim>\<open>Library/NvVarsFileLib\<close>. The file system, the runtime
  services and the pool are parameters; handles are numbers. The state holds what the
  services and the file system keep, and the file system the library is connected to.
  Pool memory that is freed is not tracked.
\<close>

section \<open>State\<close>

record EFI_FILE_INFO =
  fi_Attribute :: nat
  fi_FileSize :: nat

record ('r, 'f) nv_env =
  nv_alloc :: pool
  nv_set :: "'r sv_rt"
  nv_get :: "'r \<Rightarrow> var_services"
  nv_guid :: "byte list"
  HandleProtocolFs :: "'f \<Rightarrow> nat \<Rightarrow> EFI_STATUS + nat"
  OpenVolume :: "'f \<Rightarrow> nat \<Rightarrow> (EFI_STATUS + nat) \<times> 'f"
  OpenFile :: "'f \<Rightarrow> nat \<Rightarrow> nat \<Rightarrow> (EFI_STATUS + nat) \<times> 'f"
  FileHandleGetInfo :: "'f \<Rightarrow> nat \<Rightarrow> EFI_FILE_INFO option"
  FileHandleSetInfo :: "'f \<Rightarrow> nat \<Rightarrow> EFI_FILE_INFO \<Rightarrow> EFI_STATUS \<times> 'f"
  FileHandleRead :: "'f \<Rightarrow> nat \<Rightarrow> nat \<Rightarrow> EFI_STATUS \<times> byte list \<times> 'f"
  FileHandleWrite :: "'f \<Rightarrow> nat \<Rightarrow> byte list \<Rightarrow> EFI_STATUS \<times> 'f"
  FileHandleClose :: "'f \<Rightarrow> nat \<Rightarrow> 'f"

record ('r, 'f) nv_state =
  rt :: 'r
  files :: 'f
  mNvVarsFileLibFsHandle :: "nat option"

definition EFI_VARIABLE_NON_VOLATILE :: nat where "EFI_VARIABLE_NON_VOLATILE = 1"
definition EFI_VARIABLE_BOOTSERVICE_ACCESS :: nat where "EFI_VARIABLE_BOOTSERVICE_ACCESS = 2"
definition EFI_VARIABLE_RUNTIME_ACCESS :: nat where "EFI_VARIABLE_RUNTIME_ACCESS = 4"

text \<open>The name of the variable and the file, with its terminator, and the GUID.\<close>

definition NvVars_name :: "byte list" where
  "NvVars_name = concat (map (\<lambda>c. [c, 0]) (ascii ''NvVars'')) @ [0, 0]"

definition gEfiSimpleFileSystemProtocolGuid :: "byte list" where
  "gEfiSimpleFileSystemProtocolGuid = [0x22, 0x5b, 0x4e, 0x96, 0x59, 0x64, 0xd2, 0x11, 0x8e, 0x39, 0x00, 0xa0, 0xc9, 0x69, 0x72, 0x3b]"

section \<open>The file\<close>

definition GetNvVarsFile :: "('r, 'f) nv_env \<Rightarrow> nat \<Rightarrow> bool \<Rightarrow> 'f \<Rightarrow> (EFI_STATUS + nat) \<times> 'f" where
  "GetNvVarsFile E FsHandle ReadingFile f =
     (case HandleProtocolFs E f FsHandle of
        Inl st \<Rightarrow> (Inl st, f)
      | Inr Fs \<Rightarrow> (case OpenVolume E f Fs of
          (Inl st, f1) \<Rightarrow> (Inl st, f1)
        | (Inr Root, f1) \<Rightarrow> OpenFile E f1 Root (if ReadingFile then EFI_FILE_MODE_READ
            else EFI_FILE_MODE_CREATE OR EFI_FILE_MODE_READ OR EFI_FILE_MODE_WRITE)))"

definition NvVarsFileReadCheckup :: "('r, 'f) nv_env \<Rightarrow> nat \<Rightarrow> 'f \<Rightarrow> bool \<times> nat" where
  "NvVarsFileReadCheckup E File f =
     (case FileHandleGetInfo E f File of
        None \<Rightarrow> (False, 0)
      | Some FileInfo \<Rightarrow> if fi_Attribute FileInfo AND EFI_FILE_DIRECTORY \<noteq> 0 then (False, 0) else (True, fi_FileSize FileInfo))"

definition FileHandleEmpty :: "('r, 'f) nv_env \<Rightarrow> nat \<Rightarrow> 'f \<Rightarrow> EFI_STATUS \<times> 'f" where
  "FileHandleEmpty E File f =
     (case FileHandleGetInfo E f File of
        None \<Rightarrow> (EFI_INVALID_PARAMETER, f)
      | Some FileInfo \<Rightarrow>
          if fi_Attribute FileInfo AND EFI_FILE_DIRECTORY \<noteq> 0 then (EFI_INVALID_PARAMETER, f)
          else if fi_FileSize FileInfo = 0 then (EFI_SUCCESS, f)
          else FileHandleSetInfo E f File (FileInfo\<lparr>fi_FileSize := 0\<rparr>))"

definition FileHandleReadToNewBuffer :: "('r, 'f) nv_env \<Rightarrow> nat \<Rightarrow> nat \<Rightarrow> 'f \<Rightarrow> byte list option \<times> 'f" where
  "FileHandleReadToNewBuffer E FileHandle ReadSize f =
     (case nv_alloc E ReadSize of
        None \<Rightarrow> (None, f)
      | Some _ \<Rightarrow> let (Status, bytes, f1) = FileHandleRead E f FileHandle ReadSize
          in (if Status \<noteq> EFI_SUCCESS \<or> length bytes \<noteq> ReadSize then None else Some bytes, f1))"

section \<open>Loading\<close>

definition ReadNvVarsFile :: "('r, 'f) nv_env \<Rightarrow> nat \<Rightarrow> ('r, 'f) nv_state \<Rightarrow> (EFI_STATUS \<times> ('r, 'f) nv_state) option" where
  "ReadNvVarsFile E FsHandle s =
     (case GetNvVarsFile E FsHandle True (files s) of
        (Inl st, f1) \<Rightarrow> Some (st, s\<lparr>files := f1\<rparr>)
      | (Inr File, f1) \<Rightarrow>
          let (FileExists, FileSize) = NvVarsFileReadCheckup E File f1
          in if FileSize = 0 then Some (EFI_UNSUPPORTED, s\<lparr>files := FileHandleClose E f1 File\<rparr>)
             else (case FileHandleReadToNewBuffer E File FileSize f1 of
                 (None, f2) \<Rightarrow> Some (EFI_UNSUPPORTED, s\<lparr>files := FileHandleClose E f2 File\<rparr>)
               | (Some FileContents, f2) \<Rightarrow>
                   let s2 = s\<lparr>files := FileHandleClose E f2 File\<rparr>
                   in Option.bind (SerializeVariablesNewInstanceFromBuffer (nv_alloc E) FileContents FileSize) (\<lambda>(Status, h).
                      if Status \<noteq> EFI_SUCCESS then Some (Status, s2)
                      else Option.bind h (\<lambda>i. map_option (\<lambda>(st, r). (st, s2\<lparr>rt := r\<rparr>))
                        (SerializeVariablesSetSerializedVariables (nv_alloc E) (nv_set E) i (rt s))))))"

definition SetNvVarsVariable :: "('r, 'f) nv_env \<Rightarrow> 'r \<Rightarrow> 'r" where
  "SetNvVarsVariable E r = snd (SetVariable (nv_set E) r NvVars_name gEfiSimpleFileSystemProtocolGuid
     (EFI_VARIABLE_NON_VOLATILE OR EFI_VARIABLE_BOOTSERVICE_ACCESS OR EFI_VARIABLE_RUNTIME_ACCESS) [1])"

definition LoadNvVarsFromFs :: "('r, 'f) nv_env \<Rightarrow> nat \<Rightarrow> ('r, 'f) nv_state \<Rightarrow> (EFI_STATUS \<times> ('r, 'f) nv_state) option" where
  "LoadNvVarsFromFs E FsHandle s =
     (if fst (GetVariable (nv_get E (rt s)) (Some NvVars_name) gEfiSimpleFileSystemProtocolGuid 1 (Some [1])) = EFI_SUCCESS
      then Some (EFI_ALREADY_STARTED, s)
      else Option.bind (ReadNvVarsFile E FsHandle s) (\<lambda>(Status, s1).
        if Status \<noteq> EFI_SUCCESS then Some (Status, s1)
        else Some (Status, s1\<lparr>rt := SetNvVarsVariable E (rt s1)\<rparr>)))"

section \<open>Saving\<close>

definition IterateVariablesCallbackAddAllNvVariables :: "pool \<Rightarrow> SV_INSTANCE callback" where
  "IterateVariablesCallbackAddAllNvVariables alloc Instance VariableName VendorGuid Attributes Data =
     (if Attributes AND EFI_VARIABLE_NON_VOLATILE = 0 then Some (EFI_SUCCESS, Instance)
      else SerializeVariablesAddVariable alloc Instance (Some VariableName) (Some VendorGuid) Attributes (length Data) (Some Data))"

text \<open>The packed variables with their size, or an error.\<close>

definition packed_variables :: "pool \<Rightarrow> SV_INSTANCE \<Rightarrow> (EFI_STATUS \<times> nat \<times> byte list option) option" where
  "packed_variables alloc i =
     Option.bind (SerializeVariablesToBuffer i None (Some 0)) (\<lambda>(Status, n, _).
     Option.bind n (\<lambda>VariableDataSize.
     if Status = EFI_BUFFER_TOO_SMALL
     then (case alloc VariableDataSize of
         None \<Rightarrow> Some (EFI_OUT_OF_RESOURCES, VariableDataSize, None)
       | Some VariableData \<Rightarrow> Option.bind (SerializeVariablesToBuffer i (Some VariableData) (Some VariableDataSize)) (\<lambda>(Status2, n2, b).
           map_option (\<lambda>m. (Status2, m, b)) n2))
     else Some (Status, VariableDataSize, None)))"

definition SaveNvVarsToFs :: "('r, 'f) nv_env \<Rightarrow> nat \<Rightarrow> ('r, 'f) nv_state \<Rightarrow> (EFI_STATUS \<times> ('r, 'f) nv_state) option" where
  "SaveNvVarsToFs E FsHandle s =
     (case SerializeVariablesNewInstance (nv_alloc E) of
        (st, None) \<Rightarrow> Some (st, s)
      | (_, Some i0) \<Rightarrow>
          Option.bind (SerializeVariablesIterateSystemVariables (nv_alloc E) (nv_get E (rt s)) (nv_guid E)
            (IterateVariablesCallbackAddAllNvVariables (nv_alloc E)) i0) (\<lambda>(Status, i).
          if Status \<noteq> EFI_SUCCESS then Some (Status, s)
          else Option.bind (packed_variables (nv_alloc E) i) (\<lambda>(Status2, VariableDataSize, VariableData).
          Option.bind (SerializeVariablesFreeInstance i) (\<lambda>_.
          if Status2 \<noteq> EFI_SUCCESS then Some (Status2, s)
          else (case GetNvVarsFile E FsHandle False (files s) of
              (Inl st, f1) \<Rightarrow> Some (st, s\<lparr>files := f1\<rparr>)
            | (Inr File, f1) \<Rightarrow> (case FileHandleEmpty E File f1 of (Status3, f2) \<Rightarrow>
                if Status3 \<noteq> EFI_SUCCESS then Some (Status3, s\<lparr>files := FileHandleClose E f2 File\<rparr>)
                else Option.bind (Option.bind VariableData (\<lambda>d. load_bytes d 0 VariableDataSize)) (\<lambda>bytes.
                  case FileHandleWrite E f2 File bytes of (Status4, f3) \<Rightarrow>
                    if Status4 \<noteq> EFI_SUCCESS then Some (Status4, s\<lparr>files := f3\<rparr>)
                    else Some (Status4, s\<lparr>files := FileHandleClose E f3 File, rt := SetNvVarsVariable E (rt s)\<rparr>))))))))"

section \<open>The library\<close>

definition ConnectNvVarsToFileSystem :: "('r, 'f) nv_env \<Rightarrow> nat \<Rightarrow> ('r, 'f) nv_state \<Rightarrow> (EFI_STATUS \<times> ('r, 'f) nv_state) option" where
  "ConnectNvVarsToFileSystem E FsHandle s =
     Option.bind (LoadNvVarsFromFs E FsHandle s) (\<lambda>(_, s1).
     Option.bind (SaveNvVarsToFs E FsHandle s1) (\<lambda>(Status, s2).
     Some (Status, if Status = EFI_SUCCESS then s2\<lparr>mNvVarsFileLibFsHandle := Some FsHandle\<rparr> else s2)))"

definition UpdateNvVarsOnFileSystem :: "('r, 'f) nv_env \<Rightarrow> ('r, 'f) nv_state \<Rightarrow> (EFI_STATUS \<times> ('r, 'f) nv_state) option" where
  "UpdateNvVarsOnFileSystem E s =
     (case mNvVarsFileLibFsHandle s of
        None \<Rightarrow> Some (EFI_NOT_STARTED, s)
      | Some FsHandle \<Rightarrow> SaveNvVarsToFs E FsHandle s)"

end
