(* ===== verification/NvVarsProps.thy ===== *)
theory NvVarsProps
  imports NvVars
begin

text \<open>
  Saving the non-volatile variables and loading them again: the contracts of the services and of the file
  system, and what survives a reboot.
\<close>

section \<open>Contracts\<close>

definition var_key :: "sv_var \<Rightarrow> byte list \<times> byte list" where
  "var_key v = (v_name v, v_guid v)"

definition var_map :: "sv_var list \<Rightarrow> byte list \<times> byte list \<Rightarrow> sv_var option" where
  "var_map vs = map_of (map (\<lambda>v. (var_key v, v)) vs)"

definition nv_vars :: "sv_var list \<Rightarrow> sv_var list" where
  "nv_vars vs = filter (\<lambda>v. v_attr v AND EFI_VARIABLE_NON_VOLATILE \<noteq> 0) vs"

text \<open>A variable that exists has a name and data.\<close>

definition var_std :: "sv_var \<Rightarrow> bool" where
  "var_std v \<longleftrightarrow> var_ok v \<and> v_data v \<noteq> [] \<and> v_name v \<noteq> [0, 0]"

text \<open>
  The variable services, in the states they can be in: variables are enumerated and read by name and GUID,
  one per name and GUID, and setting one succeeds.
\<close>

definition rt_law :: "('r, 'f) nv_env \<Rightarrow> ('r \<Rightarrow> bool) \<Rightarrow> ('r \<Rightarrow> sv_var list) \<Rightarrow> bool" where
  "rt_law E vok vv \<longleftrightarrow> (\<forall>r. vok r \<longrightarrow>
     serves (nv_get E r) (vv r) \<and> distinct (map var_key (vv r)) \<and> (\<forall>v \<in> set (vv r). var_std v) \<and>
     (\<forall>v. var_std v \<longrightarrow>
        (\<exists>r'. SetVariable (nv_set E) r (v_name v) (v_guid v) (v_attr v) (v_data v) = (EFI_SUCCESS, r') \<and> vok r' \<and>
           var_map (vv r') = (var_map (vv r))(var_key v \<mapsto> v))) \<and>
     (\<forall>v n data. var_std v \<and> var_map (vv r) (var_key v) = None \<longrightarrow>
        fst (GetVariable (nv_get E r) (Some (v_name v)) (v_guid v) n data) \<noteq> EFI_SUCCESS))"

lemma rt_lawD:
  assumes "rt_law E vok vv" and "vok r"
  shows "serves (nv_get E r) (vv r)" "distinct (map var_key (vv r))" "v \<in> set (vv r) \<Longrightarrow> var_std v"
    "var_std v \<Longrightarrow> \<exists>r'. SetVariable (nv_set E) r (v_name v) (v_guid v) (v_attr v) (v_data v) = (EFI_SUCCESS, r') \<and> vok r' \<and>
       var_map (vv r') = (var_map (vv r))(var_key v \<mapsto> v)"
    "var_std v \<Longrightarrow> var_map (vv r) (var_key v) = None \<Longrightarrow> fst (GetVariable (nv_get E r) (Some (v_name v)) (v_guid v) n data) \<noteq> EFI_SUCCESS"
  using assms unfolding rt_law_def by blast+

text \<open>
  The file system behind a handle: the contents of the file, if it exists, and the position of an open
  file. Opening for writing creates the file, there is room, and closing keeps the contents.
\<close>

definition fs_opens :: "('r, 'f) nv_env \<Rightarrow> nat \<Rightarrow> ('f \<Rightarrow> byte list option) \<Rightarrow> ('f \<Rightarrow> nat \<Rightarrow> nat option) \<Rightarrow> bool" where
  "fs_opens E h content pos \<longleftrightarrow> (\<forall>f. \<exists>Fs Root f1. HandleProtocolFs E f h = Inr Fs \<and> OpenVolume E f Fs = (Inr Root, f1) \<and>
     (\<forall>bs mode. content f = Some bs \<longrightarrow> (\<exists>f2 fh. OpenFile E f1 Root mode = (Inr fh, f2) \<and> content f2 = Some bs \<and> pos f2 fh = Some 0)) \<and>
     (\<forall>mode. content f = None \<longrightarrow>
        (if mode AND EFI_FILE_MODE_CREATE = 0 then \<exists>f2. OpenFile E f1 Root mode = (Inl EFI_NOT_FOUND, f2) \<and> content f2 = None
         else \<exists>f2 fh. OpenFile E f1 Root mode = (Inr fh, f2) \<and> content f2 = Some [] \<and> pos f2 fh = Some 0)))"

definition fs_opened :: "('r, 'f) nv_env \<Rightarrow> ('f \<Rightarrow> byte list option) \<Rightarrow> ('f \<Rightarrow> nat \<Rightarrow> nat option) \<Rightarrow> bool" where
  "fs_opened E content pos \<longleftrightarrow> (\<forall>f fh p bs. pos f fh = Some p \<and> content f = Some bs \<longrightarrow>
     (\<exists>info. FileHandleGetInfo E f fh = Some info \<and> fi_Attribute info AND EFI_FILE_DIRECTORY = 0 \<and> fi_FileSize info = length bs) \<and>
     (\<forall>info. fi_FileSize info \<le> length bs \<longrightarrow> (\<exists>f1. FileHandleSetInfo E f fh info = (EFI_SUCCESS, f1) \<and>
        content f1 = Some (take (fi_FileSize info) bs) \<and> pos f1 fh = Some p)) \<and>
     (\<forall>n. \<exists>f1. FileHandleRead E f fh n = (EFI_SUCCESS, take n (drop p bs), f1) \<and> content f1 = Some bs) \<and>
     (\<forall>w. \<exists>f1. FileHandleWrite E f fh w = (EFI_SUCCESS, f1) \<and> content f1 = Some (take p bs @ w @ drop (p + length w) bs)))"

definition fs_law :: "('r, 'f) nv_env \<Rightarrow> nat \<Rightarrow> ('f \<Rightarrow> byte list option) \<Rightarrow> ('f \<Rightarrow> nat \<Rightarrow> nat option) \<Rightarrow> bool" where
  "fs_law E h content pos \<longleftrightarrow> fs_opens E h content pos \<and> fs_opened E content pos \<and> (\<forall>f fh. content (FileHandleClose E f fh) = content f)"

lemma fs_lawD:
  assumes "fs_law E h content pos" and "pos f fh = Some p" and "content f = Some bs"
  shows "\<exists>info. FileHandleGetInfo E f fh = Some info \<and> fi_Attribute info AND EFI_FILE_DIRECTORY = 0 \<and> fi_FileSize info = length bs"
    "fi_FileSize info \<le> length bs \<Longrightarrow> \<exists>f1. FileHandleSetInfo E f fh info = (EFI_SUCCESS, f1) \<and>
       content f1 = Some (take (fi_FileSize info) bs) \<and> pos f1 fh = Some p"
    "\<exists>f1. FileHandleRead E f fh n = (EFI_SUCCESS, take n (drop p bs), f1) \<and> content f1 = Some bs"
    "\<exists>f1. FileHandleWrite E f fh w = (EFI_SUCCESS, f1) \<and> content f1 = Some (take p bs @ w @ drop (p + length w) bs)"
  using assms unfolding fs_law_def fs_opened_def by blast+

lemma fs_close: "fs_law E h content pos \<Longrightarrow> content (FileHandleClose E f fh) = content f"
  by (simp add: fs_law_def)

section \<open>Files\<close>

lemma open_modes: "EFI_FILE_MODE_READ AND EFI_FILE_MODE_CREATE = 0"
  "(EFI_FILE_MODE_CREATE OR EFI_FILE_MODE_READ OR EFI_FILE_MODE_WRITE) AND EFI_FILE_MODE_CREATE \<noteq> 0"
  by (simp_all add: EFI_FILE_MODE_CREATE_def EFI_FILE_MODE_READ_def EFI_FILE_MODE_WRITE_def)

lemma open_existing:
  assumes fs: "fs_law E h content pos" and c: "content f = Some bs"
  shows "\<exists>fh f1. GetNvVarsFile E h reading f = (Inr fh, f1) \<and> content f1 = Some bs \<and> pos f1 fh = Some 0"
proof -
  have "fs_opens E h content pos" using fs by (simp add: fs_law_def)
  from this [unfolded fs_opens_def, THEN spec, of f]
  obtain Fs Root f1 where o: "HandleProtocolFs E f h = Inr Fs" "OpenVolume E f Fs = (Inr Root, f1)"
    "\<forall>bs mode. content f = Some bs \<longrightarrow> (\<exists>f2 fh. OpenFile E f1 Root mode = (Inr fh, f2) \<and> content f2 = Some bs \<and> pos f2 fh = Some 0)"
    by blast
  let ?m = "if reading then EFI_FILE_MODE_READ else EFI_FILE_MODE_CREATE OR EFI_FILE_MODE_READ OR EFI_FILE_MODE_WRITE"
  from o(3) c obtain f2 fh where "OpenFile E f1 Root ?m = (Inr fh, f2)" "content f2 = Some bs" "pos f2 fh = Some 0" by blast
  with o(1,2) show ?thesis by (simp add: GetNvVarsFile_def)
qed

lemma open_writing:
  assumes fs: "fs_law E h content pos"
  shows "\<exists>fh f1 bs. GetNvVarsFile E h False f = (Inr fh, f1) \<and> content f1 = Some bs \<and> pos f1 fh = Some 0"
proof (cases "content f")
  case None
  have "fs_opens E h content pos" using fs by (simp add: fs_law_def)
  from this [unfolded fs_opens_def, THEN spec, of f]
  obtain Fs Root f1 where o: "HandleProtocolFs E f h = Inr Fs" "OpenVolume E f Fs = (Inr Root, f1)"
    "\<forall>mode. content f = None \<longrightarrow> (if mode AND EFI_FILE_MODE_CREATE = 0 then \<exists>f2. OpenFile E f1 Root mode = (Inl EFI_NOT_FOUND, f2) \<and> content f2 = None
       else \<exists>f2 fh. OpenFile E f1 Root mode = (Inr fh, f2) \<and> content f2 = Some [] \<and> pos f2 fh = Some 0)"
    by blast
  let ?m = "EFI_FILE_MODE_CREATE OR EFI_FILE_MODE_READ OR EFI_FILE_MODE_WRITE"
  obtain f2 fh where "OpenFile E f1 Root ?m = (Inr fh, f2)" "content f2 = Some []" "pos f2 fh = Some 0"
    using o(3) [THEN spec, of ?m] None open_modes(2) by (simp only: if_False simp_thms) blast
  with o(1,2) show ?thesis by (simp add: GetNvVarsFile_def)
next
  case (Some bs)
  then show ?thesis using open_existing [OF fs, of f bs False] by blast
qed

lemma emptied:
  assumes fs: "fs_law E h content pos" and "content f = Some bs" and "pos f fh = Some 0"
  shows "\<exists>f1. FileHandleEmpty E fh f = (EFI_SUCCESS, f1) \<and> content f1 = Some [] \<and> pos f1 fh = Some 0"
proof -
  obtain info where i: "FileHandleGetInfo E f fh = Some info" "fi_Attribute info AND EFI_FILE_DIRECTORY = 0" "fi_FileSize info = length bs"
    using fs_lawD(1) [OF fs assms(3,2)] by blast
  obtain f1 where "FileHandleSetInfo E f fh (info\<lparr>fi_FileSize := 0\<rparr>) = (EFI_SUCCESS, f1)" "content f1 = Some []" "pos f1 fh = Some 0"
    using fs_lawD(2) [OF fs assms(3,2), of "info\<lparr>fi_FileSize := 0\<rparr>"] by auto
  then show ?thesis using i assms(2,3) by (simp add: FileHandleEmpty_def)
qed

section \<open>Packing\<close>

lemma StrSize_append: "StrSize b = Some n \<Longrightarrow> StrSize (b @ rest) = Some n"
  by (induction b arbitrary: n rule: StrSize.induct) (auto split: if_splits)

lemma append_prefix: "AppendToBuffer i (Some (name @ rest)) (length name) = AppendToBuffer i (Some name) (length name)"
  by (simp add: AppendToBuffer_def load_bytes_def cong: if_cong)

lemma add_reads_name:
  assumes "var_ok v"
  shows "SerializeVariablesAddVariable alloc i (Some (v_name v @ rest)) guid attr n data =
    SerializeVariablesAddVariable alloc i (Some (v_name v)) guid attr n data"
proof -
  have s: "StrSize (v_name v) = Some (length (v_name v))" "length (v_name v) mod 2 ^ 32 = length (v_name v)"
    using assms by (simp_all add: var_ok_def)
  then show ?thesis using StrSize_append [OF s(1), of rest] unfolding SerializeVariablesAddVariable_def
    by (simp only: Option.bind.simps s(2) Let_def append_prefix)
qed

lemma callback_reads_name:
  assumes "\<forall>v \<in> set vs. var_ok v"
  shows "reads_name (IterateVariablesCallbackAddAllNvVariables alloc) vs"
  using assms by (simp add: reads_name_def IterateVariablesCallbackAddAllNvVariables_def add_reads_name)

lemma run_add_nv:
  assumes "add_vars alloc i (nv_vars vs) = Some (EFI_SUCCESS, i')"
  shows "run_system (IterateVariablesCallbackAddAllNvVariables alloc) i vs = Some (EFI_SUCCESS, i')"
  using assms by (induction vs arbitrary: i)
    (auto simp: nv_vars_def IterateVariablesCallbackAddAllNvVariables_def bind_eq_Some_conv split: if_splits)

lemma packed_vars:
  assumes pt: "pool_total alloc" and h: "sv_holds i bs" and ne: "bs \<noteq> []"
  shows "packed_variables alloc i = Some (EFI_SUCCESS, length bs, Some bs)"
proof -
  obtain b where b: "alloc (length bs) = Some b" "length b = length bs" by (rule pool_totalE [OF pt])
  have "SerializeVariablesToBuffer i None (Some 0) = Some (EFI_BUFFER_TOO_SMALL, Some (length bs), None)"
    using h ne by (auto simp: SerializeVariablesToBuffer_def SV_FROM_HANDLE_def sv_holds_def)
  then show ?thesis using to_buffer [OF h, of b] b by (simp add: packed_variables_def)
qed


section \<open>Saving and loading\<close>

definition marker :: sv_var where
  "marker = \<lparr>v_name = NvVars_name, v_guid = gEfiSimpleFileSystemProtocolGuid, v_attr = 7, v_data = [1]\<rparr>"

lemma marker_std: "var_std marker"
  by (simp add: var_std_def var_ok_def marker_def NvVars_name_def ascii_def gEfiSimpleFileSystemProtocolGuid_def)

lemma marker_attr: "EFI_VARIABLE_NON_VOLATILE OR EFI_VARIABLE_BOOTSERVICE_ACCESS OR EFI_VARIABLE_RUNTIME_ACCESS = 7"
  by (simp add: EFI_VARIABLE_NON_VOLATILE_def EFI_VARIABLE_BOOTSERVICE_ACCESS_def EFI_VARIABLE_RUNTIME_ACCESS_def)

lemma marks:
  assumes "rt_law E vok vv" and "vok r"
  shows "vok (SetNvVarsVariable E r) \<and> var_map (vv (SetNvVarsVariable E r)) = (var_map (vv r))(var_key marker \<mapsto> marker)"
  using rt_lawD(4) [OF assms marker_std] by (auto simp: SetNvVarsVariable_def marker_attr marker_def)

lemma nv_vars_ok:
  assumes "rt_law E vok vv" and "vok r"
  shows "\<forall>v \<in> set (nv_vars (vv r)). var_ok v" "\<forall>v \<in> set (vv r). var_ok v" "\<forall>v \<in> set (nv_vars (vv r)). var_std v"
    "distinct (map var_key (nv_vars (vv r)))"
  using rt_lawD(3) [OF assms] rt_lawD(2) [OF assms] by (auto simp: nv_vars_def var_std_def distinct_map_filter)

lemma save_ok:
  assumes rl: "rt_law E vok vv" and fs: "fs_law E h content pos" and pt: "pool_total (nv_alloc E)" and ok: "vok (rt s)"
    and ne: "nv_vars (vv (rt s)) \<noteq> []" and sz: "length (ser_all (nv_vars (vv (rt s)))) < 2 ^ 63"
  shows "\<exists>f'. SaveNvVarsToFs E h s = Some (EFI_SUCCESS, s\<lparr>files := f', rt := SetNvVarsVariable E (rt s)\<rparr>) \<and>
    content f' = Some (ser_all (nv_vars (vv (rt s))))"
proof -
  let ?nv = "nv_vars (vv (rt s))" and ?cb = "IterateVariablesCallbackAddAllNvVariables (nv_alloc E)"
  note vs = nv_vars_ok [OF rl ok]
  obtain i where i: "add_vars (nv_alloc E) new_sv ?nv = Some (EFI_SUCCESS, i)" "sv_holds i (ser_all ?nv)"
    using add_vars_holds [OF pt new_sv_holds vs(1)] sz by auto
  have it: "SerializeVariablesIterateSystemVariables (nv_alloc E) (nv_get E (rt s)) (nv_guid E) ?cb new_sv = Some (EFI_SUCCESS, i)"
    using iterate_system [OF rt_lawD(1) [OF rl ok] pt callback_reads_name [OF vs(2)]] run_add_nv [OF i(1)] by simp
  have pk: "packed_variables (nv_alloc E) i = Some (EFI_SUCCESS, length (ser_all ?nv), Some (ser_all ?nv))"
    using packed_vars [OF pt i(2)] ser_all_Nil [OF vs(1)] ne by simp
  have fr: "SerializeVariablesFreeInstance i \<noteq> None" using i(2) by (simp add: SerializeVariablesFreeInstance_def SV_FROM_HANDLE_def sv_holds_def)
  obtain fh f1 bs where o: "GetNvVarsFile E h False (files s) = (Inr fh, f1)" "content f1 = Some bs" "pos f1 fh = Some 0"
    using open_writing [OF fs] by blast
  obtain f2 where e: "FileHandleEmpty E fh f1 = (EFI_SUCCESS, f2)" "content f2 = Some []" "pos f2 fh = Some 0"
    using emptied [OF fs o(2,3)] by blast
  obtain f3 where w: "FileHandleWrite E f2 fh (ser_all ?nv) = (EFI_SUCCESS, f3)" "content f3 = Some (ser_all ?nv)"
    using fs_lawD(4) [OF fs e(3,2), of "ser_all ?nv"] by auto
  have ld: "load_bytes (ser_all ?nv) 0 (length (ser_all ?nv)) = Some (ser_all ?nv)" by (simp add: load_bytes_def)
  from fr obtain u where "SerializeVariablesFreeInstance i = Some u" by blast
  then have "SaveNvVarsToFs E h s = Some (EFI_SUCCESS, s\<lparr>files := FileHandleClose E f3 fh, rt := SetNvVarsVariable E (rt s)\<rparr>)"
    by (simp add: SaveNvVarsToFs_def new_instance pool_total(3) [OF pt] it pk o(1) e(1) ld w(1))
  then show ?thesis using w(2) fs_close [OF fs, of f3 fh] by auto
qed

lemma set_saved:
  assumes rl: "rt_law E vok vv" and "vok r" and "\<forall>v \<in> set ws. var_std v"
  shows "\<exists>r'. run_callback (IterateVariablesCallbackSetSystemVariable (nv_set E)) r ws = Some (EFI_SUCCESS, r') \<and> vok r' \<and>
    var_map (vv r') = var_map (vv r) ++ var_map (rev ws)"
  using assms(2,3)
proof (induction ws arbitrary: r)
  case Nil
  then show ?case by (simp add: var_map_def)
next
  case (Cons v ws)
  obtain r1 where r1: "SetVariable (nv_set E) r (v_name v) (v_guid v) (v_attr v) (v_data v) = (EFI_SUCCESS, r1)" "vok r1"
    "var_map (vv r1) = (var_map (vv r))(var_key v \<mapsto> v)" using rt_lawD(4) [OF rl] Cons.prems by force
  have m: "(var_map (vv r))(var_key v \<mapsto> v) ++ var_map (rev ws) = var_map (vv r) ++ var_map (rev (v # ws))"
    by (simp add: var_map_def rev_map [symmetric])
  have cb: "IterateVariablesCallbackSetSystemVariable (nv_set E) r (v_name v) (v_guid v) (v_attr v) (v_data v) = Some (EFI_SUCCESS, r1)"
    using r1(1) by (simp add: IterateVariablesCallbackSetSystemVariable_def)
  have "\<forall>v \<in> set ws. var_std v" using Cons.prems(2) by simp
  from Cons.IH [OF r1(2) this, unfolded r1(3) m] cb show ?case by simp
qed

lemma var_map_rev: "distinct (map var_key ws) \<Longrightarrow> var_map (rev ws) = var_map ws"
proof (induction ws)
  case (Cons v ws)
  have "var_map (rev (v # ws)) = [var_key v \<mapsto> v] ++ var_map (rev ws)" by (simp add: var_map_def)
  also have "\<dots> = [var_key v \<mapsto> v] ++ var_map ws" using Cons by simp
  also have "\<dots> = var_map ws ++ [var_key v \<mapsto> v]"
    using Cons.prems by (intro map_add_comm) (auto simp: var_map_def dom_map_of_conv_image_fst image_image)
  also have "\<dots> = var_map (v # ws)" by (simp add: var_map_def)
  finally show ?case .
qed simp

lemma load_ok:
  assumes rl: "rt_law E vok vv" and fs: "fs_law E h content pos" and pt: "pool_total (nv_alloc E)" and ok: "vok (rt s)"
    and c: "content (files s) = Some (ser_all ws)" and ws: "\<forall>v \<in> set ws. var_std v" "ws \<noteq> []" "distinct (map var_key ws)"
    and sz: "length (ser_all ws) < 2 ^ 63" and nm: "var_map (vv (rt s)) (var_key marker) = None"
  shows "\<exists>f' r'. LoadNvVarsFromFs E h s = Some (EFI_SUCCESS, s\<lparr>files := f', rt := r'\<rparr>) \<and> content f' = Some (ser_all ws) \<and> vok r' \<and>
    var_map (vv r') = (var_map (vv (rt s)) ++ var_map ws)(var_key marker \<mapsto> marker)"
proof -
  have wo: "\<forall>v \<in> set ws. var_ok v" using ws(1) by (simp add: var_std_def)
  let ?n = "length (ser_all ws)"
  obtain fh f1 where o: "GetNvVarsFile E h True (files s) = (Inr fh, f1)" "content f1 = Some (ser_all ws)" "pos f1 fh = Some 0"
    using open_existing [OF fs c] by blast
  obtain info where nfo: "FileHandleGetInfo E f1 fh = Some info" "fi_Attribute info AND EFI_FILE_DIRECTORY = 0" "fi_FileSize info = ?n"
    using fs_lawD(1) [OF fs o(3,2)] by blast
  have n0: "?n \<noteq> 0" using ser_all_Nil [OF wo] ws(2) by simp
  obtain f2 where rd: "FileHandleRead E f1 fh ?n = (EFI_SUCCESS, ser_all ws, f2)" "content f2 = Some (ser_all ws)"
    using fs_lawD(3) [OF fs o(3,2), of ?n] by auto
  obtain b where b: "nv_alloc E ?n = Some b" by (rule pool_totalE [OF pt])
  obtain i where i: "add_vars (nv_alloc E) new_sv ws = Some (EFI_SUCCESS, i)" "sv_holds i (ser_all ws)"
    using add_vars_holds [OF pt new_sv_holds wo] sz by auto
  have fb: "SerializeVariablesNewInstanceFromBuffer (nv_alloc E) (ser_all ws) ?n = Some (EFI_SUCCESS, Some i)"
    by (rule from_buffer [OF pool_total(1,2) [OF pt] wo pool_total(3) [OF pt] set_in_instance [OF i(1)]])
  obtain r1 where r1: "run_callback (IterateVariablesCallbackSetSystemVariable (nv_set E)) (rt s) ws = Some (EFI_SUCCESS, r1)" "vok r1"
    "var_map (vv r1) = var_map (vv (rt s)) ++ var_map ws" using set_saved [OF rl ok ws(1)] var_map_rev [OF ws(3)] by auto
  have st: "SerializeVariablesSetSerializedVariables (nv_alloc E) (nv_set E) i (rt s) = Some (EFI_SUCCESS, r1)"
    by (simp add: SerializeVariablesSetSerializedVariables_def iterate_instance [OF pool_total(1,2) [OF pt] wo i(2)] r1(1))
  have rf: "ReadNvVarsFile E h s = Some (EFI_SUCCESS, s\<lparr>files := FileHandleClose E f2 fh, rt := r1\<rparr>)"
    using n0 by (simp add: ReadNvVarsFile_def o(1) NvVarsFileReadCheckup_def nfo FileHandleReadToNewBuffer_def b rd(1) fb st)
  have g: "fst (GetVariable (nv_get E (rt s)) (Some NvVars_name) gEfiSimpleFileSystemProtocolGuid 1 (Some [1])) \<noteq> EFI_SUCCESS"
    using rt_lawD(5) [OF rl ok marker_std nm] by (simp add: marker_def)
  have "LoadNvVarsFromFs E h s = Some (EFI_SUCCESS, s\<lparr>files := FileHandleClose E f2 fh, rt := SetNvVarsVariable E r1\<rparr>)"
    using g by (simp add: LoadNvVarsFromFs_def rf)
  then show ?thesis using marks [OF rl r1(2)] r1(3) fs_close [OF fs, of f2 fh] rd(2) by auto
qed

lemma load_again:
  assumes rl: "rt_law E vok vv" and ok: "vok (rt s)" and m: "var_map (vv (rt s)) (var_key marker) = Some marker"
  shows "LoadNvVarsFromFs E h s = Some (EFI_ALREADY_STARTED, s)"
proof -
  have "marker \<in> set (vv (rt s))" using m by (auto simp: var_map_def dest: map_of_SomeD)
  from serves_get [OF rt_lawD(1) [OF rl ok] this, of NvVars_name "Some [1]"]
  have "GetVariable (nv_get E (rt s)) (Some NvVars_name) gEfiSimpleFileSystemProtocolGuid 1 (Some [1]) = (EFI_SUCCESS, 7, 1, Some [1])"
    by (simp add: holds_name_def marker_def)
  then show ?thesis by (simp add: LoadNvVarsFromFs_def)
qed

end
