(* ===== verification/NvVarsFile.thy ===== *)
theory NvVarsFile
  imports NvVarsProps
begin

text \<open>
  What survives a reboot, over any variable services and file system that keep their contracts; and an
  instance of both on a list of variables and a list of bytes.
\<close>

section \<open>A list of variables\<close>

definition list_emit :: "nat \<Rightarrow> byte list \<Rightarrow> byte list \<Rightarrow> sv_var list \<Rightarrow> EFI_STATUS \<times> nat \<times> byte list option \<times> byte list" where
  "list_emit n b guid vs = (case vs of
     [] \<Rightarrow> (EFI_NOT_FOUND, n, Some b, guid)
   | v # _ \<Rightarrow> let m = length (v_name v)
       in if n < m then (EFI_BUFFER_TOO_SMALL, m, Some b, guid)
          else (EFI_SUCCESS, m, Some (v_name v @ drop m b), v_guid v))"

definition list_next :: "sv_var list \<Rightarrow> nat \<Rightarrow> byte list option \<Rightarrow> byte list \<Rightarrow> EFI_STATUS \<times> nat \<times> byte list option \<times> byte list" where
  "list_next vs n name guid = (case name of
     None \<Rightarrow> (EFI_INVALID_PARAMETER, n, None, guid)
   | Some b \<Rightarrow> (case StrSize b of
         None \<Rightarrow> (EFI_INVALID_PARAMETER, n, Some b, guid)
       | Some k \<Rightarrow>
           if k = 2 then list_emit n b guid vs
           else (case dropWhile (\<lambda>v. var_key v \<noteq> (take k b, guid)) vs of
               [] \<Rightarrow> (EFI_INVALID_PARAMETER, n, Some b, guid)
             | _ # r \<Rightarrow> list_emit n b guid r)))"

definition list_get :: "sv_var list \<Rightarrow> byte list option \<Rightarrow> byte list \<Rightarrow> nat \<Rightarrow> byte list option \<Rightarrow> EFI_STATUS \<times> nat \<times> nat \<times> byte list option" where
  "list_get vs name guid n data =
     (case Option.bind name (\<lambda>b. Option.bind (StrSize b) (\<lambda>k. var_map vs (take k b, guid))) of
        None \<Rightarrow> (EFI_NOT_FOUND, 0, n, data)
      | Some v \<Rightarrow> let m = length (v_data v)
          in if n < m then (EFI_BUFFER_TOO_SMALL, 0, m, data)
             else (EFI_SUCCESS, v_attr v, m, map_option (\<lambda>d. v_data v @ drop m d) data))"

definition list_set :: "sv_var list \<Rightarrow> byte list \<Rightarrow> byte list \<Rightarrow> nat \<Rightarrow> byte list \<Rightarrow> EFI_STATUS \<times> sv_var list" where
  "list_set vs name guid attr data =
     (EFI_SUCCESS, filter (\<lambda>v. var_key v \<noteq> (name, guid)) vs @ [\<lparr>v_name = name, v_guid = guid, v_attr = attr, v_data = data\<rparr>])"

definition list_ok :: "sv_var list \<Rightarrow> bool" where
  "list_ok vs \<longleftrightarrow> distinct (map var_key vs) \<and> (\<forall>v \<in> set vs. var_std v)"

lemma var_map_in: "distinct (map var_key vs) \<Longrightarrow> v \<in> set vs \<Longrightarrow> var_map vs (var_key v) = Some v"
  unfolding var_map_def by (rule map_of_is_SomeI) (auto simp: comp_def)

lemma dropWhile_at:
  "distinct (map f vs) \<Longrightarrow> k < length vs \<Longrightarrow> dropWhile (\<lambda>v. f v \<noteq> f (vs ! k)) vs = drop k vs"
proof (induction vs arbitrary: k)
  case (Cons v vs)
  show ?case
  proof (cases k)
    case (Suc j)
    then have "vs ! j \<in> set vs" using Cons.prems(2) by simp
    then have "f v \<noteq> f (vs ! j)" using Cons.prems(1) by force
    then show ?thesis using Cons Suc by simp
  qed simp
qed simp

lemma StrSize_2: "StrSize b = Some 2 \<longleftrightarrow> (\<exists>rest. b = 0 # 0 # rest)"
proof (cases b rule: StrSize.cases)
  case (1 x y r)
  have "StrSize r \<noteq> Some 0" using StrSize_pos [of r 0] by auto
  then show ?thesis using 1 by auto
qed auto

lemma std_name:
  assumes "var_std v" and "holds_name b (v_name v)"
  shows "StrSize b = Some (length (v_name v))" "take (length (v_name v)) b = v_name v" "length (v_name v) \<noteq> 2"
proof -
  have s: "StrSize (v_name v) = Some (length (v_name v))" using assms(1) by (simp add: var_std_def var_ok_def)
  then show "StrSize b = Some (length (v_name v))" "take (length (v_name v)) b = v_name v"
    using assms(2) StrSize_append by (auto simp: holds_name_def)
  show "length (v_name v) \<noteq> 2"
  proof
    assume l: "length (v_name v) = 2"
    with s obtain rest where "v_name v = 0 # 0 # rest" using StrSize_2 by fastforce
    with l assms(1) show False by (simp add: var_std_def)
  qed
qed

definition list_services :: "sv_var list \<Rightarrow> var_services" where
  "list_services vs = \<lparr>GetNextVariableName = list_next vs, GetVariable = list_get vs\<rparr>"

lemma list_next_at:
  assumes ok: "list_ok vs" and k: "k \<le> length vs"
    and at: "if k = 0 then holds_name b [0, 0] else holds_name b (v_name (vs ! (k - 1))) \<and> guid = v_guid (vs ! (k - 1))"
  shows "list_next vs n (Some b) guid = list_emit n b guid (drop k vs)"
proof (cases k)
  case 0
  then have "StrSize b = Some 2" using at by (auto simp: StrSize_2 holds_name_def)
  then show ?thesis using 0 by (simp add: list_next_def)
next
  case (Suc j)
  let ?v = "vs ! j"
  have j: "j < length vs" using k Suc by simp
  then have s: "var_std ?v" using ok by (simp add: list_ok_def)
  note nm = std_name [OF s, of b]
  have h: "holds_name b (v_name ?v)" "guid = v_guid ?v" using at Suc by simp_all
  have "dropWhile (\<lambda>v. var_key v \<noteq> var_key ?v) vs = ?v # drop (Suc j) vs"
    using dropWhile_at [of var_key vs j] ok j Cons_nth_drop_Suc [OF j] by (simp add: list_ok_def)
  then show ?thesis using nm [OF h(1)] h(2) Suc by (simp add: list_next_def var_key_def)
qed

lemma list_get_at:
  assumes "list_ok vs" "v \<in> set vs" "holds_name b (v_name v)"
  shows "list_get vs (Some b) (v_guid v) n data =
      (if n < length (v_data v) then (EFI_BUFFER_TOO_SMALL, 0, length (v_data v), data)
       else (EFI_SUCCESS, v_attr v, length (v_data v), map_option (\<lambda>d. v_data v @ drop (length (v_data v)) d) data))"
proof -
  have "var_std v" using assms(1,2) by (simp add: list_ok_def)
  from std_name [OF this assms(3)] var_map_in [of vs v] assms(1,2) show ?thesis
    by (simp add: list_get_def list_ok_def var_key_def Let_def)
qed

lemma list_emit_at:
  "k < length vs \<Longrightarrow> list_emit n b guid (drop k vs) = (let name = v_name (vs ! k) in if n < length name then (EFI_BUFFER_TOO_SMALL, length name, Some b, guid)
      else (EFI_SUCCESS, length name, Some (name @ drop (length name) b), v_guid (vs ! k)))"
  using Cons_nth_drop_Suc [of k vs, symmetric] by (simp add: list_emit_def Let_def)

lemma list_serves:
  assumes ok: "list_ok vs"
  shows "serves (list_services vs) vs"
  unfolding serves_def list_services_def var_services.simps
proof (intro conjI allI ballI impI)
  show "v_data v \<noteq> []" if "v \<in> set vs" for v using ok that by (simp add: list_ok_def var_std_def)
next
  fix k b guid
  assume a: "k \<le> length vs \<and> (if k = 0 then holds_name b [0, 0] else holds_name b (v_name (vs ! (k - 1))) \<and> guid = v_guid (vs ! (k - 1)))"
  note e = list_next_at [OF ok a [THEN conjunct1] a [THEN conjunct2]]
  show "if k = length vs then fst (list_next vs (length b) (Some b) guid) = EFI_NOT_FOUND
      else let name = v_name (vs ! k) in list_next vs (length b) (Some b) guid =
        (if length b < length name then (EFI_BUFFER_TOO_SMALL, length name, Some b, guid)
         else (EFI_SUCCESS, length name, Some (name @ drop (length name) b), v_guid (vs ! k)))"
  proof (cases "k = length vs")
    case True
    then show ?thesis unfolding e by (simp add: list_emit_def)
  next
    case False
    then have "k < length vs" using a by simp
    then show ?thesis using False unfolding e by (simp add: list_emit_at Let_def)
  qed
next
  fix v b data assume "v \<in> set vs \<and> holds_name b (v_name v)"
  then show "let n = (case data of None \<Rightarrow> 0 | Some d \<Rightarrow> length d)
      in if n < length (v_data v) then \<exists>attr. list_get vs (Some b) (v_guid v) n data = (EFI_BUFFER_TOO_SMALL, attr, length (v_data v), data)
         else list_get vs (Some b) (v_guid v) n data =
           (EFI_SUCCESS, v_attr v, length (v_data v), map_option (\<lambda>d. v_data v @ drop (length (v_data v)) d) data)"
    using list_get_at [OF ok, of v b] by (simp add: Let_def)
qed

lemma var_map_set:
  assumes "var_key v = K"
  shows "var_map (filter (\<lambda>w. var_key w \<noteq> K) vs @ [v]) = (var_map vs)(K \<mapsto> v)"
  using assms by (induction vs) (auto simp: var_map_def fun_upd_twist)

section \<open>A file of bytes\<close>

definition bytes_open :: "byte list option \<times> nat \<Rightarrow> nat \<Rightarrow> nat \<Rightarrow> (EFI_STATUS + nat) \<times> byte list option \<times> nat" where
  "bytes_open f Root mode = (case fst f of
     None \<Rightarrow> if mode AND EFI_FILE_MODE_CREATE = 0 then (Inl EFI_NOT_FOUND, f) else (Inr 1, Some [], 0)
   | Some bs \<Rightarrow> (Inr 1, Some bs, 0))"

definition list_env :: "(sv_var list, byte list option \<times> nat) nv_env" where
  "list_env = \<lparr>nv_alloc = ample_pool,
     nv_set = \<lparr>SetVariable = list_set, AuthMask = 0\<rparr>,
     nv_get = list_services, nv_guid = [],
     HandleProtocolFs = (\<lambda>f h. Inr 0), OpenVolume = (\<lambda>f Fs. (Inr 0, f)), OpenFile = bytes_open,
     FileHandleGetInfo = (\<lambda>f fh. map_option (\<lambda>bs. \<lparr>fi_Attribute = 0, fi_FileSize = length bs\<rparr>) (fst f)),
     FileHandleSetInfo = (\<lambda>f fh info. (EFI_SUCCESS, map_option (take (fi_FileSize info)) (fst f), snd f)),
     FileHandleRead = (\<lambda>f fh n. case fst f of None \<Rightarrow> (EFI_DEVICE_ERROR, [], f)
       | Some bs \<Rightarrow> (EFI_SUCCESS, take n (drop (snd f) bs), Some bs, min (length bs) (snd f + n))),
     FileHandleWrite = (\<lambda>f fh w. case fst f of None \<Rightarrow> (EFI_DEVICE_ERROR, f)
       | Some bs \<Rightarrow> (EFI_SUCCESS, Some (take (snd f) bs @ w @ drop (snd f + length w) bs), snd f + length w)),
     FileHandleClose = (\<lambda>f fh. f)\<rparr>"

lemma list_rt: "rt_law list_env list_ok (\<lambda>vs. vs)"
  unfolding rt_law_def
proof (intro allI impI conjI)
  fix vs assume ok: "list_ok vs"
  show "serves (nv_get list_env vs) vs" using list_serves [OF ok] by (simp add: list_env_def)
  show "distinct (map var_key vs)" "\<forall>v \<in> set vs. var_std v" using ok by (simp_all add: list_ok_def)
  show "\<exists>r'. SetVariable (nv_set list_env) vs (v_name v) (v_guid v) (v_attr v) (v_data v) = (EFI_SUCCESS, r') \<and> list_ok r' \<and>
      var_map r' = (var_map vs)(var_key v \<mapsto> v)" if "var_std v" for v
  proof -
    let ?r = "filter (\<lambda>w. var_key w \<noteq> var_key v) vs @ [v]"
    have "SetVariable (nv_set list_env) vs (v_name v) (v_guid v) (v_attr v) (v_data v) = (EFI_SUCCESS, ?r)"
      by (simp add: list_env_def list_set_def var_key_def)
    moreover have "list_ok ?r" using ok that by (auto simp: list_ok_def distinct_map_filter)
    ultimately show ?thesis using var_map_set [OF refl, of v vs] by blast
  qed
  show "fst (GetVariable (nv_get list_env vs) (Some (v_name v)) (v_guid v) n data) \<noteq> EFI_SUCCESS"
    if "var_std v \<and> var_map vs (var_key v) = None" for v n data
    using that std_name [of v "v_name v"] by (simp add: list_env_def list_services_def list_get_def var_key_def holds_name_def)
qed

lemma list_fs: "fs_law list_env h fst (\<lambda>f fh. Some (snd f))"
  by (auto simp: fs_law_def fs_opens_def fs_opened_def list_env_def bytes_open_def)

lemma list_pool: "pool_total (nv_alloc list_env)"
  by (simp add: list_env_def pool_total_def ample_pool_def)

section \<open>Properties\<close>

text \<open>A handle whose file system lacks the file.\<close>

lemma read_missing:
  assumes fs: "fs_law E h content pos" and c: "content (files s) = None"
  shows "\<exists>f'. ReadNvVarsFile E h s = Some (EFI_NOT_FOUND, s\<lparr>files := f'\<rparr>) \<and> content f' = None"
proof -
  have "fs_opens E h content pos" using fs by (simp add: fs_law_def)
  from this [unfolded fs_opens_def, THEN spec, of "files s"] c open_modes(1)
  obtain Fs Root f1 f2 where "HandleProtocolFs E (files s) h = Inr Fs" "OpenVolume E (files s) Fs = (Inr Root, f1)"
    "OpenFile E f1 Root EFI_FILE_MODE_READ = (Inl EFI_NOT_FOUND, f2)" "content f2 = None" by (metis (no_types, lifting))
  then show ?thesis by (intro exI [of _ f2]) (simp add: ReadNvVarsFile_def GetNvVarsFile_def)
qed

lemma save_nothing:
  assumes rl: "rt_law E vok vv" and pt: "pool_total (nv_alloc E)" and ok: "vok (rt s)" and no: "nv_vars (vv (rt s)) = []"
  shows "SaveNvVarsToFs E h s = Some (EFI_INVALID_PARAMETER, s)"
proof -
  have "run_system (IterateVariablesCallbackAddAllNvVariables (nv_alloc E)) new_sv (vv (rt s)) = Some (EFI_SUCCESS, new_sv)"
    by (rule run_add_nv) (simp add: no)
  then have it: "SerializeVariablesIterateSystemVariables (nv_alloc E) (nv_get E (rt s)) (nv_guid E)
      (IterateVariablesCallbackAddAllNvVariables (nv_alloc E)) new_sv = Some (EFI_SUCCESS, new_sv)"
    using iterate_system [OF rt_lawD(1) [OF rl ok] pt callback_reads_name [OF nv_vars_ok(2) [OF rl ok]]] by simp
  have pk: "packed_variables (nv_alloc E) new_sv = Some (EFI_INVALID_PARAMETER, 0, None)"
    by (simp add: packed_variables_def SerializeVariablesToBuffer_def SV_FROM_HANDLE_def new_sv_def)
  obtain u where fr: "SerializeVariablesFreeInstance new_sv = Some u"
    by (simp add: SerializeVariablesFreeInstance_def SV_FROM_HANDLE_def new_sv_def)
  show ?thesis by (simp add: SaveNvVarsToFs_def new_instance pool_total(3) [OF pt] it pk fr)
qed


text \<open>
  The witness saves one non-volatile variable of two, and loads it into an empty store after a reboot.
\<close>

definition demo_kept :: sv_var where
  "demo_kept = \<lparr>v_name = [65, 0, 0, 0], v_guid = replicate 16 7, v_attr = 3, v_data = [1, 2]\<rparr>"

definition demo_lost :: sv_var where
  "demo_lost = \<lparr>v_name = [66, 0, 0, 0], v_guid = replicate 16 7, v_attr = 2, v_data = [3]\<rparr>"

definition demo_nv :: "sv_var list \<Rightarrow> byte list option \<Rightarrow> (sv_var list, byte list option \<times> nat) nv_state" where
  "demo_nv vs c = \<lparr>rt = vs, files = (c, 0), mNvVarsFileLibFsHandle = None\<rparr>"

lemma demo_nv_vars: "nv_vars [demo_kept, demo_lost] = [demo_kept]" "list_ok [demo_kept, demo_lost]" "list_ok []"
  by (simp_all add: nv_vars_def demo_kept_def demo_lost_def EFI_VARIABLE_NON_VOLATILE_def list_ok_def var_key_def var_std_def var_ok_def)


text \<open>
  C38: a system without any non-volatile variable cannot be connected to a file system that lacks the file. The
  size of the packed variables is asked for with a size of zero, which is not too small for no
  variables, so that the missing buffer is reported as an invalid parameter: no file is created, the file
  system is not remembered, and a later update reports that nothing was started.
\<close>

theorem nv_connect_empty:
  assumes rl: "rt_law E vok vv" and fs: "fs_law E h content pos" and pt: "pool_total (nv_alloc E)" and ok: "vok (rt s)"
    and no: "nv_vars (vv (rt s)) = []" and c: "content (files s) = None" and m: "mNvVarsFileLibFsHandle s = None"
  shows "\<exists>s'. ConnectNvVarsToFileSystem E h s = Some (EFI_INVALID_PARAMETER, s') \<and> content (files s') = None \<and> rt s' = rt s \<and>
    UpdateNvVarsOnFileSystem E s' = Some (EFI_NOT_STARTED, s')"
proof -
  obtain f' where r: "ReadNvVarsFile E h s = Some (EFI_NOT_FOUND, s\<lparr>files := f'\<rparr>)" "content f' = None"
    using read_missing [where s = s, OF fs c] by blast
  obtain st s1 where l: "LoadNvVarsFromFs E h s = Some (st, s1)" "s1 = s \<or> s1 = s\<lparr>files := f'\<rparr>"
    using r(1) that by (cases "fst (GetVariable (nv_get E (rt s)) (Some NvVars_name) gEfiSimpleFileSystemProtocolGuid 1 (Some [1])) = EFI_SUCCESS")
      (simp_all add: LoadNvVarsFromFs_def)
  have s1: "rt s1 = rt s" "content (files s1) = None" "mNvVarsFileLibFsHandle s1 = None" using l(2) c r(2) m by auto
  have "SaveNvVarsToFs E h s1 = Some (EFI_INVALID_PARAMETER, s1)" using save_nothing [where s = s1, OF rl pt] ok no s1(1) by simp
  then have "ConnectNvVarsToFileSystem E h s = Some (EFI_INVALID_PARAMETER, s1)" by (simp add: ConnectNvVarsToFileSystem_def l(1))
  with s1 show ?thesis by (simp add: UpdateNvVarsOnFileSystem_def)
qed

theorem nv_connect_empty_witness:
  "\<exists>s'. ConnectNvVarsToFileSystem list_env 5 (demo_nv [] None) = Some (EFI_INVALID_PARAMETER, s') \<and> fst (files s') = None"
  using nv_connect_empty [OF list_rt list_fs list_pool, of "demo_nv [] None" 5] demo_nv_vars(3)
  by (auto simp: demo_nv_def nv_vars_def)

end
