(* ===== verification/VirtioFsPath.thy ===== *)
theory VirtioFsPath
  imports EfiTypes
begin

text \<open>
  Path names of the virtio file system: the functions of \<^verbatim>\<open>VirtioFsDxe/Helpers.c\<close> that turn a
  UEFI path (backslashes, relative or absolute) into a canonical POSIX path. A state machine
  reads the naive concatenation and writes the result into a buffer with a position that it
  moves back for dot and dot-dot components. Strings are given without their
  terminator. A result \<open>None\<close> is an access outside a buffer or a failed assertion.
\<close>

section \<open>The parser\<close>

datatype PARSER_STATE = ParserInit | ParserEnd | ParserSlash | ParserDot | ParserDotDot | ParserNormal

abbreviation slash :: byte where "slash \<equiv> 0x2F"
abbreviation dot :: byte where "dot \<equiv> 0x2E"

definition VIRTIO_FS_MAX_PATHNAME_LENGTH :: nat where "VIRTIO_FS_MAX_PATHNAME_LENGTH = 65535"

definition ParserStripSlash :: "byte list \<Rightarrow> nat \<Rightarrow> nat option" where
  "ParserStripSlash Buffer Position =
     (if 1 \<le> Position \<and> load8 Buffer (Position - 1) = Some slash
      then Some (if Position = 1 then Position else Position - 1) else None)"

definition ParserCopy :: "byte list \<Rightarrow> nat \<Rightarrow> nat \<Rightarrow> byte \<Rightarrow> (byte list \<times> nat) option" where
  "ParserCopy Buffer Position Size Char8 =
     (if Position < Size then map_option (\<lambda>b. (b, Position + 1)) (store_bytes Buffer Position [Char8]) else None)"

definition ParserRewindDot :: "byte list \<Rightarrow> nat \<Rightarrow> nat option" where
  "ParserRewindDot Buffer Position =
     (if 2 \<le> Position \<and> load8 Buffer (Position - 1) = Some dot \<and> load8 Buffer (Position - 2) = Some slash
      then Some (Position - 1) else None)"

text \<open>The scan to the next slash to the left of a position.\<close>

fun rewind_scan :: "byte list \<Rightarrow> nat \<Rightarrow> nat option" where
  "rewind_scan Buffer 0 = None"
| "rewind_scan Buffer (Suc p) = Option.bind (load8 Buffer p) (\<lambda>c. if c = slash then Some p else rewind_scan Buffer p)"

definition ParserRewindDotDot :: "byte list \<Rightarrow> nat \<Rightarrow> bool \<Rightarrow> (nat \<times> bool) option" where
  "ParserRewindDotDot Buffer Position RootEscape =
     (if 3 \<le> Position \<and> load8 Buffer (Position - 1) = Some dot \<and> load8 Buffer (Position - 2) = Some dot \<and>
         load8 Buffer (Position - 3) = Some slash
      then let p = Position - 2
      in if p = 1 then Some (p, True)
         else map_option (\<lambda>q. (q + 1, RootEscape)) (rewind_scan Buffer (p - 1))
      else None)"

record parser =
  ps_State :: PARSER_STATE
  ps_Buffer :: "byte list"
  ps_Position :: nat
  ps_RootEscape :: bool

definition parser_copy :: "nat \<Rightarrow> byte \<Rightarrow> PARSER_STATE \<Rightarrow> parser \<Rightarrow> parser option" where
  "parser_copy Size c st s =
     map_option (\<lambda>(b, p). s\<lparr>ps_Buffer := b, ps_Position := p, ps_State := st\<rparr>) (ParserCopy (ps_Buffer s) (ps_Position s) Size c)"

definition parser_strip :: "parser \<Rightarrow> parser option" where
  "parser_strip s = map_option (\<lambda>p. s\<lparr>ps_Position := p\<rparr>) (ParserStripSlash (ps_Buffer s) (ps_Position s))"

definition parser_rewind_dot :: "parser \<Rightarrow> parser option" where
  "parser_rewind_dot s = map_option (\<lambda>p. s\<lparr>ps_Position := p\<rparr>) (ParserRewindDot (ps_Buffer s) (ps_Position s))"

definition parser_rewind_dotdot :: "parser \<Rightarrow> parser option" where
  "parser_rewind_dotdot s =
     map_option (\<lambda>(p, e). s\<lparr>ps_Position := p, ps_RootEscape := e\<rparr>)
       (ParserRewindDotDot (ps_Buffer s) (ps_Position s) (ps_RootEscape s))"

text \<open>One iteration of the loop, with the character read.\<close>

definition parser_step :: "nat \<Rightarrow> byte \<Rightarrow> parser \<Rightarrow> parser option" where
  "parser_step Size Chr8 s =
     (case ps_State s of
        ParserInit \<Rightarrow> if Chr8 = slash then parser_copy Size Chr8 ParserSlash s else None
      | ParserSlash \<Rightarrow>
          if Chr8 = 0 then Option.bind (parser_strip s) (parser_copy Size Chr8 ParserEnd)
          else if Chr8 = slash then Some s
          else if Chr8 = dot then parser_copy Size Chr8 ParserDot s
          else parser_copy Size Chr8 ParserNormal s
      | ParserDot \<Rightarrow>
          if Chr8 = 0 then Option.bind (parser_rewind_dot s) (\<lambda>s1. Option.bind (parser_strip s1) (parser_copy Size Chr8 ParserEnd))
          else if Chr8 = slash then map_option (\<lambda>s1. s1\<lparr>ps_State := ParserSlash\<rparr>) (parser_rewind_dot s)
          else if Chr8 = dot then parser_copy Size Chr8 ParserDotDot s
          else parser_copy Size Chr8 ParserNormal s
      | ParserDotDot \<Rightarrow>
          if Chr8 = 0 then Option.bind (parser_rewind_dotdot s) (\<lambda>s1. Option.bind (parser_strip s1) (parser_copy Size Chr8 ParserEnd))
          else if Chr8 = slash then map_option (\<lambda>s1. s1\<lparr>ps_State := ParserSlash\<rparr>) (parser_rewind_dotdot s)
          else parser_copy Size Chr8 ParserNormal s
      | ParserNormal \<Rightarrow>
          if Chr8 = 0 then parser_copy Size Chr8 ParserEnd s
          else if Chr8 = slash then parser_copy Size Chr8 ParserSlash s
          else parser_copy Size Chr8 ParserNormal s
      | ParserEnd \<Rightarrow> None)"

fun parser_loop :: "nat \<Rightarrow> byte list \<Rightarrow> parser \<Rightarrow> parser option" where
  "parser_loop Size [] s = None"
| "parser_loop Size (c # cs) s =
     Option.bind (parser_step Size c s) (\<lambda>s1. if ps_State s1 = ParserEnd then Some s1 else parser_loop Size cs s1)"

section \<open>Appending a path\<close>

text \<open>The transliteration; \<open>None\<close> for a character that is not supported.\<close>

fun transliterate :: "u16 list \<Rightarrow> byte list option" where
  "transliterate [] = Some []"
| "transliterate (w # ws) =
     (if w < 0x20 \<or> 0x7E < w \<or> w = 0x2F then None
      else map_option ((#) (ucast (if w = 0x5C then 0x2F else w))) (transliterate ws))"

text \<open>
  The allocator gives the contents of a new block, by the number of the call and the size
  asked for. The result is the status, the path and the
  escape flag; the last two are outputs of a successful call.
\<close>

definition VirtioFsAppendPath ::
  "(nat \<Rightarrow> nat \<Rightarrow> byte list option) \<Rightarrow> byte list \<Rightarrow> u16 list \<Rightarrow> (EFI_STATUS \<times> (byte list \<times> bool) option) option" where
  "VirtioFsAppendPath alloc LhsPath8 RhsPath16 =
     (let RhsLen = length RhsPath16
      in if RhsLen = 0 then Some (EFI_INVALID_PARAMETER, None)
         else if VIRTIO_FS_MAX_PATHNAME_LENGTH < RhsLen then Some (EFI_INVALID_PARAMETER, None)
         else if alloc 0 (RhsLen + 1) = None then Some (EFI_OUT_OF_RESOURCES, None)
         else (case transliterate RhsPath16 of
             None \<Rightarrow> Some (EFI_UNSUPPORTED, None)
           | Some RhsPath8 \<Rightarrow>
               let LhsLen = length LhsPath8;
                   absolute = (hd RhsPath8 = slash);
                   SizeToSanitize = (if absolute then RhsLen + 1 else LhsLen + 1 + RhsLen + 1);
                   BufferToSanitize = (if absolute then RhsPath8 @ [0] else LhsPath8 @ [slash] @ RhsPath8 @ [0])
               in if \<not> absolute \<and> alloc 1 SizeToSanitize = None then Some (EFI_OUT_OF_RESOURCES, None)
                  else (case alloc 2 SizeToSanitize of
                      None \<Rightarrow> Some (EFI_OUT_OF_RESOURCES, None)
                    | Some SanitizedBuffer \<Rightarrow>
                        Option.bind (parser_loop SizeToSanitize BufferToSanitize
                            \<lparr>ps_State = ParserInit, ps_Buffer = SanitizedBuffer, ps_Position = 0, ps_RootEscape = False\<rparr>) (\<lambda>s.
                        if ps_Position s < 2 then None
                        else if VIRTIO_FS_MAX_PATHNAME_LENGTH < ps_Position s - 1 then Some (EFI_OUT_OF_RESOURCES, None)
                        else Some (EFI_SUCCESS, Some (take (ps_Position s - 1) (ps_Buffer s), ps_RootEscape s))))))"

section \<open>Base names and rename destinations\<close>

text \<open>The index behind the last slash; \<open>None\<close> without one.\<close>

fun last_component :: "byte list \<Rightarrow> nat \<Rightarrow> nat option \<Rightarrow> nat option" where
  "last_component [] Idx last_slash = map_option Suc last_slash"
| "last_component (c # cs) Idx last_slash = last_component cs (Suc Idx) (if c = slash then Some Idx else last_slash)"

text \<open>Status, size needed, and the characters written with their terminator.\<close>

definition VirtioFsGetBasename :: "byte list \<Rightarrow> nat \<Rightarrow> (EFI_STATUS \<times> nat \<times> u16 list) option" where
  "VirtioFsGetBasename Path AllocSize =
     Option.bind (last_component Path 0 None) (\<lambda>LastComponent.
     let PathSize = length Path + 1;
         BasenameSize = (PathSize - LastComponent) * 2
     in if AllocSize < BasenameSize then Some (EFI_BUFFER_TOO_SMALL, BasenameSize, [])
        else Some (EFI_SUCCESS, BasenameSize, map ucast (drop LastComponent (Path @ [0]))))"

definition VirtioFsComposeRenameDestination ::
  "(nat \<Rightarrow> nat \<Rightarrow> byte list option) \<Rightarrow> byte list \<Rightarrow> u16 list \<Rightarrow> (EFI_STATUS \<times> (byte list \<times> bool) option) option" where
  "VirtioFsComposeRenameDestination alloc LhsPath8 RhsPath16 =
     (let RhsLen = length RhsPath16
      in if RhsLen = 0 then Some (EFI_INVALID_PARAMETER, None)
         else if VIRTIO_FS_MAX_PATHNAME_LENGTH < RhsLen then Some (EFI_INVALID_PARAMETER, None)
         else Option.bind (VirtioFsGetBasename LhsPath8 0) (\<lambda>(Status, LhsBasename16Size, _).
           if Status \<noteq> EFI_BUFFER_TOO_SMALL \<or> LhsBasename16Size < 2 \<or> LhsBasename16Size mod 2 \<noteq> 0 then None
           else let LhsBasenameLen = LhsBasename16Size div 2 - 1
           in if LhsBasenameLen = 0 then Some (EFI_INVALID_PARAMETER, None)
              else let into = (last RhsPath16 = 0x5C);
                       DestSuffix16Size = (if into then RhsLen * 2 + LhsBasename16Size else (RhsLen + 1) * 2)
              in if alloc 0 DestSuffix16Size = None then Some (EFI_OUT_OF_RESOURCES, None)
                 else Option.bind (if into
                     then map_option (\<lambda>(_, _, b). RhsPath16 @ butlast b) (VirtioFsGetBasename LhsPath8 LhsBasename16Size)
                     else Some RhsPath16) (\<lambda>DestSuffix16.
                   if hd DestSuffix16 = 0x5C then
                     if alloc 1 2 = None then Some (EFI_OUT_OF_RESOURCES, None)
                     else VirtioFsAppendPath (\<lambda>i. alloc (i + 2)) [slash] DestSuffix16
                   else let LhsLen = length LhsPath8; DestPrefixLen = LhsLen - LhsBasenameLen
                   in if LhsLen \<le> LhsBasenameLen \<or> load8 LhsPath8 (DestPrefixLen - 1) \<noteq> Some slash then None
                      else let DestPrefixLen' = (if 1 < DestPrefixLen then DestPrefixLen - 1 else DestPrefixLen)
                      in if alloc 1 (DestPrefixLen' + 1) = None then Some (EFI_OUT_OF_RESOURCES, None)
                         else VirtioFsAppendPath (\<lambda>i. alloc (i + 2)) (take DestPrefixLen' LhsPath8) DestSuffix16)))"

end
