(* ===== verification/VirtioFsRequest.thy ===== *)
theory VirtioFsRequest
  imports VirtioFsPath
begin

text \<open>
  Requests of the virtio file system: scatter-gather lists, their submission to the device, and the headers of
  requests and responses (\<^verbatim>\<open>VirtioFsDxe/Helpers.c\<close>). Mapping buffers for the device and the
  queue are a parameter. A result \<open>None\<close> is an access outside a buffer or a failed assertion.
\<close>

section \<open>State\<close>

text \<open>
  A flush gets the buffers that the device reads and the sizes of those it may write; it returns the number of bytes the
  device reports as written and the contents of the writable buffers afterwards, one after the other.
\<close>

record 'd transport =
  MapSharedBuffer :: "'d \<Rightarrow> bool \<Rightarrow> nat \<Rightarrow> EFI_STATUS \<times> 'd"
  VirtioFlush :: "'d \<Rightarrow> byte list list \<Rightarrow> nat list \<Rightarrow> EFI_STATUS \<times> nat \<times> byte list \<times> 'd"
  UnmapSharedBuffer :: "'d \<Rightarrow> EFI_STATUS \<times> 'd"

record EFI_TIME =
  Year :: nat
  Month :: nat
  Day :: nat
  Hour :: nat
  Minute :: nat
  Second :: nat
  Pad1 :: nat
  Nanosecond :: nat
  TimeZone :: int
  Daylight :: nat
  Pad2 :: nat

record FILE_INFO =
  fi_Size :: nat
  fi_FileSize :: nat
  fi_PhysicalSize :: nat
  fi_CreateTime :: EFI_TIME
  fi_LastAccessTime :: EFI_TIME
  fi_ModificationTime :: EFI_TIME
  fi_Attribute :: nat
  fi_FileName :: "u16 list"

record VIRTIO_FS_FILE =
  IsDirectory :: bool
  IsOpenForWriting :: bool
  CanonicalPathname :: "byte list"
  FilePosition :: nat
  NodeId :: nat
  FuseHandle :: nat
  FileInfoArray :: "FILE_INFO list option"
  SingleFileInfoSize :: nat
  NumFileInfo :: nat
  NextFileInfo :: nat

text \<open>The open files are objects at addresses.\<close>

record 'd VIRTIO_FS =
  Dev :: 'd
  QueueSize :: nat
  Label :: "u16 list"
  RequestId :: nat
  MaxWrite :: nat
  OpenFiles :: "nat list"
  Objects :: "nat \<Rightarrow> VIRTIO_FS_FILE option"

record io_vector =
  iv_Buffer :: "byte list option"
  iv_Size :: nat
  iv_Mapped :: bool
  iv_Transferred :: nat

text \<open>A list without an array of vectors is the null pointer; the number of vectors is the length of the array.\<close>

record sg_list =
  IoVec :: "io_vector list option"
  TotalSize :: nat

abbreviation max_u32 :: nat where "max_u32 \<equiv> 2 ^ 32 - 1"
abbreviation max_u64 :: nat where "max_u64 \<equiv> 2 ^ 64 - 1"

section \<open>Validation\<close>

text \<open>On an error nothing more is used of the lists, so only the status is returned.\<close>

fun validate_vectors :: "nat \<Rightarrow> io_vector list \<Rightarrow> EFI_STATUS + (io_vector list \<times> nat)" where
  "validate_vectors n [] = Inr ([], n)"
| "validate_vectors n (v # vs) =
     (if iv_Buffer v = None \<or> iv_Size v = 0 then Inl EFI_INVALID_PARAMETER
      else if max_u32 - n < iv_Size v then Inl EFI_UNSUPPORTED
      else (case validate_vectors (n + iv_Size v) vs of
          Inl st \<Rightarrow> Inl st
        | Inr (vs', t) \<Rightarrow> Inr (v\<lparr>iv_Mapped := False, iv_Transferred := 0\<rparr> # vs', t)))"

definition validate_list :: "nat \<Rightarrow> nat \<Rightarrow> sg_list \<Rightarrow> EFI_STATUS + (sg_list \<times> nat)" where
  "validate_list queue needed l =
     (case IoVec l of
        None \<Rightarrow> Inl EFI_INVALID_PARAMETER
      | Some vs \<Rightarrow>
          if vs = [] then Inl EFI_INVALID_PARAMETER
          else if 2 ^ 16 - 1 - needed < length vs \<or> queue < needed + length vs then Inl EFI_UNSUPPORTED
          else (case validate_vectors 0 vs of
              Inl st \<Rightarrow> Inl st
            | Inr (vs', t) \<Rightarrow> Inr (\<lparr>IoVec = Some vs', TotalSize = t\<rparr>, needed + length vs)))"

definition VirtioFsSgListsValidate ::
  "nat \<Rightarrow> sg_list option \<Rightarrow> sg_list option \<Rightarrow> EFI_STATUS + (sg_list \<times> sg_list option)" where
  "VirtioFsSgListsValidate queue RequestSgList ResponseSgList =
     (case RequestSgList of
        None \<Rightarrow> Inl EFI_INVALID_PARAMETER
      | Some req \<Rightarrow> (case validate_list queue 0 req of
            Inl st \<Rightarrow> Inl st
          | Inr (req', n) \<Rightarrow> (case ResponseSgList of
                None \<Rightarrow> Inr (req', None)
              | Some resp \<Rightarrow> (case validate_list queue n resp of
                    Inl st \<Rightarrow> Inl st
                  | Inr (resp', _) \<Rightarrow> Inr (req', Some resp')))))"

section \<open>Submission\<close>

text \<open>Mapping stops at the first failure.\<close>

fun map_vectors :: "'d transport \<Rightarrow> bool \<Rightarrow> io_vector list \<Rightarrow> 'd \<Rightarrow> EFI_STATUS \<times> io_vector list \<times> 'd" where
  "map_vectors tr wr [] d = (EFI_SUCCESS, [], d)"
| "map_vectors tr wr (v # vs) d =
     (let (Status, d1) = MapSharedBuffer tr d wr (iv_Size v)
      in if Status \<noteq> EFI_SUCCESS then (Status, v # vs, d1)
         else let (Status', vs', d2) = map_vectors tr wr vs d1
           in (Status', v\<lparr>iv_Mapped := True\<rparr> # vs', d2))"

text \<open>What the device wrote, by vector; the rest of the count is returned.\<close>

fun fill_vectors :: "nat \<Rightarrow> byte list \<Rightarrow> io_vector list \<Rightarrow> io_vector list \<times> nat" where
  "fill_vectors n mem [] = ([], n)"
| "fill_vectors n mem (v # vs) =
     (let t = min n (iv_Size v); (vs', r) = fill_vectors (n - t) (drop (iv_Size v) mem) vs
      in (v\<lparr>iv_Buffer := Some (take (iv_Size v) mem), iv_Transferred := t\<rparr> # vs', r))"

text \<open>Unmapping, over the vectors in reverse order; a failure turns success into a failure.\<close>

fun unmap_vectors :: "'d transport \<Rightarrow> io_vector list \<Rightarrow> EFI_STATUS \<Rightarrow> 'd \<Rightarrow> EFI_STATUS \<times> 'd" where
  "unmap_vectors tr [] Status d = (Status, d)"
| "unmap_vectors tr (v # vs) Status d =
     (if \<not> iv_Mapped v then unmap_vectors tr vs Status d
      else let (UnmapStatus, d1) = UnmapSharedBuffer tr d
        in unmap_vectors tr vs (if Status = EFI_SUCCESS \<and> UnmapStatus \<noteq> EFI_SUCCESS then UnmapStatus else Status) d1)"

definition vectors :: "sg_list option \<Rightarrow> io_vector list" where
  "vectors l = (case l of None \<Rightarrow> [] | Some s \<Rightarrow> (case IoVec s of None \<Rightarrow> [] | Some vs \<Rightarrow> vs))"

definition clear_mapped :: "io_vector list \<Rightarrow> io_vector list" where
  "clear_mapped = map (\<lambda>v. v\<lparr>iv_Mapped := False\<rparr>)"

definition VirtioFsSgListsSubmit ::
  "'d transport \<Rightarrow> sg_list \<Rightarrow> sg_list option \<Rightarrow> 'd \<Rightarrow> (EFI_STATUS \<times> io_vector list \<times> 'd) option" where
  "VirtioFsSgListsSubmit tr RequestSgList ResponseSgList d =
     (let reqs = vectors (Some RequestSgList); resps = vectors ResponseSgList;
          (st1, reqs1, d1) = map_vectors tr False reqs d;
          (st2, resps1, d2) = (if st1 \<noteq> EFI_SUCCESS then (st1, resps, d1) else map_vectors tr True resps d1);
          unmap = (\<lambda>Status rs e. let (Status', e') = unmap_vectors tr (List.rev (reqs1 @ rs)) Status e in (Status', clear_mapped rs, e'))
      in if st2 \<noteq> EFI_SUCCESS then Some (unmap st2 resps1 d2)
         else let (st3, written, mem, d3) = VirtioFlush tr d2 (map (\<lambda>v. case iv_Buffer v of None \<Rightarrow> [] | Some b \<Rightarrow> b) reqs1) (map iv_Size resps1)
           in if st3 \<noteq> EFI_SUCCESS then Some (unmap st3 resps1 d3)
              else if (case ResponseSgList of None \<Rightarrow> 0 | Some l \<Rightarrow> TotalSize l) < written then Some (unmap EFI_DEVICE_ERROR resps1 d3)
              else let (resps2, rest) = fill_vectors written mem resps1
                in if rest \<noteq> 0 then None else Some (unmap EFI_SUCCESS resps2 d3))"

section \<open>Headers\<close>

definition sizeof_FUSE_REQUEST :: nat where "sizeof_FUSE_REQUEST = 40"
definition sizeof_FUSE_RESPONSE :: nat where "sizeof_FUSE_RESPONSE = 16"

definition VirtioFsFuseNewRequest :: "nat \<Rightarrow> nat \<Rightarrow> nat \<Rightarrow> 'd VIRTIO_FS \<Rightarrow> EFI_STATUS \<times> byte list \<times> 'd VIRTIO_FS" where
  "VirtioFsFuseNewRequest RequestSize Opcode node fs =
     (if RequestSize < sizeof_FUSE_REQUEST then (EFI_INVALID_PARAMETER, [], fs)
      else if RequestId fs = max_u64 then (EFI_OUT_OF_RESOURCES, [], fs)
      else (EFI_SUCCESS, le_bytes 4 RequestSize @ le_bytes 4 Opcode @ le_bytes 8 (RequestId fs) @ le_bytes 8 node @
              le_bytes 4 0 @ le_bytes 4 0 @ le_bytes 4 1 @ le_bytes 4 0,
            fs\<lparr>RequestId := RequestId fs + 1\<rparr>))"

text \<open>Status and fill of the last buffer, which has a variable size if the caller says so.\<close>

definition VirtioFsFuseCheckResponse :: "io_vector list \<Rightarrow> nat \<Rightarrow> bool \<Rightarrow> (EFI_STATUS \<times> nat) option" where
  "VirtioFsFuseCheckResponse vs reqid variable_tail =
     (case vs of
        [] \<Rightarrow> None
      | v # rest \<Rightarrow>
          if variable_tail \<and> rest = [] then Some (EFI_INVALID_PARAMETER, 0)
          else let NumFixedSizeVec = (if variable_tail then length vs - 1 else length vs)
          in if iv_Size v \<noteq> sizeof_FUSE_RESPONSE then Some (EFI_INVALID_PARAMETER, 0)
          else if iv_Transferred v \<noteq> iv_Size v then Some (EFI_PROTOCOL_ERROR, 0)
          else Option.bind (iv_Buffer v) (\<lambda>CommonResp.
            Option.bind (le_field CommonResp 0 4) (\<lambda>Len.
            if Len \<noteq> sum_list (map iv_Transferred vs) mod 2 ^ 32 then Some (EFI_PROTOCOL_ERROR, 0)
            else Option.bind (le_field CommonResp 8 8) (\<lambda>Unique.
            if Unique \<noteq> reqid then Some (EFI_PROTOCOL_ERROR, 0)
            else Option.bind (le_field CommonResp 4 4) (\<lambda>Error.
            if Error \<noteq> 0 then Some (EFI_DEVICE_ERROR, 0)
            else if \<exists>w \<in> set (drop 1 (take NumFixedSizeVec vs)). iv_Transferred w \<noteq> iv_Size w then Some (EFI_PROTOCOL_ERROR, 0)
            else Some (EFI_SUCCESS, if variable_tail then iv_Transferred (vs ! NumFixedSizeVec) else 0))))))"

text \<open>The error is a signed number.\<close>

definition Errno_of :: "nat \<Rightarrow> int" where
  "Errno_of n = (if n < 2 ^ 31 then int n else int n - 2 ^ 32)"

definition VirtioFsErrnoToEfiStatus :: "int \<Rightarrow> EFI_STATUS" where
  "VirtioFsErrnoToEfiStatus Errno =
     (if Errno = -1 then EFI_SECURITY_VIOLATION
      else if Errno \<in> {-2, -3, -6, -10, -19, -49, -65, -79, -126} then EFI_NOT_FOUND
      else if Errno \<in> {-4, -11, -16, -26, -35, -39, -42, -61, -85} then EFI_NOT_READY
      else if Errno \<in> {-5, -45, -46, -47, -51, -121, -133} then EFI_DEVICE_ERROR
      else if Errno \<in> {-7, -36, -90} then EFI_BAD_BUFFER_SIZE
      else if Errno \<in> {-8, -15, -18, -20, -21, -25, -27, -29, -38, -59, -60, -83, -88, -91, -92, -93, -94, -95, -96, -97, -99, -118, -120, -124}
        then EFI_UNSUPPORTED
      else if Errno \<in> {-9, -14, -44, -48, -53, -56, -57, -76, -84} then EFI_NO_MAPPING
      else if Errno \<in> {-12, -23, -24, -31, -37, -40, -50, -55, -63, -82, -87, -105, -109, -119, -122} then EFI_OUT_OF_RESOURCES
      else if Errno = -13 then EFI_ACCESS_DENIED
      else if Errno \<in> {-17, -98, -106, -114, -115} then EFI_ALREADY_STARTED
      else if Errno \<in> {-22, -33} then EFI_INVALID_PARAMETER
      else if Errno \<in> {-28, -54} then EFI_VOLUME_FULL
      else if Errno = -30 then EFI_WRITE_PROTECTED
      else if Errno \<in> {-32, -43, -67, -68, -69, -70, -73, -78, -86, -102, -103, -104, -116, -125, -128, -129, -130, -131} then EFI_ABORTED
      else if Errno \<in> {-34, -75} then EFI_BUFFER_TOO_SMALL
      else if Errno \<in> {-52, -108, -111} then EFI_END_OF_FILE
      else if Errno \<in> {-62, -110, -127} then EFI_TIMEOUT
      else if Errno \<in> {-64, -66, -72, -100, -101, -112, -113, -123, -132} then EFI_NO_MEDIA
      else if Errno = -71 then EFI_PROTOCOL_ERROR
      else if Errno \<in> {-74, -77, -80, -81, -117} then EFI_VOLUME_CORRUPTED
      else if Errno \<in> {-89, -107} then EFI_NOT_STARTED
      else EFI_DEVICE_ERROR)"

end
