(* ===== verification/VirtioFsFuse.thy ===== *)
theory VirtioFsFuse
  imports VirtioFsRequest
begin

text \<open>
  The commands of the FUSE protocol that the virtio file system driver sends (\<^verbatim>\<open>VirtioFsDxe/Fuse*.c\<close>).
  Each command is one exchange: lists are validated and submitted, the response is checked and its error
  translated. Of a structure in a response the fields that the driver reads are decoded.
\<close>

type_synonym ('d, 'a) fop = "(EFI_STATUS, 'd VIRTIO_FS, 'a) sop"

section \<open>Errors as values\<close>

text \<open>The outcome of an operation as a value, and operations whose status is not looked at.\<close>

definition stry :: "('d, 'a) fop \<Rightarrow> ('d, EFI_STATUS + 'a) fop" where
  "stry m = (\<lambda>s. case m s of
     (Ok x, s') \<Rightarrow> (Ok (Inr x), s') | (Err e, s') \<Rightarrow> (Ok (Inl e), s') | (Fault, s') \<Rightarrow> (Fault, s') | (Diverge, s') \<Rightarrow> (Diverge, s'))"

fun of_result :: "EFI_STATUS + 'a \<Rightarrow> ('d, 'a) fop" where
  "of_result (Inl st) = sfail st"
| "of_result (Inr x) = sret x"

definition best_effort :: "('d, 'a) fop \<Rightarrow> ('d, unit) fop" where
  "best_effort m = sbind (stry m) (\<lambda>_. sret ())"

definition finally_do :: "('d, 'a) fop \<Rightarrow> ('d, 'b) fop \<Rightarrow> ('d, 'a) fop" where
  "finally_do m clean = sbind (stry m) (\<lambda>r. sthen (best_effort clean) (of_result r))"

section \<open>Exchanges\<close>

definition request_vec :: "byte list \<Rightarrow> io_vector" where
  "request_vec b = \<lparr>iv_Buffer = Some b, iv_Size = length b, iv_Mapped = False, iv_Transferred = 0\<rparr>"

text \<open>What a buffer for the response holds before is not read.\<close>

definition response_vec :: "nat \<Rightarrow> io_vector" where
  "response_vec n = \<lparr>iv_Buffer = Some (replicate n 0), iv_Size = n, iv_Mapped = False, iv_Transferred = 0\<rparr>"

definition set_header :: "byte list \<Rightarrow> sg_list \<Rightarrow> sg_list" where
  "set_header h l = l\<lparr>IoVec := map_option (\<lambda>vs. case vs of [] \<Rightarrow> [] | v # r \<Rightarrow> v\<lparr>iv_Buffer := Some h\<rparr> # r) (IoVec l)\<rparr>"

text \<open>
  The status of the response, its error number, the buffers after the header and the fill of the last. A request without
  response has none.
\<close>

definition fuse_exchange ::
  "'d transport \<Rightarrow> nat \<Rightarrow> nat \<Rightarrow> byte list list \<Rightarrow> nat list option \<Rightarrow> bool \<Rightarrow> ('d, EFI_STATUS \<times> int \<times> byte list list \<times> nat) fop" where
  "fuse_exchange tr Opcode node bodies sizes variable_tail = (\<lambda>fs.
     case VirtioFsSgListsValidate (QueueSize fs)
         (Some \<lparr>IoVec = Some (map request_vec (replicate sizeof_FUSE_REQUEST 0 # bodies)), TotalSize = 0\<rparr>)
         (map_option (\<lambda>ns. \<lparr>IoVec = Some (map response_vec (sizeof_FUSE_RESPONSE # ns)), TotalSize = 0\<rparr>) sizes) of
       Inl st \<Rightarrow> (Err st, fs)
     | Inr (req, resp) \<Rightarrow>
         let (st1, CommonReq, fs1) = VirtioFsFuseNewRequest (TotalSize req) Opcode node fs
         in if st1 \<noteq> EFI_SUCCESS then (Err st1, fs1)
            else (case VirtioFsSgListsSubmit tr (set_header CommonReq req) resp (Dev fs1) of
                None \<Rightarrow> (Fault, fs1)
              | Some (st2, vs, d) \<Rightarrow>
                  let fs2 = fs1\<lparr>Dev := d\<rparr>
                  in if st2 \<noteq> EFI_SUCCESS then (Err st2, fs2)
                     else if resp = None then (Ok (EFI_SUCCESS, 0, [], 0), fs2)
                     else sbind (sload (VirtioFsFuseCheckResponse vs (RequestId fs) variable_tail)) (\<lambda>(st3, n).
                       sbind (sload (Option.bind (iv_Buffer (hd vs)) (\<lambda>b. le_field b 4 4))) (\<lambda>Error.
                       sret (st3, Errno_of Error, map (\<lambda>v. case iv_Buffer v of None \<Rightarrow> [] | Some b \<Rightarrow> b) (tl vs), n))) fs2))"

text \<open>The usual treatment of errors.\<close>

definition fuse_call :: "'d transport \<Rightarrow> nat \<Rightarrow> nat \<Rightarrow> byte list list \<Rightarrow> nat list \<Rightarrow> bool \<Rightarrow> ('d, byte list list \<times> nat) fop" where
  "fuse_call tr Opcode node bodies sizes variable_tail =
     sbind (fuse_exchange tr Opcode node bodies (Some sizes) variable_tail) (\<lambda>(st, Errno, bufs, n).
       if st = EFI_DEVICE_ERROR then sfail (VirtioFsErrnoToEfiStatus Errno)
       else if st \<noteq> EFI_SUCCESS then sfail st else sret (bufs, n))"

section \<open>Structures\<close>

record FUSE_ATTR =
  at_Size :: nat
  at_Blocks :: nat
  at_Atime :: nat
  at_Mtime :: nat
  at_Mode :: nat
  at_Nlink :: nat

record FUSE_STATFS =
  sf_Blocks :: nat
  sf_Bavail :: nat
  sf_Bsize :: nat
  sf_Namelen :: nat
  sf_Frsize :: nat

definition fuse_attr :: "byte list \<Rightarrow> FUSE_ATTR option" where
  "fuse_attr b =
     Option.bind (le_field b 8 8) (\<lambda>sz. Option.bind (le_field b 16 8) (\<lambda>bl. Option.bind (le_field b 24 8) (\<lambda>at.
     Option.bind (le_field b 32 8) (\<lambda>mt. Option.bind (le_field b 60 4) (\<lambda>mode. map_option (\<lambda>nl.
       \<lparr>at_Size = sz, at_Blocks = bl, at_Atime = at, at_Mtime = mt, at_Mode = mode, at_Nlink = nl\<rparr>) (le_field b 64 4))))))"

definition fuse_statfs :: "byte list \<Rightarrow> FUSE_STATFS option" where
  "fuse_statfs b =
     Option.bind (le_field b 0 8) (\<lambda>bl. Option.bind (le_field b 16 8) (\<lambda>av. Option.bind (le_field b 40 4) (\<lambda>bs.
     Option.bind (le_field b 44 4) (\<lambda>nl. map_option (\<lambda>fr.
       \<lparr>sf_Blocks = bl, sf_Bavail = av, sf_Bsize = bs, sf_Namelen = nl, sf_Frsize = fr\<rparr>) (le_field b 48 4)))))"

definition sizeof_NODE :: nat where "sizeof_NODE = 40"
definition sizeof_ATTR :: nat where "sizeof_ATTR = 88"
definition sizeof_STATFS :: nat where "sizeof_STATFS = 80"
definition sizeof_OPEN :: nat where "sizeof_OPEN = 16"
definition sizeof_GETATTR :: nat where "sizeof_GETATTR = 16"
definition sizeof_WRITE :: nat where "sizeof_WRITE = 8"
definition sizeof_INIT :: nat where "sizeof_INIT = 64"

definition VIRTIO_FS_FUSE_ROOT_DIR_NODE_ID :: nat where "VIRTIO_FS_FUSE_ROOT_DIR_NODE_ID = 1"
definition VIRTIO_FS_FUSE_ERRNO_ENOENT :: int where "VIRTIO_FS_FUSE_ERRNO_ENOENT = -2"
definition VIRTIO_FS_FUSE_INIT_REQ_F_DO_READDIRPLUS :: nat where "VIRTIO_FS_FUSE_INIT_REQ_F_DO_READDIRPLUS = 2 ^ 13"

text \<open>A name is sent with its terminator.\<close>

definition cstring :: "byte list \<Rightarrow> byte list" where
  "cstring Name = Name @ [0]"

section \<open>Commands\<close>

definition VirtioFsFuseLookup :: "'d transport \<Rightarrow> nat \<Rightarrow> byte list \<Rightarrow> ('d, nat \<times> FUSE_ATTR) fop" where
  "VirtioFsFuseLookup tr DirNodeId Name =
     sbind (stry (fuse_exchange tr 1 DirNodeId [cstring Name] (Some [sizeof_NODE, sizeof_ATTR]) False)) (\<lambda>r.
     let fail = (\<lambda>st. sfail (if st = EFI_NOT_FOUND then EFI_DEVICE_ERROR else st))
     in case r of
       Inl st \<Rightarrow> fail st
     | Inr (st, Errno, bufs, _) \<Rightarrow>
         if st = EFI_DEVICE_ERROR then (if Errno = VIRTIO_FS_FUSE_ERRNO_ENOENT then sfail EFI_NOT_FOUND else fail (VirtioFsErrnoToEfiStatus Errno))
         else if st \<noteq> EFI_SUCCESS then fail st
         else sbind (sload (le_field (bufs ! 0) 0 8)) (\<lambda>node. sbind (sload (fuse_attr (bufs ! 1))) (\<lambda>attr. sret (node, attr))))"

definition VirtioFsFuseForget :: "'d transport \<Rightarrow> nat \<Rightarrow> ('d, unit) fop" where
  "VirtioFsFuseForget tr node = sbind (fuse_exchange tr 2 node [le_bytes 8 1] None False) (\<lambda>_. sret ())"

definition VirtioFsFuseGetAttr :: "'d transport \<Rightarrow> nat \<Rightarrow> ('d, FUSE_ATTR) fop" where
  "VirtioFsFuseGetAttr tr node =
     sbind (fuse_call tr 3 node [le_bytes 4 0 @ le_bytes 4 0 @ le_bytes 8 0] [sizeof_GETATTR, sizeof_ATTR] False) (\<lambda>(bufs, _).
     sload (fuse_attr (bufs ! 1)))"

definition opt0 :: "nat option \<Rightarrow> nat" where
  "opt0 v = (case v of None \<Rightarrow> 0 | Some n \<Rightarrow> n)"

definition VirtioFsFuseSetAttr :: "'d transport \<Rightarrow> nat \<Rightarrow> nat option \<Rightarrow> nat option \<Rightarrow> nat option \<Rightarrow> nat option \<Rightarrow> ('d, unit) fop" where
  "VirtioFsFuseSetAttr tr node Size Atime Mtime Mode =
     (let Valid = (if Size \<noteq> None then 8 else 0) + (if Atime \<noteq> None then 16 else 0) + (if Mtime \<noteq> None then 32 else 0) + (if Mode \<noteq> None then 1 else 0);
          AttrReq = le_bytes 4 Valid @ le_bytes 4 0 @ le_bytes 8 0 @ le_bytes 8 (opt0 Size) @ le_bytes 8 0 @ le_bytes 8 (opt0 Atime) @ le_bytes 8 (opt0 Mtime) @
            le_bytes 8 0 @ le_bytes 4 0 @ le_bytes 4 0 @ le_bytes 4 0 @ le_bytes 4 (opt0 Mode) @ le_bytes 4 0 @ le_bytes 4 0 @ le_bytes 4 0 @ le_bytes 4 0
      in sbind (fuse_call tr 4 node [AttrReq] [sizeof_GETATTR, sizeof_ATTR] False) (\<lambda>_. sret ()))"

definition VirtioFsFuseMkDir :: "'d transport \<Rightarrow> nat \<Rightarrow> byte list \<Rightarrow> ('d, nat) fop" where
  "VirtioFsFuseMkDir tr ParentNodeId Name =
     sbind (fuse_call tr 9 ParentNodeId [le_bytes 4 0x1FF @ le_bytes 4 0, cstring Name] [sizeof_NODE, sizeof_ATTR] False) (\<lambda>(bufs, _).
     sload (le_field (bufs ! 0) 0 8))"

definition VirtioFsFuseRemoveFileOrDir :: "'d transport \<Rightarrow> nat \<Rightarrow> byte list \<Rightarrow> bool \<Rightarrow> ('d, unit) fop" where
  "VirtioFsFuseRemoveFileOrDir tr ParentNodeId Name IsDir =
     sbind (fuse_call tr (if IsDir then 11 else 10) ParentNodeId [cstring Name] [] False) (\<lambda>_. sret ())"

definition VirtioFsFuseOpen :: "'d transport \<Rightarrow> nat \<Rightarrow> bool \<Rightarrow> ('d, nat) fop" where
  "VirtioFsFuseOpen tr node ReadWrite =
     sbind (fuse_call tr 14 node [le_bytes 4 (if ReadWrite then 2 else 0) @ le_bytes 4 0] [sizeof_OPEN] False) (\<lambda>(bufs, _).
     sload (le_field (bufs ! 0) 0 8))"

text \<open>Up to the size of the buffer; the data are the filled part.\<close>

definition VirtioFsFuseReadFileOrDir :: "'d transport \<Rightarrow> nat \<Rightarrow> nat \<Rightarrow> bool \<Rightarrow> nat \<Rightarrow> nat \<Rightarrow> ('d, byte list) fop" where
  "VirtioFsFuseReadFileOrDir tr node handle IsDir Offset Size =
     sbind (fuse_call tr (if IsDir then 44 else 15) node
       [le_bytes 8 handle @ le_bytes 8 Offset @ le_bytes 4 Size @ le_bytes 4 0 @ le_bytes 8 0 @ le_bytes 4 0 @ le_bytes 4 0] [Size] True) (\<lambda>(bufs, n).
     sret (take n (bufs ! 0)))"

definition VirtioFsFuseWrite :: "'d transport \<Rightarrow> nat \<Rightarrow> nat \<Rightarrow> nat \<Rightarrow> byte list \<Rightarrow> ('d, nat) fop" where
  "VirtioFsFuseWrite tr node handle Offset Data = sbind (sget MaxWrite) (\<lambda>limit.
     if limit < length Data then sfail EFI_BAD_BUFFER_SIZE
     else sbind (fuse_call tr 16 node
       [le_bytes 8 handle @ le_bytes 8 Offset @ le_bytes 4 (length Data) @ le_bytes 4 0 @ le_bytes 8 0 @ le_bytes 4 0 @ le_bytes 4 0, Data]
       [sizeof_WRITE] False) (\<lambda>(bufs, _). sload (le_field (bufs ! 0) 0 4)))"

definition VirtioFsFuseStatFs :: "'d transport \<Rightarrow> nat \<Rightarrow> ('d, FUSE_STATFS) fop" where
  "VirtioFsFuseStatFs tr node = sbind (fuse_call tr 17 node [] [sizeof_STATFS] False) (\<lambda>(bufs, _). sload (fuse_statfs (bufs ! 0)))"

definition VirtioFsFuseReleaseFileOrDir :: "'d transport \<Rightarrow> nat \<Rightarrow> nat \<Rightarrow> bool \<Rightarrow> ('d, unit) fop" where
  "VirtioFsFuseReleaseFileOrDir tr node handle IsDir =
     sbind (fuse_call tr (if IsDir then 29 else 18) node [le_bytes 8 handle @ le_bytes 4 0 @ le_bytes 4 0 @ le_bytes 8 0] [] False) (\<lambda>_. sret ())"

definition VirtioFsFuseFsyncFileOrDir :: "'d transport \<Rightarrow> nat \<Rightarrow> nat \<Rightarrow> bool \<Rightarrow> ('d, unit) fop" where
  "VirtioFsFuseFsyncFileOrDir tr node handle IsDir =
     sbind (fuse_call tr (if IsDir then 30 else 20) node [le_bytes 8 handle @ le_bytes 4 0 @ le_bytes 4 0] [] False) (\<lambda>_. sret ())"

definition VirtioFsFuseFlush :: "'d transport \<Rightarrow> nat \<Rightarrow> nat \<Rightarrow> ('d, unit) fop" where
  "VirtioFsFuseFlush tr node handle =
     sbind (fuse_call tr 25 node [le_bytes 8 handle @ le_bytes 4 0 @ le_bytes 4 0 @ le_bytes 8 0] [] False) (\<lambda>_. sret ())"

definition VirtioFsFuseInitSession :: "'d transport \<Rightarrow> ('d, unit) fop" where
  "VirtioFsFuseInitSession tr =
     sthen (smod (\<lambda>fs. fs\<lparr>RequestId := 1\<rparr>))
     (sbind (fuse_call tr 26 0 [le_bytes 4 7 @ le_bytes 4 31 @ le_bytes 4 0 @ le_bytes 4 VIRTIO_FS_FUSE_INIT_REQ_F_DO_READDIRPLUS] [sizeof_INIT] False) (\<lambda>(bufs, _).
      sbind (sload (le_field (bufs ! 0) 0 4)) (\<lambda>Major. sbind (sload (le_field (bufs ! 0) 4 4)) (\<lambda>Minor.
      sbind (sload (le_field (bufs ! 0) 12 4)) (\<lambda>Flags. sbind (sload (le_field (bufs ! 0) 20 4)) (\<lambda>limit.
      if Major < 7 \<or> Major = 7 \<and> Minor < 31 \<or> Flags AND VIRTIO_FS_FUSE_INIT_REQ_F_DO_READDIRPLUS = 0 \<or> limit < 4096 then sfail EFI_UNSUPPORTED
      else smod (\<lambda>fs. fs\<lparr>MaxWrite := limit\<rparr>)))))))"

definition VirtioFsFuseOpenDir :: "'d transport \<Rightarrow> nat \<Rightarrow> ('d, nat) fop" where
  "VirtioFsFuseOpenDir tr node =
     sbind (fuse_call tr 27 node [le_bytes 4 0 @ le_bytes 4 0] [sizeof_OPEN] False) (\<lambda>(bufs, _). sload (le_field (bufs ! 0) 0 8))"

definition VirtioFsFuseOpenOrCreate :: "'d transport \<Rightarrow> nat \<Rightarrow> byte list \<Rightarrow> ('d, nat \<times> nat) fop" where
  "VirtioFsFuseOpenOrCreate tr ParentNodeId Name =
     sbind (fuse_call tr 35 ParentNodeId [le_bytes 4 2 @ le_bytes 4 0x1B6 @ le_bytes 4 0 @ le_bytes 4 0, cstring Name]
       [sizeof_NODE, sizeof_ATTR, sizeof_OPEN] False) (\<lambda>(bufs, _).
     sbind (sload (le_field (bufs ! 0) 0 8)) (\<lambda>node. sbind (sload (le_field (bufs ! 2) 0 8)) (\<lambda>handle. sret (node, handle))))"

definition VirtioFsFuseRename :: "'d transport \<Rightarrow> nat \<Rightarrow> byte list \<Rightarrow> nat \<Rightarrow> byte list \<Rightarrow> ('d, unit) fop" where
  "VirtioFsFuseRename tr OldParentNodeId OldName NewParentNodeId NewName =
     sbind (fuse_call tr 45 OldParentNodeId [le_bytes 8 NewParentNodeId @ le_bytes 4 1 @ le_bytes 4 0, cstring OldName, cstring NewName] [] False) (\<lambda>_. sret ())"

end
