(* ===== verification/VirtioFsFile.thy ===== *)
theory VirtioFsFile
  imports VirtioFsFuse
begin

text \<open>
  The file protocol on top of the FUSE commands: conversions of attributes, the lookup of the parent directory
  (\<^verbatim>\<open>VirtioFsDxe/Helpers.c\<close>) and opening files (\<^verbatim>\<open>SimpleFsOpen.c\<close>,
  \<^verbatim>\<open>SimpleFsOpenVolume.c\<close>).
\<close>

section \<open>Environment\<close>

record 'd vf_env =
  Transport :: "'d transport"
  path_alloc :: "nat \<Rightarrow> nat \<Rightarrow> byte list option"
  file_alloc :: "(nat \<Rightarrow> VIRTIO_FS_FILE option) \<Rightarrow> nat option"
  buf_alloc :: "nat \<Rightarrow> bool"
  EpochToEfiTime :: "nat \<Rightarrow> EFI_TIME"
  IsTimeValid :: "EFI_TIME \<Rightarrow> bool"
  EfiTimeToEpoch :: "EFI_TIME \<Rightarrow> nat"

definition VIRTIO_FS_FILE_MAX_FILE_INFO :: nat where "VIRTIO_FS_FILE_MAX_FILE_INFO = 256"

section \<open>Attributes\<close>

definition offset_FileName :: nat where "offset_FileName = 80"

definition zero_time :: EFI_TIME where
  "zero_time = \<lparr>Year = 0, Month = 0, Day = 0, Hour = 0, Minute = 0, Second = 0, Pad1 = 0, Nanosecond = 0, TimeZone = 0, Daylight = 0, Pad2 = 0\<rparr>"

text \<open>A structure on the stack; what it holds before is not read.\<close>

definition blank_info :: FILE_INFO where
  "blank_info = \<lparr>fi_Size = 0, fi_FileSize = 0, fi_PhysicalSize = 0, fi_CreateTime = zero_time, fi_LastAccessTime = zero_time,
     fi_ModificationTime = zero_time, fi_Attribute = 0, fi_FileName = []\<rparr>"

definition converted_time :: "'d vf_env \<Rightarrow> nat \<Rightarrow> EFI_TIME" where
  "converted_time E t = (EpochToEfiTime E t)\<lparr>TimeZone := 0, Daylight := 0, Pad1 := 0, Pad2 := 0\<rparr>"

definition VirtioFsFuseAttrToEfiFileInfo :: "'d vf_env \<Rightarrow> FUSE_ATTR \<Rightarrow> FILE_INFO \<Rightarrow> EFI_STATUS + FILE_INFO" where
  "VirtioFsFuseAttrToEfiFileInfo E a FileInfo =
     (if 2 ^ 55 \<le> at_Blocks a then Inl EFI_UNSUPPORTED
      else if max_u64 < at_Mtime a \<or> max_u64 < at_Atime a then Inl EFI_UNSUPPORTED
      else let ty = at_Mode a AND 0xF000
      in if ty \<noteq> 0x4000 \<and> ty \<noteq> 0x8000 then Inl EFI_UNSUPPORTED
         else let attr = (if ty = 0x4000 then EFI_FILE_DIRECTORY else 0) OR (if at_Mode a AND 0x92 = 0 then EFI_FILE_READ_ONLY else 0)
           in if attr AND EFI_FILE_DIRECTORY = 0 \<and> 1 < at_Nlink a then Inl EFI_UNSUPPORTED
              else Inr (FileInfo\<lparr>fi_FileSize := at_Size a, fi_PhysicalSize := at_Blocks a * 512,
                fi_CreateTime := converted_time E (at_Mtime a), fi_LastAccessTime := converted_time E (at_Atime a),
                fi_ModificationTime := converted_time E (at_Mtime a), fi_Attribute := attr\<rparr>))"

definition sizeof_DIRENTPLUS :: nat where "sizeof_DIRENTPLUS = 152"

definition VIRTIO_FS_FUSE_DIRENTPLUS_RESPONSE_SIZE :: "nat \<Rightarrow> nat" where
  "VIRTIO_FS_FUSE_DIRENTPLUS_RESPONSE_SIZE Namelen =
     (if Namelen = 0 \<or> 4096 < Namelen then 0 else (sizeof_DIRENTPLUS + Namelen + 7) div 8 * 8)"

definition VirtioFsFuseDirentPlusToEfiFileInfo :: "byte list \<Rightarrow> FILE_INFO \<Rightarrow> EFI_STATUS + FILE_INFO" where
  "VirtioFsFuseDirentPlusToEfiFileInfo Name FileInfo =
     (if VIRTIO_FS_FUSE_DIRENTPLUS_RESPONSE_SIZE (length Name) = 0 then Inl EFI_INVALID_PARAMETER
      else let FileInfoSize = offset_FileName + (length Name + 1) * 2
      in if fi_Size FileInfo < FileInfoSize then Inl EFI_BUFFER_TOO_SMALL
         else if \<exists>c \<in> set Name. c < 0x20 \<or> 0x7E < c \<or> c = slash \<or> c = 0x5C then Inl EFI_UNSUPPORTED
         else Inr (FileInfo\<lparr>fi_FileName := map ucast Name, fi_Size := FileInfoSize\<rparr>))"

text \<open>A new value, if an update is necessary.\<close>

definition VirtioFsGetFuseSizeUpdate :: "FILE_INFO \<Rightarrow> FILE_INFO \<Rightarrow> nat option" where
  "VirtioFsGetFuseSizeUpdate Info NewInfo =
     (if fi_Attribute Info AND EFI_FILE_DIRECTORY \<noteq> 0 \<or> fi_FileSize Info = fi_FileSize NewInfo then None else Some (fi_FileSize NewInfo))"

definition time_change :: "'d vf_env \<Rightarrow> EFI_TIME \<Rightarrow> EFI_TIME \<Rightarrow> EFI_STATUS + nat option" where
  "time_change E Time NewTime =
     (if NewTime = zero_time \<or> NewTime = Time then Inr None
      else if \<not> IsTimeValid E NewTime then Inl EFI_INVALID_PARAMETER
      else Inr (Some (EfiTimeToEpoch E NewTime)))"

text \<open>The times of the last access and the last modification.\<close>

definition VirtioFsGetFuseTimeUpdates :: "'d vf_env \<Rightarrow> FILE_INFO \<Rightarrow> FILE_INFO \<Rightarrow> EFI_STATUS + (nat option \<times> nat option)" where
  "VirtioFsGetFuseTimeUpdates E Info NewInfo =
     (case time_change E (fi_CreateTime Info) (fi_CreateTime NewInfo) of
        Inl st \<Rightarrow> Inl st
      | Inr c \<Rightarrow> (case time_change E (fi_LastAccessTime Info) (fi_LastAccessTime NewInfo) of
            Inl st \<Rightarrow> Inl st
          | Inr a \<Rightarrow> (case time_change E (fi_ModificationTime Info) (fi_ModificationTime NewInfo) of
                Inl st \<Rightarrow> Inl st
              | Inr m \<Rightarrow> if c \<noteq> None \<and> m \<noteq> None \<and> c \<noteq> m then Inl EFI_ACCESS_DENIED
                  else Inr (a, if m \<noteq> None then m else c))))"

definition VirtioFsGetFuseModeUpdate :: "FILE_INFO \<Rightarrow> FILE_INFO \<Rightarrow> EFI_STATUS + nat option" where
  "VirtioFsGetFuseModeUpdate Info NewInfo =
     (let Toggle = fi_Attribute Info XOR fi_Attribute NewInfo
      in if Toggle AND (max_u64 - EFI_FILE_VALID_ATTR) \<noteq> 0 then Inl EFI_ACCESS_DENIED
         else if Toggle AND EFI_FILE_DIRECTORY \<noteq> 0 then Inl EFI_ACCESS_DENIED
         else let IsDir = (fi_Attribute Info AND EFI_FILE_DIRECTORY \<noteq> 0);
                  IsWriteable = (fi_Attribute Info AND EFI_FILE_READ_ONLY = 0);
                  WillBeWriteable = (fi_Attribute NewInfo AND EFI_FILE_READ_ONLY = 0)
           in if IsWriteable = WillBeWriteable then Inr None
              else if IsDir then Inr (Some (if WillBeWriteable then 0x1FF else 0x16D))
              else Inr (Some (if WillBeWriteable then 0x1B6 else 0x124)))"

section \<open>Parent directories\<close>

definition forget_unless_root :: "'d vf_env \<Rightarrow> nat \<Rightarrow> ('d, unit) fop" where
  "forget_unless_root E node =
     (if node \<noteq> VIRTIO_FS_FUSE_ROOT_DIR_NODE_ID then best_effort (VirtioFsFuseForget (Transport E) node) else sret ())"

text \<open>The walk from a directory down the rest of a path: the node of the last directory and the last component.\<close>

function parent_walk :: "'d vf_env \<Rightarrow> nat \<Rightarrow> byte list \<Rightarrow> ('d, nat \<times> byte list) fop" where
  "parent_walk E ParentDirNodeId rest =
     (if slash \<notin> set rest then sret (ParentDirNodeId, rest)
      else let Name = takeWhile (\<lambda>c. c \<noteq> slash) rest
      in sbind (stry (VirtioFsFuseLookup (Transport E) ParentDirNodeId Name)) (\<lambda>r.
         sthen (forget_unless_root E ParentDirNodeId)
         (case r of
            Inl st \<Rightarrow> sfail st
          | Inr (NextDirNodeId, FuseAttr) \<Rightarrow> (case VirtioFsFuseAttrToEfiFileInfo E FuseAttr blank_info of
                Inl st \<Rightarrow> sthen (best_effort (VirtioFsFuseForget (Transport E) NextDirNodeId)) (sfail st)
              | Inr FileInfo \<Rightarrow>
                  if fi_Attribute FileInfo AND EFI_FILE_DIRECTORY = 0
                  then sthen (best_effort (VirtioFsFuseForget (Transport E) NextDirNodeId)) (sfail EFI_ACCESS_DENIED)
                  else parent_walk E NextDirNodeId (drop (length Name + 1) rest)))))"
  by pat_completeness auto

termination
  by (relation "measure (\<lambda>(E, n, rest). length rest)") (auto intro!: diff_less simp: length_pos_if_in_set)

definition VirtioFsLookupMostSpecificParentDir :: "'d vf_env \<Rightarrow> byte list \<Rightarrow> ('d, nat \<times> byte list) fop" where
  "VirtioFsLookupMostSpecificParentDir E Path =
     (if Path = [slash] then sfail EFI_INVALID_PARAMETER else parent_walk E VIRTIO_FS_FUSE_ROOT_DIR_NODE_ID (drop 1 Path))"

section \<open>Opening\<close>

definition insert_file :: "nat \<Rightarrow> VIRTIO_FS_FILE \<Rightarrow> 'd VIRTIO_FS \<Rightarrow> 'd VIRTIO_FS" where
  "insert_file a f fs = fs\<lparr>OpenFiles := OpenFiles fs @ [a], Objects := (Objects fs)(a \<mapsto> f)\<rparr>"

definition update_file :: "nat \<Rightarrow> (VIRTIO_FS_FILE \<Rightarrow> VIRTIO_FS_FILE) \<Rightarrow> 'd VIRTIO_FS \<Rightarrow> 'd VIRTIO_FS" where
  "update_file a g fs = fs\<lparr>Objects := (Objects fs)(a := map_option g (Objects fs a))\<rparr>"

definition new_file :: "bool \<Rightarrow> bool \<Rightarrow> byte list \<Rightarrow> nat \<Rightarrow> nat \<Rightarrow> VIRTIO_FS_FILE" where
  "new_file IsDir ForWriting path node handle = \<lparr>IsDirectory = IsDir, IsOpenForWriting = ForWriting, CanonicalPathname = path,
     FilePosition = 0, NodeId = node, FuseHandle = handle, FileInfoArray = None, SingleFileInfoSize = 0, NumFileInfo = 0, NextFileInfo = 0\<rparr>"

definition VirtioFsOpenVolume :: "'d vf_env \<Rightarrow> ('d, nat) fop" where
  "VirtioFsOpenVolume E =
     sbind (sget (\<lambda>fs. file_alloc E (Objects fs))) (\<lambda>new. case new of
       None \<Rightarrow> sfail EFI_OUT_OF_RESOURCES
     | Some a \<Rightarrow>
         if \<not> buf_alloc E 2 then sfail EFI_OUT_OF_RESOURCES
         else sbind (VirtioFsFuseOpenDir (Transport E) VIRTIO_FS_FUSE_ROOT_DIR_NODE_ID) (\<lambda>RootDirHandle.
           sthen (smod (insert_file a (new_file True False [slash] VIRTIO_FS_FUSE_ROOT_DIR_NODE_ID RootDirHandle)))
           (sret a)))"

definition OpenRootDirectory :: "'d vf_env \<Rightarrow> bool \<Rightarrow> ('d, nat) fop" where
  "OpenRootDirectory E OpenForWriting =
     sthen (if OpenForWriting
            then sbind (VirtioFsFuseGetAttr (Transport E) VIRTIO_FS_FUSE_ROOT_DIR_NODE_ID) (\<lambda>FuseAttr.
              sbind (of_result (VirtioFsFuseAttrToEfiFileInfo E FuseAttr blank_info)) (\<lambda>FileInfo.
              if fi_Attribute FileInfo AND EFI_FILE_READ_ONLY \<noteq> 0 then sfail EFI_ACCESS_DENIED else sret ()))
            else sret ())
     (sbind (VirtioFsOpenVolume E) (\<lambda>a.
      sthen (smod (update_file a (\<lambda>f. f\<lparr>IsOpenForWriting := OpenForWriting\<rparr>))) (sret a)))"

text \<open>The node, the handle and whether it is a directory.\<close>

definition OpenExistentFileOrDirectory :: "'d vf_env \<Rightarrow> nat \<Rightarrow> byte list \<Rightarrow> bool \<Rightarrow> ('d, nat \<times> nat \<times> bool) fop" where
  "OpenExistentFileOrDirectory E DirNodeId Name OpenForWriting =
     sbind (VirtioFsFuseLookup (Transport E) DirNodeId Name) (\<lambda>(ResolvedNodeId, FuseAttr).
     let fail = (\<lambda>st. sthen (best_effort (VirtioFsFuseForget (Transport E) ResolvedNodeId))
                        (sfail (if st = EFI_NOT_FOUND then EFI_DEVICE_ERROR else st)))
     in case VirtioFsFuseAttrToEfiFileInfo E FuseAttr blank_info of
       Inl st \<Rightarrow> fail st
     | Inr FileInfo \<Rightarrow>
         if OpenForWriting \<and> fi_Attribute FileInfo AND EFI_FILE_READ_ONLY \<noteq> 0 then fail EFI_ACCESS_DENIED
         else let IsDir = (fi_Attribute FileInfo AND EFI_FILE_DIRECTORY \<noteq> 0)
         in sbind (stry (if IsDir then VirtioFsFuseOpenDir (Transport E) ResolvedNodeId
                         else VirtioFsFuseOpen (Transport E) ResolvedNodeId OpenForWriting)) (\<lambda>r. case r of
              Inl st \<Rightarrow> fail st
            | Inr NewFuseHandle \<Rightarrow> sret (ResolvedNodeId, NewFuseHandle, IsDir)))"

definition CreateDirectory :: "'d vf_env \<Rightarrow> nat \<Rightarrow> byte list \<Rightarrow> ('d, nat \<times> nat) fop" where
  "CreateDirectory E DirNodeId Name =
     sbind (VirtioFsFuseMkDir (Transport E) DirNodeId Name) (\<lambda>NewChildDirNodeId.
     sbind (stry (VirtioFsFuseOpenDir (Transport E) NewChildDirNodeId)) (\<lambda>r. case r of
       Inl st \<Rightarrow> sthen (best_effort (VirtioFsFuseRemoveFileOrDir (Transport E) DirNodeId Name True))
           (sthen (best_effort (VirtioFsFuseForget (Transport E) NewChildDirNodeId)) (sfail st))
     | Inr NewFuseHandle \<Rightarrow> sret (NewChildDirNodeId, NewFuseHandle)))"

definition CreateRegularFile :: "'d vf_env \<Rightarrow> nat \<Rightarrow> byte list \<Rightarrow> ('d, nat \<times> nat) fop" where
  "CreateRegularFile E DirNodeId Name = VirtioFsFuseOpenOrCreate (Transport E) DirNodeId Name"

text \<open>Writing and creation permitted, for a valid mode.\<close>

definition open_mode :: "nat \<Rightarrow> (bool \<times> bool) option" where
  "open_mode OpenMode =
     (if OpenMode = EFI_FILE_MODE_READ then Some (False, False)
      else if OpenMode = EFI_FILE_MODE_READ OR EFI_FILE_MODE_WRITE then Some (True, False)
      else if OpenMode = EFI_FILE_MODE_READ OR EFI_FILE_MODE_WRITE OR EFI_FILE_MODE_CREATE then Some (True, True)
      else None)"

definition open_component :: "'d vf_env \<Rightarrow> nat \<Rightarrow> byte list \<Rightarrow> bool \<Rightarrow> bool \<Rightarrow> bool \<Rightarrow> ('d, nat \<times> nat \<times> bool) fop" where
  "open_component E DirNodeId LastComponent OpenForWriting PermitCreation CreateDirectoryIfCreating =
     sbind (stry (OpenExistentFileOrDirectory E DirNodeId LastComponent OpenForWriting)) (\<lambda>r.
       if r = Inl EFI_NOT_FOUND \<and> PermitCreation
       then if \<not> OpenForWriting then sload None
         else sbind (if CreateDirectoryIfCreating then CreateDirectory E DirNodeId LastComponent
                     else CreateRegularFile E DirNodeId LastComponent) (\<lambda>(node, handle).
           sret (node, handle, CreateDirectoryIfCreating))
       else of_result r)"

text \<open>The last steps, with the object of the new file and its path.\<close>

definition open_path :: "'d vf_env \<Rightarrow> nat \<Rightarrow> byte list \<Rightarrow> bool \<Rightarrow> bool \<Rightarrow> bool \<Rightarrow> ('d, nat) fop" where
  "open_path E a NewCanonicalPath OpenForWriting PermitCreation CreateDirectoryIfCreating =
     (if NewCanonicalPath = [slash] then OpenRootDirectory E OpenForWriting
      else sbind (VirtioFsLookupMostSpecificParentDir E NewCanonicalPath) (\<lambda>(DirNodeId, LastComponent).
        sbind (finally_do (open_component E DirNodeId LastComponent OpenForWriting PermitCreation CreateDirectoryIfCreating)
            (forget_unless_root E DirNodeId)) (\<lambda>(node, handle, IsDir).
        sthen (smod (insert_file a (new_file IsDir OpenForWriting NewCanonicalPath node handle)))
        (sret a))))"

definition VirtioFsSimpleFileOpen :: "'d vf_env \<Rightarrow> nat \<Rightarrow> u16 list \<Rightarrow> nat \<Rightarrow> nat \<Rightarrow> ('d, nat) fop" where
  "VirtioFsSimpleFileOpen E This FileName OpenMode Attributes =
     sbind (sget (\<lambda>fs. Objects fs This)) (\<lambda>f. sbind (sload f) (\<lambda>VirtioFsFile.
     case open_mode OpenMode of
       None \<Rightarrow> sfail EFI_INVALID_PARAMETER
     | Some (OpenForWriting, PermitCreation) \<Rightarrow>
         if PermitCreation \<and> Attributes AND (max_u64 - EFI_FILE_VALID_ATTR) \<noteq> 0 then sfail EFI_INVALID_PARAMETER
         else if PermitCreation \<and> \<not> OpenForWriting then sload None
         else if PermitCreation \<and> Attributes AND EFI_FILE_READ_ONLY \<noteq> 0 then sfail EFI_INVALID_PARAMETER
         else if \<not> IsDirectory VirtioFsFile then sfail EFI_INVALID_PARAMETER
         else let CreateDirectoryIfCreating = (PermitCreation \<and> Attributes AND EFI_FILE_DIRECTORY \<noteq> 0)
         in sbind (sget (\<lambda>fs. file_alloc E (Objects fs))) (\<lambda>new. case new of
              None \<Rightarrow> sfail EFI_OUT_OF_RESOURCES
            | Some a \<Rightarrow>
                sbind (sload (VirtioFsAppendPath (path_alloc E) (CanonicalPathname VirtioFsFile) FileName)) (\<lambda>(Status, res).
                if Status \<noteq> EFI_SUCCESS then sfail Status
                else sbind (sload res) (\<lambda>(NewCanonicalPath, RootEscape).
                  if RootEscape then sfail EFI_ACCESS_DENIED
                  else open_path E a NewCanonicalPath OpenForWriting PermitCreation CreateDirectoryIfCreating)))))"

end
