(* ===== verification/VirtioFsIo.thy ===== *)
theory VirtioFsIo
  imports VirtioFsFile
begin

text \<open>
  The operations on an open file: reading and writing (\<^verbatim>\<open>SimpleFsRead.c\<close>, \<^verbatim>\<open>SimpleFsWrite.c\<close>),
  positions, flushing, closing and deletion, and the structures that describe a file
  (\<^verbatim>\<open>SimpleFsGetInfo.c\<close>, \<^verbatim>\<open>SimpleFsSetInfo.c\<close>).
\<close>

definition with_file :: "nat \<Rightarrow> (VIRTIO_FS_FILE \<Rightarrow> ('d, 'a) fop) \<Rightarrow> ('d, 'a) fop" where
  "with_file This k = sbind (sget (\<lambda>fs. Objects fs This)) (\<lambda>f. sbind (sload f) k)"

section \<open>Regular files\<close>

text \<open>The bytes read so far and the status of the last command.\<close>

function read_loop :: "'d vf_env \<Rightarrow> nat \<Rightarrow> nat \<Rightarrow> nat \<Rightarrow> nat \<Rightarrow> byte list \<Rightarrow> ('d, byte list \<times> EFI_STATUS) fop" where
  "read_loop E node handle position left acc =
     (if left = 0 then sret (acc, EFI_SUCCESS)
      else sbind (stry (VirtioFsFuseReadFileOrDir (Transport E) node handle False ((position + length acc) mod 2 ^ 64) (min max_u32 left))) (\<lambda>r.
        case r of
          Inl st \<Rightarrow> sret (acc, st)
        | Inr bytes \<Rightarrow> if bytes = [] then sret (acc, EFI_SUCCESS)
            else read_loop E node handle position (left - length bytes) (acc @ bytes)))"
  by pat_completeness auto

termination
  by (relation "measure (\<lambda>(E, n, h, p, left, acc). left)") auto

definition ReadRegularFile :: "'d vf_env \<Rightarrow> nat \<Rightarrow> nat \<Rightarrow> ('d, byte list) fop" where
  "ReadRegularFile E This BufferSize = with_file This (\<lambda>f.
     sbind (stry (VirtioFsFuseGetAttr (Transport E) (NodeId f))) (\<lambda>r. case r of
       Inl st \<Rightarrow> sfail EFI_DEVICE_ERROR
     | Inr FuseAttr \<Rightarrow>
         if at_Size FuseAttr < FilePosition f then sfail EFI_DEVICE_ERROR
         else sbind (read_loop E (NodeId f) (FuseHandle f) (FilePosition f) BufferSize []) (\<lambda>(bytes, Status).
           sthen (smod (update_file This (\<lambda>f. f\<lparr>FilePosition := (FilePosition f + length bytes) mod 2 ^ 64\<rparr>)))
           (if bytes \<noteq> [] \<or> Status = EFI_SUCCESS then sret bytes else sfail Status))))"

text \<open>
  The count that the device returns is not compared with what was asked for; the number of bytes left is
  unsigned.
\<close>

function write_loop :: "'d vf_env \<Rightarrow> nat \<Rightarrow> nat \<Rightarrow> nat \<Rightarrow> byte list \<Rightarrow> nat \<Rightarrow> ('d, nat \<times> EFI_STATUS) fop" where
  "write_loop E node handle position Buffer Transferred =
     (if length Buffer = Transferred then sret (Transferred, EFI_SUCCESS)
      else sbind (sget MaxWrite) (\<lambda>limit.
        case load_bytes Buffer Transferred (min limit ((length Buffer + 2 ^ 64 - Transferred) mod 2 ^ 64)) of
          None \<Rightarrow> sload None
        | Some Data \<Rightarrow>
            sbind (stry (VirtioFsFuseWrite (Transport E) node handle ((position + Transferred) mod 2 ^ 64) Data)) (\<lambda>r.
            case r of
              Inl st \<Rightarrow> sret (Transferred, st)
            | Inr WriteSize \<Rightarrow> if WriteSize = 0 then sret (Transferred, EFI_DEVICE_ERROR)
                else write_loop E node handle position Buffer (Transferred + WriteSize))))"
  by pat_completeness auto

termination
  by (relation "measure (\<lambda>(E, n, h, p, Buffer, Transferred). length Buffer - Transferred)") (auto simp: load_bytes_def split: if_splits)

text \<open>Status and number of bytes written.\<close>

definition VirtioFsSimpleFileWrite :: "'d vf_env \<Rightarrow> nat \<Rightarrow> byte list \<Rightarrow> ('d, EFI_STATUS \<times> nat) fop" where
  "VirtioFsSimpleFileWrite E This Buffer = with_file This (\<lambda>f.
     if IsDirectory f then sfail EFI_UNSUPPORTED
     else if \<not> IsOpenForWriting f then sfail EFI_ACCESS_DENIED
     else sbind (write_loop E (NodeId f) (FuseHandle f) (FilePosition f) Buffer 0) (\<lambda>(Transferred, Status).
       sthen (smod (update_file This (\<lambda>f. f\<lparr>FilePosition := (FilePosition f + Transferred) mod 2 ^ 64\<rparr>)))
       (sret (Status, Transferred))))"

section \<open>Directories\<close>

definition PopulateFileInfo :: "'d vf_env \<Rightarrow> byte list \<Rightarrow> FUSE_ATTR \<Rightarrow> nat \<Rightarrow> EFI_STATUS + FILE_INFO" where
  "PopulateFileInfo E Name Attr SingleSize =
     (case VirtioFsFuseDirentPlusToEfiFileInfo Name (blank_info\<lparr>fi_Size := SingleSize\<rparr>) of
        Inl st \<Rightarrow> Inl st
      | Inr FileInfo \<Rightarrow> VirtioFsFuseAttrToEfiFileInfo E Attr FileInfo)"

record dir_cache =
  dc_Cookie :: nat
  dc_CacheEnds :: nat
  dc_Infos :: "FILE_INFO list"

text \<open>The entries in a buffer that the device filled; \<open>limit\<close> is the longest name of the file system.\<close>

function dirent_loop :: "'d vf_env \<Rightarrow> nat \<Rightarrow> nat \<Rightarrow> byte list \<Rightarrow> dir_cache \<Rightarrow> ('d, dir_cache) fop" where
  "dirent_loop E limit SingleSize buf c =
     (if length buf < sizeof_DIRENTPLUS then (if buf = [] then sret c else sfail EFI_PROTOCOL_ERROR)
      else sbind (sload (le_field buf 144 4)) (\<lambda>Namelen.
        let DirentSize = VIRTIO_FS_FUSE_DIRENTPLUS_RESPONSE_SIZE Namelen
        in if DirentSize = 0 then sfail EFI_PROTOCOL_ERROR
           else if length buf < DirentSize then sfail EFI_PROTOCOL_ERROR
           else if limit < Namelen then sfail EFI_PROTOCOL_ERROR
           else sbind (sload (load_bytes buf sizeof_DIRENTPLUS Namelen)) (\<lambda>Name.
             sbind (sload (Option.bind (load_bytes buf sizeof_NODE sizeof_ATTR) fuse_attr)) (\<lambda>Attr.
             sbind (sload (le_field buf 136 8)) (\<lambda>NextCookie. sbind (sload (le_field buf 0 8)) (\<lambda>node.
             let c1 = (if length (dc_Infos c) < VIRTIO_FS_FILE_MAX_FILE_INFO
                       then (case PopulateFileInfo E Name Attr SingleSize of
                           Inl st \<Rightarrow> c
                         | Inr info \<Rightarrow> c\<lparr>dc_Infos := dc_Infos c @ [info], dc_CacheEnds := NextCookie\<rparr>)
                       else c)
             in sthen (if node \<noteq> 0 then best_effort (VirtioFsFuseForget (Transport E) node) else sret ())
                (dirent_loop E limit SingleSize (drop DirentSize buf) (c1\<lparr>dc_Cookie := NextCookie\<rparr>))))))))"
  by pat_completeness auto

termination
  by (relation "measure (\<lambda>(E, l, sz, buf, c). length buf)") auto

text \<open>Reading the stream; it may go on for as long as the device delivers entries that cannot be converted.\<close>

fun refill_loop :: "nat \<Rightarrow> 'd vf_env \<Rightarrow> nat \<Rightarrow> nat \<Rightarrow> nat \<Rightarrow> nat \<Rightarrow> nat \<Rightarrow> dir_cache \<Rightarrow> ('d, dir_cache) fop" where
  "refill_loop 0 E node handle limit DirentBufSize SingleSize c = (\<lambda>fs. (Diverge, fs))"
| "refill_loop (Suc fuel) E node handle limit DirentBufSize SingleSize c =
     sbind (VirtioFsFuseReadFileOrDir (Transport E) node handle True (dc_Cookie c) DirentBufSize) (\<lambda>buf.
     if buf = [] then sret c
     else sbind (dirent_loop E limit SingleSize buf c) (\<lambda>c1.
       if length (dc_Infos c1) < VIRTIO_FS_FILE_MAX_FILE_INFO
       then refill_loop fuel E node handle limit DirentBufSize SingleSize c1
       else sret c1))"

definition RefillFileInfoCache :: "nat \<Rightarrow> 'd vf_env \<Rightarrow> nat \<Rightarrow> ('d, unit) fop" where
  "RefillFileInfoCache fuel E This = with_file This (\<lambda>f.
     sbind (VirtioFsFuseStatFs (Transport E) (NodeId f)) (\<lambda>FilesysAttr.
     let DirentBufSize = VIRTIO_FS_FUSE_DIRENTPLUS_RESPONSE_SIZE (sf_Namelen FilesysAttr)
     in if DirentBufSize = 0 then sfail EFI_UNSUPPORTED
        else let DirentBufSize = DirentBufSize * VIRTIO_FS_FILE_MAX_FILE_INFO;
                 SingleSize = offset_FileName + (sf_Namelen FilesysAttr + 1) * 2
        in if \<not> buf_alloc E DirentBufSize then sfail EFI_OUT_OF_RESOURCES
           else if \<not> buf_alloc E (VIRTIO_FS_FILE_MAX_FILE_INFO * SingleSize) then sfail EFI_OUT_OF_RESOURCES
           else sbind (refill_loop fuel E (NodeId f) (FuseHandle f) (sf_Namelen FilesysAttr) DirentBufSize SingleSize
               \<lparr>dc_Cookie = FilePosition f, dc_CacheEnds = FilePosition f, dc_Infos = []\<rparr>) (\<lambda>c.
             smod (update_file This (\<lambda>f. f\<lparr>FileInfoArray := Some (dc_Infos c), SingleFileInfoSize := SingleSize,
               NumFileInfo := length (dc_Infos c), NextFileInfo := 0, FilePosition := dc_CacheEnds c\<rparr>)))))"

text \<open>The next entry, or nothing at the end of the directory.\<close>

definition ReadFileInfoCache :: "nat \<Rightarrow> 'd vf_env \<Rightarrow> nat \<Rightarrow> nat \<Rightarrow> ('d, FILE_INFO option) fop" where
  "ReadFileInfoCache fuel E This BufferSize = with_file This (\<lambda>f.
     sthen (if NextFileInfo f = NumFileInfo f
            then sbind (stry (RefillFileInfoCache fuel E This)) (\<lambda>r. case r of
                Inl st \<Rightarrow> sfail (if st = EFI_BUFFER_TOO_SMALL then EFI_DEVICE_ERROR else st)
              | Inr _ \<Rightarrow> sret ())
            else sret ())
     (with_file This (\<lambda>f1.
      if NumFileInfo f1 = 0 then sret None
      else sbind (sload (Option.bind (FileInfoArray f1) (\<lambda>infos.
            if NextFileInfo f1 < length infos then Some (infos ! NextFileInfo f1) else None))) (\<lambda>FileInfo.
        if BufferSize < fi_Size FileInfo then sfail EFI_BUFFER_TOO_SMALL
        else sthen (smod (update_file This (\<lambda>f. f\<lparr>NextFileInfo := NextFileInfo f + 1\<rparr>))) (sret (Some FileInfo))))))"

datatype read_result = FileBytes "byte list" | DirEntry "FILE_INFO option"

definition VirtioFsSimpleFileRead :: "nat \<Rightarrow> 'd vf_env \<Rightarrow> nat \<Rightarrow> nat \<Rightarrow> ('d, read_result) fop" where
  "VirtioFsSimpleFileRead fuel E This BufferSize = with_file This (\<lambda>f.
     if IsDirectory f then sbind (ReadFileInfoCache fuel E This BufferSize) (\<lambda>x. sret (DirEntry x))
     else sbind (ReadRegularFile E This BufferSize) (\<lambda>bs. sret (FileBytes bs)))"

section \<open>Positions, flushing, closing\<close>

definition VirtioFsSimpleFileGetPosition :: "nat \<Rightarrow> ('d, nat) fop" where
  "VirtioFsSimpleFileGetPosition This = with_file This (\<lambda>f. if IsDirectory f then sfail EFI_UNSUPPORTED else sret (FilePosition f))"

definition VirtioFsSimpleFileSetPosition :: "'d vf_env \<Rightarrow> nat \<Rightarrow> nat \<Rightarrow> ('d, unit) fop" where
  "VirtioFsSimpleFileSetPosition E This Position = with_file This (\<lambda>f.
     if IsDirectory f
     then (if Position \<noteq> 0 then sfail EFI_UNSUPPORTED
           else smod (update_file This (\<lambda>f. f\<lparr>FilePosition := 0, FileInfoArray := None, SingleFileInfoSize := 0, NumFileInfo := 0, NextFileInfo := 0\<rparr>)))
     else if Position < max_u64 then smod (update_file This (\<lambda>f. f\<lparr>FilePosition := Position\<rparr>))
     else sbind (VirtioFsFuseGetAttr (Transport E) (NodeId f)) (\<lambda>FuseAttr.
       smod (update_file This (\<lambda>f. f\<lparr>FilePosition := at_Size FuseAttr\<rparr>))))"

definition VirtioFsSimpleFileFlush :: "'d vf_env \<Rightarrow> nat \<Rightarrow> ('d, unit) fop" where
  "VirtioFsSimpleFileFlush E This = with_file This (\<lambda>f.
     if \<not> IsOpenForWriting f then sfail EFI_ACCESS_DENIED
     else sthen (if \<not> IsDirectory f then VirtioFsFuseFlush (Transport E) (NodeId f) (FuseHandle f) else sret ())
       (VirtioFsFuseFsyncFileOrDir (Transport E) (NodeId f) (FuseHandle f) (IsDirectory f)))"

definition remove_file :: "nat \<Rightarrow> 'd VIRTIO_FS \<Rightarrow> 'd VIRTIO_FS" where
  "remove_file a fs = fs\<lparr>OpenFiles := remove1 a (OpenFiles fs), Objects := (Objects fs)(a := None)\<rparr>"

definition VirtioFsSimpleFileClose :: "'d vf_env \<Rightarrow> nat \<Rightarrow> ('d, unit) fop" where
  "VirtioFsSimpleFileClose E This = with_file This (\<lambda>f.
     sthen (if IsOpenForWriting f
            then sthen (if \<not> IsDirectory f then best_effort (VirtioFsFuseFlush (Transport E) (NodeId f) (FuseHandle f)) else sret ())
                   (best_effort (VirtioFsFuseFsyncFileOrDir (Transport E) (NodeId f) (FuseHandle f) (IsDirectory f)))
            else sret ())
     (sthen (best_effort (VirtioFsFuseReleaseFileOrDir (Transport E) (NodeId f) (FuseHandle f) (IsDirectory f)))
     (sthen (forget_unless_root E (NodeId f))
     (smod (remove_file This)))))"

text \<open>Success or the warning that the file was not deleted; the file is closed in both cases.\<close>

definition VirtioFsSimpleFileDelete :: "'d vf_env \<Rightarrow> nat \<Rightarrow> ('d, EFI_STATUS) fop" where
  "VirtioFsSimpleFileDelete E This = with_file This (\<lambda>f.
     sthen (best_effort (VirtioFsFuseReleaseFileOrDir (Transport E) (NodeId f) (FuseHandle f) (IsDirectory f)))
     (sbind (if IsOpenForWriting f
             then sbind (stry (sbind (VirtioFsLookupMostSpecificParentDir E (CanonicalPathname f)) (\<lambda>(ParentNodeId, LastComponent).
                    finally_do (VirtioFsFuseRemoveFileOrDir (Transport E) ParentNodeId LastComponent (IsDirectory f))
                      (forget_unless_root E ParentNodeId)))) (\<lambda>r.
                  sret (case r of Inl _ \<Rightarrow> EFI_WARN_DELETE_FAILURE | Inr _ \<Rightarrow> EFI_SUCCESS))
             else sret EFI_WARN_DELETE_FAILURE) (\<lambda>Status.
      sthen (forget_unless_root E (NodeId f))
      (sthen (smod (remove_file This)) (sret Status)))))"

end
