(* ===== verification/VirtioFsInfo.thy ===== *)
theory VirtioFsInfo
  imports VirtioFsIo
begin

text \<open>
  Describing and changing an open file: \<^verbatim>\<open>SimpleFsGetInfo.c\<close> and
  \<^verbatim>\<open>SimpleFsSetInfo.c\<close>. The structures that the caller passes are bytes; strings in them end with a zero
  character.
\<close>

section \<open>Getting information\<close>

definition GetFileInfo :: "'d vf_env \<Rightarrow> nat \<Rightarrow> nat \<Rightarrow> ('d, FILE_INFO) fop" where
  "GetFileInfo E This BufferSize = with_file This (\<lambda>f.
     sbind (sload (VirtioFsGetBasename (CanonicalPathname f) 0)) (\<lambda>(st, BasenameSize, _).
     if st \<noteq> EFI_BUFFER_TOO_SMALL then sload None
     else if BufferSize < offset_FileName + BasenameSize then sfail EFI_BUFFER_TOO_SMALL
     else sbind (sload (VirtioFsGetBasename (CanonicalPathname f) BasenameSize)) (\<lambda>(st2, _, Basename).
       if st2 \<noteq> EFI_SUCCESS then sload None
       else sbind (stry (sbind (VirtioFsFuseGetAttr (Transport E) (NodeId f)) (\<lambda>FuseAttr.
           of_result (VirtioFsFuseAttrToEfiFileInfo E FuseAttr
             (blank_info\<lparr>fi_Size := offset_FileName + BasenameSize, fi_FileName := butlast Basename\<rparr>))))) (\<lambda>r.
         case r of Inl st \<Rightarrow> sfail (if st = EFI_BUFFER_TOO_SMALL then EFI_DEVICE_ERROR else st) | Inr info \<Rightarrow> sret info))))"

record FILESYSTEM_INFO =
  fs_Size :: nat
  fs_ReadOnly :: bool
  fs_VolumeSize :: nat
  fs_FreeSpace :: nat
  fs_BlockSize :: nat
  fs_VolumeLabel :: "u16 list"

definition offset_VolumeLabel :: nat where "offset_VolumeLabel = 36"

definition StrSize16 :: "u16 list \<Rightarrow> nat" where
  "StrSize16 s = (length s + 1) * 2"

definition GetFileSystemInfo :: "'d vf_env \<Rightarrow> nat \<Rightarrow> nat \<Rightarrow> ('d, FILESYSTEM_INFO) fop" where
  "GetFileSystemInfo E This BufferSize = with_file This (\<lambda>f.
     sbind (sget Label) (\<lambda>label.
     if BufferSize < offset_VolumeLabel + StrSize16 label then sfail EFI_BUFFER_TOO_SMALL
     else sbind (stry (VirtioFsFuseStatFs (Transport E) (NodeId f))) (\<lambda>r. case r of
       Inl st \<Rightarrow> sfail (if st = EFI_BUFFER_TOO_SMALL then EFI_DEVICE_ERROR else st)
     | Inr a \<Rightarrow>
         if sf_Frsize a \<noteq> sf_Bsize a then sfail EFI_UNSUPPORTED
         else if sf_Frsize a = 0 \<or> sf_Blocks a = 0 \<or> sf_Blocks a < sf_Bavail a then sfail EFI_DEVICE_ERROR
         else let MaxBlocks = max_u64 div sf_Frsize a
         in if MaxBlocks < sf_Blocks a \<or> MaxBlocks < sf_Bavail a then sfail EFI_DEVICE_ERROR
            else sret \<lparr>fs_Size = offset_VolumeLabel + StrSize16 label, fs_ReadOnly = False,
              fs_VolumeSize = sf_Blocks a * sf_Frsize a mod 2 ^ 64, fs_FreeSpace = sf_Bavail a * sf_Frsize a mod 2 ^ 64,
              fs_BlockSize = sf_Frsize a, fs_VolumeLabel = label\<rparr>)))"

definition GetFileSystemVolumeLabelInfo :: "nat \<Rightarrow> nat \<Rightarrow> ('d, u16 list) fop" where
  "GetFileSystemVolumeLabelInfo This BufferSize = with_file This (\<lambda>f.
     sbind (sget Label) (\<lambda>label. if BufferSize < StrSize16 label then sfail EFI_BUFFER_TOO_SMALL else sret label))"

text \<open>The type of information that a GUID names.\<close>

datatype info_type = FileInfoType | FileSystemInfoType | VolumeLabelType | OtherType

datatype file_information = FileInformation FILE_INFO | FileSystemInformation FILESYSTEM_INFO | VolumeLabelInformation "u16 list"

definition VirtioFsSimpleFileGetInfo :: "'d vf_env \<Rightarrow> nat \<Rightarrow> info_type \<Rightarrow> nat \<Rightarrow> ('d, file_information) fop" where
  "VirtioFsSimpleFileGetInfo E This InformationType BufferSize =
     (case InformationType of
        FileInfoType \<Rightarrow> sbind (GetFileInfo E This BufferSize) (\<lambda>i. sret (FileInformation i))
      | FileSystemInfoType \<Rightarrow> sbind (GetFileSystemInfo E This BufferSize) (\<lambda>i. sret (FileSystemInformation i))
      | VolumeLabelType \<Rightarrow> sbind (GetFileSystemVolumeLabelInfo This BufferSize) (\<lambda>l. sret (VolumeLabelInformation l))
      | OtherType \<Rightarrow> sfail EFI_UNSUPPORTED)"

section \<open>Structures of the caller\<close>

text \<open>The status, if all assertions and accesses are in order.\<close>

definition ValidateInfoStructure :: "nat \<Rightarrow> nat \<Rightarrow> bool \<Rightarrow> byte list \<Rightarrow> EFI_STATUS option" where
  "ValidateInfoStructure SizeByProtocolCaller MinimumStructSize IsSizeByInfoPresent Buffer =
     (if MinimumStructSize < 2 \<or> IsSizeByInfoPresent \<and> MinimumStructSize < 10 then None
      else let NameFieldByteOffset = MinimumStructSize - 2
      in if SizeByProtocolCaller < MinimumStructSize then Some EFI_BAD_BUFFER_SIZE
         else Option.bind (if IsSizeByInfoPresent then le_field Buffer 0 8 else Some SizeByProtocolCaller) (\<lambda>SizeByInfo.
           if SizeByInfo \<noteq> SizeByProtocolCaller then Some EFI_INVALID_PARAMETER
           else let NameFieldBytes = SizeByProtocolCaller - NameFieldByteOffset
             in if NameFieldBytes mod 2 \<noteq> 0 then Some EFI_INVALID_PARAMETER
                else Option.bind (le_field Buffer (NameFieldByteOffset + 2 * (NameFieldBytes div 2 - 1)) 2) (\<lambda>last_char.
                  Some (if last_char \<noteq> 0 then EFI_INVALID_PARAMETER else EFI_SUCCESS))))"

text \<open>A string up to its terminator.\<close>

fun string16 :: "byte list \<Rightarrow> u16 list option" where
  "string16 (a # b # r) = (if a = 0 \<and> b = 0 then Some [] else map_option ((#) (of_nat (le_value [a, b]))) (string16 r))"
| "string16 _ = None"

definition efi_time :: "byte list \<Rightarrow> EFI_TIME option" where
  "efi_time b =
     (if length b < 16 then None
      else let n = (\<lambda>off k. le_value (take k (drop off b)))
      in Some \<lparr>Year = n 0 2, Month = n 2 1, Day = n 3 1, Hour = n 4 1, Minute = n 5 1, Second = n 6 1, Pad1 = n 7 1,
           Nanosecond = n 8 4, TimeZone = (if n 12 2 < 2 ^ 15 then int (n 12 2) else int (n 12 2) - 2 ^ 16), Daylight = n 14 1, Pad2 = n 15 1\<rparr>)"

definition file_info_of :: "byte list \<Rightarrow> FILE_INFO option" where
  "file_info_of b =
     Option.bind (le_field b 0 8) (\<lambda>sz. Option.bind (le_field b 8 8) (\<lambda>fsz. Option.bind (le_field b 16 8) (\<lambda>psz.
     Option.bind (efi_time (drop 24 b)) (\<lambda>c. Option.bind (efi_time (drop 40 b)) (\<lambda>a. Option.bind (efi_time (drop 56 b)) (\<lambda>m.
     Option.bind (le_field b 72 8) (\<lambda>attr. map_option (\<lambda>name.
       \<lparr>fi_Size = sz, fi_FileSize = fsz, fi_PhysicalSize = psz, fi_CreateTime = c, fi_LastAccessTime = a, fi_ModificationTime = m,
        fi_Attribute = attr, fi_FileName = name\<rparr>) (string16 (drop offset_FileName b)))))))))"

section \<open>Renaming\<close>

text \<open>Whether a path is the given one or below it.\<close>

definition path_under :: "byte list \<Rightarrow> byte list \<Rightarrow> bool" where
  "path_under p q \<longleftrightarrow> take (length p) q = p \<and> (length q = length p \<or> q ! length p = slash)"

definition other_open_below :: "nat \<Rightarrow> byte list \<Rightarrow> 'd VIRTIO_FS \<Rightarrow> bool option" where
  "other_open_below This path fs =
     map_option (\<lambda>files. \<exists>(a, g) \<in> set (zip (OpenFiles fs) files). a \<noteq> This \<and> path_under path (CanonicalPathname g))
       (those (map (Objects fs) (OpenFiles fs)))"

definition rename_in_parents :: "'d vf_env \<Rightarrow> byte list \<Rightarrow> byte list \<Rightarrow> ('d, unit) fop" where
  "rename_in_parents E Source Destination =
     sbind (VirtioFsLookupMostSpecificParentDir E Source) (\<lambda>(OldParentDirNodeId, OldLastComponent).
     finally_do (sbind (VirtioFsLookupMostSpecificParentDir E Destination) (\<lambda>(NewParentDirNodeId, NewLastComponent).
         finally_do (VirtioFsFuseRename (Transport E) OldParentDirNodeId OldLastComponent NewParentDirNodeId NewLastComponent)
           (forget_unless_root E NewParentDirNodeId)))
       (forget_unless_root E OldParentDirNodeId))"

definition Rename :: "'d vf_env \<Rightarrow> nat \<Rightarrow> u16 list \<Rightarrow> ('d, unit) fop" where
  "Rename E This NewFileName = with_file This (\<lambda>f.
     if CanonicalPathname f = [slash] then (if NewFileName = [] then sret () else sfail EFI_ACCESS_DENIED)
     else sbind (sload (VirtioFsComposeRenameDestination (path_alloc E) (CanonicalPathname f) NewFileName)) (\<lambda>(Status, res).
       if Status \<noteq> EFI_SUCCESS then sfail Status
       else sbind (sload res) (\<lambda>(Destination, RootEscape).
         if RootEscape then sfail EFI_NOT_FOUND
         else if CanonicalPathname f = Destination then sret ()
         else sbind (if IsDirectory f then sbind (sget (other_open_below This (CanonicalPathname f))) sload else sret False) (\<lambda>busy.
           if busy then sfail EFI_ACCESS_DENIED
           else if \<not> IsOpenForWriting f then sfail EFI_ACCESS_DENIED
           else sthen (rename_in_parents E (CanonicalPathname f) Destination)
             (smod (update_file This (\<lambda>f. f\<lparr>CanonicalPathname := Destination\<rparr>)))))))"

section \<open>Attributes\<close>

definition UpdateAttributes :: "'d vf_env \<Rightarrow> nat \<Rightarrow> FILE_INFO \<Rightarrow> ('d, unit) fop" where
  "UpdateAttributes E This NewFileInfo = with_file This (\<lambda>f.
     sbind (VirtioFsFuseGetAttr (Transport E) (NodeId f)) (\<lambda>FuseAttr.
     sbind (of_result (VirtioFsFuseAttrToEfiFileInfo E FuseAttr blank_info)) (\<lambda>FileInfo.
     let Sz = (if IsDirectory f then None else VirtioFsGetFuseSizeUpdate FileInfo NewFileInfo)
     in sbind (of_result (VirtioFsGetFuseTimeUpdates E FileInfo NewFileInfo)) (\<lambda>(Atime, Mtime).
        sbind (of_result (VirtioFsGetFuseModeUpdate FileInfo NewFileInfo)) (\<lambda>Mode.
        if Sz = None \<and> Atime = None \<and> Mtime = None \<and> Mode = None then sret ()
        else if \<not> IsOpenForWriting f \<and> (Sz \<noteq> None \<or> Atime \<noteq> None \<or> Mtime \<noteq> None) then sfail EFI_ACCESS_DENIED
        else VirtioFsFuseSetAttr (Transport E) (NodeId f) Sz Atime Mtime Mode)))))"

definition of_status :: "EFI_STATUS \<Rightarrow> ('d, unit) fop" where
  "of_status st = (if st = EFI_SUCCESS then sret () else sfail st)"

definition SetFileInfo :: "'d vf_env \<Rightarrow> nat \<Rightarrow> byte list \<Rightarrow> ('d, unit) fop" where
  "SetFileInfo E This Buffer =
     sbind (sload (ValidateInfoStructure (length Buffer) (offset_FileName + 2) True Buffer)) (\<lambda>st.
     sthen (of_status st)
     (sbind (sload (file_info_of Buffer)) (\<lambda>FileInfo.
      sthen (Rename E This (fi_FileName FileInfo)) (UpdateAttributes E This FileInfo))))"

text \<open>The label can be set to what it is.\<close>

definition set_label :: "nat \<Rightarrow> bool \<Rightarrow> byte list \<Rightarrow> ('d, unit) fop" where
  "set_label off with_size Buffer =
     sbind (sload (ValidateInfoStructure (length Buffer) (off + 2) with_size Buffer)) (\<lambda>st.
     sthen (of_status st)
     (sbind (sload (string16 (drop off Buffer))) (\<lambda>new.
      sbind (sget Label) (\<lambda>label. if new = label then sret () else sfail EFI_WRITE_PROTECTED))))"

definition SetFileSystemInfo :: "byte list \<Rightarrow> ('d, unit) fop" where
  "SetFileSystemInfo Buffer = set_label offset_VolumeLabel True Buffer"

definition SetFileSystemVolumeLabelInfo :: "byte list \<Rightarrow> ('d, unit) fop" where
  "SetFileSystemVolumeLabelInfo Buffer = set_label 0 False Buffer"

definition VirtioFsSimpleFileSetInfo :: "'d vf_env \<Rightarrow> nat \<Rightarrow> info_type \<Rightarrow> byte list \<Rightarrow> ('d, unit) fop" where
  "VirtioFsSimpleFileSetInfo E This InformationType Buffer =
     (case InformationType of
        FileInfoType \<Rightarrow> SetFileInfo E This Buffer
      | FileSystemInfoType \<Rightarrow> with_file This (\<lambda>_. SetFileSystemInfo Buffer)
      | VolumeLabelType \<Rightarrow> with_file This (\<lambda>_. SetFileSystemVolumeLabelInfo Buffer)
      | OtherType \<Rightarrow> sfail EFI_UNSUPPORTED)"

end
