(* ===== verification/VirtioFsPathProps.thy ===== *)
theory VirtioFsPathProps
  imports VirtioFsPath
begin

text \<open>
  The state machine computes the canonical path: the components of the concatenation,
  resolved from left to right on a stack, where a dot-dot at the root is dropped and reported.
\<close>

section \<open>Reference\<close>

text \<open>The components of a string, and their effect on the components of a directory.\<close>

fun split_slash :: "byte list \<Rightarrow> byte list list" where
  "split_slash [] = [[]]"
| "split_slash (c # cs) = (if c = slash then [] # split_slash cs
     else (case split_slash cs of [] \<Rightarrow> [[c]] | p # ps \<Rightarrow> (c # p) # ps))"

definition resolve1 :: "byte list \<Rightarrow> byte list list \<times> bool \<Rightarrow> byte list list \<times> bool" where
  "resolve1 p d = (if p = [] \<or> p = [dot] then d
     else if p = [dot, dot] then (if fst d = [] then (fst d, True) else (butlast (fst d), snd d))
     else (fst d @ [p], snd d))"

definition resolve :: "byte list list \<Rightarrow> byte list list \<times> bool \<Rightarrow> byte list list \<times> bool" where
  "resolve ps d = fold resolve1 ps d"

definition canonical :: "byte list list \<Rightarrow> byte list" where
  "canonical ps = (if ps = [] then [slash] else concat (map (\<lambda>p. slash # p) ps))"

definition comp_ok :: "byte list \<Rightarrow> bool" where
  "comp_ok p \<longleftrightarrow> p \<noteq> [] \<and> p \<noteq> [dot] \<and> p \<noteq> [dot, dot] \<and> slash \<notin> set p \<and> 0 \<notin> set p"

section \<open>The state machine\<close>

text \<open>What is written for a directory, with its final slash, and the state for a started component.\<close>

definition dir_out :: "byte list list \<Rightarrow> byte list" where
  "dir_out ps = slash # concat (map (\<lambda>p. p @ [slash]) ps)"

definition state_of :: "byte list \<Rightarrow> PARSER_STATE" where
  "state_of p = (if p = [] then ParserSlash else if p = [dot] then ParserDot else if p = [dot, dot] then ParserDotDot else ParserNormal)"

definition parser_at :: "nat \<Rightarrow> nat \<Rightarrow> byte list list \<times> bool \<Rightarrow> byte list \<Rightarrow> parser \<Rightarrow> bool" where
  "parser_at Size n d p s \<longleftrightarrow> ps_State s = state_of p \<and> ps_RootEscape s = snd d \<and> length (ps_Buffer s) = Size \<and>
     ps_Position s \<le> n \<and> ps_Position s = length (dir_out (fst d) @ p) \<and> take (ps_Position s) (ps_Buffer s) = dir_out (fst d) @ p \<and>
     (\<forall>q \<in> set (fst d). comp_ok q) \<and> slash \<notin> set p \<and> 0 \<notin> set p"

lemma dir_out_snoc: "dir_out (ps @ [p]) = dir_out ps @ p @ [slash]"
  by (simp add: dir_out_def)

lemma dir_out_simps [simp]: "dir_out [] = [slash]" "dir_out ps \<noteq> []" "last (dir_out ps) = slash"
  by (auto simp: dir_out_def concat_eq_Nil_conv intro: rev_induct [of _ ps]) (induction ps rule: rev_induct, auto)

lemma dir_out_canonical: "ps \<noteq> [] \<Longrightarrow> dir_out ps = canonical ps @ [slash]"
proof (induction ps rule: rev_induct)
  case (snoc p ps)
  then show ?case by (cases "ps = []") (auto simp: dir_out_snoc canonical_def dir_out_def)
qed simp

lemma canonical_snoc: "dir_out ps @ p = canonical (ps @ [p])" 
  by (cases "ps = []") (auto simp: dir_out_canonical, simp_all add: canonical_def)

lemma load8_take: "i < n \<Longrightarrow> n \<le> length b \<Longrightarrow> load8 b i = Some (take n b ! i)"
  by (simp add: load8_def)

text \<open>Copying a character.\<close>

lemma copy_out:
  assumes "length (ps_Buffer s) = Size" and "ps_Position s < Size" and "take (ps_Position s) (ps_Buffer s) = out"
  shows "\<exists>b. parser_copy Size c st s = Some (s\<lparr>ps_Buffer := b, ps_Position := ps_Position s + 1, ps_State := st\<rparr>) \<and>
    length b = Size \<and> take (ps_Position s + 1) b = out @ [c]"
proof -
  define b where "b = take (ps_Position s) (ps_Buffer s) @ [c] @ drop (ps_Position s + 1) (ps_Buffer s)"
  have "parser_copy Size c st s = Some (s\<lparr>ps_Buffer := b, ps_Position := ps_Position s + 1, ps_State := st\<rparr>)"
    using assms by (simp add: parser_copy_def ParserCopy_def store_bytes_def b_def)
  moreover have len: "length out = ps_Position s" using assms by auto
  then have "take (ps_Position s + 1) b = out @ [c]" using assms by (simp add: b_def)
  moreover have "length b = Size" using assms len by (auto simp: b_def)
  ultimately show ?thesis by blast
qed

lemma step_char:
  assumes at: "parser_at Size n d p s" and n: "n < Size" and c: "c \<noteq> 0" "c \<noteq> slash"
  shows "\<exists>s'. parser_step Size c s = Some s' \<and> parser_at Size (n + 1) d (p @ [c]) s'"
proof -
  have "parser_step Size c s = parser_copy Size c (state_of (p @ [c])) s"
    using at c by (auto simp: parser_step_def parser_at_def state_of_def append_eq_Cons_conv)
  moreover obtain b where "parser_copy Size c (state_of (p @ [c])) s =
      Some (s\<lparr>ps_Buffer := b, ps_Position := ps_Position s + 1, ps_State := state_of (p @ [c])\<rparr>)"
    "length b = Size" "take (ps_Position s + 1) b = (dir_out (fst d) @ p) @ [c]"
    using copy_out [of s Size "dir_out (fst d) @ p" c "state_of (p @ [c])"] at n by (auto simp: parser_at_def)
  ultimately show ?thesis using at c by (auto simp: parser_at_def)
qed

text \<open>Moving the position back.\<close>

lemma out_nth: "take n b = out \<Longrightarrow> n \<le> length b \<Longrightarrow> i < n \<Longrightarrow> load8 b i = Some (out ! i)"
  by (auto simp: load8_def)

lemma out_last: "take n b = xs @ [y] \<Longrightarrow> n \<le> length b \<Longrightarrow> load8 b (n - 1) = Some y \<and> n = length xs + 1"
  by (metis One_nat_def add_Suc_right add.right_neutral diff_Suc_1 length_append_singleton length_take lessI min_absorb2 nth_append_length out_nth)

lemma rewind_scan_out:
  assumes "take n b = xs @ [slash] @ p" and "n \<le> length b" and "slash \<notin> set p"
  shows "rewind_scan b n = Some (length xs)"
  using assms
proof (induction p arbitrary: n rule: rev_induct)
  case Nil
  then have "load8 b (n - 1) = Some slash" "n = length xs + 1" using out_last [of n b xs slash] by auto
  then show ?case by simp
next
  case (snoc c p)
  have l: "load8 b (n - 1) = Some c" "n = length (xs @ [slash] @ p) + 1" using out_last [of n b "xs @ [slash] @ p" c] snoc.prems by auto
  have "take (n - 1) b = xs @ [slash] @ p" using snoc.prems(1,2) l(2) by (metis append_assoc butlast_snoc butlast_take)
  then have "rewind_scan b (n - 1) = Some (length xs)" using snoc by simp
  with l snoc.prems(3) show ?case by simp
qed

lemma dir_out_split: "\<exists>xs. dir_out ps = xs @ [slash]"
  using append_butlast_last_id [of "dir_out ps"] by (metis dir_out_simps(2,3))

lemma take_shorter: "take n b = xs @ ys \<Longrightarrow> n \<le> length b \<Longrightarrow> take (length xs) b = xs \<and> n = length xs + length ys"
  by (metis append_eq_conv_conj length_append length_take min_absorb2 take_take min.absorb1 le_add1)

lemma rewind_dot_at:
  assumes at: "parser_at Size n d [dot] s" and n: "n \<le> Size"
  shows "\<exists>s'. parser_rewind_dot s = Some s' \<and> parser_at Size n d [] (s'\<lparr>ps_State := ParserSlash\<rparr>) \<and> ps_Position s' = ps_Position s - 1"
proof -
  obtain xs where xs: "dir_out (fst d) = xs @ [slash]" using dir_out_split by blast
  have o: "take (ps_Position s) (ps_Buffer s) = (xs @ [slash]) @ [dot]" "ps_Position s \<le> length (ps_Buffer s)"
    using at n xs by (auto simp: parser_at_def)
  have l: "load8 (ps_Buffer s) (ps_Position s - 1) = Some dot" "ps_Position s = length xs + 2"
    using conjunct1 [OF out_last [OF o]] conjunct2 [OF out_last [OF o]] by simp_all
  have t: "take (ps_Position s - 1) (ps_Buffer s) = xs @ [slash]" using take_shorter [OF o] l by auto
  have l2: "load8 (ps_Buffer s) (ps_Position s - 2) = Some slash" using out_last [OF t] o(2) by (auto simp: numeral_2_eq_2)
  have "parser_rewind_dot s = Some (s\<lparr>ps_Position := ps_Position s - 1\<rparr>)"
    unfolding parser_rewind_dot_def ParserRewindDot_def l(1) l2 using l(2) by simp
  moreover have "parser_at Size n d [] (s\<lparr>ps_Position := ps_Position s - 1, ps_State := ParserSlash\<rparr>)"
    using at t l xs by (auto simp: parser_at_def state_of_def)
  ultimately show ?thesis by simp
qed

lemma rewind_dotdot_at:
  assumes at: "parser_at Size n d [dot, dot] s" and n: "n \<le> Size"
  shows "\<exists>s'. parser_rewind_dotdot s = Some s' \<and> parser_at Size n (resolve1 [dot, dot] d) [] (s'\<lparr>ps_State := ParserSlash\<rparr>) \<and>
    ps_Position s' < ps_Position s"
proof -
  obtain xs where xs: "dir_out (fst d) = xs @ [slash]" using dir_out_split by blast
  let ?b = "ps_Buffer s" and ?n = "ps_Position s"
  have o: "take ?n ?b = (xs @ [slash, dot]) @ [dot]" "?n \<le> length ?b" using at n xs by (auto simp: parser_at_def)
  have l1: "load8 ?b (?n - 1) = Some dot" and len: "?n = length xs + 3"
    using conjunct1 [OF out_last [OF o]] conjunct2 [OF out_last [OF o]] by simp_all
  have t1: "take (?n - 1) ?b = (xs @ [slash]) @ [dot]" using take_shorter [OF o] len by auto
  have l2: "load8 ?b (?n - 2) = Some dot" using out_last [OF t1] o(2) by (auto simp: numeral_2_eq_2)
  have t2: "take (?n - 2) ?b = xs @ [slash]" using take_shorter [OF t1] o(2) len by (auto simp: numeral_2_eq_2)
  have l3: "load8 ?b (?n - 3) = Some slash" using out_last [OF t2] o(2) by (auto simp: numeral_3_eq_3)
  have r: "parser_rewind_dotdot s = map_option (\<lambda>(p, e). s\<lparr>ps_Position := p, ps_RootEscape := e\<rparr>)
      (let p = ?n - 2 in if p = 1 then Some (p, True) else map_option (\<lambda>q. (q + 1, ps_RootEscape s)) (rewind_scan ?b (p - 1)))"
    unfolding parser_rewind_dotdot_def ParserRewindDotDot_def l1 l2 l3 using len by simp
  show ?thesis
  proof (cases "fst d" rule: rev_cases)
    case Nil
    with xs have "xs = []" by simp
    with len r have "parser_rewind_dotdot s = Some (s\<lparr>ps_Position := 1, ps_RootEscape := True\<rparr>)"
      by simp
    moreover have "parser_at Size n (resolve1 [dot, dot] d) [] (s\<lparr>ps_Position := 1, ps_RootEscape := True, ps_State := ParserSlash\<rparr>)"
      using at Nil t2 len \<open>xs = []\<close> by (auto simp: parser_at_def state_of_def resolve1_def)
    ultimately show ?thesis using len by simp
  next
    case (snoc qs q)
    obtain ys where ys: "dir_out qs = ys @ [slash]" using dir_out_split by blast
    from xs snoc ys have xs': "xs = ys @ [slash] @ q" by (simp add: dir_out_snoc)
    have t3: "take (?n - 3) ?b = ys @ [slash] @ q" using take_shorter [OF t2] len o(2) xs' by simp
    have "slash \<notin> set q" using at snoc by (simp add: parser_at_def comp_ok_def)
    then have "rewind_scan ?b (?n - 3) = Some (length ys)" using rewind_scan_out [OF t3] o(2) by simp
    moreover have "?n - 2 \<noteq> 1" "?n - 2 - 1 = ?n - 3" using len xs' by simp_all
    ultimately have r': "parser_rewind_dotdot s = Some (s\<lparr>ps_Position := length ys + 1, ps_RootEscape := ps_RootEscape s\<rparr>)"
      using r by (simp add: Let_def)
    have "take (length ys + 1) ?b = ys @ [slash]" using take_shorter [of "?n - 3" ?b "ys @ [slash]" q] t3 o(2) by simp
    moreover have "resolve1 [dot, dot] d = (qs, snd d)" using snoc by (simp add: resolve1_def)
    ultimately have "parser_at Size n (resolve1 [dot, dot] d) [] (s\<lparr>ps_Position := length ys + 1, ps_State := ParserSlash\<rparr>)"
      using at snoc ys len xs' by (auto simp: parser_at_def state_of_def)
    with r' len xs' show ?thesis by simp
  qed
qed


lemma parser_at_mono: "parser_at Size n d p s \<Longrightarrow> n \<le> m \<Longrightarrow> parser_at Size m d p s"
  by (auto simp: parser_at_def)

text \<open>A slash ends a component.\<close>

lemma step_slash:
  assumes at: "parser_at Size n d p s" and n: "n < Size"
  shows "\<exists>s'. parser_step Size slash s = Some s' \<and> parser_at Size (n + 1) (resolve1 p d) [] s'"
proof -
  consider "p = []" | "p = [dot]" | "p = [dot, dot]" | "comp_ok p" "state_of p = ParserNormal"
    using at by (auto simp: comp_ok_def parser_at_def state_of_def)
  then show ?thesis
  proof cases
    case 1
    with at show ?thesis by (auto simp: parser_step_def parser_at_def state_of_def resolve1_def)
  next
    case 2
    with at have "parser_step Size slash s = map_option (\<lambda>s1. s1\<lparr>ps_State := ParserSlash\<rparr>) (parser_rewind_dot s)"
      by (simp add: parser_step_def parser_at_def state_of_def)
    moreover obtain s1 where "parser_rewind_dot s = Some s1" "parser_at Size n d [] (s1\<lparr>ps_State := ParserSlash\<rparr>)"
      using rewind_dot_at [of Size n d s] at n 2 by auto
    moreover from this have "parser_at Size (n + 1) d [] (s1\<lparr>ps_State := ParserSlash\<rparr>)" by (simp add: parser_at_mono)
    ultimately show ?thesis using 2 by (simp add: resolve1_def)
  next
    case 3
    with at have "parser_step Size slash s = map_option (\<lambda>s1. s1\<lparr>ps_State := ParserSlash\<rparr>) (parser_rewind_dotdot s)"
      by (simp add: parser_step_def parser_at_def state_of_def)
    moreover obtain s1 where "parser_rewind_dotdot s = Some s1" "parser_at Size n (resolve1 p d) [] (s1\<lparr>ps_State := ParserSlash\<rparr>)"
      using rewind_dotdot_at [of Size n d s] at n 3 by auto
    moreover from this have "parser_at Size (n + 1) (resolve1 p d) [] (s1\<lparr>ps_State := ParserSlash\<rparr>)" by (simp add: parser_at_mono)
    ultimately show ?thesis by simp
  next
    case 4
    then have "parser_step Size slash s = parser_copy Size slash ParserSlash s" using at by (simp add: parser_step_def parser_at_def)
    moreover obtain b where "parser_copy Size slash ParserSlash s =
        Some (s\<lparr>ps_Buffer := b, ps_Position := ps_Position s + 1, ps_State := ParserSlash\<rparr>)"
      "length b = Size" "take (ps_Position s + 1) b = (dir_out (fst d) @ p) @ [slash]"
      using copy_out [of s Size "dir_out (fst d) @ p" slash ParserSlash] at n by (auto simp: parser_at_def)
    moreover have "resolve1 p d = (fst d @ [p], snd d)" using 4 by (simp add: resolve1_def comp_ok_def)
    ultimately show ?thesis using at 4 by (auto simp: parser_at_def dir_out_snoc state_of_def)
  qed
qed

text \<open>The end of the string writes the terminator behind the canonical path.\<close>

definition parser_done :: "byte list list \<times> bool \<Rightarrow> parser \<Rightarrow> bool" where
  "parser_done d s \<longleftrightarrow> ps_State s = ParserEnd \<and> ps_RootEscape s = snd d \<and> ps_Position s = length (canonical (fst d)) + 1 \<and>
     take (ps_Position s - 1) (ps_Buffer s) = canonical (fst d)"

lemma copy_done:
  assumes "length (ps_Buffer s) = Size" and "ps_Position s < Size" and "take (ps_Position s) (ps_Buffer s) = canonical (fst d)"
    and "ps_RootEscape s = snd d"
  shows "\<exists>s'. parser_copy Size c ParserEnd s = Some s' \<and> parser_done d s'"
proof -
  obtain b where b: "parser_copy Size c ParserEnd s = Some (s\<lparr>ps_Buffer := b, ps_Position := ps_Position s + 1, ps_State := ParserEnd\<rparr>)"
    "length b = Size" "take (ps_Position s + 1) b = canonical (fst d) @ [c]"
    using copy_out [OF assms(1-3)] by blast
  moreover have "length (canonical (fst d)) = ps_Position s" using assms(1,2) by (simp flip: assms(3))
  moreover from this b have "take (ps_Position s) b = canonical (fst d)" using take_shorter [OF b(3)] assms(2) by simp
  ultimately show ?thesis using assms(4) by (simp add: parser_done_def)
qed

lemma strip_done:
  assumes at: "parser_at Size n d [] (s\<lparr>ps_State := st\<rparr>)" and n: "n < Size"
  shows "\<exists>s'. Option.bind (parser_strip s) (parser_copy Size c ParserEnd) = Some s' \<and> parser_done d s'"
proof -
  let ?n = "ps_Position s" and ?b = "ps_Buffer s"
  obtain xs where xs: "dir_out (fst d) = xs @ [slash]" using dir_out_split by blast
  have o: "take ?n ?b = xs @ [slash]" "?n \<le> length ?b" using at n xs by (auto simp: parser_at_def)
  have l: "load8 ?b (?n - 1) = Some slash" and len: "?n = length xs + 1"
    using conjunct1 [OF out_last [OF o]] conjunct2 [OF out_last [OF o]] by simp_all
  define m where "m = (if ?n = 1 then ?n else ?n - 1)"
  have strip: "parser_strip s = Some (s\<lparr>ps_Position := m\<rparr>)"
    unfolding parser_strip_def ParserStripSlash_def l m_def using len by simp
  have "take m ?b = canonical (fst d)"
  proof (cases "fst d = []")
    case True
    then show ?thesis using o xs len by (simp add: m_def canonical_def)
  next
    case False
    then have "xs = canonical (fst d)" using xs by (simp add: dir_out_canonical)
    moreover have "xs \<noteq> []" using False calculation by (cases "fst d") (auto simp: canonical_def)
    ultimately show ?thesis using take_shorter [OF o] len by (simp add: m_def)
  qed
  then show ?thesis using copy_done [of "s\<lparr>ps_Position := m\<rparr>" Size d c] at n strip by (auto simp: parser_at_def m_def)
qed

lemma step_nul:
  assumes at: "parser_at Size n d p s" and n: "n < Size"
  shows "\<exists>s'. parser_step Size 0 s = Some s' \<and> parser_done (resolve1 p d) s'"
proof -
  consider "p = []" | "p = [dot]" | "p = [dot, dot]" | "comp_ok p" "state_of p = ParserNormal"
    using at by (auto simp: comp_ok_def parser_at_def state_of_def)
  then show ?thesis
  proof cases
    case 1
    with at show ?thesis using strip_done [of Size n d ParserSlash s 0] n
      by (auto simp: parser_step_def parser_at_def state_of_def resolve1_def)
  next
    case 2
    then obtain s1 where "parser_rewind_dot s = Some s1" "parser_at Size n d [] (s1\<lparr>ps_State := ParserSlash\<rparr>)"
      using rewind_dot_at [of Size n d s] at n by auto
    with 2 at n show ?thesis using strip_done [of Size n d ParserSlash s1 0]
      by (auto simp: parser_step_def parser_at_def state_of_def resolve1_def)
  next
    case 3
    then obtain s1 where "parser_rewind_dotdot s = Some s1" "parser_at Size n (resolve1 p d) [] (s1\<lparr>ps_State := ParserSlash\<rparr>)"
      using rewind_dotdot_at [of Size n d s] at n by auto
    moreover have "parser_step Size 0 s =
        Option.bind (parser_rewind_dotdot s) (\<lambda>s1. Option.bind (parser_strip s1) (parser_copy Size 0 ParserEnd))"
      using at 3 by (simp add: parser_step_def parser_at_def state_of_def)
    ultimately show ?thesis using strip_done n by fastforce
  next
    case 4
    then have "parser_step Size 0 s = parser_copy Size 0 ParserEnd s" using at by (simp add: parser_step_def parser_at_def)
    moreover have "resolve1 p d = (fst d @ [p], snd d)" using 4 by (simp add: resolve1_def comp_ok_def)
    ultimately show ?thesis using copy_done [of s Size "resolve1 p d" 0] at n
      by (auto simp: parser_at_def canonical_snoc)
  qed
qed

section \<open>The loop\<close>

definition glue :: "byte list \<Rightarrow> byte list list \<Rightarrow> byte list list" where
  "glue p ps = (p @ hd ps) # tl ps"

lemma split_slash_nonempty [simp]: "split_slash cs \<noteq> []"
  by (cases cs) (auto split: list.split)

lemma split_slash_char: "c \<noteq> slash \<Longrightarrow> split_slash (c # cs) = (c # hd (split_slash cs)) # tl (split_slash cs)"
  by (cases "split_slash cs") simp_all

lemma resolve_simps: "resolve (p # ps) d = resolve ps (resolve1 p d)" "resolve [] d = d"
  "resolve (ps @ qs) d = resolve qs (resolve ps d)"
  by (simp_all add: resolve_def)

lemma parser_loop_resolves:
  assumes "parser_at Size n d p s" and "n + length cs < Size" and "0 \<notin> set cs"
  shows "\<exists>s'. parser_loop Size (cs @ [0]) s = Some s' \<and> parser_done (resolve (glue p (split_slash cs)) d) s'"
  using assms
proof (induction cs arbitrary: n d p s)
  case Nil
  then show ?case using step_nul [of Size n d p s] by (auto simp: glue_def resolve_simps parser_done_def)
next
  case (Cons c cs)
  have st: "state_of q \<noteq> ParserEnd" for q by (simp add: state_of_def)
  show ?case
  proof (cases "c = slash")
    case True
    then obtain s1 where s1: "parser_step Size c s = Some s1" "parser_at Size (n + 1) (resolve1 p d) [] s1"
      using step_slash [of Size n d p s] Cons.prems by auto
    moreover have "ps_State s1 \<noteq> ParserEnd" using s1(2) st by (simp add: parser_at_def)
    moreover have "glue p (split_slash (c # cs)) = p # glue [] (split_slash cs)" using True by (simp add: glue_def)
    ultimately show ?thesis using Cons.IH [OF s1(2)] Cons.prems by (simp add: resolve_simps)
  next
    case False
    then obtain s1 where s1: "parser_step Size c s = Some s1" "parser_at Size (n + 1) d (p @ [c]) s1"
      using step_char [of Size n d p s c] Cons.prems by auto
    moreover have "ps_State s1 \<noteq> ParserEnd" using s1(2) st by (simp add: parser_at_def)
    moreover have "glue p (split_slash (c # cs)) = glue (p @ [c]) (split_slash cs)"
      using False by (simp add: glue_def split_slash_char del: split_slash.simps)
    ultimately show ?thesis using Cons.IH [OF s1(2)] Cons.prems by simp
  qed
qed

section \<open>Appending a path\<close>

text \<open>The characters of a UEFI path, and the components it names.\<close>

definition char_ok :: "u16 \<Rightarrow> bool" where
  "char_ok w \<longleftrightarrow> \<not> (w < 0x20 \<or> 0x7E < w \<or> w = 0x2F)"

definition char8 :: "u16 \<Rightarrow> byte" where
  "char8 w = ucast (if w = 0x5C then 0x2F else w)"

definition components :: "u16 list \<Rightarrow> byte list list" where
  "components ws = split_slash (map char8 ws)"

lemma transliterate_char8: "transliterate ws = (if list_all char_ok ws then Some (map char8 ws) else None)"
  by (induction ws) (auto simp: char_ok_def char8_def)

lemma char8_neq_0: "char_ok w \<Longrightarrow> char8 w \<noteq> 0"
  by (auto simp: char_ok_def char8_def word_less_nat_alt word_unat_eq_iff unsigned_ucast_eq take_bit_eq_mod)

lemma char8_slash: "char_ok w \<Longrightarrow> char8 w = slash \<longleftrightarrow> w = 0x5C"
  by (auto simp: char_ok_def char8_def word_less_nat_alt word_unat_eq_iff unsigned_ucast_eq take_bit_eq_mod)

lemma map_char8_no_0: "list_all char_ok ws \<Longrightarrow> 0 \<notin> set (map char8 ws)"
  by (auto simp: list_all_iff) (metis char8_neq_0)

lemma split_slash_append: "slash \<notin> set p \<Longrightarrow> split_slash (p @ slash # cs) = p # split_slash cs"
  by (induction p) auto

lemma split_slash_canonical: "\<forall>q \<in> set ps. slash \<notin> set q \<Longrightarrow>
    split_slash (concat (map (\<lambda>p. slash # p) ps) @ slash # cs) = [] # ps @ split_slash cs"
proof (induction ps)
  case (Cons p ps)
  obtain r where "concat (map (\<lambda>p. slash # p) ps) @ slash # cs = slash # r" by (cases ps) auto
  moreover from this have "split_slash r = ps @ split_slash cs" using Cons by simp
  ultimately show ?case using Cons.prems by (simp add: split_slash_append)
qed simp

lemma resolve_ok_append: "\<forall>q \<in> set ps. comp_ok q \<Longrightarrow> resolve ps d = (fst d @ ps, snd d)"
  by (induction ps arbitrary: d) (auto simp: resolve_simps resolve1_def comp_ok_def)

text \<open>The naive concatenation resolves like the right side from the directory on the left.\<close>

lemma resolve_concatenation:
  assumes "\<forall>q \<in> set ps. comp_ok q"
  shows "resolve (split_slash (canonical ps @ slash # cs)) ([], False) = resolve (split_slash cs) (ps, False)"
proof -
  have ns: "\<forall>q \<in> set ps. slash \<notin> set q" using assms by (auto simp: comp_ok_def)
  have "resolve (split_slash (canonical ps @ slash # cs)) ([], False) = resolve (ps @ split_slash cs) ([], False)"
    using split_slash_canonical [OF ns, of cs] by (cases "ps = []") (simp_all add: canonical_def resolve_simps resolve1_def)
  then show ?thesis using resolve_ok_append [OF assms, of "([], False)"] by (simp add: resolve_simps)
qed

lemma canonical_length: "1 \<le> length (canonical ps)"
  by (cases ps) (simp_all add: canonical_def)

lemma parser_loop_canonical:
  assumes "0 \<notin> set cs" and "length b = length cs + 2"
  shows "\<exists>s'. parser_loop (length cs + 2) (slash # cs @ [0])
      \<lparr>ps_State = ParserInit, ps_Buffer = b, ps_Position = 0, ps_RootEscape = False\<rparr> = Some s' \<and>
    parser_done (resolve (split_slash cs) ([], False)) s'"
proof -
  let ?s = "\<lparr>ps_State = ParserInit, ps_Buffer = b, ps_Position = 0, ps_RootEscape = False\<rparr>" and ?N = "length cs + 2"
  obtain b' where b': "parser_copy ?N slash ParserSlash ?s = Some (?s\<lparr>ps_Buffer := b', ps_Position := 1, ps_State := ParserSlash\<rparr>)"
    "length b' = ?N" "take 1 b' = [slash]" using copy_out [of ?s ?N "[]" slash ParserSlash] assms(2) by auto
  let ?s1 = "?s\<lparr>ps_Buffer := b', ps_Position := 1, ps_State := ParserSlash\<rparr>"
  have "parser_at ?N 1 ([], False) [] ?s1" using b' by (simp add: parser_at_def state_of_def)
  from parser_loop_resolves [OF this, of cs] assms obtain s' where
    "parser_loop ?N (cs @ [0]) ?s1 = Some s'" "parser_done (resolve (glue [] (split_slash cs)) ([], False)) s'" by auto
  moreover have "glue [] (split_slash cs) = split_slash cs" by (simp add: glue_def)
  moreover have "parser_step ?N slash ?s = Some ?s1" using b'(1) by (simp add: parser_step_def)
  ultimately show ?thesis by simp
qed

text \<open>A block has the size that was asked for.\<close>

definition block_alloc :: "(nat \<Rightarrow> nat \<Rightarrow> byte list option) \<Rightarrow> bool" where
  "block_alloc alloc \<longleftrightarrow> (\<forall>i n b. alloc i n = Some b \<longrightarrow> length b = n)"

lemma block_allocD: "block_alloc alloc \<Longrightarrow> alloc i n = Some b \<Longrightarrow> length b = n"
  by (simp add: block_alloc_def)

definition append_result :: "byte list list \<times> bool \<Rightarrow> EFI_STATUS \<times> (byte list \<times> bool) option" where
  "append_result d = (if VIRTIO_FS_MAX_PATHNAME_LENGTH < length (canonical (fst d)) then (EFI_OUT_OF_RESOURCES, None)
     else (EFI_SUCCESS, Some (canonical (fst d), snd d)))"

lemma sanitize_done:
  assumes "parser_done d s"
  shows "(if ps_Position s < 2 then None
      else if VIRTIO_FS_MAX_PATHNAME_LENGTH < ps_Position s - 1 then Some (EFI_OUT_OF_RESOURCES, None)
      else Some (EFI_SUCCESS, Some (take (ps_Position s - 1) (ps_Buffer s), ps_RootEscape s))) = Some (append_result d)"
  using assms canonical_length [of "fst d"] by (auto simp: parser_done_def append_result_def)

text \<open>The buffer after the loop, for a relative and for an absolute right side.\<close>

definition sanitize :: "byte list \<Rightarrow> byte list \<Rightarrow> (EFI_STATUS \<times> (byte list \<times> bool) option) option" where
  "sanitize cs b = Option.bind (parser_loop (length cs + 1) (cs @ [0])
       \<lparr>ps_State = ParserInit, ps_Buffer = b, ps_Position = 0, ps_RootEscape = False\<rparr>) (\<lambda>s.
     if ps_Position s < 2 then None
     else if VIRTIO_FS_MAX_PATHNAME_LENGTH < ps_Position s - 1 then Some (EFI_OUT_OF_RESOURCES, None)
     else Some (EFI_SUCCESS, Some (take (ps_Position s - 1) (ps_Buffer s), ps_RootEscape s)))"

lemma sanitize_resolves:
  assumes "0 \<notin> set cs" and "length b = length cs + 2"
  shows "sanitize (slash # cs) b = Some (append_result (resolve (split_slash cs) ([], False)))"
proof -
  obtain s where s: "parser_loop (length cs + 2) (slash # cs @ [0])
      \<lparr>ps_State = ParserInit, ps_Buffer = b, ps_Position = 0, ps_RootEscape = False\<rparr> = Some s"
    "parser_done (resolve (split_slash cs) ([], False)) s" using parser_loop_canonical [OF assms] by blast
  show ?thesis using s(1) sanitize_done [OF s(2)] by (simp add: sanitize_def del: parser_loop.simps)
qed

lemma sanitize_relative:
  assumes ps: "\<forall>q \<in> set ps. comp_ok q" and "list_all char_ok Rhs" and "length b = length (canonical ps) + 1 + length Rhs + 1"
  shows "sanitize (canonical ps @ [slash] @ map char8 Rhs) b = Some (append_result (resolve (components Rhs) (ps, False)))"
proof -
  obtain cs where cs: "canonical ps = slash # cs" by (cases ps) (auto simp: canonical_def)
  let ?cs = "cs @ [slash] @ map char8 Rhs"
  have "0 \<notin> set (canonical ps)" using ps by (auto simp: canonical_def comp_ok_def)
  then have "0 \<notin> set ?cs" using cs map_char8_no_0 [OF assms(2)] by simp
  moreover have "resolve (split_slash ?cs) ([], False) = resolve (components Rhs) (ps, False)"
    using resolve_concatenation [OF ps, of "map char8 Rhs"] cs by (simp add: components_def resolve_simps resolve1_def)
  ultimately show ?thesis using sanitize_resolves [of ?cs b] assms(3) cs by simp
qed

lemma sanitize_absolute:
  assumes "list_all char_ok Rhs" and "Rhs \<noteq> []" and "hd Rhs = 0x5C" and "length b = length Rhs + 1"
  shows "sanitize (map char8 Rhs) b = Some (append_result (resolve (components Rhs) ([], False)))"
proof -
  obtain ws where Rhs: "Rhs = 0x5C # ws" using assms(2,3) by (cases Rhs) auto
  moreover have "char8 0x5C = slash" by (simp add: char8_def)
  moreover have "0 \<notin> set (map char8 ws)" using map_char8_no_0 [of ws] assms(1) Rhs by simp
  ultimately show ?thesis using sanitize_resolves [of "map char8 ws" b] assms(4)
    by (simp add: components_def resolve_simps resolve1_def)
qed

lemma hd_char8: "list_all char_ok Rhs \<Longrightarrow> Rhs \<noteq> [] \<Longrightarrow> hd (map char8 Rhs) = slash \<longleftrightarrow> hd Rhs = 0x5C"
  by (cases Rhs) (simp_all add: char8_slash)

lemma VirtioFsAppendPath_sanitize:
  "Rhs \<noteq> [] \<Longrightarrow> length Rhs \<le> VIRTIO_FS_MAX_PATHNAME_LENGTH \<Longrightarrow> alloc 0 (length Rhs + 1) \<noteq> None \<Longrightarrow> list_all char_ok Rhs \<Longrightarrow>
   VirtioFsAppendPath alloc Lhs Rhs =
     (let absolute = (hd Rhs = 0x5C); total = (if absolute then length Rhs + 1 else length Lhs + 1 + length Rhs + 1)
      in if \<not> absolute \<and> alloc 1 total = None then Some (EFI_OUT_OF_RESOURCES, None)
         else (case alloc 2 total of None \<Rightarrow> Some (EFI_OUT_OF_RESOURCES, None)
           | Some b \<Rightarrow> sanitize (if absolute then map char8 Rhs else Lhs @ [slash] @ map char8 Rhs) b))"
  by (cases "hd Rhs = 0x5C") (auto simp: VirtioFsAppendPath_def transliterate_char8 hd_char8 sanitize_def Let_def split: option.split)

lemma append_path_resolves:
  assumes alloc: "block_alloc alloc" and ps: "\<forall>q \<in> set ps. comp_ok q"
  shows "VirtioFsAppendPath alloc (canonical ps) Rhs =
    (let absolute = (hd Rhs = 0x5C); n = length Rhs; total = (if absolute then n + 1 else length (canonical ps) + 1 + n + 1)
     in Some (if n = 0 \<or> VIRTIO_FS_MAX_PATHNAME_LENGTH < n then (EFI_INVALID_PARAMETER, None)
       else if alloc 0 (n + 1) = None then (EFI_OUT_OF_RESOURCES, None)
       else if \<not> list_all char_ok Rhs then (EFI_UNSUPPORTED, None)
       else if \<not> absolute \<and> alloc 1 total = None \<or> alloc 2 total = None then (EFI_OUT_OF_RESOURCES, None)
       else append_result (resolve (components Rhs) (if absolute then [] else ps, False))))"
proof (cases "length Rhs = 0 \<or> VIRTIO_FS_MAX_PATHNAME_LENGTH < length Rhs \<or> alloc 0 (length Rhs + 1) = None \<or> \<not> list_all char_ok Rhs")
  case True
  then show ?thesis by (auto simp: VirtioFsAppendPath_def transliterate_char8 Let_def)
next
  case False
  then have ok: "Rhs \<noteq> []" "list_all char_ok Rhs" and le: "length Rhs \<le> VIRTIO_FS_MAX_PATHNAME_LENGTH" "alloc 0 (length Rhs + 1) \<noteq> None"
    by auto
  note unf = VirtioFsAppendPath_sanitize [of Rhs alloc "canonical ps", OF ok(1) le ok(2)]
  show ?thesis
  proof (cases "hd Rhs = 0x5C")
    case True
    then have "alloc 2 (length Rhs + 1) = Some b \<Longrightarrow>
        sanitize (map char8 Rhs) b = Some (append_result (resolve (components Rhs) ([], False)))" for b
      using sanitize_absolute [OF ok(2,1)] block_allocD [OF alloc] by blast
    with False True show ?thesis unfolding unf by (auto split: option.split)
  next
    case rel: False
    have "alloc 2 (length (canonical ps) + 1 + length Rhs + 1) = Some b \<Longrightarrow>
        sanitize (canonical ps @ [slash] @ map char8 Rhs) b = Some (append_result (resolve (components Rhs) (ps, False)))" for b
      using sanitize_relative [OF ps ok(2)] block_allocD [OF alloc] by blast
    with False rel show ?thesis unfolding unf by (auto simp: Let_def split: option.split)
  qed
qed

text \<open>
  C23: Appending a path resolves the components of the right side, one by one, in the directory named by
  the canonical path on the left (in the root if the right side is absolute): empty and single-dot
  components do nothing, dot-dot goes up and raises the escape flag at the root, any other component is
  entered. The result is the canonical path. Empty and overlong right sides are refused, then
  characters outside printable ASCII and forward slashes, then overlong results.
\<close>

theorem virtiofs_append_path:
  assumes alloc: "block_alloc alloc" and ps: "\<forall>q \<in> set ps. comp_ok q"
  shows "VirtioFsAppendPath alloc (canonical ps) Rhs =
    (let absolute = (hd Rhs = 0x5C); n = length Rhs; total = (if absolute then n + 1 else length (canonical ps) + 1 + n + 1)
     in Some (if n = 0 \<or> VIRTIO_FS_MAX_PATHNAME_LENGTH < n then (EFI_INVALID_PARAMETER, None)
       else if alloc 0 (n + 1) = None then (EFI_OUT_OF_RESOURCES, None)
       else if \<not> list_all char_ok Rhs then (EFI_UNSUPPORTED, None)
       else if \<not> absolute \<and> alloc 1 total = None \<or> alloc 2 total = None then (EFI_OUT_OF_RESOURCES, None)
       else append_result (resolve (components Rhs) (if absolute then [] else ps, False))))"
  by (rule append_path_resolves [OF alloc ps])

definition blocks :: "nat \<Rightarrow> nat \<Rightarrow> byte list option" where
  "blocks i n = Some (replicate n 0xFF)"

lemma blocks_alloc: "block_alloc blocks"
  by (auto simp: block_alloc_def blocks_def)

text \<open>In \<^verbatim>\<open>/a\<close>, the path \<^verbatim>\<open>..\\..\\b\\.\<close> leads to \<^verbatim>\<open>/b\<close> and leaves the root once.\<close>

theorem virtiofs_append_path_witness:
  "VirtioFsAppendPath blocks [slash, 0x61] [0x2E, 0x2E, 0x5C, 0x2E, 0x2E, 0x5C, 0x62, 0x5C, 0x2E] =
    Some (EFI_SUCCESS, Some ([slash, 0x62], True))"
proof -
  have "canonical [[0x61]] = [slash, 0x61]" by (simp add: canonical_def)
  with virtiofs_append_path [of blocks "[[0x61]]" "[0x2E, 0x2E, 0x5C, 0x2E, 0x2E, 0x5C, 0x62, 0x5C, 0x2E]", OF blocks_alloc]
  show ?thesis
    by (simp add: comp_ok_def blocks_def char_ok_def char8_def components_def resolve_simps resolve1_def append_result_def
        canonical_def VIRTIO_FS_MAX_PATHNAME_LENGTH_def)
qed

text \<open>Resolving keeps proper components.\<close>

lemma split_slash_parts: "\<forall>q \<in> set (split_slash cs). slash \<notin> set q \<and> set q \<subseteq> set cs"
proof (induction cs)
  case (Cons c cs)
  then show ?case by (cases "split_slash cs") (auto simp: subset_iff)
qed simp

lemma resolve_comp_ok:
  "\<forall>q \<in> set (fst d). comp_ok q \<Longrightarrow> \<forall>p \<in> set ps. slash \<notin> set p \<and> 0 \<notin> set p \<Longrightarrow> \<forall>q \<in> set (fst (resolve ps d)). comp_ok q"
proof (induction ps arbitrary: d)
  case (Cons p ps)
  have "\<forall>q \<in> set (fst (resolve1 p d)). comp_ok q" using Cons.prems by (auto simp: resolve1_def comp_ok_def dest: in_set_butlastD)
  then show ?case using Cons.IH Cons.prems(2) by (simp add: resolve_simps)
qed (simp add: resolve_simps)

lemma append_stays_canonical:
  assumes alloc: "block_alloc alloc" and ps: "\<forall>q \<in> set ps. comp_ok q"
    and "VirtioFsAppendPath alloc (canonical ps) Rhs = Some (Status, Some (path, escape))"
  shows "\<exists>qs. path = canonical qs \<and> (\<forall>q \<in> set qs. comp_ok q) \<and> length path \<le> VIRTIO_FS_MAX_PATHNAME_LENGTH \<and> Status = EFI_SUCCESS"
proof -
  let ?d = "resolve (components Rhs) (if hd Rhs = 0x5C then [] else ps, False)"
  have ok: "list_all char_ok Rhs" and r: "append_result ?d = (Status, Some (path, escape))"
    using append_path_resolves [of alloc ps Rhs, OF alloc ps] assms(3) by (auto simp: Let_def split: if_splits)
  have "\<forall>p \<in> set (components Rhs). slash \<notin> set p \<and> 0 \<notin> set p"
    using split_slash_parts [of "map char8 Rhs"] map_char8_no_0 [OF ok] by (auto simp: components_def)
  then have "\<forall>q \<in> set (fst ?d). comp_ok q" using resolve_comp_ok [of "(if hd Rhs = 0x5C then [] else ps, False)" "components Rhs"] ps by simp
  then show ?thesis using r by (auto simp: append_result_def split: if_splits)
qed

text \<open>
  The path of an opened file stays canonical: a successful append on a canonical path gives an absolute
  path without empty, dot and dot-dot components and without a trailing slash, of at most the maximal length.
\<close>

theorem virtiofs_path_canonical:
  assumes alloc: "block_alloc alloc" and ps: "\<forall>q \<in> set ps. comp_ok q"
    and "VirtioFsAppendPath alloc (canonical ps) Rhs = Some (Status, Some (path, escape))"
  shows "\<exists>qs. path = canonical qs \<and> (\<forall>q \<in> set qs. comp_ok q) \<and> length path \<le> VIRTIO_FS_MAX_PATHNAME_LENGTH \<and> Status = EFI_SUCCESS"
  by (rule append_stays_canonical [OF assms])

theorem virtiofs_path_canonical_witness:
  "\<exists>qs. [slash, 0x62] = canonical qs \<and> (\<forall>q \<in> set qs. comp_ok q) \<and> length [slash, 0x62 :: byte] \<le> VIRTIO_FS_MAX_PATHNAME_LENGTH \<and>
    EFI_SUCCESS = EFI_SUCCESS"
proof (rule virtiofs_path_canonical [of blocks "[]" "[0x62]" _ _ False, OF blocks_alloc])
  show "VirtioFsAppendPath blocks (canonical []) [0x62] = Some (EFI_SUCCESS, Some ([slash, 0x62], False))"
    using append_path_resolves [of blocks "[]" "[0x62]", OF blocks_alloc]
    by (simp add: comp_ok_def blocks_def char_ok_def char8_def components_def resolve_simps resolve1_def append_result_def
        canonical_def VIRTIO_FS_MAX_PATHNAME_LENGTH_def)
qed simp_all

section \<open>Rename destinations\<close>

lemma last_component_append: "slash \<notin> set p \<Longrightarrow> last_component (xs @ slash # p) i l = Some (i + length xs + 1)"
proof (induction xs arbitrary: i l)
  case Nil
  have "slash \<notin> set p \<Longrightarrow> last_component p j (Some k) = Some (Suc k)" for p j k by (induction p arbitrary: j) auto
  then show ?case using Nil by simp
qed simp

lemma last_component_canonical: "comp_ok b \<Longrightarrow> last_component (canonical (ps @ [b])) 0 None = Some (length (dir_out ps))"
  using dir_out_split [of ps] by (auto simp: last_component_append comp_ok_def simp flip: canonical_snoc)

lemma get_basename_canonical:
  assumes "comp_ok b"
  shows "VirtioFsGetBasename (canonical (ps @ [b])) n =
    (if n < (length b + 1) * 2 then Some (EFI_BUFFER_TOO_SMALL, (length b + 1) * 2, [])
     else Some (EFI_SUCCESS, (length b + 1) * 2, map ucast b @ [0]))"
  using last_component_canonical [OF assms, of ps]
  by (simp add: VirtioFsGetBasename_def flip: canonical_snoc)

lemma append_absolute:
  assumes "block_alloc alloc" and "hd Rhs = 0x5C" and "\<forall>q \<in> set ps. comp_ok q"
  shows "VirtioFsAppendPath alloc [slash] Rhs = VirtioFsAppendPath alloc (canonical ps) Rhs"
  using append_path_resolves [OF assms(1), of "[]" Rhs] append_path_resolves [OF assms(1,3), of Rhs] assms(2)
  by (simp add: canonical_def)

text \<open>The directory part of a path is the canonical path of the directory.\<close>

lemma dir_prefix:
  "let n = length (dir_out ps) in
     load8 (canonical (ps @ [b])) (n - 1) = Some slash \<and> take (if 1 < n then n - 1 else n) (canonical (ps @ [b])) = canonical ps"
proof (cases "ps = []")
  case False
  then have d: "dir_out ps = canonical ps @ [slash]" by (rule dir_out_canonical)
  then show ?thesis using canonical_length [of ps] by (auto simp: load8_def nth_append simp flip: canonical_snoc)
qed (simp add: load8_def canonical_def)

lemma compose_rename_appends:
  assumes alloc: "\<And>i n. alloc i n \<noteq> None" "block_alloc alloc" and ok: "\<forall>q \<in> set ps. comp_ok q" "comp_ok b"
    and Rhs: "Rhs \<noteq> []" "\<not> VIRTIO_FS_MAX_PATHNAME_LENGTH < length Rhs"
  shows "VirtioFsComposeRenameDestination alloc (canonical (ps @ [b])) Rhs =
    VirtioFsAppendPath (\<lambda>i. alloc (i + 2)) (canonical ps) (if last Rhs = 0x5C then Rhs @ map ucast b else Rhs)"
proof -
  let ?lhs = "canonical (ps @ [b])" and ?n = "length (dir_out ps)"
  define suffix where "suffix = (if last Rhs = 0x5C then Rhs @ map ucast b else Rhs)"
  have sh: "block_alloc (\<lambda>i. alloc (i + 2))" using alloc(2) by (auto simp: block_alloc_def)
  have b: "b \<noteq> []" using ok(2) by (simp add: comp_ok_def)
  have len: "length ?lhs = ?n + length b" by (simp flip: canonical_snoc)
  have pre: "load8 ?lhs (?n - 1) = Some slash" "take (if 1 < ?n then ?n - 1 else ?n) ?lhs = canonical ps" "0 < ?n"
    using dir_prefix [of ps b] by (simp_all add: Let_def)
  have na: "(alloc i n = None) = False" for i n using alloc(1) [of i n] by blast
  have hd: "hd suffix = hd Rhs" using Rhs(1) by (simp add: suffix_def)
  have "VirtioFsComposeRenameDestination alloc ?lhs Rhs =
      (if hd suffix = 0x5C then VirtioFsAppendPath (\<lambda>i. alloc (i + 2)) [slash] suffix
       else VirtioFsAppendPath (\<lambda>i. alloc (i + 2)) (take (if 1 < ?n then ?n - 1 else ?n) ?lhs) suffix)"
    unfolding VirtioFsComposeRenameDestination_def get_basename_canonical [OF ok(2)]
    using Rhs b pre(1,3) len by (simp add: na hd Let_def, simp add: suffix_def)
  then show ?thesis unfolding pre(2) suffix_def [symmetric] using append_absolute [OF sh _ ok(1)] by simp
qed

text \<open>
  The destination of a rename is the new name, taken in the directory of the file being
  renamed unless it is absolute; when the new name ends in a backslash it names a directory, and the file keeps
  its name in that directory. The root cannot be renamed.
\<close>

theorem virtiofs_rename_destination:
  assumes alloc: "\<And>i n. alloc i n \<noteq> None" "block_alloc alloc" and ok: "\<forall>q \<in> set ps. comp_ok q" "comp_ok b"
  shows "VirtioFsComposeRenameDestination alloc (canonical []) Rhs = Some (EFI_INVALID_PARAMETER, None) \<and>
    VirtioFsComposeRenameDestination alloc (canonical (ps @ [b])) Rhs =
    (let suffix = (if last Rhs = 0x5C then Rhs @ map ucast b else Rhs)
     in Some (if Rhs = [] \<or> VIRTIO_FS_MAX_PATHNAME_LENGTH < length suffix then (EFI_INVALID_PARAMETER, None)
       else if \<not> list_all char_ok suffix then (EFI_UNSUPPORTED, None)
       else append_result (resolve (components suffix) (if hd Rhs = 0x5C then [] else ps, False))))"
proof
  show "VirtioFsComposeRenameDestination alloc (canonical []) Rhs = Some (EFI_INVALID_PARAMETER, None)"
    by (simp add: VirtioFsComposeRenameDestination_def VirtioFsGetBasename_def canonical_def Let_def)
next
  let ?suffix = "if last Rhs = 0x5C then Rhs @ map ucast b else Rhs"
  have sh: "block_alloc (\<lambda>i. alloc (i + 2))" using alloc(2) by (auto simp: block_alloc_def)
  show "VirtioFsComposeRenameDestination alloc (canonical (ps @ [b])) Rhs = (let suffix = ?suffix
     in Some (if Rhs = [] \<or> VIRTIO_FS_MAX_PATHNAME_LENGTH < length suffix then (EFI_INVALID_PARAMETER, None)
       else if \<not> list_all char_ok suffix then (EFI_UNSUPPORTED, None)
       else append_result (resolve (components suffix) (if hd Rhs = 0x5C then [] else ps, False))))"
  proof (cases "Rhs = [] \<or> VIRTIO_FS_MAX_PATHNAME_LENGTH < length Rhs")
    case True
    then show ?thesis by (auto simp: VirtioFsComposeRenameDestination_def Let_def)
  next
    case False
    define suffix where "suffix = ?suffix"
    have na: "(alloc i n = None) = False" for i n using alloc(1) [of i n] by blast
    have "hd suffix = hd Rhs" "suffix \<noteq> []" using False by (simp_all add: suffix_def)
    moreover have "VirtioFsComposeRenameDestination alloc (canonical (ps @ [b])) Rhs =
        VirtioFsAppendPath (\<lambda>i. alloc (i + 2)) (canonical ps) suffix"
      using False compose_rename_appends [OF alloc ok, of Rhs] by (simp add: suffix_def)
    ultimately show ?thesis unfolding suffix_def [symmetric] append_path_resolves [OF sh ok(1)] using False by (simp add: na Let_def)
  qed
qed

text \<open>Moving \<^verbatim>\<open>/a/b\<close> into \<^verbatim>\<open>c\<close> gives \<^verbatim>\<open>/a/c/b\<close>.\<close>

theorem virtiofs_rename_destination_witness:
  "VirtioFsComposeRenameDestination blocks [slash, 0x61, slash, 0x62] [0x63, 0x5C] =
    Some (EFI_SUCCESS, Some ([slash, 0x61, slash, 0x63, slash, 0x62], False))"
proof -
  have "blocks i n \<noteq> None" for i n by (simp add: blocks_def)
  from virtiofs_rename_destination [OF this blocks_alloc, of "[[0x61]]" "[0x62]" "[0x63, 0x5C]"] show ?thesis
    by (simp add: comp_ok_def char_ok_def char8_def components_def resolve_simps resolve1_def append_result_def
        canonical_def VIRTIO_FS_MAX_PATHNAME_LENGTH_def)
qed

end
