(* ===== verification/VirtioFsSafe.thy ===== *)
theory VirtioFsSafe
  imports VirtioFsInfo VirtioFsPathProps
begin

text \<open>
  Triples for the operations of the virtio file system driver, and what holds whatever the device answers:
  no access outside a buffer, no failed assertion, and open files that stay well-formed.
\<close>

section \<open>Triples\<close>

text \<open>
  From a state that satisfies the precondition an operation does not fault, and value and state, or status and state,
  satisfy the postconditions.
\<close>

definition triple :: "('d VIRTIO_FS \<Rightarrow> bool) \<Rightarrow> ('d, 'a) fop \<Rightarrow> ('a \<Rightarrow> 'd VIRTIO_FS \<Rightarrow> bool) \<Rightarrow> (EFI_STATUS \<Rightarrow> 'd VIRTIO_FS \<Rightarrow> bool) \<Rightarrow> bool" where
  "triple P m Q R \<longleftrightarrow> (\<forall>fs. P fs \<longrightarrow> (case m fs of
     (Ok x, fs') \<Rightarrow> Q x fs' | (Err e, fs') \<Rightarrow> R e fs' | (Fault, fs') \<Rightarrow> False | (Diverge, fs') \<Rightarrow> True))"

named_theorems triples \<open>rules for triples\<close>

lemma tripleD:
  assumes "triple P m Q R" and "P fs"
  shows "m fs = (Ok x, fs') \<Longrightarrow> Q x fs'" "m fs = (Err e, fs') \<Longrightarrow> R e fs'" "fst (m fs) \<noteq> Fault"
proof -
  have m: "case m fs of (Ok x, fs') \<Rightarrow> Q x fs' | (Err e, fs') \<Rightarrow> R e fs' | (Fault, fs') \<Rightarrow> False | (Diverge, fs') \<Rightarrow> True"
    using assms by (auto simp: triple_def)
  then show "m fs = (Ok x, fs') \<Longrightarrow> Q x fs'" "m fs = (Err e, fs') \<Longrightarrow> R e fs'" by simp_all
  show "fst (m fs) \<noteq> Fault" using m by (cases "m fs"; cases "fst (m fs)") auto
qed

lemma tripleI:
  "(\<And>fs x fs'. P fs \<Longrightarrow> m fs = (Ok x, fs') \<Longrightarrow> Q x fs') \<Longrightarrow> (\<And>fs e fs'. P fs \<Longrightarrow> m fs = (Err e, fs') \<Longrightarrow> R e fs') \<Longrightarrow>
   (\<And>fs. P fs \<Longrightarrow> fst (m fs) \<noteq> Fault) \<Longrightarrow> triple P m Q R"
  unfolding triple_def by (force split: prod.splits outcome.splits)

lemma triple_weaken:
  "triple P m Q R \<Longrightarrow> (\<And>fs. P' fs \<Longrightarrow> P fs) \<Longrightarrow> (\<And>x fs. Q x fs \<Longrightarrow> Q' x fs) \<Longrightarrow> (\<And>e fs. R e fs \<Longrightarrow> R' e fs) \<Longrightarrow> triple P' m Q' R'"
  unfolding triple_def by (fastforce split: prod.splits outcome.splits)

lemma triple_sbind [triples]:
  assumes "triple P m Q' R" and "\<And>x. triple (Q' x) (f x) Q R"
  shows "triple P (sbind m f) Q R"
  unfolding triple_def
proof (intro allI impI)
  fix fs assume "P fs"
  with assms(1) have m: "case m fs of (Ok x, fs') \<Rightarrow> Q' x fs' | (Err e, fs') \<Rightarrow> R e fs' | (Fault, fs') \<Rightarrow> False | (Diverge, fs') \<Rightarrow> True"
    by (auto simp: triple_def)
  show "case sbind m f fs of (Ok x, fs') \<Rightarrow> Q x fs' | (Err e, fs') \<Rightarrow> R e fs' | (Fault, fs') \<Rightarrow> False | (Diverge, fs') \<Rightarrow> True"
  proof (cases "m fs")
    case (Pair o1 fs1)
    then show ?thesis using m assms(2) by (cases o1) (auto simp: sbind_def triple_def)
  qed
qed

lemma triple_sthen [triples]: "triple P m (\<lambda>_. P') R \<Longrightarrow> triple P' k Q R \<Longrightarrow> triple P (sthen m k) Q R"
  unfolding sthen_def by (rule triple_sbind)

lemma triple_stry:
  assumes "triple P m (\<lambda>x. Q (Inr x)) (\<lambda>e. Q (Inl e))"
  shows "triple P (stry m) Q R"
  unfolding triple_def
proof (intro allI impI)
  fix fs assume "P fs"
  with assms have m: "case m fs of (Ok x, fs') \<Rightarrow> Q (Inr x) fs' | (Err e, fs') \<Rightarrow> Q (Inl e) fs' | (Fault, fs') \<Rightarrow> False | (Diverge, fs') \<Rightarrow> True"
    by (auto simp: triple_def)
  show "case stry m fs of (Ok x, fs') \<Rightarrow> Q x fs' | (Err e, fs') \<Rightarrow> R e fs' | (Fault, fs') \<Rightarrow> False | (Diverge, fs') \<Rightarrow> True"
  proof (cases "m fs")
    case (Pair o1 fs1)
    then show ?thesis using m by (cases o1) (auto simp: stry_def)
  qed
qed

lemma triple_best_effort: "triple P m (\<lambda>_. Q) (\<lambda>_. Q) \<Longrightarrow> triple P (best_effort m) (\<lambda>_. Q) R"
  unfolding best_effort_def
  by (rule triple_sbind [where Q' = "\<lambda>_. Q"], rule triple_stry) (simp_all add: triple_def sret_def)

lemma triple_ret: "(\<And>fs. P fs \<Longrightarrow> Q x fs) \<Longrightarrow> triple P (sret x) Q R"
  by (simp add: triple_def sret_def)

lemma triple_fail: "(\<And>fs. P fs \<Longrightarrow> R e fs) \<Longrightarrow> triple P (sfail e) Q R"
  by (simp add: triple_def sfail_def)

lemma triple_get: "(\<And>fs. P fs \<Longrightarrow> Q (g fs) fs) \<Longrightarrow> triple P (sget g) Q R"
  by (simp add: triple_def sget_def)

lemma triple_mod: "(\<And>fs. P fs \<Longrightarrow> Q () (g fs)) \<Longrightarrow> triple P (smod g) Q R"
  by (simp add: triple_def smod_def)

lemma triple_load: "(\<And>fs. P fs \<Longrightarrow> \<exists>x. m = Some x \<and> Q x fs) \<Longrightarrow> triple P (sload m) Q R"
  unfolding triple_def sload_def by fastforce

lemma triple_of_result:
  "(\<And>x fs. P fs \<Longrightarrow> r = Inr x \<Longrightarrow> Q x fs) \<Longrightarrow> (\<And>e fs. P fs \<Longrightarrow> r = Inl e \<Longrightarrow> R e fs) \<Longrightarrow> triple P (of_result r) Q R"
  by (cases r) (auto intro: triple_ret triple_fail)

lemma triple_if: "(b \<Longrightarrow> triple P m Q R) \<Longrightarrow> (\<not> b \<Longrightarrow> triple P k Q R) \<Longrightarrow> triple P (if b then m else k) Q R"
  by simp

lemma triple_pure: "(p \<Longrightarrow> triple P m Q R) \<Longrightarrow> triple (\<lambda>fs. p \<and> P fs) m Q R"
  by (auto simp: triple_def)

lemma triple_finally:
  assumes "triple P m (\<lambda>x. Q' (Inr x)) (\<lambda>e. Q' (Inl e))"
    and "\<And>x. triple (Q' (Inr x)) c (\<lambda>_. Q x) (\<lambda>_. Q x)" and "\<And>e. triple (Q' (Inl e)) c (\<lambda>_. R e) (\<lambda>_. R e)"
  shows "triple P (finally_do m c) Q R"
  unfolding finally_do_def
proof (rule triple_sbind [OF triple_stry [OF assms(1)]])
  fix r show "triple (Q' r) (sthen (best_effort c) (of_result r)) Q R"
  proof (cases r)
    case (Inl e)
    then show ?thesis using assms(3) [of e] by (auto intro!: triple_sthen triple_best_effort triple_fail)
  next
    case (Inr x)
    then show ?thesis using assms(2) [of x] by (auto intro!: triple_sthen triple_best_effort triple_ret)
  qed
qed

section \<open>Exchanges\<close>

text \<open>The device writes into the buffers and nowhere else.\<close>

definition transport_ok :: "'d transport \<Rightarrow> bool" where
  "transport_ok tr \<longleftrightarrow> (\<forall>d reqs sizes st n mem d'. VirtioFlush tr d reqs sizes = (st, n, mem, d') \<longrightarrow> length mem = sum_list sizes)"

lemma map_vectors_keep:
  "map_vectors tr wr vs d = (st, vs', d') \<Longrightarrow> map iv_Size vs' = map iv_Size vs \<and> map iv_Buffer vs' = map iv_Buffer vs"
  by (induction vs arbitrary: d st vs' d') (auto simp: Let_def split: prod.splits if_splits)

lemma fill_vectors_shape:
  assumes "fill_vectors n mem vs = (vs', r)" and "length mem = sum_list (map iv_Size vs)"
  shows "map iv_Size vs' = map iv_Size vs \<and> (\<forall>v \<in> set vs'. \<exists>b. iv_Buffer v = Some b \<and> length b = iv_Size v \<and> iv_Transferred v \<le> iv_Size v) \<and>
    r = n - sum_list (map iv_Size vs) \<and> sum_list (map iv_Transferred vs') = min n (sum_list (map iv_Size vs))"
  using assms
proof (induction vs arbitrary: n mem vs' r)
  case (Cons v vs)
  obtain ws q where f: "fill_vectors (n - min n (iv_Size v)) (drop (iv_Size v) mem) vs = (ws, q)" by (cases "fill_vectors (n - min n (iv_Size v)) (drop (iv_Size v) mem) vs")
  from Cons.IH [OF f] Cons.prems f show ?case by (auto simp: Let_def min_def split: if_splits)
qed simp

lemma validate_vectors_shape:
  assumes "validate_vectors n vs = Inr (vs', t)"
  shows "map iv_Size vs' = map iv_Size vs \<and> map iv_Buffer vs' = map iv_Buffer vs \<and> t = n + sum_list (map iv_Size vs) \<and> (n \<le> max_u32 \<longrightarrow> t \<le> max_u32)"
  using assms
proof (induction vs arbitrary: n vs' t)
  case (Cons v vs)
  from Cons.prems obtain ws where w: "validate_vectors (n + iv_Size v) vs = Inr (ws, t)" "vs' = v\<lparr>iv_Mapped := False, iv_Transferred := 0\<rparr> # ws"
    "iv_Size v \<le> max_u32 - n" by (auto split: if_splits sum.splits)
  from Cons.IH [OF w(1)] w(2,3) show ?case by auto
qed simp

text \<open>Vectors of the given sizes, each with a buffer.\<close>

definition resp_shape :: "nat list \<Rightarrow> io_vector list \<Rightarrow> bool" where
  "resp_shape sizes vs \<longleftrightarrow> map iv_Size vs = sizes \<and>
     (\<forall>v \<in> set vs. \<exists>b. iv_Buffer v = Some b \<and> length b = iv_Size v \<and> iv_Transferred v \<le> iv_Size v)"

lemma resp_shape_clear: "resp_shape sizes (clear_mapped vs) = resp_shape sizes vs"
  by (auto simp: resp_shape_def clear_mapped_def comp_def)

lemma unmap_error: "st \<noteq> EFI_SUCCESS \<Longrightarrow> fst (unmap_vectors tr vs st e) \<noteq> EFI_SUCCESS"
  by (induction vs arbitrary: e) (auto simp: Let_def split: prod.splits)

lemma submit_safe:
  assumes tr: "transport_ok tr" and tot: "case resp of None \<Rightarrow> True | Some l \<Rightarrow> TotalSize l = sum_list (map iv_Size (vectors resp))"
  shows "\<exists>st vs d'. VirtioFsSgListsSubmit tr req resp d = Some (st, vs, d') \<and> (st = EFI_SUCCESS \<longrightarrow> resp_shape (map iv_Size (vectors resp)) vs)"
proof -
  obtain st1 reqs1 d1 where m1: "map_vectors tr False (vectors (Some req)) d = (st1, reqs1, d1)" by (cases "map_vectors tr False (vectors (Some req)) d")
  show ?thesis
  proof (cases "st1 = EFI_SUCCESS")
    case False
    then show ?thesis using m1 by (simp add: VirtioFsSgListsSubmit_def Let_def case_prod_beta unmap_error)
  next
    case True
    obtain st2 resps1 d2 where m2: "map_vectors tr True (vectors resp) d1 = (st2, resps1, d2)" by (cases "map_vectors tr True (vectors resp) d1")
    show ?thesis
    proof (cases "st2 = EFI_SUCCESS")
      case False
      then show ?thesis using m1 m2 True by (simp add: VirtioFsSgListsSubmit_def Let_def case_prod_beta unmap_error)
    next
      case st2: True
      obtain st3 n mem d3 where fl: "VirtioFlush tr d2 (map (\<lambda>v. case iv_Buffer v of None \<Rightarrow> [] | Some b \<Rightarrow> b) reqs1) (map iv_Size resps1) = (st3, n, mem, d3)"
        by (cases "VirtioFlush tr d2 (map (\<lambda>v. case iv_Buffer v of None \<Rightarrow> [] | Some b \<Rightarrow> b) reqs1) (map iv_Size resps1)")
      have sz: "map iv_Size resps1 = map iv_Size (vectors resp)" using map_vectors_keep [OF m2] by simp
      have mem: "length mem = sum_list (map iv_Size resps1)" using tr fl unfolding transport_ok_def by blast
      obtain vs2 r where f: "fill_vectors n mem resps1 = (vs2, r)" by (cases "fill_vectors n mem resps1")
      note fs = fill_vectors_shape [OF f mem]
      show ?thesis
      proof (cases "st3 = EFI_SUCCESS \<and> n \<le> (case resp of None \<Rightarrow> 0 | Some l \<Rightarrow> TotalSize l)")
        case False
        then show ?thesis using m1 m2 True st2 fl by (auto simp: VirtioFsSgListsSubmit_def Let_def case_prod_beta unmap_error)
      next
        case ok: True
        then have "r = 0" using fs tot sz by (cases resp) (auto simp: vectors_def)
        moreover have "resp_shape (map iv_Size (vectors resp)) (clear_mapped vs2)" using fs sz by (simp add: resp_shape_clear) (simp add: resp_shape_def)
        ultimately show ?thesis using ok m1 m2 True st2 fl f by (simp add: VirtioFsSgListsSubmit_def Let_def case_prod_beta)
      qed
    qed
  qed
qed

lemma check_safe:
  assumes "resp_shape (sizeof_FUSE_RESPONSE # sizes) vs"
  shows "\<exists>st n. VirtioFsFuseCheckResponse vs u tail = Some (st, n) \<and> (st = EFI_SUCCESS \<and> tail \<longrightarrow> sizes \<noteq> [] \<and> n \<le> last sizes)"
proof -
  obtain v ws where vs: "vs = v # ws" using assms by (cases vs) (auto simp: resp_shape_def)
  then obtain b where b: "iv_Buffer v = Some b" "length b = 16" "iv_Size v = 16" "map iv_Size ws = sizes" "\<forall>w \<in> set ws. iv_Transferred w \<le> iv_Size w"
    using assms by (fastforce simp: resp_shape_def sizeof_FUSE_RESPONSE_def)
  obtain l u' e where f: "le_field b 0 4 = Some l" "le_field b 8 8 = Some u'" "le_field b 4 4 = Some e"
    using le_field_some [of 0 4 b] le_field_some [of 8 8 b] le_field_some [of 4 4 b] b(2) by auto
  have last: "sizes \<noteq> [] \<Longrightarrow> iv_Transferred ((v # ws) ! length ws) \<le> last sizes"
    using b(4,5) by (cases ws rule: rev_cases) (auto simp: nth_append)
  show ?thesis using vs b(1,3,4) f last
    by (auto simp: VirtioFsFuseCheckResponse_def sizeof_FUSE_RESPONSE_def Let_def)
qed

text \<open>A predicate that does not look at the device and the request counter.\<close>

definition dev_indep :: "('d VIRTIO_FS \<Rightarrow> bool) \<Rightarrow> bool" where
  "dev_indep P \<longleftrightarrow> (\<forall>fs d r. P fs \<longrightarrow> P (fs\<lparr>Dev := d, RequestId := r\<rparr>))"

lemma new_request_keeps:
  assumes n: "VirtioFsFuseNewRequest k op node fs = (st1, hdr, fs1)" and P: "dev_indep P" and p: "P fs"
  shows "P (fs1\<lparr>Dev := d\<rparr>)" "P fs1"
proof -
  have "fs1 = fs\<lparr>RequestId := RequestId fs1\<rparr>" using n by (auto simp: VirtioFsFuseNewRequest_def split: if_splits)
  then have "fs1\<lparr>Dev := d\<rparr> = fs\<lparr>Dev := d, RequestId := RequestId fs1\<rparr>" "fs1 = fs\<lparr>Dev := Dev fs, RequestId := RequestId fs1\<rparr>"
    by (metis VIRTIO_FS.update_convs(1) VIRTIO_FS.surjective VIRTIO_FS.update_convs(4), simp)
  then show "P (fs1\<lparr>Dev := d\<rparr>)" "P fs1" using P p unfolding dev_indep_def by metis+
qed

lemma triple_exchange:
  assumes tr: "transport_ok tr" and P: "dev_indep P"
  shows "triple P (fuse_exchange tr op node bodies (Some sizes) tail)
    (\<lambda>(st, e, bufs, n) fs. map length bufs = sizes \<and> (st = EFI_SUCCESS \<and> tail \<longrightarrow> sizes \<noteq> [] \<and> n \<le> last sizes) \<and> P fs) (\<lambda>_. P)"
  unfolding triple_def
proof (intro allI impI)
  fix fs assume p: "P fs"
  let ?resp = "\<lparr>IoVec = Some (map response_vec (sizeof_FUSE_RESPONSE # sizes)), TotalSize = 0\<rparr>"
  let ?req = "\<lparr>IoVec = Some (map request_vec (replicate sizeof_FUSE_REQUEST 0 # bodies)), TotalSize = 0\<rparr>"
  let ?post = "\<lambda>r. case r of (Ok (st, e, bufs, n), fs') \<Rightarrow> map length bufs = sizes \<and> (st = EFI_SUCCESS \<and> tail \<longrightarrow> sizes \<noteq> [] \<and> n \<le> last sizes) \<and> P fs'
    | (Err e, fs') \<Rightarrow> P fs' | (Fault, fs') \<Rightarrow> False | (Diverge, fs') \<Rightarrow> True"
  show "case fuse_exchange tr op node bodies (Some sizes) tail fs of
      (Ok x, fs') \<Rightarrow> (case x of (st, e, bufs, n) \<Rightarrow> \<lambda>fs. map length bufs = sizes \<and> (st = EFI_SUCCESS \<and> tail \<longrightarrow> sizes \<noteq> [] \<and> n \<le> last sizes) \<and> P fs) fs'
    | (Err e, fs') \<Rightarrow> P fs' | (Fault, fs') \<Rightarrow> False | (Diverge, fs') \<Rightarrow> True"
  proof (cases "VirtioFsSgListsValidate (QueueSize fs) (Some ?req) (Some ?resp)")
    case (Inl st)
    then show ?thesis using p by (simp add: fuse_exchange_def)
  next
    case (Inr lists)
    then obtain req resp where lists: "VirtioFsSgListsValidate (QueueSize fs) (Some ?req) (Some ?resp) = Inr (req, Some resp)"
      by (auto simp: VirtioFsSgListsValidate_def split: sum.splits)
    then obtain vs' where vs': "resp = \<lparr>IoVec = Some vs', TotalSize = sum_list (map iv_Size vs')\<rparr>" "map iv_Size vs' = sizeof_FUSE_RESPONSE # sizes"
      by (auto simp: VirtioFsSgListsValidate_def validate_list_def comp_def response_vec_def split: sum.splits if_splits dest!: validate_vectors_shape)
    obtain st1 hdr fs1 where n: "VirtioFsFuseNewRequest (TotalSize req) op node fs = (st1, hdr, fs1)" by (cases "VirtioFsFuseNewRequest (TotalSize req) op node fs")
    note fs1 = new_request_keeps [OF n P p]
    have tot: "case Some resp of None \<Rightarrow> True | Some l \<Rightarrow> TotalSize l = sum_list (map iv_Size (vectors (Some resp)))"
      using vs' by (simp add: vectors_def)
    obtain st2 vs d where s: "VirtioFsSgListsSubmit tr (set_header hdr req) (Some resp) (Dev fs1) = Some (st2, vs, d)"
      "st2 = EFI_SUCCESS \<longrightarrow> resp_shape (sizeof_FUSE_RESPONSE # sizes) vs"
      using submit_safe [OF tr tot, of "set_header hdr req" "Dev fs1"] vs' by (auto simp: vectors_def)
    show ?thesis
    proof (cases "st1 = EFI_SUCCESS \<and> st2 = EFI_SUCCESS")
      case False
      then show ?thesis using lists n s(1) fs1 by (auto simp: fuse_exchange_def)
    next
      case True
      then have sh: "resp_shape (sizeof_FUSE_RESPONSE # sizes) vs" using s(2) by simp
      obtain st3 k where c: "VirtioFsFuseCheckResponse vs (RequestId fs) tail = Some (st3, k)" "st3 = EFI_SUCCESS \<and> tail \<longrightarrow> sizes \<noteq> [] \<and> k \<le> last sizes"
        using check_safe [OF sh] by blast
      obtain v ws b where v: "vs = v # ws" "iv_Buffer v = Some b" "length b = 16" using sh
        by (cases vs) (auto simp: resp_shape_def sizeof_FUSE_RESPONSE_def)
      obtain e where e: "le_field b 4 4 = Some e" using le_field_some [of 4 4 b] v(3) by auto
      have l: "map (\<lambda>v. length (case iv_Buffer v of None \<Rightarrow> [] | Some b \<Rightarrow> b)) ws = sizes"
      proof -
        have "map (\<lambda>v. length (case iv_Buffer v of None \<Rightarrow> [] | Some b \<Rightarrow> b)) ws = map iv_Size ws"
        proof (rule map_cong [OF refl])
          fix x assume "x \<in> set ws"
          then obtain b where "iv_Buffer x = Some b" "length b = iv_Size x" using sh v(1) by (auto simp: resp_shape_def)
          then show "length (case iv_Buffer x of None \<Rightarrow> [] | Some b \<Rightarrow> b) = iv_Size x" by simp
        qed
        moreover have "map iv_Size ws = sizes" using sh v(1) by (simp add: resp_shape_def)
        ultimately show ?thesis by (rule trans)
      qed
      show ?thesis using True lists n s(1) c v(1,2) e l fs1
        by (simp add: fuse_exchange_def sop_simps sbind_def comp_def)
    qed
  qed
qed

text \<open>
  Operations that change nothing but the device and the request counter, whatever the device answers: no fault, and a
  value with a given property.
\<close>

definition calm :: "('a \<Rightarrow> bool) \<Rightarrow> ('d, 'a) fop \<Rightarrow> bool" where
  "calm Q m \<longleftrightarrow> (\<forall>P. dev_indep P \<longrightarrow> triple P m (\<lambda>x fs. Q x \<and> P fs) (\<lambda>_. P))"

named_theorems calms \<open>operations that change nothing but the device\<close>

abbreviation any :: "'a \<Rightarrow> bool" where "any \<equiv> \<lambda>_. True"

lemma calmD: "calm Q m \<Longrightarrow> dev_indep P \<Longrightarrow> triple P m (\<lambda>x fs. Q x \<and> P fs) (\<lambda>_. P)"
  by (simp add: calm_def)

lemma calm_weaken: "calm Q m \<Longrightarrow> (\<And>x. Q x \<Longrightarrow> Q' x) \<Longrightarrow> calm Q' m"
  unfolding calm_def
proof (intro allI impI)
  fix P :: "'b VIRTIO_FS \<Rightarrow> bool" assume m: "\<forall>P. dev_indep P \<longrightarrow> triple P m (\<lambda>x fs. Q x \<and> P fs) (\<lambda>_. P)" and Q: "\<And>x. Q x \<Longrightarrow> Q' x" and P: "dev_indep P"
  show "triple P m (\<lambda>x fs. Q' x \<and> P fs) (\<lambda>_. P)" by (rule triple_weaken [OF m [rule_format, OF P]]) (auto simp: Q)
qed

lemma calm_sbind:
  assumes "calm Q' m" and "\<And>x. Q' x \<Longrightarrow> calm Q (f x)"
  shows "calm Q (sbind m f)"
  unfolding calm_def
proof (intro allI impI)
  fix P :: "'b VIRTIO_FS \<Rightarrow> bool" assume P: "dev_indep P"
  show "triple P (sbind m f) (\<lambda>x fs. Q x \<and> P fs) (\<lambda>_. P)"
    by (rule triple_sbind [OF calmD [OF assms(1) P]], rule triple_pure, rule calmD [OF assms(2) P])
qed

lemma calm_sthen: "calm Q' m \<Longrightarrow> calm Q k \<Longrightarrow> calm Q (sthen m k)"
  unfolding sthen_def by (rule calm_sbind)

lemma calm_ret: "Q x \<Longrightarrow> calm Q (sret x)"
  by (simp add: calm_def triple_ret)

lemma calm_fail: "calm Q (sfail e)"
  by (simp add: calm_def triple_fail)

lemma calm_get: "calm any (sget g)"
  by (simp add: calm_def triple_get)

lemma calm_load: "\<exists>x. m = Some x \<and> Q x \<Longrightarrow> calm Q (sload m)"
  unfolding calm_def by (auto intro!: triple_load)

lemma calm_of_result: "(\<And>x. r = Inr x \<Longrightarrow> Q x) \<Longrightarrow> calm Q (of_result r)"
  by (cases r) (simp_all add: calm_ret calm_fail)

lemma calm_if: "(b \<Longrightarrow> calm Q m) \<Longrightarrow> (\<not> b \<Longrightarrow> calm Q k) \<Longrightarrow> calm Q (if b then m else k)"
  by simp

lemma calm_stry: "calm Q m \<Longrightarrow> calm (\<lambda>r. \<forall>x. r = Inr x \<longrightarrow> Q x) (stry m)"
  unfolding calm_def by (auto intro!: triple_stry)

lemma calm_best_effort: "calm Q m \<Longrightarrow> calm any (best_effort m)"
  unfolding best_effort_def by (rule calm_sbind [OF calm_stry]) (simp_all add: calm_ret)

lemma calm_finally: "calm Q m \<Longrightarrow> calm Q' c \<Longrightarrow> calm Q (finally_do m c)"
  unfolding finally_do_def by (rule calm_sbind [OF calm_stry]) (auto intro!: calm_sthen calm_best_effort calm_of_result)

lemma calm_diverge: "calm Q (\<lambda>fs. (Diverge, fs))"
  by (simp add: calm_def triple_def)

section \<open>Commands\<close>

lemma exchange_calm:
  assumes "transport_ok tr"
  shows "calm (\<lambda>(st, e, bufs, n). map length bufs = sizes \<and> (st = EFI_SUCCESS \<and> tail \<longrightarrow> sizes \<noteq> [] \<and> n \<le> last sizes))
    (fuse_exchange tr op node bodies (Some sizes) tail)"
  unfolding calm_def by (auto intro!: triple_weaken [OF triple_exchange [OF assms]])

lemma forget_calm:
  fixes tr :: "'d transport"
  assumes tr: "transport_ok tr"
  shows "calm any (VirtioFsFuseForget tr node)"
  unfolding VirtioFsFuseForget_def
proof (rule calm_sbind)
  let ?req = "\<lparr>IoVec = Some (map request_vec (replicate sizeof_FUSE_REQUEST 0 # [le_bytes 8 1])), TotalSize = 0\<rparr>"
  show "calm any (fuse_exchange tr 2 node [le_bytes 8 1] None False)"
    unfolding calm_def triple_def
  proof (intro allI impI)
    fix P and fs :: "'d VIRTIO_FS" assume P: "dev_indep P" "P fs"
    show "case fuse_exchange tr 2 node [le_bytes 8 1] None False fs of
        (Ok x, fs') \<Rightarrow> True \<and> P fs' | (Err e, fs') \<Rightarrow> P fs' | (Fault, fs') \<Rightarrow> False | (Diverge, fs') \<Rightarrow> True"
    proof (cases "VirtioFsSgListsValidate (QueueSize fs) (Some ?req) None")
      case (Inl st)
      then show ?thesis using P by (simp add: fuse_exchange_def)
    next
      case (Inr lists)
      then obtain req where lists: "VirtioFsSgListsValidate (QueueSize fs) (Some ?req) None = Inr (req, None)"
        by (auto simp: VirtioFsSgListsValidate_def split: sum.splits)
      obtain st1 hdr fs1 where n: "VirtioFsFuseNewRequest (TotalSize req) 2 node fs = (st1, hdr, fs1)"
        by (cases "VirtioFsFuseNewRequest (TotalSize req) 2 node fs")
      note keep = new_request_keeps [OF n P]
      obtain st2 vs d where "VirtioFsSgListsSubmit tr (set_header hdr req) None (Dev fs1) = Some (st2, vs, d)"
        using submit_safe [OF tr, of None "set_header hdr req" "Dev fs1"] by auto
      then show ?thesis using lists n keep by (simp add: fuse_exchange_def Let_def)
    qed
  qed
qed (simp add: calm_ret)


lemma call_calm [calms]:
  assumes "transport_ok tr"
  shows "calm (\<lambda>(bufs, n). map length bufs = sizes \<and> (tail \<longrightarrow> sizes \<noteq> [] \<and> n \<le> last sizes)) (fuse_call tr op node bodies sizes tail)"
  unfolding fuse_call_def by (rule calm_sbind [OF exchange_calm [OF assms]]) (auto intro!: calm_if calm_ret calm_fail)

lemma field_calm:
  assumes "transport_ok tr" and "i < length sizes" and "off + n \<le> sizes ! i"
  shows "calm (\<lambda>v. v < 256 ^ n) (sbind (fuse_call tr op node bodies sizes False) (\<lambda>(bufs, _). sload (le_field (bufs ! i) off n)))"
proof (rule calm_sbind [OF call_calm [OF assms(1)]])
  fix x :: "byte list list \<times> nat" assume x: "case x of (bufs, k) \<Rightarrow> map length bufs = sizes \<and> (False \<longrightarrow> sizes \<noteq> [] \<and> k \<le> last sizes)"
  then have "length (fst x ! i) = sizes ! i" using assms(2) by (auto split: prod.splits)
  then obtain v where "le_field (fst x ! i) off n = Some v" using assms(3) le_field_some by metis
  then show "calm (\<lambda>v. v < 256 ^ n) (case x of (bufs, _) \<Rightarrow> sload (le_field (bufs ! i) off n))"
    using le_field_less by (auto intro!: calm_load split: prod.splits)
qed

lemma unit_calm: "transport_ok tr \<Longrightarrow> calm any (sbind (fuse_call tr op node bodies sizes tail) (\<lambda>_. sret ()))"
  by (rule calm_sbind [OF call_calm]) (simp_all add: calm_ret)

lemma fuse_attr_some: "length b = sizeof_ATTR \<Longrightarrow> \<exists>a. fuse_attr b = Some a"
  using le_field_some [of 8 8 b] le_field_some [of 16 8 b] le_field_some [of 24 8 b] le_field_some [of 32 8 b] le_field_some [of 60 4 b]
    le_field_some [of 64 4 b] by (auto simp: fuse_attr_def sizeof_ATTR_def)

lemma fuse_statfs_some: "length b = sizeof_STATFS \<Longrightarrow> \<exists>a. fuse_statfs b = Some a"
  using le_field_some [of 0 8 b] le_field_some [of 16 8 b] le_field_some [of 40 4 b] le_field_some [of 44 4 b] le_field_some [of 48 4 b]
  by (auto simp: fuse_statfs_def sizeof_STATFS_def)

lemmas struct_sizes = sizeof_NODE_def sizeof_ATTR_def sizeof_STATFS_def sizeof_OPEN_def sizeof_GETATTR_def sizeof_WRITE_def sizeof_INIT_def

text \<open>The attributes fit their fields.\<close>

lemma fuse_attr_size: "fuse_attr b = Some a \<Longrightarrow> at_Size a < 2 ^ 64"
  by (auto simp: fuse_attr_def bind_eq_Some_conv dest!: le_field_less [of b 8 8])


lemma Lookup_calm:
  fixes tr :: "'d transport"
  assumes tr: "transport_ok tr"
  shows "calm (\<lambda>(m, a). at_Size a < 2 ^ 64) (VirtioFsFuseLookup tr node Name)"
  unfolding VirtioFsFuseLookup_def
proof (rule calm_sbind [OF calm_stry [OF exchange_calm [OF tr]]])
  fix r :: "EFI_STATUS + EFI_STATUS \<times> int \<times> byte list list \<times> nat"
  assume r: "\<forall>x. r = Inr x \<longrightarrow> (case x of (st, e, bufs, n) \<Rightarrow> map length bufs = [sizeof_NODE, sizeof_ATTR] \<and> (st = EFI_SUCCESS \<and> False \<longrightarrow> [sizeof_NODE, sizeof_ATTR] \<noteq> [] \<and> n \<le> last [sizeof_NODE, sizeof_ATTR]))"
  have good: "calm (\<lambda>(m, a). at_Size a < 2 ^ 64) (sbind (sload (le_field (bufs ! 0) 0 8)) (\<lambda>node. sbind (sload (fuse_attr (bufs ! 1))) (\<lambda>attr. sret (node, attr))) :: ('d, nat \<times> FUSE_ATTR) fop)"
    if "map length bufs = [sizeof_NODE, sizeof_ATTR]" for bufs
  proof -
    from that obtain b0 b1 where b: "bufs = [b0, b1]" "length b0 = sizeof_NODE" "length b1 = sizeof_ATTR" by (auto simp: map_eq_Cons_conv)
    have "\<exists>m. le_field b0 0 8 = Some m" using le_field_some [of 0 8 b0] b(2) by (auto simp: sizeof_NODE_def)
    moreover obtain a where a: "fuse_attr b1 = Some a" using fuse_attr_some [OF b(3)] by blast
    ultimately show ?thesis using fuse_attr_size [OF a] unfolding b(1)
      by (auto intro!: calm_sbind [OF calm_load [where Q = any]] calm_sbind [OF calm_load [where Q = "\<lambda>x. x = a"]] calm_ret)
  qed
  show "calm (\<lambda>(m, a). at_Size a < 2 ^ 64) (let fail = \<lambda>st. sfail (if st = EFI_NOT_FOUND then EFI_DEVICE_ERROR else st)
      in case r of Inl st \<Rightarrow> fail st
        | Inr (st, Errno, bufs, uu) \<Rightarrow>
            if st = EFI_DEVICE_ERROR then if Errno = VIRTIO_FS_FUSE_ERRNO_ENOENT then sfail EFI_NOT_FOUND else fail (VirtioFsErrnoToEfiStatus Errno)
            else if st \<noteq> EFI_SUCCESS then fail st
            else (sbind (sload (le_field (bufs ! 0) 0 8)) (\<lambda>node. sbind (sload (fuse_attr (bufs ! 1))) (\<lambda>attr. sret (node, attr))) :: ('d, nat \<times> FUSE_ATTR) fop))"
  proof (cases r)
    case (Inl e)
    then show ?thesis by (simp add: Let_def calm_fail)
  next
    case (Inr x)
    obtain st e bufs n where x: "x = (st, e, bufs, n)" by (cases x)
    then have "map length bufs = [sizeof_NODE, sizeof_ATTR]" using r Inr by simp
    from good [OF this] show ?thesis by (simp add: Inr x Let_def calm_fail)
  qed
qed

lemma GetAttr_calm:
  assumes tr: "transport_ok tr"
  shows "calm (\<lambda>a. at_Size a < 2 ^ 64) (VirtioFsFuseGetAttr tr node)"
  unfolding VirtioFsFuseGetAttr_def
  by (rule calm_sbind [OF call_calm [OF tr]])
    (use fuse_attr_some fuse_attr_size in \<open>fastforce intro!: calm_load simp: map_eq_Cons_conv\<close>)

lemma StatFs_calm:
  assumes tr: "transport_ok tr"
  shows "calm any (VirtioFsFuseStatFs tr node)"
  unfolding VirtioFsFuseStatFs_def
  by (rule calm_sbind [OF call_calm [OF tr]])
    (use fuse_statfs_some in \<open>fastforce intro!: calm_load simp: map_eq_Cons_conv\<close>)

lemma Read_calm:
  assumes tr: "transport_ok tr"
  shows "calm (\<lambda>bs. length bs \<le> n) (VirtioFsFuseReadFileOrDir tr node handle IsDir Offset n)"
  unfolding VirtioFsFuseReadFileOrDir_def
  by (rule calm_sbind [OF call_calm [OF tr]]) (auto intro!: calm_ret)

lemma Create_calm:
  fixes tr :: "'d transport"
  assumes tr: "transport_ok tr"
  shows "calm any (VirtioFsFuseOpenOrCreate tr node Name)"
  unfolding VirtioFsFuseOpenOrCreate_def
proof (rule calm_sbind [OF call_calm [OF tr]])
  let ?f = "\<lambda>(bufs, _). sbind (sload (le_field (bufs ! 0) 0 8)) (\<lambda>node. sbind (sload (le_field (bufs ! 2) 0 8)) (\<lambda>handle. sret (node, handle)))"
  fix x :: "byte list list \<times> nat"
  assume "case x of (bufs, n) \<Rightarrow> map length bufs = [sizeof_NODE, sizeof_ATTR, sizeof_OPEN] \<and>
      (False \<longrightarrow> [sizeof_NODE, sizeof_ATTR, sizeof_OPEN] \<noteq> [] \<and> n \<le> last [sizeof_NODE, sizeof_ATTR, sizeof_OPEN])"
  then obtain b0 b1 b2 n where b: "x = ([b0, b1, b2], n)" "length b0 = sizeof_NODE" "length b2 = sizeof_OPEN" by (auto simp: map_eq_Cons_conv)
  obtain m h where "le_field b0 0 8 = Some m" "le_field b2 0 8 = Some h"
    using le_field_some [of 0 8 b0] le_field_some [of 0 8 b2] b(2,3) by (auto simp: sizeof_NODE_def sizeof_OPEN_def)
  then show "calm any (?f x :: ('d, nat \<times> nat) fop)"
    unfolding b(1) by (auto intro!: calm_sbind [OF calm_load [where Q = any]] calm_ret)
qed

lemma fields_calm:
  assumes tr: "transport_ok tr"
  shows
  "calm (\<lambda>v. v < 2 ^ 64) (VirtioFsFuseOpen tr node w)" "calm (\<lambda>v. v < 2 ^ 64) (VirtioFsFuseOpenDir tr node)"
  "calm (\<lambda>v. v < 2 ^ 64) (VirtioFsFuseMkDir tr node Name)"
  unfolding VirtioFsFuseOpen_def VirtioFsFuseOpenDir_def VirtioFsFuseMkDir_def
  by (rule calm_weaken [OF field_calm [OF tr]]; simp add: struct_sizes; fail)+

lemma Write_calm:
  assumes tr: "transport_ok tr"
  shows "calm any (VirtioFsFuseWrite tr node handle Offset Data)"
  unfolding VirtioFsFuseWrite_def
  by (rule calm_sbind [OF calm_get], rule calm_if, rule calm_fail, rule calm_weaken [OF field_calm [OF tr]]) (simp_all add: struct_sizes)

lemma units_calm:
  assumes tr: "transport_ok tr"
  shows
  "calm any (VirtioFsFuseSetAttr tr node sz at mt mode)" "calm any (VirtioFsFuseRemoveFileOrDir tr node Name IsDir)"
  "calm any (VirtioFsFuseReleaseFileOrDir tr node handle IsDir)" "calm any (VirtioFsFuseFsyncFileOrDir tr node handle IsDir)"
  "calm any (VirtioFsFuseFlush tr node handle)" "calm any (VirtioFsFuseRename tr node Name node' Name')"
  unfolding VirtioFsFuseSetAttr_def Let_def VirtioFsFuseRemoveFileOrDir_def VirtioFsFuseReleaseFileOrDir_def VirtioFsFuseFsyncFileOrDir_def
    VirtioFsFuseFlush_def VirtioFsFuseRename_def
  by (rule unit_calm [OF tr])+

end
