(* ===== verification/VirtioFsCalm.thy ===== *)
theory VirtioFsCalm
  imports VirtioFsSafe
begin

text \<open>
  The parts of the file operations that only talk to the device: the walk to a parent directory, opening and
  creating, the loops that read, write and list, and renaming.
\<close>

section \<open>Parent directories and opening\<close>

lemma forget_unless_root_calm: "transport_ok (Transport E) \<Longrightarrow> calm any (forget_unless_root E node)"
  by (simp add: forget_unless_root_def calm_ret calm_best_effort [OF forget_calm])

lemma drop_path_calm:
  "transport_ok (Transport E) \<Longrightarrow> calm Q (sthen (best_effort (VirtioFsFuseForget (Transport E) node)) (sfail st))"
  by (rule calm_sthen [OF calm_best_effort [OF forget_calm] calm_fail])

declare parent_walk.simps [simp del] read_loop.simps [simp del] write_loop.simps [simp del] dirent_loop.simps [simp del]

lemma sload_Some: "sbind (sload (Some x)) f = f x"
  by (rule ext) (simp add: sop_simps)

lemma parent_walk_calm: "transport_ok (Transport E) \<Longrightarrow> calm any (parent_walk E node rest)"
proof (induction E node rest rule: parent_walk.induct)
  case (1 E node rest)
  show ?case
  proof (cases "slash \<in> set rest")
    case False
    then show ?thesis by (simp add: parent_walk.simps calm_ret)
  next
    case True
    let ?name = "takeWhile (\<lambda>c. c \<noteq> slash) rest"
    show ?thesis
      unfolding parent_walk.simps [of E node rest] Let_def
      using True 1 by (auto intro!: calm_sbind [OF calm_stry [OF Lookup_calm]] calm_sthen [OF forget_unless_root_calm] calm_fail drop_path_calm
        split: sum.split)
  qed
qed

lemma lookup_parent_calm: "transport_ok (Transport E) \<Longrightarrow> calm any (VirtioFsLookupMostSpecificParentDir E Path)"
  by (simp add: VirtioFsLookupMostSpecificParentDir_def calm_fail parent_walk_calm)

lemma open_existent_calm:
  assumes "transport_ok (Transport E)"
  shows "calm any (OpenExistentFileOrDirectory E node Name w)"
  unfolding OpenExistentFileOrDirectory_def Let_def using assms
  by (auto intro!: calm_sbind [OF Lookup_calm] drop_path_calm calm_if calm_ret calm_sbind [OF calm_stry [where Q = any]] calm_weaken [OF fields_calm(1)]
      calm_weaken [OF fields_calm(2)] split: sum.split)

lemma create_calm:
  assumes "transport_ok (Transport E)"
  shows "calm any (CreateDirectory E node Name)" "calm any (CreateRegularFile E node Name)"
  unfolding CreateDirectory_def CreateRegularFile_def using assms
  by (auto intro!: calm_sbind [OF fields_calm(3)] calm_sbind [OF calm_stry [OF fields_calm(2)]] calm_sthen [OF calm_best_effort [OF units_calm(2)]]
      drop_path_calm calm_ret Create_calm split: sum.split)

lemma open_component_calm:
  assumes "transport_ok (Transport E)" and "c \<Longrightarrow> w"
  shows "calm any (open_component E node Name w c dir)"
  unfolding open_component_def
proof (rule calm_sbind [OF calm_stry [OF open_existent_calm [OF assms(1)]]], rule calm_if)
  show "calm any (if \<not> w then sload None else sbind (if dir then CreateDirectory E node Name else CreateRegularFile E node Name) (\<lambda>(node, handle).
      sret (node, handle, dir)))" if "r = Inl EFI_NOT_FOUND \<and> c" for r :: "EFI_STATUS + nat \<times> nat \<times> bool"
    using that assms(2) by (cases dir) (auto intro!: calm_sbind [OF create_calm(1) [OF assms(1)]] calm_sbind [OF create_calm(2) [OF assms(1)]] calm_ret)
qed (simp add: calm_of_result)

section \<open>Loops\<close>

lemma read_loop_calm:
  "transport_ok (Transport E) \<Longrightarrow> calm any (read_loop E node handle position left acc)"
proof (induction E node handle position left acc rule: read_loop.induct)
  case (1 E node handle position left acc)
  show ?case
    unfolding read_loop.simps [of E node handle position left acc]
    by (rule calm_if, simp add: calm_ret, rule calm_sbind [OF calm_stry [OF Read_calm [OF 1(2)]]])
      (use 1 in \<open>auto intro!: calm_ret split: sum.split\<close>)
qed

text \<open>The device does not claim to have written more than it was given.\<close>

definition honest_write :: "'d transport \<Rightarrow> bool" where
  "honest_write tr \<longleftrightarrow> (\<forall>node handle off Data fs n fs'. VirtioFsFuseWrite tr node handle off Data fs = (Ok n, fs') \<longrightarrow> n \<le> length Data)"

lemma Write_honest_calm:
  assumes "transport_ok tr" and "honest_write tr"
  shows "calm (\<lambda>n. n \<le> length Data) (VirtioFsFuseWrite tr node handle Offset Data)"
  unfolding calm_def
proof (intro allI impI)
  fix P :: "'a VIRTIO_FS \<Rightarrow> bool" assume P: "dev_indep P"
  note t = tripleD [OF calmD [OF Write_calm [OF assms(1)] P, of node handle Offset Data]]
  show "triple P (VirtioFsFuseWrite tr node handle Offset Data) (\<lambda>x fs. x \<le> length Data \<and> P fs) (\<lambda>_. P)"
  proof (rule tripleI)
    fix fs x fs' assume "P fs" "VirtioFsFuseWrite tr node handle Offset Data fs = (Ok x, fs')"
    with t(1) [OF this] show "x \<le> length Data \<and> P fs'" using assms(2) unfolding honest_write_def by blast
  qed (use t(2,3) in blast)+
qed

lemma write_loop_calm:
  assumes tr: "transport_ok (Transport E)" "honest_write (Transport E)"
  shows "length Buffer < 2 ^ 64 \<Longrightarrow> n \<le> length Buffer \<Longrightarrow> calm any (write_loop E node handle position Buffer n)"
  using tr
proof (induction E node handle position Buffer n rule: write_loop.induct)
  case (1 E node handle position Buffer n)
  show ?case
  proof (cases "n = length Buffer")
    case True
    then show ?thesis by (simp add: write_loop.simps [of E node handle position Buffer "length Buffer"] calm_ret)
  next
    case False
    have left: "(length Buffer + 2 ^ 64 - n) mod 2 ^ 64 = length Buffer - n" using 1(2,3) False by (simp add: mod_if)
    show ?thesis
      unfolding write_loop.simps [of E node handle position Buffer n] left if_not_P [OF False [symmetric]]
    proof (rule calm_sbind [OF calm_get])
      fix limit
      obtain Data where d: "load_bytes Buffer n (min limit (length Buffer - n)) = Some Data" "length Data = min limit (length Buffer - n)"
      proof -
        have "n + min limit (length Buffer - n) \<le> length Buffer" using 1(3) by simp
        then show ?thesis using that by (simp add: load_bytes_def)
      qed
      show "calm any (case load_bytes Buffer n (min limit (length Buffer - n)) of None \<Rightarrow> sload None
          | Some Data \<Rightarrow> sbind (stry (VirtioFsFuseWrite (Transport E) node handle ((position + n) mod 2 ^ 64) Data)) (\<lambda>r. case r of
              Inl st \<Rightarrow> sret (n, st)
            | Inr WriteSize \<Rightarrow> if WriteSize = 0 then sret (n, EFI_DEVICE_ERROR) else write_loop E node handle position Buffer (n + WriteSize)))"
        unfolding d(1) option.case
      proof (rule calm_sbind [OF calm_stry [OF Write_honest_calm [OF 1(4,5)]]])
        fix r :: "EFI_STATUS + nat" assume r: "\<forall>x. r = Inr x \<longrightarrow> x \<le> length Data"
        show "calm any (case r of Inl st \<Rightarrow> sret (n, st)
            | Inr WriteSize \<Rightarrow> if WriteSize = 0 then sret (n, EFI_DEVICE_ERROR) else write_loop E node handle position Buffer (n + WriteSize))"
        proof (cases r)
          case (Inl st)
          then show ?thesis by (simp add: calm_ret)
        next
          case (Inr k)
          then have "n + k \<le> length Buffer" using r d(2) 1(3) by auto
          then show ?thesis using 1(1) [OF False [symmetric], of limit Data k] d(1) 1(2,4,5) Inr left by (auto intro: calm_ret)
        qed
      qed
    qed
  qed
qed

text \<open>The entries read so far fit their slots.\<close>

definition dirents_ok :: "nat \<Rightarrow> dir_cache \<Rightarrow> bool" where
  "dirents_ok SingleSize c \<longleftrightarrow> dc_CacheEnds c < 2 ^ 64 \<and> length (dc_Infos c) \<le> VIRTIO_FS_FILE_MAX_FILE_INFO \<and>
     (\<forall>i \<in> set (dc_Infos c). fi_Size i \<le> SingleSize)"

lemma attr_keeps_size: "VirtioFsFuseAttrToEfiFileInfo E a i = Inr i' \<Longrightarrow> fi_Size i' = fi_Size i \<and> fi_FileName i' = fi_FileName i"
  by (auto simp: VirtioFsFuseAttrToEfiFileInfo_def Let_def split: if_splits)

lemma populate_size: "PopulateFileInfo E Name a n = Inr i \<Longrightarrow> fi_Size i \<le> n"
  by (auto simp: PopulateFileInfo_def VirtioFsFuseDirentPlusToEfiFileInfo_def Let_def split: sum.splits if_splits dest!: attr_keeps_size)

lemma direntplus_size: "VIRTIO_FS_FUSE_DIRENTPLUS_RESPONSE_SIZE n \<noteq> 0 \<Longrightarrow> sizeof_DIRENTPLUS + n \<le> VIRTIO_FS_FUSE_DIRENTPLUS_RESPONSE_SIZE n"
  by (auto simp: VIRTIO_FS_FUSE_DIRENTPLUS_RESPONSE_SIZE_def split: if_splits)

lemma dirent_loop_calm:
  "transport_ok (Transport E) \<Longrightarrow> dirents_ok SingleSize c \<Longrightarrow> calm (dirents_ok SingleSize) (dirent_loop E limit SingleSize buf c)"
proof (induction E limit SingleSize buf c rule: dirent_loop.induct)
  case (1 E limit SingleSize buf c)
  show ?case
  proof (cases "length buf < sizeof_DIRENTPLUS")
    case True
    then show ?thesis using 1(3) by (simp add: dirent_loop.simps [of E limit SingleSize buf c] calm_ret calm_fail)
  next
    case long: False
    obtain namelen cookie node where f: "le_field buf 144 4 = Some namelen" "le_field buf 136 8 = Some cookie" "le_field buf 0 8 = Some node"
      using long le_field_some [of 144 4 buf] le_field_some [of 136 8 buf] le_field_some [of 0 8 buf] by (auto simp: sizeof_DIRENTPLUS_def)
    have cookie: "cookie < 2 ^ 64" using le_field_less [OF f(2)] by simp
    obtain a where a: "Option.bind (load_bytes buf sizeof_NODE sizeof_ATTR) fuse_attr = Some a"
      using long fuse_attr_some [of "take sizeof_ATTR (drop sizeof_NODE buf)"] by (auto simp: load_bytes_def sizeof_DIRENTPLUS_def sizeof_NODE_def sizeof_ATTR_def)
    let ?n = "VIRTIO_FS_FUSE_DIRENTPLUS_RESPONSE_SIZE namelen"
    show ?thesis
    proof (cases "?n = 0 \<or> length buf < ?n \<or> limit < namelen")
      case True
      then show ?thesis using long f(1) by (auto simp: dirent_loop.simps [of E limit SingleSize buf c] Let_def intro!: calm_sbind [OF calm_load [where Q = "\<lambda>x. x = namelen"]] calm_fail)
    next
      case False
      then have "sizeof_DIRENTPLUS + namelen \<le> length buf" using direntplus_size [of namelen] by simp
      then obtain Name where name: "load_bytes buf sizeof_DIRENTPLUS namelen = Some Name" by (auto simp: load_bytes_def)
      define c1 where "c1 = (if length (dc_Infos c) < VIRTIO_FS_FILE_MAX_FILE_INFO
                       then (case PopulateFileInfo E Name a SingleSize of
                           Inl st \<Rightarrow> c
                         | Inr info \<Rightarrow> c\<lparr>dc_Infos := dc_Infos c @ [info], dc_CacheEnds := cookie\<rparr>)
                       else c)"
      have c1: "dirents_ok SingleSize (c1\<lparr>dc_Cookie := cookie\<rparr>)"
        using 1(3) cookie populate_size [of E Name a SingleSize] by (auto simp: c1_def dirents_ok_def split: sum.splits)
      have loop: "calm (dirents_ok SingleSize) (dirent_loop E limit SingleSize (drop ?n buf) (c1\<lparr>dc_Cookie := cookie\<rparr>))"
        using 1(1) [OF long refl _ _ _ c1_def 1(2) c1] False by auto
      have whole: "dirent_loop E limit SingleSize buf c =
          sthen (if node \<noteq> 0 then best_effort (VirtioFsFuseForget (Transport E) node) else sret ())
                (dirent_loop E limit SingleSize (drop ?n buf) (c1\<lparr>dc_Cookie := cookie\<rparr>))"
        using False unfolding dirent_loop.simps [of E limit SingleSize buf c] if_not_P [OF long] f sload_Some
        by (simp add: a name Let_def c1_def sload_Some)
      have "calm any (if node \<noteq> 0 then best_effort (VirtioFsFuseForget (Transport E) node) else sret ())"
        using calm_best_effort [OF forget_calm [OF 1(2)]] by (simp add: calm_ret)
      from calm_sthen [OF this loop] show ?thesis unfolding whole .
    qed
  qed
qed

lemma refill_loop_calm:
  "transport_ok (Transport E) \<Longrightarrow> dirents_ok SingleSize c \<Longrightarrow> calm (dirents_ok SingleSize) (refill_loop fuel E node handle limit n SingleSize c)"
proof (induction fuel arbitrary: c)
  case (Suc fuel)
  show ?case
    unfolding refill_loop.simps
    by (rule calm_sbind [OF Read_calm [OF Suc(2)]], rule calm_if, simp add: calm_ret Suc(3),
        rule calm_sbind [OF dirent_loop_calm [OF Suc(2,3)]], rule calm_if) (simp_all add: Suc calm_ret)
qed (simp add: calm_diverge)

section \<open>Renaming\<close>

lemma rename_in_parents_calm: "transport_ok (Transport E) \<Longrightarrow> calm any (rename_in_parents E Source Destination)"
  unfolding rename_in_parents_def
  by (auto intro!: calm_sbind [OF lookup_parent_calm] calm_finally [OF _ forget_unless_root_calm] units_calm)

end
