(* ===== verification/VirtioFsSys.thy ===== *)
theory VirtioFsSys
  imports VirtioFsCalm
begin

text \<open>
  The virtio file system as the firmware sees it: the calls of the two protocols, the well-formedness of the open
  files, and its preservation by every call, whatever the device answers.
\<close>

section \<open>Calls\<close>

datatype vf_call = OpenVolume | Open nat "u16 list" nat nat | Close nat | Delete nat | Read nat nat | Write nat "byte list" | GetPosition nat
  | SetPosition nat nat | GetInfo nat info_type nat | SetInfo nat info_type "byte list" | Flush nat

datatype vf_reply = NoReply | Handle nat | Status EFI_STATUS | Data read_result | Written EFI_STATUS nat | Position nat | Info file_information

definition reply :: "('a \<Rightarrow> vf_reply) \<Rightarrow> ('d, 'a) fop \<Rightarrow> ('d, vf_reply) fop" where
  "reply g m = sbind m (\<lambda>x. sret (g x))"

fun run_call :: "nat \<Rightarrow> 'd vf_env \<Rightarrow> vf_call \<Rightarrow> ('d, vf_reply) fop" where
  "run_call fuel E OpenVolume = reply Handle (VirtioFsOpenVolume E)"
| "run_call fuel E (Open This name mode attr) = reply Handle (VirtioFsSimpleFileOpen E This name mode attr)"
| "run_call fuel E (Close This) = reply (\<lambda>_. NoReply) (VirtioFsSimpleFileClose E This)"
| "run_call fuel E (Delete This) = reply Status (VirtioFsSimpleFileDelete E This)"
| "run_call fuel E (Read This n) = reply Data (VirtioFsSimpleFileRead fuel E This n)"
| "run_call fuel E (Write This buf) = reply (\<lambda>(st, n). Written st n) (VirtioFsSimpleFileWrite E This buf)"
| "run_call fuel E (GetPosition This) = reply Position (VirtioFsSimpleFileGetPosition This)"
| "run_call fuel E (SetPosition This n) = reply (\<lambda>_. NoReply) (VirtioFsSimpleFileSetPosition E This n)"
| "run_call fuel E (GetInfo This t n) = reply Info (VirtioFsSimpleFileGetInfo E This t n)"
| "run_call fuel E (SetInfo This t buf) = reply (\<lambda>_. NoReply) (VirtioFsSimpleFileSetInfo E This t buf)"
| "run_call fuel E (Flush This) = reply (\<lambda>_. NoReply) (VirtioFsSimpleFileFlush E This)"

fun handle_of :: "vf_call \<Rightarrow> nat option" where
  "handle_of OpenVolume = None"
| "handle_of (Open This _ _ _) = Some This"
| "handle_of (Close This) = Some This"
| "handle_of (Delete This) = Some This"
| "handle_of (Read This _) = Some This"
| "handle_of (Write This _) = Some This"
| "handle_of (GetPosition This) = Some This"
| "handle_of (SetPosition This _) = Some This"
| "handle_of (GetInfo This _ _) = Some This"
| "handle_of (SetInfo This _ _) = Some This"
| "handle_of (Flush This) = Some This"

text \<open>The caller passes an open handle and sizes that fit the machine.\<close>

definition call_ok :: "vf_call \<Rightarrow> 'd VIRTIO_FS \<Rightarrow> bool" where
  "call_ok c fs \<longleftrightarrow> (case handle_of c of None \<Rightarrow> True | Some a \<Rightarrow> Objects fs a \<noteq> None) \<and>
     (case c of Write _ buf \<Rightarrow> length buf < 2 ^ 64 | SetPosition _ n \<Rightarrow> n < 2 ^ 64 | _ \<Rightarrow> True)"

section \<open>Well-formedness\<close>

definition path_ok :: "byte list \<Rightarrow> bool" where
  "path_ok p \<longleftrightarrow> (\<exists>ps. p = canonical ps \<and> (\<forall>q \<in> set ps. comp_ok q)) \<and> length p \<le> VIRTIO_FS_MAX_PATHNAME_LENGTH"

text \<open>The cache of directory entries is an array with slots of one size, read up to an index within it.\<close>

definition listing_ok :: "VIRTIO_FS_FILE \<Rightarrow> bool" where
  "listing_ok f \<longleftrightarrow> NextFileInfo f \<le> NumFileInfo f \<and> NumFileInfo f \<le> VIRTIO_FS_FILE_MAX_FILE_INFO \<and>
     (case FileInfoArray f of None \<Rightarrow> NumFileInfo f = 0
      | Some infos \<Rightarrow> IsDirectory f \<and> length infos = NumFileInfo f \<and> (\<forall>i \<in> set infos. fi_Size i \<le> SingleFileInfoSize f))"

definition file_ok :: "VIRTIO_FS_FILE \<Rightarrow> bool" where
  "file_ok f \<longleftrightarrow> path_ok (CanonicalPathname f) \<and> FilePosition f < 2 ^ 64 \<and> listing_ok f"

text \<open>The list of open files names the live objects, each once.\<close>

definition vfs_ok :: "'d VIRTIO_FS \<Rightarrow> bool" where
  "vfs_ok fs \<longleftrightarrow> distinct (OpenFiles fs) \<and> set (OpenFiles fs) = dom (Objects fs) \<and> (\<forall>f \<in> ran (Objects fs). file_ok f)"

text \<open>The allocators give fresh objects and blocks of the size asked for, or fail.\<close>

definition vf_env_ok :: "'d vf_env \<Rightarrow> bool" where
  "vf_env_ok E \<longleftrightarrow> transport_ok (Transport E) \<and> block_alloc (path_alloc E) \<and> (\<forall>objs a. file_alloc E objs = Some a \<longrightarrow> objs a = None)"

definition at :: "nat \<Rightarrow> VIRTIO_FS_FILE \<Rightarrow> 'd VIRTIO_FS \<Rightarrow> bool" where
  "at a f fs \<longleftrightarrow> vfs_ok fs \<and> Objects fs a = Some f"

lemma vfs_ok_indep: "dev_indep vfs_ok"
  by (simp add: dev_indep_def vfs_ok_def)

lemma at_indep: "dev_indep (at a f)"
  by (simp add: dev_indep_def at_def vfs_ok_def)

lemma at_file: "at a f fs \<Longrightarrow> file_ok f"
  by (auto simp: at_def vfs_ok_def ran_def)

lemma at_vfs: "at a f fs \<Longrightarrow> vfs_ok fs"
  by (simp add: at_def)

lemma at_update: "at a f fs \<Longrightarrow> (file_ok f \<Longrightarrow> file_ok (g f)) \<Longrightarrow> at a (g f) (update_file a g fs)"
  using at_file [of a f fs] by (auto simp: at_def vfs_ok_def update_file_def ran_def split: if_splits)

lemma at_update_vfs: "at a f fs \<Longrightarrow> (file_ok f \<Longrightarrow> file_ok (g f)) \<Longrightarrow> vfs_ok (update_file a g fs)"
  by (rule at_vfs [OF at_update])

lemma at_insert: "vfs_ok fs \<Longrightarrow> Objects fs a = None \<Longrightarrow> file_ok f \<Longrightarrow> at a f (insert_file a f fs)"
  by (auto simp: at_def vfs_ok_def insert_file_def ran_def split: if_splits)

lemma at_remove: "at a f fs \<Longrightarrow> vfs_ok (remove_file a fs)"
  by (auto simp: at_def vfs_ok_def remove_file_def ran_def split: if_splits)

lemma new_file_ok: "path_ok p \<Longrightarrow> file_ok (new_file d w p node handle)"
  by (simp add: new_file_def file_ok_def listing_ok_def)

lemma root_path_ok: "path_ok [slash]"
  unfolding path_ok_def by (auto intro!: exI [of _ "[]"] simp: canonical_def VIRTIO_FS_MAX_PATHNAME_LENGTH_def)

section \<open>Operations on an open file\<close>

text \<open>An operation on a file that stays open.\<close>

definition still_open :: "nat \<Rightarrow> 'd VIRTIO_FS \<Rightarrow> bool" where
  "still_open a fs \<longleftrightarrow> vfs_ok fs \<and> Objects fs a \<noteq> None"

abbreviation keeps :: "nat \<Rightarrow> VIRTIO_FS_FILE \<Rightarrow> ('d, 'a) fop \<Rightarrow> bool" where
  "keeps a f m \<equiv> triple (at a f) m (\<lambda>_. still_open a) (\<lambda>_. still_open a)"

lemma at_live: "at a f fs \<Longrightarrow> still_open a fs"
  by (simp add: at_def still_open_def)

lemma live_vfs: "still_open a fs \<Longrightarrow> vfs_ok fs"
  by (simp add: still_open_def)

lemma keeps_calm: "calm Q m \<Longrightarrow> keeps a f m"
  by (rule triple_weaken [OF calmD [OF _ at_indep]]) (auto dest: at_live)

lemma triple_calm:
  assumes "calm Q' m" and "dev_indep P" and "\<And>x. Q' x \<Longrightarrow> triple P (k x) Q R" and "\<And>e fs. P fs \<Longrightarrow> R e fs"
  shows "triple P (sbind m k) Q R"
  by (rule triple_sbind [OF triple_weaken [OF calmD [OF assms(1,2)]]], assumption, assumption, rule assms(4), assumption,
      rule triple_pure, rule assms(3))

lemma keeps_sbind: "calm Q' m \<Longrightarrow> (\<And>x. Q' x \<Longrightarrow> keeps a f (k x)) \<Longrightarrow> keeps a f (sbind m k)"
  by (rule triple_calm [OF _ at_indep, where Q' = Q']) (auto dest: at_live)

lemma keeps_sthen: "calm Q' m \<Longrightarrow> keeps a f k \<Longrightarrow> keeps a f (sthen m k)"
  unfolding sthen_def by (rule keeps_sbind)

lemma keeps_update: "(file_ok f \<Longrightarrow> file_ok (g f)) \<Longrightarrow> keeps a f (smod (update_file a g))"
  by (rule triple_mod) (rule at_live [OF at_update])

lemma with_file_at: "triple (at a f) (k f) Q R \<Longrightarrow> triple (at a f) (with_file a k) Q R"
  unfolding with_file_def triple_def by (auto simp: sop_simps at_def)

lemma with_file_live:
  fixes Q :: "'a \<Rightarrow> 'b VIRTIO_FS \<Rightarrow> bool"
  assumes "\<And>f. file_ok f \<Longrightarrow> triple (at a f) (k f) Q R"
  shows "triple (still_open a) (with_file a k) Q R"
  unfolding triple_def
proof (intro allI impI)
  fix fs :: "'b VIRTIO_FS" assume "still_open a fs"
  then obtain f where f: "at a f fs" by (auto simp: still_open_def at_def)
  have t: "triple (at a f) (with_file a k) Q R" by (rule with_file_at) (rule assms [OF at_file [OF f]])
  show "case with_file a k fs of (Ok x, fs') \<Rightarrow> Q x fs' | (Err e, fs') \<Rightarrow> R e fs' | (Fault, fs') \<Rightarrow> False | (Diverge, fs') \<Rightarrow> True"
    by (rule t [unfolded triple_def, rule_format, OF f])
qed

lemma triple_states: "triple P m Q R \<longleftrightarrow> (\<forall>fs. P fs \<longrightarrow> triple (\<lambda>s. s = fs) m Q R)"
  by (simp add: triple_def)

lemma triple_ex: "(\<And>g. triple (P g) m Q R) \<Longrightarrow> triple (\<lambda>fs. \<exists>g. P g fs) m Q R"
  by (subst triple_states) (auto simp: triple_states [of "P _"])

lemma triple_pure_right: "(p \<Longrightarrow> triple P m Q R) \<Longrightarrow> triple (\<lambda>fs. P fs \<and> p) m Q R"
  by (subst triple_states) (auto simp: triple_states [of P])

lemma triple_at_ok: "(file_ok f \<Longrightarrow> triple (at a f) m Q R) \<Longrightarrow> triple (at a f) m Q R"
  by (subst triple_states) (use at_file in \<open>auto simp: triple_states [of "at a f"]\<close>)

lemma file_ok_position: "file_ok f \<Longrightarrow> n < 2 ^ 64 \<Longrightarrow> file_ok (f\<lparr>FilePosition := n\<rparr>)"
  by (cases "FileInfoArray f") (simp_all add: file_ok_def listing_ok_def)

lemma read_regular_keeps:
  assumes "vf_env_ok E"
  shows "keeps a f (ReadRegularFile E a n)"
proof -
  have tr: "transport_ok (Transport E)" using assms by (simp add: vf_env_ok_def)
  show ?thesis
    unfolding ReadRegularFile_def
  proof (rule with_file_at, rule keeps_sbind [OF calm_stry [OF GetAttr_calm [OF tr]]])
    fix r :: "EFI_STATUS + FUSE_ATTR"
    have "keeps a f (sthen (smod (update_file a (\<lambda>f. f\<lparr>FilePosition := (FilePosition f + length bytes) mod 2 ^ 64\<rparr>)))
        (if bytes \<noteq> [] \<or> st = EFI_SUCCESS then sret bytes else sfail st))" for bytes :: "byte list" and st
      by (rule triple_sthen [OF keeps_update]) (auto intro!: file_ok_position triple_ret triple_fail)
    then show "keeps a f (case r of Inl st \<Rightarrow> sfail EFI_DEVICE_ERROR
       | Inr FuseAttr \<Rightarrow> if at_Size FuseAttr < FilePosition f then sfail EFI_DEVICE_ERROR
         else sbind (read_loop E (NodeId f) (FuseHandle f) (FilePosition f) n []) (\<lambda>(bytes, Status).
           sthen (smod (update_file a (\<lambda>f. f\<lparr>FilePosition := (FilePosition f + length bytes) mod 2 ^ 64\<rparr>)))
           (if bytes \<noteq> [] \<or> Status = EFI_SUCCESS then sret bytes else sfail Status)))"
      by (auto intro!: keeps_sbind [OF read_loop_calm [OF tr]] keeps_calm [OF calm_fail] split: sum.splits)
  qed
qed

lemma write_keeps:
  fixes E :: "'d vf_env"
  assumes "vf_env_ok E" "honest_write (Transport E)" "length Buffer < 2 ^ 64"
  shows "keeps a f (VirtioFsSimpleFileWrite E a Buffer)"
proof -
  have tr: "transport_ok (Transport E)" using assms(1) by (simp add: vf_env_ok_def)
  show ?thesis
    unfolding VirtioFsSimpleFileWrite_def
  proof (rule with_file_at, rule triple_if, rule keeps_calm [OF calm_fail], rule triple_if, rule keeps_calm [OF calm_fail],
      rule keeps_sbind [OF write_loop_calm [OF tr assms(2,3)]])
    have "keeps a f (sthen (smod (update_file a (\<lambda>f. f\<lparr>FilePosition := (FilePosition f + n) mod 2 ^ 64\<rparr>))) (sret (st, n)) :: ('d, EFI_STATUS \<times> nat) fop)"
      for n :: nat and st :: EFI_STATUS
      by (rule triple_sthen [OF keeps_update]) (auto intro!: file_ok_position triple_ret)
    then show "keeps a f ((case x of (Transferred, st) \<Rightarrow>
        sthen (smod (update_file a (\<lambda>f. f\<lparr>FilePosition := (FilePosition f + Transferred) mod 2 ^ 64\<rparr>))) (sret (st, Transferred))) :: ('d, EFI_STATUS \<times> nat) fop)" for x
      by (cases x) simp
  qed simp
qed

lemma refill_triple:
  assumes "vf_env_ok E" and "IsDirectory f"
  shows "triple (at a f) (RefillFileInfoCache fuel E a)
    (\<lambda>_ fs. \<exists>g. at a g fs \<and> (NumFileInfo g = 0 \<or> NextFileInfo g < NumFileInfo g)) (\<lambda>_. still_open a)"
proof -
  have tr: "transport_ok (Transport E)" using assms by (simp add: vf_env_ok_def)
  let ?post = "\<lambda>_ fs. \<exists>g. at a g fs \<and> (NumFileInfo g = 0 \<or> NextFileInfo g < NumFileInfo g)"
  show ?thesis
    unfolding RefillFileInfoCache_def Let_def
  proof (rule with_file_at, rule triple_calm [OF StatFs_calm [OF tr] at_indep _ at_live], rule triple_if, rule triple_fail, erule at_live,
      rule triple_if, rule triple_fail, erule at_live, rule triple_if, rule triple_fail, erule at_live)
    fix sf :: FUSE_STATFS
    let ?size = "offset_FileName + (sf_Namelen sf + 1) * 2"
    let ?g = "\<lambda>c f. f\<lparr>FileInfoArray := Some (dc_Infos c), SingleFileInfoSize := ?size, NumFileInfo := length (dc_Infos c), NextFileInfo := 0,
      FilePosition := dc_CacheEnds c\<rparr>"
    show "triple (at a f) (sbind (refill_loop fuel E (NodeId f) (FuseHandle f) (sf_Namelen sf)
        (VIRTIO_FS_FUSE_DIRENTPLUS_RESPONSE_SIZE (sf_Namelen sf) * VIRTIO_FS_FILE_MAX_FILE_INFO) ?size
        \<lparr>dc_Cookie = FilePosition f, dc_CacheEnds = FilePosition f, dc_Infos = []\<rparr>) (\<lambda>c. smod (update_file a (?g c)))) ?post (\<lambda>_. still_open a)"
    proof (cases "FilePosition f < 2 ^ 64")
      case False
      then have "\<not> at a f fs" for fs :: "'a VIRTIO_FS" using at_file [of a f fs] by (auto simp: file_ok_def)
      then show ?thesis by (simp add: triple_def)
    next
      case True
      then have "dirents_ok ?size \<lparr>dc_Cookie = FilePosition f, dc_CacheEnds = FilePosition f, dc_Infos = []\<rparr>" by (simp add: dirents_ok_def)
      then show ?thesis
      proof (rule triple_calm [OF refill_loop_calm [OF tr] at_indep _ at_live], intro triple_mod exI conjI)
        fix c and fs :: "'a VIRTIO_FS" assume c: "dirents_ok ?size c" and f: "at a f fs"
        show "at a (?g c f) (update_file a (?g c) fs)" using c assms(2)
          by (intro at_update [OF f]) (auto simp: file_ok_def listing_ok_def dirents_ok_def)
        show "NumFileInfo (?g c f) = 0 \<or> NextFileInfo (?g c f) < NumFileInfo (?g c f)" by simp
      qed
    qed
  qed
qed

lemma read_cache_keeps:
  fixes E :: "'d vf_env"
  assumes "vf_env_ok E" and dir: "IsDirectory f"
  shows "keeps a f (ReadFileInfoCache fuel E a n)"
  unfolding ReadFileInfoCache_def
proof (rule with_file_at, rule triple_sthen)
  let ?mid = "\<lambda>fs. \<exists>g. at a g fs \<and> (NumFileInfo g = 0 \<or> NextFileInfo g < NumFileInfo g)"
  show "triple (at a f) (if NextFileInfo f = NumFileInfo f
            then sbind (stry (RefillFileInfoCache fuel E a)) (\<lambda>r. case r of
                Inl st \<Rightarrow> sfail (if st = EFI_BUFFER_TOO_SMALL then EFI_DEVICE_ERROR else st)
              | Inr _ \<Rightarrow> sret ())
            else sret ()) (\<lambda>_. ?mid) (\<lambda>_. still_open a)"
  proof (rule triple_if)
    have "triple (\<lambda>fs. case r of Inl st \<Rightarrow> still_open a fs | Inr u \<Rightarrow> ?mid fs)
        (case r of Inl st \<Rightarrow> sfail (if st = EFI_BUFFER_TOO_SMALL then EFI_DEVICE_ERROR else st) | Inr _ \<Rightarrow> sret ()) (\<lambda>_. ?mid) (\<lambda>_. still_open a)"
      for r :: "EFI_STATUS + unit" by (cases r) (auto intro: triple_fail triple_ret)
    moreover have "triple (at a f) (RefillFileInfoCache fuel E a) (\<lambda>_. ?mid) (\<lambda>_. still_open a)" by (rule refill_triple [OF assms])
    ultimately show "triple (at a f) (sbind (stry (RefillFileInfoCache fuel E a)) (\<lambda>r. case r of
                Inl st \<Rightarrow> sfail (if st = EFI_BUFFER_TOO_SMALL then EFI_DEVICE_ERROR else st)
              | Inr _ \<Rightarrow> sret ())) (\<lambda>_. ?mid) (\<lambda>_. still_open a)"
      by (intro triple_sbind [OF triple_stry, where Q' = "\<lambda>r fs. case r of Inl st \<Rightarrow> still_open a fs | Inr u \<Rightarrow> ?mid fs"]) simp_all
    assume "NextFileInfo f \<noteq> NumFileInfo f"
    then show "triple (at a f) (sret ()) (\<lambda>_. ?mid) (\<lambda>_. still_open a)"
      by (intro triple_ret exI [of _ f]) (auto simp: file_ok_def listing_ok_def dest: at_file)
  qed
  let ?k = "\<lambda>f1. if NumFileInfo f1 = 0 then sret None
      else sbind (sload (Option.bind (FileInfoArray f1) (\<lambda>infos.
            if NextFileInfo f1 < length infos then Some (infos ! NextFileInfo f1) else None))) (\<lambda>FileInfo.
        if n < fi_Size FileInfo then sfail EFI_BUFFER_TOO_SMALL
        else sthen (smod (update_file a (\<lambda>f. f\<lparr>NextFileInfo := NextFileInfo f + 1\<rparr>))) (sret (Some FileInfo)))"
  have "keeps a g (?k g :: ('d, FILE_INFO option) fop)" if g: "NumFileInfo g = 0 \<or> NextFileInfo g < NumFileInfo g" "file_ok g" for g
  proof (cases "NumFileInfo g = 0")
    case True
    then show ?thesis by (simp add: keeps_calm [OF calm_ret [where Q = any]])
  next
    case False
    then obtain infos where i: "FileInfoArray g = Some infos" "NextFileInfo g < length infos" using g
      by (cases "FileInfoArray g") (auto simp: file_ok_def listing_ok_def)
    have "file_ok (g\<lparr>NextFileInfo := NextFileInfo g + 1\<rparr>)" using g False by (cases "FileInfoArray g") (auto simp: file_ok_def listing_ok_def)
    then have "keeps a g (sthen (smod (update_file a (\<lambda>f. f\<lparr>NextFileInfo := NextFileInfo f + 1\<rparr>))) (sret (Some i)) :: ('d, FILE_INFO option) fop)" for i
      by (intro triple_sthen [OF keeps_update] triple_ret)
    then show ?thesis using False i by (simp add: sload_Some keeps_calm calm_fail)
  qed
  note step = this
  show "triple ?mid (with_file a ?k :: ('d, FILE_INFO option) fop) (\<lambda>_. still_open a) (\<lambda>_. still_open a)"
    by (rule triple_ex, rule triple_pure_right, rule triple_at_ok, rule with_file_at, rule step)
qed

lemma read_keeps:
  assumes "vf_env_ok E"
  shows "keeps a f (VirtioFsSimpleFileRead fuel E a n)"
  unfolding VirtioFsSimpleFileRead_def
  by (rule with_file_at, rule triple_if; rule triple_sbind, (erule read_cache_keeps [OF assms] | rule read_regular_keeps [OF assms]), rule triple_ret)

lemma position_keeps:
  assumes "vf_env_ok E" and "n < 2 ^ 64"
  shows "keeps a f (VirtioFsSimpleFileGetPosition a)" "keeps a f (VirtioFsSimpleFileSetPosition E a n)"
proof -
  have tr: "transport_ok (Transport E)" using assms(1) by (simp add: vf_env_ok_def)
  show "keeps a f (VirtioFsSimpleFileGetPosition a)"
    unfolding VirtioFsSimpleFileGetPosition_def by (rule with_file_at) (auto intro: keeps_calm calm_ret calm_fail)
  show "keeps a f (VirtioFsSimpleFileSetPosition E a n)"
    unfolding VirtioFsSimpleFileSetPosition_def using assms(2)
    by (intro with_file_at triple_if keeps_calm [OF calm_fail] keeps_update keeps_sbind [OF GetAttr_calm [OF tr]] file_ok_position)
      (simp_all add: file_ok_def listing_ok_def)
qed

lemma flush_keeps:
  assumes "vf_env_ok E"
  shows "keeps a f (VirtioFsSimpleFileFlush E a)"
proof -
  have tr: "transport_ok (Transport E)" using assms by (simp add: vf_env_ok_def)
  show ?thesis unfolding VirtioFsSimpleFileFlush_def
    by (rule with_file_at) (auto intro!: keeps_calm [where Q = any] calm_fail calm_sthen [OF _ units_calm(4) [OF tr]] units_calm(5) [OF tr] calm_ret)
qed

section \<open>Closing\<close>

lemma triple_calm_then: "calm Q' m \<Longrightarrow> triple (at a f) k Q (\<lambda>_. vfs_ok) \<Longrightarrow> triple (at a f) (sthen m k) Q (\<lambda>_. vfs_ok)"
  unfolding sthen_def by (rule triple_calm [OF _ at_indep]) (auto dest: at_vfs)

lemma close_triple:
  assumes "vf_env_ok E"
  shows "triple (at a f) (VirtioFsSimpleFileClose E a) (\<lambda>_. vfs_ok) (\<lambda>_. vfs_ok)"
proof -
  have tr: "transport_ok (Transport E)" using assms by (simp add: vf_env_ok_def)
  note be = calm_best_effort [where Q = any]
  have "calm any (if IsOpenForWriting f
            then sthen (if \<not> IsDirectory f then best_effort (VirtioFsFuseFlush (Transport E) (NodeId f) (FuseHandle f)) else sret ())
                   (best_effort (VirtioFsFuseFsyncFileOrDir (Transport E) (NodeId f) (FuseHandle f) (IsDirectory f)))
            else sret ())"
    by (auto intro!: calm_sthen [where Q' = any] be units_calm [OF tr] calm_ret)
  then show ?thesis unfolding VirtioFsSimpleFileClose_def
    by (intro with_file_at triple_calm_then [where Q' = any] be units_calm(3) [OF tr] forget_unless_root_calm [OF tr] triple_mod at_remove)
qed

lemma delete_triple:
  assumes "vf_env_ok E"
  shows "triple (at a f) (VirtioFsSimpleFileDelete E a) (\<lambda>_. vfs_ok) (\<lambda>_. vfs_ok)"
proof -
  have tr: "transport_ok (Transport E)" using assms by (simp add: vf_env_ok_def)
  have remove: "calm any (if IsOpenForWriting f
             then sbind (stry (sbind (VirtioFsLookupMostSpecificParentDir E (CanonicalPathname f)) (\<lambda>(ParentNodeId, LastComponent).
                    finally_do (VirtioFsFuseRemoveFileOrDir (Transport E) ParentNodeId LastComponent (IsDirectory f))
                      (forget_unless_root E ParentNodeId)))) (\<lambda>r.
                  sret (case r of Inl _ \<Rightarrow> EFI_WARN_DELETE_FAILURE | Inr _ \<Rightarrow> EFI_SUCCESS))
             else sret EFI_WARN_DELETE_FAILURE)"
    by (auto intro!: calm_sbind [OF calm_stry [where Q = any]] calm_sbind [OF lookup_parent_calm [OF tr]] calm_finally [OF units_calm(2) [OF tr] forget_unless_root_calm [OF tr]] calm_ret)
  show ?thesis unfolding VirtioFsSimpleFileDelete_def
  proof (intro with_file_at triple_calm_then [OF calm_best_effort [OF units_calm(3) [OF tr]]], rule triple_calm [OF remove at_indep _ at_vfs])
    fix st :: EFI_STATUS
    show "triple (at a f) (sthen (forget_unless_root E (NodeId f)) (sthen (smod (remove_file a)) (sret st))) (\<lambda>_. vfs_ok) (\<lambda>_. vfs_ok)"
      by (intro triple_calm_then [OF forget_unless_root_calm [OF tr]] triple_sthen [OF triple_mod triple_ret]) (simp_all add: at_remove)
  qed
qed

end
