(* ===== verification/VirtioFsKeeps.thy ===== *)
theory VirtioFsKeeps
  imports VirtioFsSys
begin

text \<open>
  Opening, describing and changing files keep the open files well-formed; then every call does, whatever the
  device answers.
\<close>

section \<open>Paths\<close>

lemma append_total:
  assumes "block_alloc alloc" and "path_ok p"
  shows "\<exists>st res. VirtioFsAppendPath alloc p Rhs = Some (st, res) \<and> (st = EFI_SUCCESS \<longrightarrow> (\<exists>q e. res = Some (q, e) \<and> path_ok q))"
proof -
  obtain ps where p: "p = canonical ps" "\<forall>q \<in> set ps. comp_ok q" using assms(2) by (auto simp: path_ok_def)
  obtain st res where a: "VirtioFsAppendPath alloc (canonical ps) Rhs = Some (st, res)"
    unfolding append_path_resolves [OF assms(1) p(2), of Rhs] Let_def by (metis surj_pair)
  show ?thesis
  proof (cases res)
    case None
    then have "st \<noteq> EFI_SUCCESS" using a unfolding append_path_resolves [OF assms(1) p(2), of Rhs]
      by (auto simp: append_result_def Let_def split: if_splits prod.splits)
    then show ?thesis using a p(1) by simp
  next
    case (Some qe)
    obtain q e where q: "qe = (q, e)" by (cases qe)
    have "path_ok q" using append_stays_canonical [OF assms(1) p(2), of Rhs st q e] a Some q by (auto simp: path_ok_def)
    then show ?thesis using a p(1) Some q by simp
  qed
qed

lemma shifted_alloc: "block_alloc alloc \<Longrightarrow> block_alloc (\<lambda>i. alloc (i + 2))"
  by (simp add: block_alloc_def)

lemma prefix_path_ok: "path_ok (canonical (ps @ [b])) \<Longrightarrow> \<forall>q \<in> set ps. comp_ok q \<Longrightarrow> path_ok (canonical ps)"
  using dir_prefix [of ps b] by (auto simp: path_ok_def Let_def split: if_splits dest!: arg_cong [where f = length])

text \<open>The composition of a destination reaches the append, or stops for want of memory or of an argument.\<close>

lemma compose_total:
  assumes alloc: "block_alloc alloc" and p: "path_ok (canonical (ps @ [b]))" and ok: "\<forall>q \<in> set ps. comp_ok q" "comp_ok b"
  shows "\<exists>st res. VirtioFsComposeRenameDestination alloc (canonical (ps @ [b])) Rhs = Some (st, res) \<and>
    (st = EFI_SUCCESS \<longrightarrow> (\<exists>q e. res = Some (q, e) \<and> path_ok q))"
proof -
  let ?lhs = "canonical (ps @ [b])" and ?n = "length (dir_out ps)"
  define suffix where "suffix = (if last Rhs = 0x5C then Rhs @ map ucast b else Rhs)"
  have b: "b \<noteq> []" using ok(2) by (simp add: comp_ok_def)
  have len: "length ?lhs = ?n + length b" by (simp flip: canonical_snoc)
  have pre: "load8 ?lhs (?n - 1) = Some slash" "take (if 1 < ?n then ?n - 1 else ?n) ?lhs = canonical ps" "0 < ?n"
    using dir_prefix [of ps b] by (simp_all add: Let_def)
  note total = append_total [OF shifted_alloc [OF alloc]]
  have t1: "\<exists>st res. VirtioFsAppendPath (\<lambda>i. alloc (i + 2)) [slash] suffix = Some (st, res) \<and> (st = EFI_SUCCESS \<longrightarrow> (\<exists>q e. res = Some (q, e) \<and> path_ok q))"
    by (rule total [OF root_path_ok])
  have t2: "\<exists>st res. VirtioFsAppendPath (\<lambda>i. alloc (i + 2)) (canonical ps) suffix = Some (st, res) \<and> (st = EFI_SUCCESS \<longrightarrow> (\<exists>q e. res = Some (q, e) \<and> path_ok q))"
    by (rule total [OF prefix_path_ok [OF p ok(1)]])
  show ?thesis
  proof (cases "Rhs = [] \<or> VIRTIO_FS_MAX_PATHNAME_LENGTH < length Rhs")
    case True
    then show ?thesis by (auto simp: VirtioFsComposeRenameDestination_def Let_def)
  next
    case False
    then have hd: "hd suffix = hd Rhs" by (simp add: suffix_def)
    have "VirtioFsComposeRenameDestination alloc ?lhs Rhs =
      (if alloc 0 (if last Rhs = 0x5C then length Rhs * 2 + (length b + 1) * 2 else (length Rhs + 1) * 2) = None then Some (EFI_OUT_OF_RESOURCES, None)
       else if hd suffix = 0x5C then (if alloc 1 2 = None then Some (EFI_OUT_OF_RESOURCES, None) else VirtioFsAppendPath (\<lambda>i. alloc (i + 2)) [slash] suffix)
       else if alloc 1 ((if 1 < ?n then ?n - 1 else ?n) + 1) = None then Some (EFI_OUT_OF_RESOURCES, None)
       else VirtioFsAppendPath (\<lambda>i. alloc (i + 2)) (canonical ps) suffix)"
      unfolding VirtioFsComposeRenameDestination_def get_basename_canonical [OF ok(2)] pre(2) [symmetric]
      using False b pre(1,3) len hd
      by (cases "last Rhs = 0x5C"; cases "hd Rhs = 0x5C"; simp add: Let_def suffix_def) auto
    then show ?thesis using t1 t2 by auto
  qed
qed

section \<open>Opening\<close>

text \<open>An address at which there is no object.\<close>

definition free_at :: "nat \<Rightarrow> 'd VIRTIO_FS \<Rightarrow> bool" where
  "free_at a fs \<longleftrightarrow> vfs_ok fs \<and> Objects fs a = None"

lemma free_at_indep: "dev_indep (free_at a)"
  by (simp add: dev_indep_def free_at_def vfs_ok_def)

lemma free_at_vfs: "free_at a fs \<Longrightarrow> vfs_ok fs"
  by (simp add: free_at_def)

lemma insert_triple: "path_ok p \<Longrightarrow> triple (free_at a) (sthen (smod (insert_file a (new_file d w p node h))) (sret a)) (\<lambda>a. still_open a) (\<lambda>_. vfs_ok)"
  by (rule triple_sthen [OF triple_mod triple_ret]) (auto simp: free_at_def intro: at_live at_insert new_file_ok)

lemma alloc_triple:
  assumes "vf_env_ok E" and "\<And>a. triple (free_at a) (k a) Q (\<lambda>_. vfs_ok)"
  shows "triple vfs_ok (sbind (sget (\<lambda>fs. file_alloc E (Objects fs))) (\<lambda>new. case new of None \<Rightarrow> sfail EFI_OUT_OF_RESOURCES | Some a \<Rightarrow> k a)) Q (\<lambda>_. vfs_ok)"
proof (rule triple_sbind [where Q' = "\<lambda>new fs. vfs_ok fs \<and> (case new of None \<Rightarrow> True | Some a \<Rightarrow> free_at a fs)"])
  show "triple vfs_ok (sget (\<lambda>fs. file_alloc E (Objects fs))) (\<lambda>new fs. vfs_ok fs \<and> (case new of None \<Rightarrow> True | Some a \<Rightarrow> free_at a fs)) (\<lambda>_. vfs_ok)"
    using assms(1) by (auto intro!: triple_get simp: vf_env_ok_def free_at_def split: option.split)
  fix new :: "nat option"
  show "triple (\<lambda>fs. vfs_ok fs \<and> (case new of None \<Rightarrow> True | Some a \<Rightarrow> free_at a fs)) (case new of None \<Rightarrow> sfail EFI_OUT_OF_RESOURCES | Some a \<Rightarrow> k a) Q (\<lambda>_. vfs_ok)"
  proof (cases new)
    case (Some a)
    show ?thesis unfolding Some option.case by (rule triple_weaken [OF assms(2)]) auto
  qed (simp add: triple_fail)
qed

lemma open_volume_triple:
  assumes E: "vf_env_ok E"
  shows "triple vfs_ok (VirtioFsOpenVolume E) (\<lambda>a. still_open a) (\<lambda>_. vfs_ok)"
proof -
  have tr: "transport_ok (Transport E)" using E by (simp add: vf_env_ok_def)
  show ?thesis
    unfolding VirtioFsOpenVolume_def
    by (rule alloc_triple [OF E], rule triple_if, rule triple_fail, erule free_at_vfs,
        rule triple_calm [OF fields_calm(2) [OF tr] free_at_indep insert_triple [OF root_path_ok] free_at_vfs])
qed

lemma open_root_triple:
  fixes E :: "'d vf_env"
  assumes E: "vf_env_ok E"
  shows "triple vfs_ok (OpenRootDirectory E w) (\<lambda>_. vfs_ok) (\<lambda>_. vfs_ok)"
proof -
  have tr: "transport_ok (Transport E)" using E by (simp add: vf_env_ok_def)
  let ?check = "if w then sbind (VirtioFsFuseGetAttr (Transport E) VIRTIO_FS_FUSE_ROOT_DIR_NODE_ID) (\<lambda>FuseAttr.
              sbind (of_result (VirtioFsFuseAttrToEfiFileInfo E FuseAttr blank_info)) (\<lambda>FileInfo.
              if fi_Attribute FileInfo AND EFI_FILE_READ_ONLY \<noteq> 0 then sfail EFI_ACCESS_DENIED else sret ()))
            else sret ()"
  have check: "calm any ?check"
    by (auto intro!: calm_sbind [OF GetAttr_calm [OF tr]] calm_sbind [OF calm_of_result [where Q = any]] calm_fail calm_ret)
  have upd: "vfs_ok (update_file a (\<lambda>f. f\<lparr>IsOpenForWriting := w\<rparr>) fs)" if l: "still_open a fs" for a and fs :: "'d VIRTIO_FS"
  proof -
    obtain f where f: "at a f fs" using l by (auto simp: still_open_def at_def)
    show ?thesis by (rule at_update_vfs [OF f]) (cases "FileInfoArray f"; simp add: file_ok_def listing_ok_def)
  qed
  have "triple vfs_ok (sbind (VirtioFsOpenVolume E) (\<lambda>a. sthen (smod (update_file a (\<lambda>f. f\<lparr>IsOpenForWriting := w\<rparr>))) (sret a))) (\<lambda>_. vfs_ok) (\<lambda>_. vfs_ok)"
    by (rule triple_sbind [OF open_volume_triple [OF E]], rule triple_sthen [OF triple_mod triple_ret], erule upd)
  then show ?thesis
    unfolding OpenRootDirectory_def sthen_def [of ?check] by (rule triple_calm [OF check vfs_ok_indep])
qed

lemma open_path_triple:
  fixes E :: "'d vf_env"
  assumes E: "vf_env_ok E" and p: "path_ok p" and c: "c \<Longrightarrow> w"
  shows "triple (free_at a) (open_path E a p w c dir) (\<lambda>_. vfs_ok) (\<lambda>_. vfs_ok)"
proof -
  have tr: "transport_ok (Transport E)" using E by (simp add: vf_env_ok_def)
  have ins: "triple (free_at a) (sthen (smod (insert_file a (new_file d w p node h))) (sret a)) (\<lambda>_. vfs_ok) (\<lambda>_. vfs_ok)" for d node h
    by (rule triple_weaken [OF insert_triple [OF p]]) (auto dest: live_vfs)
  show ?thesis
    unfolding open_path_def
  proof (rule triple_if)
    show "triple (free_at a) (OpenRootDirectory E w) (\<lambda>_. vfs_ok) (\<lambda>_. vfs_ok)"
      by (rule triple_weaken [OF open_root_triple [OF E]]) (auto dest: free_at_vfs)
    let ?ins = "\<lambda>(node, handle, IsDir). sthen (smod (insert_file a (new_file IsDir w p node handle))) (sret a) :: ('d, nat) fop"
    have "triple (free_at a) (sbind (finally_do (open_component E node Name w c dir) (forget_unless_root E node)) ?ins) (\<lambda>_. vfs_ok) (\<lambda>_. vfs_ok)" for node Name
      by (rule triple_calm [OF calm_finally [OF open_component_calm [OF tr c] forget_unless_root_calm [OF tr]] free_at_indep _ free_at_vfs])
        (use ins in auto)
    then show "triple (free_at a) (sbind (VirtioFsLookupMostSpecificParentDir E p) (\<lambda>(DirNodeId, LastComponent).
        sbind (finally_do (open_component E DirNodeId LastComponent w c dir) (forget_unless_root E DirNodeId)) ?ins)) (\<lambda>_. vfs_ok) (\<lambda>_. vfs_ok)"
      by (intro triple_calm [OF lookup_parent_calm [OF tr] free_at_indep _ free_at_vfs]) auto
  qed
qed

lemma open_mode_create: "open_mode m = Some (w, c) \<Longrightarrow> c \<Longrightarrow> w"
  by (auto simp: open_mode_def split: if_splits)

lemma open_triple:
  fixes E :: "'d vf_env"
  assumes E: "vf_env_ok E"
  shows "triple (at a f) (VirtioFsSimpleFileOpen E a name mode attr) (\<lambda>_. vfs_ok) (\<lambda>_. vfs_ok)"
  unfolding VirtioFsSimpleFileOpen_def
proof (fold with_file_def, rule with_file_at, rule triple_at_ok)
  assume f: "file_ok f"
  have alloc: "block_alloc (path_alloc E)" using E by (simp add: vf_env_ok_def)
  obtain st res where app: "VirtioFsAppendPath (path_alloc E) (CanonicalPathname f) name = Some (st, res)"
    "st = EFI_SUCCESS \<longrightarrow> (\<exists>q e. res = Some (q, e) \<and> path_ok q)"
    using append_total [OF alloc] f unfolding file_ok_def by blast
  have path: "triple (free_at new) (sbind (sload (VirtioFsAppendPath (path_alloc E) (CanonicalPathname f) name)) (\<lambda>(Status, res).
      if Status \<noteq> EFI_SUCCESS then sfail Status else sbind (sload res) (\<lambda>(NewCanonicalPath, RootEscape).
        if RootEscape then sfail EFI_ACCESS_DENIED else open_path E new NewCanonicalPath w c dir))) (\<lambda>_. vfs_ok) (\<lambda>_. vfs_ok)"
    if c: "c \<Longrightarrow> w" for w c dir new
  proof (cases "st = EFI_SUCCESS")
    case True
    then obtain q e where "res = Some (q, e)" "path_ok q" using app(2) by blast
    then show ?thesis using open_path_triple [where a = new and dir = dir, OF E _ c, of q] True
      by (auto simp: app(1) sload_Some intro: triple_fail free_at_vfs)
  qed (auto simp: app(1) sload_Some intro: triple_fail free_at_vfs)
  let ?create = "\<lambda>c. c \<and> attr AND EFI_FILE_DIRECTORY \<noteq> 0"
  have rest: "triple (at a f) (sbind (sget (\<lambda>fs. file_alloc E (Objects fs))) (\<lambda>new. case new of
              None \<Rightarrow> sfail EFI_OUT_OF_RESOURCES
            | Some a \<Rightarrow>
                sbind (sload (VirtioFsAppendPath (path_alloc E) (CanonicalPathname f) name)) (\<lambda>(Status, res).
                if Status \<noteq> EFI_SUCCESS then sfail Status
                else sbind (sload res) (\<lambda>(NewCanonicalPath, RootEscape).
                  if RootEscape then sfail EFI_ACCESS_DENIED
                  else open_path E a NewCanonicalPath w c (?create c))))) (\<lambda>_. vfs_ok) (\<lambda>_. vfs_ok)"
    if "c \<Longrightarrow> w" for w c
    by (rule triple_weaken [OF alloc_triple [OF E path [OF that]]]) (auto dest: at_vfs)
  show "triple (at a f) (case open_mode mode of
       None \<Rightarrow> sfail EFI_INVALID_PARAMETER
     | Some (OpenForWriting, PermitCreation) \<Rightarrow>
         if PermitCreation \<and> attr AND (max_u64 - EFI_FILE_VALID_ATTR) \<noteq> 0 then sfail EFI_INVALID_PARAMETER
         else if PermitCreation \<and> \<not> OpenForWriting then sload None
         else if PermitCreation \<and> attr AND EFI_FILE_READ_ONLY \<noteq> 0 then sfail EFI_INVALID_PARAMETER
         else if \<not> IsDirectory f then sfail EFI_INVALID_PARAMETER
         else let CreateDirectoryIfCreating = ?create PermitCreation
         in sbind (sget (\<lambda>fs. file_alloc E (Objects fs))) (\<lambda>new. case new of
              None \<Rightarrow> sfail EFI_OUT_OF_RESOURCES
            | Some a \<Rightarrow>
                sbind (sload (VirtioFsAppendPath (path_alloc E) (CanonicalPathname f) name)) (\<lambda>(Status, res).
                if Status \<noteq> EFI_SUCCESS then sfail Status
                else sbind (sload res) (\<lambda>(NewCanonicalPath, RootEscape).
                  if RootEscape then sfail EFI_ACCESS_DENIED
                  else open_path E a NewCanonicalPath OpenForWriting PermitCreation CreateDirectoryIfCreating)))) (\<lambda>_. vfs_ok) (\<lambda>_. vfs_ok)"
  proof (cases "open_mode mode")
    case (Some wc)
    obtain w c where wc: "wc = (w, c)" by (cases wc)
    have cw: "c \<Longrightarrow> w" using Some wc open_mode_create by blast
    show ?thesis unfolding Some wc option.case prod.case Let_def
      using cw by (intro triple_if rest) (auto intro: triple_fail at_vfs)
  qed (simp add: triple_fail at_vfs)
qed

end
