(* ===== verification/VirtioFsWhole.thy ===== *)
theory VirtioFsWhole
  imports VirtioFsKeeps
begin

text \<open>Describing and changing an open file, and the safety of every sequence of calls.\<close>

section \<open>Describing\<close>

lemma basename_path:
  assumes "path_ok p"
  shows "\<exists>k b. VirtioFsGetBasename p 0 = Some (EFI_BUFFER_TOO_SMALL, k, []) \<and> VirtioFsGetBasename p k = Some (EFI_SUCCESS, k, b)"
proof -
  obtain ps where p: "p = canonical ps" "\<forall>q \<in> set ps. comp_ok q" using assms by (auto simp: path_ok_def)
  show ?thesis
  proof (cases ps rule: rev_cases)
    case Nil
    then show ?thesis using p by (simp add: VirtioFsGetBasename_def canonical_def)
  next
    case (snoc qs q)
    then have "comp_ok q" using p(2) by simp
    then show ?thesis using snoc p(1) by (simp add: get_basename_canonical)
  qed
qed

lemma get_info_keeps:
  fixes E :: "'d vf_env"
  assumes E: "vf_env_ok E"
  shows "keeps a f (VirtioFsSimpleFileGetInfo E a t n)"
proof -
  have tr: "transport_ok (Transport E)" using E by (simp add: vf_env_ok_def)
  have finfo: "keeps a f (GetFileInfo E a n)"
    unfolding GetFileInfo_def
  proof (rule with_file_at, rule triple_at_ok)
    assume "file_ok f"
    then obtain k b where kb: "VirtioFsGetBasename (CanonicalPathname f) 0 = Some (EFI_BUFFER_TOO_SMALL, k, [])"
      "VirtioFsGetBasename (CanonicalPathname f) k = Some (EFI_SUCCESS, k, b)"
      using basename_path unfolding file_ok_def by blast
    have "calm any (sbind (stry (sbind (VirtioFsFuseGetAttr (Transport E) (NodeId f)) (\<lambda>FuseAttr. of_result (VirtioFsFuseAttrToEfiFileInfo E FuseAttr i))))
        (\<lambda>r. case r of Inl st \<Rightarrow> sfail (if st = EFI_BUFFER_TOO_SMALL then EFI_DEVICE_ERROR else st) | Inr info \<Rightarrow> sret info))" for i
      by (auto intro!: calm_sbind [OF calm_stry [where Q = any]] calm_sbind [OF GetAttr_calm [OF tr]] calm_of_result calm_fail calm_ret split: sum.split)
    then show "keeps a f (sbind (sload (VirtioFsGetBasename (CanonicalPathname f) 0)) (\<lambda>(st, BasenameSize, _).
       if st \<noteq> EFI_BUFFER_TOO_SMALL then sload None
       else if n < offset_FileName + BasenameSize then sfail EFI_BUFFER_TOO_SMALL
       else sbind (sload (VirtioFsGetBasename (CanonicalPathname f) BasenameSize)) (\<lambda>(st2, _, Basename).
         if st2 \<noteq> EFI_SUCCESS then sload None
         else sbind (stry (sbind (VirtioFsFuseGetAttr (Transport E) (NodeId f)) (\<lambda>FuseAttr.
             of_result (VirtioFsFuseAttrToEfiFileInfo E FuseAttr
               (blank_info\<lparr>fi_Size := offset_FileName + BasenameSize, fi_FileName := butlast Basename\<rparr>))))) (\<lambda>r.
           case r of Inl st \<Rightarrow> sfail (if st = EFI_BUFFER_TOO_SMALL then EFI_DEVICE_ERROR else st) | Inr info \<Rightarrow> sret info))))"
      by (simp add: sload_Some kb keeps_calm [OF calm_fail] keeps_calm [where Q = any])
  qed
  have system: "keeps a f (GetFileSystemInfo E a n)"
    unfolding GetFileSystemInfo_def Let_def
    by (rule with_file_at)
      (auto intro!: keeps_calm [where Q = any] calm_sbind [OF calm_get] calm_fail calm_ret calm_sbind [OF calm_stry [OF StatFs_calm [OF tr]]] split: sum.split)
  have label: "keeps a f (GetFileSystemVolumeLabelInfo a n)"
    unfolding GetFileSystemVolumeLabelInfo_def
    by (rule with_file_at) (auto intro!: keeps_calm [where Q = any] calm_sbind [OF calm_get] calm_fail calm_ret)
  show ?thesis
    unfolding VirtioFsSimpleFileGetInfo_def using finfo system label
    by (cases t) (auto intro!: triple_sbind [where Q' = "\<lambda>_. still_open a"] triple_ret keeps_calm [OF calm_fail])
qed

section \<open>Changing\<close>

lemma string16_some: "even (length c) \<Longrightarrow> \<exists>s. string16 (c @ [0, 0]) = Some s"
proof (induction c rule: string16.induct)
  case (1 x y r)
  then show ?case by (cases "x = 0 \<and> y = 0") auto
qed auto

lemma validate_total:
  assumes "w \<Longrightarrow> 8 \<le> off"
  shows "\<exists>st. ValidateInfoStructure (length b) (off + 2) w b = Some st \<and>
    (st = EFI_SUCCESS \<longrightarrow> off + 2 \<le> length b \<and> (\<exists>s. string16 (drop off b) = Some s))"
proof (cases "off + 2 \<le> length b \<and> even (length b - off)")
  case False
  moreover have "w \<Longrightarrow> off + 2 \<le> length b \<Longrightarrow> \<exists>v. le_field b 0 8 = Some v" using le_field_some [of 0 8 b] assms by auto
  ultimately show ?thesis using assms by (cases w) (auto simp: ValidateInfoStructure_def Let_def even_iff_mod_2_eq_zero)
next
  case True
  then have at: "off + 2 * ((length b - off) div 2 - 1) = length b - 2"
  proof -
    have "even (length b - off)" using True by (rule conjunct2)
    then obtain k where "length b - off = 2 * k" by (rule evenE)
    then show ?thesis using True by simp
  qed
  have "length b - 2 + 2 \<le> length b" using True by linarith
  then obtain v where v: "le_field b (length b - 2) 2 = Some v" using le_field_some by blast
  have end0: "\<exists>s. string16 (drop off b) = Some s" if "v = 0"
  proof -
    have "le_value (drop (length b - 2) b) = 0" "length (drop (length b - 2) b) = 2"
      using v that True by (auto simp: le_field_def load_bytes_def split: if_splits)
    then have "drop (length b - 2) b = [0, 0]" using le_bytes_le_value [of "drop (length b - 2) b"] by (simp add: numeral_2_eq_2)
    moreover have "drop off b = take (length b - 2 - off) (drop off b) @ drop (length b - 2) b"
      using append_take_drop_id [of "length b - 2 - off" "drop off b"] True by simp
    moreover have "even (length (take (length b - 2 - off) (drop off b)))"
    proof -
      have "length (take (length b - 2 - off) (drop off b)) = length b - off - 2" by simp
      moreover have "even (length b - off - 2)" by (rule dvd_diff_nat) (rule conjunct2 [OF True], simp)
      ultimately show ?thesis by presburger
    qed
    ultimately show ?thesis using string16_some [of "take (length b - 2 - off) (drop off b)"] by simp
  qed
  have "w \<Longrightarrow> \<exists>v. le_field b 0 8 = Some v" using le_field_some [of 0 8 b] assms True by auto
  then show ?thesis using True assms v end0 at
    by (cases w) (auto simp: ValidateInfoStructure_def Let_def even_iff_mod_2_eq_zero simp del: of_nat_eq_0_iff)
qed

lemma file_info_some:
  assumes "offset_FileName + 2 \<le> length b" and "string16 (drop offset_FileName b) = Some s"
  shows "\<exists>i. file_info_of b = Some i"
proof -
  have f: "\<exists>v. le_field b off 8 = Some v" if "off \<le> 72" for off using le_field_some [of off 8 b] assms(1) that by (simp add: offset_FileName_def)
  have t: "\<exists>v. efi_time (drop off b) = Some v" if "off \<le> 56" for off using assms(1) that by (simp add: efi_time_def Let_def offset_FileName_def)
  show ?thesis using f [of 0] f [of 8] f [of 16] f [of 72] t [of 24] t [of 40] t [of 56] assms(2)
    by (auto simp: file_info_of_def)
qed

lemma of_status_calm: "(st = EFI_SUCCESS \<Longrightarrow> calm Q k) \<Longrightarrow> calm Q (sthen (of_status st) k)"
  unfolding sthen_def of_status_def by (auto intro!: calm_sbind [where Q' = "\<lambda>_. st = EFI_SUCCESS"] calm_ret calm_fail)

lemma set_label_calm:
  assumes "w \<Longrightarrow> 8 \<le> off"
  shows "calm any (set_label off w b)"
proof -
  obtain st where st: "ValidateInfoStructure (length b) (off + 2) w b = Some st"
    "st = EFI_SUCCESS \<Longrightarrow> \<exists>s. string16 (drop off b) = Some s"
    using validate_total [where b = b, OF assms] by blast
  show ?thesis unfolding set_label_def st(1) sload_Some
    by (rule of_status_calm, drule st(2)) (auto simp: sload_Some intro!: calm_sbind [OF calm_get] calm_ret calm_fail)
qed

lemma triple_at_live: "(\<And>f. triple (at a f) m Q R) \<Longrightarrow> triple (still_open a) m Q R"
  by (subst triple_states) (auto simp: triple_states [of "at a _"] still_open_def at_def)

lemma triple_get_at:
  assumes "\<And>fs. at a f fs \<Longrightarrow> \<exists>x. g fs = Some x" and "\<And>x. triple (at a f) (k x) Q R"
  shows "triple (at a f) (sbind (sbind (sget g) sload) k) Q R"
  by (rule triple_sbind [where Q' = "\<lambda>_. at a f"], rule triple_sbind [where Q' = "\<lambda>r fs. at a f fs \<and> g fs = r"])
    (auto intro!: triple_get triple_load dest: assms(1) intro: assms(2))

lemma those_some: "None \<notin> set xs \<Longrightarrow> \<exists>ys. those xs = Some ys"
proof (induction xs)
  case (Cons x xs)
  then show ?case by (cases x) auto
qed simp

lemma rename_keeps:
  fixes E :: "'d vf_env"
  assumes E: "vf_env_ok E"
  shows "keeps a f (Rename E a name)"
  unfolding Rename_def
proof (rule with_file_at, rule triple_at_ok)
  assume f: "file_ok f"
  have tr: "transport_ok (Transport E)" and alloc: "block_alloc (path_alloc E)" using E by (simp_all add: vf_env_ok_def)
  let ?p = "CanonicalPathname f"
  have upd: "keeps a f (sthen (rename_in_parents E ?p q) (smod (update_file a (\<lambda>f. f\<lparr>CanonicalPathname := q\<rparr>))))" if "path_ok q" for q
    by (rule keeps_sthen [OF rename_in_parents_calm [OF tr] keeps_update])
      (use that in \<open>cases "FileInfoArray f"; simp add: file_ok_def listing_ok_def\<close>)
  have busy: "\<exists>x. other_open_below a ?p fs = Some x" if "at a f fs" for fs :: "'d VIRTIO_FS"
  proof -
    have "None \<notin> set (map (Objects fs) (OpenFiles fs))" using that by (auto simp: at_def vfs_ok_def dom_def)
    then show ?thesis by (cases "those (map (Objects fs) (OpenFiles fs))") (use those_some [of "map (Objects fs) (OpenFiles fs)"] in \<open>auto simp: other_open_below_def\<close>)
  qed
  have rest: "keeps a f (sbind (if IsDirectory f then sbind (sget (other_open_below a ?p)) sload else sret False) (\<lambda>busy.
      if busy then sfail EFI_ACCESS_DENIED
      else if \<not> IsOpenForWriting f then sfail EFI_ACCESS_DENIED
      else sthen (rename_in_parents E ?p q) (smod (update_file a (\<lambda>f. f\<lparr>CanonicalPathname := q\<rparr>)))))" if q: "path_ok q" for q
    using upd [OF q] by (auto intro!: triple_get_at [OF busy] triple_if keeps_calm [OF calm_fail] keeps_sbind [OF calm_ret [where Q = any]])
  show "keeps a f (if ?p = [slash] then (if name = [] then sret () else sfail EFI_ACCESS_DENIED)
     else sbind (sload (VirtioFsComposeRenameDestination (path_alloc E) ?p name)) (\<lambda>(Status, res).
       if Status \<noteq> EFI_SUCCESS then sfail Status
       else sbind (sload res) (\<lambda>(Destination, RootEscape).
         if RootEscape then sfail EFI_NOT_FOUND
         else if ?p = Destination then sret ()
         else sbind (if IsDirectory f then sbind (sget (other_open_below a ?p)) sload else sret False) (\<lambda>busy.
           if busy then sfail EFI_ACCESS_DENIED
           else if \<not> IsOpenForWriting f then sfail EFI_ACCESS_DENIED
           else sthen (rename_in_parents E ?p Destination)
             (smod (update_file a (\<lambda>f. f\<lparr>CanonicalPathname := Destination\<rparr>)))))))"
  proof (cases "?p = [slash]")
    case True
    then show ?thesis by (auto intro: triple_ret triple_fail at_live)
  next
    case False
    obtain ps where ps: "?p = canonical ps" "\<forall>q \<in> set ps. comp_ok q" using f by (auto simp: file_ok_def path_ok_def)
    then obtain qs b where qs: "ps = qs @ [b]" using False by (cases ps rule: rev_cases) (auto simp: canonical_def)
    obtain st res where c: "VirtioFsComposeRenameDestination (path_alloc E) ?p name = Some (st, res)"
      "st = EFI_SUCCESS \<longrightarrow> (\<exists>q e. res = Some (q, e) \<and> path_ok q)"
      using compose_total [OF alloc, of qs b name] f ps qs unfolding file_ok_def by auto
    show ?thesis
    proof (cases "st = EFI_SUCCESS")
      case True
      then obtain q e where "res = Some (q, e)" "path_ok q" using c(2) by blast
      then show ?thesis unfolding c(1) sload_Some if_not_P [OF False] using True rest [of q]
        by (auto simp: sload_Some intro: triple_ret triple_fail at_live)
    qed (unfold c(1) sload_Some if_not_P [OF False], auto intro: triple_fail at_live)
  qed
qed

lemma update_attributes_keeps:
  fixes E :: "'d vf_env"
  assumes E: "vf_env_ok E"
  shows "keeps a f (UpdateAttributes E a info)"
proof -
  have tr: "transport_ok (Transport E)" using E by (simp add: vf_env_ok_def)
  show ?thesis
    unfolding UpdateAttributes_def Let_def
    by (rule with_file_at)
      (auto intro!: keeps_calm [where Q = any] calm_sbind [OF GetAttr_calm [OF tr]] calm_sbind [OF calm_of_result [where Q = any]]
        calm_if calm_ret calm_fail units_calm(1) [OF tr])
qed

lemma triple_load_calm: "m = Some x \<Longrightarrow> triple P (k x) Q R \<Longrightarrow> triple P (sbind (sload m) k) Q R"
  by (simp add: sload_Some)

lemma set_info_keeps:
  fixes E :: "'d vf_env"
  assumes E: "vf_env_ok E"
  shows "keeps a f (VirtioFsSimpleFileSetInfo E a t b)"
proof -
  have system: "keeps a f (with_file a (\<lambda>_. SetFileSystemInfo b) :: ('d, unit) fop)"
    unfolding SetFileSystemInfo_def by (rule with_file_at, rule keeps_calm [OF set_label_calm]) (simp add: offset_VolumeLabel_def)
  have label: "keeps a f (with_file a (\<lambda>_. SetFileSystemVolumeLabelInfo b) :: ('d, unit) fop)"
    unfolding SetFileSystemVolumeLabelInfo_def by (rule with_file_at, rule keeps_calm [OF set_label_calm]) simp
  obtain st where st: "ValidateInfoStructure (length b) (offset_FileName + 2) True b = Some st"
    "st = EFI_SUCCESS \<Longrightarrow> offset_FileName + 2 \<le> length b \<and> (\<exists>s. string16 (drop offset_FileName b) = Some s)"
    using validate_total [of True offset_FileName b] by (auto simp: offset_FileName_def)
  have finfo: "keeps a f (SetFileInfo E a b)"
  proof (cases "st = EFI_SUCCESS")
    case True
    then obtain i where i: "file_info_of b = Some i" using st(2) file_info_some by blast
    have "keeps a f (sthen (Rename E a (fi_FileName i)) (UpdateAttributes E a i))"
      by (rule triple_sthen [OF rename_keeps [OF E]], rule triple_at_live, rule update_attributes_keeps [OF E])
    then have "keeps a f (sthen (of_status EFI_SUCCESS) (sthen (Rename E a (fi_FileName i)) (UpdateAttributes E a i)))"
      by (rule keeps_sthen [where Q' = any, rotated]) (simp add: of_status_def calm_ret)
    then show ?thesis unfolding SetFileInfo_def st(1) i sload_Some True .
  next
    case False
    have "keeps a f (sthen (of_status st) k :: ('d, unit) fop)" for k :: "('d, unit) fop"
      by (rule keeps_calm [where Q = any], rule of_status_calm) (simp add: False)
    then show ?thesis unfolding SetFileInfo_def st(1) sload_Some .
  qed
  show ?thesis
    unfolding VirtioFsSimpleFileSetInfo_def using finfo system label
    by (cases t) (auto intro: keeps_calm [OF calm_fail])
qed

section \<open>All calls\<close>

lemma triple_reply: "triple P m (\<lambda>_. vfs_ok) (\<lambda>_. vfs_ok) \<Longrightarrow> triple P (reply g m) (\<lambda>_. vfs_ok) (\<lambda>_. vfs_ok)"
  unfolding reply_def by (erule triple_sbind) (simp add: triple_ret)

lemma keeps_vfs: "keeps a f m \<Longrightarrow> triple (at a f) m (\<lambda>_. vfs_ok) (\<lambda>_. vfs_ok)"
  by (erule triple_weaken) (simp_all add: live_vfs)

text \<open>Writing relies on the count that the device returns.\<close>

definition device_ok :: "'d vf_env \<Rightarrow> vf_call \<Rightarrow> bool" where
  "device_ok E c \<longleftrightarrow> vf_env_ok E \<and> (case c of Write _ _ \<Rightarrow> honest_write (Transport E) | _ \<Rightarrow> True)"

lemma call_safe:
  assumes E: "device_ok E c"
  shows "triple (\<lambda>fs. vfs_ok fs \<and> call_ok c fs) (run_call fuel E c) (\<lambda>_. vfs_ok) (\<lambda>_. vfs_ok)"
proof -
  have env: "vf_env_ok E" using E by (simp add: device_ok_def)
  have on_file: "triple (\<lambda>fs. vfs_ok fs \<and> call_ok c fs) (reply g m) (\<lambda>_. vfs_ok) (\<lambda>_. vfs_ok)"
    if "handle_of c = Some a" "\<And>f. triple (at a f) m (\<lambda>_. vfs_ok) (\<lambda>_. vfs_ok)" for a g and m :: "('a, 'b) fop"
    by (rule triple_reply, rule triple_weaken [OF triple_at_live [OF that(2)]]) (auto simp: call_ok_def that(1) still_open_def)
  show ?thesis
  proof (cases c)
    case OpenVolume
    have "triple vfs_ok (reply Handle (VirtioFsOpenVolume E)) (\<lambda>_. vfs_ok) (\<lambda>_. vfs_ok)"
      by (rule triple_reply, rule triple_weaken [OF open_volume_triple [OF env]]) (auto dest: live_vfs)
    then have "triple (\<lambda>fs. vfs_ok fs \<and> call_ok c fs) (reply Handle (VirtioFsOpenVolume E)) (\<lambda>_. vfs_ok) (\<lambda>_. vfs_ok)"
      by (rule triple_weaken) simp_all
    then show ?thesis by (simp add: OpenVolume)
  next
    case (Write a b)
    have "triple (\<lambda>fs. vfs_ok fs \<and> call_ok c fs) (reply (\<lambda>(st, n). Written st n) (VirtioFsSimpleFileWrite E a b)) (\<lambda>_. vfs_ok) (\<lambda>_. vfs_ok)"
    proof (cases "length b < 2 ^ 64")
      case True
      then show ?thesis using on_file [OF _ keeps_vfs [OF write_keeps [OF env]]] E Write by (simp add: device_ok_def)
    qed (simp add: triple_def call_ok_def Write)
    then show ?thesis by (simp add: Write)
  next
    case (SetPosition a n)
    have "triple (\<lambda>fs. vfs_ok fs \<and> call_ok c fs) (reply (\<lambda>_. NoReply) (VirtioFsSimpleFileSetPosition E a n)) (\<lambda>_. vfs_ok) (\<lambda>_. vfs_ok)"
    proof (cases "n < 2 ^ 64")
      case True
      then show ?thesis using on_file [OF _ keeps_vfs [OF position_keeps(2) [OF env]]] SetPosition by simp
    qed (simp add: triple_def call_ok_def SetPosition)
    then show ?thesis by (simp add: SetPosition)
  next
    case (GetPosition a)
    then show ?thesis using on_file [OF _ keeps_vfs [OF position_keeps(1) [OF env, of 0]]] by simp
  qed (use on_file [OF _ open_triple [OF env]] on_file [OF _ close_triple [OF env]] on_file [OF _ delete_triple [OF env]]
      on_file [OF _ keeps_vfs [OF read_keeps [OF env]]] on_file [OF _ keeps_vfs [OF get_info_keeps [OF env]]]
      on_file [OF _ keeps_vfs [OF set_info_keeps [OF env]]] on_file [OF _ keeps_vfs [OF flush_keeps [OF env]]] in simp_all)
qed

end
