(* ===== verification/VirtioFsServe.thy ===== *)
theory VirtioFsServe
  imports VirtioFsWhole
begin

text \<open>
  What reading and writing do when the file server behaves: the contract of a server that keeps the contents of
  one open file, and the effect of the driver's loops over partial transfers.
\<close>

section \<open>The contract of a file server\<close>

definition overwrite :: "nat \<Rightarrow> 'a list \<Rightarrow> 'a list \<Rightarrow> 'a list" where
  "overwrite off d c = take off c @ d @ drop (off + length d) c"

lemma length_overwrite: "off \<le> length c \<Longrightarrow> length (overwrite off d c) = max (length c) (off + length d)"
  by (simp add: overwrite_def)

lemma overwrite_overwrite: "off \<le> length c \<Longrightarrow> overwrite (off + length a) b (overwrite off a c) = overwrite off (a @ b) c"
  by (simp add: overwrite_def ac_simps)

lemma read_overwrite: "off \<le> length c \<Longrightarrow> take (length d) (drop off (overwrite off d c)) = d"
  by (simp add: overwrite_def)

text \<open>
  While request numbers last, the server answers a query for the size, a read with a part of what is there, nonempty
  if anything is, and a write with the size of a nonempty part that it has stored.
\<close>

definition answers :: "nat \<Rightarrow> 'd VIRTIO_FS \<Rightarrow> bool" where
  "answers limit fs \<longleftrightarrow> 8 \<le> QueueSize fs \<and> RequestId fs < max_u64 \<and> MaxWrite fs = limit"

definition file_server :: "'d transport \<Rightarrow> nat \<Rightarrow> nat \<Rightarrow> nat \<Rightarrow> ('d \<Rightarrow> byte list) \<Rightarrow> bool" where
  "file_server tr limit node handle content \<longleftrightarrow>
     (\<forall>fs. answers limit fs \<and> length (content (Dev fs)) < 2 ^ 64 \<longrightarrow>
       (\<exists>a d. VirtioFsFuseGetAttr tr node fs = (Ok a, fs\<lparr>Dev := d, RequestId := Suc (RequestId fs)\<rparr>) \<and>
         at_Size a = length (content (Dev fs)) \<and> content d = content (Dev fs))) \<and>
     (\<forall>fs off n. answers limit fs \<and> off < 2 ^ 64 \<and> 0 < n \<and> n < 2 ^ 32 - 16 \<longrightarrow>
       (\<exists>bs d. VirtioFsFuseReadFileOrDir tr node handle False off n fs = (Ok bs, fs\<lparr>Dev := d, RequestId := Suc (RequestId fs)\<rparr>) \<and>
         bs = take (length bs) (drop off (content (Dev fs))) \<and> length bs \<le> n \<and> (bs = [] \<longrightarrow> length (content (Dev fs)) \<le> off) \<and>
         content d = content (Dev fs))) \<and>
     (\<forall>fs off data. answers limit fs \<and> data \<noteq> [] \<and> length data \<le> limit \<and> off \<le> length (content (Dev fs)) \<and> off + length data < 2 ^ 64 \<longrightarrow>
       (\<exists>k d. VirtioFsFuseWrite tr node handle off data fs = (Ok k, fs\<lparr>Dev := d, RequestId := Suc (RequestId fs)\<rparr>) \<and>
         0 < k \<and> k \<le> length data \<and> content d = overwrite off (take k data) (content (Dev fs))))"

lemma serves_attr:
  assumes "file_server tr limit node handle content" and "answers limit fs" and "length (content (Dev fs)) < 2 ^ 64"
  obtains a d where "VirtioFsFuseGetAttr tr node fs = (Ok a, fs\<lparr>Dev := d, RequestId := Suc (RequestId fs)\<rparr>)"
    "at_Size a = length (content (Dev fs))" "content d = content (Dev fs)"
  using assms unfolding file_server_def by blast

lemma serves_read:
  assumes "file_server tr limit node handle content" and "answers limit fs" and "off < 2 ^ 64" "0 < n" "n < 2 ^ 32 - 16"
  obtains bs d where "VirtioFsFuseReadFileOrDir tr node handle False off n fs = (Ok bs, fs\<lparr>Dev := d, RequestId := Suc (RequestId fs)\<rparr>)"
    "bs = take (length bs) (drop off (content (Dev fs)))" "length bs \<le> n" "bs = [] \<Longrightarrow> length (content (Dev fs)) \<le> off" "content d = content (Dev fs)"
  using assms unfolding file_server_def by blast

lemma serves_write:
  assumes "file_server tr limit node handle content" and "answers limit fs" and "data \<noteq> []" "length data \<le> limit"
    "off \<le> length (content (Dev fs))" "off + length data < 2 ^ 64"
  obtains k d where "VirtioFsFuseWrite tr node handle off data fs = (Ok k, fs\<lparr>Dev := d, RequestId := Suc (RequestId fs)\<rparr>)"
    "0 < k" "k \<le> length data" "content d = overwrite off (take k data) (content (Dev fs))"
  using assms unfolding file_server_def by blast

section \<open>Loops\<close>

text \<open>Only the device and the request counter differ, and the counter by at most a number of requests.\<close>

definition after :: "nat \<Rightarrow> 'd VIRTIO_FS \<Rightarrow> 'd VIRTIO_FS \<Rightarrow> bool" where
  "after k fs fs' \<longleftrightarrow> (\<exists>d r. fs' = fs\<lparr>Dev := d, RequestId := r\<rparr> \<and> r \<le> RequestId fs + k)"

lemma after_step: "after k (fs\<lparr>Dev := d, RequestId := Suc (RequestId fs)\<rparr>) fs' \<Longrightarrow> k < m \<Longrightarrow> after m fs fs'"
  unfolding after_def by fastforce

lemma after_refl: "after k fs fs"
  unfolding after_def by (rule exI [of _ "Dev fs"], rule exI [of _ "RequestId fs"]) simp

lemma answers_step: "answers limit fs \<Longrightarrow> Suc (RequestId fs) < max_u64 \<Longrightarrow> answers limit (fs\<lparr>Dev := d, RequestId := Suc (RequestId fs)\<rparr>)"
  by (simp add: answers_def)

lemma read_loop_serves:
  assumes S: "file_server (Transport E) limit node handle content" and n: "n < 2 ^ 32 - 16"
  shows "left + length acc = n \<Longrightarrow> acc = take (length acc) (drop pos (content (Dev fs))) \<Longrightarrow> pos + n < 2 ^ 64 \<Longrightarrow> answers limit fs \<Longrightarrow>
    RequestId fs + left < max_u64 \<Longrightarrow>
    \<exists>fs'. read_loop E node handle pos left acc fs = (Ok (take n (drop pos (content (Dev fs))), EFI_SUCCESS), fs') \<and> after left fs fs' \<and>
      content (Dev fs') = content (Dev fs)"
proof (induction left arbitrary: acc fs rule: less_induct)
  case (less left)
  let ?c = "content (Dev fs)"
  show ?case
  proof (cases "left = 0")
    case True
    then have "read_loop E node handle pos left acc fs = (Ok (acc, EFI_SUCCESS), fs)" by (simp add: read_loop.simps [of E node handle pos 0] sret_def)
    then show ?thesis using less(2,3) True after_refl by auto
  next
    case False
    have m: "min max_u32 left = left" "(pos + length acc) mod 2 ^ 64 = pos + length acc" using less(2,4) n by auto
    obtain bs d where r: "VirtioFsFuseReadFileOrDir (Transport E) node handle False (pos + length acc) left fs = (Ok bs, fs\<lparr>Dev := d, RequestId := Suc (RequestId fs)\<rparr>)"
      "bs = take (length bs) (drop (pos + length acc) ?c)" "length bs \<le> left" "bs = [] \<Longrightarrow> length ?c \<le> pos + length acc" "content d = ?c"
      using serves_read [OF S less(5), of "pos + length acc" left] less(2,4) n False by auto
    let ?fs = "fs\<lparr>Dev := d, RequestId := Suc (RequestId fs)\<rparr>"
    have step: "read_loop E node handle pos left acc fs =
        (if bs = [] then (Ok (acc, EFI_SUCCESS), ?fs) else read_loop E node handle pos (left - length bs) (acc @ bs) ?fs)"
      using False unfolding read_loop.simps [of E node handle pos left acc] m by (simp add: r(1) sbind_def stry_def sret_def)
    show ?thesis
    proof (cases "bs = []")
      case True
      have "acc = take n (drop pos ?c)"
      proof -
        have "length (drop pos ?c) \<le> length acc" using r(4) True by simp
        then show ?thesis using less(2,3) by (metis le_add2 le_trans take_all)
      qed
      moreover have "after left fs ?fs" using after_step [OF after_refl [of 0]] False by simp
      ultimately show ?thesis using step True r(5) by simp
    next
      case nonempty: False
      have acc: "acc @ bs = take (length (acc @ bs)) (drop pos ?c)"
      proof -
        have "take (length acc + length bs) (drop pos ?c) = take (length acc) (drop pos ?c) @ take (length bs) (drop (pos + length acc) ?c)"
          by (simp add: take_add add.commute)
        then show ?thesis using less(3) r(2) by simp
      qed
      have less': "left - length bs < left" using nonempty False by simp
      have "\<exists>fs'. read_loop E node handle pos (left - length bs) (acc @ bs) ?fs = (Ok (take n (drop pos (content (Dev ?fs))), EFI_SUCCESS), fs') \<and>
          after (left - length bs) ?fs fs' \<and> content (Dev fs') = content (Dev ?fs)"
      proof (rule less.IH [OF less'])
        show "left - length bs + length (acc @ bs) = n" using less(2) r(3) by simp
        show "acc @ bs = take (length (acc @ bs)) (drop pos (content (Dev ?fs)))"
        proof -
          have c: "content (Dev ?fs) = ?c" using r(5) by simp
          show ?thesis unfolding c by (rule acc)
        qed
        show "RequestId ?fs + (left - length bs) < max_u64" using less(6) less' by simp
        show "answers limit ?fs" by (rule answers_step) (use less(5,6) False in simp_all)
      qed (rule less(4))
      then obtain fs' where fs': "read_loop E node handle pos (left - length bs) (acc @ bs) ?fs = (Ok (take n (drop pos ?c), EFI_SUCCESS), fs')"
        "after (left - length bs) ?fs fs'" "content (Dev fs') = ?c" using r(5) by auto
      have "after left fs fs'" by (rule after_step [OF fs'(2) less'])
      then show ?thesis using fs' step nonempty by simp
    qed
  qed
qed

lemma write_loop_serves:
  assumes S: "file_server (Transport E) limit node handle content" and limit: "0 < limit" and n: "pos + length Buffer < 2 ^ 64"
  shows "T \<le> length Buffer \<Longrightarrow> pos + T \<le> length (content (Dev fs)) \<Longrightarrow> answers limit fs \<Longrightarrow> RequestId fs + (length Buffer - T) < max_u64 \<Longrightarrow>
    \<exists>fs'. write_loop E node handle pos Buffer T fs = (Ok (length Buffer, EFI_SUCCESS), fs') \<and> after (length Buffer - T) fs fs' \<and>
      content (Dev fs') = overwrite (pos + T) (drop T Buffer) (content (Dev fs))"
proof (induction "length Buffer - T" arbitrary: T fs rule: less_induct)
  case less
  let ?c = "content (Dev fs)"
  show ?case
  proof (cases "T = length Buffer")
    case True
    then have "write_loop E node handle pos Buffer T fs = (Ok (length Buffer, EFI_SUCCESS), fs)"
      by (simp add: write_loop.simps [of E node handle pos Buffer "length Buffer"] sret_def)
    then show ?thesis using True after_refl by (auto simp: overwrite_def)
  next
    case False
    let ?m = "min limit (length Buffer - T)"
    let ?data = "take ?m (drop T Buffer)"
    have left: "(length Buffer + 2 ^ 64 - T) mod 2 ^ 64 = length Buffer - T" "(pos + T) mod 2 ^ 64 = pos + T" using less(2) n False by (auto simp: mod_if)
    have "T + ?m \<le> length Buffer" using less(2) by linarith
    then have load: "load_bytes Buffer T ?m = Some ?data" by (simp add: load_bytes_def)
    have data: "?data \<noteq> []" "length ?data \<le> limit" "length ?data \<le> length Buffer - T" "pos + T + length ?data < 2 ^ 64"
      using limit less(2) False n by auto
    obtain k d where w: "VirtioFsFuseWrite (Transport E) node handle (pos + T) ?data fs = (Ok k, fs\<lparr>Dev := d, RequestId := Suc (RequestId fs)\<rparr>)"
      "0 < k" "k \<le> length ?data" "content d = overwrite (pos + T) (take k ?data) ?c"
      using serves_write [OF S less(4) data(1,2) less(3) data(4)] by metis
    let ?fs = "fs\<lparr>Dev := d, RequestId := Suc (RequestId fs)\<rparr>"
    have k: "T + k \<le> length Buffer" "take k ?data = take k (drop T Buffer)" "length (take k ?data) = k" 
    proof -
      show "T + k \<le> length Buffer" using w(3) data(3) less(2) by linarith
      have "k \<le> ?m" using w(3) by simp
      then show "take k ?data = take k (drop T Buffer)" by (simp add: min_absorb1)
      show "length (take k ?data) = k" using w(3) by (simp only: length_take min_absorb2)
    qed
    have step: "write_loop E node handle pos Buffer T fs = write_loop E node handle pos Buffer (T + k) ?fs"
      using False less(4) w(2) unfolding write_loop.simps [of E node handle pos Buffer T] left
      by (simp add: answers_def sbind_def sget_def load w(1) stry_def)
    have c: "pos + (T + k) \<le> length (content d)" using w(4) less(3) k(3) by (simp add: length_overwrite)
    have "\<exists>fs'. write_loop E node handle pos Buffer (T + k) ?fs = (Ok (length Buffer, EFI_SUCCESS), fs') \<and> after (length Buffer - (T + k)) ?fs fs' \<and>
        content (Dev fs') = overwrite (pos + (T + k)) (drop (T + k) Buffer) (content (Dev ?fs))"
      by (rule less.hyps) (use w(2) k(1) c less(4,5) False in \<open>auto intro: answers_step\<close>)
    then obtain fs' where fs': "write_loop E node handle pos Buffer (T + k) ?fs = (Ok (length Buffer, EFI_SUCCESS), fs')"
      "after (length Buffer - (T + k)) ?fs fs'" "content (Dev fs') = overwrite (pos + (T + k)) (drop (T + k) Buffer) (content d)" by auto
    have "content (Dev fs') = overwrite (pos + T) (take k (drop T Buffer) @ drop (T + k) Buffer) ?c"
      using overwrite_overwrite [OF less(3), of "take k ?data" "drop (T + k) Buffer"] unfolding fs'(3) w(4) k(2) k(3) [unfolded k(2)] by (simp only: add.assoc)
    moreover have "take k (drop T Buffer) @ drop (T + k) Buffer = drop T Buffer" by (metis append_take_drop_id drop_drop add.commute)
    moreover have "after (length Buffer - T) fs fs'" by (rule after_step [OF fs'(2)]) (use w(2) k(1) in simp)
    ultimately show ?thesis using fs'(1) step by simp
  qed
qed

section \<open>Calls\<close>

text \<open>A regular file that is open at a handle of the server, with room for a number of requests.\<close>

definition open_regular :: "nat \<Rightarrow> nat \<Rightarrow> nat \<Rightarrow> nat \<Rightarrow> nat \<Rightarrow> nat \<Rightarrow> 'd VIRTIO_FS \<Rightarrow> bool" where
  "open_regular This limit node handle position requests fs \<longleftrightarrow> 8 \<le> QueueSize fs \<and> MaxWrite fs = limit \<and> RequestId fs + requests < max_u64 \<and>
     (\<exists>f. Objects fs This = Some f \<and> \<not> IsDirectory f \<and> IsOpenForWriting f \<and> NodeId f = node \<and> FuseHandle f = handle \<and> FilePosition f = position)"

lemma read_serves:
  assumes S: "file_server (Transport E) limit node handle content" and o: "open_regular This limit node handle pos (n + 1 + k) fs"
    and n: "n < 2 ^ 32 - 16" "pos + n < 2 ^ 64" "pos \<le> length (content (Dev fs))" "length (content (Dev fs)) < 2 ^ 64"
  shows "\<exists>fs'. run_call fuel E (Read This n) fs = (Ok (Data (FileBytes (take n (drop pos (content (Dev fs)))))), fs') \<and>
    content (Dev fs') = content (Dev fs) \<and>
    open_regular This limit node handle (pos + min n (length (content (Dev fs)) - pos)) k fs'"
proof -
  let ?c = "content (Dev fs)"
  obtain f where f: "Objects fs This = Some f" "\<not> IsDirectory f" "IsOpenForWriting f" "NodeId f = node" "FuseHandle f = handle" "FilePosition f = pos"
    using o by (auto simp: open_regular_def)
  have a: "answers limit fs" using o by (auto simp: open_regular_def answers_def)
  obtain at d where g: "VirtioFsFuseGetAttr (Transport E) node fs = (Ok at, fs\<lparr>Dev := d, RequestId := Suc (RequestId fs)\<rparr>)"
    "at_Size at = length ?c" "content d = ?c" using serves_attr [OF S a n(4)] by blast
  let ?fs = "fs\<lparr>Dev := d, RequestId := Suc (RequestId fs)\<rparr>"
  have "answers limit ?fs" using o by (simp add: open_regular_def answers_def)
  then obtain fs1 where r: "read_loop E node handle pos n [] ?fs = (Ok (take n (drop pos ?c), EFI_SUCCESS), fs1)" "after n ?fs fs1" "content (Dev fs1) = ?c"
    using read_loop_serves [OF S n(1), of n "[]" pos ?fs] n(2) o g(3) by (auto simp: open_regular_def)
  let ?len = "length (take n (drop pos ?c))"
  let ?fs' = "update_file This (\<lambda>f. f\<lparr>FilePosition := (FilePosition f + ?len) mod 2 ^ 64\<rparr>) fs1"
  have run: "run_call fuel E (Read This n) fs = (Ok (Data (FileBytes (take n (drop pos ?c)))), ?fs')"
    using f n(3) by (simp add: VirtioFsSimpleFileRead_def ReadRegularFile_def with_file_def reply_def sop_simps sbind_def stry_def g r)
  have obj: "Objects fs1 = Objects fs" "QueueSize fs1 = QueueSize fs" "MaxWrite fs1 = MaxWrite fs" "RequestId fs1 \<le> RequestId fs + 1 + n"
    using r(2) by (auto simp: after_def)
  have "?len = min n (length ?c - pos)" "pos + ?len < 2 ^ 64" using n(2) by (auto simp: min_def)
  then have "open_regular This limit node handle (pos + min n (length ?c - pos)) k ?fs'"
    using o f obj by (auto simp: open_regular_def update_file_def)
  then show ?thesis using run r(3) by (auto simp: update_file_def)
qed

lemma write_serves:
  assumes S: "file_server (Transport E) limit node handle content" and o: "open_regular This limit node handle pos (length Buffer + k) fs"
    and n: "0 < limit" "pos + length Buffer < 2 ^ 64" "pos \<le> length (content (Dev fs))"
  shows "\<exists>fs'. run_call fuel E (Write This Buffer) fs = (Ok (Written EFI_SUCCESS (length Buffer)), fs') \<and>
    content (Dev fs') = overwrite pos Buffer (content (Dev fs)) \<and> open_regular This limit node handle (pos + length Buffer) k fs'"
proof -
  obtain f where f: "Objects fs This = Some f" "\<not> IsDirectory f" "IsOpenForWriting f" "NodeId f = node" "FuseHandle f = handle" "FilePosition f = pos"
    using o by (auto simp: open_regular_def)
  have a: "answers limit fs" using o by (auto simp: open_regular_def answers_def)
  obtain fs1 where r: "write_loop E node handle pos Buffer 0 fs = (Ok (length Buffer, EFI_SUCCESS), fs1)" "after (length Buffer) fs fs1"
    "content (Dev fs1) = overwrite pos Buffer (content (Dev fs))"
    using write_loop_serves [OF S n(1,2) _ _ a, of 0] n(3) o by (auto simp: open_regular_def)
  let ?fs' = "update_file This (\<lambda>f. f\<lparr>FilePosition := (FilePosition f + length Buffer) mod 2 ^ 64\<rparr>) fs1"
  have run: "run_call fuel E (Write This Buffer) fs = (Ok (Written EFI_SUCCESS (length Buffer)), ?fs')"
    using f by (simp add: VirtioFsSimpleFileWrite_def with_file_def reply_def sop_simps sbind_def r)
  have obj: "Objects fs1 = Objects fs" "QueueSize fs1 = QueueSize fs" "MaxWrite fs1 = MaxWrite fs" "RequestId fs1 \<le> RequestId fs + length Buffer"
    using r(2) by (auto simp: after_def)
  then have "open_regular This limit node handle (pos + length Buffer) k ?fs'"
    using o f n(2) by (auto simp: open_regular_def update_file_def)
  then show ?thesis using run r(3) by (auto simp: update_file_def)
qed

lemma seek_serves:
  assumes "open_regular This limit node handle pos k fs" and "p < max_u64"
  shows "\<exists>fs'. run_call fuel E (SetPosition This p) fs = (Ok NoReply, fs') \<and> Dev fs' = Dev fs \<and> open_regular This limit node handle p k fs'"
  using assms by (auto simp: open_regular_def VirtioFsSimpleFileSetPosition_def with_file_def reply_def sop_simps sbind_def update_file_def)

end
