(* ===== verification/VirtioFsDemo.thy ===== *)
theory VirtioFsDemo
  imports VirtioFsServe
begin

text \<open>
  A small file server behind the virtio queue: one file, at most two bytes in a transfer. It satisfies the contracts of
  the device and of a file server. To have a dishonest server as well, the count that a write returns can be
  too large by a given number.
\<close>

section \<open>The server\<close>

definition demo_serve :: "nat \<Rightarrow> nat \<Rightarrow> byte list list \<Rightarrow> nat list \<Rightarrow> byte list \<Rightarrow> byte list \<times> byte list" where
  "demo_serve lie opcode reqs sizes d =
     (let off = le_value (take 8 (drop 8 (reqs ! 1))); n = le_value (take 4 (drop 16 (reqs ! 1)))
      in if opcode = 3 then (replicate 24 0 @ le_bytes 8 (length d) @ replicate 44 0 @ le_bytes 4 0x81A4 @ le_bytes 4 1 @ replicate 20 0, d)
         else if opcode = 15 then (take (min 2 n) (drop off d), d)
         else if opcode = 16 then (le_bytes 4 (lie + min 2 (length (reqs ! 2))) @ le_bytes 4 0, overwrite off (take 2 (reqs ! 2)) d)
         else (replicate (sum_list sizes - 16) 0, d))"

definition demo_flush :: "nat \<Rightarrow> byte list \<Rightarrow> byte list list \<Rightarrow> nat list \<Rightarrow> EFI_STATUS \<times> nat \<times> byte list \<times> byte list" where
  "demo_flush lie d reqs sizes =
     (let (payload, d') = demo_serve lie (le_value (take 4 (drop 4 (reqs ! 0)))) reqs sizes d;
          resp = le_bytes 4 (16 + length payload) @ le_bytes 4 0 @ take 8 (drop 8 (reqs ! 0)) @ payload
      in if sizes = [] then (EFI_SUCCESS, 0, [], d')
         else (EFI_SUCCESS, length resp, take (sum_list sizes) (resp @ replicate (sum_list sizes) 0), d'))"

definition demo_transport :: "nat \<Rightarrow> byte list transport" where
  "demo_transport lie = \<lparr>MapSharedBuffer = (\<lambda>d wr n. (EFI_SUCCESS, d)), VirtioFlush = demo_flush lie, UnmapSharedBuffer = (\<lambda>d. (EFI_SUCCESS, d))\<rparr>"

lemma demo_transport_ok: "transport_ok (demo_transport lie)"
proof -
  have "length (take k (ws @ xs @ ys @ zs @ replicate k 0)) = k" for k and ws xs ys zs :: "byte list"
    by (simp only: length_take length_append length_replicate)
  then show ?thesis by (auto simp: transport_ok_def demo_transport_def demo_flush_def Let_def simp del: length_take take_append split: prod.splits if_splits)
qed

section \<open>Exchanges with the server\<close>

lemma demo_map: "map_vectors (demo_transport lie) wr vs d = (EFI_SUCCESS, map (\<lambda>v. v\<lparr>iv_Mapped := True\<rparr>) vs, d)"
  by (induction vs) (simp_all add: demo_transport_def)

lemma demo_unmap: "unmap_vectors (demo_transport lie) vs EFI_SUCCESS d = (EFI_SUCCESS, d)"
  by (induction vs) (simp_all add: demo_transport_def)

lemma demo_flush_unfold: "VirtioFlush (demo_transport lie) = demo_flush lie"
  by (simp add: demo_transport_def)


definition demo_response :: "nat \<Rightarrow> nat \<Rightarrow> byte list \<Rightarrow> byte list" where
  "demo_response reqid sz payload = take sz (le_bytes 4 (16 + length payload) @ le_bytes 4 0 @ le_bytes 8 reqid @ payload @ replicate sz 0)"

lemma demo_flush_header:
  assumes "op < 2 ^ 32" and "sizes \<noteq> []" and "demo_serve lie op (h # bodies) sizes d = (payload, d')"
    and "h = le_bytes 4 n @ le_bytes 4 op @ le_bytes 8 reqid @ rest"
  shows "demo_flush lie d (h # bodies) sizes = (EFI_SUCCESS, 16 + length payload, demo_response reqid (sum_list sizes) payload, d')"
proof -
  have "le_value (take 4 (drop 4 h)) = op" "take 8 (drop 8 h) = le_bytes 8 reqid"
    using assms(1) by (simp_all add: assms(4) le_value_le_bytes)
  then show ?thesis using assms(2,3) by (simp add: demo_flush_def demo_response_def)
qed

abbreviation ready :: "nat list \<Rightarrow> io_vector list" where
  "ready sizes \<equiv> map (\<lambda>v. v\<lparr>iv_Mapped := True\<rparr>) (map response_vec sizes)"

lemma ready_sizes: "map iv_Size (ready sizes) = sizes"
  by (simp add: response_vec_def comp_def)

text \<open>The first vector receives the header.\<close>

definition header_vec :: "nat \<Rightarrow> nat \<Rightarrow> io_vector" where
  "header_vec reqid n = \<lparr>iv_Buffer = Some (le_bytes 4 (16 + n) @ le_bytes 4 0 @ le_bytes 8 reqid), iv_Size = 16, iv_Mapped = False, iv_Transferred = 16\<rparr>"

lemma demo_fill:
  assumes "fill_vectors (length payload) (take s (payload @ replicate (16 + s) 0)) (ready sizes) = (vs, r)"
  shows "fill_vectors (16 + length payload) (demo_response reqid (16 + s) payload) (ready (16 # sizes)) =
    ((header_vec reqid (length payload))\<lparr>iv_Mapped := True\<rparr> # vs, r)"
proof -
  have "demo_response reqid (16 + s) payload = (le_bytes 4 (16 + length payload) @ le_bytes 4 0 @ le_bytes 8 reqid) @ take s (payload @ replicate (16 + s) 0)"
    by (simp add: demo_response_def)
  then show ?thesis using assms by (simp add: response_vec_def header_vec_def)
qed

definition filled :: "bool \<Rightarrow> io_vector list \<Rightarrow> bool" where
  "filled tail vs \<longleftrightarrow> (tail \<longrightarrow> vs \<noteq> []) \<and> (\<forall>w \<in> set (if tail then butlast vs else vs). iv_Transferred w = iv_Size w)"

lemma demo_check:
  assumes "sum_list (map iv_Transferred vs) = n"
  shows "\<exists>st k. VirtioFsFuseCheckResponse (header_vec reqid n # vs) reqid tail = Some (st, k) \<and>
    (reqid < 2 ^ 64 \<and> filled tail vs \<longrightarrow> st = EFI_SUCCESS \<and> k = (if tail then iv_Transferred (last vs) else 0))"
proof -
  let ?b = "le_bytes 4 (16 + n) @ le_bytes 4 0 @ le_bytes 8 reqid"
  have "le_field ?b 0 4 = Some ((16 + n) mod 2 ^ 32)" using le_field_le_bytes [of 0 "[]" 4 "16 + n"] by simp
  moreover have "le_field ?b 8 8 = Some (reqid mod 2 ^ 64)" using le_field_le_bytes [of 8 "le_bytes 4 (16 + n) @ le_bytes 4 0" 8 reqid "[]"] by simp
  moreover have "le_field ?b 4 4 = Some 0" using le_field_le_bytes [of 4 "le_bytes 4 (16 + n)" 4 0] by simp
  moreover have "sum_list (map iv_Transferred (header_vec reqid n # vs)) = 16 + n" using assms by (simp add: header_vec_def)
  moreover have "drop 1 (take (if tail then length (header_vec reqid n # vs) - 1 else length (header_vec reqid n # vs)) (header_vec reqid n # vs)) =
      (if tail then butlast vs else vs)" by (cases vs) (simp_all add: butlast_conv_take)
  moreover have "vs \<noteq> [] \<Longrightarrow> (header_vec reqid n # vs) ! length vs = last vs" by (simp add: last_conv_nth)
  moreover have "iv_Size (header_vec reqid n) = 16" "iv_Transferred (header_vec reqid n) = 16" "iv_Buffer (header_vec reqid n) = Some ?b"
    by (simp_all add: header_vec_def)
  ultimately have eq: "VirtioFsFuseCheckResponse (header_vec reqid n # vs) reqid tail =
      (if tail \<and> vs = [] then Some (EFI_INVALID_PARAMETER, 0)
       else if reqid mod 2 ^ 64 \<noteq> reqid then Some (EFI_PROTOCOL_ERROR, 0)
       else if \<exists>w \<in> set (if tail then butlast vs else vs). iv_Transferred w \<noteq> iv_Size w then Some (EFI_PROTOCOL_ERROR, 0)
       else Some (EFI_SUCCESS, if tail then iv_Transferred (last vs) else 0))"
    unfolding VirtioFsFuseCheckResponse_def list.case sizeof_FUSE_RESPONSE_def Let_def
    by (cases tail; cases "vs = []"; simp split del: if_split cong: if_cong)
  show ?thesis unfolding eq filled_def by (cases "tail \<and> vs = []"; cases "reqid mod 2 ^ 64 = reqid") auto
qed

lemma demo_exchange:
  assumes req: "VirtioFsSgListsValidate (QueueSize fs)
         (Some \<lparr>IoVec = Some (map request_vec (replicate sizeof_FUSE_REQUEST 0 # bodies)), TotalSize = 0\<rparr>)
         (Some \<lparr>IoVec = Some (map response_vec (sizeof_FUSE_RESPONSE # sizes)), TotalSize = 0\<rparr>) =
       Inr (\<lparr>IoVec = Some (map request_vec (replicate sizeof_FUSE_REQUEST 0 # bodies)), TotalSize = rt\<rparr>,
         Some \<lparr>IoVec = Some (map response_vec (sizeof_FUSE_RESPONSE # sizes)), TotalSize = 16 + sum_list sizes\<rparr>)"
    and rt: "sizeof_FUSE_REQUEST \<le> rt" and id: "RequestId fs \<noteq> max_u64" and op: "op < 2 ^ 32"
    and serve: "\<And>h. demo_serve lie op (h # bodies) (16 # sizes) (Dev fs) = (payload, d')"
    and fill: "fill_vectors (length payload) (take (sum_list sizes) (payload @ replicate (16 + sum_list sizes) 0)) (ready sizes) = (vs, 0)"
  shows "\<exists>st k. fuse_exchange (demo_transport lie) op node bodies (Some sizes) tail fs =
      (Ok (st, 0, map (\<lambda>v. case iv_Buffer v of None \<Rightarrow> [] | Some b \<Rightarrow> b) vs, k), fs\<lparr>Dev := d', RequestId := Suc (RequestId fs)\<rparr>) \<and>
    (RequestId fs < 2 ^ 64 \<and> filled tail vs \<longrightarrow> st = EFI_SUCCESS \<and> k = (if tail then iv_Transferred (last vs) else 0))"
proof -
  let ?hdr = "le_bytes 4 rt @ le_bytes 4 op @ le_bytes 8 (RequestId fs) @ le_bytes 8 node @ le_bytes 4 0 @ le_bytes 4 0 @ le_bytes 4 1 @ le_bytes 4 0"
  let ?vs = "header_vec (RequestId fs) (length payload) # clear_mapped vs"
  note f = demo_fill [OF fill, of "RequestId fs"]
  have "length (take (sum_list sizes) (payload @ replicate (16 + sum_list sizes) 0)) = sum_list sizes" by simp
  note shape = fill_vectors_shape [OF fill, unfolded ready_sizes, OF this]
  have len: "length payload \<le> sum_list sizes" using shape by simp
  have bufs: "map (\<lambda>v. case iv_Buffer v of None \<Rightarrow> [] | Some b \<Rightarrow> b) (map (\<lambda>v. v\<lparr>iv_Mapped := True\<rparr>) (map request_vec bs)) = bs" for bs
    by (simp add: request_vec_def comp_def)
  have flush: "demo_flush lie (Dev fs) (?hdr # bodies) (16 # sizes) = (EFI_SUCCESS, 16 + length payload, demo_response (RequestId fs) (16 + sum_list sizes) payload, d')"
    using demo_flush_header [OF op _ serve, of ?hdr rt "RequestId fs"] by simp
  have new: "VirtioFsFuseNewRequest rt op node fs = (EFI_SUCCESS, ?hdr, fs\<lparr>RequestId := Suc (RequestId fs)\<rparr>)"
    using id rt by (simp add: VirtioFsFuseNewRequest_def)
  have header: "set_header ?hdr \<lparr>IoVec = Some (map request_vec (replicate sizeof_FUSE_REQUEST 0 # bodies)), TotalSize = rt\<rparr> =
      \<lparr>IoVec = Some (map request_vec (?hdr # bodies)), TotalSize = rt\<rparr>"
    by (simp add: set_header_def request_vec_def sizeof_FUSE_REQUEST_def)
  have not_over: "\<not> 16 + sum_list sizes < 16 + length payload" using len by simp
  have clear: "clear_mapped ((header_vec (RequestId fs) (length payload))\<lparr>iv_Mapped := True\<rparr> # vs) = ?vs" by (simp add: clear_mapped_def header_vec_def)
  have submit: "VirtioFsSgListsSubmit (demo_transport lie) \<lparr>IoVec = Some (map request_vec (?hdr # bodies)), TotalSize = rt\<rparr>
      (Some \<lparr>IoVec = Some (map response_vec (sizeof_FUSE_RESPONSE # sizes)), TotalSize = 16 + sum_list sizes\<rparr>) (Dev fs) = Some (EFI_SUCCESS, ?vs, d')"
    by (simp only: VirtioFsSgListsSubmit_def vectors_def option.case sg_list.simps demo_map Let_def prod.case bufs sizeof_FUSE_RESPONSE_def ready_sizes
        demo_flush_unfold flush simp_thms if_False f not_over demo_unmap clear)
  have b: "map (\<lambda>v. case iv_Buffer v of None \<Rightarrow> [] | Some b \<Rightarrow> b) (clear_mapped vs) = map (\<lambda>v. case iv_Buffer v of None \<Rightarrow> [] | Some b \<Rightarrow> b) vs"
    by (simp add: clear_mapped_def comp_def)
  have "sum_list (map iv_Transferred (clear_mapped vs)) = length payload" using shape len by (simp add: clear_mapped_def comp_def)
  from demo_check [OF this] obtain st k where c: "VirtioFsFuseCheckResponse ?vs (RequestId fs) tail = Some (st, k)"
    "RequestId fs < 2 ^ 64 \<and> filled tail (clear_mapped vs) \<longrightarrow> st = EFI_SUCCESS \<and> k = (if tail then iv_Transferred (last (clear_mapped vs)) else 0)" by blast
  have e: "Option.bind (iv_Buffer (header_vec (RequestId fs) (length payload))) (\<lambda>b. le_field b 4 4) = Some 0"
    using le_field_le_bytes [of 4 "le_bytes 4 (16 + length payload)" 4 0] by (simp add: header_vec_def)
  have fl: "filled tail (clear_mapped vs) = filled tail vs" "tail \<Longrightarrow> vs \<noteq> [] \<Longrightarrow> iv_Transferred (last (clear_mapped vs)) = iv_Transferred (last vs)"
    by (auto simp: filled_def clear_mapped_def last_map simp flip: map_butlast)
  have "fuse_exchange (demo_transport lie) op node bodies (Some sizes) tail fs =
      (Ok (st, 0, map (\<lambda>v. case iv_Buffer v of None \<Rightarrow> [] | Some b \<Rightarrow> b) vs, k), fs\<lparr>Dev := d', RequestId := Suc (RequestId fs)\<rparr>)"
    unfolding fuse_exchange_def option.map req sum.case prod.case sg_list.simps new header Let_def
    using submit b by (simp add: c(1) e sop_simps sbind_def Errno_of_def)
  then show ?thesis using c(2) fl by (auto simp: filled_def)
qed

lemmas exchange_eval = VirtioFsSgListsValidate_def validate_list_def request_vec_def response_vec_def sizeof_FUSE_REQUEST_def sizeof_FUSE_RESPONSE_def

lemma demo_attr:
  assumes a: "answers limit fs" and len: "length (Dev fs) < 2 ^ 64"
  shows "\<exists>a. VirtioFsFuseGetAttr (demo_transport lie) node fs = (Ok a, fs\<lparr>Dev := Dev fs, RequestId := Suc (RequestId fs)\<rparr>) \<and> at_Size a = length (Dev fs)"
proof -
  let ?b = "replicate 8 0 @ le_bytes 8 (length (Dev fs)) @ replicate 44 0 @ le_bytes 4 0x81A4 @ le_bytes 4 1 @ replicate 20 0 :: byte list"
  let ?p = "replicate 24 0 @ le_bytes 8 (length (Dev fs)) @ replicate 44 0 @ le_bytes 4 0x81A4 @ le_bytes 4 1 @ replicate 20 0 :: byte list"
  have p: "?p = replicate 16 0 @ ?b" by (simp add: replicate_add [of 16 8, symmetric] flip: append_assoc)
  let ?vs = "[\<lparr>iv_Buffer = Some (replicate 16 0), iv_Size = 16, iv_Mapped = True, iv_Transferred = 16\<rparr>,
    \<lparr>iv_Buffer = Some ?b, iv_Size = 88, iv_Mapped = True, iv_Transferred = 88\<rparr>]"
  have "fill_vectors (length ?p) (take (sum_list [16, 88]) (?p @ replicate (16 + sum_list [16, 88]) 0)) (ready [16, 88]) = (?vs, 0)"
    unfolding p by (simp add: response_vec_def)
  from demo_exchange [where op = 3 and bodies = "[le_bytes 4 0 @ le_bytes 4 0 @ le_bytes 8 0]" and rt = 56 and tail = False and node = node, OF _ _ _ _ _ this, of fs lie "Dev fs"]
  have "fuse_exchange (demo_transport lie) 3 node [le_bytes 4 0 @ le_bytes 4 0 @ le_bytes 8 0] (Some [16, 88]) False fs =
      (Ok (EFI_SUCCESS, 0, [replicate 16 0, ?b], 0), fs\<lparr>Dev := Dev fs, RequestId := Suc (RequestId fs)\<rparr>)"
    using a by (auto simp: exchange_eval answers_def demo_serve_def filled_def)
  moreover have "\<exists>x. fuse_attr ?b = Some x \<and> at_Size x = length (Dev fs)"
  proof -
    obtain x where x: "fuse_attr ?b = Some x" using fuse_attr_some [of ?b] by (auto simp: sizeof_ATTR_def)
    moreover have "le_field ?b 8 8 = Some (length (Dev fs))" using le_field_at [of 8 "replicate 8 0" "length (Dev fs)" 8] len by simp
    ultimately show ?thesis by (auto simp: fuse_attr_def bind_eq_Some_conv)
  qed
  ultimately show ?thesis
    by (auto simp: VirtioFsFuseGetAttr_def fuse_call_def struct_sizes sbind_def sret_def sload_def)
qed

lemma demo_read:
  assumes a: "answers limit fs" and n: "off < 2 ^ 64" "0 < n" "n < 2 ^ 32 - 16"
  shows "VirtioFsFuseReadFileOrDir (demo_transport lie) node handle False off n fs =
    (Ok (take (min 2 n) (drop off (Dev fs))), fs\<lparr>Dev := Dev fs, RequestId := Suc (RequestId fs)\<rparr>)"
proof -
  let ?p = "take (min 2 n) (drop off (Dev fs))"
  let ?body = "le_bytes 8 handle @ le_bytes 8 off @ le_bytes 4 n @ le_bytes 4 0 @ le_bytes 8 0 @ le_bytes 4 0 @ le_bytes 4 0"
  let ?buf = "take n (?p @ replicate (16 + n) 0)"
  let ?vs = "[\<lparr>iv_Buffer = Some ?buf, iv_Size = n, iv_Mapped = True, iv_Transferred = length ?p\<rparr>]"
  have lp: "length ?p \<le> n" by simp
  have "fill_vectors (length ?p) (take (sum_list [n]) (?p @ replicate (16 + sum_list [n]) 0)) (ready [n]) = (?vs, 0)"
    using lp by (simp add: response_vec_def min_absorb1 Let_def del: length_take)
  from demo_exchange [where op = 15 and bodies = "[?body]" and rt = 80 and tail = True and node = node, OF _ _ _ _ _ this, of fs lie "Dev fs"]
  have "fuse_exchange (demo_transport lie) 15 node [?body] (Some [n]) True fs =
      (Ok (EFI_SUCCESS, 0, [?buf], length ?p), fs\<lparr>Dev := Dev fs, RequestId := Suc (RequestId fs)\<rparr>)"
    using a n by (auto simp: exchange_eval answers_def demo_serve_def filled_def le_value_le_bytes)
  moreover have "take (length ?p) ?buf = ?p"
  proof -
    have "take (length xs) (take n (xs @ ys)) = xs" if "length xs \<le> n" for xs ys :: "byte list" using that by simp
    from this [OF lp] show ?thesis .
  qed
  ultimately show ?thesis
    by (simp add: VirtioFsFuseReadFileOrDir_def fuse_call_def sbind_def sret_def)
qed

lemma demo_write:
  assumes d: "VirtioFsSgListsValidate (QueueSize fs)
         (Some \<lparr>IoVec = Some (map request_vec [replicate sizeof_FUSE_REQUEST 0, body, data]), TotalSize = 0\<rparr>)
         (Some \<lparr>IoVec = Some (map response_vec [sizeof_FUSE_RESPONSE, 8]), TotalSize = 0\<rparr>) = Inr ls"
    and id: "RequestId fs \<noteq> max_u64" and body: "body = le_bytes 8 handle @ le_bytes 8 off @ le_bytes 4 (length data) @ le_bytes 4 0 @ le_bytes 8 0 @ le_bytes 4 0 @ le_bytes 4 0"
  shows "\<exists>st k. fuse_exchange (demo_transport lie) 16 node [body, data] (Some [8]) False fs =
      (Ok (st, 0, [le_bytes 4 (lie + min 2 (length data)) @ le_bytes 4 0], k),
       fs\<lparr>Dev := overwrite (off mod 2 ^ 64) (take 2 data) (Dev fs), RequestId := Suc (RequestId fs)\<rparr>) \<and>
    (RequestId fs < 2 ^ 64 \<longrightarrow> st = EFI_SUCCESS)"
proof -
  let ?p = "le_bytes 4 (lie + min 2 (length data)) @ le_bytes 4 0"
  let ?vs = "[\<lparr>iv_Buffer = Some ?p, iv_Size = 8, iv_Mapped = True, iv_Transferred = 8\<rparr>]"
  have f: "fill_vectors (length ?p) (take (sum_list [8]) (?p @ replicate (16 + sum_list [8]) 0)) (ready [8]) = (?vs, 0)"
    by (simp add: response_vec_def)
  show ?thesis
    using demo_exchange [where op = 16 and bodies = "[body, data]" and rt = "80 + length data" and tail = False and node = node, OF _ _ id _ _ f,
      of lie "overwrite (off mod 2 ^ 64) (take 2 data) (Dev fs)"] d
    by (auto simp: exchange_eval demo_serve_def filled_def le_value_le_bytes body split: if_splits)
qed

lemma demo_write_result:
  assumes a: "answers limit fs" and d: "data \<noteq> []" "length data \<le> limit" "length data < 2 ^ 32 - 80" and off: "off < 2 ^ 64" and lie: "lie < 2 ^ 31"
  shows "VirtioFsFuseWrite (demo_transport lie) node handle off data fs =
    (Ok (lie + min 2 (length data)), fs\<lparr>Dev := overwrite off (take 2 data) (Dev fs), RequestId := Suc (RequestId fs)\<rparr>)"
proof -
  let ?body = "le_bytes 8 handle @ le_bytes 8 off @ le_bytes 4 (length data) @ le_bytes 4 0 @ le_bytes 8 0 @ le_bytes 4 0 @ le_bytes 4 0"
  let ?l = "VirtioFsSgListsValidate (QueueSize fs)
         (Some \<lparr>IoVec = Some (map request_vec [replicate sizeof_FUSE_REQUEST 0, ?body, data]), TotalSize = 0\<rparr>)
         (Some \<lparr>IoVec = Some (map response_vec [sizeof_FUSE_RESPONSE, 8]), TotalSize = 0\<rparr>)"
  have "\<exists>x. ?l = Inr x" using a d by (auto simp: exchange_eval answers_def)
  then obtain ls where "?l = Inr ls" by blast
  from demo_write [OF this _ refl, of lie node] a
  obtain st k where "fuse_exchange (demo_transport lie) 16 node [?body, data] (Some [8]) False fs =
      (Ok (EFI_SUCCESS, 0, [le_bytes 4 (lie + min 2 (length data)) @ le_bytes 4 0], k),
       fs\<lparr>Dev := overwrite (off mod 2 ^ 64) (take 2 data) (Dev fs), RequestId := Suc (RequestId fs)\<rparr>)"
    by (fastforce simp: answers_def)
  moreover have "le_field (le_bytes 4 (lie + min 2 (length data)) @ le_bytes 4 0) 0 4 = Some (lie + min 2 (length data))"
    using le_field_at [of 0 "[]" "lie + min 2 (length data)" 4] lie by simp
  ultimately show ?thesis using a d off
    by (simp add: VirtioFsFuseWrite_def fuse_call_def sbind_def sget_def sret_def sload_def sizeof_WRITE_def answers_def)
qed

lemma demo_file_server:
  assumes "limit < 2 ^ 32 - 80"
  shows "file_server (demo_transport 0) limit node handle id"
  unfolding file_server_def
proof (intro conjI allI impI)
  fix fs :: "byte list VIRTIO_FS" assume "answers limit fs \<and> length (id (Dev fs)) < 2 ^ 64"
  then show "\<exists>a d. VirtioFsFuseGetAttr (demo_transport 0) node fs = (Ok a, fs\<lparr>Dev := d, RequestId := Suc (RequestId fs)\<rparr>) \<and>
      at_Size a = length (id (Dev fs)) \<and> id d = id (Dev fs)"
    using demo_attr [of limit fs 0 node] by auto
next
  fix fs :: "byte list VIRTIO_FS" and off n :: nat
  assume "answers limit fs \<and> off < 2 ^ 64 \<and> 0 < n \<and> n < 2 ^ 32 - 16"
  then show "\<exists>bs d. VirtioFsFuseReadFileOrDir (demo_transport 0) node handle False off n fs = (Ok bs, fs\<lparr>Dev := d, RequestId := Suc (RequestId fs)\<rparr>) \<and>
      bs = take (length bs) (drop off (id (Dev fs))) \<and> length bs \<le> n \<and> (bs = [] \<longrightarrow> length (id (Dev fs)) \<le> off) \<and> id d = id (Dev fs)"
    using demo_read [of limit fs off n 0 node handle] by (intro exI [of _ "take (min 2 n) (drop off (Dev fs))"] exI [of _ "Dev fs"]) (auto simp: min_def)
next
  fix fs :: "byte list VIRTIO_FS" and off :: nat and data :: "byte list"
  assume a: "answers limit fs \<and> data \<noteq> [] \<and> length data \<le> limit \<and> off \<le> length (id (Dev fs)) \<and> off + length data < 2 ^ 64"
  then have "length data < 2 ^ 32 - 80" "off < 2 ^ 64" using assms by linarith+
  then show "\<exists>k d. VirtioFsFuseWrite (demo_transport 0) node handle off data fs = (Ok k, fs\<lparr>Dev := d, RequestId := Suc (RequestId fs)\<rparr>) \<and>
      0 < k \<and> k \<le> length data \<and> id d = overwrite off (take k data) (id (Dev fs))"
    using demo_write_result [of limit fs data off 0 node handle] a
    by (intro exI [of _ "min 2 (length data)"] exI [of _ "overwrite off (take 2 data) (Dev fs)"]) (auto simp: min_def)
qed

lemma demo_honest: "honest_write (demo_transport 0)"
  unfolding honest_write_def
proof (intro allI impI)
  fix node handle off n and data :: "byte list" and fs fs' :: "byte list VIRTIO_FS"
  assume w: "VirtioFsFuseWrite (demo_transport 0) node handle off data fs = (Ok n, fs')"
  let ?body = "le_bytes 8 handle @ le_bytes 8 off @ le_bytes 4 (length data) @ le_bytes 4 0 @ le_bytes 8 0 @ le_bytes 4 0 @ le_bytes 4 0"
  let ?l = "VirtioFsSgListsValidate (QueueSize fs)
         (Some \<lparr>IoVec = Some (map request_vec [replicate sizeof_FUSE_REQUEST 0, ?body, data]), TotalSize = 0\<rparr>)
         (Some \<lparr>IoVec = Some (map response_vec [sizeof_FUSE_RESPONSE, 8]), TotalSize = 0\<rparr>)"
  have call: "fuse_call (demo_transport 0) 16 node [?body, data] [8] False fs \<noteq> (Err st, fs1)" for st fs1
    using w by (auto simp: VirtioFsFuseWrite_def sbind_def sget_def sfail_def sizeof_WRITE_def split: if_splits)
  obtain ls where l: "?l = Inr ls"
  proof (cases ?l)
    case (Inl st)
    then have "fuse_call (demo_transport 0) 16 node [?body, data] [8] False fs = (Err st, fs)"
      by (simp add: fuse_call_def fuse_exchange_def sbind_def)
    then show ?thesis using call by blast
  qed
  have id: "RequestId fs \<noteq> max_u64"
  proof
    assume "RequestId fs = max_u64"
    then have "fuse_call (demo_transport 0) 16 node [?body, data] [8] False fs = (Err EFI_OUT_OF_RESOURCES, fs) \<or> fuse_call (demo_transport 0) 16 node [?body, data] [8] False fs = (Err EFI_INVALID_PARAMETER, fs)"
      using l by (auto simp: fuse_call_def fuse_exchange_def sbind_def VirtioFsFuseNewRequest_def Let_def split: prod.splits)
    then show False using call by blast
  qed
  obtain st k fs2 where ex: "fuse_exchange (demo_transport 0) 16 node [?body, data] (Some [8]) False fs =
      (Ok (st, 0, [le_bytes 4 (min 2 (length data)) @ le_bytes 4 0], k), fs2)"
    using demo_write [OF l id refl, of 0 node] by auto
  have st: "st = EFI_SUCCESS"
  proof (rule ccontr)
    assume "st \<noteq> EFI_SUCCESS"
    then have "\<exists>e. fuse_call (demo_transport 0) 16 node [?body, data] [8] False fs = (Err e, fs2)"
      by (simp add: fuse_call_def sbind_def ex sfail_def)
    then show False using call by blast
  qed
  have "le_field (le_bytes 4 (min 2 (length data)) @ le_bytes 4 0) 0 4 = Some (min 2 (length data))"
    using le_field_at [of 0 "[]" "min 2 (length data)" 4] by simp
  then show "n \<le> length data" using w ex st
    by (auto simp: VirtioFsFuseWrite_def fuse_call_def sbind_def sget_def sret_def sload_def sfail_def sizeof_WRITE_def split: if_splits)
qed

end
