(* ===== verification/VirtioFsClaims.thy ===== *)
theory VirtioFsClaims
  imports VirtioFsDemo
begin

text \<open>The properties of the virtio file system driver as a whole, with the server of the previous theory as their instance.\<close>

section \<open>Sequences of calls\<close>

text \<open>The states that calls lead to; every call is on an open handle.\<close>

inductive vf_reach :: "'d vf_env \<Rightarrow> 'd VIRTIO_FS \<Rightarrow> 'd VIRTIO_FS \<Rightarrow> bool" for E fs0 where
  reach_start: "vf_reach E fs0 fs0"
| reach_call: "vf_reach E fs0 fs \<Longrightarrow> call_ok c fs \<Longrightarrow> run_call fuel E c fs = (r, fs') \<Longrightarrow> r \<noteq> Diverge \<Longrightarrow> vf_reach E fs0 fs'"

lemma reach_ok:
  assumes "\<And>c. device_ok E c" and "vf_reach E fs0 fs" and "vfs_ok fs0"
  shows "vfs_ok fs"
  using assms(2,3)
proof (induction rule: vf_reach.induct)
  case (reach_call fs c fuel r fs')
  have t: "triple (\<lambda>fs. vfs_ok fs \<and> call_ok c fs) (run_call fuel E c) (\<lambda>_. vfs_ok) (\<lambda>_. vfs_ok)" by (rule call_safe [OF assms(1)])
  have pre: "vfs_ok fs \<and> call_ok c fs" using reach_call by blast
  show ?case using tripleD [OF t pre] reach_call(3,4) by (cases r) auto
qed


definition demo_env :: "nat \<Rightarrow> byte list vf_env" where
  "demo_env lie = \<lparr>Transport = demo_transport lie, path_alloc = blocks, file_alloc = (\<lambda>objs. if objs 0 = None then Some 0 else None), buf_alloc = (\<lambda>_. True),
     EpochToEfiTime = (\<lambda>_. zero_time), IsTimeValid = (\<lambda>_. True), EfiTimeToEpoch = (\<lambda>_. 0)\<rparr>"

text \<open>The file \<^verbatim>\<open>/a\<close> of four bytes, open for writing at address 7, read up to its second byte.\<close>

definition demo_state :: "byte list VIRTIO_FS" where
  "demo_state = \<lparr>Dev = [1, 2, 3, 4], QueueSize = 8, Label = [0x66], RequestId = 5, MaxWrite = 4096, OpenFiles = [7],
     Objects = [7 \<mapsto> (new_file False True [slash, 0x61] 3 0)\<lparr>FilePosition := 1\<rparr>]\<rparr>"

lemma demo_env_ok: "vf_env_ok (demo_env lie)"
  by (auto simp: vf_env_ok_def demo_env_def demo_transport_ok blocks_alloc split: if_splits)

lemma demo_path_ok: "path_ok [slash, 0x61]"
  unfolding path_ok_def by (rule conjI, rule exI [of _ "[[0x61]]"]) (simp_all add: canonical_def comp_ok_def VIRTIO_FS_MAX_PATHNAME_LENGTH_def)

lemma demo_state_ok: "vfs_ok demo_state"
  by (simp add: vfs_ok_def demo_state_def file_ok_def listing_ok_def new_file_def demo_path_ok)

lemma demo_regular: "open_regular 7 4096 3 0 1 100 demo_state"
  by (simp add: open_regular_def demo_state_def new_file_def)

lemma demo_serves: "file_server (Transport (demo_env 0)) 4096 3 0 (\<lambda>d. d)"
  using demo_file_server [of 4096] by (simp add: demo_env_def id_def)

lemma demo_state_content: "Dev demo_state = [1, 2, 3, 4]"
  by (simp add: demo_state_def)


section \<open>Reading and writing\<close>





text \<open>
  C40: A read of \<open>2 ^ 32 - 16\<close> bytes or more into one buffer fails, whatever the file holds: the loop cuts the buffer into pieces of at most
  \<open>2 ^ 32 - 1\<close> bytes, but a piece and the header of the response may together have no more than that, and the
  validation of the lists refuses the first piece.
\<close>

theorem virtiofs_huge_read_unsupported:
  assumes S: "file_server (Transport E) limit node handle content" and o: "open_regular This limit node handle pos (1 + k) fs"
    and n: "2 ^ 32 - 16 \<le> n" "pos \<le> length (content (Dev fs))" "length (content (Dev fs)) < 2 ^ 64"
  shows "\<exists>fs'. run_call fuel E (Read This n) fs = (Err EFI_UNSUPPORTED, fs') \<and> content (Dev fs') = content (Dev fs) \<and>
    open_regular This limit node handle pos k fs'"
proof -
  obtain f where f: "Objects fs This = Some f" "\<not> IsDirectory f" "IsOpenForWriting f" "NodeId f = node" "FuseHandle f = handle" "FilePosition f = pos"
    using o by (auto simp: open_regular_def)
  have a: "answers limit fs" using o by (auto simp: open_regular_def answers_def)
  obtain at d where g: "VirtioFsFuseGetAttr (Transport E) node fs = (Ok at, fs\<lparr>Dev := d, RequestId := Suc (RequestId fs)\<rparr>)"
    "at_Size at = length (content (Dev fs))" "content d = content (Dev fs)" using serves_attr [OF S a n(3)] by blast
  let ?fs = "fs\<lparr>Dev := d, RequestId := Suc (RequestId fs)\<rparr>"
  have refused: "VirtioFsFuseReadFileOrDir (Transport E) node handle False off (min max_u32 n) ?fs = (Err EFI_UNSUPPORTED, ?fs)" for off
    using a n(1) by (auto simp: VirtioFsFuseReadFileOrDir_def fuse_call_def fuse_exchange_def sbind_def exchange_eval answers_def min_def)
  have r: "read_loop E node handle pos n [] ?fs = (Ok ([], EFI_UNSUPPORTED), ?fs)"
    unfolding read_loop.simps [of E node handle pos n "[]"] using n(1) refused by (simp add: sbind_def stry_def sret_def)
  let ?fs' = "update_file This (\<lambda>f. f\<lparr>FilePosition := (FilePosition f + 0) mod 2 ^ 64\<rparr>) ?fs"
  have run: "run_call fuel E (Read This n) fs = (Err EFI_UNSUPPORTED, ?fs')"
    using f n(2) by (simp add: VirtioFsSimpleFileRead_def ReadRegularFile_def with_file_def reply_def sop_simps sbind_def stry_def g r)
  have "pos < 2 ^ 64" using n(2,3) by simp
  then have "open_regular This limit node handle pos k ?fs'" using o f by (auto simp: open_regular_def update_file_def)
  then show ?thesis using run g(3) by (auto simp: update_file_def)
qed

theorem virtiofs_huge_read_unsupported_witness:
  "\<exists>fs'. run_call 1 (demo_env 0) (Read 7 (2 ^ 32)) demo_state = (Err EFI_UNSUPPORTED, fs')"
  using virtiofs_huge_read_unsupported [OF demo_serves, of 7 1 99 demo_state "2 ^ 32" 1] demo_regular by (auto simp: demo_state_def)

text \<open>
  C39: The driver trusts the count that a write returns: when the device answers a write of the whole buffer with a larger count, the
  number of bytes left wraps around, and the next round reads beyond the end of the buffer of the caller.
\<close>

theorem virtiofs_write_overclaim:
  assumes f: "Objects fs This = Some f" "\<not> IsDirectory f" "IsOpenForWriting f" "FilePosition f < 2 ^ 64"
    and n: "0 < length Buffer" "length Buffer \<le> MaxWrite fs" "length Buffer < 2 ^ 32"
    and w: "VirtioFsFuseWrite (Transport E) (NodeId f) (FuseHandle f) (FilePosition f) Buffer fs = (Ok k, fs1)"
    and k: "length Buffer < k" "k < 2 ^ 32" and keep: "0 < MaxWrite fs1"
  shows "fst (run_call fuel E (Write This Buffer) fs) = Fault"
proof -
  have first: "load_bytes Buffer 0 (min (MaxWrite fs) ((length Buffer + 2 ^ 64 - 0) mod 2 ^ 64)) = Some Buffer"
    using n by (simp add: load_bytes_def min_absorb2 mod_if)
  have left: "0 < min (MaxWrite fs1) ((length Buffer + 2 ^ 64 - k) mod 2 ^ 64)" using k n keep by (simp add: mod_if)
  have beyond: "load_bytes Buffer k (min (MaxWrite fs1) ((length Buffer + 2 ^ 64 - k) mod 2 ^ 64)) = None"
    using k(1) by (auto simp: load_bytes_def)
  have ne: "(length Buffer = 0) = False" "(length Buffer = k) = False" using n(1) k(1) by simp_all
  have second: "write_loop E (NodeId f) (FuseHandle f) (FilePosition f) Buffer k fs1 = (Fault, fs1)"
    unfolding write_loop.simps [of E "NodeId f" "FuseHandle f" "FilePosition f" Buffer k]
    by (simp only: ne(2) if_False sbind_def sget_def prod.case outcome.case beyond option.case) (simp add: sload_def)
  have "write_loop E (NodeId f) (FuseHandle f) (FilePosition f) Buffer 0 fs = (Fault, fs1)"
    unfolding write_loop.simps [of E "NodeId f" "FuseHandle f" "FilePosition f" Buffer 0]
    using f(4) k(1) by (simp only: ne(1) if_False sbind_def sget_def prod.case outcome.case first option.case) (simp add: stry_def w second)
  then show ?thesis
    using f by (simp add: VirtioFsSimpleFileWrite_def with_file_def reply_def sop_simps sbind_def)
qed

text \<open>The server claims six bytes more than it has taken.\<close>

theorem virtiofs_write_overclaim_witness:
  "fst (run_call 1 (demo_env 6) (Write 7 [9]) demo_state) = Fault"
proof -
  let ?f = "(new_file False True [slash, 0x61] 3 0)\<lparr>FilePosition := 1\<rparr>"
  have w: "VirtioFsFuseWrite (demo_transport 6) 3 0 1 [9] demo_state =
      (Ok 7, demo_state\<lparr>Dev := overwrite 1 [9] (Dev demo_state), RequestId := Suc (RequestId demo_state)\<rparr>)"
    using demo_write_result [of 4096 demo_state "[9]" 1 6 3 0] by (simp add: answers_def demo_state_def)
  show ?thesis
    by (rule virtiofs_write_overclaim [where f = ?f and k = 7 and
      ?fs1.0 = "demo_state\<lparr>Dev := overwrite 1 [9] (Dev demo_state), RequestId := Suc (RequestId demo_state)\<rparr>"]) (use w in \<open>simp_all add: demo_state_def demo_env_def new_file_def\<close>)
qed

end
