(* ===== verification/PciDecoding.thy ===== *)
theory PciDecoding
  imports EfiTypes
begin

text \<open>
  Decoding of PCI resources around the download of the ACPI script:
  \<^verbatim>\<open>AcpiPlatformDxe/PciDecoding.c\<close>. The PCI I/O protocol instances are a parameter, as functions
  on the state of the devices. A result \<open>None\<close> is a failed assertion.
\<close>

section \<open>Model\<close>

datatype attribute_operation = AttributeOperationGet | AttributeOperationSet | AttributeOperationEnable | AttributeOperationSupported

record 'p pci_io =
  PcdPciDisableBusEnumeration :: bool
  LocateHandleBuffer :: "EFI_STATUS + nat list"
  OrigAttrsPool :: bool
  HandleProtocol :: "nat \<Rightarrow> EFI_STATUS + nat"
  Attributes :: "'p \<Rightarrow> nat \<Rightarrow> attribute_operation \<Rightarrow> u64 \<Rightarrow> (EFI_STATUS + u64) \<times> 'p"

record ORIGINAL_ATTRIBUTES =
  PciIo :: nat
  PciAttributes :: u64

definition EFI_PCI_IO_ATTRIBUTE_IO :: u64 where "EFI_PCI_IO_ATTRIBUTE_IO = 0x100"
definition EFI_PCI_IO_ATTRIBUTE_MEMORY :: u64 where "EFI_PCI_IO_ATTRIBUTE_MEMORY = 0x200"

text \<open>Setting the saved attributes, in the order of the list; the status is ignored.\<close>

fun set_saved :: "'p pci_io \<Rightarrow> ORIGINAL_ATTRIBUTES list \<Rightarrow> 'p \<Rightarrow> 'p" where
  "set_saved io [] p = p"
| "set_saved io (a # as) p = set_saved io as (snd (Attributes io p (PciIo a) AttributeOperationSet (PciAttributes a)))"

text \<open>The loop over the handles; on an error the attributes saved so far are set again, last one first.\<close>

fun enable_loop ::
  "'p pci_io \<Rightarrow> nat list \<Rightarrow> ORIGINAL_ATTRIBUTES list \<Rightarrow> 'p \<Rightarrow> (ORIGINAL_ATTRIBUTES list option \<times> 'p) option" where
  "enable_loop io [] OrigAttrs p = Some (Some OrigAttrs, p)"
| "enable_loop io (h # hs) OrigAttrs p =
     (case HandleProtocol io h of
        Inl _ \<Rightarrow> None
      | Inr i \<Rightarrow> (case Attributes io p i AttributeOperationGet 0 of
          (Inl _, p1) \<Rightarrow> Some (None, set_saved io (rev OrigAttrs) p1)
        | (Inr orig, p1) \<Rightarrow> (case Attributes io p1 i AttributeOperationSupported 0 of
            (Inl _, p2) \<Rightarrow> Some (None, set_saved io (rev OrigAttrs) p2)
          | (Inr supd, p2) \<Rightarrow>
              (case Attributes io p2 i AttributeOperationEnable (supd AND (EFI_PCI_IO_ATTRIBUTE_IO OR EFI_PCI_IO_ATTRIBUTE_MEMORY)) of
                (Inl _, p3) \<Rightarrow> Some (None, set_saved io (rev OrigAttrs) p3)
              | (Inr _, p3) \<Rightarrow> enable_loop io hs (OrigAttrs @ [\<lparr>PciIo = i, PciAttributes = orig\<rparr>]) p3))))"

text \<open>The array returned, \<open>None\<close> for the null pointer.\<close>

definition EnablePciDecoding :: "'p pci_io \<Rightarrow> 'p \<Rightarrow> (ORIGINAL_ATTRIBUTES list option \<times> 'p) option" where
  "EnablePciDecoding io p =
     (if PcdPciDisableBusEnumeration io then Some (None, p)
      else case LocateHandleBuffer io of
        Inl _ \<Rightarrow> Some (None, p)
      | Inr Handles \<Rightarrow> if \<not> OrigAttrsPool io then Some (None, p) else enable_loop io Handles [] p)"

definition RestorePciDecoding :: "'p pci_io \<Rightarrow> ORIGINAL_ATTRIBUTES list option \<Rightarrow> 'p \<Rightarrow> 'p option" where
  "RestorePciDecoding io OriginalAttributes p =
     (case OriginalAttributes of
        None \<Rightarrow> Some p
      | Some as \<Rightarrow> if as = [] then None else Some (set_saved io as p))"

section \<open>Restoring\<close>

text \<open>
  The contract of the protocol: what the attributes of a device are, and how the operations change
  them. Setting attributes that were read from a device succeeds. Handles are found with
  an instance each, and there is at least one.
\<close>

definition pci_io_law :: "'p pci_io \<Rightarrow> ('p \<Rightarrow> nat \<Rightarrow> u64) \<Rightarrow> bool" where
  "pci_io_law io av \<longleftrightarrow>
     (\<forall>hs. LocateHandleBuffer io = Inr hs \<longrightarrow> hs \<noteq> [] \<and> (\<exists>is. distinct is \<and> map (HandleProtocol io) hs = map Inr is)) \<and>
     (\<forall>p i m. av (snd (Attributes io p i AttributeOperationGet m)) = av p \<and>
        (\<forall>v. fst (Attributes io p i AttributeOperationGet m) = Inr v \<longrightarrow> v = av p i) \<and>
        av (snd (Attributes io p i AttributeOperationSupported m)) = av p \<and>
        av (snd (Attributes io p i AttributeOperationSet m)) = (av p)(i := m) \<and>
        av (snd (Attributes io p i AttributeOperationEnable m)) =
          (case fst (Attributes io p i AttributeOperationEnable m) of Inl _ \<Rightarrow> av p | Inr _ \<Rightarrow> (av p)(i := av p i OR m)))"

definition saved_over :: "ORIGINAL_ATTRIBUTES list \<Rightarrow> (nat \<Rightarrow> u64) \<Rightarrow> nat \<Rightarrow> u64" where
  "saved_over as f = (\<lambda>i. case map_of (map (\<lambda>a. (PciIo a, PciAttributes a)) as) i of None \<Rightarrow> f i | Some v \<Rightarrow> v)"

lemma set_saved_over:
  assumes "pci_io_law io av" and "distinct (map PciIo as)"
  shows "av (set_saved io as p) = saved_over as (av p)"
  using assms(2)
proof (induction as arbitrary: p)
  case (Cons a as)
  have "PciIo a \<notin> PciIo ` set as" using Cons.prems by simp
  then have n: "map_of (map (\<lambda>a. (PciIo a, PciAttributes a)) as) (PciIo a) = None"
    by (auto simp: map_of_eq_None_iff)
  have "av (snd (Attributes io p (PciIo a) AttributeOperationSet (PciAttributes a))) = (av p)(PciIo a := PciAttributes a)"
    using assms(1) unfolding pci_io_law_def by blast
  then show ?case using Cons n by (auto simp: saved_over_def fun_eq_iff split: option.split)
qed (simp add: saved_over_def)

text \<open>The attributes saved, and those not yet touched, are the ones from the start.\<close>

definition saves :: "ORIGINAL_ATTRIBUTES list \<Rightarrow> (nat \<Rightarrow> u64) \<Rightarrow> (nat \<Rightarrow> u64) \<Rightarrow> bool" where
  "saves as f g \<longleftrightarrow> distinct (map PciIo as) \<and> (\<forall>a \<in> set as. PciAttributes a = f (PciIo a)) \<and> (\<forall>i. i \<notin> PciIo ` set as \<longrightarrow> g i = f i)"

lemma saves_over: "saves as f g \<Longrightarrow> saved_over as g = f"
proof (rule ext)
  fix i assume s: "saves as f g"
  show "saved_over as g i = f i"
  proof (cases "map_of (map (\<lambda>a. (PciIo a, PciAttributes a)) as) i")
    case None
    then have "i \<notin> PciIo ` set as" by (auto simp: map_of_eq_None_iff image_image)
    then show ?thesis using s None by (simp add: saved_over_def saves_def)
  next
    case (Some v)
    then have "(i, v) \<in> set (map (\<lambda>a. (PciIo a, PciAttributes a)) as)" by (rule map_of_SomeD)
    then show ?thesis using s Some by (auto simp: saved_over_def saves_def)
  qed
qed

lemma saves_over_rev: "saves as f g \<Longrightarrow> saved_over (rev as) g = f"
  by (rule saves_over) (simp add: saves_def rev_map [symmetric])

definition enabled_or_restored :: "('p \<Rightarrow> nat \<Rightarrow> u64) \<Rightarrow> (nat \<Rightarrow> u64) \<Rightarrow> nat \<Rightarrow> ORIGINAL_ATTRIBUTES list option \<Rightarrow> 'p \<Rightarrow> bool" where
  "enabled_or_restored av f n r p' \<longleftrightarrow> (case r of None \<Rightarrow> av p' = f | Some as \<Rightarrow> saves as f (av p') \<and> length as = n)"

lemma enable_loop_saves:
  assumes law: "pci_io_law io av" and "saves as f (av p)" and "distinct (map PciIo as @ is)" and "map (HandleProtocol io) hs = map Inr is"
  shows "\<exists>r p'. enable_loop io hs as p = Some (r, p') \<and> enabled_or_restored av f (length as + length hs) r p'"
  using assms(2-)
proof (induction hs arbitrary: as p "is")
  case (Cons h hs)
  obtain i is' where i: "is = i # is'" "HandleProtocol io h = Inr i" "map (HandleProtocol io) hs = map Inr is'" using Cons.prems(3) by (cases "is") auto
  note rules = law [unfolded pci_io_law_def, THEN conjunct2, rule_format]
  have fresh: "i \<notin> PciIo ` set as" using Cons.prems(2) i(1) by auto
  have undo: "av (set_saved io (rev as) q) = f" if "av q = av p" for q
    using set_saved_over [OF law, of "rev as" q] saves_over_rev [of as f "av q"] Cons.prems(1) that by (simp add: saves_def rev_map [symmetric])
  obtain r1 p1 where g: "Attributes io p i AttributeOperationGet 0 = (r1, p1)" by fastforce
  have g1: "av p1 = av p" "\<And>v. r1 = Inr v \<Longrightarrow> v = av p i" using rules [of p i 0] g by auto
  obtain r2 p2 where su: "Attributes io p1 i AttributeOperationSupported 0 = (r2, p2)" by fastforce
  have s1: "av p2 = av p" using rules [of p1 i 0] su g1 by simp
  show ?case
  proof (cases r1)
    case (Inl st)
    then show ?thesis using i(2) g undo [OF g1(1)] by (simp add: enabled_or_restored_def)
  next
    case r1: (Inr orig)
    show ?thesis
    proof (cases r2)
      case (Inl st)
      then show ?thesis using i(2) g r1 su undo [OF s1] by (simp add: enabled_or_restored_def)
    next
      case r2: (Inr supd)
      let ?m = "supd AND (EFI_PCI_IO_ATTRIBUTE_IO OR EFI_PCI_IO_ATTRIBUTE_MEMORY)"
      obtain r3 p3 where en: "Attributes io p2 i AttributeOperationEnable ?m = (r3, p3)" by fastforce
      have e3: "av p3 = (case r3 of Inl _ \<Rightarrow> av p | Inr _ \<Rightarrow> (av p)(i := av p i OR ?m))" using rules [of p2 i ?m] en
        by (simp add: s1 cong: sum.case_cong)
      show ?thesis
      proof (cases r3)
        case (Inl st)
        then show ?thesis using i(2) g r1 su r2 en e3 undo [of p3] by (simp add: enabled_or_restored_def)
      next
        case r3: (Inr u)
        let ?as = "as @ [\<lparr>PciIo = i, PciAttributes = orig\<rparr>]"
        have o: "orig = f i" using g1(2) [OF r1] Cons.prems(1) fresh by (simp add: saves_def)
        have "saves ?as f (av p3)" using Cons.prems(1) fresh e3 r3 o by (auto simp: saves_def)
        then have "\<exists>r p'. enable_loop io hs ?as p3 = Some (r, p') \<and> enabled_or_restored av f (length ?as + length hs) r p'"
          using Cons.prems(2) i(1,3) by (intro Cons.IH [of _ _ is']) auto
        then show ?thesis using i(2) g r1 su r2 en r3 by simp
      qed
    qed
  qed
qed (simp add: enabled_or_restored_def)

lemma pci_decoding_returns:
  assumes law: "pci_io_law io av"
  shows "\<exists>r p1 p2. EnablePciDecoding io p = Some (r, p1) \<and> RestorePciDecoding io r p1 = Some p2 \<and> av p2 = av p \<and>
    (r = None \<longrightarrow> av p1 = av p)"
proof (cases "PcdPciDisableBusEnumeration io \<or> \<not> OrigAttrsPool io \<or> (\<exists>st. LocateHandleBuffer io = Inl st)")
  case True
  then show ?thesis by (auto simp: EnablePciDecoding_def RestorePciDecoding_def split: sum.split)
next
  case False
  then obtain hs where hs: "LocateHandleBuffer io = Inr hs" by (cases "LocateHandleBuffer io") auto
  then obtain "is" where "is": "hs \<noteq> []" "distinct is" "map (HandleProtocol io) hs = map Inr is"
    using law unfolding pci_io_law_def by blast
  have "saves [] (av p) (av p)" by (simp add: saves_def)
  from enable_loop_saves [OF law this, of "is" hs] "is" obtain r p1 where l: "enable_loop io hs [] p = Some (r, p1)"
    "enabled_or_restored av (av p) (length hs) r p1" by auto
  show ?thesis
  proof (cases r)
    case None
    then show ?thesis using False hs l by (auto simp: EnablePciDecoding_def RestorePciDecoding_def enabled_or_restored_def)
  next
    case (Some as)
    with l(2) have s: "saves as (av p) (av p1)" "as \<noteq> []" using "is"(1) by (auto simp: enabled_or_restored_def)
    then have "av (set_saved io as p1) = av p" using set_saved_over [OF law, of as p1] saves_over [OF s(1)] by (simp add: saves_def)
    then show ?thesis using False hs l Some s(2) by (auto simp: EnablePciDecoding_def RestorePciDecoding_def)
  qed
qed

text \<open>
  C18: Enabling the decoding of all PCI devices and restoring it afterwards returns, and leaves the attributes of every
  device as they were, also when a device fails in between.
\<close>

theorem pci_decoding_restored:
  assumes "pci_io_law io av"
  shows "\<exists>r p1 p2. EnablePciDecoding io p = Some (r, p1) \<and> RestorePciDecoding io r p1 = Some p2 \<and> av p2 = av p \<and>
    (r = None \<longrightarrow> av p1 = av p)"
  by (rule pci_decoding_returns [OF assms])

text \<open>Two devices; the second refuses to enable anything.\<close>

definition demo_pci_io :: "(nat \<Rightarrow> u64) pci_io" where
  "demo_pci_io = \<lparr>PcdPciDisableBusEnumeration = False, LocateHandleBuffer = Inr [10, 11], OrigAttrsPool = True,
     HandleProtocol = (\<lambda>h. Inr (h - 10)),
     Attributes = (\<lambda>p i oper m. case oper of
         AttributeOperationGet \<Rightarrow> (Inr (p i), p)
       | AttributeOperationSupported \<Rightarrow> (Inr 0x300, p)
       | AttributeOperationSet \<Rightarrow> (Inr 0, p(i := m))
       | AttributeOperationEnable \<Rightarrow> if i = 0 then (Inr 0, p(i := p i OR m)) else (Inl EFI_DEVICE_ERROR, p))\<rparr>"

lemma demo_pci_law: "pci_io_law demo_pci_io (\<lambda>p. p)"
  unfolding pci_io_law_def
proof (intro conjI allI impI)
  fix hs assume "LocateHandleBuffer demo_pci_io = Inr hs"
  then have "hs = [10, 11]" by (simp add: demo_pci_io_def)
  then show "hs \<noteq> []" "\<exists>is. distinct is \<and> map (HandleProtocol demo_pci_io) hs = map Inr is"
    by (simp, intro exI [of _ "[0, 1]"]) (simp add: demo_pci_io_def)
qed (simp_all add: demo_pci_io_def)

theorem pci_decoding_restored_witness:
  "\<exists>r p1 p2. EnablePciDecoding demo_pci_io (\<lambda>i. 0x4) = Some (r, p1) \<and> RestorePciDecoding demo_pci_io r p1 = Some p2 \<and> p2 = (\<lambda>i. 0x4) \<and>
    (r = None \<longrightarrow> p1 = (\<lambda>i. 0x4))"
  by (rule pci_decoding_restored [OF demo_pci_law])

end
