(* ===== verification/AcpiLoader.thy ===== *)
theory AcpiLoader
  imports FwCfg PhysMem OrderedCollections PciDecoding
begin

text \<open>
  The ACPI tables of QEMU: \<^verbatim>\<open>AcpiPlatformDxe/QemuFwCfgAcpi.c\<close> with \<^verbatim>\<open>QemuLoader.h\<close> and
  \<^verbatim>\<open>BootScript.c\<close>. A script read from the firmware configuration device allocates blobs, patches
  pointers and checksums in them and tells QEMU addresses; a second pass over it finds the tables and
  installs them. Any failure is rolled back. Blob records are pool objects, a
  pointer is an index, their contents lie in flat memory. A result \<open>None\<close> is a failed
  assertion or a null dereference; the freeing of pool memory is not tracked.
\<close>

section \<open>The script\<close>

record QEMU_LOADER_ALLOCATE =
  al_File :: "byte list"
  Alignment :: nat
  Zone :: nat

record QEMU_LOADER_ADD_POINTER =
  PointerFile :: "byte list"
  PointeeFile :: "byte list"
  PointerOffset :: nat
  PointerSize :: nat

record QEMU_LOADER_ADD_CHECKSUM =
  ck_File :: "byte list"
  ResultOffset :: nat
  ck_Start :: nat
  ck_Length :: nat

record QEMU_LOADER_WRITE_POINTER =
  wp_PointerFile :: "byte list"
  wp_PointeeFile :: "byte list"
  wp_PointerOffset :: nat
  PointeeOffset :: nat
  wp_PointerSize :: nat

datatype QEMU_LOADER_ENTRY =
  QemuLoaderCmdAllocate QEMU_LOADER_ALLOCATE | QemuLoaderCmdAddPointer QEMU_LOADER_ADD_POINTER |
  QemuLoaderCmdAddChecksum QEMU_LOADER_ADD_CHECKSUM | QemuLoaderCmdWritePointer QEMU_LOADER_WRITE_POINTER |
  UnknownCommand nat

definition QEMU_LOADER_FNAME_SIZE :: nat where "QEMU_LOADER_FNAME_SIZE = QEMU_FW_CFG_FNAME_SIZE"
definition sizeof_QEMU_LOADER_ENTRY :: nat where "sizeof_QEMU_LOADER_ENTRY = 4 + 124"

text \<open>Fields of the packed structures.\<close>

definition le_at :: "byte list \<Rightarrow> nat \<Rightarrow> nat \<Rightarrow> nat" where
  "le_at bs off n = le_value (take n (drop off bs))"

definition name_at :: "byte list \<Rightarrow> nat \<Rightarrow> byte list" where
  "name_at bs off = take QEMU_LOADER_FNAME_SIZE (drop off bs)"

definition loader_entry :: "byte list \<Rightarrow> QEMU_LOADER_ENTRY" where
  "loader_entry e =
     (let ty = le_at e 0 4; c = drop 4 e
      in if ty = 1 then QemuLoaderCmdAllocate \<lparr>al_File = name_at c 0, Alignment = le_at c 56 4, Zone = le_at c 60 1\<rparr>
         else if ty = 2 then QemuLoaderCmdAddPointer \<lparr>PointerFile = name_at c 0, PointeeFile = name_at c 56,
           PointerOffset = le_at c 112 4, PointerSize = le_at c 116 1\<rparr>
         else if ty = 3 then QemuLoaderCmdAddChecksum \<lparr>ck_File = name_at c 0, ResultOffset = le_at c 56 4,
           ck_Start = le_at c 60 4, ck_Length = le_at c 64 4\<rparr>
         else if ty = 4 then QemuLoaderCmdWritePointer \<lparr>wp_PointerFile = name_at c 0, wp_PointeeFile = name_at c 56,
           wp_PointerOffset = le_at c 112 4, PointeeOffset = le_at c 116 4, wp_PointerSize = le_at c 120 1\<rparr>
         else UnknownCommand ty)"

definition loader_script :: "byte list \<Rightarrow> QEMU_LOADER_ENTRY list" where
  "loader_script bs = map (\<lambda>i. loader_entry (take sizeof_QEMU_LOADER_ENTRY (drop (sizeof_QEMU_LOADER_ENTRY * i) bs)))
     [0..<length bs div sizeof_QEMU_LOADER_ENTRY]"

text \<open>The string in a name field, and whether the field lacks a terminator at its end.\<close>

definition c_string :: "byte list \<Rightarrow> byte list" where
  "c_string bs = takeWhile (\<lambda>b. b \<noteq> 0) bs"

definition malformed :: "byte list \<Rightarrow> bool" where
  "malformed File \<longleftrightarrow> File ! (QEMU_LOADER_FNAME_SIZE - 1) \<noteq> 0"

section \<open>State\<close>

record BLOB =
  blob_File :: "byte list"
  blob_Size :: nat
  blob_Base :: nat
  HostsOnlyTableData :: bool

record CONDENSED_WRITE_POINTER =
  cw_PointerItem :: nat
  cw_PointerSize :: nat
  cw_PointerOffset :: nat
  cw_PointerValue :: nat

text \<open>The elements in use, and the number of elements allocated.\<close>

record S3_CONTEXT =
  WritePointers :: "CONDENSED_WRITE_POINTER list"
  Allocated :: nat

text \<open>
  The world outside the driver (memory, the configuration device, the page allocator, the ACPI table
  protocol, PCI devices, contexts handed to the boot script), and the objects of one run of the
  script.
\<close>

record ('g, 'a, 'p) acpi_world =
  mem :: phys_mem
  fw :: fw_cfg
  pages :: 'g
  acpi :: 'a
  pci :: 'p
  boot_script :: "S3_CONTEXT list"

record ('g, 'a, 'p, 'c) loader = "('g, 'a, 'p) acpi_world" +
  blobs :: "BLOB list"
  Tracker :: 'c
  S3Context :: "S3_CONTEXT option"

datatype pool_object = LoaderPool | ContextPool | WritePointersPool | BlobPool nat | KeysPool | DmaAccessPool

text \<open>The collections of names and of pointers, the boot services, the ACPI table protocol and the checksums of the base library.\<close>

record ('g, 'a, 'p, 'c, 'o) acpi_env =
  name_ops :: "(byte list, 'c) ordered_collection"
  ptr_ops :: "(nat, 'o) ordered_collection"
  AllocatePool :: "pool_object \<Rightarrow> bool"
  AllocatePages :: "'g \<Rightarrow> nat \<Rightarrow> nat \<Rightarrow> (EFI_STATUS + nat) \<times> 'g"
  FreePages :: "'g \<Rightarrow> nat \<Rightarrow> nat \<Rightarrow> 'g"
  InstallAcpiTable :: "'a \<Rightarrow> byte list \<Rightarrow> (EFI_STATUS + nat) \<times> 'a"
  UninstallAcpiTable :: "'a \<Rightarrow> nat \<Rightarrow> 'a"
  pci_ops :: "'p pci_io"
  BootScriptEvent :: EFI_STATUS
  MAX_ADDRESS :: nat
  CalculateSum8 :: "byte list \<Rightarrow> byte"
  CalculateCheckSum8 :: "byte list \<Rightarrow> byte"

definition MAX_UINT64 :: nat where "MAX_UINT64 = 2 ^ 64 - 1"
definition EFI_PAGES_TO_SIZE :: "nat \<Rightarrow> nat" where "EFI_PAGES_TO_SIZE n = n * EFI_PAGE_SIZE"

definition put_bytes :: "phys_mem \<Rightarrow> nat \<Rightarrow> byte list \<Rightarrow> phys_mem" where
  "put_bytes m a bs = (\<lambda>x. if a \<le> x \<and> x < a + length bs then bs ! (x - a) else m x)"

section \<open>Restrictions\<close>

text \<open>The names of blobs that narrow pointers point to; the user structure of an entry is its command.\<close>

fun restricted_loop ::
  "('g, 'a, 'p, 'c, 'o) acpi_env \<Rightarrow> QEMU_LOADER_ENTRY list \<Rightarrow> nat \<Rightarrow> 'c \<Rightarrow> (EFI_STATUS \<times> 'c) option" where
  "restricted_loop E [] i c = Some (EFI_SUCCESS, c)"
| "restricted_loop E (e # es) i c =
     (case e of
        QemuLoaderCmdAddPointer p \<Rightarrow>
          if 8 \<le> PointerSize p then restricted_loop E es (i + 1) c
          else if malformed (PointeeFile p) then Some (EFI_PROTOCOL_ERROR, c)
          else (case OrderedCollectionInsert (name_ops E) c (c_string (PointeeFile p)) i of
              (EFI_SUCCESS, c', _) \<Rightarrow> restricted_loop E es (i + 1) c'
            | (EFI_ALREADY_STARTED, c', _) \<Rightarrow> restricted_loop E es (i + 1) c'
            | (EFI_OUT_OF_RESOURCES, c', _) \<Rightarrow> Some (EFI_OUT_OF_RESOURCES, c')
            | _ \<Rightarrow> None)
      | _ \<Rightarrow> restricted_loop E es (i + 1) c)"

definition CollectAllocationsRestrictedTo32Bit ::
  "('g, 'a, 'p, 'c, 'o) acpi_env \<Rightarrow> QEMU_LOADER_ENTRY list \<Rightarrow> (EFI_STATUS \<times> 'c option) option" where
  "CollectAllocationsRestrictedTo32Bit E es =
     (case OrderedCollectionInit (name_ops E) of
        None \<Rightarrow> Some (EFI_OUT_OF_RESOURCES, None)
      | Some c \<Rightarrow> map_option (\<lambda>(st, c'). (st, if st = EFI_SUCCESS then Some c' else None)) (restricted_loop E es 0 c))"

section \<open>Commands\<close>

definition ProcessCmdAllocate ::
  "('g, 'a, 'p, 'c, 'o) acpi_env \<Rightarrow> fw_dev \<Rightarrow> 'c \<Rightarrow> QEMU_LOADER_ALLOCATE \<Rightarrow> ('g, 'a, 'p, 'c) loader \<Rightarrow>
     (EFI_STATUS \<times> ('g, 'a, 'p, 'c) loader) option" where
  "ProcessCmdAllocate E dev restricted al s =
     (if malformed (al_File al) then Some (EFI_PROTOCOL_ERROR, s)
      else if EFI_PAGE_SIZE < Alignment al then Some (EFI_UNSUPPORTED, s)
      else Option.bind (QemuFwCfgFindFile dev (fw s) (c_string (al_File al))) (\<lambda>(Status, FwCfgItem, FwCfgSize, fw1).
        let s1 = s\<lparr>fw := fw1\<rparr>
        in if Status \<noteq> EFI_SUCCESS then Some (Status, s1)
        else let NumPages = EFI_SIZE_TO_PAGES FwCfgSize;
          maxa = (if OrderedCollectionFind (name_ops E) restricted (c_string (al_File al)) \<noteq> None then MAX_UINT32 else MAX_UINT64)
        in (case AllocatePages E (pages s1) maxa NumPages of
            (Inl st, g) \<Rightarrow> Some (st, s1\<lparr>pages := g\<rparr>)
          | (Inr Address, g) \<Rightarrow>
              let free = s1\<lparr>pages := FreePages E g Address NumPages\<rparr>;
                  Blob = \<lparr>blob_File = al_File al, blob_Size = FwCfgSize, blob_Base = Address, HostsOnlyTableData = True\<rparr>
              in if \<not> AllocatePool E (BlobPool (length (blobs s1))) then Some (EFI_OUT_OF_RESOURCES, free)
                 else (case OrderedCollectionInsert (name_ops E) (Tracker s1) (c_string (blob_File Blob)) (length (blobs s1)) of
                     (EFI_SUCCESS, t, _) \<Rightarrow>
                       let (bytes, fw2) = QemuFwCfgReadBytes dev (QemuFwCfgSelectItem fw1 FwCfgItem) FwCfgSize
                       in Some (EFI_SUCCESS, s1\<lparr>pages := g, blobs := blobs s1 @ [Blob], Tracker := t, fw := fw2,
                            mem := put_bytes (put_bytes (mem s1) Address bytes) (Address + FwCfgSize)
                              (replicate (EFI_PAGES_TO_SIZE NumPages - FwCfgSize) 0)\<rparr>)
                   | (EFI_ALREADY_STARTED, _, _) \<Rightarrow> Some (EFI_PROTOCOL_ERROR, free)
                   | (st, _, _) \<Rightarrow> Some (st, free)))))"

text \<open>The checks that the two pointer commands share: the size is one of four, the field is in the object.\<close>

definition pointer_misplaced :: "nat \<Rightarrow> nat \<Rightarrow> nat \<Rightarrow> bool" where
  "pointer_misplaced objsize psize off \<longleftrightarrow> psize \<notin> {1, 2, 4, 8} \<or> objsize < psize \<or> objsize - psize < off"

definition unrepresentable :: "nat \<Rightarrow> nat \<Rightarrow> bool" where
  "unrepresentable psize v \<longleftrightarrow> psize < 8 \<and> drop_bit (8 * psize) v \<noteq> 0"

definition ProcessCmdAddPointer ::
  "('g, 'a, 'p, 'c, 'o) acpi_env \<Rightarrow> QEMU_LOADER_ADD_POINTER \<Rightarrow> ('g, 'a, 'p, 'c) loader \<Rightarrow>
     (EFI_STATUS \<times> ('g, 'a, 'p, 'c) loader) option" where
  "ProcessCmdAddPointer E p s =
     (if malformed (PointerFile p) \<or> malformed (PointeeFile p) then Some (EFI_PROTOCOL_ERROR, s)
      else case (OrderedCollectionFind (name_ops E) (Tracker s) (c_string (PointerFile p)),
                 OrderedCollectionFind (name_ops E) (Tracker s) (c_string (PointeeFile p))) of
        (Some b, Some b2) \<Rightarrow>
          let Blob = blobs s ! b; Blob2 = blobs s ! b2
          in if pointer_misplaced (blob_Size Blob) (PointerSize p) (PointerOffset p) then Some (EFI_PROTOCOL_ERROR, s)
             else let PointerField = blob_Base Blob + PointerOffset p;
                      PointerValue = le_value (mem_bytes (mem s) PointerField (PointerSize p))
             in if blob_Size Blob2 \<le> PointerValue then Some (EFI_PROTOCOL_ERROR, s)
                else if MAX_ADDRESS E < blob_Base Blob2 + blob_Size Blob2 then None
                else let PointerValue2 = (PointerValue + blob_Base Blob2) mod 2 ^ 64
                in if unrepresentable (PointerSize p) PointerValue2 then Some (EFI_PROTOCOL_ERROR, s)
                   else Some (EFI_SUCCESS, s\<lparr>mem := put_bytes (mem s) PointerField (le_bytes (PointerSize p) PointerValue2)\<rparr>)
      | _ \<Rightarrow> Some (EFI_PROTOCOL_ERROR, s))"

definition ProcessCmdAddChecksum ::
  "('g, 'a, 'p, 'c, 'o) acpi_env \<Rightarrow> QEMU_LOADER_ADD_CHECKSUM \<Rightarrow> ('g, 'a, 'p, 'c) loader \<Rightarrow>
     (EFI_STATUS \<times> ('g, 'a, 'p, 'c) loader) option" where
  "ProcessCmdAddChecksum E c s =
     (if malformed (ck_File c) then Some (EFI_PROTOCOL_ERROR, s)
      else case OrderedCollectionFind (name_ops E) (Tracker s) (c_string (ck_File c)) of
        None \<Rightarrow> Some (EFI_PROTOCOL_ERROR, s)
      | Some b \<Rightarrow>
          let Blob = blobs s ! b
          in if blob_Size Blob \<le> ResultOffset c \<or> blob_Size Blob < ck_Length c \<or> blob_Size Blob - ck_Length c < ck_Start c
             then Some (EFI_PROTOCOL_ERROR, s)
             else Some (EFI_SUCCESS, s\<lparr>mem := put_bytes (mem s) (blob_Base Blob + ResultOffset c)
                    [CalculateCheckSum8 E (mem_bytes (mem s) (blob_Base Blob + ck_Start c) (ck_Length c))]\<rparr>))"

definition SaveCondensedWritePointerToS3Context ::
  "S3_CONTEXT \<Rightarrow> nat \<Rightarrow> nat \<Rightarrow> nat \<Rightarrow> nat \<Rightarrow> EFI_STATUS \<times> S3_CONTEXT" where
  "SaveCondensedWritePointerToS3Context ctx Item psize Offset Value =
     (if length (WritePointers ctx) = Allocated ctx then (EFI_OUT_OF_RESOURCES, ctx)
      else (EFI_SUCCESS, ctx\<lparr>WritePointers := WritePointers ctx @
        [\<lparr>cw_PointerItem = Item, cw_PointerSize = psize, cw_PointerOffset = Offset, cw_PointerValue = Value\<rparr>]\<rparr>))"

text \<open>Selecting a file, skipping to an offset of it and writing a number there.\<close>

definition fw_write_value :: "fw_dev \<Rightarrow> nat \<Rightarrow> nat \<Rightarrow> nat \<Rightarrow> nat \<Rightarrow> fw_cfg \<Rightarrow> fw_cfg" where
  "fw_write_value dev Item Offset psize Value f =
     QemuFwCfgWriteBytes (QemuFwCfgSkipBytes dev (QemuFwCfgSelectItem f Item) Offset) (le_bytes psize Value)"

definition ProcessCmdWritePointer ::
  "('g, 'a, 'p, 'c, 'o) acpi_env \<Rightarrow> fw_dev \<Rightarrow> QEMU_LOADER_WRITE_POINTER \<Rightarrow> ('g, 'a, 'p, 'c) loader \<Rightarrow>
     (EFI_STATUS \<times> ('g, 'a, 'p, 'c) loader) option" where
  "ProcessCmdWritePointer E dev w s =
     (if malformed (wp_PointerFile w) \<or> malformed (wp_PointeeFile w) then Some (EFI_PROTOCOL_ERROR, s)
      else Option.bind (QemuFwCfgFindFile dev (fw s) (c_string (wp_PointerFile w))) (\<lambda>(Status, PointerItem, PointerItemSize, fw1).
        let s1 = s\<lparr>fw := fw1\<rparr>
        in case OrderedCollectionFind (name_ops E) (Tracker s1) (c_string (wp_PointeeFile w)) of
            None \<Rightarrow> Some (EFI_PROTOCOL_ERROR, s1)
          | Some b \<Rightarrow>
              let PointeeBlob = blobs s1 ! b
              in if Status \<noteq> EFI_SUCCESS then Some (EFI_PROTOCOL_ERROR, s1)
                 else if pointer_misplaced PointerItemSize (wp_PointerSize w) (wp_PointerOffset w) then Some (EFI_PROTOCOL_ERROR, s1)
                 else if blob_Size PointeeBlob \<le> PointeeOffset w then Some (EFI_PROTOCOL_ERROR, s1)
                 else if MAX_ADDRESS E < blob_Base PointeeBlob + blob_Size PointeeBlob then None
                 else let PointerValue = (PointeeOffset w + blob_Base PointeeBlob) mod 2 ^ 64
                 in if unrepresentable (wp_PointerSize w) PointerValue then Some (EFI_PROTOCOL_ERROR, s1)
                    else let (SaveStatus, ctx) = (case S3Context s1 of
                        None \<Rightarrow> (EFI_SUCCESS, None)
                      | Some ctx \<Rightarrow> map_prod (\<lambda>st. st) Some (SaveCondensedWritePointerToS3Context ctx (PointerItem mod 2 ^ 16)
                          (wp_PointerSize w) (wp_PointerOffset w) PointerValue))
                    in if SaveStatus \<noteq> EFI_SUCCESS then Some (SaveStatus, s1)
                       else Some (EFI_SUCCESS, s1\<lparr>S3Context := ctx,
                         fw := fw_write_value dev PointerItem (wp_PointerOffset w) (wp_PointerSize w) PointerValue fw1,
                         blobs := (blobs s1)[b := PointeeBlob\<lparr>HostsOnlyTableData := False\<rparr>]\<rparr>)))"

definition UndoCmdWritePointer ::
  "fw_dev \<Rightarrow> QEMU_LOADER_WRITE_POINTER \<Rightarrow> ('g, 'a, 'p, 'c) loader \<Rightarrow> ('g, 'a, 'p, 'c) loader option" where
  "UndoCmdWritePointer dev w s =
     Option.bind (QemuFwCfgFindFile dev (fw s) (c_string (wp_PointerFile w))) (\<lambda>(Status, PointerItem, PointerItemSize, fw1).
     if Status \<noteq> EFI_SUCCESS then None
     else Some (s\<lparr>fw := fw_write_value dev PointerItem (wp_PointerOffset w) (wp_PointerSize w) 0 fw1\<rparr>))"

section \<open>Tables\<close>

definition INSTALLED_TABLES_MAX :: nat where "INSTALLED_TABLES_MAX = 128"
definition sizeof_FACS :: nat where "sizeof_FACS = 64"
definition sizeof_DESCRIPTION_HEADER :: nat where "sizeof_DESCRIPTION_HEADER = 36"
definition FACS_SIGNATURE :: "byte list" where "FACS_SIGNATURE = ascii ''FACS''"
definition RSDT_SIGNATURE :: "byte list" where "RSDT_SIGNATURE = ascii ''RSDT''"
definition XSDT_SIGNATURE :: "byte list" where "XSDT_SIGNATURE = ascii ''XSDT''"

text \<open>The signature and the length that every table starts with.\<close>

definition table_Signature :: "phys_mem \<Rightarrow> nat \<Rightarrow> byte list" where "table_Signature m a = mem_bytes m a 4"
definition table_Length :: "phys_mem \<Rightarrow> nat \<Rightarrow> nat" where "table_Length m a = le_value (mem_bytes m (a + 4) 4)"

datatype table_kind = NoTable | RootTable | Table nat

definition identify_table :: "(byte list \<Rightarrow> byte) \<Rightarrow> phys_mem \<Rightarrow> nat \<Rightarrow> nat \<Rightarrow> table_kind" where
  "identify_table sum8 m a remaining =
     (if sizeof_FACS \<le> remaining \<and> sizeof_FACS \<le> table_Length m a \<and> table_Length m a \<le> remaining \<and>
         table_Signature m a = FACS_SIGNATURE
      then Table (table_Length m a)
      else if sizeof_DESCRIPTION_HEADER \<le> remaining \<and> sizeof_DESCRIPTION_HEADER \<le> table_Length m a \<and>
         table_Length m a \<le> remaining \<and> sum8 (mem_bytes m a (table_Length m a)) = 0
      then if table_Signature m a = RSDT_SIGNATURE \<or> table_Signature m a = XSDT_SIGNATURE then RootTable
           else Table (table_Length m a)
      else NoTable)"

text \<open>The keys of the tables installed so far, and the pointers seen.\<close>

definition Process2ndPassCmdAddPointer ::
  "('g, 'a, 'p, 'c, 'o) acpi_env \<Rightarrow> QEMU_LOADER_ADD_POINTER \<Rightarrow> nat list \<Rightarrow> 'o \<Rightarrow> ('g, 'a, 'p, 'c) loader \<Rightarrow>
     (EFI_STATUS \<times> nat list \<times> 'o \<times> ('g, 'a, 'p, 'c) loader) option" where
  "Process2ndPassCmdAddPointer E p InstalledKey seen s =
     (if INSTALLED_TABLES_MAX < length InstalledKey then Some (EFI_INVALID_PARAMETER, InstalledKey, seen, s)
      else case (OrderedCollectionFind (name_ops E) (Tracker s) (c_string (PointerFile p)),
                 OrderedCollectionFind (name_ops E) (Tracker s) (c_string (PointeeFile p))) of
        (Some b, Some b2) \<Rightarrow>
          let Blob = blobs s ! b; Blob2 = blobs s ! b2;
              PointerValue = le_value (mem_bytes (mem s) (blob_Base Blob + PointerOffset p) (PointerSize p))
          in if PointerValue < blob_Base Blob2 \<or> blob_Base Blob2 + blob_Size Blob2 \<le> PointerValue then None
             else (case OrderedCollectionInsert (ptr_ops E) seen PointerValue PointerValue of
                 (EFI_SUCCESS, seen1, _) \<Rightarrow>
                   let Blob2Remaining = blob_Base Blob2 + blob_Size Blob2 - PointerValue;
                       rollback = OrderedCollectionDelete (ptr_ops E) seen1 PointerValue
                   in (case identify_table (CalculateSum8 E) (mem s) PointerValue Blob2Remaining of
                         RootTable \<Rightarrow> Some (EFI_SUCCESS, InstalledKey, seen1, s)
                       | NoTable \<Rightarrow> Some (EFI_SUCCESS, InstalledKey, seen1,
                           s\<lparr>blobs := (blobs s)[b2 := Blob2\<lparr>HostsOnlyTableData := False\<rparr>]\<rparr>)
                       | Table TableSize \<Rightarrow>
                           if length InstalledKey = INSTALLED_TABLES_MAX then Some (EFI_OUT_OF_RESOURCES, InstalledKey, rollback, s)
                           else (case InstallAcpiTable E (acpi s) (mem_bytes (mem s) PointerValue TableSize) of
                               (Inl st, a) \<Rightarrow> Some (st, InstalledKey, rollback, s\<lparr>acpi := a\<rparr>)
                             | (Inr key, a) \<Rightarrow> Some (EFI_SUCCESS, InstalledKey @ [key], seen1, s\<lparr>acpi := a\<rparr>)))
               | (EFI_ALREADY_STARTED, seen1, _) \<Rightarrow> Some (EFI_SUCCESS, InstalledKey, seen1, s)
               | (st, seen1, _) \<Rightarrow> Some (st, InstalledKey, seen1, s))
      | _ \<Rightarrow> None)"

section \<open>The boot script\<close>

definition AllocateS3Context :: "('g, 'a, 'p, 'c, 'o) acpi_env \<Rightarrow> nat \<Rightarrow> EFI_STATUS \<times> S3_CONTEXT option" where
  "AllocateS3Context E WritePointerCount =
     (if WritePointerCount = 0 then (EFI_INVALID_PARAMETER, None)
      else if \<not> AllocatePool E ContextPool \<or> \<not> AllocatePool E WritePointersPool then (EFI_OUT_OF_RESOURCES, None)
      else (EFI_SUCCESS, Some \<lparr>WritePointers = [], Allocated = WritePointerCount\<rparr>))"

text \<open>
  The library call \<^verbatim>\<open>QemuFwCfgS3Lib/QemuFwCfgS3Dxe.c\<close> hands a context over to the notification
  for the save state protocol. The status of its event calls is a parameter.
\<close>

definition QemuFwCfgS3CallWhenBootScriptReady ::
  "('g, 'a, 'p, 'c, 'o) acpi_env \<Rightarrow> fw_dev \<Rightarrow> S3_CONTEXT \<Rightarrow> ('g, 'a, 'p, 'c) loader \<Rightarrow> EFI_STATUS \<times> ('g, 'a, 'p, 'c) loader" where
  "QemuFwCfgS3CallWhenBootScriptReady E dev ctx s =
     (let (Revision, fw1) = QemuFwCfgRead32 dev (QemuFwCfgSelectItem (fw s) QemuFwCfgItemInterfaceVersion);
          s1 = s\<lparr>fw := fw1\<rparr>
      in if Revision AND FW_CFG_F_DMA = 0 then (EFI_NOT_FOUND, s1)
         else if \<not> AllocatePool E DmaAccessPool then (EFI_OUT_OF_RESOURCES, s1)
         else if BootScriptEvent E \<noteq> EFI_SUCCESS then (BootScriptEvent E, s1)
         else (EFI_SUCCESS, s1\<lparr>boot_script := boot_script s1 @ [ctx]\<rparr>))"

definition TransferS3ContextToBootScript ::
  "('g, 'a, 'p, 'c, 'o) acpi_env \<Rightarrow> fw_dev \<Rightarrow> S3_CONTEXT \<Rightarrow> ('g, 'a, 'p, 'c) loader \<Rightarrow> EFI_STATUS \<times> ('g, 'a, 'p, 'c) loader" where
  "TransferS3ContextToBootScript E dev ctx s =
     (if WritePointers ctx = [] then (EFI_SUCCESS, s) else QemuFwCfgS3CallWhenBootScriptReady E dev ctx s)"

text \<open>
  The operations the notification appends to the boot script: selecting an item and skipping to
  an offset, and writing the scratch buffer, filled with a value first, to the item selected.
\<close>

datatype S3_OPCODE = S3SkipBytes nat nat | S3WriteBytes nat nat

fun AppendFwCfgBootScript :: "CONDENSED_WRITE_POINTER list \<Rightarrow> S3_OPCODE list" where
  "AppendFwCfgBootScript [] = []"
| "AppendFwCfgBootScript (c # cs) =
     S3SkipBytes (cw_PointerItem c) (cw_PointerOffset c) # S3WriteBytes (cw_PointerValue c) (cw_PointerSize c) #
     AppendFwCfgBootScript cs"

section \<open>The driver\<close>

text \<open>The command at an index; the index after the last command that told QEMU a pointer is carried along.\<close>

definition run_entry ::
  "('g, 'a, 'p, 'c, 'o) acpi_env \<Rightarrow> fw_dev \<Rightarrow> 'c \<Rightarrow> QEMU_LOADER_ENTRY \<Rightarrow> nat \<Rightarrow> nat \<Rightarrow> ('g, 'a, 'p, 'c) loader \<Rightarrow>
     (EFI_STATUS \<times> nat \<times> ('g, 'a, 'p, 'c) loader) option" where
  "run_entry E dev restricted e i WritePointerSubsetEnd s =
     (case e of
         QemuLoaderCmdAllocate al \<Rightarrow> map_option (\<lambda>(st, s1). (st, WritePointerSubsetEnd, s1)) (ProcessCmdAllocate E dev restricted al s)
       | QemuLoaderCmdAddPointer p \<Rightarrow> map_option (\<lambda>(st, s1). (st, WritePointerSubsetEnd, s1)) (ProcessCmdAddPointer E p s)
       | QemuLoaderCmdAddChecksum c \<Rightarrow> map_option (\<lambda>(st, s1). (st, WritePointerSubsetEnd, s1)) (ProcessCmdAddChecksum E c s)
       | QemuLoaderCmdWritePointer w \<Rightarrow>
           map_option (\<lambda>(st, s1). (st, if st = EFI_SUCCESS then i + 1 else WritePointerSubsetEnd, s1)) (ProcessCmdWritePointer E dev w s)
       | UnknownCommand _ \<Rightarrow> Some (EFI_SUCCESS, WritePointerSubsetEnd, s))"

fun first_pass ::
  "('g, 'a, 'p, 'c, 'o) acpi_env \<Rightarrow> fw_dev \<Rightarrow> 'c \<Rightarrow> QEMU_LOADER_ENTRY list \<Rightarrow> nat \<Rightarrow> nat \<Rightarrow> ('g, 'a, 'p, 'c) loader \<Rightarrow>
     (EFI_STATUS \<times> nat \<times> ('g, 'a, 'p, 'c) loader) option" where
  "first_pass E dev restricted [] i WritePointerSubsetEnd s = Some (EFI_SUCCESS, WritePointerSubsetEnd, s)"
| "first_pass E dev restricted (e # es) i WritePointerSubsetEnd s =
     Option.bind (run_entry E dev restricted e i WritePointerSubsetEnd s) (\<lambda>(Status, wend, s1).
     if Status \<noteq> EFI_SUCCESS then Some (Status, wend, s1)
     else first_pass E dev restricted es (i + 1) wend s1)"

fun second_pass ::
  "('g, 'a, 'p, 'c, 'o) acpi_env \<Rightarrow> QEMU_LOADER_ENTRY list \<Rightarrow> nat list \<Rightarrow> 'o \<Rightarrow> ('g, 'a, 'p, 'c) loader \<Rightarrow>
     (EFI_STATUS \<times> nat list \<times> ('g, 'a, 'p, 'c) loader) option" where
  "second_pass E [] InstalledKey seen s = Some (EFI_SUCCESS, InstalledKey, s)"
| "second_pass E (e # es) InstalledKey seen s =
     (case e of
        QemuLoaderCmdAddPointer p \<Rightarrow> Option.bind (Process2ndPassCmdAddPointer E p InstalledKey seen s) (\<lambda>(Status, keys, seen1, s1).
          if Status \<noteq> EFI_SUCCESS then Some (Status, keys, s1) else second_pass E es keys seen1 s1)
      | _ \<Rightarrow> second_pass E es InstalledKey seen s)"

text \<open>Taking tables out again, last one first.\<close>

fun uninstall_tables :: "('g, 'a, 'p, 'c, 'o) acpi_env \<Rightarrow> nat list \<Rightarrow> 'a \<Rightarrow> 'a" where
  "uninstall_tables E [] a = a"
| "uninstall_tables E (k # ks) a = UninstallAcpiTable E (uninstall_tables E ks a) k"

text \<open>Revoking the pointers of the commands before an index, last one first.\<close>

fun undo_write_pointers ::
  "fw_dev \<Rightarrow> QEMU_LOADER_ENTRY list \<Rightarrow> ('g, 'a, 'p, 'c) loader \<Rightarrow> ('g, 'a, 'p, 'c) loader option" where
  "undo_write_pointers dev [] s = Some s"
| "undo_write_pointers dev (e # es) s = Option.bind (undo_write_pointers dev es s) (\<lambda>s1.
     case e of QemuLoaderCmdWritePointer w \<Rightarrow> UndoCmdWritePointer dev w s1 | _ \<Rightarrow> Some s1)"

text \<open>The loop that takes the tracker down, from an entry on.\<close>

partial_function (option) release_blobs ::
  "('g, 'a, 'p, 'c, 'o) acpi_env \<Rightarrow> bool \<Rightarrow> (byte list \<times> nat) option \<Rightarrow> ('g, 'a, 'p, 'c) loader \<Rightarrow> ('g, 'a, 'p, 'c) loader option" where
  "release_blobs E failed entry s =
     (case entry of
        None \<Rightarrow> Some s
      | Some (k, b) \<Rightarrow>
          let TrackerEntry2 = OrderedCollectionNext (name_ops E) (Tracker s) k;
              Blob = blobs s ! b;
              s1 = s\<lparr>Tracker := OrderedCollectionDelete (name_ops E) (Tracker s) k\<rparr>
          in release_blobs E failed TrackerEntry2
               (if failed \<or> HostsOnlyTableData Blob
                then s1\<lparr>pages := FreePages E (pages s1) (blob_Base Blob) (EFI_SIZE_TO_PAGES (blob_Size Blob))\<rparr> else s1))"

declare release_blobs.simps [code]

text \<open>From a status on: what is undone on failure, and the release of the blobs.\<close>

definition finish_tables ::
  "('g, 'a, 'p, 'c, 'o) acpi_env \<Rightarrow> fw_dev \<Rightarrow> QEMU_LOADER_ENTRY list \<Rightarrow> nat \<Rightarrow> EFI_STATUS \<Rightarrow> ('g, 'a, 'p, 'c) loader \<Rightarrow>
     (EFI_STATUS \<times> ('g, 'a, 'p, 'c) loader) option" where
  "finish_tables E dev script WritePointerSubsetEnd Status s =
     Option.bind (if Status \<noteq> EFI_SUCCESS then undo_write_pointers dev (take WritePointerSubsetEnd script) s else Some s) (\<lambda>s1.
     map_option (Pair Status)
       (release_blobs E (Status \<noteq> EFI_SUCCESS) (OrderedCollectionMin (name_ops E) (Tracker s1)) s1))"

text \<open>From the end of the first pass on.\<close>

definition install_tables ::
  "('g, 'a, 'p, 'c, 'o) acpi_env \<Rightarrow> fw_dev \<Rightarrow> QEMU_LOADER_ENTRY list \<Rightarrow> nat \<Rightarrow> ('g, 'a, 'p, 'c) loader \<Rightarrow>
     (EFI_STATUS \<times> ('g, 'a, 'p, 'c) loader) option" where
  "install_tables E dev script WritePointerSubsetEnd s =
     (if \<not> AllocatePool E KeysPool then finish_tables E dev script WritePointerSubsetEnd EFI_OUT_OF_RESOURCES s
      else case OrderedCollectionInit (ptr_ops E) of
        None \<Rightarrow> finish_tables E dev script WritePointerSubsetEnd EFI_OUT_OF_RESOURCES s
      | Some SeenPointers \<Rightarrow>
          Option.bind (second_pass E script [] SeenPointers s) (\<lambda>(Status, InstalledKey, s1).
          let (Status2, s2) = (if Status \<noteq> EFI_SUCCESS then (Status, s1)
                else (case S3Context s1 of
                    None \<Rightarrow> (EFI_SUCCESS, s1)
                  | Some ctx \<Rightarrow> TransferS3ContextToBootScript E dev ctx s1));
              s3 = (if Status2 \<noteq> EFI_SUCCESS then s2\<lparr>acpi := uninstall_tables E InstalledKey (acpi s2)\<rparr> else s2)
          in finish_tables E dev script WritePointerSubsetEnd Status2 s3))"

definition run_script ::
  "('g, 'a, 'p, 'c, 'o) acpi_env \<Rightarrow> fw_dev \<Rightarrow> 'c \<Rightarrow> QEMU_LOADER_ENTRY list \<Rightarrow> ('g, 'a, 'p, 'c) loader \<Rightarrow>
     (EFI_STATUS \<times> ('g, 'a, 'p, 'c) loader) option" where
  "run_script E dev restricted script s =
     Option.bind (first_pass E dev restricted script 0 0 s) (\<lambda>(Status, WritePointerSubsetEnd, s1).
     if Status \<noteq> EFI_SUCCESS then finish_tables E dev script WritePointerSubsetEnd Status s1
     else install_tables E dev script WritePointerSubsetEnd s1)"

definition InstallQemuFwCfgTables ::
  "('g, 'a, 'p, 'c, 'o) acpi_env \<Rightarrow> fw_dev \<Rightarrow> ('g, 'a, 'p) acpi_world \<Rightarrow> (EFI_STATUS \<times> ('g, 'a, 'p) acpi_world) option" where
  "InstallQemuFwCfgTables E dev w =
     Option.bind (QemuFwCfgFindFile dev (fw w) (ascii ''etc/table-loader'')) (\<lambda>(Status, FwCfgItem, FwCfgSize, fw1).
     let w1 = w\<lparr>fw := fw1\<rparr>
     in if Status \<noteq> EFI_SUCCESS then Some (Status, w1)
        else if FwCfgSize mod sizeof_QEMU_LOADER_ENTRY \<noteq> 0 then Some (EFI_PROTOCOL_ERROR, w1)
        else if \<not> AllocatePool E LoaderPool then Some (EFI_OUT_OF_RESOURCES, w1)
        else Option.bind (EnablePciDecoding (pci_ops E) (pci w1)) (\<lambda>(OriginalPciAttributes, p1).
        let (bytes, fw2) = QemuFwCfgReadBytes dev (QemuFwCfgSelectItem fw1 FwCfgItem) FwCfgSize
        in Option.bind (RestorePciDecoding (pci_ops E) OriginalPciAttributes p1) (\<lambda>p2.
        let script = loader_script bytes; w2 = w1\<lparr>fw := fw2, pci := p2\<rparr>
        in Option.bind (CollectAllocationsRestrictedTo32Bit E script) (\<lambda>(Status, restricted).
        case restricted of
          None \<Rightarrow> Some (Status, w2)
        | Some r \<Rightarrow> Option.bind (QemuFwCfgS3Enabled dev (fw w2)) (\<lambda>(s3, fw3).
            let w3 = w2\<lparr>fw := fw3\<rparr>;
                (Status, ctx) = (if s3 then AllocateS3Context E (length script) else (EFI_SUCCESS, None))
            in if Status \<noteq> EFI_SUCCESS then Some (Status, w3)
               else (case OrderedCollectionInit (name_ops E) of
                   None \<Rightarrow> Some (EFI_OUT_OF_RESOURCES, w3)
                 | Some t \<Rightarrow> map_option (map_prod (\<lambda>st. st) acpi_world.truncate)
                     (run_script E dev r script (acpi_world.extend w3 (loader.fields [] t ctx)))))))))"

end
