(* ===== verification/AcpiLoaderInv.thy ===== *)
theory AcpiLoaderInv
  imports AcpiLoader FwCfgProps
begin

text \<open>
  The contracts of the environment of the ACPI driver, the invariant of a run of the script, and
  what each command does to it.
\<close>

section \<open>Contracts\<close>

text \<open>
  The collections keep entries by key; the page allocator hands out free pages below the limit asked for,
  with an expressible end; the table protocol files a table under a new key; the checksums add bytes.
  The views are the addresses that are free and the tables installed.
\<close>

definition acpi_env_ok ::
  "('g, 'a, 'p, 'c, 'o) acpi_env \<Rightarrow> (byte list, 'c) oc_view \<Rightarrow> (nat, 'o) oc_view \<Rightarrow> ('g \<Rightarrow> nat set) \<Rightarrow> ('a \<Rightarrow> nat \<Rightarrow> byte list option) \<Rightarrow> bool" where
  "acpi_env_ok E nv ov gv av \<longleftrightarrow> oc_keyed (name_ops E) nv \<and> oc_keyed (ptr_ops E) ov \<and> MAX_ADDRESS E < 2 ^ 64 \<and>
     (\<forall>g maxa n. case AllocatePages E g maxa n of
        (Inl st, g') \<Rightarrow> st \<noteq> EFI_SUCCESS \<and> gv g' = gv g
      | (Inr A, g') \<Rightarrow> A + EFI_PAGES_TO_SIZE n \<le> MAX_ADDRESS E \<and> A + EFI_PAGES_TO_SIZE n \<le> maxa + 1 \<and>
          {A..<A + EFI_PAGES_TO_SIZE n} \<subseteq> gv g \<and> gv g' = gv g - {A..<A + EFI_PAGES_TO_SIZE n}) \<and>
     (\<forall>g A n. gv (FreePages E g A n) = gv g \<union> {A..<A + EFI_PAGES_TO_SIZE n}) \<and>
     (\<forall>a bs. case InstallAcpiTable E a bs of
        (Inl st, a') \<Rightarrow> st \<noteq> EFI_SUCCESS \<and> av a' = av a
      | (Inr k, a') \<Rightarrow> av a k = None \<and> av a' = (av a)(k \<mapsto> bs)) \<and>
     (\<forall>a k. av (UninstallAcpiTable E a k) = (av a)(k := None)) \<and>
     (\<forall>bs. CalculateSum8 E bs = sum_list bs \<and> CalculateCheckSum8 E bs = - sum_list bs)"

lemma acpi_envD:
  assumes "acpi_env_ok E nv ov gv av"
  shows "oc_keyed (name_ops E) nv" "oc_keyed (ptr_ops E) ov" "MAX_ADDRESS E < 2 ^ 64"
    and "AllocatePages E g maxa n = (Inl st, g') \<Longrightarrow> st \<noteq> EFI_SUCCESS \<and> gv g' = gv g"
    and "AllocatePages E g maxa n = (Inr A, g') \<Longrightarrow> A + EFI_PAGES_TO_SIZE n \<le> MAX_ADDRESS E \<and> A + EFI_PAGES_TO_SIZE n \<le> maxa + 1 \<and>
      {A..<A + EFI_PAGES_TO_SIZE n} \<subseteq> gv g \<and> gv g' = gv g - {A..<A + EFI_PAGES_TO_SIZE n}"
    and "gv (FreePages E g A n) = gv g \<union> {A..<A + EFI_PAGES_TO_SIZE n}"
    and "InstallAcpiTable E a bs = (Inl st, a') \<Longrightarrow> st \<noteq> EFI_SUCCESS \<and> av a' = av a"
    and "InstallAcpiTable E a bs = (Inr k, a') \<Longrightarrow> av a k = None \<and> av a' = (av a)(k \<mapsto> bs)"
    and "av (UninstallAcpiTable E a k) = (av a)(k := None)"
    and "CalculateSum8 E bs = sum_list bs" "CalculateCheckSum8 E bs = - sum_list bs"
  using assms unfolding acpi_env_ok_def by (force split: prod.splits sum.splits)+

section \<open>The configuration device\<close>

lemma fw_find:
  assumes "mQemuFwCfgSupported f" and "publishes dev dir"
  obtains f' where "QemuFwCfgFindFile dev f Name = Some (fst (lookup_entry dir Name), fst (snd (lookup_entry dir Name)), snd (snd (lookup_entry dir Name)), f')"
    "mQemuFwCfgSupported f'" "fw_written f' = fw_written f"
proof -
  obtain off where "QemuFwCfgFindFile dev f Name = found_in (f\<lparr>fw_item := QemuFwCfgItemFileDir, fw_offset := off\<rparr>) (lookup_entry dir Name)"
    using find_file_published [OF assms] by blast
  then show thesis using assms(1) by (intro that [of "f\<lparr>fw_item := QemuFwCfgItemFileDir, fw_offset := off\<rparr>"]) (simp_all add: found_in_def)
qed

lemma fw_read:
  assumes "mQemuFwCfgSupported f"
  obtains f' where "QemuFwCfgReadBytes dev (QemuFwCfgSelectItem f item) n = (dev_bytes dev (item mod 2 ^ 16) 0 n, f')"
    "mQemuFwCfgSupported f'" "fw_written f' = fw_written f"
proof -
  let ?f = "(QemuFwCfgSelectItem f item)\<lparr>fw_offset := n\<rparr>"
  show thesis using assms
    by (intro that [of ?f]) (simp_all add: QemuFwCfgSelectItem_def read_bytes dev_transfer_def)
qed

lemma fw_write:
  assumes "mQemuFwCfgSupported f"
  shows "mQemuFwCfgSupported (fw_write_value dev item off n v f)"
    "fw_written (fw_write_value dev item off n v f) = fw_written f @ [(item mod 2 ^ 16, off, le_bytes n v)]"
  using assms by (auto simp: fw_write_value_def QemuFwCfgSelectItem_def QemuFwCfgSkipBytes_def QemuFwCfgWriteBytes_def skip_loop_offset)

lemma lookup_small:
  assumes "publishes dev dir" and "lookup_entry dir Name = (EFI_SUCCESS, item, sz)"
  shows "item < 2 ^ 16" "sz < 2 ^ 32"
proof -
  obtain name where "find (\<lambda>e. fst e = Name) dir = Some (name, sz, item)"
    using assms(2) by (auto simp: lookup_entry_def split: option.splits prod.splits)
  then have "(name, sz, item) \<in> set dir" by (auto simp: find_Some_iff)
  then have "entry_ok (name, sz, item)" using assms(1) unfolding publishes_def by blast
  then show "item < 2 ^ 16" "sz < 2 ^ 32" by simp_all
qed

section \<open>Memory\<close>

lemma put_bytes_same: "mem_bytes (put_bytes m a bs) a (length bs) = bs"
  by (rule nth_equalityI) (simp_all add: put_bytes_def)

lemma put_bytes_other: "apart (b, n) (a, length bs) \<Longrightarrow> mem_bytes (put_bytes m a bs) b n = mem_bytes m b n"
  by (rule mem_bytes_cong) (auto simp: put_bytes_def)

lemma put_bytes_outside: "x \<notin> {a..<a + length bs} \<Longrightarrow> put_bytes m a bs x = m x"
  by (auto simp: put_bytes_def)

lemma size_covered: "n \<le> EFI_PAGES_TO_SIZE (EFI_SIZE_TO_PAGES n)"
  unfolding EFI_PAGES_TO_SIZE_def by (rule pages_cover)

section \<open>The invariant\<close>

definition blob_room :: "BLOB \<Rightarrow> nat set" where
  "blob_room b = {blob_Base b ..< blob_Base b + EFI_PAGES_TO_SIZE (EFI_SIZE_TO_PAGES (blob_Size b))}"

definition rooms :: "BLOB list \<Rightarrow> nat set" where
  "rooms bs = (\<Union>b \<in> set bs. blob_room b)"

text \<open>Names, sizes and places of the blobs.\<close>

definition blob_place :: "BLOB \<Rightarrow> byte list \<times> nat \<times> nat" where
  "blob_place b = (blob_File b, blob_Size b, blob_Base b)"

definition blobs_placed :: "nat set \<Rightarrow> nat \<Rightarrow> BLOB list \<Rightarrow> bool" where
  "blobs_placed F lim bs \<longleftrightarrow> (\<forall>p < length bs. blob_room (bs ! p) \<subseteq> F \<and>
     blob_Base (bs ! p) + EFI_PAGES_TO_SIZE (EFI_SIZE_TO_PAGES (blob_Size (bs ! p))) \<le> lim \<and>
     (\<forall>q < length bs. p \<noteq> q \<longrightarrow> blob_room (bs ! p) \<inter> blob_room (bs ! q) = {}))"

definition loader_inv ::
  "('g, 'a, 'p, 'c, 'o) acpi_env \<Rightarrow> (byte list, 'c) oc_view \<Rightarrow> ('g \<Rightarrow> nat set) \<Rightarrow> 'c \<Rightarrow> nat set \<Rightarrow> phys_mem \<Rightarrow> ('g, 'a, 'p, 'c) loader \<Rightarrow> bool" where
  "loader_inv E nv gv R F m0 s \<longleftrightarrow> mQemuFwCfgSupported (fw s) \<and> oc_inv nv (Tracker s) \<and>
     set (oc_list nv (Tracker s)) = (\<lambda>p. (c_string (blob_File (blobs s ! p)), p)) ` {..<length (blobs s)} \<and>
     blobs_placed F (MAX_ADDRESS E) (blobs s) \<and>
     (\<forall>b \<in> set (blobs s). OrderedCollectionFind (name_ops E) R (c_string (blob_File b)) \<noteq> None \<longrightarrow>
        blob_Base b + EFI_PAGES_TO_SIZE (EFI_SIZE_TO_PAGES (blob_Size b)) \<le> 2 ^ 32) \<and>
     gv (pages s) = F - rooms (blobs s) \<and> (\<forall>x. x \<notin> rooms (blobs s) \<longrightarrow> mem s x = m0 x)"

lemma loader_invD:
  assumes "loader_inv E nv gv R F m0 s"
  shows "mQemuFwCfgSupported (fw s)" "oc_inv nv (Tracker s)"
    "set (oc_list nv (Tracker s)) = (\<lambda>p. (c_string (blob_File (blobs s ! p)), p)) ` {..<length (blobs s)}"
    "blobs_placed F (MAX_ADDRESS E) (blobs s)" "gv (pages s) = F - rooms (blobs s)"
    "x \<notin> rooms (blobs s) \<Longrightarrow> mem s x = m0 x"
  using assms by (simp_all add: loader_inv_def)

lemma tracker_find:
  assumes "acpi_env_ok E nv ov gv av" and "loader_inv E nv gv R F m0 s"
  shows "OrderedCollectionFind (name_ops E) (Tracker s) k = Some p \<longleftrightarrow> p < length (blobs s) \<and> c_string (blob_File (blobs s ! p)) = k"
proof -
  note l = acpi_envD(1) [OF assms(1)] and i = loader_invD [OF assms(2)]
  have "map_of (oc_list nv (Tracker s)) k = Some p \<longleftrightarrow> (k, p) \<in> set (oc_list nv (Tracker s))"
    using oc_keyedD(2) [OF l i(2)] by simp
  then show ?thesis unfolding oc_keyedD(3) [OF l i(2)] i(3) by auto
qed

lemma blob_in_room: "blobs_placed F lim bs \<Longrightarrow> p < length bs \<Longrightarrow> blob_Base (bs ! p) + blob_Size (bs ! p) \<le> lim \<and>
    {blob_Base (bs ! p)..<blob_Base (bs ! p) + blob_Size (bs ! p)} \<subseteq> blob_room (bs ! p)"
  using size_covered [of "blob_Size (bs ! p)"] by (force simp: blobs_placed_def blob_room_def)

lemma room_in_rooms: "p < length bs \<Longrightarrow> blob_room (bs ! p) \<subseteq> rooms bs"
  unfolding rooms_def using nth_mem by blast

text \<open>Writing within a blob keeps the invariant.\<close>

lemma inv_write_blob:
  assumes "loader_inv E nv gv R F m0 s" and p: "p < length (blobs s)" and "off + length bs \<le> blob_Size (blobs s ! p)"
  shows "loader_inv E nv gv R F m0 (s\<lparr>mem := put_bytes (mem s) (blob_Base (blobs s ! p) + off) bs\<rparr>)"
proof -
  note i = loader_invD [OF assms(1)]
  have "{blob_Base (blobs s ! p) + off..<blob_Base (blobs s ! p) + off + length bs} \<subseteq> rooms (blobs s)"
    using blob_in_room [OF i(4) p] room_in_rooms [OF p] assms(3) by fastforce
  then have "x \<notin> rooms (blobs s) \<Longrightarrow> put_bytes (mem s) (blob_Base (blobs s ! p) + off) bs x = mem s x" for x
    by (intro put_bytes_outside) blast
  then show ?thesis using assms(1) by (simp add: loader_inv_def)
qed

text \<open>So does marking a blob, and anything that leaves blobs, memory and pages alone.\<close>

lemma rooms_place: "map blob_place bs = map blob_place bs' \<Longrightarrow> rooms bs = rooms bs'"
proof -
  have r: "rooms cs = (\<Union>t \<in> set (map blob_place cs). {snd (snd t)..<snd (snd t) + EFI_PAGES_TO_SIZE (EFI_SIZE_TO_PAGES (fst (snd t)))})" for cs
    by (simp add: rooms_def blob_room_def blob_place_def)
  show "map blob_place bs = map blob_place bs' \<Longrightarrow> rooms bs = rooms bs'" unfolding r by simp
qed

lemma place_nth:
  assumes "map blob_place bs = map blob_place bs'" and "p < length bs"
  shows "blob_File (bs ! p) = blob_File (bs' ! p)" "blob_Size (bs ! p) = blob_Size (bs' ! p)" "blob_Base (bs ! p) = blob_Base (bs' ! p)"
  using assms map_equality_iff [of blob_place bs blob_place bs'] by (simp_all add: blob_place_def)

lemma inv_same_places:
  assumes "loader_inv E nv gv R F m0 s" and b: "map blob_place (blobs s') = map blob_place (blobs s)"
    and "mQemuFwCfgSupported (fw s')" "Tracker s' = Tracker s" "mem s' = mem s" "pages s' = pages s"
  shows "loader_inv E nv gv R F m0 s'"
proof -
  have l: "length (blobs s') = length (blobs s)" using map_eq_imp_length_eq [OF b] .
  note n = place_nth [OF b]
  have "blobs_placed F (MAX_ADDRESS E) (blobs s')"
    using assms(1) l by (auto simp: loader_inv_def blobs_placed_def blob_room_def n)
  moreover have "(\<lambda>p. (c_string (blob_File (blobs s' ! p)), p)) ` {..<length (blobs s')} =
      (\<lambda>p. (c_string (blob_File (blobs s ! p)), p)) ` {..<length (blobs s)}" using l by (auto simp: n image_iff)
  moreover have "\<forall>b \<in> set (blobs s'). OrderedCollectionFind (name_ops E) R (c_string (blob_File b)) \<noteq> None \<longrightarrow>
        blob_Base b + EFI_PAGES_TO_SIZE (EFI_SIZE_TO_PAGES (blob_Size b)) \<le> 2 ^ 32"
    using assms(1) l unfolding loader_inv_def all_set_conv_all_nth by (simp add: n)
  ultimately show ?thesis using assms rooms_place [OF b] by (simp add: loader_inv_def)
qed

lemma mark_place: "p < length bs \<Longrightarrow> map blob_place (bs[p := (bs ! p)\<lparr>HostsOnlyTableData := h\<rparr>]) = map blob_place bs"
  by (rule nth_equalityI) (auto simp: blob_place_def nth_list_update)

end
