(* ===== verification/AcpiLoaderCmds.thy ===== *)
theory AcpiLoaderCmds
  imports AcpiLoaderInv
begin

text \<open>
  What each command of the script does: the invariant is kept, what is written where, and which
  pointers stay relocated.
\<close>

section \<open>Relocated pointers\<close>

definition relocated ::
  "('g, 'a, 'p, 'c, 'o) acpi_env \<Rightarrow> ('g, 'a, 'p, 'c) loader \<Rightarrow> QEMU_LOADER_ADD_POINTER \<Rightarrow> bool" where
  "relocated E s p \<longleftrightarrow> (\<exists>b b2. OrderedCollectionFind (name_ops E) (Tracker s) (c_string (PointerFile p)) = Some b \<and>
     OrderedCollectionFind (name_ops E) (Tracker s) (c_string (PointeeFile p)) = Some b2 \<and>
     \<not> pointer_misplaced (blob_Size (blobs s ! b)) (PointerSize p) (PointerOffset p) \<and>
     le_value (mem_bytes (mem s) (blob_Base (blobs s ! b) + PointerOffset p) (PointerSize p)) \<in>
       {blob_Base (blobs s ! b2)..<blob_Base (blobs s ! b2) + blob_Size (blobs s ! b2)})"

text \<open>Blobs stay where they are and opaque ones stay so, more may come.\<close>

definition extends :: "('g, 'a, 'p, 'c) loader \<Rightarrow> ('g, 'a, 'p, 'c) loader \<Rightarrow> bool" where
  "extends s s' \<longleftrightarrow> length (blobs s) \<le> length (blobs s') \<and> (\<forall>b < length (blobs s). blob_place (blobs s' ! b) = blob_place (blobs s ! b) \<and>
     (HostsOnlyTableData (blobs s' ! b) \<longrightarrow> HostsOnlyTableData (blobs s ! b)))"

lemma extends_mark:
  assumes "blobs s' = (blobs s)[b := (blobs s ! b)\<lparr>HostsOnlyTableData := False\<rparr>]"
  shows "extends s s'"
  using assms by (cases "b < length (blobs s)") (auto simp: extends_def blob_place_def nth_list_update)

lemma extendsD:
  assumes "extends s s'" and "b < length (blobs s)"
  shows "b < length (blobs s')" "blob_File (blobs s' ! b) = blob_File (blobs s ! b)" "blob_Size (blobs s' ! b) = blob_Size (blobs s ! b)"
    "blob_Base (blobs s' ! b) = blob_Base (blobs s ! b)"
  using assms by (auto simp: extends_def blob_place_def)

lemma relocated_kept:
  assumes env: "acpi_env_ok E nv ov gv av" and inv: "loader_inv E nv gv R F m0 s" and inv': "loader_inv E nv gv R F m0 s'"
    and ext: "extends s s'" and rel: "relocated E s p"
    and mem: "\<And>b. b < length (blobs s) \<Longrightarrow> c_string (blob_File (blobs s ! b)) = c_string (PointerFile p) \<Longrightarrow>
      \<not> pointer_misplaced (blob_Size (blobs s ! b)) (PointerSize p) (PointerOffset p) \<Longrightarrow>
      mem_bytes (mem s') (blob_Base (blobs s ! b) + PointerOffset p) (PointerSize p) =
      mem_bytes (mem s) (blob_Base (blobs s ! b) + PointerOffset p) (PointerSize p)"
  shows "relocated E s' p"
proof -
  note fs = tracker_find [OF env inv] and fs' = tracker_find [OF env inv']
  obtain b b2 where b: "b < length (blobs s)" "c_string (blob_File (blobs s ! b)) = c_string (PointerFile p)"
    "b2 < length (blobs s)" "c_string (blob_File (blobs s ! b2)) = c_string (PointeeFile p)"
    "\<not> pointer_misplaced (blob_Size (blobs s ! b)) (PointerSize p) (PointerOffset p)"
    "le_value (mem_bytes (mem s) (blob_Base (blobs s ! b) + PointerOffset p) (PointerSize p)) \<in>
       {blob_Base (blobs s ! b2)..<blob_Base (blobs s ! b2) + blob_Size (blobs s ! b2)}"
    using rel unfolding relocated_def fs by blast
  note e = extendsD [OF ext b(1)] and e2 = extendsD [OF ext b(3)]
  show ?thesis unfolding relocated_def fs'
    using b e e2 mem [OF b(1,2,5)] by (intro exI [of _ b] exI [of _ b2]) simp
qed

text \<open>A field lies in its blob, and blobs are apart.\<close>

lemma field_apart:
  assumes "blobs_placed F lim bs" and "b < length bs" "b' < length bs"
    and "off + n \<le> blob_Size (bs ! b)" "off' + n' \<le> blob_Size (bs ! b')" "0 < n" "0 < n'"
    and same: "b = b' \<Longrightarrow> apart (off, n) (off', n')"
  shows "apart (blob_Base (bs ! b) + off, n) (blob_Base (bs ! b') + off', n')"
proof (cases "b = b'")
  case True
  then show ?thesis using same by auto
next
  case False
  then have "blob_room (bs ! b) \<inter> blob_room (bs ! b') = {}" using assms(1-3) unfolding blobs_placed_def by blast
  moreover have "{blob_Base (bs ! b) + off..<blob_Base (bs ! b) + off + n} \<subseteq> blob_room (bs ! b)"
    "{blob_Base (bs ! b') + off'..<blob_Base (bs ! b') + off' + n'} \<subseteq> blob_room (bs ! b')"
    using blob_in_room [OF assms(1,2)] blob_in_room [OF assms(1,3)] assms(4,5) by fastforce+
  ultimately have "{blob_Base (bs ! b) + off..<blob_Base (bs ! b) + off + n} \<inter> {blob_Base (bs ! b') + off'..<blob_Base (bs ! b') + off' + n'} = {}" by blast
  then show ?thesis using assms(6,7) by (auto simp: ivl_disj_int_two)
qed

lemma placed_field: "\<not> pointer_misplaced sz n off \<Longrightarrow> 0 < n \<and> n \<le> 8 \<and> off + n \<le> sz"
  by (auto simp: pointer_misplaced_def)

section \<open>Allocation\<close>

text \<open>What the commands before the last phase leave alone.\<close>

definition quiet :: "('g, 'a, 'p, 'c) loader \<Rightarrow> ('g, 'a, 'p, 'c) loader \<Rightarrow> bool" where
  "quiet s s' \<longleftrightarrow> acpi s' = acpi s \<and> pci s' = pci s \<and> boot_script s' = boot_script s \<and> (S3Context s' = None \<longleftrightarrow> S3Context s = None)"

definition mute :: "('g, 'a, 'p, 'c) loader \<Rightarrow> ('g, 'a, 'p, 'c) loader \<Rightarrow> bool" where
  "mute s s' \<longleftrightarrow> quiet s s' \<and> S3Context s' = S3Context s \<and> fw_written (fw s') = fw_written (fw s)"

lemma inv_new_blob:
  assumes env: "acpi_env_ok E nv ov gv av" and inv: "loader_inv E nv gv R F m0 s"
    and a: "AllocatePages E (pages s) maxa (EFI_SIZE_TO_PAGES sz) = (Inr A, g)"
    and maxa: "OrderedCollectionFind (name_ops E) R (c_string f) \<noteq> None \<Longrightarrow> maxa < 2 ^ 32"
    and t: "oc_inv nv t" "set (oc_list nv t) = insert (c_string f, length (blobs s)) (set (oc_list nv (Tracker s)))"
    and s': "blobs s' = blobs s @ [\<lparr>blob_File = f, blob_Size = sz, blob_Base = A, HostsOnlyTableData = h\<rparr>]" "Tracker s' = t" "pages s' = g"
      "mQemuFwCfgSupported (fw s')" "\<And>x. x \<notin> {A..<A + EFI_PAGES_TO_SIZE (EFI_SIZE_TO_PAGES sz)} \<Longrightarrow> mem s' x = mem s x"
  shows "loader_inv E nv gv R F m0 s' \<and> extends s s' \<and> (\<forall>x \<in> rooms (blobs s). mem s' x = mem s x)"
proof -
  let ?B = "\<lparr>blob_File = f, blob_Size = sz, blob_Base = A, HostsOnlyTableData = h\<rparr>" and ?n = "EFI_PAGES_TO_SIZE (EFI_SIZE_TO_PAGES sz)"
  note i = loader_invD [OF inv]
  have al: "A + ?n \<le> MAX_ADDRESS E" "A + ?n \<le> maxa + 1" "{A..<A + ?n} \<subseteq> gv (pages s)" "gv g = gv (pages s) - {A..<A + ?n}"
    using acpi_envD(5) [OF env a] by simp_all
  have new: "blob_room ?B = {A..<A + ?n}" by (simp add: blob_room_def)
  then have fresh: "blob_room ?B \<subseteq> F" "blob_room ?B \<inter> rooms (blobs s) = {}" using al(3) i(5) by auto
  have r: "rooms (blobs s') = rooms (blobs s) \<union> {A..<A + ?n}" using s'(1) new by (auto simp: rooms_def)
  have "blobs_placed F (MAX_ADDRESS E) (blobs s')" unfolding blobs_placed_def
  proof (intro allI impI conjI)
    fix p assume "p < length (blobs s')"
    then consider "p < length (blobs s)" | "p = length (blobs s)" using s'(1) by fastforce
    note p = this
    show "blob_room (blobs s' ! p) \<subseteq> F"
      using p by cases (use i(4) fresh s'(1) in \<open>simp_all add: blobs_placed_def nth_append\<close>)
    show "blob_Base (blobs s' ! p) + EFI_PAGES_TO_SIZE (EFI_SIZE_TO_PAGES (blob_Size (blobs s' ! p))) \<le> MAX_ADDRESS E"
      using p by cases (use i(4) al(1) s'(1) in \<open>simp_all add: blobs_placed_def nth_append\<close>)
    fix q assume q0: "q < length (blobs s')" and ne: "p \<noteq> q"
    have pq: "p < length (blobs s) \<or> p = length (blobs s)" "q < length (blobs s) \<or> q = length (blobs s)" using \<open>p < length (blobs s')\<close> q0 s'(1) by auto
    have old: "blob_room (blobs s ! r) \<inter> blob_room ?B = {}" if "r < length (blobs s)" for r
      using fresh(2) room_in_rooms [OF that] by blast
    show "blob_room (blobs s' ! p) \<inter> blob_room (blobs s' ! q) = {}"
      using pq by (elim disjE) (use i(4) old ne s'(1) in \<open>simp_all add: blobs_placed_def nth_append Int_commute\<close>)
  qed
  moreover have "set (oc_list nv (Tracker s')) = (\<lambda>p. (c_string (blob_File (blobs s' ! p)), p)) ` {..<length (blobs s')}"
    using t i(3) s'(1,2) by (auto simp: lessThan_Suc nth_append image_iff)
  moreover have "\<forall>b \<in> set (blobs s'). OrderedCollectionFind (name_ops E) R (c_string (blob_File b)) \<noteq> None \<longrightarrow>
        blob_Base b + EFI_PAGES_TO_SIZE (EFI_SIZE_TO_PAGES (blob_Size b)) \<le> 2 ^ 32"
    using inv s'(1) maxa al(2) unfolding loader_inv_def by fastforce
  moreover have "gv (pages s') = F - rooms (blobs s')" using al(4) i(5) s'(3) r by auto
  moreover have "mem s' x = m0 x" if x: "x \<notin> rooms (blobs s')" for x
  proof -
    have "x \<notin> rooms (blobs s)" "x \<notin> {A..<A + ?n}" using x r by auto
    then show ?thesis using s'(5) i(6) by metis
  qed
  moreover have "extends s s'" using s'(1) by (simp add: extends_def nth_append)
  moreover have "mem s' x = mem s x" if "x \<in> rooms (blobs s)" for x
  proof -
    have "x \<notin> {A..<A + ?n}" using fresh(2) that unfolding new by blast
    then show ?thesis by (rule s'(5))
  qed
  ultimately show ?thesis using t s'(2,4) by (simp add: loader_inv_def)
qed

lemma extends_refl [simp]: "extends s s"
  by (simp add: extends_def)

lemma extends_same [simp]: "blobs s' = blobs s \<Longrightarrow> extends s s'"
  by (simp add: extends_def)

lemma mute_refl [simp]: "mute s s"
  by (simp add: mute_def quiet_def)

definition after_alloc :: "('g, 'a, 'p, 'c, 'o) acpi_env \<Rightarrow> (byte list, 'c) oc_view \<Rightarrow> ('g \<Rightarrow> nat set) \<Rightarrow> 'c \<Rightarrow> nat set \<Rightarrow> phys_mem \<Rightarrow>
    ('g, 'a, 'p, 'c) loader \<Rightarrow> ('g, 'a, 'p, 'c) loader \<Rightarrow> bool" where
  "after_alloc E nv gv R F m0 s s' \<longleftrightarrow> loader_inv E nv gv R F m0 s' \<and> mute s s' \<and> extends s s' \<and> (\<forall>x \<in> rooms (blobs s). mem s' x = mem s x)"

lemma after_alloc_unchanged:
  assumes "loader_inv E nv gv R F m0 s" "mQemuFwCfgSupported f" "fw_written f = fw_written (fw s)" "gv g = gv (pages s)"
  shows "after_alloc E nv gv R F m0 s (s\<lparr>fw := f, pages := g\<rparr>)"
  using assms by (simp add: after_alloc_def loader_inv_def mute_def quiet_def)

lemma allocate_step:
  assumes env: "acpi_env_ok E nv ov gv av" and pub: "publishes dev dir" and inv: "loader_inv E nv gv R F m0 s"
  shows "\<exists>st s'. ProcessCmdAllocate E dev R al s = Some (st, s') \<and> after_alloc E nv gv R F m0 s s'"
proof (cases "malformed (al_File al) \<or> EFI_PAGE_SIZE < Alignment al")
  case True
  then show ?thesis using after_alloc_unchanged [OF inv loader_invD(1) [OF inv] refl refl]
    by (auto simp: ProcessCmdAllocate_def)
next
  case False
  note i = loader_invD [OF inv]
  let ?key = "c_string (al_File al)"
  obtain f1 where f1: "QemuFwCfgFindFile dev (fw s) ?key =
      Some (fst (lookup_entry dir ?key), fst (snd (lookup_entry dir ?key)), snd (snd (lookup_entry dir ?key)), f1)"
    "mQemuFwCfgSupported f1" "fw_written f1 = fw_written (fw s)" by (rule fw_find [OF i(1) pub])
  obtain st item sz where l: "lookup_entry dir ?key = (st, item, sz)" by (metis prod_cases3)
  show ?thesis
  proof (cases "st = EFI_SUCCESS")
    case st: False
    then show ?thesis using False f1 l after_alloc_unchanged [OF inv f1(2,3), of "pages s"]
      by (auto simp: ProcessCmdAllocate_def)
  next
    case st: True
    let ?maxa = "if OrderedCollectionFind (name_ops E) R ?key \<noteq> None then MAX_UINT32 else MAX_UINT64"
    let ?n = "EFI_SIZE_TO_PAGES sz"
    obtain r g where a: "AllocatePages E (pages s) ?maxa ?n = (r, g)" by fastforce
    show ?thesis
    proof (cases r)
      case (Inl e)
      then show ?thesis using False f1 l st a acpi_envD(4) [OF env a [unfolded Inl]] after_alloc_unchanged [OF inv f1(2,3), of g]
        by (simp add: ProcessCmdAllocate_def Let_def)
    next
      case r: (Inr A)
      let ?free = "FreePages E g A ?n"
      have al: "{A..<A + EFI_PAGES_TO_SIZE ?n} \<subseteq> gv (pages s)" "gv g = gv (pages s) - {A..<A + EFI_PAGES_TO_SIZE ?n}"
        using acpi_envD(5) [OF env a [unfolded r]] by simp_all
      then have "gv ?free = gv (pages s)" using acpi_envD(6) [OF env, of g A ?n] by auto
      note freed = after_alloc_unchanged [OF inv f1(2,3) this]
      show ?thesis
      proof (cases "AllocatePool E (BlobPool (length (blobs s)))")
        case no: False
        then show ?thesis using False f1 l st a r freed by (simp add: ProcessCmdAllocate_def Let_def)
      next
        case pool: True
        let ?ins = "OrderedCollectionInsert (name_ops E) (Tracker s) ?key (length (blobs s))"
        from oc_keyedD(7) [OF acpi_envD(1) [OF env] i(2), of ?key "length (blobs s)"]
        consider (ok) t where "?ins = (EFI_SUCCESS, t, length (blobs s))" "oc_inv nv t"
            "set (oc_list nv t) = insert (?key, length (blobs s)) (set (oc_list nv (Tracker s)))"
          | (dup) q where "?ins = (EFI_ALREADY_STARTED, Tracker s, q)" | (oor) q where "?ins = (EFI_OUT_OF_RESOURCES, Tracker s, q)" by metis
        then show ?thesis
        proof cases
          case ok
          let ?B = "\<lparr>blob_File = al_File al, blob_Size = sz, blob_Base = A, HostsOnlyTableData = True\<rparr>"
          obtain f2 where f2: "QemuFwCfgReadBytes dev (QemuFwCfgSelectItem f1 item) sz = (dev_bytes dev (item mod 2 ^ 16) 0 sz, f2)"
            "mQemuFwCfgSupported f2" "fw_written f2 = fw_written f1" by (rule fw_read [OF f1(2)])
          let ?m = "put_bytes (put_bytes (mem s) A (dev_bytes dev (item mod 2 ^ 16) 0 sz)) (A + sz) (replicate (EFI_PAGES_TO_SIZE ?n - sz) 0)"
          let ?s = "s\<lparr>fw := f2, pages := g, blobs := blobs s @ [?B], Tracker := t, mem := ?m\<rparr>"
          have run: "ProcessCmdAllocate E dev R al s = Some (EFI_SUCCESS, ?s)"
            using False f1(1) l st a r pool ok(1) f2(1) by (simp add: ProcessCmdAllocate_def Let_def)
          have m: "?m x = mem s x" if "x \<notin> {A..<A + EFI_PAGES_TO_SIZE ?n}" for x
            using that size_covered [of sz] by (auto simp: put_bytes_def)
          have maxa: "OrderedCollectionFind (name_ops E) R (c_string (al_File al)) \<noteq> None \<Longrightarrow> ?maxa < 2 ^ 32" by (simp add: MAX_UINT32_def)
          have "loader_inv E nv gv R F m0 ?s \<and> extends s ?s \<and> (\<forall>x \<in> rooms (blobs s). mem ?s x = mem s x)"
            by (rule inv_new_blob [OF env inv a [unfolded r] maxa ok(2,3)]) (use f2 m in simp_all)
          then show ?thesis unfolding run using f1(3) f2(3) by (simp add: after_alloc_def mute_def quiet_def)
        next
          case dup
          then show ?thesis using False f1 l st a r pool freed by (simp add: ProcessCmdAllocate_def Let_def)
        next
          case oor
          then show ?thesis using False f1 l st a r pool freed by (simp add: ProcessCmdAllocate_def Let_def)
        qed
      qed
    qed
  qed
qed

section \<open>Pointers and checksums\<close>

lemma representable:
  assumes "\<not> unrepresentable n v" and "n \<in> {1, 2, 4, 8}" and "v < 2 ^ 64"
  shows "v < 256 ^ n"
proof (cases "n = 8")
  case True
  then show ?thesis using assms(3) by simp
next
  case False
  then have "v div 2 ^ (8 * n) = 0" using assms(1,2) by (auto simp: unrepresentable_def drop_bit_eq_div)
  then have "v < 2 ^ (8 * n)" by (simp add: div_eq_0_iff)
  also have "(2 :: nat) ^ (8 * n) = 256 ^ n" by (simp add: power_mult)
  finally show ?thesis .
qed

text \<open>A pointer is relocated by adding the base of the blob it points into, or refused.\<close>

definition relocates ::
  "('g, 'a, 'p, 'c) loader \<Rightarrow> QEMU_LOADER_ADD_POINTER \<Rightarrow> nat \<Rightarrow> nat \<Rightarrow> ('g, 'a, 'p, 'c) loader \<Rightarrow> bool" where
  "relocates s p b b2 s' \<longleftrightarrow> b < length (blobs s) \<and> c_string (blob_File (blobs s ! b)) = c_string (PointerFile p) \<and>
     b2 < length (blobs s) \<and> c_string (blob_File (blobs s ! b2)) = c_string (PointeeFile p) \<and>
     \<not> pointer_misplaced (blob_Size (blobs s ! b)) (PointerSize p) (PointerOffset p) \<and>
     (let field = blob_Base (blobs s ! b) + PointerOffset p; v = le_value (mem_bytes (mem s) field (PointerSize p))
      in v < blob_Size (blobs s ! b2) \<and> blob_Base (blobs s ! b2) + v < 256 ^ PointerSize p \<and>
         s' = s\<lparr>mem := put_bytes (mem s) field (le_bytes (PointerSize p) (blob_Base (blobs s ! b2) + v))\<rparr>)"

lemma add_pointer_step:
  assumes env: "acpi_env_ok E nv ov gv av" and inv: "loader_inv E nv gv R F m0 s"
  shows "\<exists>st s'. ProcessCmdAddPointer E p s = Some (st, s') \<and>
    (if st = EFI_SUCCESS then \<exists>b b2. relocates s p b b2 s' else st = EFI_PROTOCOL_ERROR \<and> s' = s)"
proof (cases "malformed (PointerFile p) \<or> malformed (PointeeFile p)")
  case True
  then show ?thesis by (auto simp: ProcessCmdAddPointer_def)
next
  case wf: False
  note i = loader_invD [OF inv] and tf = tracker_find [OF env inv]
  show ?thesis
  proof (cases "OrderedCollectionFind (name_ops E) (Tracker s) (c_string (PointerFile p)) = None \<or>
      OrderedCollectionFind (name_ops E) (Tracker s) (c_string (PointeeFile p)) = None")
    case True
    then show ?thesis using wf by (auto simp: ProcessCmdAddPointer_def split: option.splits)
  next
    case False
    then obtain b b2 where f: "OrderedCollectionFind (name_ops E) (Tracker s) (c_string (PointerFile p)) = Some b"
      "OrderedCollectionFind (name_ops E) (Tracker s) (c_string (PointeeFile p)) = Some b2" by auto
    note b = f [unfolded tf]
    let ?B = "blobs s ! b" and ?B2 = "blobs s ! b2"
    let ?field = "blob_Base ?B + PointerOffset p"
    let ?v = "le_value (mem_bytes (mem s) ?field (PointerSize p))"
    show ?thesis
    proof (cases "pointer_misplaced (blob_Size ?B) (PointerSize p) (PointerOffset p) \<or> blob_Size ?B2 \<le> ?v")
      case True
      then show ?thesis using wf f by (auto simp: ProcessCmdAddPointer_def Let_def)
    next
      case ok: False
      have lim: "blob_Base ?B2 + blob_Size ?B2 \<le> MAX_ADDRESS E" using blob_in_room [OF i(4)] b(2) by blast
      then have small: "?v + blob_Base ?B2 < 2 ^ 64" using ok acpi_envD(3) [OF env] by linarith
      show ?thesis
      proof (cases "unrepresentable (PointerSize p) (?v + blob_Base ?B2)")
        case True
        then show ?thesis using wf f ok lim small by (auto simp: ProcessCmdAddPointer_def Let_def)
      next
        case False
        have "PointerSize p \<in> {1, 2, 4, 8}" using ok by (simp add: pointer_misplaced_def)
        from representable [OF False this small] have "blob_Base ?B2 + ?v < 256 ^ PointerSize p" by (simp add: add.commute)
        moreover let ?s = "s\<lparr>mem := put_bytes (mem s) ?field (le_bytes (PointerSize p) (blob_Base ?B2 + ?v))\<rparr>"
        have "ProcessCmdAddPointer E p s = Some (EFI_SUCCESS, ?s)"
          using wf f ok lim small False by (simp add: ProcessCmdAddPointer_def Let_def add.commute)
        ultimately have "ProcessCmdAddPointer E p s = Some (EFI_SUCCESS, ?s) \<and> relocates s p b b2 ?s"
          using b ok by (simp add: relocates_def Let_def)
        then show ?thesis by auto
      qed
    qed
  qed
qed

lemma relocates_post:
  assumes env: "acpi_env_ok E nv ov gv av" and inv: "loader_inv E nv gv R F m0 s" and r: "relocates s p b b2 s'"
  shows "loader_inv E nv gv R F m0 s'" "mute s s'" "extends s s'" "relocated E s' p"
proof -
  let ?field = "blob_Base (blobs s ! b) + PointerOffset p"
  let ?v = "le_value (mem_bytes (mem s) ?field (PointerSize p))"
  have d: "b < length (blobs s)" "c_string (blob_File (blobs s ! b)) = c_string (PointerFile p)"
    "b2 < length (blobs s)" "c_string (blob_File (blobs s ! b2)) = c_string (PointeeFile p)"
    "\<not> pointer_misplaced (blob_Size (blobs s ! b)) (PointerSize p) (PointerOffset p)"
    "?v < blob_Size (blobs s ! b2)" "blob_Base (blobs s ! b2) + ?v < 256 ^ PointerSize p"
    and s': "s' = s\<lparr>mem := put_bytes (mem s) ?field (le_bytes (PointerSize p) (blob_Base (blobs s ! b2) + ?v))\<rparr>"
    using r by (simp_all add: relocates_def Let_def)
  have "PointerOffset p + length (le_bytes (PointerSize p) (blob_Base (blobs s ! b2) + ?v)) \<le> blob_Size (blobs s ! b)"
    using placed_field [OF d(5)] by simp
  from inv_write_blob [OF inv d(1) this] show inv': "loader_inv E nv gv R F m0 s'" unfolding s' .
  show "mute s s'" "extends s s'" using s' by (simp_all add: mute_def quiet_def)
  have "mem_bytes (mem s') ?field (PointerSize p) = le_bytes (PointerSize p) (blob_Base (blobs s ! b2) + ?v)"
    using put_bytes_same [of "mem s" ?field "le_bytes (PointerSize p) (blob_Base (blobs s ! b2) + ?v)"] s' by simp
  then have "le_value (mem_bytes (mem s') ?field (PointerSize p)) = blob_Base (blobs s ! b2) + ?v"
    using d(7) by (simp add: le_value_le_bytes)
  then show "relocated E s' p" unfolding relocated_def tracker_find [OF env inv']
    using d s' by (intro exI [of _ b] exI [of _ b2]) simp
qed

text \<open>The byte for a checksum is set, or the command is refused.\<close>

definition checksums ::
  "('g, 'a, 'p, 'c) loader \<Rightarrow> QEMU_LOADER_ADD_CHECKSUM \<Rightarrow> nat \<Rightarrow> ('g, 'a, 'p, 'c) loader \<Rightarrow> bool" where
  "checksums s c b s' \<longleftrightarrow> b < length (blobs s) \<and> c_string (blob_File (blobs s ! b)) = c_string (ck_File c) \<and>
     ResultOffset c < blob_Size (blobs s ! b) \<and> ck_Start c + ck_Length c \<le> blob_Size (blobs s ! b) \<and>
     s' = s\<lparr>mem := put_bytes (mem s) (blob_Base (blobs s ! b) + ResultOffset c)
       [- sum_list (mem_bytes (mem s) (blob_Base (blobs s ! b) + ck_Start c) (ck_Length c))]\<rparr>"

lemma add_checksum_step:
  assumes env: "acpi_env_ok E nv ov gv av" and inv: "loader_inv E nv gv R F m0 s"
  shows "\<exists>st s'. ProcessCmdAddChecksum E c s = Some (st, s') \<and>
    (if st = EFI_SUCCESS then \<exists>b. checksums s c b s' else st = EFI_PROTOCOL_ERROR \<and> s' = s)"
proof (cases "malformed (ck_File c) \<or> OrderedCollectionFind (name_ops E) (Tracker s) (c_string (ck_File c)) = None")
  case True
  then show ?thesis by (auto simp: ProcessCmdAddChecksum_def)
next
  case False
  then obtain b where f: "OrderedCollectionFind (name_ops E) (Tracker s) (c_string (ck_File c)) = Some b" by auto
  note b = f [unfolded tracker_find [OF env inv]]
  let ?B = "blobs s ! b"
  show ?thesis
  proof (cases "blob_Size ?B \<le> ResultOffset c \<or> blob_Size ?B < ck_Length c \<or> blob_Size ?B - ck_Length c < ck_Start c")
    case True
    then show ?thesis using False f by (auto simp: ProcessCmdAddChecksum_def Let_def)
  next
    case ok: False
    let ?s = "s\<lparr>mem := put_bytes (mem s) (blob_Base ?B + ResultOffset c) [- sum_list (mem_bytes (mem s) (blob_Base ?B + ck_Start c) (ck_Length c))]\<rparr>"
    have "ProcessCmdAddChecksum E c s = Some (EFI_SUCCESS, ?s)"
      using False f ok acpi_envD(11) [OF env] by (auto simp: ProcessCmdAddChecksum_def Let_def)
    moreover have "ck_Start c + ck_Length c \<le> blob_Size ?B" using ok by linarith
    then have "checksums s c b ?s" using b ok by (simp add: checksums_def)
    ultimately show ?thesis by auto
  qed
qed

lemma checksums_post:
  assumes inv: "loader_inv E nv gv R F m0 s" and c: "checksums s c b s'"
  shows "loader_inv E nv gv R F m0 s'" "mute s s'" "extends s s'"
proof -
  have d: "b < length (blobs s)" "ResultOffset c + length [- sum_list (mem_bytes (mem s) (blob_Base (blobs s ! b) + ck_Start c) (ck_Length c))] \<le> blob_Size (blobs s ! b)"
    using c by (simp_all add: checksums_def)
  show "loader_inv E nv gv R F m0 s'" using inv_write_blob [OF inv d] c by (simp add: checksums_def)
  show "mute s s'" "extends s s'" using c by (simp_all add: checksums_def mute_def quiet_def)
qed

section \<open>Pointers told to QEMU\<close>

text \<open>A write of a number to a file, as the device sees it.\<close>

definition wp_shape :: "dir_entry list \<Rightarrow> QEMU_LOADER_WRITE_POINTER \<Rightarrow> nat \<times> nat \<times> nat" where
  "wp_shape dir w = (fst (snd (lookup_entry dir (c_string (wp_PointerFile w)))), wp_PointerOffset w, wp_PointerSize w)"

definition tells ::
  "dir_entry list \<Rightarrow> ('g, 'a, 'p, 'c) loader \<Rightarrow> QEMU_LOADER_WRITE_POINTER \<Rightarrow> nat \<Rightarrow> ('g, 'a, 'p, 'c) loader \<Rightarrow> bool" where
  "tells dir s w b s' \<longleftrightarrow> b < length (blobs s) \<and> c_string (blob_File (blobs s ! b)) = c_string (wp_PointeeFile w) \<and>
     PointeeOffset w < blob_Size (blobs s ! b) \<and> blob_Base (blobs s ! b) + PointeeOffset w < 256 ^ wp_PointerSize w \<and>
     fst (lookup_entry dir (c_string (wp_PointerFile w))) = EFI_SUCCESS \<and>
     wp_PointerOffset w + wp_PointerSize w \<le> snd (snd (lookup_entry dir (c_string (wp_PointerFile w)))) \<and>
     (\<exists>f ctx. s' = s\<lparr>fw := f, S3Context := ctx, blobs := (blobs s)[b := (blobs s ! b)\<lparr>HostsOnlyTableData := False\<rparr>]\<rparr> \<and>
       mQemuFwCfgSupported f \<and>
       (case wp_shape dir w of (item, off, n) \<Rightarrow>
         fw_written f = fw_written (fw s) @ [(item, off, le_bytes n (blob_Base (blobs s ! b) + PointeeOffset w))] \<and>
         (case S3Context s of None \<Rightarrow> ctx = None
          | Some c \<Rightarrow> ctx = Some (c\<lparr>WritePointers := WritePointers c @ [\<lparr>cw_PointerItem = item, cw_PointerSize = n, cw_PointerOffset = off,
              cw_PointerValue = blob_Base (blobs s ! b) + PointeeOffset w\<rparr>]\<rparr>))))"

lemma write_pointer_step:
  assumes env: "acpi_env_ok E nv ov gv av" and pub: "publishes dev dir" and inv: "loader_inv E nv gv R F m0 s"
  shows "\<exists>st s'. ProcessCmdWritePointer E dev w s = Some (st, s') \<and>
    (if st = EFI_SUCCESS then \<exists>b. tells dir s w b s'
     else \<exists>f. s' = s\<lparr>fw := f\<rparr> \<and> mQemuFwCfgSupported f \<and> fw_written f = fw_written (fw s))"
proof (cases "malformed (wp_PointerFile w) \<or> malformed (wp_PointeeFile w)")
  case True
  then show ?thesis using loader_invD(1) [OF inv]
    by (intro exI [of _ EFI_PROTOCOL_ERROR] exI [of _ s]) (auto simp: ProcessCmdWritePointer_def intro!: exI [of _ "fw s"])
next
  case wf: False
  note i = loader_invD [OF inv]
  let ?key = "c_string (wp_PointerFile w)"
  obtain f1 where f1: "QemuFwCfgFindFile dev (fw s) ?key =
      Some (fst (lookup_entry dir ?key), fst (snd (lookup_entry dir ?key)), snd (snd (lookup_entry dir ?key)), f1)"
    "mQemuFwCfgSupported f1" "fw_written f1 = fw_written (fw s)" by (rule fw_find [OF i(1) pub])
  obtain st item sz where l: "lookup_entry dir ?key = (st, item, sz)" by (metis prod_cases3)
  have fail: ?thesis if "ProcessCmdWritePointer E dev w s = Some (e, s\<lparr>fw := f1\<rparr>)" "e \<noteq> EFI_SUCCESS" for e
    using that f1 by (intro exI [of _ e] exI [of _ "s\<lparr>fw := f1\<rparr>"]) auto
  show ?thesis
  proof (cases "OrderedCollectionFind (name_ops E) (Tracker s) (c_string (wp_PointeeFile w))")
    case None
    then show ?thesis using wf f1(1) l by (intro fail [of EFI_PROTOCOL_ERROR]) (simp_all add: ProcessCmdWritePointer_def Let_def)
  next
    case (Some b)
    note b = Some [unfolded tracker_find [OF env inv]]
    let ?B = "blobs s ! b" and ?v = "PointeeOffset w + blob_Base (blobs s ! b)"
    show ?thesis
    proof (cases "st \<noteq> EFI_SUCCESS \<or> pointer_misplaced sz (wp_PointerSize w) (wp_PointerOffset w) \<or> blob_Size ?B \<le> PointeeOffset w")
      case True
      then show ?thesis using wf f1(1) l Some by (intro fail [of EFI_PROTOCOL_ERROR]) (auto simp: ProcessCmdWritePointer_def Let_def)
    next
      case ok: False
      have lim: "blob_Base ?B + blob_Size ?B \<le> MAX_ADDRESS E" using blob_in_room [OF i(4)] b by blast
      then have small: "?v < 2 ^ 64" using ok acpi_envD(3) [OF env] by linarith
      show ?thesis
      proof (cases "unrepresentable (wp_PointerSize w) ?v")
        case True
        then show ?thesis using wf f1(1) l Some ok lim small
          by (intro fail [of EFI_PROTOCOL_ERROR]) (simp_all add: ProcessCmdWritePointer_def Let_def)
      next
        case rep: False
        have item: "item < 2 ^ 16" using lookup_small(1) [OF pub, of ?key item sz] l ok by simp
        then have im: "item mod 2 ^ 16 = item" by simp
        have "wp_PointerSize w \<in> {1, 2, 4, 8}" using ok by (simp add: pointer_misplaced_def)
        from representable [OF rep this small] have fits: "blob_Base ?B + PointeeOffset w < 256 ^ wp_PointerSize w" by (simp add: add.commute)
        let ?f = "fw_write_value dev item (wp_PointerOffset w) (wp_PointerSize w) ?v f1"
        note fwr = fw_write [OF f1(2), of dev item "wp_PointerOffset w" "wp_PointerSize w" ?v, unfolded im]
        define saved where "saved = (case S3Context s of
            None \<Rightarrow> (EFI_SUCCESS, None)
          | Some ctx \<Rightarrow> map_prod (\<lambda>st. st) Some (SaveCondensedWritePointerToS3Context ctx item (wp_PointerSize w) (wp_PointerOffset w) ?v))"
        have run: "ProcessCmdWritePointer E dev w s = (if fst saved \<noteq> EFI_SUCCESS then Some (fst saved, s\<lparr>fw := f1\<rparr>)
            else Some (EFI_SUCCESS, s\<lparr>S3Context := snd saved, fw := ?f, blobs := (blobs s)[b := ?B\<lparr>HostsOnlyTableData := False\<rparr>]\<rparr>))"
          using wf f1(1) l Some ok lim rep small item
          by (cases "S3Context s") (simp_all add: ProcessCmdWritePointer_def Let_def saved_def map_prod_def split: prod.split)
        show ?thesis
        proof (cases "fst saved = EFI_SUCCESS")
          case False
          then show ?thesis using run by (intro fail [of "fst saved"]) simp_all
        next
          case True
          let ?s = "s\<lparr>fw := ?f, S3Context := snd saved, blobs := (blobs s)[b := ?B\<lparr>HostsOnlyTableData := False\<rparr>]\<rparr>"
          have ctx: "case S3Context s of None \<Rightarrow> snd saved = None
              | Some c \<Rightarrow> snd saved = Some (c\<lparr>WritePointers := WritePointers c @ [\<lparr>cw_PointerItem = item, cw_PointerSize = wp_PointerSize w,
                  cw_PointerOffset = wp_PointerOffset w, cw_PointerValue = blob_Base ?B + PointeeOffset w\<rparr>]\<rparr>)"
            using True by (auto simp: saved_def SaveCondensedWritePointerToS3Context_def add.commute split: option.splits if_splits)
          have "tells dir s w b ?s" unfolding tells_def
          proof (intro conjI exI)
            show "case wp_shape dir w of (item, off, n) \<Rightarrow>
              fw_written ?f = fw_written (fw s) @ [(item, off, le_bytes n (blob_Base (blobs s ! b) + PointeeOffset w))] \<and>
              (case S3Context s of None \<Rightarrow> snd saved = None
                | Some c \<Rightarrow> snd saved = Some (c\<lparr>WritePointers := WritePointers c @ [\<lparr>cw_PointerItem = item, cw_PointerSize = n, cw_PointerOffset = off,
                    cw_PointerValue = blob_Base (blobs s ! b) + PointeeOffset w\<rparr>]\<rparr>))"
              using ctx fwr(2) f1(3) l by (simp add: wp_shape_def add.commute)
          qed (use b ok fits l fwr(1) in \<open>auto simp: pointer_misplaced_def\<close>)
          moreover have "ProcessCmdWritePointer E dev w s = Some (EFI_SUCCESS, ?s)" using run True by simp
          ultimately show ?thesis by auto
        qed
      qed
    qed
  qed
qed

lemma tells_post:
  assumes inv: "loader_inv E nv gv R F m0 s" and t: "tells dir s w b s'"
  shows "loader_inv E nv gv R F m0 s'" "quiet s s'" "extends s s'" "mem s' = mem s"
proof -
  have b: "b < length (blobs s)" using t by (simp add: tells_def)
  obtain f ctx where s': "s' = s\<lparr>fw := f, S3Context := ctx, blobs := (blobs s)[b := (blobs s ! b)\<lparr>HostsOnlyTableData := False\<rparr>]\<rparr>"
    "mQemuFwCfgSupported f" "ctx = None \<longleftrightarrow> S3Context s = None"
    using t unfolding tells_def by (auto split: option.splits)
  have p: "map blob_place (blobs s') = map blob_place (blobs s)" using mark_place [OF b] s' by simp
  show "loader_inv E nv gv R F m0 s'" by (rule inv_same_places [OF inv p]) (use s' in simp_all)
  show "quiet s s'" "mem s' = mem s" using s' by (simp_all add: quiet_def)
  show "extends s s'" by (rule extends_mark) (simp add: s')
qed

text \<open>Undoing writes zeros to the same places, last one first.\<close>

fun wp_shapes :: "dir_entry list \<Rightarrow> QEMU_LOADER_ENTRY list \<Rightarrow> (nat \<times> nat \<times> nat) list" where
  "wp_shapes dir [] = []"
| "wp_shapes dir (e # es) = (case e of QemuLoaderCmdWritePointer w \<Rightarrow> [wp_shape dir w] | _ \<Rightarrow> []) @ wp_shapes dir es"

definition wps_found :: "dir_entry list \<Rightarrow> QEMU_LOADER_ENTRY list \<Rightarrow> bool" where
  "wps_found dir es \<longleftrightarrow> (\<forall>w. QemuLoaderCmdWritePointer w \<in> set es \<longrightarrow> fst (lookup_entry dir (c_string (wp_PointerFile w))) = EFI_SUCCESS)"

definition zero_write :: "nat \<times> nat \<times> nat \<Rightarrow> nat \<times> nat \<times> byte list" where
  "zero_write t = (case t of (item, off, n) \<Rightarrow> (item, off, replicate n 0))"

lemma wp_shapes_append [simp]: "wp_shapes dir (xs @ ys) = wp_shapes dir xs @ wp_shapes dir ys"
  by (induction xs) auto

lemma le_bytes_0 [simp]: "le_bytes n 0 = replicate n 0"
  by (induction n) simp_all

lemma undo_all:
  assumes "publishes dev dir" and "mQemuFwCfgSupported (fw s)" and "wps_found dir es"
  shows "\<exists>f. undo_write_pointers dev es s = Some (s\<lparr>fw := f\<rparr>) \<and> mQemuFwCfgSupported f \<and>
    fw_written f = fw_written (fw s) @ map zero_write (rev (wp_shapes dir es))"
  using assms(3)
proof (induction es)
  case Nil
  then show ?case using assms(2) by (intro exI [of _ "fw s"]) simp
next
  case (Cons e es)
  from Cons obtain f where f: "undo_write_pointers dev es s = Some (s\<lparr>fw := f\<rparr>)" "mQemuFwCfgSupported f"
    "fw_written f = fw_written (fw s) @ map zero_write (rev (wp_shapes dir es))" by (auto simp: wps_found_def)
  show ?case
  proof (cases "\<exists>w. e = QemuLoaderCmdWritePointer w")
    case False
    then show ?thesis using f by (cases e) auto
  next
    case True
    then obtain w where w: "e = QemuLoaderCmdWritePointer w" by blast
    let ?key = "c_string (wp_PointerFile w)"
    obtain item sz where l: "lookup_entry dir ?key = (EFI_SUCCESS, item, sz)"
      using Cons.prems w by (auto simp: wps_found_def) (metis prod.collapse)
    obtain f1 where f1: "QemuFwCfgFindFile dev f ?key =
        Some (fst (lookup_entry dir ?key), fst (snd (lookup_entry dir ?key)), snd (snd (lookup_entry dir ?key)), f1)"
      "mQemuFwCfgSupported f1" "fw_written f1 = fw_written f" by (rule fw_find [OF f(2) assms(1)])
    have im: "item mod 2 ^ 16 = item" using lookup_small(1) [OF assms(1) l] by simp
    note fwr = fw_write [OF f1(2), of dev item "wp_PointerOffset w" "wp_PointerSize w" 0, unfolded im]
    show ?thesis using f f1 w l fwr
      by (intro exI [of _ "fw_write_value dev item (wp_PointerOffset w) (wp_PointerSize w) 0 f1"])
        (simp add: UndoCmdWritePointer_def wp_shape_def zero_write_def)
  qed
qed

end
