(* ===== verification/AcpiLoaderRun.thy ===== *)
theory AcpiLoaderRun
  imports AcpiLoaderCmds
begin

text \<open>
  The two passes over the script, and what is left when the driver returns.
\<close>

section \<open>The first pass\<close>

text \<open>
  A command spoils a pointer relocated by an earlier one if it writes into its field. Scripts in
  which none does are in order.
\<close>

fun spoils :: "QEMU_LOADER_ENTRY \<Rightarrow> QEMU_LOADER_ENTRY \<Rightarrow> bool" where
  "spoils (QemuLoaderCmdAddPointer p) (QemuLoaderCmdAddPointer q) \<longleftrightarrow> c_string (PointerFile p) = c_string (PointerFile q) \<and>
     \<not> apart (PointerOffset p, PointerSize p) (PointerOffset q, PointerSize q)"
| "spoils (QemuLoaderCmdAddPointer p) (QemuLoaderCmdAddChecksum c) \<longleftrightarrow> c_string (PointerFile p) = c_string (ck_File c) \<and>
     \<not> apart (PointerOffset p, PointerSize p) (ResultOffset c, 1)"
| "spoils _ _ \<longleftrightarrow> False"

definition script_ok :: "QEMU_LOADER_ENTRY list \<Rightarrow> bool" where
  "script_ok es \<longleftrightarrow> sorted_wrt (\<lambda>a b. \<not> spoils a b) es"

definition cw_write :: "CONDENSED_WRITE_POINTER \<Rightarrow> nat \<times> nat \<times> byte list" where
  "cw_write c = (cw_PointerItem c, cw_PointerOffset c, le_bytes (cw_PointerSize c) (cw_PointerValue c))"

definition write_shape :: "nat \<times> nat \<times> byte list \<Rightarrow> nat \<times> nat \<times> nat" where
  "write_shape t = (case t of (item, off, bs) \<Rightarrow> (item, off, length bs))"

text \<open>An address in a blob that will not be released on success.\<close>

definition live :: "('g, 'a, 'p, 'c) loader \<Rightarrow> nat \<Rightarrow> bool" where
  "live s v \<longleftrightarrow> (\<exists>b < length (blobs s). v \<in> {blob_Base (blobs s ! b)..<blob_Base (blobs s ! b) + blob_Size (blobs s ! b)} \<and>
     \<not> HostsOnlyTableData (blobs s ! b))"

lemma live_extends: "extends s s' \<Longrightarrow> live s v \<Longrightarrow> live s' v"
proof -
  assume e: "extends s s'" and "live s v"
  then obtain b where b: "b < length (blobs s)" "v \<in> {blob_Base (blobs s ! b)..<blob_Base (blobs s ! b) + blob_Size (blobs s ! b)}"
    "\<not> HostsOnlyTableData (blobs s ! b)" by (auto simp: live_def)
  then have "\<not> HostsOnlyTableData (blobs s' ! b)" using e unfolding extends_def by blast
  then show "live s' v" unfolding live_def using extendsD [OF e b(1)] b(2) by (intro exI [of _ b]) simp
qed

text \<open>
  The state during the first pass: what was told to QEMU is what the commands before the index say,
  and the context for the boot script holds the same.
\<close>

definition script_inv ::
  "('g, 'a, 'p, 'c, 'o) acpi_env \<Rightarrow> (byte list, 'c) oc_view \<Rightarrow> ('g \<Rightarrow> nat set) \<Rightarrow> dir_entry list \<Rightarrow> 'c \<Rightarrow> nat set \<Rightarrow>
     ('g, 'a, 'p, 'c) loader \<Rightarrow> QEMU_LOADER_ENTRY list \<Rightarrow> nat \<Rightarrow> ('g, 'a, 'p, 'c) loader \<Rightarrow> bool" where
  "script_inv E nv gv dir R F w0 script wend s \<longleftrightarrow> loader_inv E nv gv R F (mem w0) s \<and> quiet w0 s \<and>
     wps_found dir (take wend script) \<and>
     (\<exists>ws. fw_written (fw s) = fw_written (fw w0) @ ws \<and> map write_shape ws = wp_shapes dir (take wend script) \<and>
        (\<forall>t \<in> set ws. live s (le_value (snd (snd t)))) \<and>
        (\<forall>ctx. S3Context s = Some ctx \<longrightarrow> map cw_write (WritePointers ctx) = ws))"

lemma script_inv_mute:
  assumes "script_inv E nv gv dir R F w0 script wend s" and "loader_inv E nv gv R F (mem w0) s'" and "mute s s'" and "extends s s'"
  shows "script_inv E nv gv dir R F w0 script wend s'"
  using assms live_extends [OF assms(4)] unfolding script_inv_def mute_def quiet_def by metis

lemma field_in_room:
  assumes "blobs_placed F lim bs" and "b < length bs" and "\<not> pointer_misplaced (blob_Size (bs ! b)) n off"
  shows "{blob_Base (bs ! b) + off..<blob_Base (bs ! b) + off + n} \<subseteq> rooms bs"
  using blob_in_room [OF assms(1,2)] room_in_rooms [OF assms(2)] placed_field [OF assms(3)] by fastforce

lemma kept_after_alloc:
  assumes env: "acpi_env_ok E nv ov gv av" and inv: "loader_inv E nv gv R F m0 s" and a: "after_alloc E nv gv R F m0 s s'"
    and rel: "relocated E s p"
  shows "relocated E s' p"
proof (rule relocated_kept [OF env inv _ _ rel])
  show "loader_inv E nv gv R F m0 s'" "extends s s'" using a by (simp_all add: after_alloc_def)
  fix b assume b: "b < length (blobs s)" "\<not> pointer_misplaced (blob_Size (blobs s ! b)) (PointerSize p) (PointerOffset p)"
  have "{blob_Base (blobs s ! b) + PointerOffset p..<blob_Base (blobs s ! b) + PointerOffset p + PointerSize p} \<subseteq> rooms (blobs s)"
    by (rule field_in_room [OF loader_invD(4) [OF inv] b])
  then show "mem_bytes (mem s') (blob_Base (blobs s ! b) + PointerOffset p) (PointerSize p) =
      mem_bytes (mem s) (blob_Base (blobs s ! b) + PointerOffset p) (PointerSize p)"
    using a by (intro mem_bytes_cong) (auto simp: after_alloc_def)
qed

text \<open>A write into a blob spares the field of a pointer that it does not spoil.\<close>

lemma kept_after_write:
  assumes env: "acpi_env_ok E nv ov gv av" and inv: "loader_inv E nv gv R F m0 s" and inv': "loader_inv E nv gv R F m0 s'"
    and s': "s' = s\<lparr>mem := put_bytes (mem s) (blob_Base (blobs s ! b') + off') bs\<rparr>"
    and b': "b' < length (blobs s)" "off' + length bs \<le> blob_Size (blobs s ! b')" "0 < length bs"
    and spare: "c_string (PointerFile p) = c_string (blob_File (blobs s ! b')) \<Longrightarrow> apart (PointerOffset p, PointerSize p) (off', length bs)"
    and rel: "relocated E s p"
  shows "relocated E s' p"
proof (rule relocated_kept [OF env inv inv' _ rel])
  show "extends s s'" using s' by simp
  fix b assume b: "b < length (blobs s)" "c_string (blob_File (blobs s ! b)) = c_string (PointerFile p)"
    "\<not> pointer_misplaced (blob_Size (blobs s ! b)) (PointerSize p) (PointerOffset p)"
  have "apart (blob_Base (blobs s ! b) + PointerOffset p, PointerSize p) (blob_Base (blobs s ! b') + off', length bs)"
    using placed_field [OF b(3)] b' b spare
    by (intro field_apart [OF loader_invD(4) [OF inv] b(1) b'(1)]) auto
  then show "mem_bytes (mem s') (blob_Base (blobs s ! b) + PointerOffset p) (PointerSize p) =
      mem_bytes (mem s) (blob_Base (blobs s ! b) + PointerOffset p) (PointerSize p)"
    using s' by (simp add: put_bytes_other)
qed

lemma kept_after_relocates:
  assumes env: "acpi_env_ok E nv ov gv av" and inv: "loader_inv E nv gv R F m0 s" and r: "relocates s q b b2 s'"
    and ns: "\<not> spoils (QemuLoaderCmdAddPointer p) (QemuLoaderCmdAddPointer q)" and rel: "relocated E s p"
  shows "relocated E s' p"
proof -
  let ?v = "blob_Base (blobs s ! b2) + le_value (mem_bytes (mem s) (blob_Base (blobs s ! b) + PointerOffset q) (PointerSize q))"
  have d: "b < length (blobs s)" "c_string (blob_File (blobs s ! b)) = c_string (PointerFile q)"
    "\<not> pointer_misplaced (blob_Size (blobs s ! b)) (PointerSize q) (PointerOffset q)"
    "s' = s\<lparr>mem := put_bytes (mem s) (blob_Base (blobs s ! b) + PointerOffset q) (le_bytes (PointerSize q) ?v)\<rparr>"
    using r by (simp_all add: relocates_def Let_def)
  show ?thesis
    using placed_field [OF d(3)] d(1,2) ns
    by (intro kept_after_write [OF env inv relocates_post(1) [OF env inv r] d(4) _ _ _ _ rel]) auto
qed

lemma kept_after_checksums:
  assumes env: "acpi_env_ok E nv ov gv av" and inv: "loader_inv E nv gv R F m0 s" and c: "checksums s c b s'"
    and ns: "\<not> spoils (QemuLoaderCmdAddPointer p) (QemuLoaderCmdAddChecksum c)" and rel: "relocated E s p"
  shows "relocated E s' p"
proof -
  let ?bs = "[- sum_list (mem_bytes (mem s) (blob_Base (blobs s ! b) + ck_Start c) (ck_Length c))]"
  have d: "b < length (blobs s)" "c_string (blob_File (blobs s ! b)) = c_string (ck_File c)" "ResultOffset c < blob_Size (blobs s ! b)"
    "s' = s\<lparr>mem := put_bytes (mem s) (blob_Base (blobs s ! b) + ResultOffset c) ?bs\<rparr>"
    using c by (simp_all add: checksums_def)
  show ?thesis
    using d(1-3) ns
    by (intro kept_after_write [OF env inv checksums_post(1) [OF inv c] d(4) _ _ _ _ rel]) auto
qed

lemma kept_after_tells:
  assumes env: "acpi_env_ok E nv ov gv av" and inv: "loader_inv E nv gv R F m0 s" and t: "tells dir s w b s'" and rel: "relocated E s p"
  shows "relocated E s' p"
  by (rule relocated_kept [OF env inv tells_post(1) [OF inv t] tells_post(3) [OF inv t] rel]) (simp add: tells_post(4) [OF inv t])

lemma no_wp_shapes: "\<forall>w. QemuLoaderCmdWritePointer w \<notin> set es \<Longrightarrow> wp_shapes dir es = []"
  by (induction es) (auto split: QEMU_LOADER_ENTRY.split)

lemma tells_script_inv:
  assumes si: "script_inv E nv gv dir R F w0 script wend s" and t: "tells dir s w b s'"
    and i: "wend \<le> i" "i < length script" "script ! i = QemuLoaderCmdWritePointer w"
    and no: "\<forall>j. wend \<le> j \<and> j < i \<longrightarrow> (\<forall>w. script ! j \<noteq> QemuLoaderCmdWritePointer w)"
  shows "script_inv E nv gv dir R F w0 script (i + 1) s'"
proof -
  have inv: "loader_inv E nv gv R F (mem w0) s" using si by (simp add: script_inv_def)
  let ?mid = "take (i - wend) (drop wend script)"
  have split: "take (i + 1) script = take wend script @ ?mid @ [QemuLoaderCmdWritePointer w]"
  proof -
    have "take (i + 1) script = take i script @ [script ! i]" using i(2) by (simp add: take_Suc_conv_app_nth)
    also have "take i script = take wend script @ ?mid" using take_add [of wend "i - wend" script] i(1) by simp
    finally show ?thesis using i(3) by simp
  qed
  have none: "\<forall>w. QemuLoaderCmdWritePointer w \<notin> set ?mid"
  proof (intro allI notI)
    fix w assume "QemuLoaderCmdWritePointer w \<in> set ?mid"
    then obtain k where "k < length ?mid" "?mid ! k = QemuLoaderCmdWritePointer w" by (auto simp: in_set_conv_nth)
    then show False using no [rule_format, of "wend + k"] i by auto
  qed
  obtain f ctx where s': "s' = s\<lparr>fw := f, S3Context := ctx, blobs := (blobs s)[b := (blobs s ! b)\<lparr>HostsOnlyTableData := False\<rparr>]\<rparr>"
    "case wp_shape dir w of (item, off, n) \<Rightarrow>
       fw_written f = fw_written (fw s) @ [(item, off, le_bytes n (blob_Base (blobs s ! b) + PointeeOffset w))] \<and>
       (case S3Context s of None \<Rightarrow> ctx = None
        | Some c \<Rightarrow> ctx = Some (c\<lparr>WritePointers := WritePointers c @ [\<lparr>cw_PointerItem = item, cw_PointerSize = n, cw_PointerOffset = off,
            cw_PointerValue = blob_Base (blobs s ! b) + PointeeOffset w\<rparr>]\<rparr>))"
    "fst (lookup_entry dir (c_string (wp_PointerFile w))) = EFI_SUCCESS" using t by (auto simp: tells_def)
  obtain item off n where sh: "wp_shape dir w = (item, off, n)" by (metis prod_cases3)
  obtain ws where ws: "fw_written (fw s) = fw_written (fw w0) @ ws" "map write_shape ws = wp_shapes dir (take wend script)"
    "\<forall>ctx. S3Context s = Some ctx \<longrightarrow> map cw_write (WritePointers ctx) = ws" "\<forall>t \<in> set ws. live s (le_value (snd (snd t)))"
    using si unfolding script_inv_def by blast
  let ?ws = "ws @ [(item, off, le_bytes n (blob_Base (blobs s ! b) + PointeeOffset w))]"
  have "fw_written (fw s') = fw_written (fw w0) @ ?ws" using s' sh ws(1) by simp
  moreover have "map write_shape ?ws = wp_shapes dir (take (i + 1) script)"
    unfolding split using ws(2) no_wp_shapes [OF none] sh by (simp add: write_shape_def)
  moreover have "\<forall>ctx. S3Context s' = Some ctx \<longrightarrow> map cw_write (WritePointers ctx) = ?ws"
    using s' sh ws(3) by (auto simp: cw_write_def split: option.splits)
  moreover have "wps_found dir (take (i + 1) script)"
    using si none s'(3) unfolding split by (auto simp: script_inv_def wps_found_def)
  moreover have "quiet w0 s'" using si tells_post(2) [OF inv t] by (simp add: script_inv_def quiet_def)
  moreover have "\<forall>t \<in> set ?ws. live s' (le_value (snd (snd t)))"
  proof -
    have fits: "b < length (blobs s)" "PointeeOffset w < blob_Size (blobs s ! b)" "blob_Base (blobs s ! b) + PointeeOffset w < 256 ^ n"
      using t sh by (simp_all add: tells_def wp_shape_def)
    then have "live s' (le_value (le_bytes n (blob_Base (blobs s ! b) + PointeeOffset w)))"
      using s'(1) by (auto simp: live_def le_value_le_bytes intro!: exI [of _ b])
    then show ?thesis using ws(4) live_extends [OF tells_post(3) [OF inv t]] by auto
  qed
  ultimately show ?thesis using tells_post(1) [OF inv t] unfolding script_inv_def by blast
qed

definition pass_inv ::
  "('g, 'a, 'p, 'c, 'o) acpi_env \<Rightarrow> (byte list, 'c) oc_view \<Rightarrow> ('g \<Rightarrow> nat set) \<Rightarrow> dir_entry list \<Rightarrow> 'c \<Rightarrow> nat set \<Rightarrow>
     ('g, 'a, 'p, 'c) loader \<Rightarrow> QEMU_LOADER_ENTRY list \<Rightarrow> nat \<Rightarrow> nat \<Rightarrow> ('g, 'a, 'p, 'c) loader \<Rightarrow> bool" where
  "pass_inv E nv gv dir R F w0 script i wend s \<longleftrightarrow> script_inv E nv gv dir R F w0 script wend s \<and> wend \<le> i \<and>
     (\<forall>j. wend \<le> j \<and> j < i \<longrightarrow> (\<forall>w. script ! j \<noteq> QemuLoaderCmdWritePointer w)) \<and>
     (script_ok script \<longrightarrow> (\<forall>p. QemuLoaderCmdAddPointer p \<in> set (take i script) \<longrightarrow> relocated E s p))"

text \<open>A command other than the one for QEMU leads from one index to the next.\<close>

lemma pass_next:
  assumes pi: "pass_inv E nv gv dir R F w0 script i wend s" and i: "i < length script"
    and inv: "loader_inv E nv gv R F (mem w0) s'" and m: "mute s s'" and ext: "extends s s'"
    and e: "\<forall>w. script ! i \<noteq> QemuLoaderCmdWritePointer w"
    and kept: "\<And>p. relocated E s p \<Longrightarrow> \<not> spoils (QemuLoaderCmdAddPointer p) (script ! i) \<Longrightarrow> relocated E s' p"
    and new: "\<And>p. script ! i = QemuLoaderCmdAddPointer p \<Longrightarrow> relocated E s' p"
  shows "pass_inv E nv gv dir R F w0 script (i + 1) wend s'"
proof -
  have "script_inv E nv gv dir R F w0 script wend s'"
    using script_inv_mute [OF _ inv m ext] pi by (simp add: pass_inv_def)
  moreover have "\<forall>j. wend \<le> j \<and> j < i + 1 \<longrightarrow> (\<forall>w. script ! j \<noteq> QemuLoaderCmdWritePointer w)"
    using pi e by (auto simp: pass_inv_def less_Suc_eq)
  moreover have "relocated E s' p" if ok: "script_ok script" and p: "QemuLoaderCmdAddPointer p \<in> set (take (i + 1) script)" for p
  proof (cases "QemuLoaderCmdAddPointer p \<in> set (take i script)")
    case True
    then obtain j where j: "j < i" "script ! j = QemuLoaderCmdAddPointer p" using i by (auto simp: in_set_conv_nth)
    then have "\<not> spoils (QemuLoaderCmdAddPointer p) (script ! i)"
      using ok i sorted_wrt_nth_less [of "\<lambda>a b. \<not> spoils a b" script j i] by (simp add: script_ok_def)
    moreover have "relocated E s p" using pi ok True by (simp add: pass_inv_def)
    ultimately show ?thesis by (intro kept)
  next
    case False
    then show ?thesis using p i new by (auto simp: take_Suc_conv_app_nth)
  qed
  ultimately show ?thesis using pi by (simp add: pass_inv_def)
qed

lemma pass_step:
  assumes env: "acpi_env_ok E nv ov gv av" and pub: "publishes dev dir"
    and pi: "pass_inv E nv gv dir R F w0 script i wend s" and i: "i < length script"
  shows "\<exists>st wend' s'. run_entry E dev R (script ! i) i wend s = Some (st, wend', s') \<and>
    (if st = EFI_SUCCESS then pass_inv E nv gv dir R F w0 script (i + 1) wend' s'
     else script_inv E nv gv dir R F w0 script wend' s')"
proof -
  have si: "script_inv E nv gv dir R F w0 script wend s" and inv: "loader_inv E nv gv R F (mem w0) s"
    using pi by (simp_all add: pass_inv_def script_inv_def)
  note stay = script_inv_mute [OF si]
  show ?thesis
  proof (cases "script ! i")
    case (QemuLoaderCmdAllocate al)
    obtain st s' where r: "ProcessCmdAllocate E dev R al s = Some (st, s')" "after_alloc E nv gv R F (mem w0) s s'"
      using allocate_step [OF env pub inv] by blast
    then have "loader_inv E nv gv R F (mem w0) s'" "mute s s'" "extends s s'" by (simp_all add: after_alloc_def)
    note s' = this
    have "pass_inv E nv gv dir R F w0 script (i + 1) wend s'"
      by (rule pass_next [OF pi i s']) (use QemuLoaderCmdAllocate kept_after_alloc [OF env inv r(2)] in auto)
    then show ?thesis using r(1) QemuLoaderCmdAllocate stay [OF s'] by (simp add: run_entry_def)
  next
    case (QemuLoaderCmdAddPointer p)
    obtain st s' where r: "ProcessCmdAddPointer E p s = Some (st, s')"
      "if st = EFI_SUCCESS then \<exists>b b2. relocates s p b b2 s' else st = EFI_PROTOCOL_ERROR \<and> s' = s"
      using add_pointer_step [OF env inv] by blast
    show ?thesis
    proof (cases "st = EFI_SUCCESS")
      case True
      with r(2) obtain b b2 where rl: "relocates s p b b2 s'" by auto
      note post = relocates_post [OF env inv rl]
      have "pass_inv E nv gv dir R F w0 script (i + 1) wend s'"
        by (rule pass_next [OF pi i post(1-3)]) (use QemuLoaderCmdAddPointer kept_after_relocates [OF env inv rl] post(4) in auto)
      then show ?thesis using r(1) QemuLoaderCmdAddPointer True by (simp add: run_entry_def)
    qed (use r QemuLoaderCmdAddPointer si in \<open>simp add: run_entry_def\<close>)
  next
    case (QemuLoaderCmdAddChecksum c)
    obtain st s' where r: "ProcessCmdAddChecksum E c s = Some (st, s')"
      "if st = EFI_SUCCESS then \<exists>b. checksums s c b s' else st = EFI_PROTOCOL_ERROR \<and> s' = s"
      using add_checksum_step [OF env inv] by blast
    show ?thesis
    proof (cases "st = EFI_SUCCESS")
      case True
      with r(2) obtain b where c: "checksums s c b s'" by auto
      note post = checksums_post [OF inv c]
      have "pass_inv E nv gv dir R F w0 script (i + 1) wend s'"
        by (rule pass_next [OF pi i post(1-3)]) (use QemuLoaderCmdAddChecksum kept_after_checksums [OF env inv c] in auto)
      then show ?thesis using r(1) QemuLoaderCmdAddChecksum True by (simp add: run_entry_def)
    qed (use r QemuLoaderCmdAddChecksum si in \<open>simp add: run_entry_def\<close>)
  next
    case (QemuLoaderCmdWritePointer w)
    obtain st s' where r: "ProcessCmdWritePointer E dev w s = Some (st, s')"
      "if st = EFI_SUCCESS then \<exists>b. tells dir s w b s'
       else \<exists>f. s' = s\<lparr>fw := f\<rparr> \<and> mQemuFwCfgSupported f \<and> fw_written f = fw_written (fw s)"
      using write_pointer_step [OF env pub inv] by blast
    show ?thesis
    proof (cases "st = EFI_SUCCESS")
      case True
      with r(2) obtain b where t: "tells dir s w b s'" by auto
      have "script_inv E nv gv dir R F w0 script (i + 1) s'"
        using pi by (intro tells_script_inv [OF si t _ i QemuLoaderCmdWritePointer]) (simp_all add: pass_inv_def)
      moreover have "relocated E s' p" if "script_ok script" "QemuLoaderCmdAddPointer p \<in> set (take (i + 1) script)" for p
        using that pi i QemuLoaderCmdWritePointer kept_after_tells [OF env inv t]
        by (auto simp: pass_inv_def take_Suc_conv_app_nth)
      ultimately have "pass_inv E nv gv dir R F w0 script (i + 1) (i + 1) s'" by (auto simp: pass_inv_def)
      then show ?thesis using r(1) QemuLoaderCmdWritePointer True by (simp add: run_entry_def)
    next
      case False
      with r(2) obtain f where f: "s' = s\<lparr>fw := f\<rparr>" "mQemuFwCfgSupported f" "fw_written f = fw_written (fw s)" by auto
      then have "loader_inv E nv gv R F (mem w0) s'" "mute s s'" "extends s s'" using inv by (simp_all add: loader_inv_def mute_def quiet_def)
      then show ?thesis using r(1) QemuLoaderCmdWritePointer False stay by (simp add: run_entry_def)
    qed
  next
    case (UnknownCommand ty)
    have "pass_inv E nv gv dir R F w0 script (i + 1) wend s"
      by (rule pass_next [OF pi i inv mute_refl extends_refl]) (use UnknownCommand in auto)
    then show ?thesis using UnknownCommand by (simp add: run_entry_def)
  qed
qed

lemma first_pass_returns:
  assumes env: "acpi_env_ok E nv ov gv av" and pub: "publishes dev dir"
    and "pass_inv E nv gv dir R F w0 script i wend s" and "i \<le> length script"
  shows "\<exists>st wend' s'. first_pass E dev R (drop i script) i wend s = Some (st, wend', s') \<and>
    script_inv E nv gv dir R F w0 script wend' s' \<and>
    (st = EFI_SUCCESS \<and> script_ok script \<longrightarrow> (\<forall>p. QemuLoaderCmdAddPointer p \<in> set script \<longrightarrow> relocated E s' p))"
  using assms(3-)
proof (induction "length script - i" arbitrary: i wend s)
  case 0
  then have "drop i script = []" "take i script = script" by simp_all
  with 0 show ?case by (simp add: pass_inv_def)
next
  case (Suc n)
  then have i: "i < length script" by simp
  obtain st wend' s' where r: "run_entry E dev R (script ! i) i wend s = Some (st, wend', s')"
    "if st = EFI_SUCCESS then pass_inv E nv gv dir R F w0 script (i + 1) wend' s' else script_inv E nv gv dir R F w0 script wend' s'"
    using pass_step [OF env pub Suc.prems(1) i] by blast
  have d: "drop i script = script ! i # drop (i + 1) script" using Cons_nth_drop_Suc [OF i] by simp
  show ?case
  proof (cases "st = EFI_SUCCESS")
    case True
    then have "pass_inv E nv gv dir R F w0 script (i + 1) wend' s'" using r(2) by simp
    from Suc.hyps(1) [OF _ this] Suc.hyps(2) i True r(1) show ?thesis by (simp add: d)
  next
    case False
    with r show ?thesis by (simp add: d)
  qed
qed

end
