(* ===== verification/AcpiLoaderTables.thy ===== *)
theory AcpiLoaderTables
  imports AcpiLoaderRun
begin

text \<open>
  The second pass installs the tables that pointers lead to, each once; the release of the blobs; and
  the whole run of a script.
\<close>

section \<open>The second pass\<close>

text \<open>Where a relocated pointer leads, and how far it is to the end of the blob there.\<close>

definition pointer_target :: "('g, 'a, 'p, 'c, 'o) acpi_env \<Rightarrow> ('g, 'a, 'p, 'c) loader \<Rightarrow> QEMU_LOADER_ADD_POINTER \<Rightarrow> nat \<times> nat" where
  "pointer_target E s p =
     (let b = the (OrderedCollectionFind (name_ops E) (Tracker s) (c_string (PointerFile p)));
          b2 = the (OrderedCollectionFind (name_ops E) (Tracker s) (c_string (PointeeFile p)));
          v = le_value (mem_bytes (mem s) (blob_Base (blobs s ! b) + PointerOffset p) (PointerSize p))
      in (v, blob_Base (blobs s ! b2) + blob_Size (blobs s ! b2) - v))"

fun add_pointers :: "QEMU_LOADER_ENTRY list \<Rightarrow> QEMU_LOADER_ADD_POINTER list" where
  "add_pointers [] = []"
| "add_pointers (e # es) = (case e of QemuLoaderCmdAddPointer p \<Rightarrow> [p] | _ \<Rightarrow> []) @ add_pointers es"

text \<open>The tables at the targets, those seen before left out.\<close>

fun tables_at :: "phys_mem \<Rightarrow> nat set \<Rightarrow> (nat \<times> nat) list \<Rightarrow> byte list list" where
  "tables_at m seen [] = []"
| "tables_at m seen ((v, r) # ts) =
     (if v \<in> seen then tables_at m seen ts
      else (case identify_table sum_list m v r of Table n \<Rightarrow> [mem_bytes m v n] | _ \<Rightarrow> []) @ tables_at m (insert v seen) ts)"

text \<open>Tables filed under new keys on top of those that were there.\<close>

definition installs :: "(nat \<Rightarrow> byte list option) \<Rightarrow> nat list \<Rightarrow> byte list list \<Rightarrow> (nat \<Rightarrow> byte list option) \<Rightarrow> bool" where
  "installs old keys tables new \<longleftrightarrow> length keys = length tables \<and> distinct keys \<and> (\<forall>k \<in> set keys. old k = None) \<and>
     new = old ++ map_of (zip keys tables)"

lemma installs_Nil [simp]: "installs old [] [] old"
  by (simp add: installs_def)

lemma installs_snoc:
  assumes "installs old keys tables new" and "new k = None"
  shows "installs old (keys @ [k]) (tables @ [t]) (new(k \<mapsto> t))"
proof -
  have k: "old k = None" "map_of (zip keys tables) k = None" using assms by (auto simp: installs_def map_add_def split: option.splits)
  have "k \<notin> set keys" using k(2) assms(1) by (auto simp: installs_def map_of_zip_is_None)
  moreover have "map_of (zip keys tables @ [(k, t)]) = (map_of (zip keys tables))(k \<mapsto> t)"
    using k(2) by (auto simp: fun_eq_iff map_of_append map_add_def split: option.split)
  ultimately show ?thesis using assms k(1) by (auto simp: installs_def zip_append)
qed

lemma uninstall_all:
  assumes env: "acpi_env_ok E nv ov gv av" and "\<forall>k \<in> set keys. old k = None" and "\<forall>k. k \<notin> set keys \<longrightarrow> av a k = old k"
  shows "av (uninstall_tables E keys a) = old"
proof -
  have u: "av (uninstall_tables E ks a) = (\<lambda>k. if k \<in> set ks then None else av a k)" for ks
    by (induction ks) (auto simp: acpi_envD(9) [OF env] fun_eq_iff)
  show ?thesis unfolding u using assms(2,3) by (auto simp: fun_eq_iff)
qed

text \<open>What the second pass leaves alone.\<close>

definition same_objects :: "('g, 'a, 'p, 'c) loader \<Rightarrow> ('g, 'a, 'p, 'c) loader \<Rightarrow> bool" where
  "same_objects s s' \<longleftrightarrow> (\<exists>bs a. s' = s\<lparr>blobs := bs, acpi := a\<rparr> \<and> map blob_place bs = map blob_place (blobs s)) \<and> extends s s'"

lemma same_objects_refl [simp]: "same_objects s s"
  by (auto simp: same_objects_def intro!: exI [of _ "blobs s"] exI [of _ "acpi s"])

lemma extends_trans: "extends s s' \<Longrightarrow> extends s' s'' \<Longrightarrow> extends s s''"
  by (auto simp: extends_def)

lemma same_objects_trans: "same_objects s s' \<Longrightarrow> same_objects s' s'' \<Longrightarrow> same_objects s s''"
  unfolding same_objects_def by (elim conjE exE, intro conjI) (auto intro: extends_trans)

lemma same_objects_sel:
  assumes "same_objects s s'"
  shows "Tracker s' = Tracker s" "mem s' = mem s" "fw s' = fw s" "pages s' = pages s" "S3Context s' = S3Context s"
    "boot_script s' = boot_script s" "pci s' = pci s" "length (blobs s') = length (blobs s)"
    "map blob_place (blobs s') = map blob_place (blobs s)"
proof -
  obtain bs a where b: "s' = s\<lparr>blobs := bs, acpi := a\<rparr>" "map blob_place bs = map blob_place (blobs s)" using assms by (auto simp: same_objects_def)
  show "Tracker s' = Tracker s" "mem s' = mem s" "fw s' = fw s" "pages s' = pages s" "S3Context s' = S3Context s"
    "boot_script s' = boot_script s" "pci s' = pci s" "length (blobs s') = length (blobs s)"
    "map blob_place (blobs s') = map blob_place (blobs s)" using b map_eq_imp_length_eq [OF b(2)] by simp_all
qed

lemma same_objects_inv: "same_objects s s' \<Longrightarrow> loader_inv E nv gv R F m0 s \<Longrightarrow> loader_inv E nv gv R F m0 s'"
  by (rule inv_same_places) (auto simp: same_objects_sel loader_invD)

lemma same_objects_target:
  assumes env: "acpi_env_ok E nv ov gv av" and inv: "loader_inv E nv gv R F m0 s" and so: "same_objects s s'" and r: "relocated E s p"
  shows "relocated E s' p" "pointer_target E s' p = pointer_target E s p"
proof -
  note sel = same_objects_sel [OF so]
  obtain b b2 where f: "OrderedCollectionFind (name_ops E) (Tracker s) (c_string (PointerFile p)) = Some b"
    "OrderedCollectionFind (name_ops E) (Tracker s) (c_string (PointeeFile p)) = Some b2" using r by (auto simp: relocated_def)
  note l = f [unfolded tracker_find [OF env inv]]
  have p: "blob_Size (blobs s' ! b) = blob_Size (blobs s ! b)" "blob_Base (blobs s' ! b) = blob_Base (blobs s ! b)"
    "blob_Size (blobs s' ! b2) = blob_Size (blobs s ! b2)" "blob_Base (blobs s' ! b2) = blob_Base (blobs s ! b2)"
    using place_nth [OF sel(9)] l sel(8) by simp_all
  show "relocated E s' p" "pointer_target E s' p = pointer_target E s p"
    using r f p by (simp_all add: relocated_def pointer_target_def sel Let_def)
qed

lemma second_step:
  assumes env: "acpi_env_ok E nv ov gv av" and inv: "loader_inv E nv gv R F m0 s" and r: "relocated E s p"
    and seen: "oc_inv ov seen" and k: "length keys \<le> INSTALLED_TABLES_MAX" and inst: "installs old keys tables (av (acpi s))"
  shows "\<exists>st keys' seen' s' tables'. Process2ndPassCmdAddPointer E p keys seen s = Some (st, keys', seen', s') \<and> same_objects s s' \<and>
    oc_inv ov seen' \<and> length keys' \<le> INSTALLED_TABLES_MAX \<and> installs old keys' tables' (av (acpi s')) \<and>
    (st = EFI_SUCCESS \<longrightarrow> fst ` set (oc_list ov seen') = insert (fst (pointer_target E s p)) (fst ` set (oc_list ov seen)) \<and>
      tables' = tables @ tables_at (mem s) (fst ` set (oc_list ov seen)) [pointer_target E s p])"
proof -
  obtain b b2 where f: "OrderedCollectionFind (name_ops E) (Tracker s) (c_string (PointerFile p)) = Some b"
    "OrderedCollectionFind (name_ops E) (Tracker s) (c_string (PointeeFile p)) = Some b2"
    and rng: "le_value (mem_bytes (mem s) (blob_Base (blobs s ! b) + PointerOffset p) (PointerSize p)) \<in>
       {blob_Base (blobs s ! b2)..<blob_Base (blobs s ! b2) + blob_Size (blobs s ! b2)}" using r by (auto simp: relocated_def)
  define v where "v = le_value (mem_bytes (mem s) (blob_Base (blobs s ! b) + PointerOffset p) (PointerSize p))"
  define rem where "rem = blob_Base (blobs s ! b2) + blob_Size (blobs s ! b2) - v"
  have tgt: "pointer_target E s p = (v, rem)" using f by (simp add: pointer_target_def v_def rem_def Let_def)
  have vr: "\<not> (v < blob_Base (blobs s ! b2) \<or> blob_Base (blobs s ! b2) + blob_Size (blobs s ! b2) \<le> v)" using rng by (simp add: v_def)
  have b2: "b2 < length (blobs s)" using f(2) unfolding tracker_find [OF env inv] by simp
  have sum: "CalculateSum8 E = sum_list" using acpi_envD(10) [OF env] by blast
  let ?L = "fst ` set (oc_list ov seen)"
  note start = k [unfolded not_less [symmetric]] f vr sum
  from oc_keyedD(7) [OF acpi_envD(2) [OF env] seen, of v v]
  consider (new) c where "OrderedCollectionInsert (ptr_ops E) seen v v = (EFI_SUCCESS, c, v)" "oc_inv ov c"
      "v \<notin> ?L" "set (oc_list ov c) = insert (v, v) (set (oc_list ov seen))"
    | (again) q where "OrderedCollectionInsert (ptr_ops E) seen v v = (EFI_ALREADY_STARTED, seen, q)" "(v, q) \<in> set (oc_list ov seen)"
    | (oor) q where "OrderedCollectionInsert (ptr_ops E) seen v v = (EFI_OUT_OF_RESOURCES, seen, q)" by blast
  then show ?thesis
  proof cases
    case new
    have L: "fst ` set (oc_list ov c) = insert v ?L" using new(4) by simp
    have del: "oc_inv ov (OrderedCollectionDelete (ptr_ops E) c v)" using oc_keyedD(5) [OF acpi_envD(2) [OF env] new(2)] by blast
    show ?thesis
    proof (cases "identify_table sum_list (mem s) v rem")
      case NoTable
      let ?s = "s\<lparr>blobs := (blobs s)[b2 := (blobs s ! b2)\<lparr>HostsOnlyTableData := False\<rparr>]\<rparr>"
      have "same_objects s ?s" unfolding same_objects_def
        by (intro conjI exI [of _ "(blobs s)[b2 := (blobs s ! b2)\<lparr>HostsOnlyTableData := False\<rparr>]"] exI [of _ "acpi s"] mark_place [OF b2] extends_mark [of _ _ b2]) simp_all
      moreover have "Process2ndPassCmdAddPointer E p keys seen s = Some (EFI_SUCCESS, keys, c, ?s)"
        using start new(1) NoTable by (simp add: Process2ndPassCmdAddPointer_def Let_def flip: v_def rem_def)
      ultimately show ?thesis using new(2,3) L k inst NoTable tgt by (intro exI) (auto intro!: exI)
    next
      case RootTable
      have "Process2ndPassCmdAddPointer E p keys seen s = Some (EFI_SUCCESS, keys, c, s)"
        using start new(1) RootTable by (simp add: Process2ndPassCmdAddPointer_def Let_def flip: v_def rem_def)
      then show ?thesis using new(2,3) L k inst RootTable tgt by auto
    next
      case (Table n)
      show ?thesis
      proof (cases "length keys = INSTALLED_TABLES_MAX")
        case True
        then have "Process2ndPassCmdAddPointer E p keys seen s = Some (EFI_OUT_OF_RESOURCES, keys, OrderedCollectionDelete (ptr_ops E) c v, s)"
          using start new(1) Table by (simp add: Process2ndPassCmdAddPointer_def Let_def flip: v_def rem_def)
        then show ?thesis using del k inst by (intro exI [of _ EFI_OUT_OF_RESOURCES] exI) auto
      next
        case False
        obtain res a where res: "InstallAcpiTable E (acpi s) (mem_bytes (mem s) v n) = (res, a)" by fastforce
        have so: "same_objects s (s\<lparr>acpi := a\<rparr>)" unfolding same_objects_def
          by (intro conjI exI [of _ "blobs s"] exI [of _ a]) simp_all
        show ?thesis
        proof (cases res)
          case (Inl e)
          have ie: "e \<noteq> EFI_SUCCESS" "av a = av (acpi s)" using acpi_envD(7) [OF env res [unfolded Inl]] by simp_all
          have "Process2ndPassCmdAddPointer E p keys seen s = Some (e, keys, OrderedCollectionDelete (ptr_ops E) c v, s\<lparr>acpi := a\<rparr>)"
            using start new(1) Table False res Inl by (simp add: Process2ndPassCmdAddPointer_def Let_def flip: v_def rem_def)
          then show ?thesis using so del k inst ie by (intro exI [of _ e] exI) auto
        next
          case (Inr key)
          have ik: "av (acpi s) key = None" "av a = (av (acpi s))(key \<mapsto> mem_bytes (mem s) v n)"
            using acpi_envD(8) [OF env res [unfolded Inr]] by simp_all
          have "installs old (keys @ [key]) (tables @ [mem_bytes (mem s) v n]) (av a)" unfolding ik(2) by (rule installs_snoc [OF inst ik(1)])
          moreover have "Process2ndPassCmdAddPointer E p keys seen s = Some (EFI_SUCCESS, keys @ [key], c, s\<lparr>acpi := a\<rparr>)"
            using start new(1) Table False res Inr by (simp add: Process2ndPassCmdAddPointer_def Let_def flip: v_def rem_def)
          ultimately show ?thesis using so new(2,3) L k False tgt Table
            by (intro exI [of _ EFI_SUCCESS] exI [of _ "keys @ [key]"] exI [of _ c] exI [of _ "s\<lparr>acpi := a\<rparr>"] exI [of _ "tables @ [mem_bytes (mem s) v n]"]) simp
        qed
      qed
    qed
  next
    case again
    have "Process2ndPassCmdAddPointer E p keys seen s = Some (EFI_SUCCESS, keys, seen, s)"
      using start again(1) by (simp add: Process2ndPassCmdAddPointer_def Let_def flip: v_def rem_def)
    moreover have "v \<in> ?L" using again(2) by force
    ultimately show ?thesis using seen k inst tgt by (auto simp: insert_absorb)
  next
    case oor
    have "Process2ndPassCmdAddPointer E p keys seen s = Some (EFI_OUT_OF_RESOURCES, keys, seen, s)"
      using start oor by (simp add: Process2ndPassCmdAddPointer_def Let_def flip: v_def rem_def)
    then show ?thesis using seen k inst by (intro exI [of _ EFI_OUT_OF_RESOURCES] exI) auto
  qed
qed

lemma add_pointers_set: "p \<in> set (add_pointers es) \<longleftrightarrow> QemuLoaderCmdAddPointer p \<in> set es"
  by (induction es) (auto split: QEMU_LOADER_ENTRY.split)

lemma second_pass_returns:
  assumes env: "acpi_env_ok E nv ov gv av"
    and "loader_inv E nv gv R F m0 s" and "\<forall>p. QemuLoaderCmdAddPointer p \<in> set es \<longrightarrow> relocated E s p"
    and "oc_inv ov seen" and "length keys \<le> INSTALLED_TABLES_MAX" and "installs old keys tables (av (acpi s))"
  shows "\<exists>st keys' s' tables'. second_pass E es keys seen s = Some (st, keys', s') \<and> same_objects s s' \<and>
    length keys' \<le> INSTALLED_TABLES_MAX \<and> installs old keys' tables' (av (acpi s')) \<and>
    (st = EFI_SUCCESS \<longrightarrow> tables' = tables @ tables_at (mem s) (fst ` set (oc_list ov seen)) (map (pointer_target E s) (add_pointers es)))"
  using assms(2-)
proof (induction es arbitrary: keys seen s tables)
  case Nil
  then show ?case by auto
next
  case (Cons e es)
  show ?case
  proof (cases "\<exists>p. e = QemuLoaderCmdAddPointer p")
    case False
    have "second_pass E (e # es) keys seen s = second_pass E es keys seen s" "add_pointers (e # es) = add_pointers es"
      using False by (cases e; auto)+
    then show ?thesis using Cons.IH [OF Cons.prems(1) _ Cons.prems(3-)] Cons.prems(2) by simp
  next
    case True
    then obtain p where e: "e = QemuLoaderCmdAddPointer p" by blast
    then have r: "relocated E s p" using Cons.prems(2) by simp
    obtain st keys1 seen1 s1 tables1 where st: "Process2ndPassCmdAddPointer E p keys seen s = Some (st, keys1, seen1, s1)" "same_objects s s1"
      "oc_inv ov seen1" "length keys1 \<le> INSTALLED_TABLES_MAX" "installs old keys1 tables1 (av (acpi s1))"
      "st = EFI_SUCCESS \<longrightarrow> fst ` set (oc_list ov seen1) = insert (fst (pointer_target E s p)) (fst ` set (oc_list ov seen)) \<and>
        tables1 = tables @ tables_at (mem s) (fst ` set (oc_list ov seen)) [pointer_target E s p]"
      using second_step [OF env Cons.prems(1) r Cons.prems(3-)] by blast
    show ?thesis
    proof (cases "st = EFI_SUCCESS")
      case False
      then show ?thesis using e st by auto
    next
      case True
      note tgt = same_objects_target [OF env Cons.prems(1) st(2)]
      have rel: "\<forall>p. QemuLoaderCmdAddPointer p \<in> set es \<longrightarrow> relocated E s1 p" using Cons.prems(2) tgt(1) by simp
      obtain st2 keys2 s2 tables2 where st2: "second_pass E es keys1 seen1 s1 = Some (st2, keys2, s2)" "same_objects s1 s2"
        "length keys2 \<le> INSTALLED_TABLES_MAX" "installs old keys2 tables2 (av (acpi s2))"
        "st2 = EFI_SUCCESS \<longrightarrow> tables2 = tables1 @ tables_at (mem s1) (fst ` set (oc_list ov seen1)) (map (pointer_target E s1) (add_pointers es))"
        using Cons.IH [OF same_objects_inv [OF st(2) Cons.prems(1)] rel st(3-5)] by blast
      have m: "map (pointer_target E s1) (add_pointers es) = map (pointer_target E s) (add_pointers es)"
        using Cons.prems(2) tgt(2) by (auto simp: add_pointers_set)
      have "tables1 @ tables_at (mem s1) (fst ` set (oc_list ov seen1)) (map (pointer_target E s1) (add_pointers es)) =
          tables @ tables_at (mem s) (fst ` set (oc_list ov seen)) (map (pointer_target E s) (add_pointers (e # es)))"
        unfolding m using st(6) True same_objects_sel(2) [OF st(2)] e
        by (cases "pointer_target E s p") (simp add: insert_absorb del: map_eq_conv)
      then show ?thesis using st(1) st2 True e same_objects_trans [OF st(2) st2(2)]
        by (intro exI [of _ st2] exI [of _ keys2] exI [of _ s2] exI [of _ tables2]) simp
    qed
  qed
qed

section \<open>Release\<close>

lemma release_returns:
  assumes env: "acpi_env_ok E nv ov gv av" and "oc_inv nv (Tracker s)" and "oc_list nv (Tracker s) = es"
  shows "\<exists>t g. release_blobs E failed (case es of [] \<Rightarrow> None | e # _ \<Rightarrow> Some e) s = Some (s\<lparr>Tracker := t, pages := g\<rparr>) \<and>
    gv g = gv (pages s) \<union> (\<Union>b \<in> {b \<in> snd ` set es. failed \<or> HostsOnlyTableData (blobs s ! b)}. blob_room (blobs s ! b))"
  using assms(2-)
proof (induction es arbitrary: s)
  case Nil
  show ?case by (subst release_blobs.simps) (auto intro!: exI [of _ "Tracker s"] exI [of _ "pages s"])
next
  case (Cons e es)
  obtain k b where e: "e = (k, b)" by fastforce
  note l = acpi_envD(1) [OF env]
  have nx: "OrderedCollectionNext (name_ops E) (Tracker s) k = (case es of [] \<Rightarrow> None | e # _ \<Rightarrow> Some e)"
    using oc_keyedD(6) [OF l Cons.prems(1), of "[]" k b es] Cons.prems(2) e by simp
  have "k \<notin> fst ` set es" using oc_keyedD(2) [OF l Cons.prems(1)] Cons.prems(2) e by auto
  then have fl: "filter (\<lambda>e. fst e \<noteq> k) (e # es) = es" using e by (auto simp: filter_id_conv)
  let ?freed = "failed \<or> HostsOnlyTableData (blobs s ! b)"
  let ?s = "s\<lparr>Tracker := OrderedCollectionDelete (name_ops E) (Tracker s) k,
    pages := if ?freed then FreePages E (pages s) (blob_Base (blobs s ! b)) (EFI_SIZE_TO_PAGES (blob_Size (blobs s ! b))) else pages s\<rparr>"
  have d: "oc_inv nv (Tracker ?s)" "oc_list nv (Tracker ?s) = es"
    using oc_keyedD(5) [OF l Cons.prems(1), of k] Cons.prems(2) fl by simp_all
  from Cons.IH [OF d] obtain t g where r: "release_blobs E failed (case es of [] \<Rightarrow> None | e # _ \<Rightarrow> Some e) ?s = Some (?s\<lparr>Tracker := t, pages := g\<rparr>)"
    "gv g = gv (pages ?s) \<union> (\<Union>b \<in> {b \<in> snd ` set es. failed \<or> HostsOnlyTableData (blobs s ! b)}. blob_room (blobs s ! b))" by auto
  have step: "release_blobs E failed (Some (k, b)) s = release_blobs E failed (case es of [] \<Rightarrow> None | e # _ \<Rightarrow> Some e) ?s"
    by (subst release_blobs.simps) (simp add: nx Let_def)
  have "gv (pages ?s) = gv (pages s) \<union> (if ?freed then blob_room (blobs s ! b) else {})"
    by (simp add: acpi_envD(6) [OF env] blob_room_def)
  then have "gv g = gv (pages s) \<union> (\<Union>b \<in> {b \<in> snd ` set (e # es). failed \<or> HostsOnlyTableData (blobs s ! b)}. blob_room (blobs s ! b))"
    using r(2) e by auto
  moreover have "release_blobs E failed (case e # es of [] \<Rightarrow> None | e # _ \<Rightarrow> Some e) s = Some (s\<lparr>Tracker := t, pages := g\<rparr>)"
    using step r(1) e by simp
  ultimately show ?case by blast
qed

text \<open>What remains allocated on success.\<close>

definition kept_rooms :: "BLOB list \<Rightarrow> nat set" where
  "kept_rooms bs = (\<Union>b \<in> {b \<in> set bs. \<not> HostsOnlyTableData b}. blob_room b)"

lemma finish_returns:
  assumes env: "acpi_env_ok E nv ov gv av" and pub: "publishes dev dir" and inv: "loader_inv E nv gv R F m0 s"
    and found: "wps_found dir (take wend script)"
  shows "\<exists>f t g. finish_tables E dev script wend st s = Some (st, s\<lparr>fw := f, Tracker := t, pages := g\<rparr>) \<and> mQemuFwCfgSupported f \<and>
    gv g = (if st = EFI_SUCCESS then F - kept_rooms (blobs s) else F) \<and>
    fw_written f = fw_written (fw s) @ (if st = EFI_SUCCESS then [] else map zero_write (rev (wp_shapes dir (take wend script))))"
proof -
  note i = loader_invD [OF inv]
  obtain f where f: "(if st \<noteq> EFI_SUCCESS then undo_write_pointers dev (take wend script) s else Some s) = Some (s\<lparr>fw := f\<rparr>)"
    "mQemuFwCfgSupported f" "fw_written f = fw_written (fw s) @ (if st = EFI_SUCCESS then [] else map zero_write (rev (wp_shapes dir (take wend script))))"
  proof (cases "st = EFI_SUCCESS")
    case True
    then show thesis using that [of "fw s"] i(1) by simp
  next
    case False
    with undo_all [OF pub i(1) found] that show thesis by auto
  qed
  let ?s = "s\<lparr>fw := f\<rparr>"
  have "oc_inv nv (Tracker ?s)" using i(2) by simp
  from release_returns [OF env this refl, of "st \<noteq> EFI_SUCCESS"] oc_keyedD(4) [OF acpi_envD(1) [OF env] i(2)]
  obtain t g where r: "release_blobs E (st \<noteq> EFI_SUCCESS) (OrderedCollectionMin (name_ops E) (Tracker ?s)) ?s = Some (?s\<lparr>Tracker := t, pages := g\<rparr>)"
    "gv g = gv (pages ?s) \<union> (\<Union>b \<in> {b \<in> snd ` set (oc_list nv (Tracker ?s)). st \<noteq> EFI_SUCCESS \<or> HostsOnlyTableData (blobs ?s ! b)}. blob_room (blobs ?s ! b))"
    by auto
  have idx: "snd ` set (oc_list nv (Tracker s)) = {..<length (blobs s)}" unfolding i(3) by (simp add: image_image)
  have sub: "rooms (blobs s) \<subseteq> F"
  proof
    fix x assume "x \<in> rooms (blobs s)"
    then obtain y where y: "y \<in> set (blobs s)" "x \<in> blob_room y" unfolding rooms_def by blast
    then obtain p where "p < length (blobs s)" "x \<in> blob_room (blobs s ! p)" by (metis in_set_conv_nth)
    then show "x \<in> F" using i(4) unfolding blobs_placed_def by blast
  qed
  have dis: "blob_room x \<inter> blob_room y = {}" if "x \<in> set (blobs s)" "y \<in> set (blobs s)" "HostsOnlyTableData x" "\<not> HostsOnlyTableData y" for x y
  proof -
    obtain p q where p: "p < length (blobs s)" "x = blobs s ! p" and q: "q < length (blobs s)" "y = blobs s ! q"
      using \<open>x \<in> set (blobs s)\<close> \<open>y \<in> set (blobs s)\<close> by (auto simp: in_set_conv_nth)
    moreover have "p \<noteq> q" using p q that(3,4) by auto
    ultimately show ?thesis using i(4) unfolding blobs_placed_def by blast
  qed
  have nths: "(\<lambda>p. blobs s ! p) ` {..<length (blobs s)} = set (blobs s)" by (auto simp: in_set_conv_nth)
  have img: "(\<Union>b \<in> {b \<in> {..<length (blobs s)}. P (blobs s ! b)}. blob_room (blobs s ! b)) = (\<Union>b \<in> {b \<in> set (blobs s). P b}. blob_room b)" for P
    unfolding nths [symmetric] by auto
  have "gv g = F - rooms (blobs s) \<union> (\<Union>b \<in> {b \<in> set (blobs s). st \<noteq> EFI_SUCCESS \<or> HostsOnlyTableData b}. blob_room b)"
    using r(2) img [of "\<lambda>b. st \<noteq> EFI_SUCCESS \<or> HostsOnlyTableData b"] i(5) by (simp add: idx)
  also have "\<dots> = (if st = EFI_SUCCESS then F - kept_rooms (blobs s) else F)"
  proof (cases "st = EFI_SUCCESS")
    case True
    then show ?thesis using sub dis by (auto simp: kept_rooms_def rooms_def)
  next
    case False
    then show ?thesis using sub by (auto simp: rooms_def)
  qed
  finally have "gv g = (if st = EFI_SUCCESS then F - kept_rooms (blobs s) else F)" .
  moreover have "finish_tables E dev script wend st s = Some (st, s\<lparr>fw := f, Tracker := t, pages := g\<rparr>)"
    using f(1) r(1) by (simp add: finish_tables_def)
  ultimately show ?thesis using f(2,3) by blast
qed

end
