(* ===== verification/AcpiLoaderWhole.thy ===== *)
theory AcpiLoaderWhole
  imports AcpiLoaderTables
begin

text \<open>
  A whole run of the script: what holds of memory, pages, tables, the configuration device and the
  boot script when the driver returns.
\<close>

section \<open>Handing the pointers to the boot script\<close>

lemma transfer_returns:
  assumes "mQemuFwCfgSupported (fw s)"
  obtains st s' where "TransferS3ContextToBootScript E dev ctx s = (st, s')" "mQemuFwCfgSupported (fw s')"
    "fw_written (fw s') = fw_written (fw s)"
    "\<exists>f bs. s' = s\<lparr>fw := f, boot_script := bs\<rparr> \<and> (st \<noteq> EFI_SUCCESS \<longrightarrow> bs = boot_script s) \<and>
      (st = EFI_SUCCESS \<longrightarrow> bs = boot_script s @ (if WritePointers ctx = [] then [] else [ctx]))"
proof (cases "WritePointers ctx = []")
  case True
  then show thesis using assms
    by (intro that [of EFI_SUCCESS s]) (auto simp: TransferS3ContextToBootScript_def intro!: exI [of _ "fw s"] exI [of _ "boot_script s"])
next
  case False
  obtain f where f: "QemuFwCfgReadBytes dev (QemuFwCfgSelectItem (fw s) QemuFwCfgItemInterfaceVersion) 4 =
      (dev_bytes dev (QemuFwCfgItemInterfaceVersion mod 2 ^ 16) 0 4, f)" "mQemuFwCfgSupported f" "fw_written f = fw_written (fw s)"
    by (rule fw_read [OF assms])
  obtain st s' where r: "TransferS3ContextToBootScript E dev ctx s = (st, s')" by fastforce
  have "s' = s\<lparr>fw := f, boot_script := boot_script s'\<rparr> \<and> (st \<noteq> EFI_SUCCESS \<longrightarrow> boot_script s' = boot_script s) \<and>
      (st = EFI_SUCCESS \<longrightarrow> boot_script s' = boot_script s @ [ctx])"
    using r False f(1)
    by (auto simp: TransferS3ContextToBootScript_def QemuFwCfgS3CallWhenBootScriptReady_def QemuFwCfgRead32_def read_le_def Let_def
        split: if_splits)
  then obtain bs where bs: "s' = s\<lparr>fw := f, boot_script := bs\<rparr>" "st \<noteq> EFI_SUCCESS \<longrightarrow> bs = boot_script s"
    "st = EFI_SUCCESS \<longrightarrow> bs = boot_script s @ [ctx]" by blast
  show thesis
    by (rule that [OF r]) (use bs f(2,3) False in \<open>auto intro!: exI [of _ f] exI [of _ bs]\<close>)
qed

section \<open>The outcome\<close>

text \<open>
  Nothing is left of a run that fails: all pages are free again, no table and no context for the
  boot script was added, every pointer told to the device was overwritten with zeros.
\<close>

definition rolled_back ::
  "('g \<Rightarrow> nat set) \<Rightarrow> ('a \<Rightarrow> nat \<Rightarrow> byte list option) \<Rightarrow> ('g, 'a, 'p, 'm) acpi_world_scheme \<Rightarrow> ('g, 'a, 'p, 'n) acpi_world_scheme \<Rightarrow> bool" where
  "rolled_back gv av w w' \<longleftrightarrow> gv (pages w') = gv (pages w) \<and> av (acpi w') = av (acpi w) \<and> boot_script w' = boot_script w \<and>
     (\<exists>ws. fw_written (fw w') = fw_written (fw w) @ ws @ map (\<lambda>t. zero_write (write_shape t)) (rev ws))"

text \<open>
  After a successful run some pages remain allocated; all addresses told to the device lie there, the
  tables are filed under new keys, and the boot script will tell the same addresses again.
\<close>

definition installed ::
  "('g \<Rightarrow> nat set) \<Rightarrow> ('a \<Rightarrow> nat \<Rightarrow> byte list option) \<Rightarrow> bool \<Rightarrow> ('g, 'a, 'p, 'm) acpi_world_scheme \<Rightarrow> ('g, 'a, 'p, 'n) acpi_world_scheme \<Rightarrow> bool" where
  "installed gv av s3 w w' \<longleftrightarrow> (\<exists>kept keys tables ws ctxs.
     kept \<subseteq> gv (pages w) \<and> gv (pages w') = gv (pages w) - kept \<and>
     length keys \<le> INSTALLED_TABLES_MAX \<and> installs (av (acpi w)) keys tables (av (acpi w')) \<and>
     fw_written (fw w') = fw_written (fw w) @ ws \<and> (\<forall>(item, off, bs) \<in> set ws. le_value bs \<in> kept) \<and>
     boot_script w' = boot_script w @ ctxs \<and> (if s3 then concat (map (\<lambda>c. map cw_write (WritePointers c)) ctxs) = ws else ctxs = []))"

text \<open>Either way memory that was not free is as before, and so are the PCI devices.\<close>

definition run_outcome ::
  "('g \<Rightarrow> nat set) \<Rightarrow> ('a \<Rightarrow> nat \<Rightarrow> byte list option) \<Rightarrow> bool \<Rightarrow> ('g, 'a, 'p, 'm) acpi_world_scheme \<Rightarrow> EFI_STATUS \<Rightarrow> ('g, 'a, 'p, 'n) acpi_world_scheme \<Rightarrow> bool" where
  "run_outcome gv av s3 w st w' \<longleftrightarrow> (\<forall>x. x \<notin> gv (pages w) \<longrightarrow> mem w' x = mem w x) \<and> pci w' = pci w \<and>
     (if st = EFI_SUCCESS then installed gv av s3 w w' else rolled_back gv av w w')"

lemma rooms_free:
  assumes "blobs_placed F lim bs"
  shows "rooms bs \<subseteq> F"
proof
  fix x assume "x \<in> rooms bs"
  then obtain y where y: "y \<in> set bs" "x \<in> blob_room y" unfolding rooms_def by blast
  then obtain p where "p < length bs" "x \<in> blob_room (bs ! p)" by (metis in_set_conv_nth)
  then show "x \<in> F" using assms unfolding blobs_placed_def by blast
qed

lemma live_kept: "blobs_placed F lim (blobs s) \<Longrightarrow> live s v \<Longrightarrow> v \<in> kept_rooms (blobs s)"
  unfolding live_def kept_rooms_def using blob_in_room [of F lim "blobs s"] nth_mem by blast

lemma kept_rooms_subset: "kept_rooms bs \<subseteq> rooms bs"
  by (auto simp: kept_rooms_def rooms_def)

text \<open>From any state of the first pass, a failure.\<close>

lemma finish_fails:
  assumes env: "acpi_env_ok E nv ov gv av" and pub: "publishes dev dir" and si: "script_inv E nv gv dir R (gv (pages w0)) w0 script wend s1"
    and s: "loader_inv E nv gv R (gv (pages w0)) (mem w0) s" "fw_written (fw s) = fw_written (fw s1)"
    and same: "av (acpi s) = av (acpi w0)" "pci s = pci w0" "boot_script s = boot_script w0" and st: "st \<noteq> EFI_SUCCESS"
  shows "\<exists>s'. finish_tables E dev script wend st s = Some (st, s') \<and> run_outcome gv av s3 w0 st s'"
proof -
  obtain ws where ws: "fw_written (fw s1) = fw_written (fw w0) @ ws" "map write_shape ws = wp_shapes dir (take wend script)"
    and fnd: "wps_found dir (take wend script)" using si by (auto simp: script_inv_def)
  obtain f t g where r: "finish_tables E dev script wend st s = Some (st, s\<lparr>fw := f, Tracker := t, pages := g\<rparr>)"
    "gv g = gv (pages w0)" "fw_written f = fw_written (fw s) @ map zero_write (rev (wp_shapes dir (take wend script)))"
    using finish_returns [OF env pub s(1) fnd, of st] st by auto
  have "mem s x = mem w0 x" if "x \<notin> gv (pages w0)" for x
    using loader_invD(6) [OF s(1)] rooms_free [OF loader_invD(4) [OF s(1)]] that by blast
  moreover have "map zero_write (rev (wp_shapes dir (take wend script))) = map (\<lambda>t. zero_write (write_shape t)) (rev ws)"
    unfolding ws(2) [symmetric] by (simp add: rev_map o_def)
  ultimately have "run_outcome gv av s3 w0 st (s\<lparr>fw := f, Tracker := t, pages := g\<rparr>)"
    using r s(2) ws(1) same st by (auto simp: run_outcome_def rolled_back_def)
  then show ?thesis using r(1) by blast
qed


text \<open>From the end of the first pass on.\<close>

lemma transferred:
  assumes so: "same_objects s s1" and sup: "mQemuFwCfgSupported (fw s)"
    and t: "(if st \<noteq> EFI_SUCCESS then (st, s1)
        else case S3Context s1 of None \<Rightarrow> (EFI_SUCCESS, s1) | Some ctx \<Rightarrow> TransferS3ContextToBootScript E dev ctx s1) = (st2, s2)"
  obtains f bs where "s2 = s1\<lparr>fw := f, boot_script := bs\<rparr>" "mQemuFwCfgSupported f" "fw_written f = fw_written (fw s)"
    "st2 \<noteq> EFI_SUCCESS \<longrightarrow> bs = boot_script s"
    "st2 = EFI_SUCCESS \<longrightarrow> bs = boot_script s @ (case S3Context s of None \<Rightarrow> [] | Some ctx \<Rightarrow> if WritePointers ctx = [] then [] else [ctx])"
proof -
  note sel = same_objects_sel [OF so]
  show thesis
  proof (cases "st = EFI_SUCCESS \<and> S3Context s1 \<noteq> None")
    case False
    then have "s2 = s1" "st2 = EFI_SUCCESS \<longrightarrow> S3Context s = None" using t sel by (auto split: if_splits option.splits)
    then show thesis using sup sel by (intro that [of "boot_script s1" "fw s1"]) auto
  next
    case True
    then obtain ctx where ctx: "S3Context s1 = Some ctx" by blast
    have sup1: "mQemuFwCfgSupported (fw s1)" using sup sel by simp
    have tr: "TransferS3ContextToBootScript E dev ctx s1 = (st2, s2)" using t True ctx by simp
    obtain st' s' where r: "TransferS3ContextToBootScript E dev ctx s1 = (st', s')" "mQemuFwCfgSupported (fw s')"
      "fw_written (fw s') = fw_written (fw s1)"
      "\<exists>f bs. s' = s1\<lparr>fw := f, boot_script := bs\<rparr> \<and> (st' \<noteq> EFI_SUCCESS \<longrightarrow> bs = boot_script s1) \<and>
        (st' = EFI_SUCCESS \<longrightarrow> bs = boot_script s1 @ (if WritePointers ctx = [] then [] else [ctx]))"
      by (rule transfer_returns [OF sup1])
    have eq: "st' = st2" "s' = s2" using tr r(1) by simp_all
    obtain f bs where "s2 = s1\<lparr>fw := f, boot_script := bs\<rparr>" "st2 \<noteq> EFI_SUCCESS \<longrightarrow> bs = boot_script s1"
      "st2 = EFI_SUCCESS \<longrightarrow> bs = boot_script s1 @ (if WritePointers ctx = [] then [] else [ctx])"
      using r(4) unfolding eq by blast
    moreover have "S3Context s = Some ctx" using ctx sel(5) by simp
    ultimately show thesis using r(2,3) eq(2) sel(3,6) by (intro that [of bs f]) auto
  qed
qed

lemma install_returns:
  assumes env: "acpi_env_ok E nv ov gv av" and pub: "publishes dev dir" and si: "script_inv E nv gv dir R (gv (pages w0)) w0 script wend s"
    and rel: "\<forall>p. QemuLoaderCmdAddPointer p \<in> set script \<longrightarrow> relocated E s p"
  shows "\<exists>st s'. install_tables E dev script wend s = Some (st, s') \<and> run_outcome gv av (S3Context s \<noteq> None) w0 st s'"
proof -
  have inv: "loader_inv E nv gv R (gv (pages w0)) (mem w0) s" and q: "acpi s = acpi w0" "pci s = pci w0" "boot_script s = boot_script w0"
    using si by (simp_all add: script_inv_def quiet_def)
  note fails = finish_fails [OF env pub si]
  show ?thesis
  proof (cases "AllocatePool E KeysPool \<and> OrderedCollectionInit (ptr_ops E) \<noteq> None")
    case False
    then have "install_tables E dev script wend s = finish_tables E dev script wend EFI_OUT_OF_RESOURCES s"
      by (auto simp: install_tables_def)
    then show ?thesis using fails [OF inv refl _ q(2,3), of EFI_OUT_OF_RESOURCES] q(1) by fastforce
  next
    case True
    then obtain seen where seen: "OrderedCollectionInit (ptr_ops E) = Some seen" by blast
    have e: "oc_inv ov seen" "oc_list ov seen = []" using oc_keyedD(1) [OF acpi_envD(2) [OF env] seen] by simp_all
    obtain st keys s1 tables where p2: "second_pass E script [] seen s = Some (st, keys, s1)" "same_objects s s1"
      "length keys \<le> INSTALLED_TABLES_MAX" "installs (av (acpi w0)) keys tables (av (acpi s1))"
      using second_pass_returns [OF env inv rel e(1), of "[]" "av (acpi w0)" "[]"] q(1) by auto
    note sel = same_objects_sel [OF p2(2)] and inv1 = same_objects_inv [OF p2(2) inv]
    obtain ws where ws: "fw_written (fw s) = fw_written (fw w0) @ ws" "\<forall>t \<in> set ws. live s (le_value (snd (snd t)))"
      "\<forall>ctx. S3Context s = Some ctx \<longrightarrow> map cw_write (WritePointers ctx) = ws" and fnd: "wps_found dir (take wend script)"
      using si by (auto simp: script_inv_def)
    have kept: "\<forall>(item, off, bs) \<in> set ws. le_value bs \<in> kept_rooms (blobs s1)"
      using ws(2) live_extends [OF conjunct2 [OF p2(2) [unfolded same_objects_def]]] live_kept [OF loader_invD(4) [OF inv1]] by fastforce
    define t where "t = (if st \<noteq> EFI_SUCCESS then (st, s1)
        else case S3Context s1 of None \<Rightarrow> (EFI_SUCCESS, s1) | Some ctx \<Rightarrow> TransferS3ContextToBootScript E dev ctx s1)"
    obtain st2 s2 where t2: "t = (st2, s2)" by fastforce
    have run: "install_tables E dev script wend s =
        finish_tables E dev script wend st2 (if st2 \<noteq> EFI_SUCCESS then s2\<lparr>acpi := uninstall_tables E keys (acpi s2)\<rparr> else s2)"
      using True seen p2(1) t2 by (simp add: install_tables_def t_def [symmetric] Let_def)
    obtain f bs where s2: "s2 = s1\<lparr>fw := f, boot_script := bs\<rparr>" "mQemuFwCfgSupported f" "fw_written f = fw_written (fw s)"
      "st2 \<noteq> EFI_SUCCESS \<longrightarrow> bs = boot_script s"
      "st2 = EFI_SUCCESS \<longrightarrow> bs = boot_script s @ (case S3Context s of None \<Rightarrow> [] | Some ctx \<Rightarrow> if WritePointers ctx = [] then [] else [ctx])"
      by (rule transferred [OF p2(2) loader_invD(1) [OF inv] t2 [unfolded t_def]])
    have inv2: "loader_inv E nv gv R (gv (pages w0)) (mem w0) (s2\<lparr>acpi := a\<rparr>)" for a
      using inv1 s2(1,2) by (simp add: loader_inv_def)
    show ?thesis
    proof (cases "st2 = EFI_SUCCESS")
      case st2: False
      have "av (uninstall_tables E keys (acpi s2)) = av (acpi w0)"
        using p2(4) s2(1) by (intro uninstall_all [OF env]) (auto simp: installs_def map_add_def map_of_zip_is_None split: option.split dest: set_zip_leftD)
      then show ?thesis unfolding run using fails [OF inv2 _ _ _ _ st2] st2 s2 sel q by fastforce
    next
      case st2: True
      have inv3: "loader_inv E nv gv R (gv (pages w0)) (mem w0) s2" using inv2 [of "acpi s2"] by simp
      obtain f' t g where fin: "finish_tables E dev script wend st2 s2 = Some (st2, s2\<lparr>fw := f', Tracker := t, pages := g\<rparr>)"
        "gv g = gv (pages w0) - kept_rooms (blobs s2)" "fw_written f' = fw_written (fw s2)"
        using finish_returns [OF env pub inv3 fnd, of st2] st2 by auto
      let ?s = "s2\<lparr>fw := f', Tracker := t, pages := g\<rparr>"
      let ?ctxs = "case S3Context s of None \<Rightarrow> [] | Some ctx \<Rightarrow> if WritePointers ctx = [] then [] else [ctx]"
      have kr: "kept_rooms (blobs s1) \<subseteq> gv (pages w0)"
        using kept_rooms_subset [of "blobs s1"] rooms_free [OF loader_invD(4) [OF inv1]] by blast
      have ctxs: "if S3Context s \<noteq> None then concat (map (\<lambda>c. map cw_write (WritePointers c)) ?ctxs) = ws else ?ctxs = []"
        using ws(3) by (auto split: option.split)
      have "installed gv av (S3Context s \<noteq> None) w0 ?s" unfolding installed_def
        by (intro exI conjI) (use kr fin s2 st2 p2(3,4) kept ws(1) ctxs q sel in \<open>simp_all\<close>)
      moreover have "mem s2 x = mem w0 x" if "x \<notin> gv (pages w0)" for x
        using loader_invD(6) [OF inv3] rooms_free [OF loader_invD(4) [OF inv3]] that by blast
      ultimately have "run_outcome gv av (S3Context s \<noteq> None) w0 st2 ?s"
        using st2 s2(1) sel q by (simp add: run_outcome_def)
      then show ?thesis using run fin(1) st2 by auto
    qed
  qed
qed


text \<open>The whole script, from no objects at all.\<close>

definition loader_start :: "(byte list, 'c) oc_view \<Rightarrow> ('g, 'a, 'p, 'c) loader \<Rightarrow> bool" where
  "loader_start nv s \<longleftrightarrow> mQemuFwCfgSupported (fw s) \<and> blobs s = [] \<and> oc_inv nv (Tracker s) \<and> oc_list nv (Tracker s) = [] \<and>
     (\<forall>ctx. S3Context s = Some ctx \<longrightarrow> WritePointers ctx = [])"

lemma start_inv: "loader_start nv s \<Longrightarrow> loader_inv E nv gv R (gv (pages s)) (mem s) s"
  by (simp add: loader_start_def loader_inv_def blobs_placed_def rooms_def)

lemma start_script_inv: "loader_start nv s \<Longrightarrow> pass_inv E nv gv dir R (gv (pages s)) s script 0 0 s"
  using start_inv [of nv s E gv R] by (auto simp: pass_inv_def script_inv_def quiet_def wps_found_def loader_start_def)

lemma run_script_returns:
  assumes env: "acpi_env_ok E nv ov gv av" and pub: "publishes dev dir" and start: "loader_start nv s" and ok: "script_ok script"
  shows "\<exists>st s'. run_script E dev R script s = Some (st, s') \<and> run_outcome gv av (S3Context s \<noteq> None) s st s'"
proof -
  obtain st wend s1 where p1: "first_pass E dev R script 0 0 s = Some (st, wend, s1)"
    "script_inv E nv gv dir R (gv (pages s)) s script wend s1"
    "st = EFI_SUCCESS \<and> script_ok script \<longrightarrow> (\<forall>p. QemuLoaderCmdAddPointer p \<in> set script \<longrightarrow> relocated E s1 p)"
    using first_pass_returns [OF env pub start_script_inv [OF start], where R = R and script = script] by auto
  have i1: "loader_inv E nv gv R (gv (pages s)) (mem s) s1" and q: "acpi s1 = acpi s" "pci s1 = pci s" "boot_script s1 = boot_script s"
    and c: "S3Context s1 = None \<longleftrightarrow> S3Context s = None" using p1(2) by (simp_all add: script_inv_def quiet_def)
  show ?thesis
  proof (cases "st = EFI_SUCCESS")
    case False
    then have "run_script E dev R script s = finish_tables E dev script wend st s1" using p1(1) by (simp add: run_script_def)
    then show ?thesis using finish_fails [OF env pub p1(2) i1 refl _ q(2,3) False] q(1) by fastforce
  next
    case True
    then have "run_script E dev R script s = install_tables E dev script wend s1" using p1(1) by (simp add: run_script_def)
    then show ?thesis using install_returns [OF env pub p1(2)] p1(3) True ok c by auto
  qed
qed

section \<open>Restrictions\<close>

definition narrow :: "QEMU_LOADER_ENTRY list \<Rightarrow> byte list set" where
  "narrow es = {c_string (PointeeFile p) |p. QemuLoaderCmdAddPointer p \<in> set es \<and> PointerSize p < 8}"

lemma narrow_Cons: "narrow (e # es) = (case e of QemuLoaderCmdAddPointer p \<Rightarrow> if PointerSize p < 8 then {c_string (PointeeFile p)} else {} | _ \<Rightarrow> {}) \<union> narrow es"
  by (auto simp: narrow_def split: QEMU_LOADER_ENTRY.split)

lemma restricted_loop_returns:
  assumes env: "acpi_env_ok E nv ov gv av" and "oc_inv nv c"
  shows "\<exists>st c'. restricted_loop E es i c = Some (st, c') \<and> (st = EFI_SUCCESS \<longrightarrow> oc_inv nv c' \<and>
    fst ` set (oc_list nv c') = fst ` set (oc_list nv c) \<union> narrow es)"
  using assms(2)
proof (induction es arbitrary: i c)
  case Nil
  then show ?case by (simp add: narrow_def)
next
  case (Cons e es)
  show ?case
  proof (cases "\<exists>p. e = QemuLoaderCmdAddPointer p \<and> PointerSize p < 8")
    case False
    then have "restricted_loop E (e # es) i c = restricted_loop E es (i + 1) c" "narrow (e # es) = narrow es"
      by (cases e; auto simp: narrow_Cons)+
    then show ?thesis using Cons.IH [OF Cons.prems, of "i + 1"] by simp
  next
    case True
    then obtain p where p: "e = QemuLoaderCmdAddPointer p" "PointerSize p < 8" by blast
    then have n: "narrow (e # es) = insert (c_string (PointeeFile p)) (narrow es)" by (auto simp: narrow_Cons)
    let ?ins = "OrderedCollectionInsert (name_ops E) c (c_string (PointeeFile p)) i"
    from oc_keyedD(7) [OF acpi_envD(1) [OF env] Cons.prems, of "c_string (PointeeFile p)" i]
    consider (new) c1 where "?ins = (EFI_SUCCESS, c1, i)" "oc_inv nv c1"
        "fst ` set (oc_list nv c1) = insert (c_string (PointeeFile p)) (fst ` set (oc_list nv c))"
      | (again) q where "?ins = (EFI_ALREADY_STARTED, c, q)" "c_string (PointeeFile p) \<in> fst ` set (oc_list nv c)"
      | (oor) q where "?ins = (EFI_OUT_OF_RESOURCES, c, q)" by force
    then show ?thesis
    proof cases
      case new
      then show ?thesis unfolding n using Cons.IH [OF new(2), of "i + 1"] p by auto
    next
      case again
      then have a: "fst ` set (oc_list nv c) \<union> insert (c_string (PointeeFile p)) (narrow es) = fst ` set (oc_list nv c) \<union> narrow es" by blast
      show ?thesis unfolding n a using Cons.IH [OF Cons.prems, of "i + 1"] p again(1) by auto
    next
      case oor
      then show ?thesis using p by simp
    qed
  qed
qed

lemma collect_returns:
  assumes env: "acpi_env_ok E nv ov gv av"
  shows "\<exists>st r. CollectAllocationsRestrictedTo32Bit E es = Some (st, r) \<and> (r = None \<longleftrightarrow> st \<noteq> EFI_SUCCESS) \<and>
    (\<forall>c. r = Some c \<longrightarrow> (\<forall>k. OrderedCollectionFind (name_ops E) c k \<noteq> None \<longleftrightarrow> k \<in> narrow es))"
proof (cases "OrderedCollectionInit (name_ops E)")
  case None
  then show ?thesis by (simp add: CollectAllocationsRestrictedTo32Bit_def)
next
  case (Some c)
  note l = acpi_envD(1) [OF env]
  have e: "oc_inv nv c" "oc_list nv c = []" using oc_keyedD(1) [OF l Some] by simp_all
  obtain st c' where r: "restricted_loop E es 0 c = Some (st, c')"
    "st = EFI_SUCCESS \<longrightarrow> oc_inv nv c' \<and> fst ` set (oc_list nv c') = narrow es"
    using restricted_loop_returns [OF env e(1), of es 0] e(2) by auto
  have "OrderedCollectionFind (name_ops E) c' k \<noteq> None \<longleftrightarrow> k \<in> narrow es" if "st = EFI_SUCCESS" for k
    using r(2) that oc_keyedD(3) [OF l, of c'] by (simp add: map_of_eq_None_iff del: not_None_eq)
  then show ?thesis using Some r(1) by (auto simp: CollectAllocationsRestrictedTo32Bit_def)
qed

end
