(* ===== verification/AcpiLoaderTop.thy ===== *)
theory AcpiLoaderTop
  imports AcpiLoaderWhole
begin

text \<open>
  The driver around the run of the script: from the published file to the status, with all that
  may fail before the first command.
\<close>

lemma s3_enabled:
  assumes sup: "mQemuFwCfgSupported f" and pub: "publishes dev dir"
  obtains f' where "QemuFwCfgS3Enabled dev f = Some (case lookup_entry dir (ascii ''etc/system-states'') of (st, item, sz) \<Rightarrow>
      st = EFI_SUCCESS \<and> sz = 6 \<and> dev_bytes dev item 0 6 ! 3 AND 0x80 \<noteq> 0, f')"
    "mQemuFwCfgSupported f'" "fw_written f' = fw_written f"
proof -
  let ?n = "ascii ''etc/system-states''"
  obtain f1 where f1: "QemuFwCfgFindFile dev f ?n =
      Some (fst (lookup_entry dir ?n), fst (snd (lookup_entry dir ?n)), snd (snd (lookup_entry dir ?n)), f1)"
    "mQemuFwCfgSupported f1" "fw_written f1 = fw_written f" by (rule fw_find [OF sup pub])
  obtain st item sz where l: "lookup_entry dir ?n = (st, item, sz)" by (metis prod_cases3)
  show thesis
  proof (cases "st = EFI_SUCCESS \<and> sz = 6")
    case False
    then show thesis using f1 l by (intro that [of f1]) (auto simp: QemuFwCfgS3Enabled_def)
  next
    case True
    obtain f2 where f2: "QemuFwCfgReadBytes dev (QemuFwCfgSelectItem f1 item) 6 = (dev_bytes dev (item mod 2 ^ 16) 0 6, f2)"
      "mQemuFwCfgSupported f2" "fw_written f2 = fw_written f1" by (rule fw_read [OF f1(2)])
    have "item mod 2 ^ 16 = item" using lookup_small(1) [OF pub, of ?n item sz] l True by simp
    then show thesis using f1 f2 l True by (intro that [of f2]) (simp_all add: QemuFwCfgS3Enabled_def)
  qed
qed


definition s3_published :: "fw_dev \<Rightarrow> dir_entry list \<Rightarrow> bool" where
  "s3_published dev dir \<longleftrightarrow> (case lookup_entry dir (ascii ''etc/system-states'') of (st, item, sz) \<Rightarrow>
     st = EFI_SUCCESS \<and> sz = 6 \<and> dev_bytes dev item 0 6 ! 3 AND 0x80 \<noteq> 0)"

text \<open>The script the device publishes.\<close>

definition published_script :: "fw_dev \<Rightarrow> dir_entry list \<Rightarrow> QEMU_LOADER_ENTRY list" where
  "published_script dev dir = (case lookup_entry dir (ascii ''etc/table-loader'') of (st, item, sz) \<Rightarrow>
     if st = EFI_SUCCESS then loader_script (dev_bytes dev item 0 sz) else [])"

definition acpi_outcome ::
  "('g \<Rightarrow> nat set) \<Rightarrow> ('a \<Rightarrow> nat \<Rightarrow> byte list option) \<Rightarrow> ('p \<Rightarrow> nat \<Rightarrow> u64) \<Rightarrow> bool \<Rightarrow> ('g, 'a, 'p) acpi_world \<Rightarrow> EFI_STATUS \<Rightarrow> ('g, 'a, 'p) acpi_world \<Rightarrow> bool" where
  "acpi_outcome gv av pv s3 w st w' \<longleftrightarrow> (\<forall>x. x \<notin> gv (pages w) \<longrightarrow> mem w' x = mem w x) \<and> pv (pci w') = pv (pci w) \<and>
     (if st = EFI_SUCCESS then installed gv av s3 w w' else rolled_back gv av w w')"

lemma outcome_early:
  assumes "st \<noteq> EFI_SUCCESS" and "fw_written f = fw_written (fw w)" and "pv p = pv (pci w)"
  shows "acpi_outcome gv av pv s3 w st (w\<lparr>fw := f, pci := p\<rparr>)"
  using assms by (auto simp: acpi_outcome_def rolled_back_def intro: exI [of _ "[]"])

lemma outcome_run:
  assumes "run_outcome gv av s3 (acpi_world.extend (w\<lparr>fw := f, pci := p\<rparr>) ext) st s'"
    and "fw_written f = fw_written (fw w)" and "pv p = pv (pci w)"
  shows "acpi_outcome gv av pv s3 w st (acpi_world.truncate s')"
  using assms by (cases "st = EFI_SUCCESS") (simp_all add: acpi_outcome_def run_outcome_def rolled_back_def installed_def acpi_world.defs)

lemma install_outcome:
  assumes env: "acpi_env_ok E nv ov gv av" and pio: "pci_io_law (pci_ops E) pv" and pub: "publishes dev dir"
    and sup: "mQemuFwCfgSupported (fw w)" and ok: "script_ok (published_script dev dir)"
  shows "\<exists>st w'. InstallQemuFwCfgTables E dev w = Some (st, w') \<and> acpi_outcome gv av pv (s3_published dev dir) w st w'"
proof -
  let ?n = "ascii ''etc/table-loader''"
  obtain f1 where f1: "QemuFwCfgFindFile dev (fw w) ?n =
      Some (fst (lookup_entry dir ?n), fst (snd (lookup_entry dir ?n)), snd (snd (lookup_entry dir ?n)), f1)"
    "mQemuFwCfgSupported f1" "fw_written f1 = fw_written (fw w)" by (rule fw_find [OF sup pub])
  obtain st item sz where l: "lookup_entry dir ?n = (st, item, sz)" by (metis prod_cases3)
  note early = outcome_early [of _ _ w, where gv = gv and av = av and pv = pv and ?s3.0 = "s3_published dev dir"]
  let ?goal = "\<lambda>r. \<exists>st w'. r = Some (st, w') \<and> acpi_outcome gv av pv (s3_published dev dir) w st w'"
  have out: "?goal (Some (e, w\<lparr>fw := f, pci := p\<rparr>))" if "e \<noteq> EFI_SUCCESS" "fw_written f = fw_written (fw w)" "pv p = pv (pci w)" for e f p
    using early [OF that] by blast
  show ?thesis
  proof (cases "st = EFI_SUCCESS \<and> sz mod sizeof_QEMU_LOADER_ENTRY = 0 \<and> AllocatePool E LoaderPool")
    case False
    define e where "e = (if st \<noteq> EFI_SUCCESS then st else if sz mod sizeof_QEMU_LOADER_ENTRY \<noteq> 0 then EFI_PROTOCOL_ERROR else EFI_OUT_OF_RESOURCES)"
    have e: "e \<noteq> EFI_SUCCESS" by (simp add: e_def)
    have "InstallQemuFwCfgTables E dev w = Some (e, w\<lparr>fw := f1\<rparr>)"
      using f1(1) l False by (cases "st = EFI_SUCCESS"; cases "sz mod sizeof_QEMU_LOADER_ENTRY = 0") (simp_all add: InstallQemuFwCfgTables_def Let_def e_def)
    moreover have "w\<lparr>fw := f1\<rparr> = w\<lparr>fw := f1, pci := pci w\<rparr>" by simp
    ultimately show ?thesis using out [OF e f1(3) refl] by simp
  next
    case True
    obtain r p1 p2 where p: "EnablePciDecoding (pci_ops E) (pci w) = Some (r, p1)" "RestorePciDecoding (pci_ops E) r p1 = Some p2" "pv p2 = pv (pci w)"
      using pci_decoding_returns [OF pio] by blast
    obtain f2 where f2: "QemuFwCfgReadBytes dev (QemuFwCfgSelectItem f1 item) sz = (dev_bytes dev (item mod 2 ^ 16) 0 sz, f2)"
      "mQemuFwCfgSupported f2" "fw_written f2 = fw_written f1" by (rule fw_read [OF f1(2)])
    have im: "item mod 2 ^ 16 = item" using lookup_small(1) [OF pub, of ?n item sz] l True by simp
    define script where "script = loader_script (dev_bytes dev item 0 sz)"
    have ok': "script_ok script" using ok True l by (simp add: published_script_def script_def)
    obtain st2 R where c: "CollectAllocationsRestrictedTo32Bit E script = Some (st2, R)" "R = None \<longleftrightarrow> st2 \<noteq> EFI_SUCCESS"
      using collect_returns [OF env] by blast
    obtain f3 where f3: "QemuFwCfgS3Enabled dev f2 = Some (s3_published dev dir, f3)" "mQemuFwCfgSupported f3" "fw_written f3 = fw_written f2"
      unfolding s3_published_def by (rule s3_enabled [OF f2(2) pub])
    have run: "InstallQemuFwCfgTables E dev w = (case R of None \<Rightarrow> Some (st2, w\<lparr>fw := f2, pci := p2\<rparr>)
      | Some r \<Rightarrow> (case (if s3_published dev dir then AllocateS3Context E (length script) else (EFI_SUCCESS, None)) of
          (Status, ctx) \<Rightarrow> if Status \<noteq> EFI_SUCCESS then Some (Status, w\<lparr>fw := f2, pci := p2, fw := f3\<rparr>)
            else (case OrderedCollectionInit (name_ops E) of
                None \<Rightarrow> Some (EFI_OUT_OF_RESOURCES, w\<lparr>fw := f2, pci := p2, fw := f3\<rparr>)
              | Some t \<Rightarrow> map_option (map_prod (\<lambda>st. st) acpi_world.truncate)
                  (run_script E dev r script (acpi_world.extend (w\<lparr>fw := f2, pci := p2, fw := f3\<rparr>) (loader.fields [] t ctx))))))"
      unfolding script_def using True f1(1) l p f2(1) c(1) [unfolded script_def] f3(1) im
      by (cases R) (simp_all add: InstallQemuFwCfgTables_def Let_def)
    have wq: "w\<lparr>fw := f2, pci := p2, fw := f3\<rparr> = w\<lparr>fw := f3, pci := p2\<rparr>" by simp
    show ?thesis
    proof (cases R)
      case None
      then show ?thesis unfolding run wq using c(2) out [of st2 f2 p2] f2(3) f1(3) p(3) by simp
    next
      case (Some r)
      obtain st3 ctx where s3: "(if s3_published dev dir then AllocateS3Context E (length script) else (EFI_SUCCESS, None)) = (st3, ctx)" by fastforce
      show ?thesis
      proof (cases "st3 = EFI_SUCCESS \<and> OrderedCollectionInit (name_ops E) \<noteq> None")
        case False
        then show ?thesis unfolding run wq using Some s3 out [of _ f3 p2] f3(3) f2(3) f1(3) p(3) by auto
      next
        case ok3: True
        then obtain t where t: "OrderedCollectionInit (name_ops E) = Some t" by blast
        let ?s = "acpi_world.extend (w\<lparr>fw := f3, pci := p2\<rparr>) (loader.fields [] t ctx)"
        have ctx: "S3Context ?s \<noteq> None \<longleftrightarrow> s3_published dev dir" "\<forall>c. ctx = Some c \<longrightarrow> WritePointers c = []"
          using s3 ok3 by (auto simp: AllocateS3Context_def acpi_world.defs loader.defs split: if_splits)
        have "loader_start nv ?s"
          using f3(2) oc_keyedD(1) [OF acpi_envD(1) [OF env] t] ctx(2) by (simp add: loader_start_def acpi_world.defs loader.defs)
        from run_script_returns [OF env pub this ok', of r] obtain st4 s' where
          r: "run_script E dev r script ?s = Some (st4, s')" "run_outcome gv av (s3_published dev dir) ?s st4 s'"
          unfolding ctx(1) by blast
        have "acpi_outcome gv av pv (s3_published dev dir) w st4 (acpi_world.truncate s')"
          using outcome_run [OF r(2)] f3(3) f2(3) f1(3) p(3) by simp
        then show ?thesis unfolding run wq using Some s3 ok3 t r(1) by simp
      qed
    qed
  qed
qed

end
