(* ===== verification/AcpiLoaderDemo.thy ===== *)
theory AcpiLoaderDemo
  imports AcpiLoaderTop
begin

text \<open>
  An environment that keeps the contracts: association lists, an allocator of pages that logs what
  it hands out, tables filed by number, and a device with a script and one file.
\<close>

section \<open>Pages and tables\<close>

text \<open>The ranges handed out (true) and given back, latest first; the pool from 4 KiB to 64 KiB.\<close>

type_synonym page_log = "(bool \<times> nat \<times> nat) list"

fun log_free :: "page_log \<Rightarrow> nat set" where
  "log_free [] = {0x1000..<0x10000}"
| "log_free ((taken, a, n) # l) = (if taken then log_free l - {a..<a + n} else log_free l \<union> {a..<a + n})"

fun range_free :: "page_log \<Rightarrow> nat \<Rightarrow> nat \<Rightarrow> bool" where
  "range_free [] a e \<longleftrightarrow> 0x1000 \<le> a \<and> e \<le> 0x10000"
| "range_free ((taken, b, n) # l) a e \<longleftrightarrow>
     (if taken then range_free l a e \<and> (e \<le> b \<or> b + n \<le> a) else range_free l a e \<or> b \<le> a \<and> e \<le> b + n)"

lemma range_free_sound: "range_free l a e \<Longrightarrow> {a..<e} \<subseteq> log_free l"
  by (induction l a e rule: range_free.induct) (fastforce split: if_splits)+

definition demo_AllocatePages :: "page_log \<Rightarrow> nat \<Rightarrow> nat \<Rightarrow> (EFI_STATUS + nat) \<times> page_log" where
  "demo_AllocatePages l maxa n =
     (case List.find (\<lambda>a. range_free l a (a + n * 0x1000) \<and> a + n * 0x1000 \<le> 0xFFFFFFFF \<and> a + n * 0x1000 \<le> maxa + 1) [0x1000, 0x2000, 0x3000, 0x4000] of
        None \<Rightarrow> (Inl EFI_OUT_OF_RESOURCES, l)
      | Some a \<Rightarrow> (Inr a, (True, a, n * 0x1000) # l))"


definition filed :: "byte list list \<Rightarrow> nat \<Rightarrow> byte list option" where
  "filed ts k = (if k < length ts \<and> ts ! k \<noteq> [] then Some (ts ! k) else None)"

definition demo_InstallAcpiTable :: "byte list list \<Rightarrow> byte list \<Rightarrow> (EFI_STATUS + nat) \<times> byte list list" where
  "demo_InstallAcpiTable ts bs = (if bs = [] then (Inl EFI_INVALID_PARAMETER, ts) else (Inr (length ts), ts @ [bs]))"

definition demo_acpi_env :: "(page_log, byte list list, nat \<Rightarrow> u64, (byte list \<times> nat) list, (nat \<times> nat) list) acpi_env" where
  "demo_acpi_env = \<lparr>name_ops = assoc_collection, ptr_ops = assoc_collection, AllocatePool = (\<lambda>p. True),
     AllocatePages = demo_AllocatePages, FreePages = (\<lambda>l a n. (False, a, n * 0x1000) # l),
     InstallAcpiTable = demo_InstallAcpiTable, UninstallAcpiTable = (\<lambda>ts k. ts[k := []]),
     pci_ops = demo_pci_io, BootScriptEvent = EFI_SUCCESS, MAX_ADDRESS = 0xFFFFFFFF,
     CalculateSum8 = sum_list, CalculateCheckSum8 = (\<lambda>bs. - sum_list bs)\<rparr>"

lemma demo_acpi_env_ok: "acpi_env_ok demo_acpi_env assoc_view assoc_view log_free filed"
proof -
  have p: "EFI_PAGES_TO_SIZE n = n * 0x1000" for n by (simp add: EFI_PAGES_TO_SIZE_def EFI_PAGE_SIZE_def)
  have al: "case demo_AllocatePages l maxa n of
        (Inl st, g') \<Rightarrow> st \<noteq> EFI_SUCCESS \<and> log_free g' = log_free l
      | (Inr A, g') \<Rightarrow> A + n * 0x1000 \<le> 0xFFFFFFFF \<and> A + n * 0x1000 \<le> maxa + 1 \<and>
          {A..<A + n * 0x1000} \<subseteq> log_free l \<and> log_free g' = log_free l - {A..<A + n * 0x1000}" for l maxa n
    using range_free_sound [of l _ "_ + n * 0x1000"]
    by (auto simp: demo_AllocatePages_def find_Some_iff simp del: atLeastLessThan_iff split: option.split)
  have ins: "case demo_InstallAcpiTable ts bs of
        (Inl st, a') \<Rightarrow> st \<noteq> EFI_SUCCESS \<and> filed a' = filed ts
      | (Inr k, a') \<Rightarrow> filed ts k = None \<and> filed a' = (filed ts)(k \<mapsto> bs)" for ts bs
    by (auto simp: demo_InstallAcpiTable_def filed_def fun_eq_iff nth_append)
  have un: "filed (ts[k := []]) = (filed ts)(k := None)" for ts k
    by (auto simp: filed_def fun_eq_iff nth_list_update)
  show ?thesis unfolding acpi_env_ok_def demo_acpi_env_def acpi_env.simps p
    using al ins un by (simp add: assoc_collection_keyed)
qed


section \<open>Scripts as QEMU writes them\<close>

definition padded :: "nat \<Rightarrow> byte list \<Rightarrow> byte list" where
  "padded n bs = bs @ replicate (n - length bs) 0"

definition entry_bytes :: "QEMU_LOADER_ENTRY \<Rightarrow> byte list" where
  "entry_bytes e = padded 128 (case e of
     QemuLoaderCmdAllocate a \<Rightarrow> le_bytes 4 1 @ al_File a @ le_bytes 4 (Alignment a) @ le_bytes 1 (Zone a)
   | QemuLoaderCmdAddPointer p \<Rightarrow> le_bytes 4 2 @ PointerFile p @ PointeeFile p @ le_bytes 4 (PointerOffset p) @ le_bytes 1 (PointerSize p)
   | QemuLoaderCmdAddChecksum c \<Rightarrow> le_bytes 4 3 @ ck_File c @ le_bytes 4 (ResultOffset c) @ le_bytes 4 (ck_Start c) @ le_bytes 4 (ck_Length c)
   | QemuLoaderCmdWritePointer w \<Rightarrow> le_bytes 4 4 @ wp_PointerFile w @ wp_PointeeFile w @ le_bytes 4 (wp_PointerOffset w) @
       le_bytes 4 (PointeeOffset w) @ le_bytes 1 (wp_PointerSize w)
   | UnknownCommand ty \<Rightarrow> le_bytes 4 ty)"

fun entry_fits :: "QEMU_LOADER_ENTRY \<Rightarrow> bool" where
  "entry_fits (QemuLoaderCmdAllocate a) \<longleftrightarrow> length (al_File a) = 56 \<and> Alignment a < 2 ^ 32 \<and> Zone a < 2 ^ 8"
| "entry_fits (QemuLoaderCmdAddPointer p) \<longleftrightarrow> length (PointerFile p) = 56 \<and> length (PointeeFile p) = 56 \<and>
     PointerOffset p < 2 ^ 32 \<and> PointerSize p < 2 ^ 8"
| "entry_fits (QemuLoaderCmdAddChecksum c) \<longleftrightarrow> length (ck_File c) = 56 \<and> ResultOffset c < 2 ^ 32 \<and> ck_Start c < 2 ^ 32 \<and> ck_Length c < 2 ^ 32"
| "entry_fits (QemuLoaderCmdWritePointer w) \<longleftrightarrow> length (wp_PointerFile w) = 56 \<and> length (wp_PointeeFile w) = 56 \<and>
     wp_PointerOffset w < 2 ^ 32 \<and> PointeeOffset w < 2 ^ 32 \<and> wp_PointerSize w < 2 ^ 8"
| "entry_fits (UnknownCommand ty) \<longleftrightarrow> 4 < ty \<and> ty < 2 ^ 32"

text \<open>Reading a field off the front of what is left.\<close>

lemma le_at_skip: "length a \<le> off \<Longrightarrow> le_at (a @ b) off n = le_at b (off - length a) n"
  by (simp add: le_at_def)

lemma le_at_here: "v < 256 ^ n \<Longrightarrow> le_at (le_bytes n v @ b) 0 n = v"
  by (simp add: le_at_def le_value_le_bytes)

lemma name_at_skip: "length a \<le> off \<Longrightarrow> name_at (a @ b) off = name_at b (off - length a)"
  by (simp add: name_at_def)

lemma name_at_here: "length a = 56 \<Longrightarrow> name_at (a @ b) 0 = a"
  by (simp add: name_at_def QEMU_LOADER_FNAME_SIZE_def QEMU_FW_CFG_FNAME_SIZE_def)

lemma byte_at_here: "v < 256 \<Longrightarrow> le_at (word_of_nat v # b) 0 (Suc 0) = v"
  by (simp add: le_at_def unat_of_nat)

lemmas field_at = le_at_skip le_at_here name_at_skip name_at_here byte_at_here

lemma loader_entry_bytes: "entry_fits e \<Longrightarrow> loader_entry (entry_bytes e) = e"
  by (cases e) (simp_all add: loader_entry_def entry_bytes_def padded_def field_at Let_def)


lemma entry_bytes_length: "entry_fits e \<Longrightarrow> length (entry_bytes e) = 128"
  by (cases e) (simp_all add: entry_bytes_def padded_def)

lemma loader_script_Cons:
  assumes "length e = 128"
  shows "loader_script (e @ bs) = loader_entry e # loader_script bs"
proof -
  have "(128 + length bs) div 128 = Suc (length bs div 128)" using div_add_self1 [of 128 "length bs"] by simp
  then have "loader_script (e @ bs) = map (\<lambda>i. loader_entry (take 128 (drop (128 * i) (e @ bs)))) [0..<Suc (length bs div 128)]"
    using assms by (simp add: loader_script_def sizeof_QEMU_LOADER_ENTRY_def del: upt_Suc drop_append take_append)
  also have "[0..<Suc n] = 0 # map Suc [0..<n]" for n by (simp add: upt_conv_Cons map_Suc_upt del: upt_Suc)
  finally show ?thesis using assms by (simp add: loader_script_def sizeof_QEMU_LOADER_ENTRY_def o_def del: upt_Suc)
qed

lemma loader_script_bytes: "\<forall>e \<in> set es. entry_fits e \<Longrightarrow> loader_script (concat (map entry_bytes es)) = es"
proof (induction es)
  case Nil
  show ?case by (simp add: loader_script_def)
next
  case (Cons e es)
  then show ?case by (simp add: loader_script_Cons entry_bytes_length loader_entry_bytes)
qed

section \<open>A device\<close>

definition files_dev :: "dir_entry list \<Rightarrow> (nat \<times> byte list) list \<Rightarrow> fw_dev" where
  "files_dev dir files item off =
     (let m = (if item = QemuFwCfgItemFileDir then dir_image dir else case map_of files item of Some bs \<Rightarrow> bs | None \<Rightarrow> [])
      in if off < length m then m ! off else 0)"

lemma files_dev_holds:
  assumes "map_of files item = Some bs" and "item \<noteq> QemuFwCfgItemFileDir" and "n = length bs"
  shows "dev_bytes (files_dev dir files) item 0 n = bs"
  using dev_holdsI [of bs "files_dev dir files" item] assms by (simp add: dev_holds_def files_dev_def)

lemma files_dev_publishes:
  assumes "length dir < 2 ^ 32" and "\<forall>e \<in> set dir. entry_ok e"
  shows "publishes (files_dev dir files) dir"
  using assms dev_holdsI [of "dir_image dir" "files_dev dir files" QemuFwCfgItemFileDir] by (simp add: publishes_def files_dev_def)

definition demo_name :: "byte list \<Rightarrow> byte list" where
  "demo_name bs = padded 56 bs"

text \<open>
  A file of 64 bytes: a pointer at 0 that leads to 16, a table at 16 of 40 bytes.
\<close>

definition demo_blob :: "byte list" where
  "demo_blob = le_bytes 8 16 @ replicate 8 0 @ padded 48 (ascii ''TEST'' @ le_bytes 4 40)"

definition demo_script :: "QEMU_LOADER_ENTRY list" where
  "demo_script = [QemuLoaderCmdAllocate \<lparr>al_File = demo_name (ascii ''t''), Alignment = 16, Zone = 1\<rparr>,
     QemuLoaderCmdAddPointer \<lparr>PointerFile = demo_name (ascii ''t''), PointeeFile = demo_name (ascii ''t''), PointerOffset = 0, PointerSize = 8\<rparr>,
     QemuLoaderCmdAddChecksum \<lparr>ck_File = demo_name (ascii ''t''), ResultOffset = 25, ck_Start = 16, ck_Length = 40\<rparr>,
     QemuLoaderCmdWritePointer \<lparr>wp_PointerFile = demo_name (ascii ''p''), wp_PointeeFile = demo_name (ascii ''t''), wp_PointerOffset = 0,
       PointeeOffset = 8, wp_PointerSize = 8\<rparr>]"

definition acpi_dir :: "QEMU_LOADER_ENTRY list \<Rightarrow> dir_entry list" where
  "acpi_dir es = [(ascii ''etc/table-loader'', 128 * length es, 0x20), (ascii ''t'', 64, 0x21), (ascii ''p'', 8, 0x22), (ascii ''etc/system-states'', 6, 0x23)]"

definition acpi_dev :: "QEMU_LOADER_ENTRY list \<Rightarrow> fw_dev" where
  "acpi_dev es = files_dev (acpi_dir es) [(0x20, concat (map entry_bytes es)), (0x21, demo_blob), (0x22, replicate 8 0),
     (0x23, [0, 0, 0, 0x80, 0, 0])]"

lemma acpi_publishes: "length es < 100 \<Longrightarrow> publishes (acpi_dev es) (acpi_dir es)"
  unfolding acpi_dev_def by (rule files_dev_publishes) (auto simp: acpi_dir_def ascii_def QEMU_FW_CFG_FNAME_SIZE_def)

lemma acpi_script:
  assumes "\<forall>e \<in> set es. entry_fits e"
  shows "published_script (acpi_dev es) (acpi_dir es) = es"
proof -
  have "length (concat (map entry_bytes es)) = 128 * length es" using assms
    by (induction es) (simp_all add: entry_bytes_length)
  then have "dev_bytes (acpi_dev es) 0x20 0 (128 * length es) = concat (map entry_bytes es)"
    unfolding acpi_dev_def by (intro files_dev_holds) (simp_all add: QemuFwCfgItemFileDir_def)
  moreover have "lookup_entry (acpi_dir es) (ascii ''etc/table-loader'') = (EFI_SUCCESS, 0x20, 128 * length es)"
    by (simp add: lookup_entry_def acpi_dir_def)
  ultimately show ?thesis using loader_script_bytes [OF assms] by (simp add: published_script_def)
qed

lemma demo_script_fits: "\<forall>e \<in> set demo_script. entry_fits e"
  by (simp add: demo_script_def demo_name_def padded_def ascii_def)

lemma demo_script_ok: "script_ok demo_script"
  by (simp add: script_ok_def demo_script_def)

definition demo_world :: "(page_log, byte list list, nat \<Rightarrow> u64) acpi_world" where
  "demo_world = \<lparr>mem = \<lambda>x. 0, fw = demo_fw, pages = [], acpi = [], pci = \<lambda>i. 0x4, boot_script = []\<rparr>"

end
