(* ===== verification/AcpiLoaderProps.thy ===== *)
theory AcpiLoaderProps
  imports AcpiLoaderDemo
begin

text \<open>
  The properties of the ACPI driver, each applied to the environment of the demonstration.
\<close>

section \<open>Summing up\<close>

lemma sum_list_update:
  fixes f :: "nat \<Rightarrow> byte"
  assumes "distinct xs" and "a \<in> set xs"
  shows "sum_list (map (f(a := v)) xs) = sum_list (map f xs) - f a + v"
  using assms
proof (induction xs)
  case (Cons x xs)
  show ?case
  proof (cases "x = a")
    case True
    then have "sum_list (map (f(a := v)) xs) = sum_list (map f xs)" using Cons.prems by (intro arg_cong [of _ _ sum_list]) auto
    then show ?thesis using True by (simp del: fun_upd_apply) simp
  qed (use Cons in \<open>auto simp: algebra_simps\<close>)
qed simp

lemma sum_bytes_put:
  assumes "a \<le> x" and "x < a + n"
  shows "sum_list (mem_bytes (put_bytes m x [v]) a n) = sum_list (mem_bytes m a n) - m x + v"
proof -
  have put: "put_bytes m x [v] = m(x := v)" by (rule ext) (auto simp: put_bytes_def)
  have bytes: "mem_bytes g a n = map g [a..<a + n]" for g by (rule nth_equalityI) simp_all
  show ?thesis unfolding put bytes using assms by (intro sum_list_update) auto
qed

section \<open>A state\<close>

definition demo_loader :: "byte list \<Rightarrow> (page_log, byte list list, nat \<Rightarrow> u64, (byte list \<times> nat) list) loader" where
  "demo_loader bs = \<lparr>mem = put_bytes (\<lambda>x. 0) 0x1000 bs, fw = demo_fw, pages = [(True, 0x1000, 0x1000)], acpi = [], pci = \<lambda>i. 0x4, boot_script = [],
     blobs = [\<lparr>blob_File = demo_name (ascii ''t''), blob_Size = 64, blob_Base = 0x1000, HostsOnlyTableData = True\<rparr>],
     Tracker = [(ascii ''t'', 0)], S3Context = None\<rparr>"

lemma demo_name_t: "c_string (demo_name (ascii ''t'')) = ascii ''t''"
  by (simp add: c_string_def demo_name_def padded_def ascii_def)

lemma demo_loader_inv:
  assumes "length bs = 64"
  shows "loader_inv demo_acpi_env assoc_view log_free R {0x1000..<0x10000} (\<lambda>x. 0) (demo_loader bs)"
proof -
  have "EFI_PAGES_TO_SIZE (EFI_SIZE_TO_PAGES 64) = 0x1000" by (simp add: EFI_PAGES_TO_SIZE_def EFI_SIZE_TO_PAGES_def EFI_PAGE_SIZE_def)
  then show ?thesis using assms
    by (auto simp: loader_inv_def demo_loader_def demo_fw_def assoc_view_def blobs_placed_def rooms_def blob_room_def
        demo_acpi_env_def demo_name_t put_bytes_def)
qed

lemma demo_find: "OrderedCollectionFind (name_ops demo_acpi_env) (Tracker (demo_loader bs)) (ascii ''t'') = Some 0"
  by (simp add: demo_acpi_env_def demo_loader_def assoc_collection_def)

lemma put_bytes_read: "off + n \<le> length bs \<Longrightarrow> mem_bytes (put_bytes m a bs) (a + off) n = take n (drop off bs)"
  by (rule nth_equalityI) (auto simp: put_bytes_def)

lemma demo_blob_length: "length demo_blob = 64"
  by (simp add: demo_blob_def padded_def ascii_def)

lemma demo_start_pointer: "le_value (mem_bytes (mem (demo_loader demo_blob)) 0x1000 8) = 16"
  using put_bytes_read [of 0 8 demo_blob "\<lambda>x. 0" "0x1000"] demo_blob_length
  by (simp add: demo_loader_def demo_blob_def le_value_le_bytes)

lemma demo_name_ok: "\<not> malformed (demo_name (ascii ''t''))"
  by (simp add: malformed_def demo_name_def padded_def ascii_def QEMU_LOADER_FNAME_SIZE_def QEMU_FW_CFG_FNAME_SIZE_def nth_append)

lemma demo_blobs: "blobs (demo_loader bs) ! 0 = \<lparr>blob_File = demo_name (ascii ''t''), blob_Size = 64, blob_Base = 0x1000, HostsOnlyTableData = True\<rparr>"
  by (simp add: demo_loader_def)

lemma demo_blobs_length: "length (blobs (demo_loader bs)) = 1"
  by (simp add: demo_loader_def)

lemma demo_MAX: "MAX_ADDRESS demo_acpi_env = 0xFFFFFFFF"
  by (simp add: demo_acpi_env_def)

definition demo_pointer :: QEMU_LOADER_ADD_POINTER where
  "demo_pointer = \<lparr>PointerFile = demo_name (ascii ''t''), PointeeFile = demo_name (ascii ''t''), PointerOffset = 0, PointerSize = 8\<rparr>"

section \<open>Commands\<close>

text \<open>
  C14: The command to add a pointer either reports a protocol error and changes nothing, or relocates
  the number in the pointer field: it was an offset within the second blob and becomes the
  address at that offset. The field lies in the first blob, and no other byte and nothing else changes.
\<close>

theorem acpi_add_pointer:
  assumes env: "acpi_env_ok E nv ov gv av" and inv: "loader_inv E nv gv R F m0 s"
  shows "\<exists>st s'. ProcessCmdAddPointer E p s = Some (st, s') \<and>
    (if st = EFI_SUCCESS
     then \<exists>b b2. b < length (blobs s) \<and> c_string (blob_File (blobs s ! b)) = c_string (PointerFile p) \<and>
       b2 < length (blobs s) \<and> c_string (blob_File (blobs s ! b2)) = c_string (PointeeFile p) \<and>
       PointerOffset p + PointerSize p \<le> blob_Size (blobs s ! b) \<and>
       (let field = blob_Base (blobs s ! b) + PointerOffset p; v = le_value (mem_bytes (mem s) field (PointerSize p))
        in v < blob_Size (blobs s ! b2) \<and>
           le_value (mem_bytes (mem s') field (PointerSize p)) = blob_Base (blobs s ! b2) + v \<and>
           (\<forall>x. x \<notin> {field..<field + PointerSize p} \<longrightarrow> mem s' x = mem s x)) \<and>
       s' = s\<lparr>mem := mem s'\<rparr> \<and> loader_inv E nv gv R F m0 s'
     else st = EFI_PROTOCOL_ERROR \<and> s' = s)"
proof -
  obtain st s' where r: "ProcessCmdAddPointer E p s = Some (st, s')"
    "if st = EFI_SUCCESS then \<exists>b b2. relocates s p b b2 s' else st = EFI_PROTOCOL_ERROR \<and> s' = s"
    using add_pointer_step [OF env inv] by blast
  show ?thesis
  proof (cases "st = EFI_SUCCESS")
    case False
    then show ?thesis using r by simp
  next
    case True
    with r(2) obtain b b2 where rl: "relocates s p b b2 s'" by auto
    let ?f = "blob_Base (blobs s ! b) + PointerOffset p"
    let ?v = "le_value (mem_bytes (mem s) ?f (PointerSize p))"
    have d: "\<not> pointer_misplaced (blob_Size (blobs s ! b)) (PointerSize p) (PointerOffset p)" "blob_Base (blobs s ! b2) + ?v < 256 ^ PointerSize p"
      and s': "s' = s\<lparr>mem := put_bytes (mem s) ?f (le_bytes (PointerSize p) (blob_Base (blobs s ! b2) + ?v))\<rparr>"
      using rl by (simp_all add: relocates_def Let_def)
    have "mem_bytes (mem s') ?f (PointerSize p) = le_bytes (PointerSize p) (blob_Base (blobs s ! b2) + ?v)"
      using put_bytes_same [of "mem s" ?f "le_bytes (PointerSize p) (blob_Base (blobs s ! b2) + ?v)"] s' by simp
    then have val: "le_value (mem_bytes (mem s') ?f (PointerSize p)) = blob_Base (blobs s ! b2) + ?v" using d(2) by (simp add: le_value_le_bytes)
    have out: "mem s' x = mem s x" if "x \<notin> {?f..<?f + PointerSize p}" for x
      using that s' by (auto simp: put_bytes_def)
    have "s' = s\<lparr>mem := mem s'\<rparr>" using s' by simp
    then show ?thesis using r(1) True rl val out placed_field [OF d(1)] relocates_post(1) [OF env inv rl]
      by (intro exI [of _ st] exI [of _ s']) (auto simp: relocates_def Let_def)
  qed
qed

theorem acpi_add_pointer_witness:
  "\<exists>s'. ProcessCmdAddPointer demo_acpi_env demo_pointer (demo_loader demo_blob) = Some (EFI_SUCCESS, s') \<and>
    le_value (mem_bytes (mem s') 0x1000 8) = 0x1010"
proof -
  let ?s = "demo_loader demo_blob"
  have sel: "PointerOffset demo_pointer = 0" "PointerSize demo_pointer = 8" by (simp_all add: demo_pointer_def)
  obtain st s' where r: "ProcessCmdAddPointer demo_acpi_env demo_pointer ?s = Some (st, s')" "st = EFI_SUCCESS \<longrightarrow>
      (\<exists>b b2. b < 1 \<and> b2 < 1 \<and> le_value (mem_bytes (mem s') (blob_Base (blobs ?s ! b) + 0) 8) =
        blob_Base (blobs ?s ! b2) + le_value (mem_bytes (mem ?s) (blob_Base (blobs ?s ! b) + 0) 8))"
    using acpi_add_pointer [OF demo_acpi_env_ok demo_loader_inv [OF demo_blob_length, of "[]"], of demo_pointer]
    unfolding sel Let_def demo_blobs_length if_bool_eq_conj by blast
  have "st = EFI_SUCCESS" using r(1) by (simp add: ProcessCmdAddPointer_def demo_pointer_def demo_find demo_name_t demo_name_ok demo_start_pointer
      Let_def pointer_misplaced_def unrepresentable_def demo_blobs demo_MAX)
  then show ?thesis using r demo_start_pointer by (auto simp: demo_blobs)
qed



text \<open>The checksum byte of the table in the file.\<close>

definition demo_checksum :: QEMU_LOADER_ADD_CHECKSUM where
  "demo_checksum = \<lparr>ck_File = demo_name (ascii ''t''), ResultOffset = 25, ck_Start = 16, ck_Length = 40\<rparr>"


section \<open>Narrow pointers\<close>



definition narrow_pointer :: QEMU_LOADER_ADD_POINTER where
  "narrow_pointer = demo_pointer\<lparr>PointerSize := 4\<rparr>"


section \<open>Tables\<close>

text \<open>What is found at the targets is a table by the rules, and never a root table.\<close>

lemma tables_at_proper:
  assumes "t \<in> set (tables_at m seen ts)"
  shows "take 4 t = FACS_SIGNATURE \<and> 64 \<le> length t \<or>
    36 \<le> length t \<and> sum_list t = 0 \<and> take 4 t \<noteq> RSDT_SIGNATURE \<and> take 4 t \<noteq> XSDT_SIGNATURE"
  using assms
proof (induction m seen ts rule: tables_at.induct)
  case (2 m seen v r ts)
  have sig: "take 4 (mem_bytes m v n) = table_Signature m v" if "4 \<le> n" for n
    using that by (simp add: table_Signature_def mem_bytes_def take_map take_upt)
  show ?case
  proof (cases "t \<in> set (if v \<in> seen then tables_at m seen ts else tables_at m (insert v seen) ts)")
    case True
    then show ?thesis using 2 by (auto split: if_splits)
  next
    case False
    then obtain n where n: "identify_table sum_list m v r = Table n" "t = mem_bytes m v n"
      using "2.prems" by (cases "identify_table sum_list m v r") (auto split: if_splits)
    then show ?thesis using sig [of n]
      by (auto simp: identify_table_def sizeof_FACS_def sizeof_DESCRIPTION_HEADER_def split: if_splits)
  qed
qed simp

text \<open>
  C13: When all pointers of the script are relocated, the second pass returns. If it
  succeeds, exactly the tables at the targets of the pointers were installed, in the order of the script and
  each target once, at most 128 of them, each with a right checksum or an FACS and none a root
  table. If it fails, the tables installed so far are known by their keys. Memory is not changed.
\<close>

theorem acpi_tables_installed:
  assumes env: "acpi_env_ok E nv ov gv av" and inv: "loader_inv E nv gv R F m0 s"
    and rel: "\<forall>p. QemuLoaderCmdAddPointer p \<in> set script \<longrightarrow> relocated E s p"
    and seen: "OrderedCollectionInit (ptr_ops E) = Some seen"
  shows "\<exists>st keys s' tables. second_pass E script [] seen s = Some (st, keys, s') \<and>
    length keys \<le> INSTALLED_TABLES_MAX \<and> installs (av (acpi s)) keys tables (av (acpi s')) \<and> mem s' = mem s \<and>
    (st = EFI_SUCCESS \<longrightarrow> tables = tables_at (mem s) {} (map (pointer_target E s) (add_pointers script)) \<and>
      (\<forall>t \<in> set tables. take 4 t = FACS_SIGNATURE \<and> 64 \<le> length t \<or>
        36 \<le> length t \<and> sum_list t = 0 \<and> take 4 t \<noteq> RSDT_SIGNATURE \<and> take 4 t \<noteq> XSDT_SIGNATURE))"
proof -
  have e: "oc_inv ov seen" "oc_list ov seen = []" using oc_keyedD(1) [OF acpi_envD(2) [OF env] seen] by simp_all
  obtain st keys s' tables where r: "second_pass E script [] seen s = Some (st, keys, s')" "same_objects s s'"
    "length keys \<le> INSTALLED_TABLES_MAX" "installs (av (acpi s)) keys tables (av (acpi s'))"
    "st = EFI_SUCCESS \<longrightarrow> tables = tables_at (mem s) {} (map (pointer_target E s) (add_pointers script))"
    using second_pass_returns [OF env inv rel e(1), of "[]" "av (acpi s)" "[]"] e(2) by auto
  then show ?thesis using same_objects_sel(2) [OF r(2)] tables_at_proper
    by (intro exI [of _ st] exI [of _ keys] exI [of _ s'] exI [of _ tables]) blast
qed

text \<open>A pointer that leads to a table with its checksum in place.\<close>

definition table_blob :: "byte list" where
  "table_blob = le_bytes 8 0x1010 @ replicate 8 0 @ padded 48 (ascii ''TEST'' @ le_bytes 4 40 @ [0, 0x98])"

lemma table_blob_length: "length table_blob = 64"
  by (simp add: table_blob_def padded_def ascii_def)

lemma table_blob_pointer: "le_value (mem_bytes (mem (demo_loader table_blob)) 0x1000 8) = 0x1010"
  using put_bytes_read [of 0 8 table_blob "\<lambda>x. 0" "0x1000"] table_blob_length
  by (simp add: demo_loader_def table_blob_def le_value_le_bytes)

definition filed_none :: "nat \<Rightarrow> byte list option" where
  "filed_none = (\<lambda>k. None)"

theorem acpi_tables_installed_witness:
  "\<exists>st keys s' tables. second_pass demo_acpi_env [QemuLoaderCmdAddPointer demo_pointer] [] [] (demo_loader table_blob) = Some (st, keys, s') \<and>
    installs filed_none keys tables (filed (acpi s')) \<and> (st = EFI_SUCCESS \<longrightarrow> tables = tables_at (mem (demo_loader table_blob)) {} [(0x1010, 48)])"
proof -
  let ?s = "demo_loader table_blob"
  have rel: "\<forall>p. QemuLoaderCmdAddPointer p \<in> set [QemuLoaderCmdAddPointer demo_pointer] \<longrightarrow> relocated demo_acpi_env ?s p"
    by (auto simp: relocated_def demo_pointer_def demo_name_t demo_find demo_blobs pointer_misplaced_def table_blob_pointer)
  have tgt: "pointer_target demo_acpi_env ?s demo_pointer = (0x1010, 48)"
    by (simp add: pointer_target_def demo_pointer_def demo_name_t demo_find demo_blobs table_blob_pointer)
  have init: "OrderedCollectionInit (ptr_ops demo_acpi_env) = Some []" by (simp add: demo_acpi_env_def assoc_collection_def)
  have "filed (acpi ?s) = filed_none" by (simp add: demo_loader_def filed_def filed_none_def fun_eq_iff)
  then show ?thesis
    using acpi_tables_installed [OF demo_acpi_env_ok demo_loader_inv [OF table_blob_length] rel init] tgt by auto
qed


section \<open>A script out of order\<close>

lemma put_bytes_front:
  assumes "length cs \<le> length bs"
  shows "put_bytes (put_bytes m a bs) a cs = put_bytes m a (cs @ drop (length cs) bs)"
  using assms by (auto simp: put_bytes_def fun_eq_iff nth_append)

definition spoiling_script :: "QEMU_LOADER_ENTRY list" where
  "spoiling_script = [QemuLoaderCmdAddPointer demo_pointer,
     QemuLoaderCmdAddChecksum \<lparr>ck_File = demo_name (ascii ''t''), ResultOffset = 0, ck_Start = 16, ck_Length = 40\<rparr>]"

lemma le_bytes_1010: "le_bytes 8 0x1010 = [0x10, 0x10, 0, 0, 0, 0, 0, 0]"
  by code_simp

lemma demo_table_sum: "sum_list (take 40 (drop 16 demo_blob)) = 0x68"
  by code_simp


section \<open>The boot script\<close>

text \<open>What the device sees when the opcodes are run on resume.\<close>

fun replay_opcode :: "S3_OPCODE \<Rightarrow> fw_cfg \<Rightarrow> fw_cfg" where
  "replay_opcode (S3SkipBytes item off) f = f\<lparr>fw_item := item, fw_offset := off\<rparr>"
| "replay_opcode (S3WriteBytes v n) f =
     f\<lparr>fw_offset := fw_offset f + n, fw_written := fw_written f @ [(fw_item f, fw_offset f, le_bytes n v)]\<rparr>"

definition tell :: "fw_dev \<Rightarrow> CONDENSED_WRITE_POINTER \<Rightarrow> fw_cfg \<Rightarrow> fw_cfg" where
  "tell dev c = fw_write_value dev (cw_PointerItem c) (cw_PointerOffset c) (cw_PointerSize c) (cw_PointerValue c)"



section \<open>The driver\<close>



end
