(* ===== verification/Spec2Isabelle.thy ===== *)
theory Spec2Isabelle
  imports HfsLookup EmuFvbProps FlashFvbInit PciCapProps LockBoxProps FwCfgProps NvVarsFile VirtioFsClaims AcpiLoaderProps
begin

text \<open>
  A verification of parts of OvmfDarwinPkg, the UEFI firmware for virtual machines that boots
  macOS.

  \<^bold>\<open>The program.\<close> The package is an OVMF platform with drivers of its own. What is its own logic,
  above hardware and above the UEFI libraries it is linked with, falls into these parts.

  \<^item> The HFS+ file system driver under \<^verbatim>\<open>OpenHfsPlus\<close>. A core (\<^verbatim>\<open>fsw_core.c\<close>) keeps a block
    cache, reference-counted dnodes and data handles; a string library (\<^verbatim>\<open>fsw_lib.c\<close>,
    \<^verbatim>\<open>fsw_strfunc.h\<close>) compares and converts names in four encodings; and the file system proper
    (\<^verbatim>\<open>fsw_hfsplus.c\<close>) reads the volume header, the B-trees and the forks. The core calls
    the file system through a table of functions, the file system calls back for blocks
    and dnodes, and both call a host for device blocks and memory.
  \<^item> The emulated variable store (\<^verbatim>\<open>EmuVariableFvbRuntimeDxe\<close>): a firmware volume in memory that the
    variable driver reads, writes and erases in blocks.
  \<^item> The flash variable store (\<^verbatim>\<open>QemuFlashFvbServicesRuntimeDxe\<close>): the same protocol over the flash
    chip that QEMU emulates, driven by command bytes.
  \<^item> Lock boxes (\<^verbatim>\<open>Library/LockBoxLib\<close>): copies of buffers that survive a suspend and are
    restored on resume.
  \<^item> The firmware configuration interface (\<^verbatim>\<open>Library/QemuFwCfgLib\<close>,
    \<^verbatim>\<open>Library/QemuFwCfgSimpleParserLib\<close>): files that QEMU hands to the firmware, found by name and
    parsed as numbers and booleans.
  \<^item> The serialisation of variables (\<^verbatim>\<open>Library/SerializeVariablesLib\<close>): variables packed into one buffer
    and set again from it; and on top of it the non-volatile variables kept in a file
    (\<^verbatim>\<open>Library/NvVarsFileLib\<close>), for machines whose flash is not writable.
  \<^item> The library for PCI capabilities (\<^verbatim>\<open>Library/BasePciCapLib\<close>): the two linked lists of
    capabilities in the configuration space of a device, parsed into a searchable list.
  \<^item> The ACPI tables of QEMU (\<^verbatim>\<open>AcpiPlatformDxe\<close>): a script found in the firmware configuration
    allocates files in memory, patches pointers and checksums in them and tells addresses to QEMU; then the
    tables among them are installed. It uses the firmware configuration, ordered collections and PCI devices.
  \<^item> The virtio file system driver (\<^verbatim>\<open>VirtioFsDxe\<close>): it offers a directory of the host as a file system. Every
    call becomes a few FUSE commands, which go to the device as lists of buffers; for every open file the
    driver keeps a canonical path, a position and, for a directory, a cache of entries.

  \<^bold>\<open>Common ground.\<close> \<^verbatim>\<open>Prelude\<close> holds the result type of fallible operations (a value, an
  error status, a memory fault, or out of fuel), operations that thread a state, arithmetic
  modulo powers of two on naturals, byte lists with bounds-checked loads and stores, and the linear
  search. \<^verbatim>\<open>EfiTypes\<close> adds the status codes of UEFI and little-endian fields for
  the firmware modules; \<^verbatim>\<open>PhysMem\<close> is flat memory, \<^verbatim>\<open>OrderedCollections\<close> the contract of the base
  library's collections with two implementations. Undefined behaviour in C (an access outside an object, a null
  dereference, a failed assertion) is a result of its own everywhere, \<open>Fault\<close> in the file
  system and \<open>None\<close> in the firmware modules, so that a theorem giving a value
  also shows its absence.

  \<^bold>\<open>HFS+.\<close> The theories follow the source.

  \<^item> \<^verbatim>\<open>FswTypes\<close>: the records of \<^verbatim>\<open>fsw_core.h\<close>. The host is a record of functions, a parameter.
    Dnodes live in an explicit store from addresses to dnodes, since they are shared and linked.
  \<^item> \<^verbatim>\<open>FswBlockCache\<close>: the block cache. A block handed out holds what the device holds, entries in use
    are never evicted, and the table stays within sixteen entries when no block is held.
  \<^item> \<^verbatim>\<open>FswShandle\<close>, \<^verbatim>\<open>HfsExtents\<close>: data handles and the extents of a fork. A read delivers the
    bytes of the fork, or an error of the host. Positions are kept in 32 bits as in the source,
    and what happens past 4 GiB is stated.
  \<^item> \<^verbatim>\<open>FswByteOrder\<close>, \<^verbatim>\<open>HfsKeys\<close>, \<^verbatim>\<open>HfsBTree\<close>: big-endian loads, catalog keys and their order, the
    binary search in a node and the descent from the root. \<^verbatim>\<open>HfsCatalog\<close> states what a well-formed
    catalog is and shows that the search decides membership in its leaves;
    \<^verbatim>\<open>HfsDirWalk\<close> shows that reading a directory enumerates its records.
  \<^item> \<^verbatim>\<open>FswStrings\<close>: the string library, against the characters a string denotes.
  \<^item> \<^verbatim>\<open>FswDnode\<close>, \<^verbatim>\<open>FswDnodeInv\<close>: dnodes, paths and links; the invariant of the doubly linked list,
    of the reference counts and of the uniqueness of ids.
  \<^item> \<^verbatim>\<open>HfsVolume\<close>: mounting, dnodes from catalog records, directories, links and blessed items.
  \<^item> \<^verbatim>\<open>HfsProperties\<close>, \<^verbatim>\<open>HfsLookup\<close>: the properties, with a small volume on which each is applied.
    The second holds the ones that span catalog, dnodes and cache: looking up a name,
    mounting and unmounting.

  Loops whose length depends on the device run on fuel. The theorems give
  fuel enough for every input they speak of (the depth of the tree, the length of the read,
  the number of dnodes) and conclude that the operation returns.

  \<^bold>\<open>Emulated variable store.\<close> \<^verbatim>\<open>EmuFvb\<close> models the driver and its platform hook. The locale
  \<^verbatim>\<open>block_store\<close> states what users of a block device rely on, and the driver is shown to be
  one. \<^verbatim>\<open>EmuFvbProps\<close>: writes are read back and touch nothing else, erase requests
  are checked before anything is erased, a fresh volume header validates, and
  after start-up the store holds a valid volume.

  \<^bold>\<open>Flash variable store.\<close> \<^verbatim>\<open>FlashFvb\<close> models the command sequences of the flash and the block services
  above them; the chip is a parameter whose reactions to the commands are a hypothesis.
  \<^verbatim>\<open>FlashFvbProps\<close>: a write to erased flash is read back, erase requests are checked first,
  attributes change within the capabilities of the volume only, and addresses follow the block
  map. \<^verbatim>\<open>FlashFvbInit\<close>: the initial volume, and probing for the chip where there is none.

  \<^bold>\<open>Lock boxes.\<close> \<^verbatim>\<open>LockBox\<close> models the library over one flat memory, with the sub-page allocator of
  the DXE instance. \<^verbatim>\<open>LockBoxInv\<close> has the invariant (used entries are a prefix with
  distinct GUIDs, copies are disjoint) and relates every operation to the map from GUIDs to contents;
  the locale \<^verbatim>\<open>box_store\<close> is the view of a client that saves. \<^verbatim>\<open>LockBoxProps\<close>: what is saved
  is restored unchanged after any sequence of saves and any change to other memory; updates,
  refusals, and restoring everything in place.

  \<^bold>\<open>Firmware configuration.\<close> \<^verbatim>\<open>FwCfg\<close> models the library above a device that is a parameter, and the
  parser. \<^verbatim>\<open>FwCfgProps\<close>: lookup decides what the directory that the device publishes says, and a
  file is parsed to a number that fits its width, or a listed word, or rejected.

  \<^bold>\<open>Serialisation of variables.\<close> \<^verbatim>\<open>SerializeVars\<close> models the library with its growing buffer.
  \<^verbatim>\<open>SerializeVarsProps\<close>: what was added is what the buffer, an instance made from the buffer and an
  iteration deliver; which callback status an iteration passes on; a variable that can be lost.
  \<^verbatim>\<open>SerializeVarsSystem\<close> is the iteration over the variables of the system. \<^verbatim>\<open>NvVars\<close> models the library
  that keeps them in a file, \<^verbatim>\<open>NvVarsProps\<close> has the contracts of variable services and file system and the
  effect of saving and loading, \<^verbatim>\<open>NvVarsFile\<close> an instance of both and what survives a reboot.

  \<^bold>\<open>PCI capabilities.\<close> \<^verbatim>\<open>PciCap\<close> models the library; device and ordered collection are parameters, the
  loops are partial functions. \<^verbatim>\<open>PciCapInv\<close> describes the list as a function of the sequence of headers
  found, \<^verbatim>\<open>PciCapParse\<close> shows that parsing computes it and that the walks end since an offset
  seen twice is an error, so there are at most 1024 headers. \<^verbatim>\<open>PciCapProps\<close>: the regions of capabilities,
  and lookups; \<^verbatim>\<open>PciCapEx\<close> has a device on which they are applied.

  \<^bold>\<open>ACPI tables.\<close> \<^verbatim>\<open>PciDecoding\<close> models the decoding of PCI devices around the download, \<^verbatim>\<open>AcpiLoader\<close>
  the script with its commands, the two passes and the rollback. \<^verbatim>\<open>AcpiLoaderInv\<close> has the contracts of
  the environment and the invariant (blobs apart, in allocated pages, tracked by name),
  \<^verbatim>\<open>AcpiLoaderCmds\<close> the effect of each command, \<^verbatim>\<open>AcpiLoaderRun\<close> the first pass, \<^verbatim>\<open>AcpiLoaderTables\<close>
  the second pass and the release of the blobs, \<^verbatim>\<open>AcpiLoaderWhole\<close> and \<^verbatim>\<open>AcpiLoaderTop\<close> the script and the driver as
  a whole. \<^verbatim>\<open>AcpiLoaderProps\<close>: relocation, checksums, the tables installed, the boot script, and that a failure
  is rolled back while a success leaves what QEMU was told in place; \<^verbatim>\<open>AcpiLoaderDemo\<close> has the
  environment on which they are applied. Scripts that write over a relocated pointer are set apart: for these the
  driver fails an assertion.

  \<^bold>\<open>Virtio file system.\<close> \<^verbatim>\<open>VirtioFsPath\<close> models the state machine that writes a canonical path into a
  buffer. \<^verbatim>\<open>VirtioFsPathProps\<close> relates its position and buffer to a stack of components, and
  shows that appending a path is resolving its components on that stack; rename destinations
  follow. \<^verbatim>\<open>VirtioFsRequest\<close> has the state of the driver and the scatter-gather lists, \<^verbatim>\<open>VirtioFsFuse\<close> the FUSE
  commands (the \<^verbatim>\<open>Fuse*.c\<close>), \<^verbatim>\<open>VirtioFsFile\<close> attributes, parent directories and opening, \<^verbatim>\<open>VirtioFsIo\<close> reading,
  writing, directories, positions, closing and deletion, \<^verbatim>\<open>VirtioFsInfo\<close> getting and setting information
  (the \<^verbatim>\<open>SimpleFs*.c\<close>). \<^verbatim>\<open>VirtioFsSafe\<close> has triples for these operations and shows that a command stays inside
  its buffers whatever the device answers; \<^verbatim>\<open>VirtioFsCalm\<close> lifts this to what only talks to the device,
  \<^verbatim>\<open>VirtioFsSys\<close>, \<^verbatim>\<open>VirtioFsKeeps\<close> and \<^verbatim>\<open>VirtioFsWhole\<close> to every call, together with the well-formedness of the open files.
  \<^verbatim>\<open>VirtioFsServe\<close> is the contract of a server that keeps a file and the effect of the transfer loops under it, \<^verbatim>\<open>VirtioFsDemo\<close> a
  server that satisfies the contracts, and \<^verbatim>\<open>VirtioFsClaims\<close> the properties. Reading a directory may go on for as long as the
  device delivers entries that cannot be converted, so that loop has fuel; all other loops end.

  \<^bold>\<open>Parameters.\<close> What is not part of the repository is an argument: the host of the file system
  (device reads, allocation), page allocation and protocol installation of the boot services, checksum
  and number parsing routines of the base library, constants of the UEFI headers, and the firmware
  configuration device. Assumptions on them state documented behaviour and are hypotheses of the
  theorems that use them, each with a concrete instance in its witness.

  \<^bold>\<open>Not modelled.\<close> The UEFI side of the file system driver (\<^verbatim>\<open>fsw_efi.c\<close>) and the loader for APFS drivers
  bind the parts above to protocols. Of the virtio file system setting up and resetting the device
  (\<^verbatim>\<open>DriverBinding.c\<close>, \<^verbatim>\<open>VirtioFsInit\<close>) is left out. The other device drivers (virtio, Xen, SCSI, video, timers), platform initialisation, boot
  management and the compatibility support module are register and port access or calls to
  libraries outside the repository. The DMA handshake of the firmware configuration device and
  conversions of pointers to virtual addresses are left out for the same reason.
\<close>

end
